(* ===== verification/Prelude.thy ===== *)
theory Prelude
  imports Main "HOL-Library.AList" "HOL-Library.Char_ord"
begin

text \<open>
  Shared ground of the development: the exceptions the Python code raises, as values of one
  datatype; results as \<open>py_error + 'a\<close>; insertion-ordered dictionaries as association
  lists (on \<^theory_text>\<open>HOL-Library.AList\<close>); and the string operations of the Python
  standard library that the program uses (decimal conversion, \<open>split\<close>, \<open>join\<close>,
  \<open>replace\<close>, greedy backtracking \<open>re.match\<close> on the patterns that occur).

  A Python \<open>str\<close> is a \<open>string\<close>, that is a list of code points below 256. The
  predicates below (\<open>is_space\<close>, \<open>is_digit\<close>) agree with Python's \<open>\s\<close> and
  \<open>\d\<close> on that range.
\<close>

named_theorems od_simps "look-up and key laws of insertion-ordered dictionaries"
named_theorems str_simps "laws of the string operations"

section \<open>Exceptions and results\<close>

text \<open>\<open>Blocked\<close> and \<open>ProcessExit\<close> are not exceptions: a call that waits forever, and \<open>os._exit\<close>. No handler sees them.\<close>

datatype py_error =
    KeyError | IndexError | ValueError | RuntimeError | AttributeError | TypeError
  | FileNotFoundError | NotImplementedError | AssertionError | StopIteration
  | OverflowError | RecursionError | ConnectionError | DatabaseError
  | NoSectionError | NoOptionError | DuplicateSectionError | InterpolationError
  | JSONDecodeError | WorkerPoolFull | GenericException | OSError
  | DuplicateOptionError | ParsingError | NameError | Blocked | ProcessExit

type_synonym 'a result = "py_error + 'a"

definition res_bind :: "'a result \<Rightarrow> ('a \<Rightarrow> 'b result) \<Rightarrow> 'b result" where
  "res_bind r f = (case r of Inl e \<Rightarrow> Inl e | Inr x \<Rightarrow> f x)"

lemma res_bind_simps [simp]:
  "res_bind (Inl e) f = Inl e"
  "res_bind (Inr x) f = f x"
  by (simp_all add: res_bind_def)

lemma res_bind_eq_Inr: "res_bind r f = Inr y \<longleftrightarrow> (\<exists>x. r = Inr x \<and> f x = Inr y)"
  by (cases r) simp_all

lemma res_bind_eq_Inl:
  "res_bind r f = Inl e \<longleftrightarrow> r = Inl e \<or> (\<exists>x. r = Inr x \<and> f x = Inl e)"
  by (cases r) simp_all

lemma res_bind_assoc: "res_bind (res_bind r f) g = res_bind r (\<lambda>x. res_bind (f x) g)"
  by (cases r) simp_all

text \<open>A loop whose body may raise: the results in order, or the first exception.\<close>

fun res_map :: "('a \<Rightarrow> 'b result) \<Rightarrow> 'a list \<Rightarrow> 'b list result" where
  "res_map f [] = Inr []"
| "res_map f (x # xs) =
     res_bind (f x) (\<lambda>y. res_bind (res_map f xs) (\<lambda>ys. Inr (y # ys)))"

lemma res_map_all_Inr: "(\<And>x. x \<in> set xs \<Longrightarrow> f x = Inr (g x)) \<Longrightarrow> res_map f xs = Inr (map g xs)"
  by (induction xs) simp_all

lemma res_map_InrD: "res_map f xs = Inr ys \<Longrightarrow> x \<in> set xs \<Longrightarrow> \<exists>y. f x = Inr y \<and> y \<in> set ys"
  by (induction xs arbitrary: ys) (auto simp: res_bind_eq_Inr)

lemma res_map_nth: "res_map f xs = Inr ys \<Longrightarrow> length ys = length xs \<and> (\<forall>i < length xs. f (xs ! i) = Inr (ys ! i))"
  by (induction xs arbitrary: ys) (auto simp: res_bind_eq_Inr nth_Cons split: nat.splits)

lemma res_map_member: "res_map f xs = Inr ys \<Longrightarrow> x \<in> set xs \<Longrightarrow> f x = Inr y \<Longrightarrow> y \<in> set ys"
  by (induction xs arbitrary: ys) (auto simp: res_bind_eq_Inr)

fun res_fold :: "('a \<Rightarrow> 's \<Rightarrow> 's result) \<Rightarrow> 'a list \<Rightarrow> 's \<Rightarrow> 's result" where
  "res_fold f [] s = Inr s"
| "res_fold f (x # xs) s = res_bind (f x s) (res_fold f xs)"

lemma res_fold_append: "res_fold f (xs @ ys) s = res_bind (res_fold f xs s) (res_fold f ys)"
proof (induction xs arbitrary: s)
  case (Cons x xs)
  have "res_fold f (xs @ ys) = (\<lambda>s. res_bind (res_fold f xs s) (res_fold f ys))" by (rule ext) (rule Cons.IH)
  then show ?case by (simp add: res_bind_assoc)
qed simp

text \<open>Python indexing of a list: negative indices count from the end.\<close>

definition py_index :: "'a list \<Rightarrow> int \<Rightarrow> 'a result" where
  "py_index xs i =
     (let from_start = (if 0 \<le> i then i else i + int (length xs))
      in if from_start < 0 \<or> int (length xs) \<le> from_start then Inl IndexError
         else Inr (xs ! nat from_start))"

lemma py_index_nat [simp]:
  "py_index xs (int n) = (if n < length xs then Inr (xs ! n) else Inl IndexError)"
  by (simp add: py_index_def)

lemma py_index_last [simp]:
  "py_index xs (- 1) = (if xs = [] then Inl IndexError else Inr (last xs))"
  by (cases xs rule: rev_cases) (simp_all add: py_index_def nth_append)

lemma find_SomeD: "find P xs = Some x \<Longrightarrow> x \<in> set xs \<and> P x"
  by (induction xs) (auto split: if_splits)

section \<open>Insertion-ordered dictionaries\<close>

text \<open>
  \<open>dict\<close> and \<open>OrderedDict\<close> keep the order of first insertion; assigning to a present
  key keeps its place. An association list with distinct keys, updated by
  \<open>AList.update\<close>, does the same.
\<close>

type_synonym ('k, 'v) odict = "('k \<times> 'v) list"

definition od_keys :: "('k, 'v) odict \<Rightarrow> 'k list" where
  "od_keys d = map fst d"

definition od_values :: "('k, 'v) odict \<Rightarrow> 'v list" where
  "od_values d = map snd d"

definition od_get :: "('k, 'v) odict \<Rightarrow> 'k \<Rightarrow> 'v option" where
  "od_get d k = map_of d k"

definition od_set :: "'k \<Rightarrow> 'v \<Rightarrow> ('k, 'v) odict \<Rightarrow> ('k, 'v) odict" where
  "od_set k v d = AList.update k v d"

definition od_del :: "'k \<Rightarrow> ('k, 'v) odict \<Rightarrow> ('k, 'v) odict" where
  "od_del k d = AList.delete k d"

text \<open>\<open>d[k]\<close> and \<open>d.pop(k)\<close> raise \<open>KeyError\<close> on a missing key.\<close>

definition od_item :: "('k, 'v) odict \<Rightarrow> 'k \<Rightarrow> 'v result" where
  "od_item d k = (case od_get d k of None \<Rightarrow> Inl KeyError | Some v \<Rightarrow> Inr v)"

definition od_pop :: "'k \<Rightarrow> ('k, 'v) odict \<Rightarrow> ('v \<times> ('k, 'v) odict) result" where
  "od_pop k d = (case od_get d k of None \<Rightarrow> Inl KeyError | Some v \<Rightarrow> Inr (v, od_del k d))"

text \<open>\<open>OrderedDict.move_to_end(k)\<close> and \<open>OrderedDict.popitem(last=False)\<close>.\<close>

definition od_move_to_end :: "'k \<Rightarrow> ('k, 'v) odict \<Rightarrow> ('k, 'v) odict result" where
  "od_move_to_end k d =
     (case od_get d k of None \<Rightarrow> Inl KeyError | Some v \<Rightarrow> Inr (od_del k d @ [(k, v)]))"

definition od_popitem_first :: "('k, 'v) odict \<Rightarrow> (('k \<times> 'v) \<times> ('k, 'v) odict) result" where
  "od_popitem_first d = (case d of [] \<Rightarrow> Inl KeyError | kv # d' \<Rightarrow> Inr (kv, d'))"

text \<open>\<open>d.update(other)\<close> and \<open>dict(pairs)\<close>: the pairs one by one.\<close>

definition od_update_all :: "('k, 'v) odict \<Rightarrow> ('k, 'v) odict \<Rightarrow> ('k, 'v) odict" where
  "od_update_all d kvs = fold (\<lambda>(k, v). od_set k v) kvs d"

lemma od_get_set [od_simps]: "od_get (od_set k v d) k' = (if k' = k then Some v else od_get d k')"
  by (simp add: od_get_def od_set_def update_conv')

lemma od_get_del [od_simps]: "od_get (od_del k d) k' = (if k' = k then None else od_get d k')"
  by (simp add: od_get_def od_del_def delete_conv')

lemma od_get_empty [od_simps]: "od_get [] k = None"
  by (simp add: od_get_def)

lemma od_get_append [od_simps]:
  "od_get (d @ e) k = (case od_get d k of None \<Rightarrow> od_get e k | Some v \<Rightarrow> Some v)"
  by (auto simp add: od_get_def map_add_def split: option.splits)

lemma od_get_Cons [od_simps]:
  "od_get ((k, v) # d) k' = (if k' = k then Some v else od_get d k')"
  by (simp add: od_get_def)

lemma od_get_None_iff: "od_get d k = None \<longleftrightarrow> k \<notin> set (od_keys d)"
  by (simp add: od_get_def od_keys_def map_of_eq_None_iff)

lemma od_get_SomeD: "od_get d k = Some v \<Longrightarrow> (k, v) \<in> set d"
  by (simp add: od_get_def map_of_SomeD)

lemma od_get_Some_iff: "distinct (od_keys d) \<Longrightarrow> od_get d k = Some v \<longleftrightarrow> (k, v) \<in> set d"
  by (simp add: od_get_def od_keys_def)

lemma od_keys_empty [od_simps]: "od_keys [] = []"
  by (simp add: od_keys_def)

lemma od_keys_append [od_simps]: "od_keys (d @ e) = od_keys d @ od_keys e"
  by (simp add: od_keys_def)

lemma od_keys_Cons [od_simps]: "od_keys (kv # d) = fst kv # od_keys d"
  by (simp add: od_keys_def)

lemma set_od_keys_set [od_simps]: "set (od_keys (od_set k v d)) = insert k (set (od_keys d))"
  by (simp add: od_keys_def od_set_def dom_update)

lemma set_od_keys_del [od_simps]: "set (od_keys (od_del k d)) = set (od_keys d) - {k}"
  by (auto simp add: od_keys_def od_del_def AList.delete_eq)

lemma distinct_od_set [od_simps]: "distinct (od_keys d) \<Longrightarrow> distinct (od_keys (od_set k v d))"
  by (simp add: od_keys_def od_set_def distinct_update)

lemma distinct_od_del [od_simps]: "distinct (od_keys d) \<Longrightarrow> distinct (od_keys (od_del k d))"
  by (simp add: od_keys_def od_del_def distinct_delete)

lemma od_del_idem: "k \<notin> set (od_keys d) \<Longrightarrow> od_del k d = d"
  by (simp add: od_del_def od_keys_def delete_id)

lemma od_del_append [od_simps]: "od_del k (d @ e) = od_del k d @ od_del k e"
  by (simp add: od_del_def AList.delete_eq)

lemma od_del_Cons [od_simps]: "od_del k (kv # d) = (if fst kv = k then od_del k d else kv # od_del k d)"
  by (simp add: od_del_def)

lemma od_del_Nil [od_simps]: "od_del k [] = []"
  by (simp add: od_del_def)

lemma od_del_twice [od_simps]: "od_del k (od_del k d) = od_del k d"
  by (rule od_del_idem) (simp add: od_simps)

lemma od_set_new: "k \<notin> set (od_keys d) \<Longrightarrow> od_set k v d = d @ [(k, v)]"
  unfolding od_set_def od_keys_def by (induction d) auto

lemma length_od_del_present:
  "distinct (od_keys d) \<Longrightarrow> k \<in> set (od_keys d) \<Longrightarrow> Suc (length (od_del k d)) = length d"
proof (induction d)
  case Nil
  then show ?case by (simp add: od_keys_def)
next
  case (Cons kv d)
  show ?case
  proof (cases "fst kv = k")
    case True
    with Cons.prems have "k \<notin> set (od_keys d)" by (auto simp: od_keys_def)
    then have "od_del k d = d" by (rule od_del_idem)
    with True show ?thesis by (simp add: od_del_def)
  next
    case False
    with Cons have "Suc (length (od_del k d)) = length d"
      by (auto simp: od_keys_def)
    with False show ?thesis by (simp add: od_del_def)
  qed
qed

lemma set_od_del: "distinct (od_keys d) \<Longrightarrow> set (od_del k d) = {kv \<in> set d. fst kv \<noteq> k}"
  by (auto simp: od_del_def AList.delete_eq)

lemma od_item_Inr: "od_item d k = Inr v \<longleftrightarrow> od_get d k = Some v"
  by (simp add: od_item_def split: option.splits)

lemma od_get_update_all:
  "od_get (od_update_all d kvs) k =
     (case od_get (rev kvs) k of None \<Rightarrow> od_get d k | Some v \<Rightarrow> Some v)"
proof (induction kvs arbitrary: d)
  case Nil
  then show ?case by (simp add: od_update_all_def od_simps)
next
  case (Cons kv kvs)
  obtain k0 v0 where [simp]: "kv = (k0, v0)" by fastforce
  have "od_update_all d (kv # kvs) = od_update_all (od_set k0 v0 d) kvs"
    by (simp add: od_update_all_def)
  with Cons.IH [of "od_set k0 v0 d"] show ?case
    by (auto simp: od_simps split: option.splits)
qed

end
