(* ===== verification/PyString.thy ===== *)
theory PyString
  imports Prelude
begin

text \<open>
  The string operations of Python's standard library that the program calls: character
  classes, decimal conversion (\<open>str(int)\<close>, \<open>int(str)\<close>), \<open>split\<close>, \<open>join\<close>,
  \<open>startswith\<close>, \<open>replace\<close>, and \<open>re.match\<close> / \<open>re.search\<close> for patterns that are
  sequences of literals and greedy, capturing repetitions of a character class, with the
  backtracking order of Python's engine (longest repetition first).
\<close>

section \<open>Characters\<close>

definition is_digit :: "char \<Rightarrow> bool" where
  "is_digit c \<longleftrightarrow> 48 \<le> (of_char c :: nat) \<and> (of_char c :: nat) \<le> 57"

definition is_space :: "char \<Rightarrow> bool" where
  "is_space c \<longleftrightarrow> (of_char c :: nat) \<in> {9, 10, 11, 12, 13, 28, 29, 30, 31, 32, 133, 160}"

definition not_space :: "char \<Rightarrow> bool" where
  "not_space c \<longleftrightarrow> \<not> is_space c"

lemma is_digit_not_space: "is_digit c \<Longrightarrow> not_space c"
  by (auto simp: is_digit_def not_space_def is_space_def)

lemma digit_not_dot: "is_digit c \<Longrightarrow> c \<noteq> CHR ''.'' \<and> c \<noteq> CHR '':'' \<and> c \<noteq> CHR ''-''"
  by (auto simp: is_digit_def)

section \<open>Decimal conversion\<close>

definition digit_char :: "nat \<Rightarrow> char" where
  "digit_char d = char_of (48 + d)"

definition digit_val :: "char \<Rightarrow> nat" where
  "digit_val c = of_char c - 48"

fun nat_str :: "nat \<Rightarrow> string" where
  "nat_str n = (if n < 10 then [digit_char n] else nat_str (n div 10) @ [digit_char (n mod 10)])"

declare nat_str.simps [simp del]

definition nat_of_str :: "string \<Rightarrow> nat" where
  "nat_of_str s = foldl (\<lambda>a c. 10 * a + digit_val c) 0 s"

definition int_str :: "int \<Rightarrow> string" where
  "int_str i = (if i < 0 then CHR ''-'' # nat_str (nat (- i)) else nat_str (nat i))"

lemma of_char_digit_char: "d < 10 \<Longrightarrow> (of_char (digit_char d) :: nat) = 48 + d"
  by (simp add: digit_char_def)

lemma digit_val_char [simp]: "d < 10 \<Longrightarrow> digit_val (digit_char d) = d"
  by (simp add: digit_val_def of_char_digit_char)

lemma is_digit_char: "d < 10 \<Longrightarrow> is_digit (digit_char d)"
  by (simp add: is_digit_def of_char_digit_char)

lemma nat_str_nonempty [simp]: "nat_str n \<noteq> []"
  by (subst nat_str.simps) simp

lemma nat_str_digits: "\<forall>c \<in> set (nat_str n). is_digit c"
proof (induction n rule: nat_str.induct)
  case (1 n)
  then show ?case by (subst nat_str.simps) (auto simp: is_digit_char)
qed

lemma nat_of_str_snoc: "nat_of_str (s @ [c]) = 10 * nat_of_str s + digit_val c"
  by (simp add: nat_of_str_def)

lemma nat_of_str_nat_str [str_simps]: "nat_of_str (nat_str n) = n"
proof (induction n rule: nat_str.induct)
  case (1 n)
  show ?case
  proof (cases "n < 10")
    case True
    then show ?thesis by (subst nat_str.simps) (simp add: nat_of_str_def)
  next
    case False
    with "1.IH" have "nat_of_str (nat_str (n div 10)) = n div 10" by simp
    with False show ?thesis by (subst nat_str.simps) (simp add: nat_of_str_snoc)
  qed
qed

lemma nat_str_inj: "nat_str m = nat_str n \<longleftrightarrow> m = n"
  by (metis nat_of_str_nat_str)

lemma int_str_nonneg: "0 \<le> i \<Longrightarrow> int_str i = nat_str (nat i)"
  by (simp add: int_str_def)

lemma int_str_nonempty [simp]: "int_str i \<noteq> []"
  by (simp add: int_str_def)

lemma int_str_digits: "0 \<le> i \<Longrightarrow> \<forall>c \<in> set (int_str i). is_digit c"
  by (simp add: int_str_nonneg nat_str_digits)

lemma int_str_inj: "int_str i = int_str j \<longleftrightarrow> i = j"
proof
  assume eq: "int_str i = int_str j"
  have nodash: "hd (nat_str n) \<noteq> CHR ''-''" for n
    using nat_str_digits [of n] digit_not_dot nat_str_nonempty [of n] by (metis list.set_sel(1))
  show "i = j"
  proof (cases "i < 0")
    case True
    with eq nodash [of "nat j"] have "j < 0"
      by (metis int_str_def list.sel(1))
    with True eq show ?thesis by (simp add: int_str_def nat_str_inj)
  next
    case False
    with eq nodash [of "nat i"] have "\<not> j < 0"
      by (metis int_str_def list.sel(1))
    with False eq show ?thesis by (simp add: int_str_def nat_str_inj)
  qed
qed simp

section \<open>Prefixes, join, split, replace\<close>

definition starts_with :: "string \<Rightarrow> string \<Rightarrow> bool" where
  "starts_with p s \<longleftrightarrow> take (length p) s = p"

lemma starts_with_append [simp]: "starts_with p (p @ s)"
  by (simp add: starts_with_def)

lemma starts_with_iff: "starts_with p s \<longleftrightarrow> (\<exists>t. s = p @ t)"
  by (metis append_take_drop_id starts_with_append starts_with_def)

fun str_join :: "string \<Rightarrow> string list \<Rightarrow> string" where
  "str_join sep [] = []"
| "str_join sep [x] = x"
| "str_join sep (x # y # ys) = x @ sep @ str_join sep (y # ys)"

text \<open>\<open>s.split(sep)\<close> for a non-empty separator: the field read so far is kept reversed.\<close>

function split_go :: "string \<Rightarrow> string \<Rightarrow> string \<Rightarrow> string list" where
  "split_go sep acc s =
     (if s = [] then [rev acc]
      else if sep \<noteq> [] \<and> starts_with sep s then rev acc # split_go sep [] (drop (length sep) s)
      else split_go sep (hd s # acc) (tl s))"
  by pat_completeness auto
termination
  by (relation "measure (\<lambda>(sep, acc, s). length s)") auto

declare split_go.simps [simp del]

definition str_split :: "string \<Rightarrow> string \<Rightarrow> string list" where
  "str_split sep s = split_go sep [] s"

lemma split_go_field:
  assumes "sep \<noteq> []" and "hd sep \<notin> set x"
  shows "split_go sep acc (x @ sep @ r) = (rev acc @ x) # split_go sep [] r"
  using assms(2)
proof (induction x arbitrary: acc)
  case Nil
  with assms(1) show ?case
    by (subst split_go.simps) (simp add: starts_with_def)
next
  case (Cons c x)
  then have "\<not> starts_with sep (c # x @ sep @ r)"
    using assms(1) by (cases sep) (auto simp: starts_with_def)
  with Cons show ?case
    by (subst split_go.simps) simp
qed

lemma split_go_last:
  assumes "sep \<noteq> []" and "hd sep \<notin> set x"
  shows "split_go sep acc x = [rev acc @ x]"
  using assms(2)
proof (induction x arbitrary: acc)
  case Nil
  then show ?case by (subst split_go.simps) simp
next
  case (Cons c x)
  then have "\<not> starts_with sep (c # x)"
    using assms(1) by (cases sep) (auto simp: starts_with_def)
  with Cons show ?case
    by (subst split_go.simps) simp
qed

lemma str_split_field [str_simps]:
  "sep \<noteq> [] \<Longrightarrow> hd sep \<notin> set x \<Longrightarrow> str_split sep (x @ sep @ r) = x # str_split sep r"
  by (simp add: str_split_def split_go_field)

lemma str_split_last [str_simps]:
  "sep \<noteq> [] \<Longrightarrow> hd sep \<notin> set x \<Longrightarrow> str_split sep x = [x]"
  using split_go_last [of sep x "[]"] by (simp add: str_split_def)

lemma split_join:
  "sep \<noteq> [] \<Longrightarrow> xs \<noteq> [] \<Longrightarrow> \<forall>x \<in> set xs. hd sep \<notin> set x \<Longrightarrow> str_split sep (str_join sep xs) = xs"
  by (induction sep xs rule: str_join.induct) (simp_all add: str_simps)

text \<open>\<open>s.replace(old, new)\<close> with a non-empty \<open>old\<close>.\<close>

definition str_replace :: "string \<Rightarrow> string \<Rightarrow> string \<Rightarrow> string" where
  "str_replace old new s = str_join new (str_split old s)"

lemma str_replace_absent: "old \<noteq> [] \<Longrightarrow> hd old \<notin> set s \<Longrightarrow> str_replace old new s = s"
  by (simp add: str_replace_def str_simps)

text \<open>\<open>s.split()\<close>: maximal runs of non-space characters.\<close>

fun split_ws_go :: "string \<Rightarrow> string \<Rightarrow> string list" where
  "split_ws_go acc [] = (if acc = [] then [] else [rev acc])"
| "split_ws_go acc (c # s) =
     (if is_space c then (if acc = [] then split_ws_go [] s else rev acc # split_ws_go [] s)
      else split_ws_go (c # acc) s)"

definition split_ws :: "string \<Rightarrow> string list" where
  "split_ws s = split_ws_go [] s"

lemma split_ws_go_no_space:
  "c \<in> set (concat (split_ws_go acc s)) \<Longrightarrow> (\<forall>a \<in> set acc. not_space a) \<Longrightarrow> not_space c"
  by (induction acc s rule: split_ws_go.induct) (auto simp: not_space_def split: if_splits)

text \<open>\<open>s.strip()\<close>.\<close>

definition str_strip :: "string \<Rightarrow> string" where
  "str_strip s = rev (dropWhile is_space (rev (dropWhile is_space s)))"

definition str_rstrip :: "string \<Rightarrow> string" where
  "str_rstrip s = rev (dropWhile is_space (rev s))"

text \<open>\<open>os.path.join(a, b)\<close> on POSIX.\<close>

definition path_join :: "string \<Rightarrow> string \<Rightarrow> string" where
  "path_join a b =
     (if starts_with ''/'' b \<or> a = [] then b
      else if last a = CHR ''/'' then a @ b else a @ ''/'' @ b)"

text \<open>\<open>s.encode("utf-8")\<close>: code points from 128 to 255 take two bytes.\<close>

definition utf8_char :: "char \<Rightarrow> string" where
  "utf8_char c = (let n = (of_char c :: nat) in
     if n < 128 then [c] else [char_of (192 + n div 64), char_of (128 + n mod 64)])"

definition utf8 :: "string \<Rightarrow> string" where
  "utf8 s = concat (map utf8_char s)"

lemma utf8_lead_byte:
  "(n::nat) < 256 \<Longrightarrow> (of_char (char_of (192 + n div 64) :: char) :: nat) = 192 + n div 64"
  "(n::nat) < 256 \<Longrightarrow> (of_char (char_of (128 + n mod 64) :: char) :: nat) = 128 + n mod 64"
  by (auto simp: of_char_of)

lemma utf8_char_prefix:
  assumes eq: "utf8_char c @ s = utf8_char d @ t"
  shows "c = d \<and> s = t"
proof -
  let ?n = "of_char c :: nat" and ?m = "of_char d :: nat"
  have lt: "?n < 256" "?m < 256"
    using of_char_mod_256 [of c, where ?'a = nat] of_char_mod_256 [of d, where ?'a = nat]
    by (metis mod_less_divisor zero_less_numeral)+
  consider "?n < 128" "?m < 128" | "?n < 128" "\<not> ?m < 128" | "\<not> ?n < 128" "?m < 128"
    | "\<not> ?n < 128" "\<not> ?m < 128" by blast
  then show ?thesis
  proof cases
    case 2
    with eq have "c = char_of (192 + ?m div 64)" by (simp add: utf8_char_def Let_def)
    with 2 utf8_lead_byte(1) [OF lt(2)] show ?thesis by simp
  next
    case 3
    with eq have "d = char_of (192 + ?n div 64)" by (simp add: utf8_char_def Let_def)
    with 3 utf8_lead_byte(1) [OF lt(1)] show ?thesis by simp
  next
    case 4
    with eq have "(char_of (192 + ?n div 64) :: char) = char_of (192 + ?m div 64)"
      "(char_of (128 + ?n mod 64) :: char) = char_of (128 + ?m mod 64)" and st: "s = t"
      by (simp_all add: utf8_char_def Let_def)
    then have "?n div 64 = ?m div 64" and "?n mod 64 = ?m mod 64"
      by (metis add_left_cancel lt utf8_lead_byte)+
    then have "?n = ?m" by (metis mult_div_mod_eq)
    with st show ?thesis by simp
  qed (use eq in \<open>simp_all add: utf8_char_def Let_def\<close>)
qed

lemma utf8_inj: "utf8 s = utf8 t \<longleftrightarrow> s = t"
proof (rule iffI)
  show "utf8 s = utf8 t \<Longrightarrow> s = t"
  proof (induction s arbitrary: t)
    case Nil
    then show ?case by (cases t) (auto simp: utf8_def utf8_char_def Let_def split: if_splits)
  next
    case (Cons c s)
    then obtain d t' where t: "t = d # t'"
      by (cases t) (auto simp: utf8_def utf8_char_def Let_def split: if_splits)
    with Cons.prems have "utf8_char c @ utf8 s = utf8_char d @ utf8 t'" by (simp add: utf8_def)
    then have "c = d \<and> utf8 s = utf8 t'" by (rule utf8_char_prefix)
    with Cons.IH t show ?case by simp
  qed
qed simp

section \<open>Regular expressions\<close>

text \<open>
  A pattern is a list of items. Groups capture: \<open>RPlus p\<close> is \<open>(p+)\<close>, \<open>RStar p\<close> is
  \<open>(p*)\<close>; \<open>RSkip p\<close> is \<open>p*\<close> and \<open>ROne p\<close> is \<open>p\<close>, without a group. \<open>re_match\<close> returns the captured groups
  and the unread rest, as \<open>re.match\<close> does: the match starts at the first character and may
  end anywhere.
\<close>

datatype re_item = RLit string | RPlus "char \<Rightarrow> bool" | RStar "char \<Rightarrow> bool" | RSkip "char \<Rightarrow> bool" | ROne "char \<Rightarrow> bool"

fun first_some :: "('a \<Rightarrow> 'b option) \<Rightarrow> 'a list \<Rightarrow> 'b option" where
  "first_some f [] = None"
| "first_some f (x # xs) = (case f x of Some y \<Rightarrow> Some y | None \<Rightarrow> first_some f xs)"

definition down_from :: "nat \<Rightarrow> nat \<Rightarrow> nat list" where
  "down_from hi lo = rev [lo..<Suc hi]"

fun re_match :: "re_item list \<Rightarrow> string \<Rightarrow> (string list \<times> string) option" where
  "re_match [] s = Some ([], s)"
| "re_match (RLit l # r) s = (if starts_with l s then re_match r (drop (length l) s) else None)"
| "re_match (RPlus p # r) s =
     first_some (\<lambda>k. map_option (\<lambda>(gs, t). (take k s # gs, t)) (re_match r (drop k s)))
       (down_from (length (takeWhile p s)) 1)"
| "re_match (RStar p # r) s =
     first_some (\<lambda>k. map_option (\<lambda>(gs, t). (take k s # gs, t)) (re_match r (drop k s)))
       (down_from (length (takeWhile p s)) 0)"
| "re_match (RSkip p # r) s =
     first_some (\<lambda>k. re_match r (drop k s)) (down_from (length (takeWhile p s)) 0)"
| "re_match (ROne p # r) s = (case s of [] \<Rightarrow> None | c # t \<Rightarrow> if p c then re_match r t else None)"

text \<open>\<open>re.search\<close>: the leftmost position where the pattern matches.\<close>

fun re_search :: "re_item list \<Rightarrow> string \<Rightarrow> (string list \<times> string) option" where
  "re_search r [] = re_match r []"
| "re_search r (c # s) = (case re_match r (c # s) of Some m \<Rightarrow> Some m | None \<Rightarrow> re_search r s)"

lemma first_some_SomeD: "first_some f xs = Some y \<Longrightarrow> \<exists>x \<in> set xs. f x = Some y"
  by (induction xs) (auto split: option.splits)

lemma first_some_append:
  "first_some f (xs @ ys) = (case first_some f xs of Some y \<Rightarrow> Some y | None \<Rightarrow> first_some f ys)"
  by (induction xs) (auto split: option.splits)

lemma first_some_None: "(\<And>x. x \<in> set xs \<Longrightarrow> f x = None) \<Longrightarrow> first_some f xs = None"
  by (induction xs) auto

text \<open>The longest repetition that lets the rest match is the one chosen.\<close>

lemma first_some_down:
  assumes "lo \<le> k" and "k \<le> hi" and "f k = Some y" and "\<And>j. k < j \<Longrightarrow> j \<le> hi \<Longrightarrow> f j = None"
  shows "first_some f (down_from hi lo) = Some y"
proof -
  have "[lo..<Suc hi] = [lo..<k] @ k # [Suc k..<Suc hi]"
    using assms(1,2) by (metis le_imp_less_Suc less_imp_le_nat upt_add_eq_append upt_conv_Cons le_Suc_ex)
  then have split: "down_from hi lo = rev [Suc k..<Suc hi] @ k # rev [lo..<k]"
    by (simp add: down_from_def)
  have "first_some f (rev [Suc k..<Suc hi]) = None"
    by (rule first_some_None) (auto intro: assms(4))
  with assms(3) split show ?thesis by (simp add: first_some_append)
qed

lemma re_match_plus_exact:
  assumes "x \<noteq> []" and "\<forall>c \<in> set x. p c" and "re_match r rest = Some (gs, t)"
    and "\<And>k. 0 < k \<Longrightarrow> re_match r (drop k rest) = None"
  shows "re_match (RPlus p # r) (x @ rest) = Some (x # gs, t)"
proof -
  have tw: "length (takeWhile p (x @ rest)) = length x + length (takeWhile p rest)"
    using assms(2) by (simp add: takeWhile_append)
  show ?thesis
    unfolding re_match.simps
  proof (rule first_some_down [of _ "length x"])
    show "1 \<le> length x" using assms(1) by (cases x) auto
    show "length x \<le> length (takeWhile p (x @ rest))" by (simp only: tw)
    show "map_option (\<lambda>(gs, t). (take (length x) (x @ rest) # gs, t))
        (re_match r (drop (length x) (x @ rest))) = Some (x # gs, t)"
      by (simp add: assms(3))
    fix j
    assume "length x < j"
    then have "drop j (x @ rest) = drop (j - length x) rest" and "0 < j - length x" by simp_all
    then show "map_option (\<lambda>(gs, t). (take j (x @ rest) # gs, t))
        (re_match r (drop j (x @ rest))) = None"
      by (simp add: assms(4))
  qed
qed

text \<open>A match contains every literal of the pattern: a bound on character counts.\<close>

fun lit_count :: "char \<Rightarrow> re_item list \<Rightarrow> nat" where
  "lit_count c [] = 0"
| "lit_count c (RLit l # r) = count_list l c + lit_count c r"
| "lit_count c (_ # r) = lit_count c r"

lemma count_list_take_drop: "count_list s c = count_list (take k s) c + count_list (drop k s) c"
  by (metis append_take_drop_id count_list_append)

lemma count_list_drop_le: "count_list (drop k s) c \<le> count_list s c"
  by (simp add: count_list_take_drop [of s c k])

lemma re_match_count: "re_match r s = Some m \<Longrightarrow> lit_count c r \<le> count_list s c"
proof (induction r s arbitrary: m rule: re_match.induct)
  case (2 l r s)
  then have "lit_count c r \<le> count_list (drop (length l) s) c" and "starts_with l s"
    by (auto split: if_splits)
  moreover from this(2) obtain t where "s = l @ t" by (auto simp: starts_with_iff)
  ultimately show ?case by simp
next
  case (3 p r s)
  from "3.prems" obtain k m' where "re_match r (drop k s) = Some m'" "k \<in> set (down_from (length (takeWhile p s)) 1)"
    by (auto dest!: first_some_SomeD)
  then have "lit_count c r \<le> count_list (drop k s) c" by (blast intro: "3.IH")
  with count_list_drop_le [of k s c] show ?case by simp
next
  case (4 p r s)
  from "4.prems" obtain k m' where "re_match r (drop k s) = Some m'" "k \<in> set (down_from (length (takeWhile p s)) 0)"
    by (auto dest!: first_some_SomeD)
  then have "lit_count c r \<le> count_list (drop k s) c" by (blast intro: "4.IH")
  with count_list_drop_le [of k s c] show ?case by simp
next
  case (5 p r s)
  from "5.prems" obtain k where "re_match r (drop k s) = Some m" "k \<in> set (down_from (length (takeWhile p s)) 0)"
    by (auto dest!: first_some_SomeD)
  then have "lit_count c r \<le> count_list (drop k s) c" by (blast intro: "5.IH")
  with count_list_drop_le [of k s c] show ?case by simp
next
  case (6 p r s)
  then obtain a t where s: "s = a # t" "re_match r t = Some m" "p a"
    by (auto split: list.splits if_splits)
  then have "lit_count c r \<le> count_list t c" using "6.IH" by blast
  with s(1) show ?case by (simp add: le_Suc_eq)
qed simp

lemma re_match_too_few: "count_list s c < lit_count c r \<Longrightarrow> re_match r s = None"
  by (meson leD not_Some_eq re_match_count)

text \<open>The last repetition of a pattern takes the whole run.\<close>

lemma re_match_plus_end:
  assumes "x \<noteq> []" and "\<forall>c \<in> set x. p c"
  shows "re_match [RPlus p] x = Some ([x], [])"
proof -
  have "length (takeWhile p x) = length x" using assms(2) by (metis takeWhile_eq_all_conv)
  with assms(1) show ?thesis
    by (cases x rule: rev_cases) (simp_all add: down_from_def)
qed

text \<open>The same for repetitions that may be empty: it is enough to look at the rest of the run.\<close>

lemma re_match_star_exact:
  assumes "\<forall>c \<in> set x. p c" and "re_match r rest = Some (gs, t)"
    and "\<And>k. 0 < k \<Longrightarrow> k \<le> length (takeWhile p rest) \<Longrightarrow> re_match r (drop k rest) = None"
  shows "re_match (RStar p # r) (x @ rest) = Some (x # gs, t)"
proof -
  have tw: "length (takeWhile p (x @ rest)) = length x + length (takeWhile p rest)"
    using assms(1) by (simp add: takeWhile_append)
  show ?thesis
    unfolding re_match.simps
  proof (rule first_some_down [of _ "length x"])
    show "length x \<le> length (takeWhile p (x @ rest))" by (simp only: tw)
    show "map_option (\<lambda>(gs, t). (take (length x) (x @ rest) # gs, t))
        (re_match r (drop (length x) (x @ rest))) = Some (x # gs, t)"
      by (simp add: assms(2))
    fix j
    assume j: "length x < j" "j \<le> length (takeWhile p (x @ rest))"
    then have "drop j (x @ rest) = drop (j - length x) rest" and "0 < j - length x"
      and "j - length x \<le> length (takeWhile p rest)" by (simp_all only: tw) simp_all
    then show "map_option (\<lambda>(gs, t). (take j (x @ rest) # gs, t))
        (re_match r (drop j (x @ rest))) = None"
      by (simp add: assms(3))
  qed simp
qed

lemma re_match_skip_exact:
  assumes "\<forall>c \<in> set x. p c" and "re_match r rest = Some m"
    and "\<And>k. 0 < k \<Longrightarrow> k \<le> length (takeWhile p rest) \<Longrightarrow> re_match r (drop k rest) = None"
  shows "re_match (RSkip p # r) (x @ rest) = Some m"
proof -
  have tw: "length (takeWhile p (x @ rest)) = length x + length (takeWhile p rest)"
    using assms(1) by (simp add: takeWhile_append)
  show ?thesis
    unfolding re_match.simps
  proof (rule first_some_down [of _ "length x"])
    show "length x \<le> length (takeWhile p (x @ rest))" by (simp only: tw)
    show "re_match r (drop (length x) (x @ rest)) = Some m" by (simp add: assms(2))
    fix j
    assume j: "length x < j" "j \<le> length (takeWhile p (x @ rest))"
    then have "drop j (x @ rest) = drop (j - length x) rest" and "0 < j - length x"
      and "j - length x \<le> length (takeWhile p rest)" by (simp_all only: tw) simp_all
    then show "re_match r (drop j (x @ rest)) = None" by (simp add: assms(3))
  qed simp
qed

lemma re_match_star_end: "re_match [RStar p] s = Some ([takeWhile p s], dropWhile p s)"
proof -
  have "take (length (takeWhile p s)) s = takeWhile p s" "drop (length (takeWhile p s)) s = dropWhile p s"
    by (metis append_eq_conv_conj takeWhile_dropWhile_id)+
  then show ?thesis by (simp add: down_from_def)
qed

lemma re_search_here: "re_match r s = Some m \<Longrightarrow> re_search r s = Some m"
  by (cases s) simp_all

lemma re_match_Nil [simp]: "re_match [] s = Some ([], s)"
  by simp

lemma re_match_lit [simp]: "re_match (RLit l # r) (l @ s) = re_match r s"
  by simp

lemma re_match_lit_Cons [simp]: "re_match (RLit [c] # r) (c # s) = re_match r s"
  by (simp add: starts_with_def)

declare re_match.simps [simp del]

end
