(* ===== verification/Version.thy ===== *)
theory Version
  imports PyString
begin

text \<open>
  \<^verbatim>\<open>pysrc/pipeman/version.py\<close>: semantic versions \<open>branch.api.inc\<close>, their printed form,
  the regular-expression parser and the comparison. Printing and
  parsing are inverse on exactly the versions the parser can return.
\<close>

section \<open>SemanticVersion\<close>

record semantic_version =
  branch :: string
  api_version :: int
  inc_version :: int

definition DEFAULT_BRANCH :: string where
  "DEFAULT_BRANCH = ''master''"

definition mk_version :: "string \<Rightarrow> int \<Rightarrow> int \<Rightarrow> semantic_version" where
  "mk_version b a i = \<lparr>branch = b, api_version = a, inc_version = i\<rparr>"

definition version_str :: "semantic_version \<Rightarrow> string" where
  "version_str v = branch v @ ''.'' @ int_str (api_version v) @ ''.'' @ int_str (inc_version v)"

definition REGEX_VERSION_STR :: "re_item list" where
  "REGEX_VERSION_STR =
     [RPlus not_space, RLit ''.'', RPlus is_digit, RLit ''.'', RPlus is_digit]"

definition from_version_str :: "string \<Rightarrow> semantic_version result" where
  "from_version_str s =
     (case re_match REGEX_VERSION_STR s of
        Some ([b, a, i], _) \<Rightarrow> Inr (mk_version b (int (nat_of_str a)) (int (nat_of_str i)))
      | _ \<Rightarrow> Inl RuntimeError)"

definition build_zero_version :: semantic_version where
  "build_zero_version = mk_version DEFAULT_BRANCH 0 0"

definition version_equals :: "semantic_version \<Rightarrow> semantic_version \<Rightarrow> bool" where
  "version_equals v w \<longleftrightarrow>
     branch v = branch w \<and> api_version v = api_version w \<and> inc_version v = inc_version w"

lemma mk_version_simps [simp]:
  "branch (mk_version b a i) = b"
  "api_version (mk_version b a i) = a"
  "inc_version (mk_version b a i) = i"
  by (simp_all add: mk_version_def)

lemma version_equals_eq [simp]: "version_equals v w \<longleftrightarrow> v = w"
  by (auto simp: version_equals_def)

lemma version_eta: "mk_version (branch v) (api_version v) (inc_version v) = v"
  by (simp add: mk_version_def)

section \<open>Well-formed versions\<close>

text \<open>What every version built by the program satisfies: a branch without white space, and
  version numbers that count from zero.\<close>

definition wf_version :: "semantic_version \<Rightarrow> bool" where
  "wf_version v \<longleftrightarrow> branch v \<noteq> [] \<and> (\<forall>c \<in> set (branch v). not_space c)
     \<and> 0 \<le> api_version v \<and> 0 \<le> inc_version v"

lemma wf_zero_version [simp]: "wf_version build_zero_version"
  by (simp add: wf_version_def build_zero_version_def DEFAULT_BRANCH_def not_space_def is_space_def)

text \<open>The tail \<open>.api.inc\<close> of the pattern, shared by the key parser.\<close>

definition re_version_tail :: "re_item list" where
  "re_version_tail = [RLit ''.'', RPlus is_digit, RLit ''.'', RPlus is_digit]"

lemma count_list_digits:
  "\<forall>c \<in> set s. is_digit c \<Longrightarrow> count_list s (CHR ''.'') = 0"
  "\<forall>c \<in> set s. is_digit c \<Longrightarrow> count_list s (CHR '':'') = 0"
  using digit_not_dot by (auto simp: count_list_0_iff)

lemma re_tail_match:
  assumes "0 \<le> a" and "0 \<le> i"
  shows "re_match re_version_tail (''.'' @ int_str a @ ''.'' @ int_str i) =
     Some ([int_str a, int_str i], [])"
proof -
  have last: "re_match [RLit ''.'', RPlus is_digit] (''.'' @ int_str i) = Some ([int_str i], [])"
    unfolding re_match_lit by (rule re_match_plus_end) (simp, rule int_str_digits [OF assms(2)])
  have "re_match (RPlus is_digit # [RLit ''.'', RPlus is_digit]) (int_str a @ (''.'' @ int_str i)) =
      Some (int_str a # [int_str i], [])"
  proof (rule re_match_plus_exact [OF _ _ last])
    fix k :: nat
    assume "0 < k"
    then have "count_list (drop k (''.'' @ int_str i)) (CHR ''.'') \<le> count_list (int_str i) (CHR ''.'')"
      by (cases k) (simp_all add: count_list_drop_le)
    then show "re_match [RLit ''.'', RPlus is_digit] (drop k (''.'' @ int_str i)) = None"
      by (intro re_match_too_few [where c = "CHR ''.''"])
        (simp add: count_list_digits(1) [OF int_str_digits [OF assms(2)]])
  qed (simp, rule int_str_digits [OF assms(1)])
  then show ?thesis by (simp add: re_version_tail_def starts_with_def)
qed

lemma re_tail_proper_suffix:
  assumes "0 < k" and "0 \<le> a" and "0 \<le> i"
  shows "re_match re_version_tail (drop k (''.'' @ int_str a @ ''.'' @ int_str i)) = None"
proof (rule re_match_too_few [where c = "CHR ''.''"])
  have "count_list (drop k (''.'' @ int_str a @ ''.'' @ int_str i)) (CHR ''.'')
      \<le> count_list (int_str a @ ''.'' @ int_str i) (CHR ''.'')"
    using assms(1) by (cases k) (simp_all only: append_Cons append_Nil drop_Suc_Cons count_list_drop_le)
  with assms(2,3) show "count_list (drop k (''.'' @ int_str a @ ''.'' @ int_str i)) (CHR ''.'')
      < lit_count (CHR ''.'') re_version_tail"
    by (simp add: re_version_tail_def count_list_digits int_str_digits)
qed

lemma re_version_match:
  assumes "b \<noteq> []" and "\<forall>c \<in> set b. not_space c" and "0 \<le> a" and "0 \<le> i"
  shows "re_match (RPlus not_space # re_version_tail) (b @ ''.'' @ int_str a @ ''.'' @ int_str i) =
     Some ([b, int_str a, int_str i], [])"
  by (rule re_match_plus_exact [OF assms(1,2) re_tail_match])
    (simp_all only: assms re_tail_proper_suffix)

lemma REGEX_VERSION_STR_eq: "REGEX_VERSION_STR = RPlus not_space # re_version_tail"
  by (simp add: REGEX_VERSION_STR_def re_version_tail_def)

lemma from_version_str_roundtrip:
  "wf_version v \<Longrightarrow> from_version_str (version_str v) = Inr v"
proof -
  assume wf: "wf_version v"
  then have "re_match REGEX_VERSION_STR (version_str v) =
      Some ([branch v, int_str (api_version v), int_str (inc_version v)], [])"
    unfolding version_str_def REGEX_VERSION_STR_eq wf_version_def
    by (intro re_version_match) simp_all
  with wf show ?thesis
    by (simp add: from_version_str_def wf_version_def version_eta int_str_nonneg str_simps)
qed

lemma version_str_inj: "wf_version v \<Longrightarrow> wf_version w \<Longrightarrow> version_str v = version_str w \<Longrightarrow> v = w"
  by (metis from_version_str_roundtrip Inr_inject)

text \<open>Whatever the parser returns is well-formed.\<close>

lemma re_match_plus_group:
  "re_match (RPlus p # r) s = Some (gs, t) \<Longrightarrow>
    \<exists>x gs'. gs = x # gs' \<and> x \<noteq> [] \<and> (\<forall>c \<in> set x. p c) \<and> re_match r (drop (length x) s) = Some (gs', t)"
proof -
  assume "re_match (RPlus p # r) s = Some (gs, t)"
  then obtain k gs' where k: "k \<in> set (down_from (length (takeWhile p s)) 1)"
    and gs: "gs = take k s # gs'" and rest: "re_match r (drop k s) = Some (gs', t)"
    by (auto simp: re_match.simps dest!: first_some_SomeD)
  from k have "0 < k" and le: "k \<le> length (takeWhile p s)" by (auto simp: down_from_def)
  then have len: "k \<le> length s" using length_takeWhile_le [of p s] by linarith
  have "take k s = take k (takeWhile p s)"
    using le by (metis append_take_drop_id take_append takeWhile_eq_take diff_is_0_eq take0 append_Nil2)
  then have "\<forall>c \<in> set (take k s). p c"
    by (metis in_set_takeD set_takeWhileD)
  moreover have "take k s \<noteq> []" using \<open>0 < k\<close> len by (cases s) auto
  moreover have "length (take k s) = k" using len by simp
  ultimately show ?thesis using gs rest by auto
qed

lemma from_version_str_wf:
  assumes "from_version_str s = Inr v"
  shows "wf_version v"
proof -
  from assms obtain b a i t where
    m: "re_match REGEX_VERSION_STR s = Some ([b, a, i], t)" and
    v: "v = mk_version b (int (nat_of_str a)) (int (nat_of_str i))"
    by (auto simp: from_version_str_def split: option.splits prod.splits list.splits)
  from m have "b \<noteq> []" and "\<forall>c \<in> set b. not_space c"
    by (auto simp: REGEX_VERSION_STR_def simp del: re_match.simps dest!: re_match_plus_group)
  with v show ?thesis by (simp add: wf_version_def)
qed

text \<open>
  C15 (round trip). \<open>SemanticVersion.from_version_str(v.version_str)\<close> gives \<open>v\<close> back exactly for
  the versions with a non-empty branch free of white space and non-negative numbers; these are
  also the only versions the parser ever returns. The greedy branch group leaves exactly
  \<open>.api.inc\<close> although a branch may hold dots and digits itself.
\<close>

theorem version_print_parse_iff:
  "from_version_str (version_str v) = Inr v \<longleftrightarrow> wf_version v"
  using from_version_str_roundtrip from_version_str_wf by blast

end
