(* ===== verification/Json.thy ===== *)
theory Json
  imports PyString "HOL-Library.Multiset"
begin

text \<open>
  The part of Python's \<open>json\<close> module the program uses: \<open>json.dumps\<close> (default separators,
  ASCII escapes, optionally sorted keys) and \<open>json.loads\<close>, on null, booleans, integers,
  strings, lists and objects. Numbers with a fraction or an exponent are outside the model.
  The parser takes fuel; \<open>loads\<close> gives it the length of the text, and
  \<open>loads_dumps\<close> shows that this is enough for everything \<open>dumps\<close> prints.
\<close>

datatype json =
    JNull | JBool bool | JInt int | JStr string | JList "json list" | JObj "(string \<times> json) list"

section \<open>dumps\<close>

definition hex_digit :: "nat \<Rightarrow> char" where
  "hex_digit d = (if d < 10 then char_of (48 + d) else char_of (87 + d))"

definition escape_char :: "char \<Rightarrow> string" where
  "escape_char c =
     (let n = (of_char c :: nat) in
      if n = 34 then [CHR 0x5C, CHR 0x22]
      else if n = 92 then [CHR 0x5C, CHR 0x5C]
      else if n = 10 then [CHR 0x5C, CHR ''n'']
      else if n = 13 then [CHR 0x5C, CHR ''r'']
      else if n = 9 then [CHR 0x5C, CHR ''t'']
      else if n = 12 then [CHR 0x5C, CHR ''f'']
      else if n = 8 then [CHR 0x5C, CHR ''b'']
      else if 32 \<le> n \<and> n \<le> 126 then [c]
      else [CHR 0x5C, CHR ''u'', CHR ''0'', CHR ''0'', hex_digit (n div 16), hex_digit (n mod 16)])"

definition json_string :: "string \<Rightarrow> string" where
  "json_string s = [CHR 0x22] @ concat (map escape_char s) @ [CHR 0x22]"

fun dumps :: "json \<Rightarrow> string" where
  "dumps JNull = ''null''"
| "dumps (JBool b) = (if b then ''true'' else ''false'')"
| "dumps (JInt i) = int_str i"
| "dumps (JStr s) = json_string s"
| "dumps (JList xs) = ''['' @ str_join '', '' (map dumps xs) @ '']''"
| "dumps (JObj kvs) =
     ''{'' @ str_join '', '' (map (\<lambda>kv. json_string (fst kv) @ '': '' @ dumps (snd kv)) kvs) @ ''}''"

text \<open>\<open>sort_keys=True\<close>: the items of every object in the order of their keys.\<close>

fun string_le :: "string \<Rightarrow> string \<Rightarrow> bool" where
  "string_le [] t = True"
| "string_le (c # s) [] = False"
| "string_le (c # s) (d # t) =
     (if (of_char c :: nat) < of_char d then True else if c = d then string_le s t else False)"

lemma string_le_refl [simp]: "string_le s s"
  by (induction s) auto

lemma string_le_total: "string_le s t \<or> string_le t s"
  by (induction s t rule: string_le.induct) (auto simp: not_less_iff_gr_or_eq)

lemma string_le_antisym: "string_le s t \<Longrightarrow> string_le t s \<Longrightarrow> s = t"
proof (induction s t rule: string_le.induct)
  case (1 t)
  then show ?case by (cases t) simp_all
qed (auto split: if_splits)

lemma string_le_trans: "string_le s t \<Longrightarrow> string_le t u \<Longrightarrow> string_le s u"
proof (induction s t arbitrary: u rule: string_le.induct)
  case (3 c s d t)
  then show ?case by (cases u) (auto split: if_splits)
qed auto

interpretation string_order: linorder string_le "\<lambda>s t. string_le s t \<and> \<not> string_le t s"
  by unfold_locales (auto dest: string_le_antisym string_le_trans simp: string_le_total)

fun insert_item :: "string \<times> 'a \<Rightarrow> (string \<times> 'a) list \<Rightarrow> (string \<times> 'a) list" where
  "insert_item kv [] = [kv]"
| "insert_item kv (x # xs) = (if string_le (fst kv) (fst x) then kv # x # xs else x # insert_item kv xs)"

definition sort_items :: "(string \<times> 'a) list \<Rightarrow> (string \<times> 'a) list" where
  "sort_items kvs = foldr insert_item kvs []"

lemma set_insert_item [simp]: "set (insert_item kv xs) = insert kv (set xs)"
  by (induction xs) auto

lemma set_sort_items [simp]: "set (sort_items kvs) = set kvs"
  by (induction kvs) (simp_all add: sort_items_def)

fun sort_keys :: "json \<Rightarrow> json" where
  "sort_keys (JList xs) = JList (map sort_keys xs)"
| "sort_keys (JObj kvs) = JObj (sort_items (map (\<lambda>kv. (fst kv, sort_keys (snd kv))) kvs))"
| "sort_keys j = j"

section \<open>loads\<close>

definition json_ws :: "char \<Rightarrow> bool" where
  "json_ws c \<longleftrightarrow> (of_char c :: nat) \<in> {9, 10, 13, 32}"

definition skip_ws :: "string \<Rightarrow> string" where
  "skip_ws s = dropWhile json_ws s"

definition hex_val :: "char \<Rightarrow> nat option" where
  "hex_val c =
     (let n = (of_char c :: nat) in
      if 48 \<le> n \<and> n \<le> 57 then Some (n - 48)
      else if 97 \<le> n \<and> n \<le> 102 then Some (n - 87)
      else if 65 \<le> n \<and> n \<le> 70 then Some (n - 55)
      else None)"

definition unescape :: "char \<Rightarrow> char option" where
  "unescape e =
     (if e = CHR 0x22 then Some (CHR 0x22) else if e = CHR 0x5C then Some (CHR 0x5C)
      else if e = CHR ''/'' then Some (CHR ''/'')
      else if e = CHR ''n'' then Some (CHR 0x0A) else if e = CHR ''r'' then Some (CHR 0x0D)
      else if e = CHR ''t'' then Some (CHR 0x09) else if e = CHR ''f'' then Some (CHR 0x0C)
      else if e = CHR ''b'' then Some (CHR 0x08) else None)"

definition unicode_escape :: "string \<Rightarrow> (char \<times> string) option" where
  "unicode_escape s =
     (case s of
        a # b # c # d # r \<Rightarrow>
          (case (hex_val a, hex_val b, hex_val c, hex_val d) of
             (Some w, Some x, Some y, Some z) \<Rightarrow>
               (if w = 0 \<and> x = 0 then Some (char_of (16 * y + z), r) else None)
           | _ \<Rightarrow> None)
      | _ \<Rightarrow> None)"

lemma unicode_escape_shorter: "unicode_escape s = Some (c, r) \<Longrightarrow> length r < length s"
  by (auto simp: unicode_escape_def split: list.splits option.splits if_splits)

fun parse_string :: "string \<Rightarrow> (string \<times> string) option" where
  "parse_string [] = None"
| "parse_string (c # s) =
     (if c = CHR 0x22 then Some ([], s)
      else if c = CHR 0x5C then
        (case s of
           [] \<Rightarrow> None
         | e # r \<Rightarrow>
             (if e = CHR ''u'' then
                (case unicode_escape r of
                   None \<Rightarrow> None
                 | Some (x, r') \<Rightarrow>
                     (if length r' < length r
                      then map_option (\<lambda>(t, u). (x # t, u)) (parse_string r') else None))
              else
                (case unescape e of
                   None \<Rightarrow> None
                 | Some x \<Rightarrow> map_option (\<lambda>(t, u). (x # t, u)) (parse_string r))))
      else if (of_char c :: nat) < 32 then None
      else map_option (\<lambda>(t, u). (c # t, u)) (parse_string s))"

definition parse_int :: "string \<Rightarrow> (int \<times> string) option" where
  "parse_int s =
     (let (neg, d) = (case s of c # r \<Rightarrow> if c = CHR ''-'' then (True, r) else (False, s) | [] \<Rightarrow> (False, s));
          ds = takeWhile is_digit d; r = dropWhile is_digit d
      in if ds = [] \<or> (hd ds = CHR ''0'' \<and> tl ds \<noteq> []) then None
         else Some (if neg then - int (nat_of_str ds) else int (nat_of_str ds), r))"

fun parse_value :: "nat \<Rightarrow> string \<Rightarrow> (json \<times> string) option"
  and parse_items :: "nat \<Rightarrow> string \<Rightarrow> (json list \<times> string) option"
  and parse_pairs :: "nat \<Rightarrow> string \<Rightarrow> ((string \<times> json) list \<times> string) option" where
  "parse_value 0 s = None"
| "parse_value (Suc n) s =
     (case s of
        [] \<Rightarrow> None
      | c # r \<Rightarrow>
          if c = CHR 0x22 then map_option (\<lambda>(x, u). (JStr x, u)) (parse_string r)
          else if c = CHR ''['' then
            (case skip_ws r of
               d # u \<Rightarrow> if d = CHR '']'' then Some (JList [], u)
                        else map_option (\<lambda>(xs, v). (JList xs, v)) (parse_items n (skip_ws r))
             | [] \<Rightarrow> None)
          else if c = CHR ''{'' then
            (case skip_ws r of
               d # u \<Rightarrow> if d = CHR ''}'' then Some (JObj [], u)
                        else map_option (\<lambda>(xs, v). (JObj (od_update_all [] xs), v)) (parse_pairs n (skip_ws r))
             | [] \<Rightarrow> None)
          else if starts_with ''null'' s then Some (JNull, drop 4 s)
          else if starts_with ''true'' s then Some (JBool True, drop 4 s)
          else if starts_with ''false'' s then Some (JBool False, drop 5 s)
          else map_option (\<lambda>(i, u). (JInt i, u)) (parse_int s))"
| "parse_items 0 s = None"
| "parse_items (Suc n) s =
     (case parse_value n s of
        None \<Rightarrow> None
      | Some (x, r) \<Rightarrow>
          (case skip_ws r of
             [] \<Rightarrow> None
           | d # u \<Rightarrow>
               if d = CHR '']'' then Some ([x], u)
               else if d = CHR '','' then map_option (\<lambda>(xs, v). (x # xs, v)) (parse_items n (skip_ws u))
               else None))"
| "parse_pairs 0 s = None"
| "parse_pairs (Suc n) s =
     (case s of
        [] \<Rightarrow> None
      | q # s' \<Rightarrow>
          if q \<noteq> CHR 0x22 then None
          else
            (case parse_string s' of
               None \<Rightarrow> None
             | Some (k, r0) \<Rightarrow>
                 (case skip_ws r0 of
                    [] \<Rightarrow> None
                  | e # r1 \<Rightarrow>
                      if e \<noteq> CHR '':'' then None
                      else
                        (case parse_value n (skip_ws r1) of
                           None \<Rightarrow> None
                         | Some (x, r) \<Rightarrow>
                             (case skip_ws r of
                                [] \<Rightarrow> None
                              | d # u \<Rightarrow>
                                  if d = CHR ''}'' then Some ([(k, x)], u)
                                  else if d = CHR '','' then
                                    map_option (\<lambda>(xs, v). ((k, x) # xs, v)) (parse_pairs n (skip_ws u))
                                  else None)))))"

definition loads :: "string \<Rightarrow> json result" where
  "loads s =
     (case parse_value (Suc (2 * length s)) (skip_ws s) of
        Some (j, r) \<Rightarrow> if skip_ws r = [] then Inr j else Inl JSONDecodeError
      | None \<Rightarrow> Inl JSONDecodeError)"

section \<open>Round trip\<close>

lemma of_char_less_256: "(of_char c :: nat) < 256"
  by (metis of_char_mod_256 mod_less_divisor zero_less_numeral)

lemma hex_val_digit: "d < 16 \<Longrightarrow> hex_val (hex_digit d) = Some d"
  by (simp add: hex_val_def hex_digit_def Let_def)

lemma special_chars:
  "(of_char c :: nat) = 34 \<Longrightarrow> c = CHR 0x22" "(of_char c :: nat) = 92 \<Longrightarrow> c = CHR 0x5C"
  "(of_char c :: nat) = 10 \<Longrightarrow> c = CHR 0x0A" "(of_char c :: nat) = 13 \<Longrightarrow> c = CHR 0x0D"
  "(of_char c :: nat) = 9 \<Longrightarrow> c = CHR 0x09" "(of_char c :: nat) = 12 \<Longrightarrow> c = CHR 0x0C"
  "(of_char c :: nat) = 8 \<Longrightarrow> c = CHR 0x08"
  by (simp_all flip: of_char_eq_iff [where 'a = nat])

lemma parse_escape_char:
  "parse_string (escape_char c @ t) = map_option (\<lambda>(x, u). (c # x, u)) (parse_string t)"
proof -
  let ?n = "of_char c :: nat"
  consider "?n \<in> {34, 92, 10, 13, 9, 12, 8}" | "?n \<notin> {34, 92, 10, 13, 9, 12, 8}" "32 \<le> ?n" "?n \<le> 126"
    | "?n \<notin> {34, 92, 10, 13, 9, 12, 8}" "\<not> (32 \<le> ?n \<and> ?n \<le> 126)" by linarith
  then show ?thesis
  proof cases
    case 1
    then have "c \<in> {CHR 0x22, CHR 0x5C, CHR 0x0A, CHR 0x0D, CHR 0x09, CHR 0x0C, CHR 0x08}"
      unfolding insert_iff using special_chars [of c] by blast
    then show ?thesis by (auto simp: escape_char_def unescape_def)
  next
    case 2
    then have "c \<noteq> CHR 0x22" "c \<noteq> CHR 0x5C" by auto
    with 2 show ?thesis by (simp add: escape_char_def Let_def)
  next
    case 3
    have "?n < 256" by (rule of_char_less_256)
    then have "?n div 16 < 16" by (simp add: less_mult_imp_div_less)
    moreover have "?n mod 16 < 16" "16 * (?n div 16) + ?n mod 16 = ?n" by simp_all
    moreover have "hex_val (CHR ''0'') = Some 0" by (simp add: hex_val_def)
    ultimately have "unicode_escape (CHR ''0'' # CHR ''0'' # hex_digit (?n div 16) # hex_digit (?n mod 16) # t) = Some (c, t)"
      by (simp add: unicode_escape_def hex_val_digit)
    with 3 show ?thesis by (auto simp: escape_char_def Let_def)
  qed
qed

lemma parse_string_body: "parse_string (concat (map escape_char s) @ CHR 0x22 # r) = Some (s, r)"
proof (induction s)
  case Nil
  then show ?case by simp
next
  case (Cons c s)
  have "parse_string (escape_char c @ (concat (map escape_char s) @ CHR 0x22 # r)) = Some (c # s, r)"
    by (simp only: parse_escape_char Cons.IH) simp
  then show ?case by simp
qed

declare parse_string.simps [simp del]

lemma digit_char_0: "digit_char 0 = CHR ''0''"
  by code_simp

lemma nat_str_hd_zero: "hd (nat_str n) = CHR ''0'' \<Longrightarrow> n = 0"
proof (induction n rule: nat_str.induct)
  case (1 n)
  show ?case
  proof (cases "n < 10")
    case True
    with "1.prems" have "digit_char n = digit_char 0"
      by (subst (asm) nat_str.simps) (simp add: digit_char_0)
    then show ?thesis using True by (metis digit_val_char zero_less_numeral)
  next
    case False
    with "1.prems" have "hd (nat_str (n div 10)) = CHR ''0''"
      by (subst (asm) nat_str.simps) simp
    with "1.IH" False have "n div 10 = 0" by simp
    with False show ?thesis by simp
  qed
qed

lemma nat_str_no_leading_zero: "hd (nat_str n) = CHR ''0'' \<Longrightarrow> tl (nat_str n) = []"
  using nat_str_hd_zero [of n] by (subst nat_str.simps) simp

definition ends_number :: "string \<Rightarrow> bool" where
  "ends_number r \<longleftrightarrow> r = [] \<or> \<not> is_digit (hd r)"

lemma takeWhile_digits:
  assumes "\<forall>c \<in> set d. is_digit c" and "ends_number r"
  shows "takeWhile is_digit (d @ r) = d" and "dropWhile is_digit (d @ r) = r"
  using assms by (cases r; simp add: ends_number_def takeWhile_append dropWhile_append)+

lemma parse_int_str:
  assumes "ends_number r"
  shows "parse_int (int_str i @ r) = Some (i, r)"
proof -
  have nodash: "nat_str n \<noteq> CHR ''-'' # t" for n t
  proof
    assume "nat_str n = CHR ''-'' # t"
    with nat_str_digits [of n] have "is_digit (CHR ''-'')" by simp
    then show False by (simp add: is_digit_def)
  qed
  have tw: "takeWhile is_digit (nat_str n @ r) = nat_str n" "dropWhile is_digit (nat_str n @ r) = r" for n
    by (rule takeWhile_digits [OF nat_str_digits assms])+
  have lead: "\<not> (nat_str n = [] \<or> hd (nat_str n) = CHR ''0'' \<and> tl (nat_str n) \<noteq> [])" for n
    using nat_str_no_leading_zero [of n] by auto
  show ?thesis
  proof (cases "i < 0")
    case True
    then show ?thesis
      using lead [of "nat (- i)"] by (simp add: int_str_def parse_int_def tw nat_of_str_nat_str Let_def)
  next
    case False
    obtain c t where ct: "nat_str (nat i) = c # t" by (cases "nat_str (nat i)") simp_all
    with nodash have "c \<noteq> CHR ''-''" by blast
    with False ct show ?thesis
      using lead [of "nat i"] tw [of "nat i"] nat_of_str_nat_str [of "nat i"]
      by (simp add: int_str_def parse_int_def Let_def)
  qed
qed

text \<open>Keys of one object are distinct, as those of a Python dictionary are.\<close>

fun wf_json :: "json \<Rightarrow> bool" where
  "wf_json (JList xs) \<longleftrightarrow> (\<forall>x \<in> set xs. wf_json x)"
| "wf_json (JObj kvs) \<longleftrightarrow> distinct (map fst kvs) \<and> (\<forall>kv \<in> set kvs. wf_json (snd kv))"
| "wf_json j \<longleftrightarrow> True"

lemma int_str_first: "\<exists>c t. int_str i = c # t \<and> (is_digit c \<or> c = CHR ''-'')"
  using nat_str_digits by (cases "nat_str (nat i)") (auto simp: int_str_def, metis list.set_intros(1))

lemma dumps_first:
  "\<exists>c t. dumps j = c # t \<and> \<not> json_ws c \<and> c \<noteq> CHR '']'' \<and> c \<noteq> CHR ''}''"
proof (cases j)
  case (JInt i)
  then show ?thesis using int_str_first [of i] by (auto simp: json_ws_def is_digit_def)
qed (auto simp: json_string_def json_ws_def)

lemma skip_ws_dumps [simp]: "skip_ws (dumps j @ r) = dumps j @ r"
  using dumps_first [of j] by (auto simp: skip_ws_def)

lemma skip_ws_simps [simp]:
  "skip_ws (CHR '','' # r) = CHR '','' # r" "skip_ws (CHR '']'' # r) = CHR '']'' # r"
  "skip_ws (CHR ''}'' # r) = CHR ''}'' # r" "skip_ws (CHR '':'' # r) = CHR '':'' # r"
  "skip_ws (CHR 0x22 # r) = CHR 0x22 # r" "skip_ws (CHR '' '' # r) = skip_ws r" "skip_ws [] = []"
  by (simp_all add: skip_ws_def json_ws_def)

lemma skip_ws_join:
  assumes "s = c # t" and "\<not> json_ws c"
  shows "skip_ws (str_join sep (s # ss) @ r) = str_join sep (s # ss) @ r"
  using assms by (cases ss) (simp_all add: skip_ws_def)

lemma skip_ws_join_dumps [simp]:
  "skip_ws (str_join sep (dumps y # ss) @ r) = str_join sep (dumps y # ss) @ r"
  using dumps_first [of y] skip_ws_join by blast

lemma skip_ws_join_quote [simp]:
  "skip_ws (str_join sep ((CHR 0x22 # q) # ss) @ r) = str_join sep ((CHR 0x22 # q) # ss) @ r"
  by (rule skip_ws_join [OF refl]) (simp add: json_ws_def)

text \<open>The fuel a value needs.\<close>

fun needs :: "nat list \<Rightarrow> nat" where
  "needs [] = 0"
| "needs (n # ns) = Suc (max n (needs ns))"

fun need :: "json \<Rightarrow> nat" where
  "need (JList xs) = Suc (needs (map need xs))"
| "need (JObj kvs) = Suc (needs (map (\<lambda>kv. need (snd kv)) kvs))"
| "need j = 1"

definition parses :: "json \<Rightarrow> bool" where
  "parses j \<longleftrightarrow> (\<forall>n r. need j \<le> n \<longrightarrow> ends_number r \<longrightarrow> parse_value n (dumps j @ r) = Some (j, r))"

lemma parsesD: "parses j \<Longrightarrow> need j \<le> n \<Longrightarrow> ends_number r \<Longrightarrow> parse_value n (dumps j @ r) = Some (j, r)"
  by (simp add: parses_def)

lemma ends_number_sep [simp]:
  "ends_number (CHR '','' # r)" "ends_number (CHR '']'' # r)" "ends_number (CHR ''}'' # r)" "ends_number []"
  by (simp_all add: ends_number_def is_digit_def)

lemma parse_items_join:
  "\<forall>x \<in> set xs. parses x \<Longrightarrow> xs \<noteq> [] \<Longrightarrow> needs (map need xs) \<le> n \<Longrightarrow>
     parse_items n (str_join '', '' (map dumps xs) @ CHR '']'' # r) = Some (xs, r)"
proof (induction xs arbitrary: n)
  case (Cons x xs)
  then obtain m where n: "n = Suc m" by (cases n) simp_all
  show ?case
  proof (cases xs)
    case Nil
    with Cons.prems n show ?thesis by (simp add: parsesD)
  next
    case (Cons y ys)
    with Cons.prems Cons.IH [of m] n show ?thesis
      by (simp add: parsesD)
  qed
qed simp

lemma parse_pairs_join:
  "\<forall>kv \<in> set kvs. parses (snd kv) \<Longrightarrow> kvs \<noteq> [] \<Longrightarrow> needs (map (\<lambda>kv. need (snd kv)) kvs) \<le> n \<Longrightarrow>
     parse_pairs n (str_join '', '' (map (\<lambda>kv. json_string (fst kv) @ '': '' @ dumps (snd kv)) kvs) @ CHR ''}'' # r) =
       Some (kvs, r)"
proof (induction kvs arbitrary: n)
  case (Cons kv kvs)
  then obtain m where n: "n = Suc m" by (cases n) simp_all
  obtain k x where kv: "kv = (k, x)" by fastforce
  show ?case
  proof (cases kvs)
    case Nil
    with Cons.prems n kv show ?thesis
      by (simp add: parsesD json_string_def parse_string_body)
  next
    case (Cons kv' kvs')
    with Cons.prems Cons.IH [of m] n kv show ?thesis
      by (simp add: parsesD json_string_def parse_string_body)
  qed
qed simp

lemma od_update_all_distinct: "distinct (map fst kvs) \<Longrightarrow> od_update_all [] kvs = kvs"
proof (induction kvs rule: rev_induct)
  case Nil
  then show ?case by (simp add: od_update_all_def)
next
  case (snoc kv kvs)
  obtain k v where kv: "kv = (k, v)" by fastforce
  with snoc have "od_update_all [] kvs = kvs" and "k \<notin> set (od_keys kvs)"
    by (simp_all add: od_keys_def)
  with kv show ?case by (simp add: od_update_all_def od_set_new)
qed

lemma parses_list: "\<forall>x \<in> set xs. parses x \<Longrightarrow> parses (JList xs)"
  unfolding parses_def [of "JList xs"]
proof (intro allI impI)
  fix n r
  assume all: "\<forall>x \<in> set xs. parses x" and n: "need (JList xs) \<le> n"
  then obtain m where m: "n = Suc m" by (cases n) simp_all
  show "parse_value n (dumps (JList xs) @ r) = Some (JList xs, r)"
  proof (cases xs)
    case Nil
    with m show ?thesis by simp
  next
    case (Cons y ys)
    obtain c t where ct: "str_join '', '' (map dumps xs) @ CHR '']'' # r = c # t" and "c \<noteq> CHR '']''"
      using dumps_first [of y] Cons by (cases ys) auto
    moreover have "skip_ws (str_join '', '' (map dumps xs) @ CHR '']'' # r) = str_join '', '' (map dumps xs) @ CHR '']'' # r"
      using Cons by simp
    moreover have "parse_items m (str_join '', '' (map dumps xs) @ CHR '']'' # r) = Some (xs, r)"
      using all n m Cons by (intro parse_items_join) simp_all
    ultimately show ?thesis using m by simp
  qed
qed

text \<open>An object ends with its brace: what follows it never changes how it parses.\<close>

lemma parse_obj_any:
  assumes dist: "distinct (map fst kvs)" and all: "\<forall>kv \<in> set kvs. parses (snd kv)"
    and n: "need (JObj kvs) \<le> n"
  shows "parse_value n (dumps (JObj kvs) @ r) = Some (JObj kvs, r)"
proof -
  let ?join = "str_join '', '' (map (\<lambda>kv. json_string (fst kv) @ '': '' @ dumps (snd kv)) kvs)"
  from n obtain m where m: "n = Suc m" by (cases n) simp_all
  show ?thesis
  proof (cases kvs)
    case Nil
    with m show ?thesis by (simp add: od_update_all_def)
  next
    case (Cons kv kvs')
    obtain t where ct: "?join @ CHR ''}'' # r = CHR 0x22 # t"
      using Cons by (cases kvs') (auto simp: json_string_def)
    moreover from ct have "skip_ws (?join @ CHR ''}'' # r) = ?join @ CHR ''}'' # r"
      by (simp only: skip_ws_simps)
    moreover have "parse_pairs m (?join @ CHR ''}'' # r) = Some (kvs, r)"
      using all n m Cons by (intro parse_pairs_join) simp_all
    ultimately show ?thesis using m dist by (simp add: od_update_all_distinct)
  qed
qed

lemma parses_obj:
  "distinct (map fst kvs) \<Longrightarrow> \<forall>kv \<in> set kvs. parses (snd kv) \<Longrightarrow> parses (JObj kvs)"
  unfolding parses_def [of "JObj kvs"] using parse_obj_any by blast

lemma parses_int: "parses (JInt i)"
  unfolding parses_def
proof (intro allI impI)
  fix n r
  assume n: "need (JInt i) \<le> n" and r: "ends_number r"
  then obtain m where m: "n = Suc m" by (cases n) simp_all
  obtain c t where ct: "int_str i = c # t" and c: "is_digit c \<or> c = CHR ''-''"
    using int_str_first [of i] by blast
  from c have "c \<notin> {CHR 0x22, CHR ''['', CHR ''{'', CHR ''n'', CHR ''t'', CHR ''f''}"
    by (auto simp: is_digit_def)
  with m ct parse_int_str [OF r, of i] show "parse_value n (dumps (JInt i) @ r) = Some (JInt i, r)"
    by (simp add: starts_with_def)
qed

lemma parses_wf: "wf_json j \<Longrightarrow> parses j"
proof (induction j)
  case (JList xs)
  then show ?case by (intro parses_list) simp
next
  case (JObj kvs)
  then show ?case by (intro parses_obj) (auto simp: prod_set_defs)
next
  case (JInt i)
  show ?case by (rule parses_int)
qed (auto simp: parses_def Suc_le_eq gr0_conv_Suc json_string_def parse_string_body starts_with_def)

section \<open>Fuel\<close>

lemma length_str_join_needs:
  "\<forall>x \<in> set xs. f x \<le> length (g x) \<Longrightarrow> needs (map f xs) \<le> Suc (length (str_join '', '' (map g xs)))"
proof (induction xs)
  case (Cons x xs)
  then show ?case by (cases xs) auto
qed simp

lemma need_le: "need j \<le> length (dumps j)"
proof (induction j)
  case (JList xs)
  then have "needs (map need xs) \<le> Suc (length (str_join '', '' (map dumps xs)))"
    by (intro length_str_join_needs) simp
  then show ?case by simp
next
  case (JObj kvs)
  have "needs (map (\<lambda>kv. need (snd kv)) kvs)
      \<le> Suc (length (str_join '', '' (map (\<lambda>kv. json_string (fst kv) @ '': '' @ dumps (snd kv)) kvs)))"
    using JObj by (intro length_str_join_needs) (fastforce simp: prod_set_defs intro: trans_le_add2)
  then show ?case by simp
qed (simp_all add: json_string_def Suc_le_eq)

lemma loads_dumps: "wf_json j \<Longrightarrow> loads (dumps j) = Inr j"
proof -
  assume "wf_json j"
  then have "parses j" by (rule parses_wf)
  moreover have "need j \<le> Suc (2 * length (dumps j))" using need_le [of j] by simp
  ultimately have "parse_value (Suc (2 * length (dumps j))) (dumps j @ []) = Some (j, [])"
    by (rule parsesD) simp
  moreover have "skip_ws (dumps j) = dumps j" using skip_ws_dumps [of j "[]"] by simp
  ultimately show ?thesis by (simp add: loads_def del: parse_value.simps)
qed

lemma dumps_inj: "wf_json j \<Longrightarrow> wf_json k \<Longrightarrow> dumps j = dumps k \<Longrightarrow> j = k"
  by (metis Inr_inject loads_dumps)

end
