(* ===== verification/Manifest.thy ===== *)
theory Manifest
  imports Version Json
begin

text \<open>
  \<^verbatim>\<open>pysrc/manifest.py\<close> (component and worker manifests) and \<^verbatim>\<open>pysrc/package.py\<close>
  (the active packages of an interpreter). SHA-256 is a parameter; the set of installed
  distributions, their \<^verbatim>\<open>top_level.txt\<close> files and \<^verbatim>\<open>sys.modules\<close> are arguments.

  A \<^verbatim>\<open>SemanticVersion\<close> object is compared with \<open>==\<close> by the scheduler although the class has
  no \<^verbatim>\<open>__eq__\<close>, so a manifest holds a reference: the address of the object and its (immutable)
  contents. Address 0 is the one object that \<^verbatim>\<open>Manifest.DEFAULT_VALUES\<close> shares between manifests.
\<close>

section \<open>Manifest\<close>

datatype ComponentType = DATASET | LIBRARY

fun component_type_value :: "ComponentType \<Rightarrow> string" where
  "component_type_value DATASET = ''dataset''"
| "component_type_value LIBRARY = ''library''"

definition component_type_of_value :: "string \<Rightarrow> ComponentType result" where
  "component_type_of_value s =
     (if s = ''dataset'' then Inr DATASET else if s = ''library'' then Inr LIBRARY else Inl ValueError)"

lemma component_type_of_value_value [simp]: "component_type_of_value (component_type_value t) = Inr t"
  by (cases t) (simp_all add: component_type_of_value_def)

record version_ref =
  v_addr :: nat
  v_val :: semantic_version

record manifest =
  m_name :: string
  m_type :: ComponentType
  m_version :: version_ref
  m_packages_semver :: bool
  m_packages :: "(string, string) odict"
  m_appendix :: "(string, json) odict option"

definition DEFAULT_VALUES :: manifest where
  "DEFAULT_VALUES =
     \<lparr>m_name = ''DUMMY'', m_type = DATASET,
      m_version = \<lparr>v_addr = 0, v_val = build_zero_version\<rparr>,
      m_packages_semver = False, m_packages = [], m_appendix = None\<rparr>"

text \<open>
  The attributes have the types their annotations give. A JSON value of another type is
  \<open>TypeError\<close> here, at construction; Python stores it and fails where it is first used.
\<close>

fun as_str :: "json \<Rightarrow> string result" where
  "as_str (JStr s) = Inr s"
| "as_str _ = Inl TypeError"

fun as_bool :: "json \<Rightarrow> bool result" where
  "as_bool (JBool b) = Inr b"
| "as_bool _ = Inl TypeError"

fun as_str_dict :: "json \<Rightarrow> (string, string) odict result" where
  "as_str_dict (JObj kvs) = res_map (\<lambda>(k, v). res_bind (as_str v) (\<lambda>s. Inr (k, s))) kvs"
| "as_str_dict _ = Inl TypeError"

definition obj_field :: "(string, json) odict \<Rightarrow> string \<Rightarrow> (json \<Rightarrow> 'a result) \<Rightarrow> 'a \<Rightarrow> 'a result" where
  "obj_field obj k conv dflt =
     (case od_get obj k of None \<Rightarrow> Inr dflt | Some j \<Rightarrow> conv j)"

text \<open>\<open>Manifest.__init__\<close>; \<open>a\<close> is the address of the version object it may create.\<close>

definition manifest_init :: "nat \<Rightarrow> (string, json) odict option \<Rightarrow> manifest result" where
  "manifest_init a obj =
     (case obj of
        None \<Rightarrow> Inr DEFAULT_VALUES
      | Some obj \<Rightarrow>
          res_bind (obj_field obj ''name'' as_str (m_name DEFAULT_VALUES)) (\<lambda>name.
          res_bind (obj_field obj ''type'' (\<lambda>j. res_bind (as_str j) component_type_of_value)
            (m_type DEFAULT_VALUES)) (\<lambda>type.
          res_bind (obj_field obj ''version''
            (\<lambda>j. res_bind (as_str j) (\<lambda>s. res_bind (from_version_str s) (\<lambda>v.
               Inr \<lparr>v_addr = a, v_val = v\<rparr>))) (m_version DEFAULT_VALUES)) (\<lambda>version.
          res_bind (obj_field obj ''packages_semver'' as_bool (m_packages_semver DEFAULT_VALUES)) (\<lambda>semver.
          res_bind (obj_field obj ''packages'' as_str_dict (m_packages DEFAULT_VALUES)) (\<lambda>packages.
          Inr \<lparr>m_name = name, m_type = type, m_version = version, m_packages_semver = semver,
               m_packages = packages, m_appendix = None\<rparr>))))))"

definition packages_json :: "(string, string) odict \<Rightarrow> json" where
  "packages_json pk = JObj (map (\<lambda>(k, v). (k, JStr v)) pk)"

text \<open>The bytes fed to SHA-256: the sorted JSON of the packages, then the name.\<close>

definition hash_preimage :: "manifest \<Rightarrow> string" where
  "hash_preimage m = utf8 (dumps (sort_keys (packages_json (m_packages m)))) @ utf8 (m_name m)"

definition packages_hash :: "(string \<Rightarrow> string) \<Rightarrow> manifest \<Rightarrow> string" where
  "packages_hash sha256 m = sha256 (hash_preimage m)"

definition manifest_items :: "(string \<Rightarrow> string) \<Rightarrow> manifest \<Rightarrow> (string \<times> json) list" where
  "manifest_items sha256 m =
     [(''name'', JStr (m_name m)),
      (''type'', JStr (component_type_value (m_type m))),
      (''version'', JStr (version_str (v_val (m_version m))))]
     @ (if m_type m = LIBRARY
        then [(''packages_semver'', JBool (m_packages_semver m)),
              (''hash'', JStr (packages_hash sha256 m)),
              (''packages'', packages_json (m_packages m))]
        else [])
     @ (case m_appendix m of None \<Rightarrow> [] | Some app \<Rightarrow> app)"

text \<open>\<open>dict(manifest)\<close>.\<close>

definition manifest_dict :: "(string \<Rightarrow> string) \<Rightarrow> manifest \<Rightarrow> (string, json) odict" where
  "manifest_dict sha256 m = od_update_all [] (manifest_items sha256 m)"

text \<open>\<open>Manifest.capture_current_env\<close>: a new manifest over the active packages.\<close>

definition capture_current_env ::
    "(string, string) odict \<Rightarrow> (string, json) odict option \<Rightarrow> manifest" where
  "capture_current_env active_packages appendix =
     DEFAULT_VALUES\<lparr>m_type := LIBRARY, m_packages_semver := False,
       m_packages := active_packages, m_appendix := appendix\<rparr>"

text \<open>
  \<open>Manifest.json\<close>. With \<open>refresh\<close> it calls the static \<open>capture_current_env\<close> and drops the manifest
  that call returns: the text is that of the manifest as it was.
\<close>

definition manifest_json :: "(string \<Rightarrow> string) \<Rightarrow> (string, string) odict \<Rightarrow> bool \<Rightarrow> manifest \<Rightarrow> string" where
  "manifest_json sha256 active_packages refresh m =
     (let _ = (if refresh then Some (capture_current_env active_packages None) else None)
      in dumps (sort_keys (JObj (manifest_dict sha256 m))))"

section \<open>Sorted objects\<close>

lemma insert_item_map:
  "insert_item (fst kv, f (snd kv)) (map (\<lambda>kv. (fst kv, f (snd kv))) kvs)
     = map (\<lambda>kv. (fst kv, f (snd kv))) (insert_item kv kvs)"
  by (induction kvs) simp_all

lemma sort_items_map:
  "sort_items (map (\<lambda>kv. (fst kv, f (snd kv))) kvs) = map (\<lambda>kv. (fst kv, f (snd kv))) (sort_items kvs)"
  by (induction kvs) (simp_all add: sort_items_def insert_item_map [of _ f])

lemma set_keys_sort_items: "set (map fst (sort_items kvs)) = set (map fst kvs)"
  by simp

lemma distinct_insert_item:
  "distinct (map fst (insert_item kv kvs)) \<longleftrightarrow> fst kv \<notin> fst ` set kvs \<and> distinct (map fst kvs)"
  by (induction kvs) auto

lemma distinct_sort_items [simp]: "distinct (map fst (sort_items kvs)) \<longleftrightarrow> distinct (map fst kvs)"
proof (induction kvs)
  case Nil
  then show ?case by (simp add: sort_items_def)
next
  case (Cons kv kvs)
  have "sort_items (kv # kvs) = insert_item kv (sort_items kvs)" by (simp add: sort_items_def)
  with Cons show ?case by (simp add: distinct_insert_item)
qed

lemma od_get_sort_items:
  assumes "distinct (map fst kvs)"
  shows "od_get (sort_items kvs) k = od_get kvs k"
proof -
  have "od_get (sort_items kvs) k = Some v \<longleftrightarrow> od_get kvs k = Some v" for v
    using assms by (simp add: od_get_Some_iff od_keys_def)
  then show ?thesis by (metis not_Some_eq)
qed

text \<open>The order of \<open>sort_keys\<close> is linear, so the sorted items depend on the map alone.\<close>

lemma sorted_insert_item:
  "sorted_wrt string_le (map fst kvs) \<Longrightarrow> sorted_wrt string_le (map fst (insert_item kv kvs))"
proof (induction kvs)
  case (Cons x xs)
  show ?case
  proof (cases "string_le (fst kv) (fst x)")
    case True
    with Cons.prems show ?thesis by (auto intro: string_le_trans)
  next
    case False
    with string_le_total have "string_le (fst x) (fst kv)" by blast
    with Cons False show ?thesis by auto
  qed
qed simp

lemma sorted_sort_items: "sorted_wrt string_le (map fst (sort_items kvs))"
  by (induction kvs) (simp_all add: sort_items_def sorted_insert_item)

lemma sorted_keys_unique:
  "sorted_wrt string_le (map fst p) \<Longrightarrow> sorted_wrt string_le (map fst q) \<Longrightarrow>
     distinct (map fst p) \<Longrightarrow> distinct (map fst q) \<Longrightarrow> set p = set q \<Longrightarrow> p = q"
proof (induction p arbitrary: q)
  case (Cons x p)
  then obtain y q' where q: "q = y # q'" by (cases q) auto
  have "x = y"
  proof (rule ccontr)
    assume "x \<noteq> y"
    with Cons.prems(5) q have "x \<in> set q'" and "y \<in> set p" by auto
    with Cons.prems(1,2) q have "string_le (fst y) (fst x)" and "string_le (fst x) (fst y)" by auto
    then have "fst x = fst y" by (rule string_le_antisym [symmetric])
    with \<open>x \<in> set q'\<close> have "fst y \<in> fst ` set q'" by (simp add: image_eqI [of _ fst x])
    with Cons.prems(4) q show False by simp
  qed
  moreover have "x \<notin> set p" and "y \<notin> set q'" using Cons.prems(3,4) q by force+
  ultimately have "set p = set q'" using Cons.prems(5) q by auto
  with Cons q \<open>x = y\<close> show ?case by auto
qed simp

lemma sort_items_eq_iff:
  assumes "distinct (od_keys p)" and "distinct (od_keys q)"
  shows "sort_items p = sort_items q \<longleftrightarrow> od_get p = od_get q"
proof
  assume "sort_items p = sort_items q"
  with assms show "od_get p = od_get q" by (metis od_get_sort_items od_keys_def ext)
next
  assume eq: "od_get p = od_get q"
  have "set p = set q" using assms eq by (metis od_get_Some_iff subrelI subset_antisym)
  then show "sort_items p = sort_items q"
    using assms by (intro sorted_keys_unique) (simp_all add: sorted_sort_items od_keys_def)
qed

lemma wf_json_sort_keys: "wf_json j \<Longrightarrow> wf_json (sort_keys j)"
proof (induction j)
  case (JObj kvs)
  have "wf_json (sort_keys (snd kv))" if "kv \<in> set kvs" for kv
    using JObj.IH [of kv "snd kv"] JObj.prems that by (auto simp: prod_set_defs)
  with JObj.prems show ?case by (simp add: comp_def)
qed auto

lemma packages_json_alt: "packages_json pk = JObj (map (\<lambda>kv. (fst kv, JStr (snd kv))) pk)"
  by (simp add: packages_json_def case_prod_beta)

lemma sort_keys_packages: "sort_keys (packages_json pk) = packages_json (sort_items pk)"
  by (simp add: packages_json_alt comp_def sort_items_map)

lemma wf_packages_json [simp]: "wf_json (packages_json pk) \<longleftrightarrow> distinct (map fst pk)"
  by (auto simp: packages_json_def case_prod_beta comp_def)

lemma as_str_dict_packages [simp]: "as_str_dict (packages_json pk) = Inr pk"
  by (simp add: packages_json_def) (induction pk, auto)

lemma packages_json_inj [simp]: "packages_json p = packages_json q \<longleftrightarrow> p = q"
  by (metis as_str_dict_packages Inr_inject)

section \<open>The package hash\<close>

text \<open>A printed object is a prefix code: two texts that start with one agree on it and on the rest.\<close>

lemma ascii_utf8: "\<forall>c \<in> set s. (of_char c :: nat) < 128 \<Longrightarrow> utf8 s = s"
  by (induction s) (simp_all add: utf8_def utf8_char_def Let_def)

lemma utf8_append: "utf8 (s @ t) = utf8 s @ utf8 t"
  by (simp add: utf8_def)

lemma object_prefix_unique:
  assumes "wf_json (JObj p)" and "wf_json (JObj q)"
    and eq: "dumps (JObj p) @ s = dumps (JObj q) @ t"
  shows "p = q \<and> s = t"
proof -
  let ?n = "max (need (JObj p)) (need (JObj q))"
  have "parse_value ?n (dumps (JObj p) @ s) = Some (JObj p, s)"
    using assms(1) by (intro parse_obj_any) (auto intro: parses_wf)
  moreover have "parse_value ?n (dumps (JObj q) @ t) = Some (JObj q, t)"
    using assms(2) by (intro parse_obj_any) (auto intro: parses_wf)
  ultimately show ?thesis using eq by (metis Pair_inject json.inject(5) option.inject)
qed

lemma hash_preimage_eq_iff:
  assumes "distinct (od_keys (m_packages m))" and "distinct (od_keys (m_packages m'))"
  shows "hash_preimage m = hash_preimage m' \<longleftrightarrow>
     m_name m = m_name m' \<and> sort_items (m_packages m) = sort_items (m_packages m')"
proof -
  have "hash_preimage m = utf8 (dumps (packages_json (sort_items (m_packages m))) @ m_name m)" for m
    by (simp add: hash_preimage_def sort_keys_packages utf8_append)
  then have "hash_preimage m = hash_preimage m' \<longleftrightarrow>
      dumps (packages_json (sort_items (m_packages m))) @ m_name m
        = dumps (packages_json (sort_items (m_packages m'))) @ m_name m'"
    by (simp add: utf8_inj)
  moreover have wf: "wf_json (packages_json (sort_items (m_packages m)))"
    "wf_json (packages_json (sort_items (m_packages m')))"
    using assms by (simp_all add: od_keys_def)
  moreover obtain p p' where p: "packages_json (sort_items (m_packages m)) = JObj p"
    "packages_json (sort_items (m_packages m')) = JObj p'" by (simp add: packages_json_def)
  ultimately show ?thesis
    using object_prefix_unique [of p p'] by (metis packages_json_inj)
qed

lemma packages_hash_eq:
  assumes "distinct (od_keys (m_packages m))" and "distinct (od_keys (m_packages m'))"
    and "sha256 (hash_preimage m) = sha256 (hash_preimage m') \<Longrightarrow> hash_preimage m = hash_preimage m'"
  shows "packages_hash sha256 m = packages_hash sha256 m' \<longleftrightarrow>
     m_name m = m_name m' \<and> od_get (m_packages m) = od_get (m_packages m')"
proof -
  have "packages_hash sha256 m = packages_hash sha256 m' \<longleftrightarrow> hash_preimage m = hash_preimage m'"
    using assms(3) by (auto simp: packages_hash_def)
  with assms(1,2) show ?thesis by (simp add: hash_preimage_eq_iff sort_items_eq_iff)
qed

text \<open>
  The package hash of two manifests agrees exactly when they have the
  same name and the same dictionary of packages, whatever the order of its insertions, as long
  as SHA-256 does not collide on the two texts. The hash input concatenates the printed
  packages and the name without a separator; the printed object is a prefix code, so no two
  different pairs share an input.
\<close>

theorem packages_hash_eq_iff:
  assumes "distinct (od_keys (m_packages m))" and "distinct (od_keys (m_packages m'))"
    and "sha256 (hash_preimage m) = sha256 (hash_preimage m') \<Longrightarrow> hash_preimage m = hash_preimage m'"
  shows "packages_hash sha256 m = packages_hash sha256 m' \<longleftrightarrow>
     m_name m = m_name m' \<and> od_get (m_packages m) = od_get (m_packages m')"
  using assms by (rule packages_hash_eq)

definition example_library :: "string \<Rightarrow> (string, string) odict \<Rightarrow> manifest" where
  "example_library n pk = DEFAULT_VALUES\<lparr>m_name := n, m_type := LIBRARY, m_packages := pk\<rparr>"

lemma packages_hash_eq_iff_witness:
  "let m = example_library ''hmm'' [(''numpy'', ''1.21''), (''torch'', ''1.10'')];
       m' = example_library ''hmm'' [(''torch'', ''1.10''), (''numpy'', ''1.21'')]
   in packages_hash id m = packages_hash id m'"
proof -
  let ?m = "example_library ''hmm'' [(''numpy'', ''1.21''), (''torch'', ''1.10'')]"
  let ?m' = "example_library ''hmm'' [(''torch'', ''1.10''), (''numpy'', ''1.21'')]"
  have "packages_hash id ?m = packages_hash id ?m' \<longleftrightarrow>
      m_name ?m = m_name ?m' \<and> od_get (m_packages ?m) = od_get (m_packages ?m')"
    by (rule packages_hash_eq_iff) (simp_all add: example_library_def od_keys_def)
  then show ?thesis by (auto simp: example_library_def od_simps fun_eq_iff)
qed

section \<open>Round trip through dict and JSON\<close>

definition reserved_keys :: "string list" where
  "reserved_keys = [''name'', ''type'', ''version'', ''packages_semver'', ''hash'', ''packages'']"

text \<open>What the constructor and the setters keep of a manifest.\<close>

definition wf_manifest :: "manifest \<Rightarrow> bool" where
  "wf_manifest m \<longleftrightarrow> wf_version (v_val (m_version m)) \<and> distinct (od_keys (m_packages m))
     \<and> (m_type m = DATASET \<longrightarrow> m_packages_semver m = False \<and> m_packages m = [])
     \<and> (case m_appendix m of None \<Rightarrow> True
        | Some app \<Rightarrow> wf_json (JObj app) \<and> (\<forall>k \<in> set reserved_keys. k \<notin> set (od_keys app)))"

lemma distinct_manifest_items:
  "wf_manifest m \<Longrightarrow> distinct (map fst (manifest_items sha256 m))"
  by (cases "m_appendix m")
    (auto simp del: set_map simp: manifest_items_def wf_manifest_def reserved_keys_def od_keys_def)

lemma manifest_dict_eq: "wf_manifest m \<Longrightarrow> manifest_dict sha256 m = manifest_items sha256 m"
  by (simp add: manifest_dict_def od_update_all_distinct distinct_manifest_items)

lemma wf_manifest_dict: "wf_manifest m \<Longrightarrow> wf_json (JObj (manifest_dict sha256 m))"
proof -
  assume wf: "wf_manifest m"
  have "wf_json (snd kv)" if "kv \<in> set (manifest_items sha256 m)" for kv
    using wf that
    by (auto simp: manifest_items_def wf_manifest_def od_keys_def split: if_splits option.splits)
  with wf show ?thesis by (simp add: manifest_dict_eq distinct_manifest_items)
qed

lemma od_get_map_sort_keys:
  "od_get (map (\<lambda>kv. (fst kv, sort_keys (snd kv))) kvs) k = map_option sort_keys (od_get kvs k)"
  by (induction kvs) (auto simp: od_simps)

lemma manifest_json_loads:
  assumes "wf_manifest m"
  obtains d where "loads (manifest_json sha256 pk refresh m) = Inr (JObj d)"
    and "\<And>k. od_get d k = map_option sort_keys (od_get (manifest_items sha256 m) k)"
proof -
  let ?d = "sort_items (map (\<lambda>kv. (fst kv, sort_keys (snd kv))) (manifest_items sha256 m))"
  have "wf_json (sort_keys (JObj (manifest_items sha256 m)))"
    using wf_manifest_dict [OF assms] manifest_dict_eq [OF assms] wf_json_sort_keys by metis
  then have "loads (dumps (JObj ?d)) = Inr (JObj ?d)"
    by (intro loads_dumps) (simp only: sort_keys.simps)
  moreover have "od_get ?d k = map_option sort_keys (od_get (manifest_items sha256 m) k)" for k
    using distinct_manifest_items [OF assms]
    by (simp add: od_get_sort_items od_get_map_sort_keys comp_def)
  ultimately show thesis
    using that [of ?d] manifest_dict_eq [OF assms] by (simp add: manifest_json_def Let_def)
qed

lemma manifest_items_get:
  assumes "wf_manifest m"
  shows "od_get (manifest_items sha256 m) ''name'' = Some (JStr (m_name m))"
    and "od_get (manifest_items sha256 m) ''type'' = Some (JStr (component_type_value (m_type m)))"
    and "od_get (manifest_items sha256 m) ''version'' = Some (JStr (version_str (v_val (m_version m))))"
    and "od_get (manifest_items sha256 m) ''packages_semver'' =
      (if m_type m = LIBRARY then Some (JBool (m_packages_semver m)) else None)"
    and "od_get (manifest_items sha256 m) ''packages'' =
      (if m_type m = LIBRARY then Some (packages_json (m_packages m)) else None)"
  using assms
  by (auto simp: manifest_items_def od_simps wf_manifest_def reserved_keys_def od_get_None_iff
      split: option.splits)

text \<open>
  The wire form of a manifest. A worker sends \<^verbatim>\<open>manifest.json()\<close> and the coordinator rebuilds it
  with \<^verbatim>\<open>Manifest(json.loads(text))\<close>: the result has the same name, type, version number and
  semver flag and the packages in key order; the version is a new object.
\<close>

lemma manifest_json_roundtrip:
  assumes "wf_manifest m"
  shows "res_bind (loads (manifest_json sha256 pk refresh m))
      (\<lambda>j. case j of JObj d \<Rightarrow> manifest_init a (Some d) | _ \<Rightarrow> Inl TypeError) =
    Inr (m\<lparr>m_version := \<lparr>v_addr = a, v_val = v_val (m_version m)\<rparr>,
           m_packages := sort_items (m_packages m), m_appendix := None\<rparr>)"
proof -
  obtain d where d: "loads (manifest_json sha256 pk refresh m) = Inr (JObj d)"
    and get: "\<And>k. od_get d k = map_option sort_keys (od_get (manifest_items sha256 m) k)"
    using manifest_json_loads [OF assms] by blast
  have v: "from_version_str (version_str (v_val (m_version m))) = Inr (v_val (m_version m))"
    using assms by (intro from_version_str_roundtrip) (simp add: wf_manifest_def)
  have "m_type m = DATASET \<Longrightarrow> \<not> m_packages_semver m \<and> m_packages m = []"
    using assms by (simp add: wf_manifest_def)
  then show ?thesis using d v
    by (cases "m_type m")
      (auto simp: manifest_init_def obj_field_def get manifest_items_get [OF assms] sort_keys_packages
        DEFAULT_VALUES_def sort_items_def component_type_of_value_value [of DATASET, simplified]
        component_type_of_value_value [of LIBRARY, simplified])
qed

end
