(* ===== verification/Package.thy ===== *)
theory Package
  imports PyString
begin

text \<open>
  \<^verbatim>\<open>pysrc/package.py\<close>: which installed distributions the interpreter has loaded modules of.
  The installed distributions (as \<^verbatim>\<open>str(ws)\<close> prints them), their metadata directories, the
  files on disk and \<^verbatim>\<open>sys.modules\<close> are arguments. The main lemma: the active packages are exactly
  the listed ones a loaded module maps to, at their listed version, and no look-up fails.
\<close>

definition list_packages :: "string list \<Rightarrow> (string, string) odict result" where
  "list_packages working_set =
     res_bind (res_map (\<lambda>ws. case split_ws ws of [p, v] \<Rightarrow> Inr (p, v) | _ \<Rightarrow> Inl ValueError) working_set)
       (\<lambda>kvs. Inr (od_update_all [] kvs))"

definition get_package_module_map ::
    "(string \<Rightarrow> string option) \<Rightarrow> (string \<Rightarrow> string option) \<Rightarrow> string list \<Rightarrow> (string, string list) odict" where
  "get_package_module_map egg_info read_file packages =
     fold (\<lambda>p pmm.
       case egg_info p of
         None \<Rightarrow> pmm
       | Some metadata_dir \<Rightarrow>
           (case read_file (path_join metadata_dir ''top_level.txt'') of
              None \<Rightarrow> pmm
            | Some text \<Rightarrow> od_set p (str_split [CHR 0x0A] (str_rstrip text)) pmm))
     packages []"

definition get_module_package_map :: "(string, string list) odict \<Rightarrow> (string, string) odict" where
  "get_module_package_map pmmap =
     fold (\<lambda>(p, modules) mpmap. fold (\<lambda>m. od_set m p) modules mpmap) pmmap []"

definition get_active_packages ::
    "string list \<Rightarrow> (string \<Rightarrow> string option) \<Rightarrow> (string \<Rightarrow> string option) \<Rightarrow> string list
      \<Rightarrow> (string, string) odict result" where
  "get_active_packages working_set egg_info read_file active_modules =
     res_bind (list_packages working_set) (\<lambda>packages.
       let mpmap = get_module_package_map (get_package_module_map egg_info read_file (od_keys packages))
       in res_fold (\<lambda>am active.
            case od_get mpmap am of
              None \<Rightarrow> Inr active
            | Some p \<Rightarrow> res_bind (od_item packages p) (\<lambda>v. Inr (od_set p v active)))
          active_modules [])"

section \<open>Every module maps to a listed package\<close>

lemma od_keys_set_subset: "set (od_keys (od_set k v d)) = insert k (set (od_keys d))"
  by (rule set_od_keys_set)

lemma package_module_map_keys:
  "set (od_keys (get_package_module_map egg rd ps)) \<subseteq> set ps"
proof -
  have "set (od_keys (fold (\<lambda>p pmm. case egg p of None \<Rightarrow> pmm
      | Some dir \<Rightarrow> (case rd (path_join dir ''top_level.txt'') of None \<Rightarrow> pmm
         | Some text \<Rightarrow> od_set p (str_split [CHR 0x0A] (str_rstrip text)) pmm)) ps d))
      \<subseteq> set (od_keys d) \<union> set ps" for d :: "(string, string list) odict"
  proof (induction ps arbitrary: d)
    case (Cons p ps)
    show ?case
      by (rule order_trans [OF eq_refl [OF arg_cong [where f = "\<lambda>x. set (od_keys x)"]] order_trans [OF Cons.IH]])
        (auto simp: od_simps split: option.splits)
  qed simp
  from this [of "[]"] show ?thesis by (simp add: get_package_module_map_def od_simps)
qed

lemma fold_set_modules_values:
  "od_get (fold (\<lambda>m. od_set m p) modules d) m = (if m \<in> set modules then Some p else od_get d m)"
  by (induction modules arbitrary: d) (auto simp: od_simps)

lemma module_package_map_values:
  "od_get (get_module_package_map pmm) m = Some p \<Longrightarrow> \<exists>modules. (p, modules) \<in> set pmm \<and> m \<in> set modules"
proof -
  have "od_get (fold (\<lambda>(p, modules) mp. fold (\<lambda>m. od_set m p) modules mp) pmm d) m = Some p \<Longrightarrow>
      (\<exists>modules. (p, modules) \<in> set pmm \<and> m \<in> set modules) \<or> od_get d m = Some p" for d :: "(string, string) odict"
    by (induction pmm arbitrary: d) (fastforce simp: fold_set_modules_values split: if_splits)+
  then show "od_get (get_module_package_map pmm) m = Some p \<Longrightarrow> ?thesis"
    by (fastforce simp: get_module_package_map_def od_simps)
qed

lemma module_map_listed:
  "od_get (get_module_package_map (get_package_module_map egg rd ps)) m = Some p \<Longrightarrow> p \<in> set ps"
proof -
  assume "od_get (get_module_package_map (get_package_module_map egg rd ps)) m = Some p"
  then obtain modules where "(p, modules) \<in> set (get_package_module_map egg rd ps)"
    using module_package_map_values by blast
  then have "p \<in> set (od_keys (get_package_module_map egg rd ps))" by (force simp: od_keys_def)
  then show "p \<in> set ps" using package_module_map_keys by blast
qed

lemma active_loop:
  assumes "\<And>m p. od_get mp m = Some p \<Longrightarrow> \<exists>v. od_get packages p = Some v"
  shows "\<exists>active. res_fold (\<lambda>am active. case od_get mp am of None \<Rightarrow> Inr active
       | Some p \<Rightarrow> res_bind (od_item packages p) (\<lambda>v. Inr (od_set p v active))) ms d = Inr active
     \<and> (\<forall>p. od_get active p =
         (if \<exists>m \<in> set ms. od_get mp m = Some p then od_get packages p else od_get d p))"
proof (induction ms arbitrary: d)
  case (Cons m ms)
  show ?case
  proof (cases "od_get mp m")
    case None
    with Cons.IH [of d] show ?thesis by auto
  next
    case (Some p)
    then obtain v where v: "od_get packages p = Some v" using assms by blast
    with Some Cons.IH [of "od_set p v d"] show ?thesis
      by (auto simp: od_item_def od_simps)
  qed
qed simp

text \<open>
  C16 (functional behaviour). When every installed distribution prints as a name and a version,
  \<^verbatim>\<open>get_active_packages\<close> raises nothing: it returns, for exactly the listed packages that a loaded
  module maps to, the version the list gives.
\<close>

theorem get_active_packages_exact:
  fixes egg rd :: "string \<Rightarrow> string option"
  assumes "list_packages working_set = Inr packages"
  shows "\<exists>active. get_active_packages working_set egg rd modules = Inr active
     \<and> (\<forall>p. od_get active p =
          (if \<exists>m \<in> set modules. od_get (get_module_package_map
                (get_package_module_map egg rd (od_keys packages))) m = Some p
           then od_get packages p else None))"
proof -
  let ?mp = "get_module_package_map (get_package_module_map egg rd (od_keys packages))"
  have "\<exists>v. od_get packages p = Some v" if "od_get ?mp m = Some p" for m p
    using module_map_listed [OF that] od_get_None_iff [of packages p] by auto
  from active_loop [of ?mp packages modules "[]", OF this] show ?thesis
    by (simp only: get_active_packages_def assms(1) res_bind_simps Let_def od_get_empty)
qed

lemma get_active_packages_exact_witness:
  "\<exists>active. get_active_packages [''numpy 1.21'', ''torch 1.10''] Some
      (\<lambda>f. if f = ''torch/top_level.txt'' then Some (''torch'' @ [CHR 0x0A] @ ''caffe2'') else None)
      [''sys'', ''caffe2''] = Inr active
    \<and> od_get active ''torch'' = Some ''1.10'' \<and> od_get active ''numpy'' = None"
proof -
  let ?rd = "\<lambda>f. if f = ''torch/top_level.txt'' then Some (''torch'' @ [CHR 0x0A] @ ''caffe2'') else None"
  have "list_packages [''numpy 1.21'', ''torch 1.10''] = Inr [(''numpy'', ''1.21''), (''torch'', ''1.10'')]"
    by code_simp
  from get_active_packages_exact [OF this, where egg = Some and rd = ?rd and modules = "[''sys'', ''caffe2'']"]
  obtain active where "get_active_packages [''numpy 1.21'', ''torch 1.10''] Some ?rd [''sys'', ''caffe2''] = Inr active"
    and get: "\<And>p. od_get active p =
          (if \<exists>m \<in> set [''sys'', ''caffe2'']. od_get (get_module_package_map
                (get_package_module_map Some ?rd (od_keys [(''numpy'', ''1.21''), (''torch'', ''1.10'')]))) m = Some p
           then od_get [(''numpy'', ''1.21''), (''torch'', ''1.10'')] p else None)"
    by blast
  moreover have "get_module_package_map
      (get_package_module_map Some ?rd (od_keys [(''numpy'', ''1.21''), (''torch'', ''1.10'')]))
      = [(''torch'', ''torch''), (''caffe2'', ''torch'')]"
    by code_simp
  ultimately show ?thesis by (auto simp: od_simps)
qed

end
