(* ===== verification/MetaKey.thy ===== *)
theory MetaKey
  imports Version
begin

text \<open>
  The class \<open>MetaKey\<close> of \<^verbatim>\<open>pysrc/pipeman/meta.py\<close>: the key \<open>type::name::version\<close> of
  every stored object, its printed forms, the regular-expression parsers, the comparisons,
  and the key constructors. \<open>key_version_roundtrip\<close> is the round trip and
  \<open>key_version_string_inj\<close> the injectivity the storage layer rests on.
\<close>

section \<open>MetaKey\<close>

record meta_key =
  component_type :: string
  component_name :: string
  component_version :: semantic_version

definition GENERIC_DATASET_KEY :: string where "GENERIC_DATASET_KEY = ''dataset''"
definition GENERIC_LIBRARY_KEY :: string where "GENERIC_LIBRARY_KEY = ''library''"
definition GENERIC_WORKSPACE_KEY :: string where "GENERIC_WORKSPACE_KEY = ''workspace''"
definition GENERIC_SOLUTION_KEY :: string where "GENERIC_SOLUTION_KEY = ''solution''"
definition CURRENT_WORKSPACE_NAME :: string where "CURRENT_WORKSPACE_NAME = ''current-workspace''"

lemmas generic_key_defs =
  GENERIC_DATASET_KEY_def GENERIC_LIBRARY_KEY_def GENERIC_WORKSPACE_KEY_def GENERIC_SOLUTION_KEY_def

definition mk_key :: "string \<Rightarrow> string \<Rightarrow> semantic_version \<Rightarrow> meta_key" where
  "mk_key t n v = \<lparr>component_type = t, component_name = n, component_version = v\<rparr>"

lemma mk_key_simps [simp]:
  "component_type (mk_key t n v) = t"
  "component_name (mk_key t n v) = n"
  "component_version (mk_key t n v) = v"
  by (simp_all add: mk_key_def)

lemma mk_key_eta: "mk_key (component_type k) (component_name k) (component_version k) = k"
  by (simp add: mk_key_def)

definition to_string :: "bool \<Rightarrow> meta_key \<Rightarrow> string" where
  "to_string with_version k =
     (if with_version
      then component_type k @ ''::'' @ component_name k @ ''::'' @ version_str (component_version k)
      else component_type k @ ''::'' @ component_name k)"

definition REGEX_KEY_VERSION :: "re_item list" where
  "REGEX_KEY_VERSION = [RPlus not_space, RLit ''::'', RPlus not_space, RLit ''::'',
     RPlus not_space, RLit ''.'', RPlus is_digit, RLit ''.'', RPlus is_digit]"

definition REGEX_KEY_PLAIN :: "re_item list" where
  "REGEX_KEY_PLAIN = [RPlus not_space, RLit ''::'', RPlus not_space]"

definition build_from_string :: "string \<Rightarrow> bool \<Rightarrow> meta_key result" where
  "build_from_string value with_version =
     (if with_version then
        (case re_match REGEX_KEY_VERSION value of
           Some ([t, n, b, a, i], _) \<Rightarrow>
             Inr (mk_key t n (mk_version b (int (nat_of_str a)) (int (nat_of_str i))))
         | _ \<Rightarrow> Inl ValueError)
      else
        (case re_match REGEX_KEY_PLAIN value of
           Some ([t, n], _) \<Rightarrow> Inr (mk_key t n build_zero_version)
         | _ \<Rightarrow> Inl ValueError))"

definition build_current_workspace_meta_key :: meta_key where
  "build_current_workspace_meta_key =
     mk_key GENERIC_WORKSPACE_KEY CURRENT_WORKSPACE_NAME build_zero_version"

definition build_generic_dataset_key :: "string \<Rightarrow> semantic_version \<Rightarrow> meta_key" where
  "build_generic_dataset_key name sv = mk_key GENERIC_DATASET_KEY name sv"

definition build_generic_library_key :: "string \<Rightarrow> semantic_version \<Rightarrow> meta_key" where
  "build_generic_library_key name sv = mk_key GENERIC_LIBRARY_KEY name sv"

definition build_generic_solution_key :: "string \<Rightarrow> semantic_version \<Rightarrow> meta_key" where
  "build_generic_solution_key name sv = mk_key GENERIC_SOLUTION_KEY name sv"

definition build_generic_workspace_key :: "string \<Rightarrow> semantic_version \<Rightarrow> meta_key" where
  "build_generic_workspace_key name sv = mk_key GENERIC_WORKSPACE_KEY name sv"

definition api_version_equal_to :: "meta_key \<Rightarrow> meta_key \<Rightarrow> bool" where
  "api_version_equal_to self key \<longleftrightarrow>
     api_version (component_version key) = api_version (component_version self)"

definition type_name_equal_to :: "meta_key \<Rightarrow> meta_key \<Rightarrow> bool" where
  "type_name_equal_to self key \<longleftrightarrow>
     component_type key = component_type self \<and> component_name key = component_name self"

definition has_update_over :: "meta_key \<Rightarrow> meta_key \<Rightarrow> bool" where
  "has_update_over self key =
     (if inc_version (component_version key) < inc_version (component_version self) then True
      else if api_version (component_version key) < api_version (component_version self) then True
      else if branch (component_version key) \<noteq> branch (component_version self) then True
      else False)"

definition has_major_update_over :: "meta_key \<Rightarrow> meta_key \<Rightarrow> bool" where
  "has_major_update_over self key =
     (if branch (component_version key) \<noteq> branch (component_version self) then True
      else if api_version (component_version key) \<noteq> api_version (component_version self) then True
      else False)"

definition key_equals :: "meta_key \<Rightarrow> meta_key \<Rightarrow> bool" where
  "key_equals self key \<longleftrightarrow> type_name_equal_to self key
     \<and> version_equals (component_version self) (component_version key)"

text \<open>\<open>__eq__\<close> is equality of the model, so \<open>=\<close> stands for it in the rest of the development.\<close>

lemma key_equals_eq: "key_equals k l \<longleftrightarrow> k = l"
  by (auto simp: key_equals_def type_name_equal_to_def)

section \<open>Well-formed keys\<close>

definition no_colon :: "string \<Rightarrow> bool" where
  "no_colon s \<longleftrightarrow> CHR '':'' \<notin> set s"

definition wf_key :: "meta_key \<Rightarrow> bool" where
  "wf_key k \<longleftrightarrow>
     component_type k \<noteq> [] \<and> (\<forall>c \<in> set (component_type k). not_space c)
     \<and> component_name k \<noteq> [] \<and> (\<forall>c \<in> set (component_name k). not_space c)
     \<and> no_colon (component_name k)
     \<and> wf_version (component_version k) \<and> no_colon (branch (component_version k))"

lemma wf_zero_version_no_colon [simp]: "no_colon (branch build_zero_version)"
  by (simp add: no_colon_def build_zero_version_def DEFAULT_BRANCH_def)

lemma count_colon_0: "no_colon s \<Longrightarrow> count_list s (CHR '':'') = 0"
  by (simp add: no_colon_def count_list_0_iff)

lemma no_colon_int_str: "0 \<le> i \<Longrightarrow> no_colon (int_str i)"
  using int_str_digits [of i] digit_not_dot by (auto simp: no_colon_def)

lemma count_colon_version_str:
  "wf_version v \<Longrightarrow> no_colon (branch v) \<Longrightarrow> count_list (version_str v) (CHR '':'') = 0"
  by (simp add: version_str_def count_colon_0 no_colon_int_str wf_version_def)

lemma drop_Cons_count_le: "0 < k \<Longrightarrow> count_list (drop k (c # s)) d \<le> count_list s d"
  by (cases k) (simp_all add: count_list_drop_le)

lemma re_name_version_match:
  assumes "wf_key k"
  shows "re_match ([RPlus not_space, RLit ''::''] @ RPlus not_space # re_version_tail)
      (component_name k @ ''::'' @ version_str (component_version k)) =
    Some ([component_name k, branch (component_version k), int_str (api_version (component_version k)),
      int_str (inc_version (component_version k))], [])"
proof -
  let ?v = "component_version k"
  from assms have wfv: "wf_version ?v" and nc: "no_colon (branch ?v)" by (simp_all add: wf_key_def)
  from wfv have ver: "re_match (RPlus not_space # re_version_tail) (version_str ?v) =
      Some ([branch ?v, int_str (api_version ?v), int_str (inc_version ?v)], [])"
    unfolding version_str_def wf_version_def by (intro re_version_match) simp_all
  have sep: "re_match (RLit ''::'' # RPlus not_space # re_version_tail) (''::'' @ version_str ?v) =
      Some ([branch ?v, int_str (api_version ?v), int_str (inc_version ?v)], [])"
    unfolding re_match_lit by (rule ver)
  have "re_match (RPlus not_space # (RLit ''::'' # RPlus not_space # re_version_tail))
      (component_name k @ (''::'' @ version_str ?v)) =
    Some (component_name k # [branch ?v, int_str (api_version ?v), int_str (inc_version ?v)], [])"
  proof (rule re_match_plus_exact [OF _ _ sep])
    fix j :: nat
    assume "0 < j"
    then have "count_list (drop j (''::'' @ version_str ?v)) (CHR '':'') \<le> count_list ('':'' @ version_str ?v) (CHR '':'')"
      unfolding append_Cons append_Nil by (rule drop_Cons_count_le)
    also have "\<dots> = 1" by (simp add: count_colon_version_str wfv nc)
    finally show "re_match (RLit ''::'' # RPlus not_space # re_version_tail) (drop j (''::'' @ version_str ?v)) = None"
      by (intro re_match_too_few [where c = "CHR '':''"]) (simp add: re_version_tail_def)
  qed (use assms in \<open>auto simp: wf_key_def\<close>)
  then show ?thesis by simp
qed

lemma re_key_match:
  assumes "wf_key k"
  shows "re_match REGEX_KEY_VERSION (to_string True k) =
    Some ([component_type k, component_name k, branch (component_version k),
      int_str (api_version (component_version k)), int_str (inc_version (component_version k))], [])"
proof -
  let ?v = "component_version k"
  let ?tail = "[RPlus not_space, RLit ''::''] @ RPlus not_space # re_version_tail"
  let ?rest = "component_name k @ ''::'' @ version_str ?v"
  let ?gs = "[component_name k, branch ?v, int_str (api_version ?v), int_str (inc_version ?v)]"
  have sep: "re_match (RLit ''::'' # ?tail) (''::'' @ ?rest) = Some (?gs, [])"
    unfolding re_match_lit by (rule re_name_version_match [OF assms])
  have "re_match (RPlus not_space # (RLit ''::'' # ?tail)) (component_type k @ (''::'' @ ?rest)) =
      Some (component_type k # ?gs, [])"
  proof (rule re_match_plus_exact [OF _ _ sep])
    fix j :: nat
    assume "0 < j"
    then have "count_list (drop j (''::'' @ ?rest)) (CHR '':'') \<le> count_list ('':'' @ ?rest) (CHR '':'')"
      unfolding append_Cons append_Nil by (rule drop_Cons_count_le)
    also have "\<dots> = 3" using assms by (simp add: wf_key_def count_colon_version_str count_colon_0)
    finally show "re_match (RLit ''::'' # ?tail) (drop j (''::'' @ ?rest)) = None"
      by (intro re_match_too_few [where c = "CHR '':''"]) (simp add: re_version_tail_def)
  qed (use assms in \<open>auto simp: wf_key_def\<close>)
  then show ?thesis
    by (simp add: REGEX_KEY_VERSION_def re_version_tail_def to_string_def)
qed

lemma key_version_roundtrip:
  "wf_key k \<Longrightarrow> build_from_string (to_string True k) True = Inr k"
proof -
  assume wf: "wf_key k"
  then have "wf_version (component_version k)" by (simp add: wf_key_def)
  then have "mk_version (branch (component_version k))
      (int (nat_of_str (int_str (api_version (component_version k)))))
      (int (nat_of_str (int_str (inc_version (component_version k))))) = component_version k"
    by (simp add: wf_version_def int_str_nonneg str_simps version_eta)
  with re_key_match [OF wf] show ?thesis
    by (simp add: build_from_string_def mk_key_eta)
qed

lemma key_version_string_inj:
  "wf_key k \<Longrightarrow> wf_key l \<Longrightarrow> to_string True k = to_string True l \<Longrightarrow> k = l"
proof -
  assume "wf_key k" and "wf_key l" and eq: "to_string True k = to_string True l"
  then have "re_match REGEX_KEY_VERSION (to_string True k) = re_match REGEX_KEY_VERSION (to_string True l)"
    by simp
  with \<open>wf_key k\<close> \<open>wf_key l\<close> show "k = l"
    by (simp add: re_key_match int_str_inj)
qed

text \<open>The form without a version: the round trip returns the default version.\<close>

lemma re_plain_match:
  assumes "wf_key k"
  shows "re_match REGEX_KEY_PLAIN (to_string False k) = Some ([component_type k, component_name k], [])"
proof -
  have sep: "re_match [RLit ''::'', RPlus not_space] (''::'' @ component_name k) = Some ([component_name k], [])"
    unfolding re_match_lit by (rule re_match_plus_end) (use assms in \<open>auto simp: wf_key_def\<close>)
  have "re_match (RPlus not_space # [RLit ''::'', RPlus not_space]) (component_type k @ (''::'' @ component_name k)) =
      Some (component_type k # [component_name k], [])"
  proof (rule re_match_plus_exact [OF _ _ sep])
    fix j :: nat
    assume "0 < j"
    then have "count_list (drop j (''::'' @ component_name k)) (CHR '':'') \<le> count_list ('':'' @ component_name k) (CHR '':'')"
      unfolding append_Cons append_Nil by (rule drop_Cons_count_le)
    also have "\<dots> = 1" using assms by (simp add: wf_key_def count_colon_0)
    finally show "re_match [RLit ''::'', RPlus not_space] (drop j (''::'' @ component_name k)) = None"
      by (intro re_match_too_few [where c = "CHR '':''"]) simp
  qed (use assms in \<open>auto simp: wf_key_def\<close>)
  then show ?thesis by (simp add: REGEX_KEY_PLAIN_def to_string_def)
qed

lemma build_from_string_plain:
  "wf_key k \<Longrightarrow> build_from_string (to_string False k) False =
     Inr (mk_key (component_type k) (component_name k) build_zero_version)"
  by (simp add: build_from_string_def re_plain_match)

lemma key_plain_string_inj:
  "wf_key k \<Longrightarrow> wf_key l \<Longrightarrow> to_string False k = to_string False l \<Longrightarrow>
     component_type k = component_type l \<and> component_name k = component_name l"
proof -
  assume "wf_key k" and "wf_key l" and "to_string False k = to_string False l"
  then have "re_match REGEX_KEY_PLAIN (to_string False k) = re_match REGEX_KEY_PLAIN (to_string False l)"
    by simp
  with \<open>wf_key k\<close> \<open>wf_key l\<close> show ?thesis by (simp add: re_plain_match)
qed

text \<open>
  C14 (round trip). For every key whose parts hold no colon and no white space,
  \<^verbatim>\<open>MetaKey.build_from_string\<close> undoes \<^verbatim>\<open>to_string\<close>: with the version it returns the key itself,
  although every greedy group accepts the dots and digits of the others; without it, the
  key of the same type and name at the default version.
\<close>

theorem build_from_string_to_string:
  assumes "wf_key k"
  shows "build_from_string (to_string True k) True = Inr k
     \<and> build_from_string (to_string False k) False =
         Inr (mk_key (component_type k) (component_name k) build_zero_version)"
  using key_version_roundtrip [OF assms] build_from_string_plain [OF assms] by simp

lemma build_from_string_to_string_witness:
  "let k = mk_key ''library'' ''hmm'' (mk_version ''v1.0'' 0 2)
   in build_from_string (to_string True k) True = Inr k
     \<and> build_from_string (to_string False k) False = Inr (mk_key ''library'' ''hmm'' build_zero_version)"
proof -
  have wf: "wf_key (mk_key ''library'' ''hmm'' (mk_version ''v1.0'' 0 2))"
    by (simp add: wf_key_def wf_version_def no_colon_def not_space_def is_space_def)
  show ?thesis using build_from_string_to_string [OF wf] by (simp add: Let_def)
qed

section \<open>Comparisons\<close>

lemma has_update_over_iff:
  "has_update_over k l \<longleftrightarrow>
     inc_version (component_version l) < inc_version (component_version k)
     \<or> api_version (component_version l) < api_version (component_version k)
     \<or> branch (component_version l) \<noteq> branch (component_version k)"
  by (simp add: has_update_over_def)

lemma has_update_over_irrefl: "\<not> has_update_over k k"
  by (simp add: has_update_over_def)

lemma has_major_update_over_sym: "has_major_update_over k l = has_major_update_over l k"
  by (auto simp: has_major_update_over_def)

lemma major_update_different_api:
  "branch (component_version k) = branch (component_version l) \<Longrightarrow>
     has_major_update_over k l \<longleftrightarrow> \<not> api_version_equal_to k l"
  by (auto simp: has_major_update_over_def api_version_equal_to_def)

end
