(* ===== verification/ConfigParser.thy ===== *)
theory ConfigParser
  imports PyString
begin

text \<open>
  What the program uses of Python's \<open>configparser.ConfigParser\<close>: sections of options with
  lower-case names, \<open>%\<close>-interpolation on \<open>get\<close>, its check on \<open>set\<close>, and the typed getters
  with fallbacks. A configuration is the parsed object; files are held as such objects.
\<close>

section \<open>Sections and options\<close>

record icp =
  cp_sections :: "(string, (string, string) odict) odict"
  cp_defaults :: "(string, string) odict"

definition cp_empty :: icp where
  "cp_empty = \<lparr>cp_sections = [], cp_defaults = []\<rparr>"

definition to_lower :: "char \<Rightarrow> char" where
  "to_lower c = (let n = (of_char c :: nat) in
     if 65 \<le> n \<and> n \<le> 90 \<or> 192 \<le> n \<and> n \<le> 222 \<and> n \<noteq> 215 then char_of (n + 32) else c)"

definition optionxform :: "string \<Rightarrow> string" where
  "optionxform s = map to_lower s"

definition DEFAULTSECT :: string where "DEFAULTSECT = ''DEFAULT''"

definition has_section :: "icp \<Rightarrow> string \<Rightarrow> bool" where
  "has_section cp s \<longleftrightarrow> od_get (cp_sections cp) s \<noteq> None"

definition add_section :: "string \<Rightarrow> icp \<Rightarrow> icp result" where
  "add_section s cp =
     (if s = DEFAULTSECT then Inl ValueError
      else if has_section cp s then Inl DuplicateSectionError
      else Inr (cp\<lparr>cp_sections := od_set s [] (cp_sections cp)\<rparr>))"

section \<open>Interpolation\<close>

text \<open>
  \<open>BasicInterpolation\<close>: \<open>%%\<close> is a percent sign, \<open>%(name)s\<close> the (interpolated) value of another
  option, at most ten levels deep; \<open>d\<close> counts the levels left.
\<close>

definition key_reference :: "string \<Rightarrow> (string \<times> string) option" where
  "key_reference rest =
     (let name = takeWhile (\<lambda>c. c \<noteq> CHR '')'') (drop 2 rest)
      in if starts_with ''%('' rest \<and> name \<noteq> [] \<and> starts_with '')s'' (drop (2 + length name) rest)
         then Some (name, drop (4 + length name) rest) else None)"

lemma key_reference_shorter: "key_reference s = Some (n, r) \<Longrightarrow> length r < length s"
  by (auto simp: key_reference_def Let_def starts_with_def split: if_splits)
    (metis diff_less length_greater_0_conv take_Nil zero_less_numeral trans_less_add1 list.distinct(1))

function interpolate_some :: "nat \<Rightarrow> (string \<Rightarrow> string option) \<Rightarrow> string \<Rightarrow> string result" where
  "interpolate_some d vars [] = Inr []"
| "interpolate_some d vars (c # rest) =
     (if c \<noteq> CHR ''%'' then res_bind (interpolate_some d vars rest) (\<lambda>r. Inr (c # r))
      else if starts_with ''%'' rest then
        res_bind (interpolate_some d vars (tl rest)) (\<lambda>r. Inr (CHR ''%'' # r))
      else
        (case key_reference (c # rest) of
           None \<Rightarrow> Inl InterpolationError
         | Some (name, rest') \<Rightarrow>
             (case vars (optionxform name) of
                None \<Rightarrow> Inl InterpolationError
              | Some v \<Rightarrow>
                  res_bind
                    (if CHR ''%'' \<in> set v
                     then (case d of 0 \<Rightarrow> Inl InterpolationError | Suc d' \<Rightarrow> interpolate_some d' vars v)
                     else Inr v)
                    (\<lambda>x. res_bind (interpolate_some d vars rest') (\<lambda>r. Inr (x @ r))))))"
  by pat_completeness auto
termination
  by (relation "measures [\<lambda>(d, vars, s). d, \<lambda>(d, vars, s). length s]")
    (auto dest: key_reference_shorter simp: starts_with_def)

lemma interpolate_plain: "CHR ''%'' \<notin> set s \<Longrightarrow> interpolate_some d vars s = Inr s"
  by (induction s) auto

declare interpolate_some.simps(2) [simp del]

text \<open>\<open>before_set\<close>: no percent sign may remain once \<open>%%\<close> and references are removed.\<close>

fun drop_double :: "string \<Rightarrow> string" where
  "drop_double (c # d # s) =
     (if c = CHR ''%'' \<and> d = CHR ''%'' then drop_double s else c # drop_double (d # s))"
| "drop_double s = s"

function drop_references :: "string \<Rightarrow> string" where
  "drop_references [] = []"
| "drop_references (c # s) =
     (case key_reference (c # s) of
        Some (name, rest) \<Rightarrow> drop_references rest
      | None \<Rightarrow> c # drop_references s)"
  by pat_completeness auto
termination
  by (relation "measure length") (auto dest: key_reference_shorter)

definition valid_value :: "string \<Rightarrow> bool" where
  "valid_value v \<longleftrightarrow> CHR ''%'' \<notin> set (drop_references (drop_double v))"

lemma drop_double_plain: "CHR ''%'' \<notin> set s \<Longrightarrow> drop_double s = s"
  by (induction s rule: drop_double.induct) auto

lemma drop_references_plain: "CHR ''%'' \<notin> set s \<Longrightarrow> drop_references s = s"
proof (induction s)
  case (Cons c s)
  then have "key_reference (c # s) = None" by (auto simp: key_reference_def Let_def starts_with_def)
  with Cons show ?case by simp
qed simp

lemma valid_value_plain: "CHR ''%'' \<notin> set v \<Longrightarrow> valid_value v"
  by (simp add: valid_value_def drop_double_plain drop_references_plain)

section \<open>get and set\<close>

definition cp_vars :: "icp \<Rightarrow> (string, string) odict \<Rightarrow> string \<Rightarrow> string option" where
  "cp_vars cp opts k = (case od_get opts k of None \<Rightarrow> od_get (cp_defaults cp) k | Some v \<Rightarrow> Some v)"

definition cp_get :: "icp \<Rightarrow> string \<Rightarrow> string \<Rightarrow> string result" where
  "cp_get cp s opt =
     res_bind (case od_get (cp_sections cp) s of
                 Some opts \<Rightarrow> Inr opts
               | None \<Rightarrow> if s = DEFAULTSECT then Inr [] else Inl NoSectionError)
       (\<lambda>opts. case cp_vars cp opts (optionxform opt) of
          None \<Rightarrow> Inl NoOptionError
        | Some v \<Rightarrow> interpolate_some 9 (cp_vars cp opts) v)"

text \<open>\<open>get(..., fallback=f)\<close>: a missing section or option gives \<open>f\<close> as it is.\<close>

definition cp_get_fallback :: "icp \<Rightarrow> string \<Rightarrow> string \<Rightarrow> string \<Rightarrow> string result" where
  "cp_get_fallback cp s opt fb =
     (case cp_get cp s opt of
        Inl NoSectionError \<Rightarrow> Inr fb
      | Inl NoOptionError \<Rightarrow> Inr fb
      | r \<Rightarrow> r)"

definition cp_set :: "string \<Rightarrow> string \<Rightarrow> string \<Rightarrow> icp \<Rightarrow> icp result" where
  "cp_set s opt v cp =
     (if \<not> valid_value v then Inl ValueError
      else if s = DEFAULTSECT \<or> s = []
      then Inr (cp\<lparr>cp_defaults := od_set (optionxform opt) v (cp_defaults cp)\<rparr>)
      else (case od_get (cp_sections cp) s of
              None \<Rightarrow> Inl NoSectionError
            | Some opts \<Rightarrow>
                Inr (cp\<lparr>cp_sections := od_set s (od_set (optionxform opt) v opts) (cp_sections cp)\<rparr>)))"

text \<open>\<open>getboolean\<close> and \<open>getint\<close>.\<close>

definition convert_to_boolean :: "string \<Rightarrow> bool result" where
  "convert_to_boolean v =
     (let l = map to_lower v in
      if l \<in> {''1'', ''yes'', ''true'', ''on''} then Inr True
      else if l \<in> {''0'', ''no'', ''false'', ''off''} then Inr False
      else Inl ValueError)"

definition parse_py_int :: "string \<Rightarrow> int result" where
  "parse_py_int s =
     (let t = str_strip s;
          neg = starts_with ''-'' t;
          u = (if starts_with ''-'' t \<or> starts_with ''+'' t then tl t else t)
      in if u \<noteq> [] \<and> list_all is_digit u
         then Inr (if neg then - int (nat_of_str u) else int (nat_of_str u))
         else Inl ValueError)"

definition cp_getboolean_fallback :: "icp \<Rightarrow> string \<Rightarrow> string \<Rightarrow> bool \<Rightarrow> bool result" where
  "cp_getboolean_fallback cp s opt fb =
     (case cp_get cp s opt of
        Inl NoSectionError \<Rightarrow> Inr fb
      | Inl NoOptionError \<Rightarrow> Inr fb
      | Inl e \<Rightarrow> Inl e
      | Inr v \<Rightarrow> convert_to_boolean v)"

definition cp_getboolean :: "icp \<Rightarrow> string \<Rightarrow> string \<Rightarrow> bool result" where
  "cp_getboolean cp s opt = res_bind (cp_get cp s opt) convert_to_boolean"

definition cp_getint_fallback :: "icp \<Rightarrow> string \<Rightarrow> string \<Rightarrow> int \<Rightarrow> int result" where
  "cp_getint_fallback cp s opt fb =
     (case cp_get cp s opt of
        Inl NoSectionError \<Rightarrow> Inr fb
      | Inl NoOptionError \<Rightarrow> Inr fb
      | Inl e \<Rightarrow> Inl e
      | Inr v \<Rightarrow> parse_py_int v)"

section \<open>Laws of set and get\<close>

lemma has_section_add: "add_section s cp = Inr cp' \<Longrightarrow> has_section cp' t \<longleftrightarrow> t = s \<or> has_section cp t"
  by (auto simp: add_section_def has_section_def od_simps split: if_splits)

lemma has_section_set: "cp_set s opt v cp = Inr cp' \<Longrightarrow> has_section cp' t \<longleftrightarrow> has_section cp t"
  by (auto simp: cp_set_def has_section_def od_simps split: if_splits option.splits)

lemma cp_set_ok:
  "has_section cp s \<Longrightarrow> s \<noteq> DEFAULTSECT \<Longrightarrow> s \<noteq> [] \<Longrightarrow> valid_value v \<Longrightarrow> \<exists>cp'. cp_set s opt v cp = Inr cp'"
  by (auto simp: cp_set_def has_section_def)

text \<open>Another option of the same section keeps its value when no reference is involved.\<close>

definition raw_value :: "icp \<Rightarrow> string \<Rightarrow> string \<Rightarrow> string option" where
  "raw_value cp s opt = (case od_get (cp_sections cp) s of None \<Rightarrow> None | Some opts \<Rightarrow> cp_vars cp opts (optionxform opt))"

lemma cp_get_raw: "raw_value cp s opt = Some v \<Longrightarrow> CHR ''%'' \<notin> set v \<Longrightarrow> cp_get cp s opt = Inr v"
  by (auto simp: raw_value_def cp_get_def interpolate_plain split: option.splits)

lemma cp_get_raw_None:
  "has_section cp s \<Longrightarrow> raw_value cp s opt = None \<Longrightarrow> cp_get cp s opt = Inl NoOptionError"
  by (auto simp: raw_value_def cp_get_def has_section_def split: option.splits)

lemma raw_value_set:
  assumes "cp_set s opt v cp = Inr cp'" and "s \<noteq> DEFAULTSECT" and "s \<noteq> []"
  shows "raw_value cp' t opt' =
     (if t = s \<and> optionxform opt' = optionxform opt then Some v else raw_value cp t opt')"
  using assms by (auto simp: cp_set_def raw_value_def cp_vars_def od_simps split: if_splits option.splits)

lemma cp_get_set_same:
  assumes "cp_set s opt v cp = Inr cp'" and "s \<noteq> DEFAULTSECT" and "s \<noteq> []" and "CHR ''%'' \<notin> set v"
  shows "cp_get cp' s opt = Inr v"
  using raw_value_set [OF assms(1-3)] assms(4) by (intro cp_get_raw) simp_all

lemma cp_get_set_other_section:
  assumes "cp_set s opt v cp = Inr cp'" and "s \<noteq> DEFAULTSECT" and "s \<noteq> []" and "t \<noteq> s"
  shows "cp_get cp' t opt' = cp_get cp t opt'"
proof -
  have "od_get (cp_sections cp') t = od_get (cp_sections cp) t" and "cp_defaults cp' = cp_defaults cp"
    using assms by (auto simp: cp_set_def od_simps split: if_splits option.splits)
  moreover from this(2) have "cp_vars cp' = cp_vars cp" by (intro ext) (simp add: cp_vars_def split: option.split)
  ultimately show ?thesis unfolding cp_get_def by (simp only:)
qed

end
