(* ===== verification/MetaConfig.thy ===== *)
theory MetaConfig
  imports MetaKey Json ConfigParser
begin

text \<open>
  The configuration classes of \<^verbatim>\<open>pysrc/pipeman/meta.py\<close> over a parsed configuration: the common
  identifier section (\<open>MetaConfig\<close>), data sets, libraries, workspaces and solutions. Setters
  return the new configuration, getters the value, each with the exception it may raise.
  Times are the text \<open>str(time.time())\<close> stores. The two Python sets of option names are read in a
  fixed order; the order decides nothing but the order of the options.
\<close>

section \<open>MetaConfig\<close>

definition META_SECTION_ID :: string where "META_SECTION_ID = ''identifier''"
definition META_SECTION_CONFIG :: string where "META_SECTION_CONFIG = ''configuration''"
definition META_SECTION_DATASETS :: string where "META_SECTION_DATASETS = ''datasets''"
definition META_SECTION_SOLUTION :: string where "META_SECTION_SOLUTION = ''solution''"
definition META_SECTION_PATHS :: string where "META_SECTION_PATHS = ''paths''"
definition META_SECTION_REF :: string where "META_SECTION_REF = ''reference''"

lemmas section_defs = META_SECTION_ID_def META_SECTION_CONFIG_def META_SECTION_DATASETS_def
  META_SECTION_SOLUTION_def META_SECTION_PATHS_def META_SECTION_REF_def DEFAULTSECT_def

definition meta_init :: "icp \<Rightarrow> icp result" where
  "meta_init cp = (if has_section cp META_SECTION_ID then Inr cp else add_section META_SECTION_ID cp)"

definition meta_name :: "icp \<Rightarrow> string result" where
  "meta_name cp = cp_get cp META_SECTION_ID ''name''"

definition set_meta_name :: "string \<Rightarrow> icp \<Rightarrow> icp result" where
  "set_meta_name v cp = cp_set META_SECTION_ID ''name'' v cp"

definition meta_version :: "icp \<Rightarrow> semantic_version result" where
  "meta_version cp = res_bind (cp_get cp META_SECTION_ID ''version'') from_version_str"

definition set_meta_version :: "semantic_version \<Rightarrow> icp \<Rightarrow> icp result" where
  "set_meta_version v cp = cp_set META_SECTION_ID ''version'' (version_str v) cp"

definition meta_meta_type :: "icp \<Rightarrow> string result" where
  "meta_meta_type cp = cp_get cp META_SECTION_ID ''type''"

definition set_meta_type :: "string \<Rightarrow> icp \<Rightarrow> icp result" where
  "set_meta_type v cp = cp_set META_SECTION_ID ''type'' v cp"

definition meta_description :: "icp \<Rightarrow> string result" where
  "meta_description cp = cp_get cp META_SECTION_ID ''description''"

definition set_meta_description :: "string \<Rightarrow> icp \<Rightarrow> icp result" where
  "set_meta_description v cp = cp_set META_SECTION_ID ''description'' v cp"

definition meta_created_timestamp :: "icp \<Rightarrow> string result" where
  "meta_created_timestamp cp = cp_get cp META_SECTION_ID ''created-timestamp''"

definition set_created_timestamp :: "string \<Rightarrow> icp \<Rightarrow> icp result" where
  "set_created_timestamp v cp = cp_set META_SECTION_ID ''created-timestamp'' v cp"

definition meta_key_of :: "icp \<Rightarrow> meta_key result" where
  "meta_key_of cp =
     res_bind (meta_meta_type cp) (\<lambda>t. res_bind (meta_name cp) (\<lambda>n. res_bind (meta_version cp) (\<lambda>v.
       Inr (mk_key t n v))))"

section \<open>DatasetMeta and LibraryMeta\<close>

definition dataset_files :: "icp \<Rightarrow> string list result" where
  "dataset_files cp = res_bind (cp_get cp META_SECTION_CONFIG ''files'') (\<lambda>s. Inr (str_split '','' s))"

definition db_config :: "icp \<Rightarrow> string result" where
  "db_config cp = cp_get cp META_SECTION_CONFIG ''db-config''"

definition schema_hash :: "icp \<Rightarrow> string result" where
  "schema_hash cp = cp_get cp META_SECTION_CONFIG ''schema-hash''"

definition set_schema_hash :: "string \<Rightarrow> icp \<Rightarrow> icp result" where
  "set_schema_hash v cp = cp_set META_SECTION_CONFIG ''schema-hash'' v cp"

definition api_updated :: "icp \<Rightarrow> bool result" where
  "api_updated cp = cp_getboolean cp META_SECTION_CONFIG ''api-version-updated''"

definition train_script :: "icp \<Rightarrow> string result" where
  "train_script cp = cp_get cp META_SECTION_CONFIG ''train''"

definition train_params :: "icp \<Rightarrow> json result" where
  "train_params cp = res_bind (cp_get cp META_SECTION_CONFIG ''train-parameters'') loads"

definition inference_script :: "icp \<Rightarrow> string result" where
  "inference_script cp = cp_get cp META_SECTION_CONFIG ''inference''"

definition inference_params :: "icp \<Rightarrow> json result" where
  "inference_params cp = res_bind (cp_get cp META_SECTION_CONFIG ''inference-parameters'') loads"

section \<open>WorkspaceMeta\<close>

definition workspace_init_sections :: "icp \<Rightarrow> icp result" where
  "workspace_init_sections cp =
     res_fold add_section
       [META_SECTION_DATASETS, META_SECTION_SOLUTION, META_SECTION_PATHS, META_SECTION_CONFIG, META_SECTION_REF] cp"

definition short_branch_identifier :: "icp \<Rightarrow> string result" where
  "short_branch_identifier cp = cp_get cp META_SECTION_CONFIG ''short-branch-identifier''"

definition set_short_branch_identifier :: "string \<Rightarrow> icp \<Rightarrow> icp result" where
  "set_short_branch_identifier v cp = cp_set META_SECTION_CONFIG ''short-branch-identifier'' v cp"

definition workspace_description :: "icp \<Rightarrow> string result" where
  "workspace_description cp = cp_get cp META_SECTION_CONFIG ''description''"

definition set_workspace_description :: "string \<Rightarrow> icp \<Rightarrow> icp result" where
  "set_workspace_description v cp = cp_set META_SECTION_CONFIG ''description'' v cp"

definition workspace_params :: "icp \<Rightarrow> json result" where
  "workspace_params cp = res_bind (cp_get cp META_SECTION_REF ''params'') loads"

definition set_workspace_params :: "json \<Rightarrow> icp \<Rightarrow> icp result" where
  "set_workspace_params v cp = cp_set META_SECTION_REF ''params'' (dumps v) cp"

definition workspace_outputs :: "icp \<Rightarrow> json result" where
  "workspace_outputs cp = res_bind (cp_get cp META_SECTION_REF ''output'') loads"

definition set_workspace_outputs :: "json \<Rightarrow> icp \<Rightarrow> icp result" where
  "set_workspace_outputs v cp = cp_set META_SECTION_REF ''output'' (dumps v) cp"

text \<open>What a \<open>for\<close> loop over a decoded JSON value visits.\<close>

fun json_iter :: "json \<Rightarrow> json list result" where
  "json_iter (JList xs) = Inr xs"
| "json_iter (JObj kvs) = Inr (map (\<lambda>kv. JStr (fst kv)) kvs)"
| "json_iter (JStr s) = Inr (map (\<lambda>c. JStr [c]) s)"
| "json_iter _ = Inl TypeError"

fun key_of_json :: "json \<Rightarrow> meta_key result" where
  "key_of_json (JStr s) = build_from_string s True"
| "key_of_json _ = Inl TypeError"

definition workspace_pipeline :: "icp \<Rightarrow> meta_key list result" where
  "workspace_pipeline cp =
     res_bind (cp_get cp META_SECTION_REF ''pipeline'') (\<lambda>s.
     res_bind (loads s) (\<lambda>j. res_bind (json_iter j) (res_map key_of_json)))"

definition set_workspace_pipeline :: "meta_key list \<Rightarrow> icp \<Rightarrow> icp result" where
  "set_workspace_pipeline keys cp =
     cp_set META_SECTION_REF ''pipeline'' (dumps (JList (map (\<lambda>k. JStr (to_string True k)) keys))) cp"

definition workspace_solution :: "icp \<Rightarrow> meta_key result" where
  "workspace_solution cp =
     res_bind (cp_get cp META_SECTION_SOLUTION ''solution-key'') (\<lambda>s. build_from_string s False)"

definition set_workspace_solution :: "meta_key \<Rightarrow> icp \<Rightarrow> icp result" where
  "set_workspace_solution k cp = cp_set META_SECTION_SOLUTION ''solution-key'' (to_string False k) cp"

definition META_DATASET_ENUM :: "string list" where
  "META_DATASET_ENUM = [''train'', ''validation'', ''inference'']"

definition META_PATH_ENUM :: "string list" where
  "META_PATH_ENUM = [''base'', ''output'', ''temp'', ''venv'']"

definition get_dataset :: "icp \<Rightarrow> string \<Rightarrow> meta_key result" where
  "get_dataset cp which = res_bind (cp_get cp META_SECTION_DATASETS which) (\<lambda>s. build_from_string s False)"

definition set_dataset :: "string \<Rightarrow> meta_key \<Rightarrow> icp \<Rightarrow> icp result" where
  "set_dataset which k cp = cp_set META_SECTION_DATASETS which (to_string False k) cp"

text \<open>A bare \<open>except\<close> turns every failure into \<open>None\<close>.\<close>

definition except_none :: "'a result \<Rightarrow> 'a option" where
  "except_none r = (case r of Inl _ \<Rightarrow> None | Inr x \<Rightarrow> Some x)"

definition workspace_datasets :: "icp \<Rightarrow> (string, meta_key option) odict" where
  "workspace_datasets cp = map (\<lambda>w. (w, except_none (get_dataset cp w))) META_DATASET_ENUM"

definition set_workspace_datasets :: "(string, meta_key option) odict \<Rightarrow> icp \<Rightarrow> icp result" where
  "set_workspace_datasets ddict cp =
     res_fold (\<lambda>w cp. case od_get ddict w of Some (Some k) \<Rightarrow> set_dataset w k cp | _ \<Rightarrow> Inr cp)
       META_DATASET_ENUM cp"

definition get_path :: "icp \<Rightarrow> string \<Rightarrow> string result" where
  "get_path cp which = cp_get cp META_SECTION_PATHS which"

definition set_path :: "string \<Rightarrow> string \<Rightarrow> icp \<Rightarrow> icp" where
  "set_path which path cp = (case cp_set META_SECTION_PATHS which path cp of Inl _ \<Rightarrow> cp | Inr cp' \<Rightarrow> cp')"

definition workspace_paths :: "icp \<Rightarrow> (string, string option) odict" where
  "workspace_paths cp = map (\<lambda>w. (w, except_none (get_path cp w))) META_PATH_ENUM"

definition set_workspace_paths :: "(string, string option) odict \<Rightarrow> icp \<Rightarrow> icp result" where
  "set_workspace_paths pdict cp =
     res_fold (\<lambda>w cp. res_bind (od_item pdict w) (\<lambda>p.
        Inr (case p of None \<Rightarrow> cp | Some p \<Rightarrow> set_path w p cp))) META_PATH_ENUM cp"

definition workspace_type :: "icp \<Rightarrow> string result" where
  "workspace_type cp = cp_get cp META_SECTION_CONFIG ''workspace-type''"

definition set_workspace_type :: "string \<Rightarrow> icp \<Rightarrow> icp result" where
  "set_workspace_type v cp =
     (if v = ''production-pipeline'' \<or> v = ''retrospective-pipeline''
      then cp_set META_SECTION_CONFIG ''workspace-type'' v cp else Inl ValueError)"

definition is_retrospective :: "icp \<Rightarrow> bool result" where
  "is_retrospective cp = res_bind (workspace_type cp) (\<lambda>t. Inr (t = ''retrospective-pipeline''))"

definition is_production :: "icp \<Rightarrow> bool result" where
  "is_production cp = res_bind (workspace_type cp) (\<lambda>t. Inr (t = ''production-pipeline''))"

definition data_schema :: "icp \<Rightarrow> string result" where
  "data_schema cp =
     res_bind (workspace_pipeline cp) (\<lambda>ks. res_bind (py_index ks 0) (\<lambda>k. Inr (branch (component_version k))))"

definition physical_branch :: "icp \<Rightarrow> string result" where
  "physical_branch cp =
     res_bind (is_retrospective cp) (\<lambda>retro.
     if retro then
       res_bind (data_schema cp) (\<lambda>d. res_bind (short_branch_identifier cp) (\<lambda>b. Inr (d @ ''-'' @ b)))
     else res_bind (is_production cp) (\<lambda>prod.
       if prod then res_bind (data_schema cp) (\<lambda>d. Inr (d @ ''-'' @ ''production''))
       else Inl ValueError))"

definition workspace_str :: "icp \<Rightarrow> string result" where
  "workspace_str cp =
     res_bind (workspace_pipeline cp) (\<lambda>ks. Inr (concat (map (\<lambda>k. to_string True k @ '' -->'') ks)))"

section \<open>SolutionMeta\<close>

definition solution_init_sections :: "icp \<Rightarrow> icp result" where
  "solution_init_sections cp = res_fold add_section [META_SECTION_ID, META_SECTION_CONFIG] cp"

text \<open>\<open>str.splitlines()\<close>: a line ends at one of these characters, \<open>\r\n\<close> counting once.\<close>

definition line_break :: "char \<Rightarrow> bool" where
  "line_break c \<longleftrightarrow> (of_char c :: nat) \<in> {10, 11, 12, 13, 28, 29, 30, 133}"

fun splitlines_go :: "string \<Rightarrow> string \<Rightarrow> string list" where
  "splitlines_go acc [] = (if acc = [] then [] else [rev acc])"
| "splitlines_go acc (c # s) =
     (if line_break c then
        (case s of
           d # s' \<Rightarrow> if c = CHR 0x0D \<and> d = CHR 0x0A then rev acc # splitlines_go [] s'
                     else rev acc # splitlines_go [] s
         | [] \<Rightarrow> [rev acc])
      else splitlines_go (c # acc) s)"

definition splitlines :: "string \<Rightarrow> string list" where
  "splitlines s = splitlines_go [] s"

definition solution_preprocess :: "icp \<Rightarrow> meta_key list result" where
  "solution_preprocess cp =
     res_bind (cp_get cp META_SECTION_CONFIG ''preprocess-list'') (\<lambda>raw_text.
       res_map (\<lambda>y. build_from_string y False) (filter (\<lambda>y. y \<noteq> []) (map str_strip (splitlines raw_text))))"

definition set_solution_preprocess :: "meta_key list \<Rightarrow> icp \<Rightarrow> icp result" where
  "set_solution_preprocess ks cp =
     cp_set META_SECTION_CONFIG ''preprocess-list'' (str_join [CHR 0x0A] (map (to_string False) ks)) cp"

definition append_preprocess :: "meta_key \<Rightarrow> icp \<Rightarrow> icp result" where
  "append_preprocess k cp = res_bind (solution_preprocess cp) (\<lambda>ks. set_solution_preprocess (ks @ [k]) cp)"

definition remove_preprocess :: "meta_key \<Rightarrow> icp \<Rightarrow> icp result" where
  "remove_preprocess k cp =
     res_bind (solution_preprocess cp) (\<lambda>ks.
       if k \<in> set ks then set_solution_preprocess (remove1 k ks) cp else Inl ValueError)"

definition solution_model :: "icp \<Rightarrow> meta_key result" where
  "solution_model cp = res_bind (cp_get cp META_SECTION_CONFIG ''model'') (\<lambda>s. build_from_string s False)"

definition set_solution_model :: "meta_key \<Rightarrow> icp \<Rightarrow> icp result" where
  "set_solution_model k cp = cp_set META_SECTION_CONFIG ''model'' (to_string False k) cp"

section \<open>Laws\<close>

definition percent_free :: "string \<Rightarrow> bool" where
  "percent_free s \<longleftrightarrow> CHR ''%'' \<notin> set s"

lemma percent_free_append [simp]: "percent_free (s @ t) \<longleftrightarrow> percent_free s \<and> percent_free t"
  by (simp add: percent_free_def)

lemma percent_free_Cons [simp]: "percent_free (c # s) \<longleftrightarrow> c \<noteq> CHR ''%'' \<and> percent_free s"
  by (auto simp: percent_free_def)

lemma percent_free_Nil [simp]: "percent_free []"
  by (simp add: percent_free_def)

lemma percent_free_valid [intro]: "percent_free v \<Longrightarrow> valid_value v"
  by (simp add: percent_free_def valid_value_plain)

lemma percent_free_digits: "\<forall>c \<in> set s. is_digit c \<Longrightarrow> percent_free s"
  by (auto simp: percent_free_def is_digit_def)

lemma percent_free_int_str [simp]: "percent_free (int_str i)"
  using percent_free_digits [OF nat_str_digits] by (simp add: int_str_def)

lemma percent_free_version: "percent_free (version_str v) \<longleftrightarrow> percent_free (branch v)"
  by (simp add: version_str_def)

definition percent_free_key :: "meta_key \<Rightarrow> bool" where
  "percent_free_key k \<longleftrightarrow> percent_free (component_type k) \<and> percent_free (component_name k)
     \<and> percent_free (branch (component_version k))"

lemma percent_free_to_string: "percent_free_key k \<Longrightarrow> percent_free (to_string b k)"
  by (simp add: to_string_def percent_free_key_def percent_free_version)

lemma percent_escape: "CHR ''%'' \<in> set (escape_char c) \<longleftrightarrow> c = CHR ''%''"
proof -
  have hex: "hex_digit d \<noteq> CHR ''%''" if "d < 16" for d :: nat
  proof
    assume "hex_digit d = CHR ''%''"
    then have "(of_char (hex_digit d) :: nat) = 37" by simp
    with that show False by (auto simp: hex_digit_def split: if_splits)
  qed
  have "(of_char c :: nat) < 256" by (rule of_char_less_256)
  then have "hex_digit (of_char c div 16) \<noteq> CHR ''%''" and "hex_digit (of_char c mod 16) \<noteq> CHR ''%''"
    by (simp_all add: hex less_mult_imp_div_less)
  then show ?thesis by (auto simp: escape_char_def Let_def)
qed

lemma percent_free_json_string [simp]: "percent_free (json_string s) \<longleftrightarrow> percent_free s"
  by (auto simp: json_string_def percent_free_def percent_escape)

lemma percent_free_join: "percent_free sep \<Longrightarrow> \<forall>x \<in> set xs. percent_free x \<Longrightarrow> percent_free (str_join sep xs)"
  by (induction sep xs rule: str_join.induct) simp_all

lemma percent_free_dumps_list:
  "\<forall>s \<in> set ss. percent_free s \<Longrightarrow> percent_free (dumps (JList (map JStr ss)))"
  by (simp add: percent_free_join comp_def)

text \<open>A getter reads what the setter wrote; \<open>raw_value\<close> carries the other options along.\<close>

lemma res_map_JStr_keys:
  "\<forall>k \<in> set ks. wf_key k \<Longrightarrow> res_map key_of_json (map (\<lambda>k. JStr (to_string True k)) ks) = Inr ks"
  by (induction ks) (simp_all add: key_version_roundtrip)

lemma workspace_pipeline_raw:
  assumes "raw_value cp META_SECTION_REF ''pipeline'' = Some (dumps (JList (map (\<lambda>k. JStr (to_string True k)) ks)))"
    and "\<forall>k \<in> set ks. wf_key k \<and> percent_free_key k"
  shows "workspace_pipeline cp = Inr ks"
proof -
  let ?text = "dumps (JList (map (\<lambda>k. JStr (to_string True k)) ks))"
  have "percent_free (dumps (JList (map JStr (map (to_string True) ks))))"
    using assms(2) by (intro percent_free_dumps_list) (auto intro: percent_free_to_string)
  then have "percent_free ?text" by (simp add: comp_def)
  then have "cp_get cp META_SECTION_REF ''pipeline'' = Inr ?text"
    using assms(1) by (intro cp_get_raw) (simp_all add: percent_free_def del: dumps.simps)
  moreover have "loads ?text = Inr (JList (map (\<lambda>k. JStr (to_string True k)) ks))"
    by (intro loads_dumps) auto
  ultimately show ?thesis
    using assms(2) by (simp add: workspace_pipeline_def res_map_JStr_keys del: dumps.simps)
qed

text \<open>
  Storing a list of keys in a workspace and reading it back gives the same keys in
  the same order, when every key prints and parses back and none holds a percent sign (which the
  interpolation of the configuration format would reject or consume). The reference section
  is all that has to exist.
\<close>

theorem workspace_pipeline_roundtrip:
  assumes "has_section cp META_SECTION_REF" and "\<forall>k \<in> set ks. wf_key k \<and> percent_free_key k"
  shows "\<exists>cp'. set_workspace_pipeline ks cp = Inr cp' \<and> workspace_pipeline cp' = Inr ks"
proof -
  have "percent_free (dumps (JList (map JStr (map (to_string True) ks))))"
    using assms(2) by (intro percent_free_dumps_list) (auto intro: percent_free_to_string)
  then have "valid_value (dumps (JList (map (\<lambda>k. JStr (to_string True k)) ks)))"
    by (intro percent_free_valid) (simp add: comp_def)
  then obtain cp' where cp': "set_workspace_pipeline ks cp = Inr cp'"
    using cp_set_ok [OF assms(1)] by (auto simp: set_workspace_pipeline_def section_defs simp del: dumps.simps)
  then have "raw_value cp' META_SECTION_REF ''pipeline'' =
      Some (dumps (JList (map (\<lambda>k. JStr (to_string True k)) ks)))"
    by (subst raw_value_set [OF cp' [unfolded set_workspace_pipeline_def]])
      (simp_all add: section_defs del: dumps.simps)
  with cp' assms(2) workspace_pipeline_raw show ?thesis by blast
qed

lemma workspace_pipeline_roundtrip_witness:
  "\<exists>cp'. set_workspace_pipeline
       [mk_key ''dataset'' ''readmission'' (mk_version ''schema-1'' 0 0), mk_key ''library'' ''hmm'' (mk_version ''master'' 0 2)]
       \<lparr>cp_sections = [(''reference'', [])], cp_defaults = []\<rparr> = Inr cp'
    \<and> workspace_pipeline cp' =
       Inr [mk_key ''dataset'' ''readmission'' (mk_version ''schema-1'' 0 0), mk_key ''library'' ''hmm'' (mk_version ''master'' 0 2)]"
  by (rule workspace_pipeline_roundtrip)
    (simp_all add: has_section_def section_defs od_simps wf_key_def wf_version_def no_colon_def
      not_space_def is_space_def percent_free_key_def)

text \<open>The identifier options give the key back.\<close>

lemma meta_key_of_raw:
  assumes "raw_value cp META_SECTION_ID ''type'' = Some (component_type k)"
    and "raw_value cp META_SECTION_ID ''name'' = Some (component_name k)"
    and "raw_value cp META_SECTION_ID ''version'' = Some (version_str (component_version k))"
    and "wf_key k" and "percent_free_key k"
  shows "meta_key_of cp = Inr k"
proof -
  have "CHR ''%'' \<notin> set (component_type k)" "CHR ''%'' \<notin> set (component_name k)"
    "CHR ''%'' \<notin> set (version_str (component_version k))"
    using assms(5) percent_free_version [of "component_version k"]
    by (auto simp: percent_free_key_def percent_free_def)
  with assms(1-4) show ?thesis
    by (simp add: meta_key_of_def meta_meta_type_def meta_name_def meta_version_def cp_get_raw
        wf_key_def from_version_str_roundtrip mk_key_eta)
qed

text \<open>\<open>SolutionMeta.init_sections\<close> adds the section its own constructor has added already.\<close>

lemma solution_init_sections_fails:
  "meta_init cp = Inr cp' \<Longrightarrow> solution_init_sections cp' = Inl DuplicateSectionError"
  by (auto simp: meta_init_def solution_init_sections_def has_section_add section_defs add_section_def
      split: if_splits simp: has_section_def od_simps)

lemma workspace_init_sections_ok:
  "meta_init cp_empty = Inr \<lparr>cp_sections = [(META_SECTION_ID, [])], cp_defaults = []\<rparr>"
  "workspace_init_sections \<lparr>cp_sections = [(META_SECTION_ID, [])], cp_defaults = []\<rparr> =
     Inr \<lparr>cp_sections = [(META_SECTION_ID, []), (META_SECTION_DATASETS, []), (META_SECTION_SOLUTION, []),
       (META_SECTION_PATHS, []), (META_SECTION_CONFIG, []), (META_SECTION_REF, [])], cp_defaults = []\<rparr>"
  by code_simp+

end
