(* ===== verification/ExecComponent.thy ===== *)
theory ExecComponent
  imports Manifest Package MetaConfig
begin

text \<open>
  \<^verbatim>\<open>pysrc/daemon/worker.py\<close>: the worker runs a component. The process state is its working
  directory, module search path, environment variables and loaded modules. What lies outside
  the repository is a parameter, in the record \<open>py_world\<close>: the directories and files that exist
  (parsed, where a library parses them) and what the user's \<^verbatim>\<open>start(inputfolder, outputfolder)\<close>
  does to the process.
\<close>

section \<open>Paths\<close>

text \<open>\<open>os.path.normpath\<close> and \<open>os.path.abspath\<close> on POSIX.\<close>

definition norm_components :: "bool \<Rightarrow> string list \<Rightarrow> string list" where
  "norm_components absolute comps =
     rev (fold (\<lambda>comp new_comps.
       if comp = [] \<or> comp = ''.'' then new_comps
       else if comp \<noteq> ''..'' \<or> (\<not> absolute \<and> new_comps = []) \<or> (new_comps \<noteq> [] \<and> hd new_comps = ''..'')
       then comp # new_comps
       else if new_comps \<noteq> [] then tl new_comps else new_comps) comps [])"

definition normpath :: "string \<Rightarrow> string" where
  "normpath path =
     (if path = [] then ''.''
      else let slashes = (if starts_with ''//'' path \<and> \<not> starts_with ''///'' path then ''//''
                          else if starts_with ''/'' path then ''/'' else []);
               joined = slashes @ str_join ''/'' (norm_components (slashes \<noteq> []) (str_split ''/'' path))
           in if joined = [] then ''.'' else joined)"

definition abspath :: "string \<Rightarrow> string \<Rightarrow> string" where
  "abspath cwd path = normpath (if starts_with ''/'' path then path else path_join cwd path)"

section \<open>The process and its world\<close>

record process =
  pr_cwd :: string
  pr_sys_path :: "string list"
  pr_environ :: "(string, string) odict"
  pr_modules :: "string list"

record py_world =
  is_dir :: "string \<Rightarrow> bool"
  read_config :: "string \<Rightarrow> icp option"
  read_yaml :: "string \<Rightarrow> json result"
  temp_dir :: string
  user_start :: "string \<Rightarrow> string \<Rightarrow> string \<Rightarrow> process \<Rightarrow> process result"
  working_set :: "string list"
  egg_info :: "string \<Rightarrow> string option"
  read_text :: "string \<Rightarrow> string option"

definition process_packages :: "py_world \<Rightarrow> process \<Rightarrow> (string, string) odict result" where
  "process_packages W p = get_active_packages (working_set W) (egg_info W) (read_text W) (pr_modules p)"

section \<open>execute_component\<close>

text \<open>The loop over the arguments: \<open>rest\<close> is \<open>cmds[i + 1:]\<close>.\<close>

fun parse_folders :: "string list \<Rightarrow> string \<Rightarrow> string \<Rightarrow> (string \<times> string) result" where
  "parse_folders [] inputfolder outputfolder = Inr (inputfolder, outputfolder)"
| "parse_folders (c # rest) inputfolder outputfolder =
     res_bind (if c = ''--input'' then py_index rest 0 else Inr inputfolder) (\<lambda>i.
     res_bind (if c = ''--output'' then py_index rest 0 else Inr outputfolder) (\<lambda>out.
       parse_folders rest i out))"

definition execute_component ::
    "py_world \<Rightarrow> string \<Rightarrow> string \<Rightarrow> string list \<Rightarrow> process \<Rightarrow> (string \<times> process) result" where
  "execute_component W component_id working_directory cmds p =
     (if \<not> is_dir W (abspath (pr_cwd p) working_directory) then Inl FileNotFoundError
      else
        let p1 = p\<lparr>pr_cwd := abspath (pr_cwd p) working_directory,
                   pr_sys_path := pr_sys_path p @ [working_directory],
                   pr_environ := od_set ''PYTHONUNBUFFERED'' ''1'' (pr_environ p)\<rparr>;
            args = tl cmds
        in res_bind (parse_folders args [] []) (\<lambda>(inputfolder, outputfolder).
           res_bind (py_index args 0) (\<lambda>script.
           let script_path = abspath (pr_cwd p1) (path_join working_directory script)
           in res_bind (user_start W script_path inputfolder outputfolder p1) (\<lambda>p2.
              Inr (component_id, p2)))))"

lemma py_index_0_Cons [simp]: "py_index (x # xs) 0 = Inr x"
  by (simp add: py_index_def)

lemma py_index_0_Nil [simp]: "py_index [] 0 = Inl IndexError"
  by (simp add: py_index_def)

text \<open>A flag as the last argument has no value.\<close>

lemma parse_folders_missing_value:
  "c = ''--input'' \<or> c = ''--output'' \<Longrightarrow> parse_folders [c] i out = Inl IndexError"
  by auto

lemma parse_folders_commands:
  assumes "script \<noteq> ''--input''" and "script \<noteq> ''--output''" and "i \<noteq> ''--input''"
    and "out \<noteq> ''--input''" and "out \<noteq> ''--output''"
  shows "parse_folders [script, ''--input'', i, ''--output'', out] [] [] = Inr (i, out)"
  using assms by simp

lemma execute_component_id:
  "execute_component W cid wd cmds p = Inr (r, p') \<Longrightarrow> r = cid"
  by (auto simp: execute_component_def res_bind_eq_Inr Let_def split: if_splits)

end
