(* ===== verification/Message.thy ===== *)
theory Message
  imports PyString "HOL-Library.Word"
begin

text \<open>
  \<^verbatim>\<open>pysrc/daemon/message.py\<close>: the messages between coordinator and workers, as bytes. A frame
  is the length of the body in four bytes, big end first, then the body. The lemmas give the
  header law for every frame, the round trip where the separators do not occur in the fields,
  and what is lost where they do.
\<close>

record message =
  msg_sender_id :: string
  msg_cmd :: string
  msg_args :: "string list"

definition mk_message :: "string \<Rightarrow> string \<Rightarrow> string list \<Rightarrow> message" where
  "mk_message s c as = \<lparr>msg_sender_id = s, msg_cmd = c, msg_args = as\<rparr>"

definition CRLF :: string where "CRLF = [CHR 0x0D, CHR 0x0A]"

definition message_body :: "message \<Rightarrow> string" where
  "message_body m = msg_sender_id m @ CRLF @ msg_cmd m @ CRLF @ str_join ''%'' (msg_args m)"

text \<open>\<open>n.to_bytes(4, "big")\<close> and \<open>map(ord, body)\<close>.\<close>

definition to_bytes_4 :: "nat \<Rightarrow> 8 word list result" where
  "to_bytes_4 n =
     (if n < 2 ^ 32
      then Inr [word_of_nat (n div 2 ^ 24), word_of_nat (n div 2 ^ 16), word_of_nat (n div 2 ^ 8), word_of_nat n]
      else Inl OverflowError)"

definition ord_byte :: "char \<Rightarrow> 8 word" where
  "ord_byte c = word_of_nat (of_char c)"

definition message_dump :: "message \<Rightarrow> 8 word list result" where
  "message_dump m =
     (let body = message_body m
      in res_bind (to_bytes_4 (length body)) (\<lambda>header. Inr (header @ map ord_byte body)))"

definition message_load :: "string \<Rightarrow> message result" where
  "message_load msg_str =
     (let tokens = str_split CRLF msg_str in
      if 2 < length tokens
      then Inr (mk_message (tokens ! 0) (tokens ! 1) (str_split ''%'' (tokens ! 2)))
      else Inl IndexError)"

section \<open>The frame\<close>

definition byte_char :: "8 word \<Rightarrow> char" where
  "byte_char b = char_of (unat b)"

definition big_endian :: "8 word list \<Rightarrow> nat" where
  "big_endian bs = foldl (\<lambda>a b. 256 * a + unat b) 0 bs"

lemma byte_char_ord [simp]: "byte_char (ord_byte c) = c"
proof -
  have "(of_char c :: nat) < 256"
    using of_char_mod_256 [of c, where ?'a = nat] by (metis mod_less_divisor zero_less_numeral)
  then have "unat (ord_byte c) = of_char c"
    by (simp add: ord_byte_def unat_of_nat)
  then show ?thesis by (simp add: byte_char_def)
qed

lemma to_bytes_4_length: "to_bytes_4 n = Inr bs \<Longrightarrow> length bs = 4"
  by (auto simp: to_bytes_4_def split: if_splits)

lemma big_endian_to_bytes_4:
  assumes "to_bytes_4 n = Inr bs"
  shows "big_endian bs = n"
proof -
  from assms have n: "n < 2 ^ 32"
    and bs: "bs = [word_of_nat (n div 2 ^ 24), word_of_nat (n div 2 ^ 16), word_of_nat (n div 2 ^ 8), word_of_nat n]"
    by (auto simp: to_bytes_4_def split: if_splits)
  have u: "unat (word_of_nat k :: 8 word) = k mod 256" for k
    by (simp add: unat_of_nat)
  have "256 * (n div 2 ^ 24) + n div 2 ^ 16 mod 256 = n div 2 ^ 16"
    using div_mult_mod_eq [of "n div 2 ^ 16" 256] by (simp add: div_mult2_eq [symmetric] mult.commute)
  moreover have "256 * (n div 2 ^ 16) + n div 2 ^ 8 mod 256 = n div 2 ^ 8"
    using div_mult_mod_eq [of "n div 2 ^ 8" 256] by (simp add: div_mult2_eq [symmetric] mult.commute)
  moreover have "256 * (n div 2 ^ 8) + n mod 256 = n"
    using div_mult_mod_eq [of n 256] by (simp add: mult.commute)
  moreover have "n div 2 ^ 24 mod 256 = n div 2 ^ 24" using n by simp
  ultimately show ?thesis by (simp add: big_endian_def bs u)
qed

text \<open>The body's fields come apart again when no separator occurs inside them.\<close>

definition clean_message :: "message \<Rightarrow> bool" where
  "clean_message m \<longleftrightarrow> CHR 0x0D \<notin> set (msg_sender_id m) \<and> CHR 0x0D \<notin> set (msg_cmd m)
     \<and> msg_args m \<noteq> [] \<and> (\<forall>a \<in> set (msg_args m). CHR 0x0D \<notin> set a \<and> CHR ''%'' \<notin> set a)"

lemma set_str_join_subset: "set (str_join sep xs) \<subseteq> set sep \<union> (\<Union>x \<in> set xs. set x)"
  by (induction sep xs rule: str_join.induct) auto

lemma split_body:
  assumes "CHR 0x0D \<notin> set (msg_sender_id m)" and "CHR 0x0D \<notin> set (msg_cmd m)"
    and "\<forall>a \<in> set (msg_args m). CHR 0x0D \<notin> set a"
  shows "str_split CRLF (message_body m) = [msg_sender_id m, msg_cmd m, str_join ''%'' (msg_args m)]"
proof -
  have "CHR 0x0D \<notin> set (str_join ''%'' (msg_args m))"
    using set_str_join_subset [of "''%''" "msg_args m"] assms(3) by auto
  with assms(1,2) show ?thesis
    unfolding message_body_def by (simp add: CRLF_def str_simps del: append_Cons append_Nil)
qed

lemma message_load_body: "clean_message m \<Longrightarrow> message_load (message_body m) = Inr m"
  by (simp add: message_load_def clean_message_def split_body split_join mk_message_def)



text \<open>
  What the format cannot carry: a message without arguments comes back with one empty argument,
  and a percent sign in an argument splits it in two.
\<close>

lemma message_no_args:
  "CHR 0x0D \<notin> set s \<Longrightarrow> CHR 0x0D \<notin> set c \<Longrightarrow>
     message_load (message_body (mk_message s c [])) = Inr (mk_message s c [[]])"
  using split_body [of "mk_message s c []"]
  by (simp add: message_load_def mk_message_def str_simps)

lemma message_percent:
  assumes "CHR 0x0D \<notin> set s" and "CHR 0x0D \<notin> set c" and "CHR 0x0D \<notin> set a" and "CHR 0x0D \<notin> set b"
    and "CHR ''%'' \<notin> set a" and "CHR ''%'' \<notin> set b"
  shows "message_load (message_body (mk_message s c [a @ ''%'' @ b])) = Inr (mk_message s c [a, b])"
  using split_body [of "mk_message s c [a @ ''%'' @ b]"] split_join [of "''%''" "[a, b]"] assms
  by (simp add: message_load_def mk_message_def)

end
