(* ===== verification/WorkerConn.thy ===== *)
theory WorkerConn
  imports Manifest Message
begin

text \<open>
  \<^verbatim>\<open>pysrc/workerconn.py\<close>: the coordinator's record of a worker and what it does with the
  worker's messages. A version object that the code creates gets the next free address: \<open>a\<close> for
  the manifest's own version, \<open>Suc a\<close> for the copy of the previous one.
\<close>

section \<open>Manifest(json.loads(text))\<close>

definition py_contains :: "string \<Rightarrow> string \<Rightarrow> bool" where
  "py_contains sub s = list_ex (\<lambda>i. starts_with sub (drop i s)) [0..<Suc (length s)]"

definition manifest_fields :: "string list" where
  "manifest_fields = [''name'', ''type'', ''version'', ''packages_semver'', ''packages'']"

text \<open>
  \<open>Manifest.__init__\<close> on any JSON value: \<open>null\<close> is \<open>None\<close>; on a list or a string
  \<open>"name" in obj\<close> is membership or containment, and the look-up that follows raises.
\<close>

fun manifest_of_json :: "nat \<Rightarrow> json \<Rightarrow> manifest result" where
  "manifest_of_json a JNull = manifest_init a None"
| "manifest_of_json a (JObj d) = manifest_init a (Some d)"
| "manifest_of_json a (JList xs) =
     (if list_ex (\<lambda>k. list_ex (\<lambda>x. case x of JStr s \<Rightarrow> s = k | _ \<Rightarrow> False) xs) manifest_fields
      then Inl TypeError else Inr DEFAULT_VALUES)"
| "manifest_of_json a (JStr s) =
     (if list_ex (\<lambda>k. py_contains k s) manifest_fields then Inl TypeError else Inr DEFAULT_VALUES)"
| "manifest_of_json a _ = Inl TypeError"

section \<open>BaseWorkerConnection\<close>

record worker =
  w_id :: string
  w_manifest :: "manifest option"

definition mk_worker :: "string \<Rightarrow> worker" where
  "mk_worker wid = \<lparr>w_id = wid, w_manifest = None\<rparr>"

definition worker_repr :: "worker \<Rightarrow> string" where
  "worker_repr w = ''<Worker '' @ w_id w @ ''>''"

text \<open>
  \<open>on_msg\<close>: the updated worker and the returned value, \<open>Some new_worker\<close> for a manifest and
  \<open>None\<close> for the other commands.
\<close>

definition worker_on_msg :: "nat \<Rightarrow> worker \<Rightarrow> message \<Rightarrow> (worker \<times> bool option) result" where
  "worker_on_msg a w msg =
     (if msg_cmd msg = ''response_manifest'' then
        res_bind (py_index (msg_args msg) 0) (\<lambda>manifest_json.
        let new_worker = (w_manifest w = None);
            last = (case w_manifest w of None \<Rightarrow> None
                    | Some m \<Rightarrow> Some (m_name m, version_str (v_val (m_version m))))
        in res_bind (loads manifest_json) (\<lambda>json_content.
           res_bind (manifest_of_json a json_content) (\<lambda>m.
           case last of
             None \<Rightarrow> Inr (w\<lparr>w_manifest := Some m\<rparr>, Some new_worker)
           | Some (last_name, last_version) \<Rightarrow>
               if last_name \<noteq> [] \<and> last_version \<noteq> [] then
                 res_bind (from_version_str last_version) (\<lambda>v.
                 Inr (w\<lparr>w_manifest := Some (m\<lparr>m_name := last_name,
                        m_version := \<lparr>v_addr = Suc a, v_val = v\<rparr>\<rparr>)\<rparr>, Some new_worker))
               else Inr (w\<lparr>w_manifest := Some m\<rparr>, Some new_worker))))
      else if msg_cmd msg = ''done'' then
        res_bind (py_index (msg_args msg) 0) (\<lambda>component_id. Inr (w, None))
      else Inr (w, None))"

definition manifest_info :: "(string \<Rightarrow> string) \<Rightarrow> worker \<Rightarrow> json result" where
  "manifest_info sha256 w =
     (case w_manifest w of
        None \<Rightarrow> Inr JNull
      | Some m \<Rightarrow> loads (manifest_json sha256 [] False m))"

definition worker_items :: "(string \<Rightarrow> string) \<Rightarrow> worker \<Rightarrow> (string \<times> json) list result" where
  "worker_items sha256 w =
     res_bind (manifest_info sha256 w) (\<lambda>j.
       Inr [(''name'', JStr (worker_repr w)), (''id'', JStr (w_id w)), (''manifest'', j)])"

definition info_dict :: "(string \<Rightarrow> string) \<Rightarrow> worker \<Rightarrow> (string, json) odict result" where
  "info_dict sha256 w =
     res_bind (manifest_info sha256 w) (\<lambda>j.
       Inr [(''name'', JStr (worker_repr w)), (''worker_id'', JStr (w_id w)), (''manifest'', j)])"

text \<open>\<open>WorkerConnectionInfo\<close>: its \<open>exit\<close>, \<open>execute\<close>, \<open>request_manifest\<close> and \<open>send\<close>.\<close>

definition connection_info_call :: "worker \<Rightarrow> unit result" where
  "connection_info_call w = Inl NotImplementedError"

section \<open>The manifest a worker ends up with\<close>

lemma worker_on_msg_id: "worker_on_msg a w msg = Inr (w', r) \<Longrightarrow> w_id w' = w_id w"
  by (auto simp: worker_on_msg_def res_bind_eq_Inr Let_def split: if_splits option.splits)

lemma worker_on_msg_other:
  "msg_cmd msg \<noteq> ''response_manifest'' \<Longrightarrow> worker_on_msg a w msg = Inr (w', r) \<Longrightarrow> w' = w \<and> r = None"
  by (auto simp: worker_on_msg_def res_bind_eq_Inr split: if_splits)

lemma manifest_of_json_version:
  "manifest_of_json a j = Inr m \<Longrightarrow>
     m_version m = m_version DEFAULT_VALUES \<or> v_addr (m_version m) = a \<and> wf_version (v_val (m_version m))"
  by (cases "(a, j)" rule: manifest_of_json.cases)
    (auto simp: manifest_init_def obj_field_def res_bind_eq_Inr from_version_str_wf
      split: option.splits if_splits)

lemma manifest_of_json_wf_version: "manifest_of_json a j = Inr m \<Longrightarrow> wf_version (v_val (m_version m))"
  using manifest_of_json_version [of a j m] by (auto simp: DEFAULT_VALUES_def)

text \<open>The message a worker answers with.\<close>

definition response_manifest :: "(string \<Rightarrow> string) \<Rightarrow> string \<Rightarrow> manifest \<Rightarrow> message" where
  "response_manifest sha256 wid m =
     mk_message wid ''response_manifest'' [manifest_json sha256 (m_packages m) True m]"

lemma worker_on_response:
  assumes "wf_manifest m"
  shows "worker_on_msg a w (response_manifest sha256 wid m) =
    (let m' = m\<lparr>m_version := \<lparr>v_addr = a, v_val = v_val (m_version m)\<rparr>,
                m_packages := sort_items (m_packages m), m_appendix := None\<rparr>
     in case w_manifest w of
          None \<Rightarrow> Inr (w\<lparr>w_manifest := Some m'\<rparr>, Some True)
        | Some old \<Rightarrow>
            if m_name old = [] then Inr (w\<lparr>w_manifest := Some m'\<rparr>, Some False)
            else res_bind (from_version_str (version_str (v_val (m_version old)))) (\<lambda>v.
              Inr (w\<lparr>w_manifest := Some (m'\<lparr>m_name := m_name old,
                  m_version := \<lparr>v_addr = Suc a, v_val = v\<rparr>\<rparr>)\<rparr>, Some False)))"
proof -
  let ?text = "manifest_json sha256 (m_packages m) True m"
  let ?m' = "m\<lparr>m_version := \<lparr>v_addr = a, v_val = v_val (m_version m)\<rparr>,
                m_packages := sort_items (m_packages m), m_appendix := None\<rparr>"
  obtain d where d: "loads ?text = Inr (JObj d)" using manifest_json_loads [OF assms] by blast
  moreover have "manifest_init a (Some d) = Inr ?m'"
    using manifest_json_roundtrip [OF assms, of sha256 "m_packages m" True a] d by simp
  moreover have "version_str v \<noteq> []" for v by (simp add: version_str_def)
  moreover have "py_index [?text] 0 = Inr ?text" by (simp add: py_index_def)
  ultimately show ?thesis
    by (simp add: worker_on_msg_def response_manifest_def mk_message_def Let_def split: option.splits)
qed

text \<open>
  A worker that already has a well-formed manifest with a name keeps the name and
  the version number the scheduler recorded for it, whatever it reports itself; the package list,
  the type and the semver flag become the reported ones, and it does not count as new. So a
  worker's packages grow with what it has run while its identity stays that of its last component.
\<close>

theorem response_keeps_identity:
  assumes "wf_manifest m" and "w_manifest w = Some old"
    and "m_name old \<noteq> []" and "wf_version (v_val (m_version old))"
  shows "\<exists>new. worker_on_msg a w (response_manifest sha256 wid m) = Inr (w\<lparr>w_manifest := Some new\<rparr>, Some False)
     \<and> m_name new = m_name old \<and> v_val (m_version new) = v_val (m_version old)
     \<and> m_type new = m_type m \<and> m_packages_semver new = m_packages_semver m
     \<and> od_get (m_packages new) = od_get (m_packages m)"
proof -
  have "od_get (sort_items (m_packages m)) = od_get (m_packages m)"
    using assms(1) by (intro ext od_get_sort_items) (simp add: wf_manifest_def od_keys_def)
  then show ?thesis
    using assms(2-4)
    by (intro exI [of _ "m\<lparr>m_version := \<lparr>v_addr = Suc a, v_val = v_val (m_version old)\<rparr>,
          m_packages := sort_items (m_packages m), m_appendix := None, m_name := m_name old\<rparr>"])
      (simp add: worker_on_response [OF assms(1)] Let_def from_version_str_roundtrip)
qed

lemma response_keeps_identity_witness:
  "\<exists>new. worker_on_msg 7 \<lparr>w_id = ''w1'', w_manifest = Some (example_library ''hmm'' [])\<rparr>
        (response_manifest id ''w1'' (example_library ''DUMMY'' [(''torch'', ''1.10'')]))
      = Inr (\<lparr>w_id = ''w1'', w_manifest = Some new\<rparr>, Some False)
    \<and> m_name new = ''hmm'' \<and> od_get (m_packages new) ''torch'' = Some ''1.10''"
proof -
  let ?w = "\<lparr>w_id = ''w1'', w_manifest = Some (example_library ''hmm'' [])\<rparr>"
  have 1: "wf_manifest (example_library ''DUMMY'' [(''torch'', ''1.10'')])"
    by (simp add: wf_manifest_def example_library_def DEFAULT_VALUES_def od_keys_def)
  have 2: "w_manifest ?w = Some (example_library ''hmm'' [])" by simp
  have 3: "m_name (example_library ''hmm'' []) \<noteq> []" by (simp add: example_library_def)
  have 4: "wf_version (v_val (m_version (example_library ''hmm'' [])))"
    by (simp add: example_library_def DEFAULT_VALUES_def)
  from response_keeps_identity [OF 1 2 3 4, of 7 id "''w1''"] show ?thesis
    by (auto simp: example_library_def od_simps)
qed

end
