(* ===== verification/Utils.thy ===== *)
theory Utils
  imports Json
begin

text \<open>
  \<^verbatim>\<open>pysrc/pipeman/utils.py\<close>: \<open>first\<close>, the one-slot notification queue, the bounded log store
  with its colour stripping, and the table of named loggers.
\<close>

section \<open>first\<close>

definition first_item :: "'a list \<Rightarrow> ('a \<Rightarrow> bool) \<Rightarrow> 'a option \<Rightarrow> 'a result" where
  "first_item iterable condition dflt =
     (case find condition iterable of
        Some x \<Rightarrow> Inr x
      | None \<Rightarrow> (case dflt of
                   Some d \<Rightarrow> if condition d then Inr d else Inl StopIteration
                 | None \<Rightarrow> Inl StopIteration))"

lemma first_item_Inr:
  "first_item xs P d = Inr x \<Longrightarrow> P x \<and> (x \<in> set xs \<or> d = Some x \<and> (\<forall>y \<in> set xs. \<not> P y))"
  by (auto simp: first_item_def find_Some_iff find_None_iff split: option.splits if_splits)

lemma first_item_Inl:
  "first_item xs P d = Inl e \<Longrightarrow> e = StopIteration \<and> (\<forall>y \<in> set xs. \<not> P y)"
  by (auto simp: first_item_def find_None_iff split: option.splits if_splits)

lemma first_item_earliest:
  "first_item (xs @ y # ys) P d = Inr y" if "\<forall>x \<in> set xs. \<not> P x" "P y"
proof -
  have "find P (xs @ y # ys) = Some y" using that by (induction xs) auto
  then show ?thesis by (simp add: first_item_def)
qed

section \<open>Notification queues and the log store\<close>

text \<open>\<open>notify\<close> on an \<open>asyncio.Queue\<close> of a given size: a full queue swallows the notification.\<close>

definition notify :: "nat \<Rightarrow> bool list \<Rightarrow> bool list" where
  "notify maxsize queue = (if maxsize = 0 \<or> length queue < maxsize then queue @ [True] else queue)"

lemma notify_length: "0 < n \<Longrightarrow> length q \<le> n \<Longrightarrow> length (notify n q) \<le> n"
  by (simp add: notify_def)

text \<open>\<open>collections.deque(maxlen=n).append(x)\<close>.\<close>

definition deque_append :: "nat \<Rightarrow> 'a \<Rightarrow> 'a list \<Rightarrow> 'a list" where
  "deque_append n x xs = drop (Suc (length xs) - n) (xs @ [x])"

lemma deque_append_last: "0 < n \<Longrightarrow> deque_append n x xs \<noteq> [] \<and> last (deque_append n x xs) = x"
  by (auto simp: deque_append_def)

lemma deque_append_length: "length (deque_append n x xs) = min n (Suc (length xs))"
  by (simp add: deque_append_def)

text \<open>The colour escapes \<open>(\x9B|\x1B\[)[0-?]*[ -\/]*[@-~]\<close>.\<close>

definition in_range :: "nat \<Rightarrow> nat \<Rightarrow> char \<Rightarrow> bool" where
  "in_range lo hi c \<longleftrightarrow> lo \<le> (of_char c :: nat) \<and> (of_char c :: nat) \<le> hi"

definition ansi_tail :: "string \<Rightarrow> string option" where
  "ansi_tail s =
     (case dropWhile (in_range 0x20 0x2F) (dropWhile (in_range 0x30 0x3F) s) of
        c # r \<Rightarrow> if in_range 0x40 0x7E c then Some r else None
      | [] \<Rightarrow> None)"

definition ansi_escape :: "string \<Rightarrow> string option" where
  "ansi_escape s =
     (if starts_with [CHR 0x9B] s then ansi_tail (tl s)
      else if starts_with [CHR 0x1B, CHR ''[''] s then ansi_tail (drop 2 s)
      else None)"

lemma ansi_tail_shorter: "ansi_tail s = Some r \<Longrightarrow> length r \<le> length s"
proof -
  assume "ansi_tail s = Some r"
  then obtain c where "dropWhile (in_range 0x20 0x2F) (dropWhile (in_range 0x30 0x3F) s) = c # r"
    by (auto simp: ansi_tail_def split: list.splits if_splits)
  then have "length (c # r) \<le> length s"
    by (metis length_dropWhile_le order_trans)
  then show ?thesis by simp
qed

lemma ansi_escape_shorter: "ansi_escape s = Some r \<Longrightarrow> length r < length s"
  using ansi_tail_shorter [of "tl s" r] ansi_tail_shorter [of "drop 2 s" r]
  by (cases s) (auto simp: ansi_escape_def starts_with_def split: if_splits)

function remove_ansi_color_escape :: "string \<Rightarrow> string" where
  "remove_ansi_color_escape s =
     (case ansi_escape s of
        Some r \<Rightarrow> remove_ansi_color_escape r
      | None \<Rightarrow> (case s of [] \<Rightarrow> [] | c # t \<Rightarrow> c # remove_ansi_color_escape t))"
  by pat_completeness auto
termination
  by (relation "measure length") (auto simp: ansi_escape_shorter)

declare remove_ansi_color_escape.simps [simp del]

lemma remove_ansi_plain:
  "CHR 0x9B \<notin> set s \<Longrightarrow> CHR 0x1B \<notin> set s \<Longrightarrow> remove_ansi_color_escape s = s"
proof (induction s)
  case Nil
  show ?case by (subst remove_ansi_color_escape.simps) (simp add: ansi_escape_def starts_with_def)
next
  case (Cons c s)
  then have "ansi_escape (c # s) = None" by (auto simp: ansi_escape_def starts_with_def)
  with Cons show ?case by (subst remove_ansi_color_escape.simps) simp
qed

lemma remove_ansi_length: "length (remove_ansi_color_escape s) \<le> length s"
proof (induction s rule: remove_ansi_color_escape.induct)
  case (1 s)
  show ?case
  proof (cases "ansi_escape s")
    case None
    show ?thesis
    proof (cases s)
      case Nil
      with None show ?thesis by (subst remove_ansi_color_escape.simps) simp
    next
      case (Cons c t)
      with None have "length (remove_ansi_color_escape t) \<le> length t" by (intro 1(1))
      with None Cons show ?thesis by (subst remove_ansi_color_escape.simps) simp
    qed
  next
    case (Some r)
    with 1(2) ansi_escape_shorter [OF Some] show ?thesis
      by (subst remove_ansi_color_escape.simps) simp
  qed
qed

record log_entry =
  le_time :: int
  le_level :: string
  le_module :: string
  le_msg :: string

text \<open>\<open>LogStoreHandler.emit\<close> on the pair of the bounded store and the unbounded queue.\<close>

definition log_emit :: "int \<Rightarrow> string \<Rightarrow> string \<Rightarrow> string \<Rightarrow> log_entry list \<times> log_entry list \<Rightarrow> log_entry list \<times> log_entry list" where
  "log_emit now level name message st =
     (let e = \<lparr>le_time = now, le_level = level, le_module = name, le_msg = remove_ansi_color_escape message\<rparr>
      in (deque_append 100 e (fst st), snd st @ [e]))"

lemma log_store_bounded: "length (fst st) \<le> 100 \<Longrightarrow> length (fst (log_emit t l n m st)) \<le> 100"
  by (simp add: log_emit_def Let_def deque_append_length)

text \<open>The store is always the last hundred entries of the queue.\<close>

lemma log_store_recent:
  assumes "fst st = drop (length (snd st) - 100) (snd st)"
  shows "fst (log_emit t l n m st) =
     drop (length (snd (log_emit t l n m st)) - 100) (snd (log_emit t l n m st))"
proof -
  have "drop (length (snd st) - 100) (tl (snd st)) = drop (length (snd st) - 99) (snd st)"
    if "100 < length (snd st)"
  proof -
    have "length (snd st) - 99 = Suc (length (snd st) - 100)" using that by simp
    then show ?thesis by (simp add: drop_Suc)
  qed
  with assms show ?thesis by (cases "length (snd st) \<le> 100")
    (auto simp: log_emit_def Let_def deque_append_def Suc_diff_le drop_Suc tl_append tl_drop
      split: list.splits)
qed

section \<open>Named loggers\<close>

text \<open>
  The table \<open>loggers_lut\<close> and, for every name, the handlers that were added to the logger of
  that name in the \<open>logging\<close> module.
\<close>

datatype log_handler = StdoutHandler | StoreHandler

type_synonym loggers = "(string, log_handler list) odict"

definition get_default_named_logger :: "string \<Rightarrow> loggers \<times> loggers \<Rightarrow> loggers \<times> loggers" where
  "get_default_named_logger name st =
     (case od_get (fst st) name of
        Some _ \<Rightarrow> st
      | None \<Rightarrow>
          let handlers = (case od_get (snd st) name of None \<Rightarrow> [] | Some hs \<Rightarrow> hs) @ [StdoutHandler, StoreHandler]
          in (od_set name handlers (fst st), od_set name handlers (snd st)))"

lemma logger_handlers_once:
  assumes "\<forall>n. od_get (fst st) n = od_get (snd st) n"
  shows "\<forall>n. od_get (fst (get_default_named_logger name st)) n = od_get (snd (get_default_named_logger name st)) n"
    and "od_get (fst st) name = None \<Longrightarrow>
      od_get (snd (get_default_named_logger name st)) name = Some [StdoutHandler, StoreHandler]"
    and "get_default_named_logger name (get_default_named_logger name st) = get_default_named_logger name st"
  using assms by (auto simp: get_default_named_logger_def Let_def od_simps split: option.splits)

end
