(* ===== verification/Pipeline.thy ===== *)
theory Pipeline
  imports ExecComponent WorkerConn Utils
begin

text \<open>
  \<^verbatim>\<open>pysrc/pipeline.py\<close> (components and pipelines) and the task monitor of
  \<^verbatim>\<open>pysrc/daemon/coordinator.py\<close>. Component objects are shared between the monitor, the pipelines and the
  scheduler, so they live in a heap \<open>nat \<Rightarrow> component\<close> and are passed by address.
\<close>

section \<open>DAGNode and Component\<close>

record dag_node =
  n_parents :: "nat list"
  n_children :: "nat list"

text \<open>The property \<open>parents\<close> returns itself: it never produces a value.\<close>

definition dag_parents :: "'a dag_node_scheme \<Rightarrow> nat list result" where
  "dag_parents n = Inl RecursionError"

definition is_end_of_sequence :: "'a dag_node_scheme \<Rightarrow> bool" where
  "is_end_of_sequence n \<longleftrightarrow> length (n_children n) = 0"

record component = dag_node +
  c_name :: string
  c_id :: string
  c_done :: bool
  c_path :: "string option"
  c_inputfolder :: string
  c_start_time :: int
  c_end_time :: int
  c_worker :: "worker option"
  c_lock :: "nat option"
  c_manifest :: "manifest option"
  c_command :: "string list option"
  c_meta :: "icp option"
  c_temp_output_folder :: "string option"

definition manifest_path :: "component \<Rightarrow> string result" where
  "manifest_path c =
     (case c_path c of
        None \<Rightarrow> Inl AssertionError
      | Some p \<Rightarrow> if p = [] then Inl AssertionError else Inr (path_join p ''.manifest.v2.yaml''))"

text \<open>\<open>Manifest.load(path)\<close>.\<close>

definition manifest_load :: "nat \<Rightarrow> py_world \<Rightarrow> string \<Rightarrow> manifest result" where
  "manifest_load a W path = res_bind (read_yaml W path) (manifest_of_json a)"

definition component_init ::
    "nat \<Rightarrow> py_world \<Rightarrow> string \<Rightarrow> string \<Rightarrow> string option \<Rightarrow> string \<Rightarrow> bool \<Rightarrow> component result" where
  "component_init a W name cid path inputfolder load_manifest =
     (let c = \<lparr>n_parents = [], n_children = [], c_name = name, c_id = cid,
               c_done = starts_with ''dataset'' name, c_path = path, c_inputfolder = inputfolder,
               c_start_time = - 1, c_end_time = - 1, c_worker = None, c_lock = None, c_manifest = None,
               c_command = None, c_meta = None, c_temp_output_folder = None\<rparr>
      in if load_manifest then
           res_bind (manifest_path c) (\<lambda>mp. res_bind (manifest_load a W mp) (\<lambda>m.
             Inr (c\<lparr>c_manifest := Some m\<rparr>)))
         else Inr c)"

text \<open>The setter of \<open>path\<close> loads the manifest of the new path.\<close>

definition set_component_path :: "nat \<Rightarrow> py_world \<Rightarrow> string \<Rightarrow> component \<Rightarrow> component result" where
  "set_component_path a W path c =
     (let c' = c\<lparr>c_path := Some path\<rparr>
      in res_bind (manifest_path c') (\<lambda>mp. res_bind (manifest_load a W mp) (\<lambda>m.
           Inr (c'\<lparr>c_manifest := Some m\<rparr>))))"

definition get_component_commands :: "py_world \<Rightarrow> component \<Rightarrow> (string list \<times> component) result" where
  "get_component_commands W c =
     (case c_path c of
        None \<Rightarrow> Inl AssertionError
      | Some p \<Rightarrow>
          if p = [] then Inl AssertionError
          else
            let cp = (case read_config W (path_join p ''.manifest'') of None \<Rightarrow> cp_empty | Some cp \<Rightarrow> cp)
            in res_bind (meta_init cp) (\<lambda>meta.
               res_bind (train_script meta) (\<lambda>script.
                 Inr ([''python'', script, ''--input'', c_inputfolder c, ''--output'', temp_dir W],
                      c\<lparr>c_meta := Some meta, c_temp_output_folder := Some (temp_dir W)\<rparr>))))"

text \<open>
  \<open>get_manifest(refresh)\<close>: a component without a loaded manifest is executed in the calling process
  and the manifest is taken from the packages that process has loaded.
\<close>

definition get_manifest ::
    "nat \<Rightarrow> py_world \<Rightarrow> bool \<Rightarrow> component \<Rightarrow> process \<Rightarrow> (manifest \<times> component \<times> process) result" where
  "get_manifest a W refresh c p =
     (case c_path c of
        None \<Rightarrow> Inl AssertionError
      | Some path \<Rightarrow>
          (case (if refresh then None else c_manifest c) of
             Some m \<Rightarrow> Inr (m, c, p)
           | None \<Rightarrow>
               res_bind (get_component_commands W c) (\<lambda>(cmds, c1).
               res_bind (execute_component W ''DUMMY'' path cmds p) (\<lambda>(_, p1).
               res_bind (process_packages W p1) (\<lambda>pk.
               let m = capture_current_env pk None; meta = the (c_meta c1)
               in res_bind (meta_name meta) (\<lambda>n.
                  res_bind (res_bind (meta_meta_type meta) component_type_of_value) (\<lambda>t.
                  res_bind (meta_version meta) (\<lambda>v.
                  let m' = m\<lparr>m_name := n, m_type := t, m_version := \<lparr>v_addr = a, v_val = v\<rparr>\<rparr>
                  in Inr (m', c1\<lparr>c_manifest := Some m'\<rparr>, p1)))))))))"

text \<open>\<open>write_manifest\<close>: the path and the dictionary given to \<open>yaml.safe_dump\<close>.\<close>

definition write_manifest ::
    "(string \<Rightarrow> string) \<Rightarrow> nat \<Rightarrow> py_world \<Rightarrow> component \<Rightarrow> process
      \<Rightarrow> ((string \<times> (string, json) odict) \<times> component \<times> process) result" where
  "write_manifest sha256 a W c p =
     res_bind (get_manifest a W True c p) (\<lambda>(m, c', p').
     res_bind (manifest_path c') (\<lambda>mp. Inr ((mp, manifest_dict sha256 m), c', p')))"

definition component_cleanup :: "component \<Rightarrow> string option \<times> component" where
  "component_cleanup c =
     (case c_temp_output_folder c of
        None \<Rightarrow> (None, c)
      | Some d \<Rightarrow> if d = [] then (None, c) else (Some d, c\<lparr>c_temp_output_folder := None\<rparr>))"

definition component_items ::
    "(string \<Rightarrow> string) \<Rightarrow> nat \<Rightarrow> py_world \<Rightarrow> component \<Rightarrow> process \<Rightarrow> (string \<times> json) list result" where
  "component_items sha256 a W c p =
     res_bind (case c_worker c of None \<Rightarrow> Inr []
               | Some w \<Rightarrow> res_bind (info_dict sha256 w) (\<lambda>d. Inr [(''worker'', JObj d)])) (\<lambda>wi.
     res_bind (case c_path c of None \<Rightarrow> Inr []
               | Some _ \<Rightarrow> res_bind (get_manifest a W False c p) (\<lambda>(m, _). Inr [(''manifest'', JObj (manifest_dict sha256 m))]))
       (\<lambda>mi. Inr ([(''id'', JStr (c_id c)), (''name'', JStr (c_name c)), (''done'', JBool (c_done c)),
                   (''start_time'', JInt (c_start_time c)), (''end_time'', JInt (c_end_time c))] @ wi @ mi)))"

section \<open>Pipeline\<close>

record pipeline = dag_node +
  p_name :: string
  p_done :: bool
  p_version :: string
  p_components :: "nat list"

definition pipeline_init :: "string \<Rightarrow> string \<Rightarrow> nat list \<Rightarrow> pipeline" where
  "pipeline_init name version comps =
     \<lparr>n_parents = [], n_children = [], p_name = name, p_done = False, p_version = version, p_components = comps\<rparr>"

definition pipeline_hash :: "(string \<Rightarrow> string) \<Rightarrow> (nat \<Rightarrow> component) \<Rightarrow> pipeline \<Rightarrow> string option" where
  "pipeline_hash sha256 heap pl =
     (case p_components pl of
        [] \<Rightarrow> None
      | c # cs \<Rightarrow> Some (sha256 (utf8 (int_str (c_start_time (heap c)))
                   @ utf8 (str_join '' '' (map (\<lambda>c. c_name (heap c)) (c # cs))))))"

definition pipeline_items :: "pipeline \<Rightarrow> (string \<times> json) list" where
  "pipeline_items pl = [(''name'', JStr (p_name pl)), (''version'', JStr (p_version pl)), (''done'', JBool (p_done pl))]"

definition pipeline_info_dict ::
    "(string \<Rightarrow> string) \<Rightarrow> nat \<Rightarrow> py_world \<Rightarrow> process \<Rightarrow> (nat \<Rightarrow> component) \<Rightarrow> pipeline
      \<Rightarrow> (string, json) odict result" where
  "pipeline_info_dict sha256 a W p heap pl =
     res_bind (res_map (\<lambda>c. res_bind (component_items sha256 a W (heap c) p) (\<lambda>d. Inr (JObj (od_update_all [] d))))
        (p_components pl)) (\<lambda>comps.
     Inr [(''name'', JStr (p_name pl)), (''version'', JStr (p_version pl)),
          (''pipeline_hash'', case pipeline_hash sha256 heap pl of None \<Rightarrow> JNull | Some h \<Rightarrow> JStr h),
          (''done'', JBool (p_done pl)), (''components'', JList comps)])"

section \<open>TaskMonitor\<close>

record task_monitor =
  tm_active :: pipeline
  tm_finished :: "pipeline list"
  tm_pending :: "(string, nat) odict"

definition dummy_pipeline :: pipeline where
  "dummy_pipeline = pipeline_init ''DUMMY'' ''DUMMY'' []"

definition task_monitor_init :: task_monitor where
  "task_monitor_init = \<lparr>tm_active = dummy_pipeline, tm_finished = [], tm_pending = []\<rparr>"

definition on_pipeline_done :: "task_monitor \<Rightarrow> task_monitor" where
  "on_pipeline_done tm = tm\<lparr>tm_finished := tm_finished tm @ [tm_active tm], tm_active := dummy_pipeline\<rparr>"

definition add_pending_components :: "(string, nat) odict \<Rightarrow> task_monitor \<Rightarrow> task_monitor" where
  "add_pending_components comps tm = tm\<lparr>tm_pending := od_update_all (tm_pending tm) comps\<rparr>"

text \<open>
  \<open>record_component_done\<close> on the monitor, the component heap and the set of locks that are held;
  releasing a lock nobody holds is \<open>RuntimeError\<close>. \<open>now\<close> is \<open>int(time.time() * 1000)\<close>.
\<close>

definition record_component_done ::
    "int \<Rightarrow> string \<Rightarrow> task_monitor \<times> (nat \<Rightarrow> component) \<times> nat set
      \<Rightarrow> (task_monitor \<times> (nat \<Rightarrow> component) \<times> nat set) result" where
  "record_component_done now cid st =
     (case st of (tm, heap, held) \<Rightarrow>
        res_bind (od_item (tm_pending tm) cid) (\<lambda>r.
        let c = (heap r)\<lparr>c_done := True, c_end_time := now\<rparr>;
            tm' = (if is_end_of_sequence c then on_pipeline_done tm else tm)
        in case c_lock c of
             None \<Rightarrow> Inr (tm', heap(r := c), held)
           | Some l \<Rightarrow> if l \<in> held then Inr (tm', heap(r := c), held - {l}) else Inl RuntimeError))"

definition pipelines_info_dict ::
    "(string \<Rightarrow> string) \<Rightarrow> nat \<Rightarrow> py_world \<Rightarrow> process \<Rightarrow> (nat \<Rightarrow> component) \<Rightarrow> task_monitor
      \<Rightarrow> (string, json) odict result" where
  "pipelines_info_dict sha256 a W p heap tm =
     res_bind (pipeline_info_dict sha256 a W p heap (tm_active tm)) (\<lambda>act.
     res_bind (res_map (pipeline_info_dict sha256 a W p heap) (rev (tm_finished tm))) (\<lambda>fin.
       Inr [(''active'', JObj act), (''finished'', JList (map JObj fin))]))"

text \<open>\<open>first\<close> raises \<open>StopIteration\<close> when no pipeline has the hash.\<close>

definition get_pipeline_info_dict ::
    "(string \<Rightarrow> string) \<Rightarrow> nat \<Rightarrow> py_world \<Rightarrow> process \<Rightarrow> (nat \<Rightarrow> component) \<Rightarrow> task_monitor \<Rightarrow> string
      \<Rightarrow> (string, json) odict result" where
  "get_pipeline_info_dict sha256 a W p heap tm h =
     res_bind (first_item (tm_active tm # tm_finished tm) (\<lambda>pl. pipeline_hash sha256 heap pl = Some h) None)
       (pipeline_info_dict sha256 a W p heap)"

section \<open>Laws\<close>

lemma get_manifest_loaded:
  "c_path c = Some path \<Longrightarrow> c_manifest c = Some m \<Longrightarrow> get_manifest a W False c p = Inr (m, c, p)"
  by (simp add: get_manifest_def)

lemma set_component_path_loaded:
  "set_component_path a W path c = Inr c' \<Longrightarrow>
     \<exists>m. c_path c' = Some path \<and> c_manifest c' = Some m \<and> c_id c' = c_id c \<and> c_command c' = c_command c
       \<and> (m_version m = m_version DEFAULT_VALUES \<or> v_addr (m_version m) = a \<and> wf_version (v_val (m_version m)))"
  by (auto simp: set_component_path_def res_bind_eq_Inr manifest_load_def Let_def dest!: manifest_of_json_version)

text \<open>Reading a manifest twice reads it once: the second call returns the stored one and runs nothing.\<close>

lemma get_manifest_memo:
  assumes "get_manifest a W refresh c p = Inr (m, c', p')"
  shows "get_manifest b W False c' q = Inr (m, c', q)"
proof -
  have "c_path c' \<noteq> None \<and> c_manifest c' = Some m"
    using assms
    by (auto simp: get_manifest_def get_component_commands_def res_bind_eq_Inr Let_def
        split: option.splits if_splits)
  then show ?thesis by (auto simp: get_manifest_def)
qed

text \<open>
  No component ever gets a child, so every component that is done ends the active pipeline, a
  dummy from then on.
\<close>

lemma record_done_no_children:
  assumes "od_get (tm_pending tm) cid = Some r" and "n_children (heap r) = []" and "c_lock (heap r) = None"
  shows "record_component_done now cid (tm, heap, held) =
     Inr (on_pipeline_done tm, heap(r := (heap r)\<lparr>c_done := True, c_end_time := now\<rparr>), held)"
  using assms by (simp add: record_component_done_def od_item_def is_end_of_sequence_def Let_def)

text \<open>
  Refreshing the manifest of a component runs its training script once, from its own directory,
  with the input folder of the component and a new output folder: the arguments that
  \<^verbatim>\<open>get_component_commands\<close> builds are exactly what \<^verbatim>\<open>execute_component\<close> parses back. The
  manifest has the name, type and version the component's \<^verbatim>\<open>.manifest\<close> gives and the packages the
  process has loaded afterwards, and it is kept for the next call.
\<close>

theorem get_manifest_refresh:
  assumes "c_path c = Some path" and "path \<noteq> []" and "is_dir W (abspath (pr_cwd p) path)"
    and "read_config W (path_join path ''.manifest'') = Some cp" and "has_section cp META_SECTION_ID"
    and "train_script cp = Inr script" and "script \<noteq> ''--input''" and "script \<noteq> ''--output''"
    and "c_inputfolder c \<noteq> ''--input''" and "temp_dir W \<noteq> ''--input''" and "temp_dir W \<noteq> ''--output''"
    and "meta_key_of cp = Inr k" and "component_type_of_value (component_type k) = Inr t"
    and "user_start W (abspath (abspath (pr_cwd p) path) (path_join path script)) (c_inputfolder c) (temp_dir W)
      (p\<lparr>pr_cwd := abspath (pr_cwd p) path, pr_sys_path := pr_sys_path p @ [path],
         pr_environ := od_set ''PYTHONUNBUFFERED'' ''1'' (pr_environ p)\<rparr>) = Inr p'"
    and "process_packages W p' = Inr pk"
  shows "\<exists>c'. get_manifest a W True c p =
      Inr (\<lparr>m_name = component_name k, m_type = t, m_version = \<lparr>v_addr = a, v_val = component_version k\<rparr>,
            m_packages_semver = False, m_packages = pk, m_appendix = None\<rparr>, c', p')
    \<and> get_manifest b W False c' q =
      Inr (\<lparr>m_name = component_name k, m_type = t, m_version = \<lparr>v_addr = a, v_val = component_version k\<rparr>,
            m_packages_semver = False, m_packages = pk, m_appendix = None\<rparr>, c', q)"
proof -
  have init: "meta_init cp = Inr cp" using assms(5) by (simp add: meta_init_def)
  have key: "meta_name cp = Inr (component_name k)" "meta_meta_type cp = Inr (component_type k)"
    "meta_version cp = Inr (component_version k)"
    using assms(12) by (auto simp: meta_key_of_def res_bind_eq_Inr)
  have run: "execute_component W ''DUMMY'' path
      [''python'', script, ''--input'', c_inputfolder c, ''--output'', temp_dir W] p = Inr (''DUMMY'', p')"
    using assms(3,7-11,14)
    by (simp add: execute_component_def parse_folders_commands Let_def del: parse_folders.simps)
  have "\<exists>c'. get_manifest a W True c p =
      Inr (\<lparr>m_name = component_name k, m_type = t, m_version = \<lparr>v_addr = a, v_val = component_version k\<rparr>,
            m_packages_semver = False, m_packages = pk, m_appendix = None\<rparr>, c', p')"
    using assms(1,2,4,6,13,15) init key run
    by (simp add: get_manifest_def get_component_commands_def Let_def capture_current_env_def DEFAULT_VALUES_def)
  with get_manifest_memo show ?thesis by blast
qed

definition example_meta :: icp where
  "example_meta = \<lparr>cp_sections =
     [(''identifier'', [(''name'', ''hmm''), (''version'', ''master.0.2''), (''type'', ''library'')]),
      (''configuration'', [(''train'', ''hmm.py'')])], cp_defaults = []\<rparr>"

definition example_process :: process where
  "example_process = \<lparr>pr_cwd = ''/'', pr_sys_path = [], pr_environ = [], pr_modules = [''sys'']\<rparr>"

definition example_world :: py_world where
  "example_world =
     \<lparr>is_dir = (\<lambda>d. d = ''/lib/hmm''),
      read_config = (\<lambda>f. if f = ''/lib/hmm/.manifest'' then Some example_meta else None),
      read_yaml = (\<lambda>f. Inl FileNotFoundError), temp_dir = ''/tmp/.out'',
      user_start = (\<lambda>script i out p. if script = ''/lib/hmm/hmm.py'' then Inr (p\<lparr>pr_modules := ''torch'' # pr_modules p\<rparr>)
        else Inl FileNotFoundError),
      working_set = [''torch 1.10''], egg_info = Some,
      read_text = (\<lambda>f. if f = ''torch/top_level.txt'' then Some ''torch'' else None)\<rparr>"

definition example_component :: "string \<Rightarrow> string \<Rightarrow> component" where
  "example_component cid path =
     \<lparr>n_parents = [], n_children = [], c_name = cid, c_id = cid, c_done = False, c_path = Some path,
      c_inputfolder = ''/data'', c_start_time = - 1, c_end_time = - 1, c_worker = None, c_lock = None,
      c_manifest = None, c_command = None, c_meta = None, c_temp_output_folder = None\<rparr>"

lemma get_manifest_refresh_witness:
  "\<exists>c'. get_manifest 1 example_world True (example_component ''hmm'' ''/lib/hmm'') example_process =
      Inr (\<lparr>m_name = ''hmm'', m_type = LIBRARY, m_version = \<lparr>v_addr = 1, v_val = mk_version ''master'' 0 2\<rparr>,
            m_packages_semver = False, m_packages = [(''torch'', ''1.10'')], m_appendix = None\<rparr>, c',
         \<lparr>pr_cwd = ''/lib/hmm'', pr_sys_path = [''/lib/hmm''], pr_environ = [(''PYTHONUNBUFFERED'', ''1'')],
          pr_modules = [''torch'', ''sys'']\<rparr>)"
proof -
  let ?p' = "\<lparr>pr_cwd = ''/lib/hmm'', pr_sys_path = [''/lib/hmm''], pr_environ = [(''PYTHONUNBUFFERED'', ''1'')],
          pr_modules = [''torch'', ''sys'']\<rparr>"
  let ?k = "mk_key ''library'' ''hmm'' (mk_version ''master'' 0 2)"
  have "\<exists>c'. get_manifest 1 example_world True (example_component ''hmm'' ''/lib/hmm'') example_process =
      Inr (\<lparr>m_name = component_name ?k, m_type = LIBRARY, m_version = \<lparr>v_addr = 1, v_val = component_version ?k\<rparr>,
            m_packages_semver = False, m_packages = [(''torch'', ''1.10'')], m_appendix = None\<rparr>, c', ?p')
    \<and> get_manifest 2 example_world False c' example_process =
      Inr (\<lparr>m_name = component_name ?k, m_type = LIBRARY, m_version = \<lparr>v_addr = 1, v_val = component_version ?k\<rparr>,
            m_packages_semver = False, m_packages = [(''torch'', ''1.10'')], m_appendix = None\<rparr>, c', example_process)"
    by (rule get_manifest_refresh [where path = "''/lib/hmm''" and cp = example_meta and script = "''hmm.py''"]) (code_simp)+
  then show ?thesis by auto
qed

end
