(* ===== verification/WorkerCache.thy ===== *)
theory WorkerCache
  imports WorkerConn
begin

text \<open>
  \<^verbatim>\<open>pysrc/worker_cache.py\<close>: the two caches the scheduler may keep its workers in. Both are ordered
  dictionaries from worker identifiers to worker objects (addresses of a heap of workers), least
  recently used first; they differ in the worker \<open>remove_end\<close> gives up. The locale
  \<open>worker_cache\<close> is the contract the scheduler relies on; both classes are instances.
\<close>

type_synonym wcache = "(string, nat) odict"

section \<open>LRUCache\<close>

definition lru_get :: "string \<Rightarrow> wcache \<Rightarrow> nat option \<times> wcache" where
  "lru_get key c =
     (case od_move_to_end key c of
        Inl _ \<Rightarrow> (None, c)
      | Inr c' \<Rightarrow> (od_get c' key, c'))"

definition lru_put :: "string \<Rightarrow> nat \<Rightarrow> wcache \<Rightarrow> wcache" where
  "lru_put wid w c =
     (case od_move_to_end wid (od_set wid w c) of Inl _ \<Rightarrow> od_set wid w c | Inr c' \<Rightarrow> c')"

definition lru_remove_end :: "(nat \<Rightarrow> worker) \<Rightarrow> manifest result \<Rightarrow> wcache \<Rightarrow> (nat \<times> wcache) result" where
  "lru_remove_end heap component_manifest c =
     res_bind (od_popitem_first c) (\<lambda>(kv, c'). Inr (snd kv, c'))"

definition lru_remove :: "string \<Rightarrow> wcache \<Rightarrow> wcache result" where
  "lru_remove wid c = res_bind (od_pop wid c) (\<lambda>(_, c'). Inr c')"

section \<open>PACache\<close>

definition pa_get :: "string \<Rightarrow> wcache \<Rightarrow> nat option \<times> wcache" where
  "pa_get key c =
     (case od_move_to_end key c of
        Inl _ \<Rightarrow> (None, c)
      | Inr c' \<Rightarrow> (od_get c' key, c'))"

definition pa_put :: "string \<Rightarrow> nat \<Rightarrow> wcache \<Rightarrow> wcache" where
  "pa_put wid w c =
     (case od_move_to_end wid (od_set wid w c) of Inl _ \<Rightarrow> od_set wid w c | Inr c' \<Rightarrow> c')"

text \<open>
  The loop of \<open>remove_end\<close>: the first worker, from the least recently used on, that last ran a
  component of the same name. The component's manifest is asked for (and may fail) at the first
  worker that has one.
\<close>

fun pa_select :: "(nat \<Rightarrow> worker) \<Rightarrow> manifest result \<Rightarrow> wcache \<Rightarrow> string option result" where
  "pa_select heap component_manifest [] = Inr None"
| "pa_select heap component_manifest ((wid, w) # c) =
     (case w_manifest (heap w) of
        None \<Rightarrow> pa_select heap component_manifest c
      | Some m \<Rightarrow>
          res_bind component_manifest (\<lambda>cm.
            if m_name m = m_name cm then Inr (Some wid) else pa_select heap component_manifest c))"

definition pa_remove_end :: "(nat \<Rightarrow> worker) \<Rightarrow> manifest result \<Rightarrow> wcache \<Rightarrow> (nat \<times> wcache) result" where
  "pa_remove_end heap component_manifest c =
     res_bind (pa_select heap component_manifest c) (\<lambda>sel.
       case sel of
         Some wid \<Rightarrow> od_pop wid c
       | None \<Rightarrow> res_bind (od_popitem_first c) (\<lambda>(kv, c'). Inr (snd kv, c')))"

definition pa_remove :: "string \<Rightarrow> wcache \<Rightarrow> wcache result" where
  "pa_remove wid c = res_bind (od_pop wid c) (\<lambda>(_, c'). Inr c')"

section \<open>The contract\<close>

locale worker_cache =
  fixes get :: "string \<Rightarrow> wcache \<Rightarrow> nat option \<times> wcache"
    and put :: "string \<Rightarrow> nat \<Rightarrow> wcache \<Rightarrow> wcache"
    and remove :: "string \<Rightarrow> wcache \<Rightarrow> wcache result"
    and remove_end :: "(nat \<Rightarrow> worker) \<Rightarrow> manifest result \<Rightarrow> wcache \<Rightarrow> (nat \<times> wcache) result"
  assumes put_eq: "put k w c = od_del k c @ [(k, w)]"
    and get_eq: "get k c = (case od_get c k of None \<Rightarrow> (None, c) | Some w \<Rightarrow> (Some w, od_del k c @ [(k, w)]))"
    and remove_eq: "remove k c = (if k \<in> set (od_keys c) then Inr (od_del k c) else Inl KeyError)"
    and remove_end_some: "c \<noteq> [] \<Longrightarrow> distinct (od_keys c) \<Longrightarrow>
      \<exists>k w. (k, w) \<in> set c \<and> remove_end heap (Inr cm) c = Inr (w, od_del k c)"
    and remove_end_empty: "remove_end heap m [] = Inl KeyError"
begin

lemma keys_put: "set (od_keys (put k w c)) = insert k (set (od_keys c))"
  by (auto simp: put_eq od_simps)

lemma distinct_put: "distinct (od_keys c) \<Longrightarrow> distinct (od_keys (put k w c))"
  by (simp add: put_eq od_simps)

lemma values_put: "distinct (od_keys c) \<Longrightarrow> set (put k w c) = {(k, w)} \<union> {kv \<in> set c. fst kv \<noteq> k}"
  by (auto simp: put_eq set_od_del)

lemma get_put: "get k (put k w c) = (Some w, put k w c)"
  by (simp add: get_eq put_eq od_simps)

lemma length_put:
  "distinct (od_keys c) \<Longrightarrow> length (put k w c) = (if k \<in> set (od_keys c) then length c else Suc (length c))"
  using length_od_del_present [of c k] by (auto simp: put_eq od_del_idem)

lemma remove_put: "k \<notin> set (od_keys c) \<Longrightarrow> remove k (put k w c) = Inr c"
  by (simp add: remove_eq put_eq od_simps od_del_idem)

text \<open>Moving an entry from one cache to another keeps the number of entries and the keys disjoint.\<close>

lemma move_entry:
  assumes "distinct (od_keys c)" and "distinct (od_keys d)" and "k \<in> set (od_keys c)"
    and "set (od_keys c) \<inter> set (od_keys d) = {}"
  obtains c' where "remove k c = Inr c'"
    and "length c' + length (put k w d) = length c + length d"
    and "distinct (od_keys c')" and "distinct (od_keys (put k w d))"
    and "set (od_keys c') \<inter> set (od_keys (put k w d)) = {}"
    and "set (od_keys c') \<union> set (od_keys (put k w d)) = set (od_keys c) \<union> set (od_keys d)"
    and "set c' = {kv \<in> set c. fst kv \<noteq> k}"
proof
  show "remove k c = Inr (od_del k c)" using assms(3) by (simp add: remove_eq)
  have "k \<notin> set (od_keys d)" using assms(3,4) by blast
  then show "length (od_del k c) + length (put k w d) = length c + length d"
    using length_od_del_present [OF assms(1,3)] length_put [OF assms(2), of k w] by simp
  show "distinct (od_keys (od_del k c))" using assms(1) by (rule distinct_od_del)
  show "distinct (od_keys (put k w d))" using assms(2) by (rule distinct_put)
  show "set (od_keys (od_del k c)) \<inter> set (od_keys (put k w d)) = {}"
    using assms(4) by (auto simp: keys_put od_simps)
  show "set (od_keys (od_del k c)) \<union> set (od_keys (put k w d)) = set (od_keys c) \<union> set (od_keys d)"
    using assms(3) by (auto simp: keys_put od_simps)
  show "set (od_del k c) = {kv \<in> set c. fst kv \<noteq> k}" using assms(1) by (rule set_od_del)
qed

text \<open>Giving up a worker makes room for exactly one.\<close>

lemma remove_end_room:
  assumes "c \<noteq> []" and "distinct (od_keys c)"
  obtains k w c' where "remove_end heap (Inr cm) c = Inr (w, c')" and "(k, w) \<in> set c"
    and "c' = od_del k c" and "Suc (length c') = length c" and "k \<notin> set (od_keys c')"
    and "distinct (od_keys c')" and "set (od_keys c') \<subseteq> set (od_keys c)"
proof -
  from remove_end_some [OF assms, of heap cm] obtain k w where
    kw: "(k, w) \<in> set c" and r: "remove_end heap (Inr cm) c = Inr (w, od_del k c)" by blast
  from kw have k: "k \<in> set (od_keys c)" by (force simp: od_keys_def)
  show thesis
    by (rule that [OF r kw refl])
      (use k assms(2) in \<open>auto simp: length_od_del_present distinct_od_del set_od_keys_del\<close>)
qed

end

section \<open>Both caches keep it\<close>

lemma move_to_end_set: "od_move_to_end k (od_set k w c) = Inr (od_del k c @ [(k, w)])"
proof -
  have "od_del k (od_set k w c) = od_del k c"
    by (induction c) (auto simp: od_del_def od_set_def)
  then show ?thesis by (simp add: od_move_to_end_def od_simps)
qed

lemma move_to_end_get:
  "(case od_move_to_end k c of Inl _ \<Rightarrow> (None, c) | Inr c' \<Rightarrow> (od_get c' k, c')) =
     (case od_get c k of None \<Rightarrow> (None, c) | Some w \<Rightarrow> (Some w, od_del k c @ [(k, w)]))"
  by (simp add: od_move_to_end_def od_simps split: option.split)

lemma pop_drop:
  "res_bind (od_pop k c) (\<lambda>(_, c'). Inr c') = (if k \<in> set (od_keys c) then Inr (od_del k c) else Inl KeyError)"
  by (auto simp: od_pop_def od_get_None_iff [symmetric] split: option.splits)

lemma popitem_first_room:
  "c \<noteq> [] \<Longrightarrow> distinct (od_keys c) \<Longrightarrow>
     \<exists>k w. (k, w) \<in> set c \<and> res_bind (od_popitem_first c) (\<lambda>(kv, c'). Inr (snd kv, c')) = Inr (w, od_del k c)"
proof -
  assume "c \<noteq> []" and dist: "distinct (od_keys c)"
  then obtain k w c' where c: "c = (k, w) # c'" by (cases c) auto
  with dist have "k \<notin> set (od_keys c')" by (simp add: od_simps)
  then have "od_del k c = c'" using od_del_idem [of k c'] by (simp add: c od_del_def)
  with c show ?thesis by (auto simp: od_popitem_first_def)
qed

lemma pa_select_key: "pa_select heap cm c = Inr (Some k) \<Longrightarrow> k \<in> set (od_keys c)"
  by (induction heap cm c rule: pa_select.induct)
    (auto simp: od_simps res_bind_eq_Inr split: option.splits if_splits)

lemma pa_select_ok: "\<exists>s. pa_select heap (Inr cm) c = Inr s"
  by (induction c) (auto split: option.splits)

interpretation lru: worker_cache lru_get lru_put lru_remove lru_remove_end
proof
  show "lru_put k w c = od_del k c @ [(k, w)]" for k w c
    by (simp add: lru_put_def move_to_end_set)
  show "lru_get k c = (case od_get c k of None \<Rightarrow> (None, c) | Some w \<Rightarrow> (Some w, od_del k c @ [(k, w)]))" for k c
    by (simp add: lru_get_def move_to_end_get)
  show "lru_remove k c = (if k \<in> set (od_keys c) then Inr (od_del k c) else Inl KeyError)" for k c
    by (simp add: lru_remove_def pop_drop)
  show "lru_remove_end heap m [] = Inl KeyError" for heap m
    by (simp add: lru_remove_end_def od_popitem_first_def)
  show "\<exists>k w. (k, w) \<in> set c \<and> lru_remove_end heap (Inr cm) c = Inr (w, od_del k c)"
    if "c \<noteq> []" "distinct (od_keys c)" for heap cm c
    unfolding lru_remove_end_def using that by (rule popitem_first_room)
qed

interpretation pac: worker_cache pa_get pa_put pa_remove pa_remove_end
proof
  show "pa_put k w c = od_del k c @ [(k, w)]" for k w c
    by (simp add: pa_put_def move_to_end_set)
  show "pa_get k c = (case od_get c k of None \<Rightarrow> (None, c) | Some w \<Rightarrow> (Some w, od_del k c @ [(k, w)]))" for k c
    by (simp add: pa_get_def move_to_end_get)
  show "pa_remove k c = (if k \<in> set (od_keys c) then Inr (od_del k c) else Inl KeyError)" for k c
    by (simp add: pa_remove_def pop_drop)
  show "pa_remove_end heap m [] = Inl KeyError" for heap m
    by (simp add: pa_remove_end_def od_popitem_first_def)
  show "\<exists>k w. (k, w) \<in> set c \<and> pa_remove_end heap (Inr cm) c = Inr (w, od_del k c)"
    if c: "c \<noteq> []" "distinct (od_keys c)" for heap cm c
  proof -
    obtain s where s: "pa_select heap (Inr cm) c = Inr s" using pa_select_ok by blast
    show ?thesis
    proof (cases s)
      case None
      with s popitem_first_room [OF c] show ?thesis by (simp add: pa_remove_end_def)
    next
      case (Some k)
      with s have "k \<in> set (od_keys c)" by (auto dest: pa_select_key)
      then obtain w where "od_get c k = Some w" by (metis not_Some_eq od_get_None_iff)
      with s Some od_get_SomeD [OF this] show ?thesis
        by (auto simp: pa_remove_end_def od_pop_def)
    qed
  qed
qed

section \<open>Which worker PACache gives up\<close>

text \<open>The worker last ran a component of the same name as the given one.\<close>

definition same_component :: "(nat \<Rightarrow> worker) \<Rightarrow> manifest \<Rightarrow> nat \<Rightarrow> bool" where
  "same_component heap cm w \<longleftrightarrow> (case w_manifest (heap w) of None \<Rightarrow> False | Some m \<Rightarrow> m_name m = m_name cm)"

lemma pa_select_find:
  "pa_select heap (Inr cm) c = Inr (map_option fst (find (\<lambda>kv. same_component heap cm (snd kv)) c))"
  by (induction c) (auto simp: same_component_def split: option.splits)

text \<open>
  C12 (functional behaviour). The pipeline-aware cache gives up the least recently used worker that last ran a component of the
  given name, and the least recently used worker of all when there is none; every other worker
  keeps its place in the order.
\<close>

theorem pa_remove_end_choice:
  assumes "distinct (od_keys c)" and "c \<noteq> []"
  shows "\<exists>older wid w newer. c = older @ (wid, w) # newer
     \<and> pa_remove_end heap (Inr cm) c = Inr (w, older @ newer)
     \<and> (if \<exists>kv \<in> set c. same_component heap cm (snd kv)
        then same_component heap cm w \<and> (\<forall>kv \<in> set older. \<not> same_component heap cm (snd kv))
        else older = [])"
proof (cases "find (\<lambda>kv. same_component heap cm (snd kv)) c")
  case None
  then have none: "\<not> (\<exists>kv \<in> set c. same_component heap cm (snd kv))" by (auto simp: find_None_iff)
  obtain wid w newer where c: "c = (wid, w) # newer" using assms(2) by (cases c) auto
  have "pa_remove_end heap (Inr cm) c = Inr (w, newer)"
    unfolding pa_remove_end_def pa_select_find None by (simp add: c od_popitem_first_def)
  with none c show ?thesis
    by (intro exI [of _ "[]"] exI [of _ wid] exI [of _ w] exI [of _ newer]) simp
next
  case (Some kv)
  then obtain i where i: "i < length c" "same_component heap cm (snd (c ! i))" "kv = c ! i"
    "\<forall>j < i. \<not> same_component heap cm (snd (c ! j))" by (auto simp: find_Some_iff)
  obtain wid w where kv: "kv = (wid, w)" by fastforce
  let ?older = "take i c" and ?newer = "drop (Suc i) c"
  have c: "c = ?older @ (wid, w) # ?newer" using i kv by (metis id_take_nth_drop)
  have "od_get c wid = Some w" using assms(1) i kv by (metis nth_mem od_get_Some_iff)
  moreover have "od_del wid c = ?older @ ?newer"
  proof -
    have "wid \<notin> set (od_keys ?older)" "wid \<notin> set (od_keys ?newer)"
      using assms(1) unfolding od_keys_def by (subst (asm) c, simp)+
    then show ?thesis
      by (subst c) (simp add: od_simps od_del_idem)
  qed
  ultimately have "pa_remove_end heap (Inr cm) c = Inr (w, ?older @ ?newer)"
    by (simp add: pa_remove_end_def pa_select_find Some kv od_pop_def)
  moreover have "\<exists>kv \<in> set c. same_component heap cm (snd kv)" using i nth_mem by blast
  moreover have "\<forall>kv \<in> set ?older. \<not> same_component heap cm (snd kv)"
    using i(1,4) by (fastforce simp: in_set_conv_nth)
  moreover have "same_component heap cm w" using i kv by (metis snd_conv)
  ultimately show ?thesis using c by (metis (no_types, lifting))
qed

definition example_worker :: "string \<Rightarrow> string \<Rightarrow> worker" where
  "example_worker wid name = \<lparr>w_id = wid, w_manifest = Some (example_library name [])\<rparr>"

lemma pa_remove_end_choice_witness:
  "pa_remove_end (\<lambda>w. example_worker [] (if w = 1 then ''hmm'' else ''cnn'')) (Inr (example_library ''hmm'' []))
     [(''a'', 0), (''b'', 1), (''c'', 2)] = Inr (1, [(''a'', 0), (''c'', 2)])"
proof -
  let ?heap = "\<lambda>w. example_worker [] (if w = 1 then ''hmm'' else ''cnn'')"
  let ?c = "[(''a'', 0), (''b'', 1), (''c'', 2)]"
  have "\<exists>older wid w newer. ?c = older @ (wid, w) # newer
     \<and> pa_remove_end ?heap (Inr (example_library ''hmm'' [])) ?c = Inr (w, older @ newer)
     \<and> (if \<exists>kv \<in> set ?c. same_component ?heap (example_library ''hmm'' []) (snd kv)
        then same_component ?heap (example_library ''hmm'' []) w
          \<and> (\<forall>kv \<in> set older. \<not> same_component ?heap (example_library ''hmm'' []) (snd kv))
        else older = [])"
    by (rule pa_remove_end_choice) (simp_all add: od_keys_def)
  then show ?thesis
    by (auto simp: same_component_def example_worker_def example_library_def Cons_eq_append_conv)
qed

end
