(* ===== verification/Config.thy ===== *)
theory Config
  imports ConfigParser
begin

text \<open>
  \<^verbatim>\<open>pysrc/pipeman/config.py\<close> and \<^verbatim>\<open>env.py\<close>: the main configuration, its table of defaults, the typed
  getters, and the process environment. The parsed \<^verbatim>\<open>config.ini\<close>, the environment variables and the
  home directory are arguments.
\<close>

record configuration =
  cf_defaults :: "(string, (string, string) odict) odict"
  cf_app_home :: string
  cf_parser :: icp
  cf_escape_dict :: "(string \<times> string) list"
  cf_sgx :: bool

definition get_app_home :: "string option \<Rightarrow> (string \<Rightarrow> bool) \<Rightarrow> string \<Rightarrow> string result" where
  "get_app_home app_home path_exists cwd =
     (case app_home of
        None \<Rightarrow> Inr cwd
      | Some h \<Rightarrow> if path_exists h then Inr h else Inl GenericException)"

definition is_sgx_enabled :: "configuration \<Rightarrow> bool" where
  "is_sgx_enabled cf = cf_sgx cf"

definition configuration_init ::
    "(string, (string, string) odict) odict \<Rightarrow> string option \<Rightarrow> (string \<Rightarrow> bool) \<Rightarrow> string \<Rightarrow> icp
      \<Rightarrow> string \<Rightarrow> string \<Rightarrow> bool \<Rightarrow> configuration result" where
  "configuration_init defaults app_home path_exists cwd parsed home user sgx =
     res_bind (get_app_home app_home path_exists cwd) (\<lambda>h.
     res_bind (cp_set ''env'' ''is_sgx_enabled'' (if sgx then ''true'' else ''false'') parsed) (\<lambda>parser.
       Inr \<lparr>cf_defaults = defaults, cf_app_home = h, cf_parser = parser,
            cf_escape_dict = [(''$HOME'', home), (''$USER'', user), (''$SCWD'', cwd)], cf_sgx = sgx\<rparr>))"

definition default_value :: "configuration \<Rightarrow> string \<Rightarrow> string \<Rightarrow> string option" where
  "default_value cf section key =
     (case od_get (cf_defaults cf) section of None \<Rightarrow> None | Some d \<Rightarrow> od_get d key)"

text \<open>\<open>_check_key_existence\<close>, returning the default it has found.\<close>

definition check_key_existence :: "configuration \<Rightarrow> string \<Rightarrow> string \<Rightarrow> string result" where
  "check_key_existence cf section key =
     (case default_value cf section key of None \<Rightarrow> Inl KeyError | Some v \<Rightarrow> Inr v)"

definition conf_get :: "configuration \<Rightarrow> string \<Rightarrow> string \<Rightarrow> string result" where
  "conf_get cf section key =
     res_bind (check_key_existence cf section key) (\<lambda>dflt.
     res_bind (cp_get_fallback (cf_parser cf) section key dflt) (\<lambda>raw_value.
       Inr (fold (\<lambda>(k, v) s. str_replace k v s) (cf_escape_dict cf) raw_value)))"

definition conf_getboolean :: "configuration \<Rightarrow> string \<Rightarrow> string \<Rightarrow> bool result" where
  "conf_getboolean cf section key =
     res_bind (check_key_existence cf section key) (\<lambda>dflt.
       cp_getboolean_fallback (cf_parser cf) section key (dflt \<noteq> []))"

definition conf_getint :: "configuration \<Rightarrow> string \<Rightarrow> string \<Rightarrow> int result" where
  "conf_getint cf section key =
     res_bind (check_key_existence cf section key) (\<lambda>dflt.
     res_bind (parse_py_int dflt) (\<lambda>d. cp_getint_fallback (cf_parser cf) section key d))"

text \<open>\<open>__str__\<close>: every value of the table, as nested dictionaries.\<close>

definition conf_dict :: "configuration \<Rightarrow> (string \<times> (string \<times> string) list) list result" where
  "conf_dict cf =
     res_map (\<lambda>(section, d).
       res_bind (res_map (\<lambda>k. res_bind (conf_get cf section k) (\<lambda>v. Inr (k, v))) (od_keys d))
         (\<lambda>kvs. Inr (section, kvs))) (cf_defaults cf)"

definition DEFAULTS_CONFIG_INI :: "(string, (string, string) odict) odict" where
  "DEFAULTS_CONFIG_INI =
    [(''env'', [(''temp_path'', ''$HOME/gemini-pipeline/gemini-pipeline/temp''), (''is_sgx_enabled'', ''false'')]),
     (''coordinator'', [(''host'', ''127.0.0.1''), (''worker_manager_port'', ''50200''), (''webapi_port'', ''5020'')]),
     (''storage'', [(''storage_engine'', ''forkbase'')]),
     (''storage_ledgebase'', [(''base_path'', ''/nfs/host/sgx/seccask/framework/lib/ustore_release'')]),
     (''storage_filesystem'', [(''chunk_size'', ''65536''), (''generic_file_name'', ''VALUE''), (''prefix'', ''$HOME/fsstore'')]),
     (''storage_rdbms'', [(''user'', ''$USER''), (''ssl_cert_path'', ''$HOME/cert.pem''), (''ssl_key_path'', ''$HOME/key.pem'')]),
     (''scheduler'', [(''default_num_slot'', ''4''), (''enable_compatibility_check_on_caching'', ''true''),
        (''enable_compatibility_check_on_new_worker'', ''false''), (''__debug_disable_level3_check'', ''false''),
        (''__debug_worker_creation_dry_run'', ''false''), (''__debug_singleton_worker'', ''false'')]),
     (''worker'', [(''gramine_path'', ''/usr/local/bin/gramine-direct''), (''gramine_manifest_path'', ''$HOME/gramine-manifest/python'')]),
     (''worker_sgx'', [(''gramine_path'', ''/usr/local/bin/gramine-sgx''), (''gramine_manifest_path'', ''$HOME/gramine-manifest/python'')]),
     (''log'', [(''log_config'', ''true''), (''log_cffi'', ''false''), (''log_filesystem_storage'', ''false''),
        (''log_encfs'', ''false''), (''log_io'', ''false''), (''log_time'', ''false'')]),
     (''ratls'', [(''enable'', ''false''), (''mrenclave'', ''''), (''mrsigner'', '''')]),
     (''profiler'', [(''enable_memory_profiler'', ''false''), (''memory_profiler_mode'', ''status'')])]"

text \<open>\<open>Env\<close>.\<close>

definition env_temp_path :: "configuration \<Rightarrow> string result" where
  "env_temp_path cf = conf_get cf ''env'' ''temp_path''"

definition env_config_base :: "configuration \<Rightarrow> string" where
  "env_config_base cf = path_join (cf_app_home cf) ''.conf''"

section \<open>Getters\<close>

text \<open>An option that neither the file nor its default section gives.\<close>

definition option_absent :: "configuration \<Rightarrow> string \<Rightarrow> string \<Rightarrow> bool" where
  "option_absent cf section key \<longleftrightarrow>
     cp_get (cf_parser cf) section key = Inl NoSectionError \<or> cp_get (cf_parser cf) section key = Inl NoOptionError"

lemma conf_get_absent:
  "option_absent cf s k \<Longrightarrow> default_value cf s k = Some d \<Longrightarrow>
     conf_get cf s k = Inr (fold (\<lambda>(k, v) s. str_replace k v s) (cf_escape_dict cf) d)"
  by (auto simp: option_absent_def conf_get_def check_key_existence_def cp_get_fallback_def)

lemma conf_getint_absent:
  "option_absent cf s k \<Longrightarrow> default_value cf s k = Some d \<Longrightarrow> conf_getint cf s k = parse_py_int d"
  by (cases "parse_py_int d")
    (auto simp: option_absent_def conf_getint_def check_key_existence_def cp_getint_fallback_def)

lemma conf_getboolean_absent:
  "option_absent cf s k \<Longrightarrow> default_value cf s k = Some d \<Longrightarrow> conf_getboolean cf s k = Inr (d \<noteq> [])"
  by (auto simp: option_absent_def conf_getboolean_def check_key_existence_def cp_getboolean_fallback_def)

lemma conf_unknown_key:
  "default_value cf s k = None \<Longrightarrow> conf_get cf s k = Inl KeyError \<and> conf_getboolean cf s k = Inl KeyError
     \<and> conf_getint cf s k = Inl KeyError"
  by (simp add: conf_get_def conf_getboolean_def conf_getint_def check_key_existence_def)

lemma conf_getboolean_present:
  "cp_get (cf_parser cf) s k = Inr v \<Longrightarrow> default_value cf s k = Some d \<Longrightarrow>
     conf_getboolean cf s k = convert_to_boolean v"
  by (simp add: conf_getboolean_def check_key_existence_def cp_getboolean_fallback_def)

text \<open>
  A switch whose default is written \<^verbatim>\<open>"false"\<close> reads as true when
  \<^verbatim>\<open>config.ini\<close> does not mention it, because the fallback is \<^verbatim>\<open>bool("false")\<close>, the truth of a non-empty
  string; the written value is used only when the file has the option. Among these switches is
  \<^verbatim>\<open>__debug_singleton_worker\<close>, which makes the scheduler reuse any worker without a check.
\<close>

theorem false_default_reads_true:
  assumes "default_value cf section key = Some ''false''"
  shows "(option_absent cf section key \<longrightarrow> conf_getboolean cf section key = Inr True)
     \<and> (cp_get (cf_parser cf) section key = Inr ''false'' \<longrightarrow> conf_getboolean cf section key = Inr False)"
  using conf_getboolean_absent [OF _ assms] conf_getboolean_present [OF _ assms]
  by (simp add: convert_to_boolean_def to_lower_def)

definition example_configuration :: configuration where
  "example_configuration =
     \<lparr>cf_defaults = DEFAULTS_CONFIG_INI, cf_app_home = ''/app'',
      cf_parser = \<lparr>cp_sections = [(''env'', [(''is_sgx_enabled'', ''false'')]),
        (''scheduler'', [(''__debug_disable_level3_check'', ''false'')])], cp_defaults = []\<rparr>,
      cf_escape_dict = [(''$HOME'', ''/root''), (''$USER'', ''root''), (''$SCWD'', ''/app'')], cf_sgx = False\<rparr>"

lemma example_default:
  "default_value example_configuration ''scheduler'' ''__debug_singleton_worker'' = Some ''false''"
  "default_value example_configuration ''scheduler'' ''__debug_disable_level3_check'' = Some ''false''"
  "cp_get (cf_parser example_configuration) ''scheduler'' ''__debug_singleton_worker'' = Inl NoOptionError"
  "cp_get (cf_parser example_configuration) ''scheduler'' ''__debug_disable_level3_check'' = Inr ''false''"
  by code_simp+

lemma false_default_reads_true_witness:
  "conf_getboolean example_configuration ''scheduler'' ''__debug_singleton_worker'' = Inr True
   \<and> conf_getboolean example_configuration ''scheduler'' ''__debug_disable_level3_check'' = Inr False"
  using false_default_reads_true [OF example_default(1)] false_default_reads_true [OF example_default(2)]
    example_default(3,4) by (simp add: option_absent_def)

end
