(* ===== verification/Scheduler.thy ===== *)
theory Scheduler
  imports Pipeline WorkerCache Config
begin

text \<open>
  \<^verbatim>\<open>pysrc/scheduler.py\<close>: the worker pool. Workers are objects of a heap (\<open>s_workers\<close>), held by the
  list of new workers and by the two pipeline-aware caches; waiting components are addresses of
  component objects. What the scheduler does to the outside (starting a worker, telling the
  coordinator to reclaim one, calling back) is the list \<open>s_effects\<close>, oldest first. The random identifier
  of a new worker and the iteration order of the set of waiting components are arguments.
  An exception gives no state: \<open>get_compatible_full_unchanged\<close> says why none is needed for
  \<open>WorkerPoolFull\<close>, the one the callers can meet.
\<close>

section \<open>State\<close>

datatype effect =
    NewWorkerCommand string
  | DryRun string
  | CacheFull string
  | WorkerFound string
  | ComponentFound nat

record sched_flags =
  f_singleton :: bool
  f_check_caching :: bool
  f_check_new :: bool
  f_disable_l3 :: bool
  f_dry_run :: bool

text \<open>The switches; the configuration does not change after start-up, so they are read once.\<close>

definition read_flags :: "configuration \<Rightarrow> sched_flags result" where
  "read_flags cf =
     res_bind (conf_getboolean cf ''scheduler'' ''__debug_singleton_worker'') (\<lambda>a.
     res_bind (conf_getboolean cf ''scheduler'' ''enable_compatibility_check_on_caching'') (\<lambda>b.
     res_bind (conf_getboolean cf ''scheduler'' ''enable_compatibility_check_on_new_worker'') (\<lambda>c.
     res_bind (conf_getboolean cf ''scheduler'' ''__debug_disable_level3_check'') (\<lambda>d.
     res_bind (conf_getboolean cf ''scheduler'' ''__debug_worker_creation_dry_run'') (\<lambda>e.
       Inr \<lparr>f_singleton = a, f_check_caching = b, f_check_new = c, f_disable_l3 = d, f_dry_run = e\<rparr>)))))"

record sched_env =
  se_sha256 :: "string \<Rightarrow> string"
  se_conf :: configuration
  se_flags :: sched_flags
  se_world :: py_world
  se_process :: process
  se_comp :: "nat \<Rightarrow> component"

record scheduler =
  s_active :: wcache
  s_cached :: wcache
  s_new :: "nat list"
  s_num_slot :: int
  s_waiting :: "nat list"
  s_workers :: "nat \<Rightarrow> worker"
  s_next_addr :: nat
  s_effects :: "effect list"

definition scheduler_init :: "int \<Rightarrow> (nat \<Rightarrow> worker) \<Rightarrow> scheduler" where
  "scheduler_init n heap =
     \<lparr>s_active = [], s_cached = [], s_new = [], s_num_slot = n, s_waiting = [], s_workers = heap,
      s_next_addr = 1, s_effects = []\<rparr>"

definition emit :: "effect \<Rightarrow> scheduler \<Rightarrow> scheduler" where
  "emit e s = s\<lparr>s_effects := s_effects s @ [e]\<rparr>"

section \<open>Operations\<close>

definition add_new_worker :: "nat \<Rightarrow> scheduler \<Rightarrow> scheduler" where
  "add_new_worker w s = s\<lparr>s_new := s_new s @ [w]\<rparr>"

definition get_worker :: "string \<Rightarrow> scheduler \<Rightarrow> nat option" where
  "get_worker wid s =
     find (\<lambda>w. w_id (s_workers s w) = wid) (s_new s @ od_values (s_active s) @ od_values (s_cached s))"

definition cache_worker :: "nat \<Rightarrow> scheduler \<Rightarrow> scheduler result" where
  "cache_worker w s =
     res_bind (pa_remove (w_id (s_workers s w)) (s_active s)) (\<lambda>act.
       Inr (s\<lparr>s_active := act, s_cached := pa_put (w_id (s_workers s w)) w (s_cached s)\<rparr>))"

definition activate_worker :: "nat \<Rightarrow> scheduler \<Rightarrow> scheduler result" where
  "activate_worker w s =
     res_bind (pa_remove (w_id (s_workers s w)) (s_cached s)) (\<lambda>cac.
       Inr (s\<lparr>s_cached := cac, s_active := pa_put (w_id (s_workers s w)) w (s_active s)\<rparr>))"

definition is_worker_set_full :: "scheduler \<Rightarrow> bool" where
  "is_worker_set_full s \<longleftrightarrow> s_num_slot s \<le> int (length (s_active s) + length (s_cached s))"

text \<open>\<open>component.get_manifest()\<close>, called by the scheduler for its value.\<close>

definition component_manifest :: "sched_env \<Rightarrow> nat \<Rightarrow> manifest result" where
  "component_manifest E c =
     res_bind (get_manifest 0 (se_world E) False (se_comp E c) (se_process E)) (\<lambda>(m, _, _). Inr m)"

definition is_compatible :: "sched_env \<Rightarrow> scheduler \<Rightarrow> nat \<Rightarrow> nat \<Rightarrow> bool result" where
  "is_compatible E s w c =
     (case w_manifest (s_workers s w) of
        None \<Rightarrow> Inr False
      | Some m \<Rightarrow>
          res_bind (component_manifest E c) (\<lambda>cm.
            if m_name m = m_name cm \<and> v_addr (m_version m) = v_addr (m_version cm) then Inr True
            else if packages_hash (se_sha256 E) m = packages_hash (se_sha256 E) cm then Inr True
            else if f_disable_l3 (se_flags E) then Inr False
            else Inr (list_all (\<lambda>(p, v). od_get (m_packages m) p = Some v) (m_packages cm))))"

definition record_last_executed_component :: "sched_env \<Rightarrow> nat \<Rightarrow> nat \<Rightarrow> scheduler \<Rightarrow> scheduler result" where
  "record_last_executed_component E w c s =
     (case w_manifest (s_workers s w) of
        None \<Rightarrow> Inr s
      | Some m \<Rightarrow>
          res_bind (component_manifest E c) (\<lambda>cm.
          res_bind (from_version_str (version_str (v_val (m_version cm)))) (\<lambda>v.
            Inr (s\<lparr>s_workers := (s_workers s)(w := (s_workers s w)\<lparr>w_manifest :=
                     Some (m\<lparr>m_name := m_name cm, m_version := \<lparr>v_addr = s_next_addr s, v_val = v\<rparr>\<rparr>)\<rparr>),
                   s_next_addr := Suc (s_next_addr s)\<rparr>))))"

text \<open>
  The command line of a new worker, as \<^verbatim>\<open>format(...).split()\<close> leaves it, and its execution over SSH
  (or, on a dry run, in the log).
\<close>

definition flag_text :: "configuration \<Rightarrow> string \<Rightarrow> string \<Rightarrow> string \<Rightarrow> string result" where
  "flag_text cf section key text = res_bind (conf_getboolean cf section key) (\<lambda>b. Inr (if b then text else []))"

definition new_worker_command :: "configuration \<Rightarrow> string \<Rightarrow> string list result" where
  "new_worker_command cf uid =
     res_bind (env_temp_path cf) (\<lambda>temp.
     let temp_file_name = path_join temp (uid @ ''.log'');
         section_name = (if is_sgx_enabled cf then ''worker_sgx'' else ''worker'')
     in res_bind (flag_text cf ''log'' ''log_encfs'' ''SECCASK_DEBUG_ENCFS=1 '') (\<lambda>encfs.
        res_bind (flag_text cf ''log'' ''log_io'' ''SECCASK_PROFILE_IO=1 '') (\<lambda>io.
        res_bind (flag_text cf ''log'' ''log_time'' ''/usr/bin/time -v '') (\<lambda>time.
        res_bind (conf_get cf section_name ''gramine_path'') (\<lambda>gramine.
        res_bind (conf_get cf section_name ''gramine_manifest_path'') (\<lambda>gmanifest.
        res_bind (if is_sgx_enabled cf then conf_getboolean cf ''ratls'' ''enable'' else Inr False) (\<lambda>ratls.
        res_bind (conf_get cf ''coordinator'' ''worker_manager_port'') (\<lambda>port.
        Inr (split_ws (''{ env PYTHONDONTWRITEBYTECODE=1 '' @ encfs @ io @ time @ ''env '' @ gramine @ '' ''
          @ gmanifest @ '' --worker --mode='' @ (if ratls then ''ratls'' else ''tls'') @ '' --id='' @ uid
          @ '' -P'' @ port @ '' ; } > '' @ temp_file_name @ '' 2>&1'')))))))))) "

definition execute_new_worker_command :: "sched_env \<Rightarrow> string \<Rightarrow> scheduler \<Rightarrow> scheduler result" where
  "execute_new_worker_command E uid s =
     res_bind (new_worker_command (se_conf E) uid) (\<lambda>cmds.
       Inr (emit (if f_dry_run (se_flags E) then DryRun (str_join '' '' cmds)
                  else NewWorkerCommand (str_join '' '' cmds)) s))"

text \<open>The loop over the cached workers: the first that may be reused.\<close>

fun find_cached :: "sched_env \<Rightarrow> scheduler \<Rightarrow> nat \<Rightarrow> nat list \<Rightarrow> nat option result" where
  "find_cached E s c [] = Inr None"
| "find_cached E s c (w # ws) =
     (if f_singleton (se_flags E) then Inr (Some w)
      else if f_check_caching (se_flags E) then
        res_bind (is_compatible E s w c) (\<lambda>b. if b then Inr (Some w) else find_cached E s c ws)
      else find_cached E s c ws)"

definition get_compatible_worker_sync :: "sched_env \<Rightarrow> string \<Rightarrow> nat \<Rightarrow> scheduler \<Rightarrow> scheduler result" where
  "get_compatible_worker_sync E uid c s =
     res_bind (find_cached E s c (od_values (s_cached s))) (\<lambda>found.
     case found of
       Some w \<Rightarrow>
         res_bind (activate_worker w s) (\<lambda>s1.
         res_bind (record_last_executed_component E w c s1) (\<lambda>s2.
           Inr (emit (WorkerFound (w_id (s_workers s2 w))) s2)))
     | None \<Rightarrow>
         if s_num_slot s \<le> int (length (s_active s)) then Inl WorkerPoolFull
         else
           res_bind
             (if is_worker_set_full s then
                res_bind (pa_remove_end (s_workers s) (component_manifest E c) (s_cached s)) (\<lambda>(w, cac).
                  Inr (emit (CacheFull (w_id (s_workers s w))) (s\<lparr>s_cached := cac\<rparr>)))
              else Inr s) (\<lambda>s1.
           res_bind (execute_new_worker_command E uid s1) (\<lambda>s2.
             Inr (s2\<lparr>s_waiting := (if c \<in> set (s_waiting s2) then s_waiting s2 else s_waiting s2 @ [c])\<rparr>))))"

text \<open>
  The loop of \<open>on_worker_ready\<close>: \<open>order\<close> is the order in which the set of waiting components is
  visited.
\<close>

fun find_waiting :: "sched_env \<Rightarrow> scheduler \<Rightarrow> nat \<Rightarrow> nat list \<Rightarrow> nat option result" where
  "find_waiting E s w [] = Inr None"
| "find_waiting E s w (c # cs) =
     (if f_check_new (se_flags E) then
        res_bind (is_compatible E s w c) (\<lambda>b. if b then Inr (Some c) else find_waiting E s w cs)
      else Inr (Some c))"

definition on_worker_ready :: "sched_env \<Rightarrow> nat list \<Rightarrow> nat \<Rightarrow> scheduler \<Rightarrow> scheduler result" where
  "on_worker_ready E order w s =
     (let s1 = s\<lparr>s_cached := pa_put (w_id (s_workers s w)) w (s_cached s)\<rparr>
      in res_bind (find_waiting E s1 w order) (\<lambda>found.
         case found of
           None \<Rightarrow> Inr s1
         | Some c \<Rightarrow>
             let s2 = s1\<lparr>s_waiting := remove1 c (s_waiting s1), s_new := remove1 w (s_new s1)\<rparr>
             in res_bind (activate_worker w s2) (\<lambda>s3.
                res_bind (record_last_executed_component E w c s3) (\<lambda>s4.
                  Inr (emit (ComponentFound c) s4)))))"

definition pool_info_dict :: "sched_env \<Rightarrow> scheduler \<Rightarrow> (string, json) odict result" where
  "pool_info_dict E s =
     res_bind (res_map (\<lambda>w. info_dict (se_sha256 E) (s_workers s w)) (od_values (s_active s))) (\<lambda>act.
     res_bind (res_map (\<lambda>w. info_dict (se_sha256 E) (s_workers s w)) (od_values (s_cached s))) (\<lambda>cac.
       Inr [(''active'', JList (map JObj act)), (''cached'', JList (map JObj cac))]))"

text \<open>\<open>close\<close>: \<open>exit\<close> of a \<open>WorkerConnectionInfo\<close> is not implemented.\<close>

definition scheduler_close :: "scheduler \<Rightarrow> unit result" where
  "scheduler_close s =
     res_bind (res_map (\<lambda>w. connection_info_call (s_workers s w)) (od_values (s_cached s) @ od_values (s_active s)))
       (\<lambda>_. Inr ())"

end
