(* ===== verification/SchedulerProps.thy ===== *)
theory SchedulerProps
  imports Scheduler
begin

text \<open>
  What the scheduler promises: when a worker is compatible, which worker a component gets, that
  the two caches stay disjoint and keyed by the workers' own identifiers, that no operation
  fails on a well-formed pool but with \<open>WorkerPoolFull\<close>, and that the pool never outgrows its slots.
\<close>

section \<open>Well-formed pools\<close>

definition pool :: "scheduler \<Rightarrow> (string \<times> nat) set" where
  "pool s = set (s_active s) \<union> set (s_cached s)"

definition wf_pool :: "scheduler \<Rightarrow> bool" where
  "wf_pool s \<longleftrightarrow> distinct (od_keys (s_active s)) \<and> distinct (od_keys (s_cached s))
     \<and> set (od_keys (s_active s)) \<inter> set (od_keys (s_cached s)) = {}
     \<and> (\<forall>(k, w) \<in> pool s. w_id (s_workers s w) = k)
     \<and> distinct (s_waiting s)"

definition pool_size :: "scheduler \<Rightarrow> nat" where
  "pool_size s = length (s_active s) + length (s_cached s)"

lemma wf_poolD:
  assumes "wf_pool s"
  shows "distinct (od_keys (s_active s))" and "distinct (od_keys (s_cached s))"
    and "set (od_keys (s_active s)) \<inter> set (od_keys (s_cached s)) = {}"
    and "\<And>k w. (k, w) \<in> set (s_active s) \<Longrightarrow> w_id (s_workers s w) = k"
    and "\<And>k w. (k, w) \<in> set (s_cached s) \<Longrightarrow> w_id (s_workers s w) = k"
    and "distinct (s_waiting s)"
  using assms by (auto simp: wf_pool_def pool_def)

text \<open>Fields the pool does not depend on, and workers that keep their identifiers.\<close>

lemma wf_pool_cong:
  assumes "wf_pool s" and "s_active s' = s_active s" and "s_cached s' = s_cached s"
    and "\<And>w. w_id (s_workers s' w) = w_id (s_workers s w)" and "distinct (s_waiting s')"
  shows "wf_pool s'" and "pool_size s' = pool_size s"
  using assms by (auto simp: wf_pool_def pool_def pool_size_def)

lemma emit_simps [simp]:
  "s_active (emit e s) = s_active s" "s_cached (emit e s) = s_cached s" "s_new (emit e s) = s_new s"
  "s_num_slot (emit e s) = s_num_slot s" "s_waiting (emit e s) = s_waiting s"
  "s_workers (emit e s) = s_workers s" "s_next_addr (emit e s) = s_next_addr s"
  "s_effects (emit e s) = s_effects s @ [e]"
  by (simp_all add: emit_def)

lemma wf_pool_emit [simp]: "wf_pool (emit e s) = wf_pool s"
  by (simp add: wf_pool_def pool_def)

lemma pool_size_emit [simp]: "pool_size (emit e s) = pool_size s"
  by (simp add: pool_size_def)

lemma wf_pool_init: "wf_pool (scheduler_init n heap)"
  by (simp add: wf_pool_def pool_def scheduler_init_def od_keys_def)

lemma wf_pool_add_new: "wf_pool (add_new_worker w s) = wf_pool s"
  by (simp add: wf_pool_def pool_def add_new_worker_def)

subsection \<open>Moving workers\<close>

lemma in_values_key: "w \<in> set (od_values d) \<longleftrightarrow> (\<exists>k. (k, w) \<in> set d)"
  by (force simp: od_values_def)

lemma pac_keyD: "(k, w) \<in> set d \<Longrightarrow> k \<in> set (od_keys d)"
  by (force simp: od_keys_def)

text \<open>Activating a cached worker always succeeds and puts it last among the active ones.\<close>

lemma activate_worker_ok:
  assumes wf: "wf_pool s" and w: "w \<in> set (od_values (s_cached s))"
  shows "activate_worker w s = Inr (s\<lparr>s_cached := od_del (w_id (s_workers s w)) (s_cached s),
       s_active := s_active s @ [(w_id (s_workers s w), w)]\<rparr>)"
    and "wf_pool (s\<lparr>s_cached := od_del (w_id (s_workers s w)) (s_cached s),
       s_active := s_active s @ [(w_id (s_workers s w), w)]\<rparr>)"
    and "pool_size (s\<lparr>s_cached := od_del (w_id (s_workers s w)) (s_cached s),
       s_active := s_active s @ [(w_id (s_workers s w), w)]\<rparr>) = pool_size s"
proof -
  let ?k = "w_id (s_workers s w)"
  have kw: "(?k, w) \<in> set (s_cached s)" using w wf_poolD(5) [OF wf] by (auto simp: in_values_key)
  then have k: "?k \<in> set (od_keys (s_cached s))" by (rule pac_keyD)
  then have na: "?k \<notin> set (od_keys (s_active s))" using wf_poolD(3) [OF wf] by blast
  then have put: "pa_put ?k w (s_active s) = s_active s @ [(?k, w)]"
    by (simp add: pac.put_eq od_del_idem)
  show "activate_worker w s = Inr (s\<lparr>s_cached := od_del ?k (s_cached s), s_active := s_active s @ [(?k, w)]\<rparr>)"
    using k by (simp add: activate_worker_def pac.remove_eq put)
  show "wf_pool (s\<lparr>s_cached := od_del ?k (s_cached s), s_active := s_active s @ [(?k, w)]\<rparr>)"
    using wf na wf_poolD(2) [OF wf]
    by (auto simp: wf_pool_def pool_def od_simps set_od_del)
  show "pool_size (s\<lparr>s_cached := od_del ?k (s_cached s), s_active := s_active s @ [(?k, w)]\<rparr>) = pool_size s"
    using length_od_del_present [OF wf_poolD(2) [OF wf] k] by (simp add: pool_size_def)
qed

lemma cache_worker_ok:
  assumes wf: "wf_pool s" and w: "w \<in> set (od_values (s_active s))"
  shows "cache_worker w s = Inr (s\<lparr>s_active := od_del (w_id (s_workers s w)) (s_active s),
       s_cached := s_cached s @ [(w_id (s_workers s w), w)]\<rparr>)"
    and "wf_pool (s\<lparr>s_active := od_del (w_id (s_workers s w)) (s_active s),
       s_cached := s_cached s @ [(w_id (s_workers s w), w)]\<rparr>)"
    and "pool_size (s\<lparr>s_active := od_del (w_id (s_workers s w)) (s_active s),
       s_cached := s_cached s @ [(w_id (s_workers s w), w)]\<rparr>) = pool_size s"
proof -
  let ?k = "w_id (s_workers s w)"
  have kw: "(?k, w) \<in> set (s_active s)" using w wf_poolD(4) [OF wf] by (auto simp: in_values_key)
  then have k: "?k \<in> set (od_keys (s_active s))" by (rule pac_keyD)
  then have na: "?k \<notin> set (od_keys (s_cached s))" using wf_poolD(3) [OF wf] by blast
  then have put: "pa_put ?k w (s_cached s) = s_cached s @ [(?k, w)]"
    by (simp add: pac.put_eq od_del_idem)
  show "cache_worker w s = Inr (s\<lparr>s_active := od_del ?k (s_active s), s_cached := s_cached s @ [(?k, w)]\<rparr>)"
    using k by (simp add: cache_worker_def pac.remove_eq put)
  show "wf_pool (s\<lparr>s_active := od_del ?k (s_active s), s_cached := s_cached s @ [(?k, w)]\<rparr>)"
    using wf na wf_poolD(1) [OF wf]
    by (auto simp: wf_pool_def pool_def od_simps set_od_del)
  show "pool_size (s\<lparr>s_active := od_del ?k (s_active s), s_cached := s_cached s @ [(?k, w)]\<rparr>) = pool_size s"
    using length_od_del_present [OF wf_poolD(1) [OF wf] k] by (simp add: pool_size_def)
qed

text \<open>A worker that is not active cannot be cached: the removal raises.\<close>

lemma cache_worker_absent:
  "w_id (s_workers s w) \<notin> set (od_keys (s_active s)) \<Longrightarrow> cache_worker w s = Inl KeyError"
  by (simp add: cache_worker_def pac.remove_eq)

section \<open>Components with a loaded manifest\<close>

definition component_ready :: "sched_env \<Rightarrow> nat \<Rightarrow> manifest \<Rightarrow> bool" where
  "component_ready E c cm \<longleftrightarrow> c_path (se_comp E c) \<noteq> None \<and> c_manifest (se_comp E c) = Some cm
     \<and> wf_version (v_val (m_version cm))"

lemma component_manifest_ready [simp]: "component_ready E c cm \<Longrightarrow> component_manifest E c = Inr cm"
  by (auto simp: component_ready_def component_manifest_def get_manifest_loaded)

text \<open>Recording what a worker runs changes its name and version and nothing else.\<close>

definition record_run :: "manifest \<Rightarrow> nat \<Rightarrow> scheduler \<Rightarrow> scheduler" where
  "record_run cm w s =
     (case w_manifest (s_workers s w) of
        None \<Rightarrow> s
      | Some m \<Rightarrow> s\<lparr>s_workers := (s_workers s)(w := (s_workers s w)\<lparr>w_manifest :=
            Some (m\<lparr>m_name := m_name cm, m_version := \<lparr>v_addr = s_next_addr s, v_val = v_val (m_version cm)\<rparr>\<rparr>)\<rparr>),
          s_next_addr := Suc (s_next_addr s)\<rparr>)"

lemma record_last_executed_ready:
  "component_ready E c cm \<Longrightarrow> record_last_executed_component E w c s = Inr (record_run cm w s)"
  by (auto simp: record_last_executed_component_def record_run_def component_ready_def
      from_version_str_roundtrip split: option.splits)

lemma record_run_simps [simp]:
  "s_active (record_run cm w s) = s_active s" "s_cached (record_run cm w s) = s_cached s"
  "s_new (record_run cm w s) = s_new s" "s_num_slot (record_run cm w s) = s_num_slot s"
  "s_waiting (record_run cm w s) = s_waiting s" "s_effects (record_run cm w s) = s_effects s"
  "w_id (s_workers (record_run cm w s) v) = w_id (s_workers s v)"
  "(w_manifest (s_workers (record_run cm w s) v) = None) = (w_manifest (s_workers s v) = None)"
  by (auto simp: record_run_def split: option.splits)

lemma wf_pool_record_run [simp]: "wf_pool (record_run cm w s) = wf_pool s"
  by (simp add: wf_pool_def pool_def)

lemma pool_size_record_run [simp]: "pool_size (record_run cm w s) = pool_size s"
  by (simp add: pool_size_def)

section \<open>Compatibility\<close>

text \<open>Two different packages, or the same at two versions, are what makes a worker incompatible.\<close>

definition packages_within :: "manifest \<Rightarrow> manifest \<Rightarrow> bool" where
  "packages_within cm m \<longleftrightarrow> od_get (m_packages cm) \<subseteq>\<^sub>m od_get (m_packages m)"

lemma list_all_packages:
  "distinct (od_keys (m_packages cm)) \<Longrightarrow>
     list_all (\<lambda>(p, v). od_get (m_packages m) p = Some v) (m_packages cm) \<longleftrightarrow> packages_within cm m"
proof -
  assume d: "distinct (od_keys (m_packages cm))"
  have "packages_within cm m \<longleftrightarrow> (\<forall>p v. od_get (m_packages cm) p = Some v \<longrightarrow> od_get (m_packages m) p = Some v)"
    by (auto simp: packages_within_def map_le_def dom_def)
  also have "\<dots> \<longleftrightarrow> (\<forall>(p, v) \<in> set (m_packages cm). od_get (m_packages m) p = Some v)"
    using d by (auto simp: od_get_Some_iff)
  finally show ?thesis by (simp add: list_all_iff)
qed

definition same_version_object :: "manifest \<Rightarrow> manifest \<Rightarrow> bool" where
  "same_version_object m cm \<longleftrightarrow> m_name m = m_name cm \<and> v_addr (m_version m) = v_addr (m_version cm)"

lemma is_compatible_ready:
  assumes "w_manifest (s_workers s w) = Some m" and "component_ready E c cm"
    and "distinct (od_keys (m_packages m))" and "distinct (od_keys (m_packages cm))"
    and "se_sha256 E (hash_preimage m) = se_sha256 E (hash_preimage cm) \<Longrightarrow> hash_preimage m = hash_preimage cm"
  shows "is_compatible E s w c =
     Inr (same_version_object m cm
          \<or> (if f_disable_l3 (se_flags E)
             then m_name m = m_name cm \<and> od_get (m_packages m) = od_get (m_packages cm)
             else packages_within cm m))"
proof -
  have hash: "packages_hash (se_sha256 E) m = packages_hash (se_sha256 E) cm \<longleftrightarrow>
      m_name m = m_name cm \<and> od_get (m_packages m) = od_get (m_packages cm)"
    by (rule packages_hash_eq) (fact assms)+
  have "od_get (m_packages m) = od_get (m_packages cm) \<Longrightarrow> packages_within cm m"
    by (simp add: packages_within_def)
  then show ?thesis
    using assms(1,2) hash
    by (auto simp: is_compatible_def same_version_object_def list_all_packages [OF assms(4)])
qed

lemma is_compatible_total: "component_ready E c cm \<Longrightarrow> \<exists>b. is_compatible E s w c = Inr b"
  by (auto simp: is_compatible_def split: option.splits)

section \<open>Looking for a worker\<close>

definition reusable :: "sched_env \<Rightarrow> scheduler \<Rightarrow> nat \<Rightarrow> nat \<Rightarrow> bool" where
  "reusable E s c w \<longleftrightarrow> f_singleton (se_flags E)
     \<or> f_check_caching (se_flags E) \<and> is_compatible E s w c = Inr True"

lemma find_cached_find:
  "component_ready E c cm \<Longrightarrow> find_cached E s c ws = Inr (find (reusable E s c) ws)"
proof (induction ws)
  case (Cons w ws)
  then show ?case using is_compatible_total [OF Cons.prems, of s w] by (auto simp: reusable_def)
qed simp

lemma find_waiting_find:
  "\<forall>c \<in> set cs. \<exists>cm. component_ready E c cm \<Longrightarrow>
     find_waiting E s w cs = Inr (find (\<lambda>c. f_check_new (se_flags E) \<longrightarrow> is_compatible E s w c = Inr True) cs)"
proof (induction cs)
  case (Cons c cs)
  then obtain cm where "component_ready E c cm" by auto
  from is_compatible_total [OF this, of s w] Cons show ?case by auto
qed simp

text \<open>The state after a reuse, and after the start of a new worker.\<close>

definition reuse_worker :: "manifest \<Rightarrow> nat \<Rightarrow> scheduler \<Rightarrow> scheduler" where
  "reuse_worker cm w s =
     emit (WorkerFound (w_id (s_workers s w)))
       (record_run cm w (s\<lparr>s_cached := od_del (w_id (s_workers s w)) (s_cached s),
          s_active := s_active s @ [(w_id (s_workers s w), w)]\<rparr>))"

definition start_effect :: "sched_env \<Rightarrow> string list \<Rightarrow> effect" where
  "start_effect E cmds = (if f_dry_run (se_flags E) then DryRun (str_join '' '' cmds) else NewWorkerCommand (str_join '' '' cmds))"

definition start_worker :: "sched_env \<Rightarrow> string list \<Rightarrow> nat \<Rightarrow> scheduler \<Rightarrow> scheduler" where
  "start_worker E cmds c s =
     (emit (start_effect E cmds) s)\<lparr>s_waiting := (if c \<in> set (s_waiting s) then s_waiting s else s_waiting s @ [c])\<rparr>"

definition evict_worker :: "nat \<Rightarrow> scheduler \<Rightarrow> scheduler" where
  "evict_worker w s =
     emit (CacheFull (w_id (s_workers s w))) (s\<lparr>s_cached := od_del (w_id (s_workers s w)) (s_cached s)\<rparr>)"

lemma reuse_worker_wf:
  assumes "wf_pool s" and "w \<in> set (od_values (s_cached s))"
  shows "wf_pool (reuse_worker cm w s)" and "pool_size (reuse_worker cm w s) = pool_size s"
  using activate_worker_ok(2,3) [OF assms] by (simp_all add: reuse_worker_def)

lemma start_worker_wf:
  assumes "wf_pool s"
  shows "wf_pool (start_worker E cmds c s)" and "pool_size (start_worker E cmds c s) = pool_size s"
  using wf_pool_cong [OF assms, of "start_worker E cmds c s"] wf_poolD(6) [OF assms]
  by (simp_all add: start_worker_def)

lemma evict_worker_wf:
  assumes "wf_pool s" and "w \<in> set (od_values (s_cached s))"
  shows "wf_pool (evict_worker w s)" and "Suc (pool_size (evict_worker w s)) = pool_size s"
proof -
  let ?k = "w_id (s_workers s w)"
  have k: "?k \<in> set (od_keys (s_cached s))"
    using assms wf_poolD(5) [OF assms(1)] pac_keyD by (fastforce simp: in_values_key)
  show "wf_pool (evict_worker w s)"
    using assms(1) wf_poolD(2) [OF assms(1)]
    by (auto simp: evict_worker_def wf_pool_def pool_def od_simps set_od_del)
  show "Suc (pool_size (evict_worker w s)) = pool_size s"
    using length_od_del_present [OF wf_poolD(2) [OF assms(1)] k] by (simp add: evict_worker_def pool_size_def)
qed

text \<open>The whole operation, branch by branch.\<close>

lemma get_compatible_reuse_eq:
  assumes "wf_pool s" and "component_ready E c cm"
    and "find (reusable E s c) (od_values (s_cached s)) = Some w"
  shows "get_compatible_worker_sync E uid c s = Inr (reuse_worker cm w s)"
proof -
  have "w \<in> set (od_values (s_cached s))" using assms(3) by (auto simp: find_Some_iff)
  from activate_worker_ok(1) [OF assms(1) this] show ?thesis
    by (simp add: get_compatible_worker_sync_def find_cached_find [OF assms(2)] assms(3)
        record_last_executed_ready [OF assms(2)] reuse_worker_def)
qed

lemma get_compatible_full_eq:
  assumes "component_ready E c cm" and "find (reusable E s c) (od_values (s_cached s)) = None"
    and "s_num_slot s \<le> int (length (s_active s))"
  shows "get_compatible_worker_sync E uid c s = Inl WorkerPoolFull"
  using assms by (simp add: get_compatible_worker_sync_def find_cached_find)

lemma get_compatible_start_eq:
  assumes "component_ready E c cm" and "find (reusable E s c) (od_values (s_cached s)) = None"
    and "int (pool_size s) < s_num_slot s" and "new_worker_command (se_conf E) uid = Inr cmds"
  shows "get_compatible_worker_sync E uid c s = Inr (start_worker E cmds c s)"
  using assms
  by (simp add: get_compatible_worker_sync_def find_cached_find is_worker_set_full_def pool_size_def
      execute_new_worker_command_def start_worker_def start_effect_def)

lemma get_compatible_evict_eq:
  assumes wf: "wf_pool s" and "component_ready E c cm"
    and "find (reusable E s c) (od_values (s_cached s)) = None"
    and "int (length (s_active s)) < s_num_slot s" and "s_num_slot s \<le> int (pool_size s)"
    and "new_worker_command (se_conf E) uid = Inr cmds"
  obtains w where "w \<in> set (od_values (s_cached s))"
    and "pa_remove_end (s_workers s) (Inr cm) (s_cached s) = Inr (w, od_del (w_id (s_workers s w)) (s_cached s))"
    and "get_compatible_worker_sync E uid c s = Inr (start_worker E cmds c (evict_worker w s))"
proof -
  have "s_cached s \<noteq> []" using assms(4,5) by (auto simp: pool_size_def)
  from pac.remove_end_some [OF this wf_poolD(2) [OF wf], of "s_workers s" cm] obtain k w where
    kw: "(k, w) \<in> set (s_cached s)" and
    rem: "pa_remove_end (s_workers s) (Inr cm) (s_cached s) = Inr (w, od_del k (s_cached s))" by blast
  have k: "w_id (s_workers s w) = k" using wf_poolD(5) [OF wf kw] .
  show thesis
  proof (rule that)
    show "w \<in> set (od_values (s_cached s))" using kw by (auto simp: in_values_key)
    show "pa_remove_end (s_workers s) (Inr cm) (s_cached s) = Inr (w, od_del (w_id (s_workers s w)) (s_cached s))"
      using rem k by simp
    show "get_compatible_worker_sync E uid c s = Inr (start_worker E cmds c (evict_worker w s))"
      using assms(2-6) rem k
      by (simp add: get_compatible_worker_sync_def find_cached_find is_worker_set_full_def pool_size_def
          execute_new_worker_command_def start_worker_def start_effect_def evict_worker_def emit_def)
  qed
qed

text \<open>
  C7 (functional behaviour). A component gets the least recently used cached worker that may run it, when there is one: that
  worker becomes the most recent active one, takes over the component's name and version number
  (in a new version object) and is reported to the caller; nobody else moves, no worker is started
  and the pool stays well-formed.
\<close>

theorem get_compatible_reuses_first:
  assumes "wf_pool s" and "component_ready E c cm"
    and "od_values (s_cached s) = older @ w # newer"
    and "\<forall>v \<in> set older. \<not> reusable E s c v" and "reusable E s c w"
    and "w_manifest (s_workers s w) = Some m"
  shows "\<exists>s'. get_compatible_worker_sync E uid c s = Inr s' \<and> wf_pool s'
     \<and> od_values (s_cached s') = older @ newer
     \<and> s_active s' = s_active s @ [(w_id (s_workers s w), w)]
     \<and> w_manifest (s_workers s' w) = Some (m\<lparr>m_name := m_name cm,
          m_version := \<lparr>v_addr = s_next_addr s, v_val = v_val (m_version cm)\<rparr>\<rparr>)
     \<and> s_waiting s' = s_waiting s
     \<and> s_effects s' = s_effects s @ [WorkerFound (w_id (s_workers s w))]"
proof -
  have "find (reusable E s c) (older @ w # newer) = Some w"
    using assms(4,5) by (induction older) auto
  then have get: "get_compatible_worker_sync E uid c s = Inr (reuse_worker cm w s)"
    using assms(1-3) by (intro get_compatible_reuse_eq) simp_all
  have w: "w \<in> set (od_values (s_cached s))" using assms(3) by simp
  let ?k = "w_id (s_workers s w)"
  obtain c1 kv c2 where c: "s_cached s = c1 @ kv # c2" "od_values c1 = older" "snd kv = w" "od_values c2 = newer"
    using assms(3) by (auto simp: od_values_def map_eq_append_conv map_eq_Cons_conv)
  then have "(fst kv, w) \<in> set (s_cached s)" by (cases kv) auto
  then have k: "fst kv = ?k" using wf_poolD(5) [OF assms(1)] by simp
  have "od_del ?k (s_cached s) = c1 @ c2"
    using wf_poolD(2) [OF assms(1)] k c(1) by (auto simp: od_simps od_del_idem od_keys_def)
  then have "od_values (od_del ?k (s_cached s)) = older @ newer" using c by (simp add: od_values_def)
  then show ?thesis
    using get assms(6) reuse_worker_wf(1) [OF assms(1) w, of cm]
    by (simp add: reuse_worker_def record_run_def)
qed

lemma get_compatible_errors:
  assumes "wf_pool s" and "component_ready E c cm" and "new_worker_command (se_conf E) uid = Inr cmds"
  shows "get_compatible_worker_sync E uid c s = Inl e \<longleftrightarrow>
     e = WorkerPoolFull \<and> s_num_slot s \<le> int (length (s_active s))
     \<and> (\<forall>w \<in> set (od_values (s_cached s)). \<not> reusable E s c w)"
proof (cases "find (reusable E s c) (od_values (s_cached s))")
  case (Some w)
  then have "w \<in> set (od_values (s_cached s))" "reusable E s c w" by (auto simp: find_Some_iff)
  with get_compatible_reuse_eq [OF assms(1,2) Some, of uid] show ?thesis by auto
next
  case None
  then have none: "\<forall>w \<in> set (od_values (s_cached s)). \<not> reusable E s c w" by (simp add: find_None_iff)
  consider "s_num_slot s \<le> int (length (s_active s))" | "int (pool_size s) < s_num_slot s"
    | "int (length (s_active s)) < s_num_slot s" "s_num_slot s \<le> int (pool_size s)" by linarith
  then show ?thesis
  proof cases
    case 1
    with get_compatible_full_eq [OF assms(2) None] none show ?thesis by auto
  next
    case 2
    then have "int (length (s_active s)) < s_num_slot s" by (simp add: pool_size_def)
    with get_compatible_start_eq [OF assms(2) None 2 assms(3)] show ?thesis by simp
  next
    case 3
    with get_compatible_evict_eq [OF assms(1,2) None 3 assms(3)] show ?thesis by (metis Inl_Inr_False not_less)
  qed
qed

text \<open>
  C8 (error behaviour). On a well-formed pool and a component with a loaded manifest, \<open>WorkerPoolFull\<close> is the only
  exception, and it is raised exactly when no cached worker may be reused and the active workers
  already fill the slots; in particular the eviction never finds an empty cache.
\<close>

theorem get_compatible_error_iff:
  assumes "wf_pool s" and "component_ready E c cm" and "new_worker_command (se_conf E) uid = Inr cmds"
  shows "get_compatible_worker_sync E uid c s = Inl e \<longleftrightarrow>
     e = WorkerPoolFull \<and> s_num_slot s \<le> int (length (s_active s))
     \<and> (\<forall>w \<in> set (od_values (s_cached s)). \<not> reusable E s c w)"
  using assms by (rule get_compatible_errors)

section \<open>The pool stays within its slots\<close>

fun is_start :: "effect \<Rightarrow> bool" where
  "is_start (NewWorkerCommand _) = True"
| "is_start (DryRun _) = True"
| "is_start _ = False"

definition starts :: "scheduler \<Rightarrow> nat" where
  "starts s = length (filter is_start (s_effects s))"

lemma starts_emit [simp]: "starts (emit e s) = starts s + (if is_start e then 1 else 0)"
  by (simp add: starts_def)

lemma starts_simps [simp]:
  "starts (reuse_worker cm w s) = starts s" "starts (evict_worker w s) = starts s"
  "starts (start_worker E cmds c s) = Suc (starts s)"
  by (simp_all add: starts_def reuse_worker_def evict_worker_def start_worker_def start_effect_def)

lemma start_worker_simps [simp]:
  "s_active (start_worker E cmds c s) = s_active s" "s_cached (start_worker E cmds c s) = s_cached s"
  "s_new (start_worker E cmds c s) = s_new s" "s_num_slot (start_worker E cmds c s) = s_num_slot s"
  "s_workers (start_worker E cmds c s) = s_workers s"
  "s_waiting (start_worker E cmds c s) = (if c \<in> set (s_waiting s) then s_waiting s else s_waiting s @ [c])"
  "s_effects (start_worker E cmds c s) = s_effects s @ [start_effect E cmds]"
  by (simp_all add: start_worker_def)

lemma evict_worker_simps [simp]:
  "s_active (evict_worker w s) = s_active s"
  "s_cached (evict_worker w s) = od_del (w_id (s_workers s w)) (s_cached s)"
  "s_new (evict_worker w s) = s_new s" "s_num_slot (evict_worker w s) = s_num_slot s"
  "s_workers (evict_worker w s) = s_workers s" "s_waiting (evict_worker w s) = s_waiting s"
  "s_effects (evict_worker w s) = s_effects s @ [CacheFull (w_id (s_workers s w))]"
  by (simp_all add: evict_worker_def)

lemma reuse_worker_simps [simp]:
  "s_active (reuse_worker cm w s) = s_active s @ [(w_id (s_workers s w), w)]"
  "s_cached (reuse_worker cm w s) = od_del (w_id (s_workers s w)) (s_cached s)"
  "s_new (reuse_worker cm w s) = s_new s" "s_num_slot (reuse_worker cm w s) = s_num_slot s"
  "s_waiting (reuse_worker cm w s) = s_waiting s"
  "s_effects (reuse_worker cm w s) = s_effects s @ [WorkerFound (w_id (s_workers s w))]"
  "w_id (s_workers (reuse_worker cm w s) v) = w_id (s_workers s v)"
  "(w_manifest (s_workers (reuse_worker cm w s) v) = None) = (w_manifest (s_workers s v) = None)"
  by (simp_all add: reuse_worker_def)

text \<open>Every successful call is one of three: reuse, start, or evict and start.\<close>

lemma get_compatible_cases [consumes 4, case_names reuse start evict]:
  assumes "wf_pool s" and "component_ready E c cm" and "new_worker_command (se_conf E) uid = Inr cmds"
    and "get_compatible_worker_sync E uid c s = Inr s'"
  obtains w where "find (reusable E s c) (od_values (s_cached s)) = Some w"
      and "w \<in> set (od_values (s_cached s))" and "s' = reuse_worker cm w s"
    | "find (reusable E s c) (od_values (s_cached s)) = None"
      and "int (pool_size s) < s_num_slot s" and "s' = start_worker E cmds c s"
    | w where "find (reusable E s c) (od_values (s_cached s)) = None"
      and "int (length (s_active s)) < s_num_slot s" and "s_num_slot s \<le> int (pool_size s)"
      and "w \<in> set (od_values (s_cached s))"
      and "pa_remove_end (s_workers s) (Inr cm) (s_cached s) = Inr (w, od_del (w_id (s_workers s w)) (s_cached s))"
      and "s' = start_worker E cmds c (evict_worker w s)"
proof (cases "find (reusable E s c) (od_values (s_cached s))")
  case (Some w)
  then have "w \<in> set (od_values (s_cached s))" by (auto simp: find_Some_iff)
  with Some that(1) get_compatible_reuse_eq [OF assms(1,2) Some] assms(4) show thesis by simp
next
  case None
  consider "s_num_slot s \<le> int (length (s_active s))" | "int (pool_size s) < s_num_slot s"
    | "int (length (s_active s)) < s_num_slot s" "s_num_slot s \<le> int (pool_size s)" by linarith
  then show thesis
  proof cases
    case 1
    with get_compatible_full_eq [OF assms(2) None] assms(4) show thesis by simp
  next
    case 2
    with get_compatible_start_eq [OF assms(2) None 2 assms(3)] assms(4) None that(2) show thesis by simp
  next
    case 3
    from get_compatible_evict_eq [OF assms(1,2) None 3 assms(3)] obtain w where
      "w \<in> set (od_values (s_cached s))"
      "pa_remove_end (s_workers s) (Inr cm) (s_cached s) = Inr (w, od_del (w_id (s_workers s w)) (s_cached s))"
      "get_compatible_worker_sync E uid c s = Inr (start_worker E cmds c (evict_worker w s))" by blast
    with 3 None assms(4) that(3) show thesis by simp
  qed
qed

lemma get_compatible_wf:
  assumes "wf_pool s" and "component_ready E c cm" and "new_worker_command (se_conf E) uid = Inr cmds"
    and "get_compatible_worker_sync E uid c s = Inr s'"
  shows "wf_pool s'"
    and "int (pool_size s' + starts s') \<le> max (s_num_slot s) (int (pool_size s)) + int (starts s)"
    and "s_num_slot s' = s_num_slot s"
proof -
  have "wf_pool s' \<and> int (pool_size s' + starts s') \<le> max (s_num_slot s) (int (pool_size s)) + int (starts s)
      \<and> s_num_slot s' = s_num_slot s"
    using assms
  proof (cases rule: get_compatible_cases)
    case (reuse w)
    with reuse_worker_wf [OF assms(1) reuse(2), of cm] show ?thesis by simp
  next
    case start
    with start_worker_wf [OF assms(1), of E cmds c] show ?thesis by simp
  next
    case (evict w)
    with evict_worker_wf [OF assms(1) evict(4)]
      start_worker_wf [of "evict_worker w s" E cmds c] show ?thesis by simp
  qed
  then show "wf_pool s'"
    and "int (pool_size s' + starts s') \<le> max (s_num_slot s) (int (pool_size s)) + int (starts s)"
    and "s_num_slot s' = s_num_slot s" by simp_all
qed

text \<open>
  C9 (functional behaviour). When no cached worker may be reused and a slot is not taken by an active worker, exactly one worker
  is started and the component waits. A cached worker is reclaimed only if the pool is full, the
  one the pipeline-aware policy picks, and the coordinator is told before the start; the active
  workers keep running.
\<close>

theorem get_compatible_starts_worker:
  assumes "wf_pool s" and "component_ready E c cm" and "new_worker_command (se_conf E) uid = Inr cmds"
    and "\<forall>w \<in> set (od_values (s_cached s)). \<not> reusable E s c w"
    and "int (length (s_active s)) < s_num_slot s"
  shows "\<exists>s'. get_compatible_worker_sync E uid c s = Inr s' \<and> wf_pool s' \<and> c \<in> set (s_waiting s')
     \<and> s_active s' = s_active s \<and> pool_size s' = (if is_worker_set_full s then pool_size s - 1 else pool_size s)
     \<and> (if is_worker_set_full s
        then \<exists>w. pa_remove_end (s_workers s) (Inr cm) (s_cached s) = Inr (w, s_cached s')
           \<and> s_effects s' = s_effects s @ [CacheFull (w_id (s_workers s w)), start_effect E cmds]
        else s_cached s' = s_cached s \<and> s_effects s' = s_effects s @ [start_effect E cmds])"
proof -
  obtain s' where s': "get_compatible_worker_sync E uid c s = Inr s'"
    using get_compatible_errors [OF assms(1-3)] assms(5)
    by (cases "get_compatible_worker_sync E uid c s") auto
  have none: "find (reusable E s c) (od_values (s_cached s)) = None" using assms(4) by (simp add: find_None_iff)
  from assms(1-3) s' show ?thesis
  proof (cases rule: get_compatible_cases)
    case (reuse w)
    with none show ?thesis by simp
  next
    case start
    with start_worker_wf [OF assms(1), of E cmds c] s' show ?thesis
      by (simp add: is_worker_set_full_def pool_size_def)
  next
    case (evict w)
    with evict_worker_wf [OF assms(1) evict(4)] start_worker_wf [of "evict_worker w s" E cmds c] s'
    show ?thesis by (auto simp: is_worker_set_full_def pool_size_def)
  qed
qed

section \<open>A worker becomes ready\<close>

definition ready_worker :: "nat \<Rightarrow> scheduler \<Rightarrow> scheduler" where
  "ready_worker w s = s\<lparr>s_cached := s_cached s @ [(w_id (s_workers s w), w)]\<rparr>"

definition serve_waiting :: "manifest \<Rightarrow> nat \<Rightarrow> nat \<Rightarrow> scheduler \<Rightarrow> scheduler" where
  "serve_waiting cm c w s =
     emit (ComponentFound c)
       (record_run cm w (s\<lparr>s_waiting := remove1 c (s_waiting s), s_new := remove1 w (s_new s),
          s_active := s_active s @ [(w_id (s_workers s w), w)]\<rparr>))"

definition outside_pool :: "nat \<Rightarrow> scheduler \<Rightarrow> bool" where
  "outside_pool w s \<longleftrightarrow> w_id (s_workers s w) \<notin> set (od_keys (s_active s)) \<union> set (od_keys (s_cached s))"

lemma ready_worker_wf:
  assumes "wf_pool s" and "outside_pool w s"
  shows "wf_pool (ready_worker w s)" and "pool_size (ready_worker w s) = Suc (pool_size s)"
  using assms by (auto simp: ready_worker_def wf_pool_def pool_def pool_size_def outside_pool_def od_simps)

lemma serve_waiting_wf:
  assumes "wf_pool s" and "outside_pool w s"
  shows "wf_pool (serve_waiting cm c w s)" and "pool_size (serve_waiting cm c w s) = Suc (pool_size s)"
  using assms by (auto simp: serve_waiting_def wf_pool_def pool_def pool_size_def outside_pool_def od_simps)

text \<open>The waiting component that a ready worker serves.\<close>

definition served :: "sched_env \<Rightarrow> scheduler \<Rightarrow> nat \<Rightarrow> nat \<Rightarrow> bool" where
  "served E s w c \<longleftrightarrow> (f_check_new (se_flags E) \<longrightarrow> is_compatible E s w c = Inr True)"

lemma is_compatible_cong: "s_workers s' = s_workers s \<Longrightarrow> is_compatible E s' w c = is_compatible E s w c"
  by (simp add: is_compatible_def)

lemma on_worker_ready_eq:
  assumes wf: "wf_pool s" and out: "outside_pool w s" and "set order = set (s_waiting s)"
    and ready: "\<forall>c \<in> set (s_waiting s). component_ready E c (cms c)"
  shows "on_worker_ready E order w s =
     Inr (case find (served E s w) order of
            None \<Rightarrow> ready_worker w s
          | Some c \<Rightarrow> serve_waiting (cms c) c w s)"
proof -
  let ?k = "w_id (s_workers s w)"
  let ?s1 = "s\<lparr>s_cached := s_cached s @ [(?k, w)]\<rparr>"
  have put: "pa_put ?k w (s_cached s) = s_cached s @ [(?k, w)]"
    using out by (simp add: pac.put_eq od_del_idem outside_pool_def)
  have "\<forall>c \<in> set order. \<exists>cm. component_ready E c cm" using ready assms(3) by auto
  then have found: "find_waiting E ?s1 w order = Inr (find (served E s w) order)"
    by (simp add: find_waiting_find served_def [abs_def] is_compatible_cong [of ?s1 s])
  show ?thesis
  proof (cases "find (served E s w) order")
    case None
    with found show ?thesis by (simp add: on_worker_ready_def Let_def put ready_worker_def)
  next
    case (Some c)
    then have c: "component_ready E c (cms c)" using ready assms(3) by (auto simp: find_Some_iff)
    let ?s2 = "s\<lparr>s_cached := s_cached s @ [(?k, w)], s_waiting := remove1 c (s_waiting s), s_new := remove1 w (s_new s)\<rparr>"
    have "wf_pool ?s1" using ready_worker_wf(1) [OF wf out] by (simp add: ready_worker_def)
    then have "wf_pool ?s2" using wf_poolD(6) [OF wf]
      by (intro wf_pool_cong(1) [of ?s1 ?s2]) simp_all
    from activate_worker_ok(1) [OF this, of w]
    have act: "activate_worker w ?s2 = Inr (?s2\<lparr>s_cached := od_del ?k (s_cached s @ [(?k, w)]),
        s_active := s_active s @ [(?k, w)]\<rparr>)"
      by (simp add: od_values_def)
    have "od_del ?k (s_cached s @ [(?k, w)]) = s_cached s"
      using out by (simp add: od_simps od_del_idem outside_pool_def)
    with act found Some c show ?thesis
      by (simp add: on_worker_ready_def Let_def put record_last_executed_ready serve_waiting_def)
  qed
qed


section \<open>Closing\<close>

text \<open>
  \<open>close\<close> asks the first worker to exit, which its connection record does not implement: with a
  worker in the pool it raises.
\<close>

lemma scheduler_close_fails:
  "scheduler_close s = (if s_active s = [] \<and> s_cached s = [] then Inr () else Inl NotImplementedError)"
  by (cases "s_cached s"; cases "s_active s")
    (simp_all add: scheduler_close_def connection_info_call_def od_values_def)

section \<open>Examples\<close>

definition example_flags :: sched_flags where
  "example_flags = \<lparr>f_singleton = False, f_check_caching = True, f_check_new = False, f_disable_l3 = False, f_dry_run = False\<rparr>"

definition loaded_component :: "string \<Rightarrow> manifest \<Rightarrow> component" where
  "loaded_component cid m = (example_component cid ''/lib/x'')\<lparr>c_manifest := Some m\<rparr>"

text \<open>Component 0 is an \<open>hmm\<close> that needs \<open>torch 1.10\<close>, component 1 a \<open>cnn\<close> that needs \<open>torch 1.9\<close>.\<close>

definition example_env :: sched_env where
  "example_env = \<lparr>se_sha256 = id, se_conf = example_configuration, se_flags = example_flags,
     se_world = example_world, se_process = example_process,
     se_comp = (\<lambda>c. if c = 0 then loaded_component ''c0'' (example_library ''hmm'' [(''torch'', ''1.10'')])
                      else loaded_component ''c1'' (example_library ''cnn'' [(''torch'', ''1.9'')]))\<rparr>"

definition pool_worker :: "string \<Rightarrow> string \<Rightarrow> string \<Rightarrow> worker" where
  "pool_worker wid name torch =
     \<lparr>w_id = wid, w_manifest = Some ((example_library name [(''torch'', torch), (''numpy'', ''1.21'')])
        \<lparr>m_version := \<lparr>v_addr = 5, v_val = build_zero_version\<rparr>\<rparr>)\<rparr>"

definition example_heap :: "nat \<Rightarrow> worker" where
  "example_heap = (\<lambda>w. if w = 0 then pool_worker ''a'' ''cnn'' ''1.9'' else if w = 1 then pool_worker ''b'' ''hmm'' ''1.10''
     else pool_worker ''d'' ''DUMMY'' ''1.10'')"

definition example_pool :: "int \<Rightarrow> wcache \<Rightarrow> wcache \<Rightarrow> nat list \<Rightarrow> scheduler" where
  "example_pool n act cac wait =
     \<lparr>s_active = act, s_cached = cac, s_new = [2], s_num_slot = n, s_waiting = wait, s_workers = example_heap,
      s_next_addr = 9, s_effects = []\<rparr>"

lemma example_ready:
  "component_ready example_env 0 (example_library ''hmm'' [(''torch'', ''1.10'')])"
  "component_ready example_env (Suc 0) (example_library ''cnn'' [(''torch'', ''1.9'')])"
  by (simp_all add: component_ready_def example_env_def loaded_component_def example_component_def
      example_library_def DEFAULT_VALUES_def)

lemma example_command: "\<exists>cmds. new_worker_command (se_conf example_env) ''u1'' = Inr cmds"
proof -
  have "isl (new_worker_command example_configuration ''u1'') = False" by code_simp
  then show ?thesis by (cases "new_worker_command example_configuration ''u1''") (simp_all add: example_env_def)
qed

lemma example_compatible:
  "is_compatible example_env (example_pool 2 act cac wait) 0 0 = Inr False"
  "is_compatible example_env (example_pool 2 act cac wait) (Suc 0) 0 = Inr True"
  by (simp add: is_compatible_def example_pool_def, code_simp)+

lemma get_compatible_reuses_first_witness:
  "\<exists>s'. get_compatible_worker_sync example_env ''u1'' 0 (example_pool 2 [] [(''a'', 0), (''b'', 1)] []) = Inr s'
     \<and> od_values (s_cached s') = [0] \<and> s_active s' = [(''b'', 1)]"
proof -
  let ?s = "example_pool 2 [] [(''a'', 0), (''b'', 1)] []"
  have wf: "wf_pool ?s"
    by (simp add: wf_pool_def pool_def example_pool_def od_keys_def example_heap_def pool_worker_def)
  have vals: "od_values (s_cached ?s) = [0] @ 1 # []" by (simp add: example_pool_def od_values_def)
  have no: "\<forall>v \<in> set [0]. \<not> reusable example_env ?s 0 v"
    by (simp add: reusable_def example_compatible) (simp add: example_env_def example_flags_def)
  have yes: "reusable example_env ?s 0 1"
    using example_compatible(2) by (simp add: reusable_def) (simp add: example_env_def example_flags_def)
  have m: "w_manifest (s_workers ?s 1) = Some (the (w_manifest (pool_worker ''b'' ''hmm'' ''1.10'')))"
    by (simp add: example_pool_def example_heap_def pool_worker_def)
  have b: "w_id (s_workers ?s 1) = ''b''" "s_active ?s = []"
    by (simp_all add: example_pool_def example_heap_def pool_worker_def)
  from get_compatible_reuses_first [OF wf example_ready(1) vals no yes m, of "''u1''"] b
  show ?thesis by auto
qed

lemma get_compatible_error_iff_witness:
  "get_compatible_worker_sync example_env ''u1'' 0 (example_pool 1 [(''b'', 1)] []  []) = Inl WorkerPoolFull"
proof -
  let ?s = "example_pool 1 [(''b'', 1)] [] []"
  obtain cmds where cmds: "new_worker_command (se_conf example_env) ''u1'' = Inr cmds" using example_command by blast
  have wf: "wf_pool ?s"
    by (simp add: wf_pool_def pool_def example_pool_def od_keys_def example_heap_def pool_worker_def)
  show ?thesis
    using get_compatible_error_iff [OF wf example_ready(1) cmds, of WorkerPoolFull]
    by (simp add: example_pool_def od_values_def)
qed

lemma get_compatible_starts_worker_witness:
  "\<exists>s' w. get_compatible_worker_sync example_env ''u1'' 0 (example_pool 2 [(''b'', 1)] [(''a'', 0)] []) = Inr s'
     \<and> s_active s' = [(''b'', 1)] \<and> 0 \<in> set (s_waiting s') \<and> pool_size s' = 1"
proof -
  let ?s = "example_pool 2 [(''b'', 1)] [(''a'', 0)] []"
  obtain cmds where cmds: "new_worker_command (se_conf example_env) ''u1'' = Inr cmds" using example_command by blast
  have wf: "wf_pool ?s"
    by (simp add: wf_pool_def pool_def example_pool_def od_keys_def example_heap_def pool_worker_def)
  have no: "\<forall>w \<in> set (od_values (s_cached ?s)). \<not> reusable example_env ?s 0 w"
  proof -
    have "od_values (s_cached ?s) = [0]" by (simp add: example_pool_def od_values_def)
    then show ?thesis
      by (simp add: reusable_def example_compatible) (simp add: example_env_def example_flags_def)
  qed
  have slots: "int (length (s_active ?s)) < s_num_slot ?s" by (simp add: example_pool_def)
  have "is_worker_set_full ?s" "pool_size ?s = 2" "s_active ?s = [(''b'', 1)]"
    by (simp_all add: is_worker_set_full_def pool_size_def example_pool_def)
  then show ?thesis using get_compatible_starts_worker [OF wf example_ready(1) cmds no slots] by auto
qed


text \<open>
  C11 (functional behaviour). A worker is compatible with a component exactly when the two manifests share name and
  version object, or every package the component needs is loaded in the worker at the same version;
  with the third level switched off, the whole dictionary of packages and the name have to agree
  (up to collisions of SHA-256). The second level therefore adds nothing while the third is on.
\<close>

theorem is_compatible_iff:
  assumes "w_manifest (s_workers s w) = Some m" and "component_ready E c cm"
    and "distinct (od_keys (m_packages m))" and "distinct (od_keys (m_packages cm))"
    and "se_sha256 E (hash_preimage m) = se_sha256 E (hash_preimage cm) \<Longrightarrow> hash_preimage m = hash_preimage cm"
  shows "is_compatible E s w c =
     Inr (same_version_object m cm
          \<or> (if f_disable_l3 (se_flags E)
             then m_name m = m_name cm \<and> od_get (m_packages m) = od_get (m_packages cm)
             else od_get (m_packages cm) \<subseteq>\<^sub>m od_get (m_packages m)))"
  using is_compatible_ready [OF assms] by (simp add: packages_within_def)

lemma is_compatible_iff_witness:
  "is_compatible example_env (example_pool 2 [] [] []) 1 0 = Inr True
   \<and> is_compatible example_env (example_pool 2 [] [] []) 0 0 = Inr False"
proof -
  let ?s = "example_pool 2 [] [] []"
  let ?m = "\<lambda>wid name torch. the (w_manifest (pool_worker wid name torch))"
  have m: "w_manifest (s_workers ?s 1) = Some (?m ''b'' ''hmm'' ''1.10'')"
    "w_manifest (s_workers ?s 0) = Some (?m ''a'' ''cnn'' ''1.9'')"
    by (simp_all add: example_pool_def example_heap_def pool_worker_def)
  have d: "distinct (od_keys (m_packages (?m wid name torch)))" for wid name torch
    by (simp add: pool_worker_def example_library_def od_keys_def)
  have d': "distinct (od_keys (m_packages (example_library ''hmm'' [(''torch'', ''1.10'')])))"
    by (simp add: example_library_def od_keys_def)
  show ?thesis
    using is_compatible_iff [OF m(1) example_ready(1) d d'] is_compatible_iff [OF m(2) example_ready(1) d d']
    by (auto simp: example_env_def example_flags_def same_version_object_def pool_worker_def
        example_library_def DEFAULT_VALUES_def map_le_def od_simps dom_def)
qed

end
