(* ===== verification/Coordinator.thy ===== *)
theory Coordinator
  imports SchedulerProps
begin

text \<open>
  The coordinator as a state machine: what its event loop (\<^verbatim>\<open>csrc/coordinator.cc\<close>,
  \<open>DoActionFromMsg\<close>, \<open>OnNewPipeline\<close>, \<open>OnNewComponent\<close>, \<open>OnCacheFull\<close>) does with the Python scheduler and task monitor.
  The trial manager runs one component at a time: \<open>OnNewComponent\<close> blocks it (\<open>y_busy\<close>)
  until a worker reports \<open>done\<close>. Workers follow their side of the protocol
  (\<^verbatim>\<open>csrc/worker.cc\<close>): they announce themselves once, under a fresh identifier, after the scheduler has
  started them; they answer with well-formed manifests, and report \<open>done\<close> when they were active.
\<close>

section \<open>State\<close>

record coordinator =
  y_sched :: scheduler
  y_monitor :: task_monitor
  y_comp :: "nat \<Rightarrow> component"
  y_next_comp :: nat
  y_next_worker :: nat
  y_ids :: "string set"
  y_connected :: "string list"
  y_starting :: nat
  y_busy :: bool
  y_sent :: "(string \<times> string list) list"

definition coordinator_init :: "int \<Rightarrow> (nat \<Rightarrow> component) \<Rightarrow> coordinator" where
  "coordinator_init n comps =
     \<lparr>y_sched = scheduler_init n (\<lambda>_. mk_worker []), y_monitor = task_monitor_init,
      y_comp = (\<lambda>c. (comps c)\<lparr>c_manifest := None\<rparr>), y_next_comp = 0, y_next_worker = 0, y_ids = {}, y_connected = [],
      y_starting = 0, y_busy = False, y_sent = []\<rparr>"

text \<open>The scheduler's environment at a given moment: the components as they are.\<close>

definition env_at :: "sched_env \<Rightarrow> (nat \<Rightarrow> component) \<Rightarrow> sched_env" where
  "env_at E heap = E\<lparr>se_comp := heap\<rparr>"

section \<open>Events\<close>

text \<open>\<open>OnNewPipeline\<close>: one component object per name, entered under its identifier.\<close>

fun new_components :: "(string \<times> string) list \<Rightarrow> py_world \<Rightarrow> coordinator \<Rightarrow> coordinator result" where
  "new_components [] W y = Inr y"
| "new_components ((name, cid) # rest) W y =
     res_bind (component_init 0 W name cid None [] False) (\<lambda>comp.
       new_components rest W
         (y\<lparr>y_comp := (y_comp y)(y_next_comp y := comp), y_next_comp := Suc (y_next_comp y),
            y_monitor := add_pending_components [(cid, y_next_comp y)] (y_monitor y)\<rparr>))"

definition on_new_pipeline :: "sched_env \<Rightarrow> (string \<times> string) list \<Rightarrow> coordinator \<Rightarrow> coordinator result" where
  "on_new_pipeline E pipeline y = new_components pipeline (se_world E) y"

text \<open>The messages sent to workers for the effects that a scheduler call has added.\<close>

definition sent_by :: "(nat \<Rightarrow> component) \<Rightarrow> string list \<Rightarrow> string \<Rightarrow> effect list \<Rightarrow> (string \<times> string list) list" where
  "sent_by heap info wid effects =
     concat (map (\<lambda>e. case e of
        WorkerFound w \<Rightarrow> [(w, info)]
      | ComponentFound c \<Rightarrow> [(wid, case c_command (heap c) of None \<Rightarrow> [] | Some cmd \<Rightarrow> cmd)]
      | CacheFull w \<Rightarrow> [(w, [''exit''])]
      | _ \<Rightarrow> []) effects)"

definition on_new_component :: "sched_env \<Rightarrow> string \<Rightarrow> string list \<Rightarrow> coordinator \<Rightarrow> coordinator result" where
  "on_new_component E uid info y =
     res_bind (py_index info 0) (\<lambda>cid.
     res_bind (py_index info 1) (\<lambda>working_directory.
     res_bind (od_item (tm_pending (y_monitor y)) cid) (\<lambda>c.
     res_bind (set_component_path (s_next_addr (y_sched y)) (se_world E) working_directory (y_comp y c)) (\<lambda>comp.
     let heap = (y_comp y)(c := comp\<lparr>c_command := Some info\<rparr>);
         s = (y_sched y)\<lparr>s_next_addr := Suc (s_next_addr (y_sched y))\<rparr>
     in res_bind (get_compatible_worker_sync (env_at E heap) uid c s) (\<lambda>s'.
          Inr (y\<lparr>y_sched := s', y_comp := heap, y_busy := True,
                 y_starting := y_starting y + (starts s' - starts s),
                 y_sent := y_sent y @ sent_by heap info [] (drop (length (s_effects s)) (s_effects s'))\<rparr>))))))"

text \<open>\<open>ready\<close>: a connection record is created and the manifest is asked for.\<close>

definition on_ready :: "string \<Rightarrow> coordinator \<Rightarrow> coordinator" where
  "on_ready wid y =
     (let w = y_next_worker y;
          s = (y_sched y)\<lparr>s_workers := (s_workers (y_sched y))(w := mk_worker wid)\<rparr>
      in y\<lparr>y_sched := add_new_worker w s, y_next_worker := Suc w, y_ids := insert wid (y_ids y),
           y_connected := y_connected y @ [wid], y_starting := y_starting y - 1,
           y_sent := y_sent y @ [(wid, [''request_manifest''])]\<rparr>)"

text \<open>The scheduler's state once the worker object has taken the message.\<close>

definition took_message :: "nat \<Rightarrow> worker \<Rightarrow> scheduler \<Rightarrow> scheduler" where
  "took_message w wk s = s\<lparr>s_workers := (s_workers s)(w := wk), s_next_addr := Suc (Suc (s_next_addr s))\<rparr>"

text \<open>\<open>response_manifest\<close>: the worker object takes the message; a new worker is given to the scheduler.\<close>

definition on_response_manifest :: "sched_env \<Rightarrow> nat list \<Rightarrow> string \<Rightarrow> message \<Rightarrow> coordinator \<Rightarrow> coordinator result" where
  "on_response_manifest E order wid msg y =
     (case get_worker wid (y_sched y) of
        None \<Rightarrow> Inr y
      | Some w \<Rightarrow>
          let s = y_sched y in
          res_bind (worker_on_msg (s_next_addr s) (s_workers s w) msg) (\<lambda>(wk, new_worker).
          let s1 = took_message w wk s
          in if new_worker = Some True then
               res_bind (on_worker_ready (env_at E (y_comp y)) order w s1) (\<lambda>s2.
                 Inr (y\<lparr>y_sched := s2,
                        y_sent := y_sent y @ sent_by (y_comp y) [] wid (drop (length (s_effects s)) (s_effects s2))\<rparr>))
             else Inr (y\<lparr>y_sched := s1\<rparr>)))"

definition on_done :: "string \<Rightarrow> coordinator \<Rightarrow> coordinator result" where
  "on_done wid y =
     (case get_worker wid (y_sched y) of
        None \<Rightarrow> Inr y
      | Some w \<Rightarrow> res_bind (cache_worker w (y_sched y)) (\<lambda>s. Inr (y\<lparr>y_sched := s, y_busy := False\<rparr>)))"

definition on_bye :: "string \<Rightarrow> coordinator \<Rightarrow> coordinator" where
  "on_bye wid y = y\<lparr>y_connected := remove1 wid (y_connected y)\<rparr>"

section \<open>The step relation\<close>

definition is_active :: "string \<Rightarrow> coordinator \<Rightarrow> bool" where
  "is_active wid y \<longleftrightarrow> wid \<in> set (od_keys (s_active (y_sched y)))"

definition in_pool :: "string \<Rightarrow> coordinator \<Rightarrow> bool" where
  "in_pool wid y \<longleftrightarrow> wid \<in> set (od_keys (s_active (y_sched y))) \<union> set (od_keys (s_cached (y_sched y)))"

inductive coord_step :: "sched_env \<Rightarrow> coordinator \<Rightarrow> coordinator \<Rightarrow> bool" for E where
  new_pipeline:
    "\<not> y_busy y \<Longrightarrow> on_new_pipeline E pipeline y = Inr y' \<Longrightarrow> coord_step E y y'"
| new_component:
    "\<not> y_busy y \<Longrightarrow> on_new_component E uid info y = Inr y' \<Longrightarrow> coord_step E y y'"
| ready:
    "0 < y_starting y \<Longrightarrow> wid \<notin> y_ids y \<Longrightarrow> coord_step E y (on_ready wid y)"
| response:
    "wf_manifest m \<Longrightarrow> wid \<in> y_ids y \<Longrightarrow> set order = set (s_waiting (y_sched y)) \<Longrightarrow>
     on_response_manifest E order wid (response_manifest (se_sha256 E) wid m) y = Inr y' \<Longrightarrow> coord_step E y y'"
| done_step:
    "is_active wid y \<Longrightarrow> on_done wid y = Inr y' \<Longrightarrow> coord_step E y y'"
| bye:
    "wid \<in> set (y_connected y) \<Longrightarrow> \<not> in_pool wid y \<Longrightarrow> coord_step E y (on_bye wid y)"

inductive coord_reachable :: "sched_env \<Rightarrow> int \<Rightarrow> (nat \<Rightarrow> component) \<Rightarrow> coordinator \<Rightarrow> bool" for E n comps where
  start: "coord_reachable E n comps (coordinator_init n comps)"
| step: "coord_reachable E n comps y \<Longrightarrow> coord_step E y y' \<Longrightarrow> coord_reachable E n comps y'"

inductive_cases coord_stepE: "coord_step E y y'"

section \<open>Running a sequence of events\<close>

text \<open>The steps as a function: a disabled event is refused; waiting components are visited in the order they came.\<close>

datatype coord_event =
    NewPipeline "(string \<times> string) list"
  | NewComponent string "string list"
  | Ready string
  | Response string manifest
  | Done string
  | Bye string

definition guard :: "bool \<Rightarrow> 'a result \<Rightarrow> 'a result" where
  "guard b r = (if b then r else Inl AssertionError)"

fun coord_exec :: "sched_env \<Rightarrow> coord_event \<Rightarrow> coordinator \<Rightarrow> coordinator result" where
  "coord_exec E (NewPipeline pipeline) y = guard (\<not> y_busy y) (on_new_pipeline E pipeline y)"
| "coord_exec E (NewComponent uid info) y = guard (\<not> y_busy y) (on_new_component E uid info y)"
| "coord_exec E (Ready wid) y = guard (0 < y_starting y \<and> wid \<notin> y_ids y) (Inr (on_ready wid y))"
| "coord_exec E (Response wid m) y =
     guard (wf_manifest m \<and> wid \<in> y_ids y)
       (on_response_manifest E (s_waiting (y_sched y)) wid (response_manifest (se_sha256 E) wid m) y)"
| "coord_exec E (Done wid) y = guard (is_active wid y) (on_done wid y)"
| "coord_exec E (Bye wid) y = guard (wid \<in> set (y_connected y) \<and> \<not> in_pool wid y) (Inr (on_bye wid y))"

definition coord_run :: "sched_env \<Rightarrow> coord_event list \<Rightarrow> coordinator \<Rightarrow> coordinator result" where
  "coord_run E events y = res_fold (coord_exec E) events y"

lemma guard_Inr: "guard b r = Inr x \<longleftrightarrow> b \<and> r = Inr x"
  by (simp add: guard_def)

lemma coord_exec_step: "coord_exec E e y = Inr y' \<Longrightarrow> coord_step E y y'"
  by (cases e) (auto simp: guard_Inr intro: coord_step.intros)

lemma coord_run_reachable:
  "coord_reachable E n comps y \<Longrightarrow> coord_run E events y = Inr y' \<Longrightarrow> coord_reachable E n comps y'"
proof (induction events arbitrary: y)
  case (Cons e events)
  then obtain y1 where "coord_exec E e y = Inr y1" and "coord_run E events y1 = Inr y'"
    by (auto simp: coord_run_def res_bind_eq_Inr)
  with Cons show ?case using coord_exec_step coord_reachable.step by blast
qed (simp add: coord_run_def)

text \<open>A test on the state a run ends in.\<close>

definition ends_in :: "'a result \<Rightarrow> ('a \<Rightarrow> bool) \<Rightarrow> bool" where
  "ends_in r P = (case r of Inl _ \<Rightarrow> False | Inr y \<Rightarrow> P y)"

lemma ends_inE:
  assumes "ends_in r P"
  obtains y where "r = Inr y" and "P y"
  using assms by (cases r) (auto simp: ends_in_def)

end
