(* ===== verification/CoordinatorProps.thy ===== *)
theory CoordinatorProps
  imports Coordinator
begin

text \<open>
  Invariants of the coordinator's state machine, by rule induction over its steps: the pool is well-formed and never
  exceeds its slots, at most one component is in flight, workers that are starting match
  components that wait, and no worker ever shares a version object with a component.
\<close>

section \<open>Version objects\<close>

definition addr_ok :: "scheduler \<Rightarrow> (nat \<Rightarrow> component) \<Rightarrow> bool" where
  "addr_ok s heap \<longleftrightarrow> 0 < s_next_addr s
     \<and> (\<forall>w m. w_manifest (s_workers s w) = Some m \<longrightarrow>
          0 < v_addr (m_version m) \<and> v_addr (m_version m) < s_next_addr s \<and> wf_version (v_val (m_version m))
          \<and> (\<forall>c cm. c_manifest (heap c) = Some cm \<longrightarrow> v_addr (m_version m) \<noteq> v_addr (m_version cm)))
     \<and> (\<forall>c cm. c_manifest (heap c) = Some cm \<longrightarrow>
          v_addr (m_version cm) < s_next_addr s \<and> wf_version (v_val (m_version cm)))"

lemma addr_okD:
  assumes "addr_ok s heap"
  shows "0 < s_next_addr s"
    and "w_manifest (s_workers s w) = Some m \<Longrightarrow> 0 < v_addr (m_version m)"
    and "w_manifest (s_workers s w) = Some m \<Longrightarrow> v_addr (m_version m) < s_next_addr s"
    and "w_manifest (s_workers s w) = Some m \<Longrightarrow> wf_version (v_val (m_version m))"
    and "w_manifest (s_workers s w) = Some m \<Longrightarrow> c_manifest (heap c) = Some cm \<Longrightarrow>
      v_addr (m_version m) \<noteq> v_addr (m_version cm)"
    and "c_manifest (heap c) = Some cm \<Longrightarrow> v_addr (m_version cm) < s_next_addr s"
    and "c_manifest (heap c) = Some cm \<Longrightarrow> wf_version (v_val (m_version cm))"
  using assms by (auto simp: addr_ok_def)

lemma addr_ok_cong:
  "addr_ok s heap \<Longrightarrow> s_workers s' = s_workers s \<Longrightarrow> s_next_addr s' = s_next_addr s \<Longrightarrow> addr_ok s' heap"
  by (simp add: addr_ok_def)

text \<open>A new version object for a component: its address is the next free one, or the shared default.\<close>

lemma addr_ok_component:
  assumes ok: "addr_ok s heap"
    and cm: "c_manifest co = Some cm" "wf_version (v_val (m_version cm))"
      "v_addr (m_version cm) = 0 \<or> v_addr (m_version cm) = s_next_addr s"
  shows "addr_ok (s\<lparr>s_next_addr := Suc (s_next_addr s)\<rparr>) (heap(c := co))"
  using ok cm addr_okD(1-3) [OF ok] unfolding addr_ok_def
  by (auto simp: less_Suc_eq) (metis less_irrefl)+

lemma addr_ok_no_manifest:
  "addr_ok s heap \<Longrightarrow> c_manifest co = None \<Longrightarrow> addr_ok s (heap(c := co))"
  by (auto simp: addr_ok_def)

lemma addr_ok_worker:
  assumes ok: "addr_ok s heap"
    and wk: "w_manifest wk = None \<or>
      (\<exists>m. w_manifest wk = Some m \<and> wf_version (v_val (m_version m))
         \<and> s_next_addr s \<le> v_addr (m_version m) \<and> v_addr (m_version m) < s_next_addr s + k)"
  shows "addr_ok (s\<lparr>s_workers := (s_workers s)(w := wk), s_next_addr := s_next_addr s + k\<rparr>) heap"
  unfolding addr_ok_def
proof (intro conjI allI impI)
  show "0 < s_next_addr (s\<lparr>s_workers := (s_workers s)(w := wk), s_next_addr := s_next_addr s + k\<rparr>)"
    using addr_okD(1) [OF ok] by simp
  fix v m
  assume "w_manifest (s_workers (s\<lparr>s_workers := (s_workers s)(w := wk), s_next_addr := s_next_addr s + k\<rparr>) v) = Some m"
  then have v: "v = w \<and> w_manifest wk = Some m \<or> v \<noteq> w \<and> w_manifest (s_workers s v) = Some m"
    by (auto split: if_splits)
  show "0 < v_addr (m_version m)" using v addr_okD(1) [OF ok] wk addr_okD(2) [OF ok, of v m] by auto
  show "v_addr (m_version m) < s_next_addr (s\<lparr>s_workers := (s_workers s)(w := wk), s_next_addr := s_next_addr s + k\<rparr>)"
    using v wk addr_okD(3) [OF ok, of v m] by auto
  show "wf_version (v_val (m_version m))" using v wk addr_okD(4) [OF ok, of v m] by auto
  fix c cm
  assume "c_manifest (heap c) = Some cm"
  then show "v_addr (m_version m) \<noteq> v_addr (m_version cm)"
    using v wk addr_okD(5) [OF ok, of v m c cm] addr_okD(6) [OF ok, of c cm] by fastforce
next
  fix c cm
  assume "c_manifest (heap c) = Some cm"
  then show "v_addr (m_version cm) < s_next_addr (s\<lparr>s_workers := (s_workers s)(w := wk), s_next_addr := s_next_addr s + k\<rparr>)"
    and "wf_version (v_val (m_version cm))"
    using addr_okD(6,7) [OF ok, of c cm] by auto
qed

lemma addr_ok_record_run:
  assumes "addr_ok s heap" and "wf_version (v_val (m_version cm))"
  shows "addr_ok (record_run cm w s) heap"
proof (cases "w_manifest (s_workers s w)")
  case None
  with assms(1) show ?thesis by (simp add: record_run_def)
next
  case (Some m)
  then show ?thesis
    using addr_ok_worker [OF assms(1), of _ 1] assms(2) by (simp add: record_run_def)
qed

section \<open>Registered workers\<close>

text \<open>Every worker the scheduler holds has its own identifier; those in a cache have a manifest.\<close>

definition held :: "scheduler \<Rightarrow> nat set" where
  "held s = set (s_new s) \<union> set (od_values (s_active s)) \<union> set (od_values (s_cached s))"

definition workers_ok :: "scheduler \<Rightarrow> nat \<Rightarrow> string set \<Rightarrow> bool" where
  "workers_ok s next ids \<longleftrightarrow>
     (\<forall>w \<in> held s. w < next) \<and> distinct (s_new s)
     \<and> (\<forall>w < next. w_id (s_workers s w) \<in> ids)
     \<and> inj_on (\<lambda>w. w_id (s_workers s w)) {..<next}
     \<and> (\<forall>w \<in> set (od_values (s_active s)) \<union> set (od_values (s_cached s)). w_manifest (s_workers s w) \<noteq> None)"

lemma workers_ok_cong:
  assumes "workers_ok s next ids" and "\<And>w. w_id (s_workers s' w) = w_id (s_workers s w)"
    and "\<And>w. w_manifest (s_workers s w) \<noteq> None \<Longrightarrow> w_manifest (s_workers s' w) \<noteq> None"
    and "set (od_values (s_active s')) \<union> set (od_values (s_cached s'))
      \<subseteq> set (od_values (s_active s)) \<union> set (od_values (s_cached s))"
    and "set (s_new s') \<subseteq> set (s_new s)" and "distinct (s_new s')"
  shows "workers_ok s' next ids"
proof -
  have "held s' \<subseteq> held s" using assms(4,5) by (auto simp: held_def)
  with assms show ?thesis by (auto simp: workers_ok_def)
qed

lemma od_values_del: "set (od_values (od_del k d)) \<subseteq> set (od_values d)"
  by (auto simp: od_values_def od_del_def AList.delete_eq)

text \<open>Looking a worker up by its identifier finds the one worker that has it.\<close>

lemma get_worker_Some:
  "get_worker wid s = Some w \<Longrightarrow> w \<in> held s \<and> w_id (s_workers s w) = wid"
  by (auto simp: get_worker_def held_def dest!: find_SomeD)

lemma get_worker_held:
  assumes "workers_ok s next ids" and "w \<in> held s"
  shows "get_worker (w_id (s_workers s w)) s = Some w"
proof -
  obtain v where v: "get_worker (w_id (s_workers s w)) s = Some v"
    using assms(2) by (cases "get_worker (w_id (s_workers s w)) s") (auto simp: get_worker_def find_None_iff held_def)
  from get_worker_Some [OF v] have "v \<in> held s" "w_id (s_workers s v) = w_id (s_workers s w)" by simp_all
  with assms have "v = w" by (auto simp: workers_ok_def inj_on_def)
  with v show ?thesis by simp
qed

text \<open>A held worker without a manifest is in no cache.\<close>

lemma no_manifest_outside:
  assumes "wf_pool s" and "workers_ok s next ids" and "w \<in> held s" and "w_manifest (s_workers s w) = None"
  shows "outside_pool w s" and "w \<in> set (s_new s)"
proof -
  have no: "w \<notin> set (od_values (s_active s)) \<union> set (od_values (s_cached s))"
    using assms(2,4) unfolding workers_ok_def by blast
  with assms(3) show "w \<in> set (s_new s)" by (auto simp: held_def)
  show "outside_pool w s"
  proof (rule ccontr)
    assume "\<not> outside_pool w s"
    then have "\<exists>v. (w_id (s_workers s w), v) \<in> pool s"
      by (force simp: outside_pool_def od_keys_def pool_def)
    then obtain v where v: "(w_id (s_workers s w), v) \<in> pool s" by blast
    then have "w_id (s_workers s v) = w_id (s_workers s w)" using assms(1) by (auto simp: wf_pool_def)
    moreover have vals: "v \<in> set (od_values (s_active s)) \<union> set (od_values (s_cached s))"
      using v by (auto simp: pool_def in_values_key)
    moreover from vals have "v \<in> held s" by (auto simp: held_def)
    ultimately have "v = w" using assms(2,3) by (auto simp: workers_ok_def inj_on_def)
    with no vals show False by simp
  qed
qed

definition connecting :: "scheduler \<Rightarrow> nat" where
  "connecting s = length (filter (\<lambda>w. w_manifest (s_workers s w) = None) (s_new s))"

section \<open>The invariant\<close>

definition coord_inv :: "sched_env \<Rightarrow> int \<Rightarrow> coordinator \<Rightarrow> bool" where
  "coord_inv E n y \<longleftrightarrow>
     (let s = y_sched y in
        wf_pool s \<and> s_num_slot s = n
        \<and> workers_ok s (y_next_worker y) (y_ids y)
        \<and> addr_ok s (y_comp y)
        \<and> (\<forall>c \<in> set (s_waiting s). c_path (y_comp y c) \<noteq> None \<and> c_manifest (y_comp y c) \<noteq> None
             \<and> c_command (y_comp y c) \<noteq> None)
        \<and> length (s_active s) + length (s_waiting s) = (if y_busy y then 1 else 0)
        \<and> y_starting y + connecting s \<le> length (s_waiting s)
        \<and> (\<not> f_check_new (se_flags E) \<longrightarrow> y_starting y + connecting s = length (s_waiting s))
        \<and> int (pool_size s + y_starting y + connecting s) \<le> n)"

lemma coord_invD:
  assumes "coord_inv E n y"
  shows "wf_pool (y_sched y)" and "s_num_slot (y_sched y) = n"
    and "workers_ok (y_sched y) (y_next_worker y) (y_ids y)" and "addr_ok (y_sched y) (y_comp y)"
    and "\<And>c. c \<in> set (s_waiting (y_sched y)) \<Longrightarrow> c_path (y_comp y c) \<noteq> None"
    and "\<And>c. c \<in> set (s_waiting (y_sched y)) \<Longrightarrow> c_manifest (y_comp y c) \<noteq> None"
    and "\<And>c. c \<in> set (s_waiting (y_sched y)) \<Longrightarrow> c_command (y_comp y c) \<noteq> None"
    and "length (s_active (y_sched y)) + length (s_waiting (y_sched y)) = (if y_busy y then 1 else 0)"
    and "y_starting y + connecting (y_sched y) \<le> length (s_waiting (y_sched y))"
    and "\<not> f_check_new (se_flags E) \<Longrightarrow> y_starting y + connecting (y_sched y) = length (s_waiting (y_sched y))"
    and "int (pool_size (y_sched y) + y_starting y + connecting (y_sched y)) \<le> n"
  using assms by (auto simp: coord_inv_def Let_def)

lemma coord_inv_sched:
  assumes "coord_inv E n y" and "y_comp y' = y_comp y" and "y_next_worker y' = y_next_worker y"
    and "y_ids y' = y_ids y" and "y_starting y' = y_starting y"
    and "wf_pool (y_sched y')" and "s_num_slot (y_sched y') = s_num_slot (y_sched y)"
    and "workers_ok (y_sched y') (y_next_worker y) (y_ids y)" and "addr_ok (y_sched y') (y_comp y)"
    and "set (s_waiting (y_sched y')) \<subseteq> set (s_waiting (y_sched y))"
    and "length (s_active (y_sched y')) + length (s_waiting (y_sched y')) = (if y_busy y' then 1 else 0)"
    and "y_starting y + connecting (y_sched y') \<le> length (s_waiting (y_sched y'))"
    and "\<not> f_check_new (se_flags E) \<longrightarrow> y_starting y + connecting (y_sched y') = length (s_waiting (y_sched y'))"
    and "pool_size (y_sched y') + connecting (y_sched y') \<le> pool_size (y_sched y) + connecting (y_sched y)"
  shows "coord_inv E n y'"
proof -
  have "int (pool_size (y_sched y') + y_starting y + connecting (y_sched y')) \<le> n"
    using coord_invD(11) [OF assms(1)] assms(14) by linarith
  moreover have "\<forall>c \<in> set (s_waiting (y_sched y')). c_path (y_comp y c) \<noteq> None \<and> c_manifest (y_comp y c) \<noteq> None
             \<and> c_command (y_comp y c) \<noteq> None"
    using coord_invD(5-7) [OF assms(1)] assms(10) by blast
  ultimately show ?thesis
    unfolding coord_inv_def Let_def assms(2-5) using assms(6-9,11-13) coord_invD(2) [OF assms(1)] by blast
qed

lemma coord_inv_init: "0 \<le> n \<Longrightarrow> coord_inv E n (coordinator_init n comps)"
  by (simp add: coord_inv_def coordinator_init_def Let_def wf_pool_init)
    (simp add: scheduler_init_def workers_ok_def held_def od_values_def addr_ok_def mk_worker_def
      connecting_def pool_size_def)

text \<open>A component with a loaded manifest is ready for the scheduler.\<close>

lemma env_at_simps [simp]:
  "se_comp (env_at E heap) = heap" "se_flags (env_at E heap) = se_flags E"
  "se_conf (env_at E heap) = se_conf E" "se_sha256 (env_at E heap) = se_sha256 E"
  by (simp_all add: env_at_def)

lemma component_ready_at:
  "addr_ok s heap \<Longrightarrow> c_path (heap c) \<noteq> None \<Longrightarrow> c_manifest (heap c) = Some cm \<Longrightarrow> component_ready (env_at E heap) c cm"
  by (auto simp: component_ready_def dest: addr_okD(7))

subsection \<open>New pipelines\<close>

lemma component_init_fields:
  "component_init a W name cid None [] False = Inr co \<Longrightarrow> c_manifest co = None"
  by (auto simp: component_init_def Let_def)

lemma new_components_frame:
  "new_components pipeline W y = Inr y' \<Longrightarrow>
     y_sched y' = y_sched y \<and> y_next_worker y' = y_next_worker y \<and> y_ids y' = y_ids y
     \<and> y_starting y' = y_starting y \<and> y_busy y' = y_busy y
     \<and> (addr_ok (y_sched y) (y_comp y) \<longrightarrow> addr_ok (y_sched y) (y_comp y'))"
proof (induction pipeline W y rule: new_components.induct)
  case (2 name cid rest W y)
  then obtain co where co: "component_init 0 W name cid None [] False = Inr co"
    and rest: "new_components rest W
         (y\<lparr>y_comp := (y_comp y)(y_next_comp y := co), y_next_comp := Suc (y_next_comp y),
            y_monitor := add_pending_components [(cid, y_next_comp y)] (y_monitor y)\<rparr>) = Inr y'"
    by (auto simp: res_bind_eq_Inr)
  from 2(1) [OF rest] show ?case
    using addr_ok_no_manifest [OF _ component_init_fields [OF co], of "y_sched y" "y_comp y" "y_next_comp y"]
    by (simp add: fun_upd_def)
qed simp

lemma inv_new_pipeline:
  assumes inv: "coord_inv E n y" and "\<not> y_busy y" and "on_new_pipeline E pipeline y = Inr y'"
  shows "coord_inv E n y'"
proof -
  have "s_waiting (y_sched y) = []" using coord_invD(8) [OF inv] assms(2) by simp
  with inv new_components_frame [OF assms(3) [unfolded on_new_pipeline_def]] show ?thesis
    by (simp add: coord_inv_def Let_def)
qed

subsection \<open>New components\<close>

lemma connecting_cong:
  "s_new s' = s_new s \<Longrightarrow> (\<And>w. (w_manifest (s_workers s' w) = None) = (w_manifest (s_workers s w) = None)) \<Longrightarrow>
     connecting s' = connecting s"
  by (simp add: connecting_def)

lemma reuse_worker_ok:
  assumes "workers_ok s next ids" and "w \<in> set (od_values (s_cached s))"
  shows "workers_ok (reuse_worker cm w s) next ids"
proof (rule workers_ok_cong [OF assms(1)])
  show "set (od_values (s_active (reuse_worker cm w s))) \<union> set (od_values (s_cached (reuse_worker cm w s)))
      \<subseteq> set (od_values (s_active s)) \<union> set (od_values (s_cached s))"
    using assms(2) od_values_del [of "w_id (s_workers s w)" "s_cached s"] by (auto simp: od_values_def)
  show "w_manifest (s_workers (reuse_worker cm w s) v) \<noteq> None" if "w_manifest (s_workers s v) \<noteq> None" for v
    using that by simp
  show "distinct (s_new (reuse_worker cm w s))" using assms(1) by (simp add: workers_ok_def)
qed simp_all

lemma evict_start_ok:
  assumes "workers_ok s next ids"
  shows "workers_ok (start_worker E cmds c s) next ids" and "workers_ok (evict_worker w s) next ids"
proof -
  have d: "distinct (s_new s)" using assms by (simp add: workers_ok_def)
  show "workers_ok (start_worker E cmds c s) next ids"
    by (rule workers_ok_cong [OF assms]) (simp_all add: d)
  show "workers_ok (evict_worker w s) next ids"
    by (rule workers_ok_cong [OF assms]) (use d od_values_del in \<open>fastforce+\<close>)
qed

lemma addr_ok_sched:
  assumes "addr_ok s heap"
  shows "wf_version (v_val (m_version cm)) \<Longrightarrow> addr_ok (reuse_worker cm w s) heap"
    and "addr_ok (start_worker E cmds c s) heap" and "addr_ok (evict_worker w s) heap"
proof -
  show "addr_ok (start_worker E cmds c s) heap" and "addr_ok (evict_worker w s) heap"
    using assms by (simp_all add: addr_ok_def start_worker_def evict_worker_def)
  let ?s = "s\<lparr>s_cached := od_del (w_id (s_workers s w)) (s_cached s),
          s_active := s_active s @ [(w_id (s_workers s w), w)]\<rparr>"
  assume "wf_version (v_val (m_version cm))"
  moreover have "addr_ok ?s heap" using assms by (simp add: addr_ok_def)
  ultimately have "addr_ok (record_run cm w ?s) heap" by (intro addr_ok_record_run)
  then show "addr_ok (reuse_worker cm w s) heap" by (simp add: reuse_worker_def addr_ok_def)
qed

lemma get_compatible_outcomes:
  assumes "wf_pool s" and "component_ready E c cm" and "get_compatible_worker_sync E uid c s = Inr s'"
  obtains w where "w \<in> set (od_values (s_cached s))" and "s' = reuse_worker cm w s"
    | cmds where "int (pool_size s) < s_num_slot s" and "s' = start_worker E cmds c s"
    | cmds w where "s_num_slot s \<le> int (pool_size s)" and "w \<in> set (od_values (s_cached s))"
      and "s' = start_worker E cmds c (evict_worker w s)"
proof (cases "new_worker_command (se_conf E) uid")
  case (Inr cmds)
  from assms(1,2) Inr assms(3) show thesis
    by (cases rule: get_compatible_cases) (use that in blast)+
next
  case (Inl e)
  show thesis
  proof (cases "find (reusable E s c) (od_values (s_cached s))")
    case None
    have "get_compatible_worker_sync E uid c s \<noteq> Inr s'"
      by (simp add: get_compatible_worker_sync_def find_cached_find [OF assms(2)] None Inl
          execute_new_worker_command_def res_bind_eq_Inr)
    with assms(3) show thesis by simp
  next
    case (Some w)
    then have "w \<in> set (od_values (s_cached s))" by (auto dest: find_SomeD)
    with that(1) get_compatible_reuse_eq [OF assms(1,2) Some] assms(3) show thesis by simp
  qed
qed

text \<open>
  What a call of the scheduler in an idle coordinator leads to: an active worker, or a waiting
  component and a worker that starts.
\<close>

lemma get_compatible_idle:
  assumes wf: "wf_pool s" and ready: "component_ready E c cm" and ok: "workers_ok s next ids"
    and addr: "addr_ok s heap" and cm: "wf_version (v_val (m_version cm))"
    and idle: "s_active s = []" "s_waiting s = []" and slots: "int (pool_size s) \<le> s_num_slot s"
    and con: "connecting s = 0"
    and get: "get_compatible_worker_sync E uid c s = Inr s'"
  shows "wf_pool s'" and "s_num_slot s' = s_num_slot s" and "workers_ok s' next ids" and "addr_ok s' heap"
    and "set (s_waiting s') \<subseteq> {c}"
    and "length (s_active s') + length (s_waiting s') = 1"
    and "starts s' - starts s + connecting s' = length (s_waiting s')"
    and "int (pool_size s' + (starts s' - starts s) + connecting s') \<le> s_num_slot s"
proof -
  have "wf_pool s' \<and> s_num_slot s' = s_num_slot s \<and> workers_ok s' next ids \<and> addr_ok s' heap
      \<and> set (s_waiting s') \<subseteq> {c} \<and> length (s_active s') + length (s_waiting s') = 1
      \<and> starts s' - starts s + connecting s' = length (s_waiting s')
      \<and> int (pool_size s' + (starts s' - starts s) + connecting s') \<le> s_num_slot s"
    using wf ready get
  proof (cases rule: get_compatible_outcomes)
    case (1 w)
    moreover have "connecting (reuse_worker cm w s) = 0"
      using con connecting_cong [of "reuse_worker cm w s" s] by simp
    ultimately show ?thesis
      using reuse_worker_wf [OF wf 1(1), of cm] reuse_worker_ok [OF ok 1(1), of cm] addr_ok_sched(1) [OF addr cm]
        idle slots by simp
  next
    case (2 cmds)
    moreover have "connecting (start_worker E cmds c s) = 0"
      using con connecting_cong [of "start_worker E cmds c s" s] by simp
    ultimately show ?thesis
      using start_worker_wf [OF wf, of E cmds c] evict_start_ok(1) [OF ok, of E cmds c]
        addr_ok_sched(2) [OF addr, of E cmds c] idle by simp
  next
    case (3 cmds w)
    have "connecting (start_worker E cmds c (evict_worker w s)) = 0"
      using con connecting_cong [of "start_worker E cmds c (evict_worker w s)" s] by simp
    with 3 show ?thesis
      using evict_worker_wf [OF wf 3(2)] start_worker_wf [of "evict_worker w s" E cmds c]
        evict_start_ok(1) [OF evict_start_ok(2) [OF ok]] addr_ok_sched(2) [OF addr_ok_sched(3) [OF addr]]
        idle slots by simp
  qed
  then show "wf_pool s'" and "s_num_slot s' = s_num_slot s" and "workers_ok s' next ids" and "addr_ok s' heap"
    and "set (s_waiting s') \<subseteq> {c}" and "length (s_active s') + length (s_waiting s') = 1"
    and "starts s' - starts s + connecting s' = length (s_waiting s')"
    and "int (pool_size s' + (starts s' - starts s) + connecting s') \<le> s_num_slot s" by simp_all
qed

text \<open>The state \<open>OnNewComponent\<close> hands to the scheduler.\<close>

lemma new_component_prepared:
  fixes info :: "string list"
  assumes inv: "coord_inv E n y" and idle: "\<not> y_busy y"
    and path: "set_component_path (s_next_addr (y_sched y)) W wd (y_comp y c) = Inr co"
  defines "heap \<equiv> (y_comp y)(c := co\<lparr>c_command := Some info\<rparr>)"
    and "s \<equiv> (y_sched y)\<lparr>s_next_addr := Suc (s_next_addr (y_sched y))\<rparr>"
  obtains cm where "component_ready (env_at E heap) c cm" and "wf_version (v_val (m_version cm))"
    and "wf_pool s" and "workers_ok s (y_next_worker y) (y_ids y)" and "addr_ok s heap"
    and "s_active s = []" and "s_waiting s = []" and "connecting s = 0" and "y_starting y = 0"
    and "int (pool_size s) \<le> s_num_slot s" and "s_num_slot s = n"
proof -
  from set_component_path_loaded [OF path] obtain cm where co: "c_path co = Some wd" "c_manifest co = Some cm"
    and v: "m_version cm = m_version DEFAULT_VALUES \<or> v_addr (m_version cm) = s_next_addr (y_sched y) \<and> wf_version (v_val (m_version cm))"
    by blast
  have wfv: "wf_version (v_val (m_version cm))" using v by (auto simp: DEFAULT_VALUES_def)
  have "addr_ok ((y_sched y)\<lparr>s_next_addr := Suc (s_next_addr (y_sched y))\<rparr>) ((y_comp y)(c := co\<lparr>c_command := Some info\<rparr>))"
    using v co wfv by (intro addr_ok_component [OF coord_invD(4) [OF inv], of _ cm]) (auto simp: DEFAULT_VALUES_def)
  then have addr: "addr_ok s heap" by (simp add: s_def heap_def)
  have act: "s_active (y_sched y) = []" "s_waiting (y_sched y) = []" using coord_invD(8) [OF inv] idle by auto
  with coord_invD(9) [OF inv] have con: "connecting (y_sched y) = 0" "y_starting y = 0" by auto
  show thesis
  proof (rule that)
    show "component_ready (env_at E heap) c cm" using co addr by (intro component_ready_at) (auto simp: heap_def)
    show "wf_version (v_val (m_version cm))" by (rule wfv)
    show "wf_pool s" using coord_invD(1) [OF inv] by (simp add: s_def wf_pool_def pool_def)
    show "workers_ok s (y_next_worker y) (y_ids y)"
      using coord_invD(3) [OF inv] by (simp add: s_def workers_ok_def held_def)
    show "addr_ok s heap" by (rule addr)
    show "s_active s = []" "s_waiting s = []" using act by (simp_all add: s_def)
    show "connecting s = 0" using con by (simp add: s_def connecting_def)
    show "y_starting y = 0" using con by simp
    show "int (pool_size s) \<le> s_num_slot s"
      using coord_invD(2,11) [OF inv] by (simp add: s_def pool_size_def)
    show "s_num_slot s = n" using coord_invD(2) [OF inv] by (simp add: s_def)
  qed
qed

lemma inv_new_component:
  assumes inv: "coord_inv E n y" and idle: "\<not> y_busy y" and step: "on_new_component E uid info y = Inr y'"
  shows "coord_inv E n y'"
proof -
  let ?s = "(y_sched y)\<lparr>s_next_addr := Suc (s_next_addr (y_sched y))\<rparr>"
  from step obtain cid wd c co s' where
    path: "set_component_path (s_next_addr (y_sched y)) (se_world E) wd (y_comp y c) = Inr co" and
    get: "get_compatible_worker_sync (env_at E ((y_comp y)(c := co\<lparr>c_command := Some info\<rparr>))) uid c ?s = Inr s'" and
    y': "y' = y\<lparr>y_sched := s', y_comp := (y_comp y)(c := co\<lparr>c_command := Some info\<rparr>), y_busy := True,
        y_starting := y_starting y + (starts s' - starts ?s),
        y_sent := y_sent y @ sent_by ((y_comp y)(c := co\<lparr>c_command := Some info\<rparr>)) info []
          (drop (length (s_effects ?s)) (s_effects s'))\<rparr>"
    by (auto simp: on_new_component_def res_bind_eq_Inr Let_def)
  let ?heap = "(y_comp y)(c := co\<lparr>c_command := Some info\<rparr>)"
  from new_component_prepared [OF inv idle path, of info] obtain cm where
    ready: "component_ready (env_at E ?heap) c cm" and wfv: "wf_version (v_val (m_version cm))" and
    s: "wf_pool ?s" "workers_ok ?s (y_next_worker y) (y_ids y)" "addr_ok ?s ?heap"
      "s_active ?s = []" "s_waiting ?s = []" "connecting ?s = 0" "int (pool_size ?s) \<le> s_num_slot ?s" "s_num_slot ?s = n" and
    st: "y_starting y = 0" by metis
  note out = get_compatible_idle [OF s(1) ready s(2,3) wfv s(4,5,7,6) get]
  have c: "c_path (?heap x) \<noteq> None \<and> c_manifest (?heap x) \<noteq> None \<and> c_command (?heap x) \<noteq> None"
    if "x \<in> set (s_waiting s')" for x
    using that out(5) set_component_path_loaded [OF path] by auto
  show ?thesis
    unfolding coord_inv_def Let_def y'
    using out c s(8) st by simp
qed

subsection \<open>Messages\<close>

lemma inv_ready:
  assumes inv: "coord_inv E n y" and st: "0 < y_starting y" and fresh: "wid \<notin> y_ids y"
  shows "coord_inv E n (on_ready wid y)"
proof -
  let ?w = "y_next_worker y" and ?s = "y_sched y"
  let ?s1 = "?s\<lparr>s_workers := (s_workers ?s)(?w := mk_worker wid)\<rparr>"
  let ?s' = "add_new_worker ?w ?s1"
  note ok = coord_invD(3) [OF inv]
  have lt: "v < ?w" if "v \<in> held ?s" for v using ok that by (auto simp: workers_ok_def)
  then have ne: "?w \<notin> held ?s" by blast
  then have vals: "?w \<notin> set (od_values (s_active ?s)) \<union> set (od_values (s_cached ?s))" and new: "?w \<notin> set (s_new ?s)"
    by (auto simp: held_def)
  have wf: "wf_pool ?s'"
    using wf_poolD [OF coord_invD(1) [OF inv]] vals
    by (auto simp: wf_pool_def pool_def add_new_worker_def in_values_key)
  have ok': "workers_ok ?s' (Suc ?w) (insert wid (y_ids y))"
  proof -
    have "inj_on (\<lambda>v. w_id (s_workers ?s' v)) {..<Suc ?w}"
      using ok fresh by (auto simp: workers_ok_def inj_on_def add_new_worker_def mk_worker_def less_Suc_eq)
    moreover have "held ?s' = insert ?w (held ?s)" by (auto simp: held_def add_new_worker_def)
    moreover have "w_manifest (s_workers ?s' v) \<noteq> None"
      if "v \<in> set (od_values (s_active ?s)) \<union> set (od_values (s_cached ?s))" for v
      using that vals ok unfolding workers_ok_def by (auto simp: add_new_worker_def)
    ultimately show ?thesis using ok new lt
      by (auto simp: workers_ok_def add_new_worker_def less_Suc_eq mk_worker_def)
  qed
  have "addr_ok (?s\<lparr>s_workers := (s_workers ?s)(?w := mk_worker wid), s_next_addr := s_next_addr ?s + 0\<rparr>) (y_comp y)"
    by (rule addr_ok_worker [OF coord_invD(4) [OF inv]]) (simp add: mk_worker_def)
  then have addr: "addr_ok ?s' (y_comp y)" by (simp add: addr_ok_def add_new_worker_def)
  have "filter (\<lambda>v. w_manifest (s_workers ?s1 v) = None) (s_new ?s) = filter (\<lambda>v. w_manifest (s_workers ?s v) = None) (s_new ?s)"
    using new by (intro filter_cong) auto
  then have con: "connecting ?s' = Suc (connecting ?s)"
    by (simp add: connecting_def add_new_worker_def mk_worker_def)
  have "pool_size ?s' = pool_size ?s" by (simp add: pool_size_def add_new_worker_def)
  moreover have "s_waiting ?s' = s_waiting ?s" "s_active ?s' = s_active ?s" "s_num_slot ?s' = s_num_slot ?s"
    by (simp_all add: add_new_worker_def)
  ultimately show ?thesis
    using wf ok' addr con st coord_invD(2) [OF inv] coord_invD(5-11) [OF inv]
    by (simp add: coord_inv_def Let_def on_ready_def)
qed

lemma response_fields:
  assumes "wf_manifest m" and "worker_on_msg a wk0 (response_manifest sha256 wid m) = Inr (wk, nw)"
    and "\<And>old. w_manifest wk0 = Some old \<Longrightarrow> wf_version (v_val (m_version old))"
  shows "w_id wk = w_id wk0" and "nw = Some (w_manifest wk0 = None)"
    and "\<exists>m'. w_manifest wk = Some m' \<and> wf_version (v_val (m_version m'))
       \<and> a \<le> v_addr (m_version m') \<and> v_addr (m_version m') < a + 2"
  using assms(2,3) assms(1)
  by (auto simp: worker_on_response [OF assms(1)] Let_def wf_manifest_def from_version_str_roundtrip
      split: option.splits if_splits)

lemma response_ok:
  assumes "wf_manifest m" and "\<And>old. w_manifest wk0 = Some old \<Longrightarrow> wf_version (v_val (m_version old))"
  shows "\<exists>wk nw. worker_on_msg a wk0 (response_manifest sha256 wid m) = Inr (wk, nw)"
  using assms(2)
  by (auto simp: worker_on_response [OF assms(1)] Let_def from_version_str_roundtrip split: option.splits)

lemma took_message_simps [simp]:
  "s_active (took_message w wk s) = s_active s" "s_cached (took_message w wk s) = s_cached s"
  "s_new (took_message w wk s) = s_new s" "s_num_slot (took_message w wk s) = s_num_slot s"
  "s_waiting (took_message w wk s) = s_waiting s" "s_effects (took_message w wk s) = s_effects s"
  "s_workers (took_message w wk s) = (s_workers s)(w := wk)"
  "pool_size (took_message w wk s) = pool_size s"
  by (simp_all add: took_message_def pool_size_def)

lemma took_message_ok:
  assumes "wf_pool s" and "workers_ok s next ids" and "addr_ok s heap"
    and "w_id wk = w_id (s_workers s w)"
    and "\<exists>m'. w_manifest wk = Some m' \<and> wf_version (v_val (m_version m'))
       \<and> s_next_addr s \<le> v_addr (m_version m') \<and> v_addr (m_version m') < s_next_addr s + 2"
  shows "wf_pool (took_message w wk s)" and "workers_ok (took_message w wk s) next ids"
    and "addr_ok (took_message w wk s) heap"
proof -
  have idw: "w_id (s_workers (took_message w wk s) v) = w_id (s_workers s v)" for v
    using assms(4) by simp
  show "wf_pool (took_message w wk s)"
    using assms(1) by (rule wf_pool_cong(1)) (use idw wf_poolD(6) [OF assms(1)] in simp_all)
  show "workers_ok (took_message w wk s) next ids"
    by (rule workers_ok_cong [OF assms(2) idw]) (use assms(2,5) in \<open>auto simp: workers_ok_def\<close>)
  show "addr_ok (took_message w wk s) heap"
    using addr_ok_worker [OF assms(3), of wk 2 w] assms(5) by (simp add: took_message_def)
qed

lemma connecting_took_new:
  assumes "distinct (s_new s)" and "w \<in> set (s_new s)" and "w_manifest (s_workers s w) = None" and "w_manifest wk \<noteq> None"
  shows "Suc (connecting (took_message w wk s)) = connecting s"
proof -
  obtain xs ys where new: "s_new s = xs @ w # ys" using assms(2) by (meson split_list)
  with assms(1) have "w \<notin> set xs" "w \<notin> set ys" by auto
  then have "filter (\<lambda>v. w_manifest (((s_workers s)(w := wk)) v) = None) xs = filter (\<lambda>v. w_manifest (s_workers s v) = None) xs"
    and "filter (\<lambda>v. w_manifest (((s_workers s)(w := wk)) v) = None) ys = filter (\<lambda>v. w_manifest (s_workers s v) = None) ys"
    by (auto intro: filter_cong)
  with new assms(3,4) show ?thesis by (simp add: connecting_def)
qed

lemma connecting_took_old:
  assumes "w_manifest (s_workers s w) \<noteq> None" and "w_manifest wk \<noteq> None"
  shows "connecting (took_message w wk s) = connecting s"
  using assms by (intro connecting_cong) auto

lemma remove1_filter_some:
  "distinct xs \<Longrightarrow> \<not> P x \<Longrightarrow> length (filter P (remove1 x xs)) = length (filter P xs)"
  by (induction xs) auto

lemma workers_ok_join:
  assumes ok: "workers_ok s next ids" and "w \<in> held s" and "w_manifest (s_workers s w) \<noteq> None"
    and new: "set (s_new s') \<subseteq> set (s_new s)" "distinct (s_new s')"
    and vals: "set (od_values (s_active s')) \<union> set (od_values (s_cached s'))
      \<subseteq> insert w (set (od_values (s_active s)) \<union> set (od_values (s_cached s)))"
    and idw: "\<And>v. w_id (s_workers s' v) = w_id (s_workers s v)"
    and man: "\<And>v. (w_manifest (s_workers s' v) = None) = (w_manifest (s_workers s v) = None)"
  shows "workers_ok s' next ids"
proof -
  have "held s' \<subseteq> held s" using new(1) vals assms(2) by (auto simp: held_def)
  then have "\<forall>v \<in> held s'. v < next" using ok unfolding workers_ok_def by blast
  moreover have "\<forall>v \<in> set (od_values (s_active s')) \<union> set (od_values (s_cached s')). w_manifest (s_workers s v) \<noteq> None"
    using ok vals assms(3) unfolding workers_ok_def by blast
  ultimately show ?thesis using ok new(2) unfolding workers_ok_def idw man by blast
qed

lemma inv_response:
  assumes inv: "coord_inv E n y" and m: "wf_manifest m" and order: "set order = set (s_waiting (y_sched y))"
    and step: "on_response_manifest E order wid (response_manifest (se_sha256 E) wid m) y = Inr y'"
  shows "coord_inv E n y'"
proof (cases "get_worker wid (y_sched y)")
  case None
  with step inv show ?thesis by (simp add: on_response_manifest_def)
next
  case (Some w)
  let ?s = "y_sched y"
  have held: "w \<in> held ?s" and wid: "w_id (s_workers ?s w) = wid" using get_worker_Some [OF Some] by simp_all
  have old: "wf_version (v_val (m_version om))" if "w_manifest (s_workers ?s w) = Some om" for om
    using addr_okD(4) [OF coord_invD(4) [OF inv] that] .
  from step Some obtain wk nw where
    msg: "worker_on_msg (s_next_addr ?s) (s_workers ?s w) (response_manifest (se_sha256 E) wid m) = Inr (wk, nw)" and
    rest: "(if nw = Some True
       then res_bind (on_worker_ready (env_at E (y_comp y)) order w (took_message w wk ?s)) (\<lambda>s2.
         Inr (y\<lparr>y_sched := s2, y_sent := y_sent y @ sent_by (y_comp y) [] wid (drop (length (s_effects ?s)) (s_effects s2))\<rparr>))
       else Inr (y\<lparr>y_sched := took_message w wk ?s\<rparr>)) = Inr y'"
    by (auto simp: on_response_manifest_def Let_def res_bind_eq_Inr)
  have wk: "w_id wk = w_id (s_workers ?s w)" "nw = Some (w_manifest (s_workers ?s w) = None)"
    "\<exists>m'. w_manifest wk = Some m' \<and> wf_version (v_val (m_version m'))
       \<and> s_next_addr ?s \<le> v_addr (m_version m') \<and> v_addr (m_version m') < s_next_addr ?s + 2"
    by (rule response_fields [OF m msg]; erule old)+
  note took = took_message_ok [OF coord_invD(1,3,4) [OF inv] wk(1,3)]
  have wkm: "w_manifest wk \<noteq> None" using wk(3) by auto
  show ?thesis
  proof (cases "w_manifest (s_workers ?s w) = None")
    case False
    with wk(2) rest have "y' = y\<lparr>y_sched := took_message w wk ?s\<rparr>" by simp
    moreover have "connecting (took_message w wk ?s) = connecting ?s"
      using False wkm by (rule connecting_took_old)
    ultimately show ?thesis using inv took by (simp add: coord_inv_def Let_def)
  next
    case True
    let ?s1 = "took_message w wk ?s"
    note new = no_manifest_outside [OF coord_invD(1,3) [OF inv] held True]
    have out: "outside_pool w ?s1" using new(1) wk(1) by (simp add: outside_pool_def)
    have con: "Suc (connecting ?s1) = connecting ?s"
      using connecting_took_new [OF _ new(2) True wkm] coord_invD(3) [OF inv] by (simp add: workers_ok_def)
    define cms where "cms = (\<lambda>c. the (c_manifest (y_comp y c)))"
    have ready: "\<forall>c \<in> set (s_waiting ?s1). component_ready (env_at E (y_comp y)) c (cms c)"
      using coord_invD(5,6) [OF inv] component_ready_at [OF coord_invD(4) [OF inv]] by (auto simp: cms_def)
    have ord: "set order = set (s_waiting ?s1)" using order by simp
    from on_worker_ready_eq [OF took(1) out ord ready] True wk(2) rest
    obtain s2 sent where s2: "s2 = (case find (served (env_at E (y_comp y)) ?s1 w) order of
            None \<Rightarrow> ready_worker w ?s1 | Some c \<Rightarrow> serve_waiting (cms c) c w ?s1)"
      and y': "y' = y\<lparr>y_sched := s2, y_sent := sent\<rparr>" by auto
    have wkm1: "w_manifest (s_workers ?s1 w) \<noteq> None" and held1: "w \<in> held ?s1"
      using wkm held by (simp_all add: held_def)
    note wok = workers_ok_join [OF took(2) held1 wkm1, of s2]
    have dn: "distinct (s_new ?s)" using coord_invD(3) [OF inv] by (simp add: workers_ok_def)
    show ?thesis
    proof (cases "find (served (env_at E (y_comp y)) ?s1 w) order")
      case None
      with s2 have s2: "s2 = ready_worker w ?s1" by simp
      have "workers_ok s2 (y_next_worker y) (y_ids y)"
        by (rule wok) (use dn in \<open>auto simp: s2 ready_worker_def od_values_def\<close>)
      moreover have "connecting s2 = connecting ?s1" by (rule connecting_cong) (simp_all add: s2 ready_worker_def)
      moreover have "addr_ok s2 (y_comp y)" using took(3) by (simp add: s2 ready_worker_def addr_ok_def)
      moreover have "f_check_new (se_flags E)"
      proof (rule ccontr)
        assume off: "\<not> f_check_new (se_flags E)"
        then have "order = []" using None by (cases order) (auto simp: served_def)
        with order coord_invD(9) [OF inv] con show False by simp
      qed
      moreover have "s_waiting s2 = s_waiting ?s" "s_active s2 = s_active ?s" "s_num_slot s2 = s_num_slot ?s"
        by (simp_all add: s2 ready_worker_def)
      moreover have "wf_pool s2" "pool_size s2 = Suc (pool_size ?s)"
        using ready_worker_wf [OF took(1) out] by (simp_all add: s2)
      ultimately show ?thesis
        using con coord_invD(8,9) [OF inv] by (intro coord_inv_sched [OF inv]) (simp_all add: y')
    next
      case (Some c)
      with s2 have s2: "s2 = serve_waiting (cms c) c w ?s1" by simp
      have c: "c \<in> set (s_waiting ?s)" using Some order by (auto dest: find_SomeD)
      have "workers_ok s2 (y_next_worker y) (y_ids y)"
        by (rule wok) (use dn in \<open>auto simp: s2 serve_waiting_def od_values_def dest: set_remove1_subset [THEN subsetD]\<close>)
      moreover have "connecting s2 = connecting ?s1"
        using dn wkm
        by (simp add: connecting_def s2 serve_waiting_def remove1_filter_some del: took_message_simps(7)) (simp add: remove1_filter_some)
      moreover have "addr_ok s2 (y_comp y)"
      proof -
        have "wf_version (v_val (m_version (cms c)))"
          using ready c by (simp add: component_ready_def)
        moreover have "addr_ok (?s1\<lparr>s_waiting := remove1 c (s_waiting ?s1), s_new := remove1 w (s_new ?s1),
          s_active := s_active ?s1 @ [(w_id (s_workers ?s1 w), w)]\<rparr>) (y_comp y)"
          using took(3) by (simp add: addr_ok_def)
        ultimately have "addr_ok (record_run (cms c) w (?s1\<lparr>s_waiting := remove1 c (s_waiting ?s1), s_new := remove1 w (s_new ?s1),
          s_active := s_active ?s1 @ [(w_id (s_workers ?s1 w), w)]\<rparr>)) (y_comp y)"
          by (intro addr_ok_record_run)
        then show ?thesis by (simp add: s2 serve_waiting_def addr_ok_def)
      qed
      moreover have "s_waiting s2 = remove1 c (s_waiting ?s)" "s_num_slot s2 = s_num_slot ?s"
        "length (s_active s2) = Suc (length (s_active ?s))"
        by (simp_all add: s2 serve_waiting_def)
      moreover have "Suc (length (remove1 c (s_waiting ?s))) = length (s_waiting ?s)"
        using c by (simp add: length_remove1) (metis Suc_pred length_pos_if_in_set)
      moreover have "\<And>x. x \<in> set (remove1 c (s_waiting ?s)) \<Longrightarrow> x \<in> set (s_waiting ?s)"
        by (meson notin_set_remove1)
      moreover have "wf_pool s2" "pool_size s2 = Suc (pool_size ?s)"
        using serve_waiting_wf [OF took(1) out, of "cms c" c] by (simp_all add: s2)
      ultimately show ?thesis
        using con coord_invD(8-10) [OF inv] by (intro coord_inv_sched [OF inv]) (auto simp: y')
    qed
  qed
qed

lemma active_worker:
  assumes inv: "coord_inv E n y" and act: "is_active wid y"
  obtains w where "s_active (y_sched y) = [(wid, w)]" and "s_waiting (y_sched y) = []" and "y_busy y"
    and "get_worker wid (y_sched y) = Some w" and "w_id (s_workers (y_sched y) w) = wid"
proof -
  let ?s = "y_sched y"
  obtain w where w: "(wid, w) \<in> set (s_active ?s)" using act by (auto simp: is_active_def od_keys_def)
  then have idw: "w_id (s_workers ?s w) = wid" using wf_poolD(4) [OF coord_invD(1) [OF inv]] by blast
  have "w \<in> held ?s" using w by (auto simp: held_def in_values_key)
  from get_worker_held [OF coord_invD(3) [OF inv] this] idw have get: "get_worker wid ?s = Some w" by simp
  have "0 < length (s_active ?s)" using w by (cases "s_active ?s") auto
  moreover from this coord_invD(8) [OF inv] have busy: "y_busy y" by (cases "y_busy y") simp_all
  moreover from busy coord_invD(8) [OF inv] have "length (s_active ?s) + length (s_waiting ?s) = 1" by simp
  ultimately have "length (s_active ?s) = 1" and "length (s_waiting ?s) = 0" by linarith+
  with busy have len: "length (s_active ?s) = 1" "s_waiting ?s = []" "y_busy y" by simp_all
  with w have "s_active ?s = [(wid, w)]" by (auto simp: length_Suc_conv)
  with that len get idw show thesis by blast
qed

lemma inv_done:
  assumes inv: "coord_inv E n y" and act: "is_active wid y" and step: "on_done wid y = Inr y'"
  shows "coord_inv E n y'" and "\<not> y_busy y'" and "s_active (y_sched y') = []"
proof -
  let ?s = "y_sched y"
  from active_worker [OF inv act] obtain w where w: "s_active ?s = [(wid, w)]" "s_waiting ?s = []" "y_busy y"
    "get_worker wid ?s = Some w" "w_id (s_workers ?s w) = wid" .
  have wv: "w \<in> set (od_values (s_active ?s))" using w(1) by (simp add: od_values_def)
  let ?s' = "?s\<lparr>s_active := od_del wid (s_active ?s), s_cached := s_cached ?s @ [(wid, w)]\<rparr>"
  note c = cache_worker_ok [OF coord_invD(1) [OF inv] wv, unfolded w(5)]
  from step w(4) c(1) have y': "y' = y\<lparr>y_sched := ?s', y_busy := False\<rparr>" by (simp add: on_done_def)
  have empty: "od_del wid (s_active ?s) = []" by (simp add: w(1) od_simps)
  show "s_active (y_sched y') = []" and "\<not> y_busy y'" by (simp_all add: y' empty)
  have "workers_ok ?s' (y_next_worker y) (y_ids y)"
    by (rule workers_ok_cong [OF coord_invD(3) [OF inv]])
      (use coord_invD(3) [OF inv] wv in \<open>auto simp: empty od_values_def workers_ok_def\<close>)
  moreover have "connecting ?s' = connecting ?s" by (simp add: connecting_def)
  moreover have "addr_ok ?s' (y_comp y)" using coord_invD(4) [OF inv] by (simp add: addr_ok_def)
  ultimately show "coord_inv E n y'"
    using c(2,3) coord_invD(9,10) [OF inv] w(2) empty
    by (intro coord_inv_sched [OF inv]) (simp_all add: y')
qed

lemma inv_bye: "coord_inv E n y \<Longrightarrow> coord_inv E n (on_bye wid y)"
  by (simp add: coord_inv_def on_bye_def Let_def)

lemma inv_step: "coord_step E y y' \<Longrightarrow> coord_inv E n y \<Longrightarrow> coord_inv E n y'"
proof (induction rule: coord_step.induct)
  case (new_pipeline y pipeline y')
  from inv_new_pipeline [OF new_pipeline(3,1,2)] show ?case .
next
  case (new_component y uid info y')
  from inv_new_component [OF new_component(3,1,2)] show ?case .
next
  case (ready y wid)
  from inv_ready [OF ready(3,1,2)] show ?case .
next
  case (response m wid y order y')
  from inv_response [OF response(5,1,3,4)] show ?case .
next
  case (done_step wid y y')
  from inv_done(1) [OF done_step(3,1,2)] show ?case .
next
  case (bye wid y)
  from inv_bye [OF bye(3)] show ?case .
qed

lemma reachable_inv: "coord_reachable E n comps y \<Longrightarrow> 0 \<le> n \<Longrightarrow> coord_inv E n y"
  by (induction rule: coord_reachable.induct) (auto intro: coord_inv_init inv_step)

section \<open>Safety\<close>

text \<open>
  C1 (invariant). In every reachable state of the coordinator the two caches are disjoint and keyed by the identifiers of
  their workers, the pool together with the workers that are starting or have not reported yet
  fits in the slots, and at most one component is in flight: an idle coordinator has no active
  worker and nothing waiting, a blocked one has exactly one of the two.
\<close>

theorem reachable_pool_bounded:
  assumes "coord_reachable E n comps y" and "0 \<le> n"
  shows "wf_pool (y_sched y)
     \<and> int (pool_size (y_sched y) + y_starting y + connecting (y_sched y)) \<le> n
     \<and> length (s_active (y_sched y)) + length (s_waiting (y_sched y)) = (if y_busy y then 1 else 0)"
  using coord_invD(1,8,11) [OF reachable_inv [OF assms]] by simp

text \<open>
  C2 (safety). The trial manager never meets \<open>WorkerPoolFull\<close>: with at least one slot, a component
  whose manifest loads is always accepted from an idle coordinator, either by a cached worker or by
  starting one.
\<close>

theorem idle_coordinator_accepts:
  assumes "coord_reachable E n comps y" and "1 \<le> n" and "\<not> y_busy y"
    and "od_get (tm_pending (y_monitor y)) cid = Some c"
    and "set_component_path (s_next_addr (y_sched y)) (se_world E) wd (y_comp y c) = Inr co"
    and "new_worker_command (se_conf E) uid = Inr cmds"
  shows "\<exists>y'. on_new_component E uid (cid # wd # args) y = Inr y' \<and> coord_step E y y' \<and> y_busy y'
     \<and> (s_active (y_sched y') \<noteq> [] \<or> s_waiting (y_sched y') = [c] \<and> y_starting y' = 1)"
proof -
  let ?info = "cid # wd # args"
  let ?heap = "(y_comp y)(c := co\<lparr>c_command := Some ?info\<rparr>)"
  let ?s = "(y_sched y)\<lparr>s_next_addr := Suc (s_next_addr (y_sched y))\<rparr>"
  have inv: "coord_inv E n y" using reachable_inv [OF assms(1)] assms(2) by simp
  from new_component_prepared [OF inv assms(3,5), of ?info] obtain cm where
    ready: "component_ready (env_at E ?heap) c cm" and wfv: "wf_version (v_val (m_version cm))" and
    s: "wf_pool ?s" "workers_ok ?s (y_next_worker y) (y_ids y)" "addr_ok ?s ?heap"
      "s_active ?s = []" "s_waiting ?s = []" "connecting ?s = 0" "int (pool_size ?s) \<le> s_num_slot ?s" "s_num_slot ?s = n" and
    st: "y_starting y = 0" by metis
  have "new_worker_command (se_conf (env_at E ?heap)) uid = Inr cmds" using assms(6) by simp
  from get_compatible_errors [OF s(1) ready this] s(4,8) assms(2)
  obtain s' where get: "get_compatible_worker_sync (env_at E ?heap) uid c ?s = Inr s'"
    by (cases "get_compatible_worker_sync (env_at E ?heap) uid c ?s") auto
  note out = get_compatible_idle [OF s(1) ready s(2,3) wfv s(4,5,7,6) get]
  define y' where "y' = y\<lparr>y_sched := s', y_comp := ?heap, y_busy := True,
        y_starting := y_starting y + (starts s' - starts ?s),
        y_sent := y_sent y @ sent_by ?heap ?info [] (drop (length (s_effects ?s)) (s_effects s'))\<rparr>"
  have step: "on_new_component E uid ?info y = Inr y'"
    using assms(4,5) get by (simp add: on_new_component_def od_item_def py_index_def Let_def y'_def)
  moreover have "coord_step E y y'" using assms(3) step by (rule coord_step.new_component)
  moreover have "s_active s' \<noteq> [] \<or> s_waiting s' = [c] \<and> starts s' - starts ?s = 1"
  proof (cases "s_active s'")
    case Nil
    then have "length (s_waiting s') = 1" using out(6) by simp
    then have w: "s_waiting s' = [c]" using out(5) by (cases "s_waiting s'") auto
    from s(1) ready get have "starts s' - starts ?s = 1"
    proof (cases rule: get_compatible_outcomes)
      case (1 w)
      with Nil show ?thesis by simp
    qed simp_all
    with w show ?thesis by simp
  qed simp
  ultimately show ?thesis using st by (auto simp: y'_def)
qed

text \<open>
  C4 (invariant). The first level of the compatibility check never succeeds: it compares version objects by identity, and no
  worker of a reachable state shares its version object with a component, whatever the two version
  numbers are.
\<close>

theorem version_level_dead:
  assumes "coord_reachable E n comps y" and "0 \<le> n"
    and "w_manifest (s_workers (y_sched y) w) = Some m" and "c_manifest (y_comp y c) = Some cm"
  shows "\<not> same_version_object m cm"
  using addr_okD(5) [OF coord_invD(4) [OF reachable_inv [OF assms(1,2)]] assms(3,4)]
  by (simp add: same_version_object_def)

section \<open>Progress\<close>

text \<open>Reflexive, transitive steps.\<close>

inductive coord_steps :: "sched_env \<Rightarrow> coordinator \<Rightarrow> coordinator \<Rightarrow> bool" for E where
  refl: "coord_steps E y y"
| next_step: "coord_step E y y' \<Longrightarrow> coord_steps E y' y'' \<Longrightarrow> coord_steps E y y''"

lemma coord_steps_trans: "coord_steps E x y \<Longrightarrow> coord_steps E y z \<Longrightarrow> coord_steps E x z"
  by (induction rule: coord_steps.induct) (auto intro: coord_steps.intros)

lemma coord_steps_inv: "coord_steps E y y' \<Longrightarrow> coord_inv E n y \<Longrightarrow> coord_inv E n y'"
  by (induction rule: coord_steps.induct) (auto intro: inv_step)

lemma release_active:
  assumes inv: "coord_inv E n y" and "s_active (y_sched y) \<noteq> []"
  shows "\<exists>y'. coord_step E y y' \<and> \<not> y_busy y'"
proof -
  obtain wid w where "(wid, w) \<in> set (s_active (y_sched y))" using assms(2) by (cases "s_active (y_sched y)") auto
  then have act: "is_active wid y" by (auto simp: is_active_def dest: pac_keyD)
  from active_worker [OF inv act] obtain w where w: "s_active (y_sched y) = [(wid, w)]" "get_worker wid (y_sched y) = Some w"
    "w_id (s_workers (y_sched y) w) = wid" by metis
  have "w \<in> set (od_values (s_active (y_sched y)))" using w(1) by (simp add: od_values_def)
  from cache_worker_ok(1) [OF coord_invD(1) [OF inv] this] w(2)
  obtain y' where y': "on_done wid y = Inr y'" by (auto simp: on_done_def)
  then have "coord_step E y y'" using act by (intro coord_step.done_step)
  moreover have "\<not> y_busy y'" using inv_done(2) [OF inv act y'] .
  ultimately show ?thesis by blast
qed

text \<open>With the check on new workers off, a waiting component is served by the first worker that answers.\<close>

lemma response_serves:
  assumes inv: "coord_inv E n y" and w: "w \<in> set (s_new (y_sched y))" "w_manifest (s_workers (y_sched y) w) = None"
    and off: "\<not> f_check_new (se_flags E)"
  shows "\<exists>y'. coord_step E y y' \<and> s_active (y_sched y') \<noteq> []"
proof -
  let ?s = "y_sched y" and ?wid = "w_id (s_workers (y_sched y) w)"
  define m where "m = example_library ''DUMMY'' []"
  have m: "wf_manifest m" by (simp add: m_def example_library_def wf_manifest_def DEFAULT_VALUES_def od_keys_def)
  have held: "w \<in> held ?s" using w by (simp add: held_def)
  have get: "get_worker ?wid ?s = Some w" by (rule get_worker_held [OF coord_invD(3) [OF inv] held])
  have "0 < connecting ?s" using w by (auto simp: connecting_def filter_empty_conv)
  then have waiting: "s_waiting ?s \<noteq> []" using coord_invD(9) [OF inv] by (cases "s_waiting ?s") auto
  have "\<exists>wk nw. worker_on_msg (s_next_addr ?s) (s_workers ?s w) (response_manifest (se_sha256 E) ?wid m) = Inr (wk, nw)"
    by (rule response_ok [OF m]) (simp add: w(2))
  then obtain wk nw where
    msg: "worker_on_msg (s_next_addr ?s) (s_workers ?s w) (response_manifest (se_sha256 E) ?wid m) = Inr (wk, nw)" by blast
  have wk: "w_id wk = w_id (s_workers ?s w)" "nw = Some (w_manifest (s_workers ?s w) = None)"
    "\<exists>m'. w_manifest wk = Some m' \<and> wf_version (v_val (m_version m'))
       \<and> s_next_addr ?s \<le> v_addr (m_version m') \<and> v_addr (m_version m') < s_next_addr ?s + 2"
    by (rule response_fields [OF m msg]; simp add: w(2))+
  let ?s1 = "took_message w wk ?s"
  have out: "outside_pool w ?s1"
    using no_manifest_outside(1) [OF coord_invD(1,3) [OF inv] held w(2)] wk(1) by (simp add: outside_pool_def)
  define cms where "cms = (\<lambda>c. the (c_manifest (y_comp y c)))"
  have ready: "\<forall>c \<in> set (s_waiting ?s1). component_ready (env_at E (y_comp y)) c (cms c)"
    using coord_invD(5,6) [OF inv] component_ready_at [OF coord_invD(4) [OF inv]] by (auto simp: cms_def)
  have ord: "set (s_waiting ?s) = set (s_waiting ?s1)" by simp
  have "find (served (env_at E (y_comp y)) ?s1 w) (s_waiting ?s) = Some (hd (s_waiting ?s))"
    using waiting off by (cases "s_waiting ?s") (auto simp: served_def)
  with on_worker_ready_eq [OF took_message_ok(1) [OF coord_invD(1,3,4) [OF inv] wk(1,3)] out ord ready]
  have serve: "on_worker_ready (env_at E (y_comp y)) (s_waiting ?s) w ?s1
      = Inr (serve_waiting (cms (hd (s_waiting ?s))) (hd (s_waiting ?s)) w ?s1)"
    by (simp del: took_message_simps)
  with get msg wk(2) w(2) obtain y' where
    y': "on_response_manifest E (s_waiting ?s) ?wid (response_manifest (se_sha256 E) ?wid m) y = Inr y'"
    and act: "s_active (y_sched y') \<noteq> []"
    by (simp add: on_response_manifest_def Let_def) (simp add: serve_waiting_def)
  have "?wid \<in> y_ids y" using coord_invD(3) [OF inv] held by (auto simp: workers_ok_def)
  with m y' have "coord_step E y y'" by (intro coord_step.response) simp_all
  with act show ?thesis by blast
qed

lemma reachable_finite_ids: "coord_reachable E n comps y \<Longrightarrow> finite (y_ids y)"
proof (induction rule: coord_reachable.induct)
  case (step y y')
  from step(2,3) show ?case
  proof (induction rule: coord_step.induct)
    case (new_pipeline y pipeline y')
    then show ?case using new_components_frame unfolding on_new_pipeline_def by metis
  qed (auto simp: on_new_component_def on_ready_def on_response_manifest_def on_done_def on_bye_def
      res_bind_eq_Inr Let_def split: option.splits if_splits)
qed (simp add: coordinator_init_def)


text \<open>
  C5 (liveness). With the check on new workers on, the trial manager blocks for ever as soon as the worker started for a component
  has reported and was not found compatible: no later step of any worker releases it, because
  nothing looks at the waiting components again.
\<close>

theorem incompatible_worker_blocks_forever:
  assumes "coord_reachable E n comps y" and "0 \<le> n"
    and "y_busy y" and "s_active (y_sched y) = []" and "y_starting y = 0" and "connecting (y_sched y) = 0"
    and "coord_steps E y y'"
  shows "y_busy y' \<and> s_active (y_sched y') = [] \<and> s_waiting (y_sched y') = s_waiting (y_sched y)"
proof -
  have stuck: "y_busy z' \<and> s_active (y_sched z') = [] \<and> y_starting z' = 0 \<and> connecting (y_sched z') = 0
      \<and> s_waiting (y_sched z') = s_waiting (y_sched z)"
    if step: "coord_step E z z'" and inv: "coord_inv E n z" and z: "y_busy z" "s_active (y_sched z) = []" "y_starting z = 0"
      "connecting (y_sched z) = 0" for z z'
    using step
  proof (cases rule: coord_step.cases)
    case (response m wid order)
    show ?thesis
    proof (cases "get_worker wid (y_sched z)")
      case None
      with response z show ?thesis by (simp add: on_response_manifest_def)
    next
      case (Some w)
      let ?s = "y_sched z"
      have held: "w \<in> held ?s" using get_worker_Some [OF Some] by simp
      have man: "w_manifest (s_workers ?s w) \<noteq> None"
      proof
        assume none: "w_manifest (s_workers ?s w) = None"
        with no_manifest_outside(2) [OF coord_invD(1,3) [OF inv] held] have "0 < connecting ?s"
          by (auto simp: connecting_def filter_empty_conv)
        with z(4) show False by simp
      qed
      have old: "wf_version (v_val (m_version om))" if "w_manifest (s_workers ?s w) = Some om" for om
        using addr_okD(4) [OF coord_invD(4) [OF inv] that] .
      from response(4) Some obtain wk nw where
        msg: "worker_on_msg (s_next_addr ?s) (s_workers ?s w) (response_manifest (se_sha256 E) wid m) = Inr (wk, nw)"
        and rest: "(if nw = Some True
           then res_bind (on_worker_ready (env_at E (y_comp z)) order w (took_message w wk ?s)) (\<lambda>s2.
             Inr (z\<lparr>y_sched := s2, y_sent := y_sent z @ sent_by (y_comp z) [] wid (drop (length (s_effects ?s)) (s_effects s2))\<rparr>))
           else Inr (z\<lparr>y_sched := took_message w wk ?s\<rparr>)) = Inr z'"
        by (auto simp: on_response_manifest_def Let_def res_bind_eq_Inr)
      have nw: "nw = Some (w_manifest (s_workers ?s w) = None)" and wkm: "w_manifest wk \<noteq> None"
        using response_fields(2,3) [OF response(1) msg] old by auto
      from rest nw man have z': "z' = z\<lparr>y_sched := took_message w wk ?s\<rparr>" by simp
      have "connecting (took_message w wk ?s) = connecting ?s" using man wkm by (rule connecting_took_old)
      with z' z show ?thesis by simp
    qed
  qed (use z in \<open>auto simp: is_active_def od_keys_def on_bye_def\<close>)
  have "coord_steps E z z' \<Longrightarrow> coord_inv E n z \<Longrightarrow> y_busy z \<Longrightarrow> s_active (y_sched z) = [] \<Longrightarrow> y_starting z = 0 \<Longrightarrow>
      connecting (y_sched z) = 0 \<Longrightarrow>
      y_busy z' \<and> s_active (y_sched z') = [] \<and> s_waiting (y_sched z') = s_waiting (y_sched z)" for z z'
  proof (induction rule: coord_steps.induct)
    case (next_step y y' y'')
    from stuck [OF next_step(1,4-8)] next_step(3) inv_step [OF next_step(1,4)] show ?case by simp
  qed simp
  with assms reachable_inv show ?thesis by blast
qed

end
