(* ===== verification/CoordinatorExamples.thy ===== *)
theory CoordinatorExamples
  imports CoordinatorProps
begin

text \<open>
  Concrete runs of the coordinator, by evaluation: a pipeline of two components on a pool of one
  slot, served by one worker that is started, reused and reclaimed.
\<close>

definition coord_world :: py_world where
  "coord_world = example_world\<lparr>read_yaml := (\<lambda>f.
     if f = ''/lib/hmm/.manifest.v2.yaml'' then Inr (JObj [(''name'', JStr ''hmm''), (''type'', JStr ''library''),
       (''version'', JStr ''master.0.2''), (''packages'', JObj [(''torch'', JStr ''1.10'')])])
     else if f = ''/lib/cnn/.manifest.v2.yaml'' then Inr (JObj [(''name'', JStr ''cnn''), (''type'', JStr ''library''),
       (''packages'', JObj [(''torch'', JStr ''1.9'')])])
     else Inl FileNotFoundError)\<rparr>"

definition coord_env :: "bool \<Rightarrow> sched_env" where
  "coord_env check_new = example_env\<lparr>se_flags := example_flags\<lparr>f_check_new := check_new\<rparr>, se_world := coord_world\<rparr>"

definition coord_start :: "int \<Rightarrow> coordinator" where
  "coord_start n = coordinator_init n (\<lambda>_. example_component [] [])"

definition bare_manifest :: "(string, string) odict \<Rightarrow> manifest" where
  "bare_manifest pk = example_library ''DUMMY'' pk"

definition first_events :: "coord_event list" where
  "first_events =
     [NewPipeline [(''hmm'', ''c0''), (''cnn'', ''c1'')],
      NewComponent ''u1'' [''c0'', ''/lib/hmm'', ''NULL'', ''python'', ''hmm.py'']]"

lemma coord_start_reachable: "coord_reachable E n (\<lambda>_. example_component [] []) (coord_start n)"
  unfolding coord_start_def by (rule coord_reachable.start)

lemma run_reachable:
  "coord_run E events (coord_start n) = Inr y \<Longrightarrow> coord_reachable E n (\<lambda>_. example_component [] []) y"
  using coord_start_reachable coord_run_reachable by blast

text \<open>A worker is started for \<open>c0\<close>, reports, runs it and is done; it has then loaded \<open>torch 1.10\<close>.\<close>

definition round_events :: "coord_event list" where
  "round_events = first_events @ [Ready ''w1'', Response ''w1'' (bare_manifest []),
     Response ''w1'' (bare_manifest [(''torch'', ''1.10'')]), Done ''w1'']"

lemma round_run:
  "ends_in (coord_run (coord_env False) round_events (coord_start 1))
     (\<lambda>y. \<not> y_busy y \<and> s_active (y_sched y) = [] \<and> od_keys (s_cached (y_sched y)) = [''w1'']
        \<and> map fst (y_sent y) = [''w1'', ''w1''])"
  by code_simp

lemma reachable_pool_bounded_witness:
  "\<exists>y. coord_reachable (coord_env False) 1 (\<lambda>_. example_component [] []) y \<and> s_cached (y_sched y) \<noteq> []
     \<and> wf_pool (y_sched y) \<and> int (pool_size (y_sched y) + y_starting y + connecting (y_sched y)) \<le> 1"
proof -
  from round_run obtain y where run: "coord_run (coord_env False) round_events (coord_start 1) = Inr y"
    and y: "od_keys (s_cached (y_sched y)) = [''w1'']" by (rule ends_inE) auto
  note r = run_reachable [OF run]
  have "s_cached (y_sched y) \<noteq> []" using y by (auto simp: od_keys_def)
  with r reachable_pool_bounded [OF r] show ?thesis by auto
qed

text \<open>The second component needs another version of \<open>torch\<close>: the worker is reclaimed, a new one started.\<close>

lemma cnn_path:
  "ends_in (coord_run (coord_env False) round_events (coord_start 1))
     (\<lambda>y. \<not> y_busy y \<and> od_get (tm_pending (y_monitor y)) ''c1'' = Some 1
        \<and> ends_in (set_component_path (s_next_addr (y_sched y)) (se_world (coord_env False)) ''/lib/cnn'' (y_comp y 1)) (\<lambda>_. True)
        \<and> ends_in (new_worker_command (se_conf (coord_env False)) ''u2'') (\<lambda>_. True))"
  by code_simp

lemma idle_coordinator_accepts_witness:
  "\<exists>y y'. coord_reachable (coord_env False) 1 (\<lambda>_. example_component [] []) y
     \<and> on_new_component (coord_env False) ''u2'' [''c1'', ''/lib/cnn'', ''NULL''] y = Inr y' \<and> y_busy y'"
proof -
  from cnn_path obtain y where run: "coord_run (coord_env False) round_events (coord_start 1) = Inr y"
    and y: "\<not> y_busy y" "od_get (tm_pending (y_monitor y)) ''c1'' = Some 1"
      "ends_in (set_component_path (s_next_addr (y_sched y)) (se_world (coord_env False)) ''/lib/cnn'' (y_comp y 1)) (\<lambda>_. True)"
      "ends_in (new_worker_command (se_conf (coord_env False)) ''u2'') (\<lambda>_. True)"
    by (rule ends_inE) auto
  from y(3) obtain co where co:
    "set_component_path (s_next_addr (y_sched y)) (se_world (coord_env False)) ''/lib/cnn'' (y_comp y 1) = Inr co"
    by (rule ends_inE)
  from y(4) obtain cmds where cmds: "new_worker_command (se_conf (coord_env False)) ''u2'' = Inr cmds"
    by (rule ends_inE)
  note r = run_reachable [OF run]
  have one: "(1 :: int) \<le> 1" by simp
  from idle_coordinator_accepts [OF r one y(1,2) co cmds, of "[''NULL'']"] r show ?thesis by blast
qed

lemma first_run:
  "ends_in (coord_run (coord_env False) (first_events @ [Ready ''w1'', Response ''w1'' (bare_manifest [])]) (coord_start 1))
     (\<lambda>y. (case w_manifest (s_workers (y_sched y) 0) of Some m \<Rightarrow> m_name m = ''hmm'' \<and> v_val (m_version m) = mk_version ''master'' 0 2 | None \<Rightarrow> False)
        \<and> (case c_manifest (y_comp y 0) of Some cm \<Rightarrow> m_name cm = ''hmm'' \<and> v_val (m_version cm) = mk_version ''master'' 0 2 | None \<Rightarrow> False))"
  by code_simp

text \<open>The worker carries the component's own name and version number, and still fails the first level.\<close>

lemma version_level_dead_witness:
  "\<exists>y m cm. coord_reachable (coord_env False) 1 (\<lambda>_. example_component [] []) y
     \<and> w_manifest (s_workers (y_sched y) 0) = Some m \<and> c_manifest (y_comp y 0) = Some cm
     \<and> m_name m = m_name cm \<and> v_val (m_version m) = v_val (m_version cm) \<and> \<not> same_version_object m cm"
proof -
  from first_run obtain y where
    run: "coord_run (coord_env False) (first_events @ [Ready ''w1'', Response ''w1'' (bare_manifest [])]) (coord_start 1) = Inr y"
    and y: "case w_manifest (s_workers (y_sched y) 0) of Some m \<Rightarrow> m_name m = ''hmm'' \<and> v_val (m_version m) = mk_version ''master'' 0 2 | None \<Rightarrow> False"
      "case c_manifest (y_comp y 0) of Some cm \<Rightarrow> m_name cm = ''hmm'' \<and> v_val (m_version cm) = mk_version ''master'' 0 2 | None \<Rightarrow> False"
    by (rule ends_inE) auto
  then obtain m cm where m: "w_manifest (s_workers (y_sched y) 0) = Some m" and cm: "c_manifest (y_comp y 0) = Some cm"
    and eq: "m_name m = m_name cm" "v_val (m_version m) = v_val (m_version cm)"
    by (auto split: option.splits)
  note r = run_reachable [OF run]
  have "(0 :: int) \<le> 1" by simp
  from version_level_dead [OF r this m cm] r m cm eq show ?thesis by blast
qed

lemma waiting_run:
  "ends_in (coord_run (coord_env False) first_events (coord_start 1))
     (\<lambda>y. y_busy y \<and> s_active (y_sched y) = [] \<and> s_waiting (y_sched y) = [0])"
  by code_simp


text \<open>With the check on, the fresh worker lacks \<open>torch\<close> and the component waits for ever.\<close>

lemma stuck_run:
  "ends_in (coord_run (coord_env True) (first_events @ [Ready ''w1'', Response ''w1'' (bare_manifest [])]) (coord_start 1))
     (\<lambda>y. y_busy y \<and> s_active (y_sched y) = [] \<and> y_starting y = 0 \<and> connecting (y_sched y) = 0 \<and> s_waiting (y_sched y) = [0])"
  by code_simp

lemma incompatible_worker_blocks_forever_witness:
  "\<exists>y. coord_reachable (coord_env True) 1 (\<lambda>_. example_component [] []) y \<and> s_waiting (y_sched y) = [0]
     \<and> (\<forall>y'. coord_steps (coord_env True) y y' \<longrightarrow> y_busy y')"
proof -
  from stuck_run obtain y where
    run: "coord_run (coord_env True) (first_events @ [Ready ''w1'', Response ''w1'' (bare_manifest [])]) (coord_start 1) = Inr y"
    and y: "y_busy y" "s_active (y_sched y) = []" "y_starting y = 0" "connecting (y_sched y) = 0" "s_waiting (y_sched y) = [0]"
    by (rule ends_inE) auto
  note r = run_reachable [OF run]
  have "(0 :: int) \<le> 1" by simp
  from incompatible_worker_blocks_forever [OF r this y(1-4)] r y(5) show ?thesis by blast
qed

end
