(* ===== verification/Io.thy ===== *)
theory Io
  imports Prelude
begin

text \<open>
  Code with effects: a function from the state to the result and the state it leaves. An exception
  leaves the state it was raised in, so what was done before it stays done and an
  \<^verbatim>\<open>except\<close> clause goes on from there.
\<close>

named_theorems io_simps "how operations run"

type_synonym ('s, 'a) io = "'s \<Rightarrow> 'a result \<times> 's"

definition io_return :: "'a \<Rightarrow> ('s, 'a) io" where
  "io_return x s = (Inr x, s)"

definition io_raise :: "py_error \<Rightarrow> ('s, 'a) io" where
  "io_raise e s = (Inl e, s)"

text \<open>A computation without effects.\<close>

definition io_lift :: "'a result \<Rightarrow> ('s, 'a) io" where
  "io_lift r s = (r, s)"

definition io_bind :: "('s, 'a) io \<Rightarrow> ('a \<Rightarrow> ('s, 'b) io) \<Rightarrow> ('s, 'b) io" where
  "io_bind f g s = (case f s of (Inl e, s') \<Rightarrow> (Inl e, s') | (Inr x, s') \<Rightarrow> g x s')"

definition io_then :: "('s, 'a) io \<Rightarrow> ('s, 'b) io \<Rightarrow> ('s, 'b) io" where
  "io_then f g = io_bind f (\<lambda>_. g)"

definition io_get :: "('s, 's) io" where
  "io_get s = (Inr s, s)"

definition io_modify :: "('s \<Rightarrow> 's) \<Rightarrow> ('s, unit) io" where
  "io_modify f s = (Inr (), f s)"

text \<open>\<^verbatim>\<open>try: f except e: g\<close>, for the exceptions \<open>e\<close> selects.\<close>

definition io_try :: "('s, 'a) io \<Rightarrow> (py_error \<Rightarrow> bool) \<Rightarrow> ('s, 'a) io \<Rightarrow> ('s, 'a) io" where
  "io_try f handles g s = (case f s of (Inl e, s') \<Rightarrow> if handles e then g s' else (Inl e, s') | r \<Rightarrow> r)"

text \<open>A loop over a list.\<close>

fun io_map :: "('a \<Rightarrow> ('s, 'b) io) \<Rightarrow> 'a list \<Rightarrow> ('s, 'b list) io" where
  "io_map f [] = io_return []"
| "io_map f (x # xs) = io_bind (f x) (\<lambda>y. io_bind (io_map f xs) (\<lambda>ys. io_return (y # ys)))"

fun io_fold :: "('a \<Rightarrow> 'b \<Rightarrow> ('s, 'b) io) \<Rightarrow> 'a list \<Rightarrow> 'b \<Rightarrow> ('s, 'b) io" where
  "io_fold f [] acc = io_return acc"
| "io_fold f (x # xs) acc = io_bind (f x acc) (io_fold f xs)"

lemma io_return_run [simp]: "io_return x s = (Inr x, s)"
  by (simp add: io_return_def)

lemma io_raise_run [simp]: "io_raise e s = (Inl e, s)"
  by (simp add: io_raise_def)

lemma io_lift_run [simp]: "io_lift r s = (r, s)"
  by (simp add: io_lift_def)

lemma io_get_run [simp]: "io_get s = (Inr s, s)"
  by (simp add: io_get_def)

lemma io_modify_run [simp]: "io_modify f s = (Inr (), f s)"
  by (simp add: io_modify_def)

lemma io_bind_ok: "f s = (Inr x, s') \<Longrightarrow> io_bind f g s = g x s'"
  by (simp add: io_bind_def)

lemma io_bind_error: "f s = (Inl e, s') \<Longrightarrow> io_bind f g s = (Inl e, s')"
  by (simp add: io_bind_def)

lemma io_then_ok: "f s = (Inr x, s') \<Longrightarrow> io_then f g s = g s'"
  by (simp add: io_then_def io_bind_ok)

lemma io_then_error: "f s = (Inl e, s') \<Longrightarrow> io_then f g s = (Inl e, s')"
  by (simp add: io_then_def io_bind_error)

lemma io_bind_basic [simp]:
  "io_bind (io_return x) g = g x"
  "io_bind (io_raise e) g = io_raise e"
  "io_bind (io_lift (Inr x)) g = g x"
  "io_bind (io_lift (Inl e)) g = io_raise e"
  by (simp_all add: io_bind_def fun_eq_iff)

lemma io_bind_run:
  "io_bind f g s = (Inr y, s'') \<longleftrightarrow> (\<exists>x s'. f s = (Inr x, s') \<and> g x s' = (Inr y, s''))"
  by (auto simp: io_bind_def split: sum.splits prod.splits)

lemma io_bind_get [simp]: "io_bind io_get g s = g s s"
  by (simp add: io_bind_def)

lemma io_bind_modify [simp]: "io_bind (io_modify f) g s = g () (f s)"
  by (simp add: io_bind_def)

lemma io_then_modify [simp]: "io_then (io_modify f) g s = g (f s)"
  by (simp add: io_then_def)

lemma io_bind_lift_run:
  "io_bind (io_lift r) g s = (case r of Inl e \<Rightarrow> (Inl e, s) | Inr x \<Rightarrow> g x s)"
  by (simp add: io_bind_def split: sum.splits)

text \<open>A computation that goes on with one that fails, or that has failed, fails.\<close>

lemma io_bind_fails_late: "(\<And>x s'. f s = (Inr x, s') \<Longrightarrow> isl (fst (g x s'))) \<Longrightarrow> isl (fst (io_bind f g s))"
  by (auto simp: io_bind_def split: sum.splits prod.splits)

lemma io_then_fails_late: "(\<And>s'. isl (fst (g s'))) \<Longrightarrow> isl (fst (io_then f g s))"
  by (auto simp: io_then_def intro: io_bind_fails_late)

lemma io_bind_fails_early: "isl (fst (f s)) \<Longrightarrow> isl (fst (io_bind f g s))"
  by (auto simp: io_bind_def split: sum.splits prod.splits)

lemma io_try_ok: "f s = (Inr x, s') \<Longrightarrow> io_try f h g s = (Inr x, s')"
  by (simp add: io_try_def)

lemma io_try_handled: "f s = (Inl e, s') \<Longrightarrow> h e \<Longrightarrow> io_try f h g s = g s'"
  by (simp add: io_try_def)

lemma io_try_unhandled: "f s = (Inl e, s') \<Longrightarrow> \<not> h e \<Longrightarrow> io_try f h g s = (Inl e, s')"
  by (simp add: io_try_def)

end
