(* ===== verification/Files.thy ===== *)
theory Files
  imports Io ExecComponent
begin

text \<open>
  The file system as the Python code sees it through \<^verbatim>\<open>os\<close>, \<^verbatim>\<open>os.path\<close> and \<^verbatim>\<open>open\<close>: nodes under
  component paths, and the working directory. A path is resolved lexically (there are no
  symbolic links). Text mode encodes UTF-8 and translates line ends on reading; text outside
  Latin-1, which a \<open>string\<close> cannot hold, is refused like bytes that are no UTF-8. \<open>OSError\<close> stands
  for the subclasses of that name other than \<open>FileNotFoundError\<close>.
\<close>

section \<open>Paths as components\<close>

lemma str_split_append_slash:
  "str_split ''/'' (a @ CHR ''/'' # b) = str_split ''/'' a @ str_split ''/'' b"
proof (induction "length a" arbitrary: a rule: less_induct)
  case less
  show ?case
  proof (cases "CHR ''/'' \<in> set a")
    case True
    then obtain x r where a: "a = x @ CHR ''/'' # r" and x: "CHR ''/'' \<notin> set x"
      by (meson split_list_first)
    have "str_split ''/'' (r @ CHR ''/'' # b) = str_split ''/'' r @ str_split ''/'' b"
      by (rule less) (simp add: a)
    with x show ?thesis
      using str_split_field [of "''/''" x r] str_split_field [of "''/''" x "r @ CHR ''/'' # b"] a by simp
  next
    case False
    then show ?thesis
      using str_split_field [of "''/''" a b] str_split_last [of "''/''" a] by simp
  qed
qed

lemma str_split_no_slash: "x \<in> set (str_split ''/'' s) \<Longrightarrow> CHR ''/'' \<notin> set x"
proof (induction "length s" arbitrary: s rule: less_induct)
  case less
  show ?case
  proof (cases "CHR ''/'' \<in> set s")
    case True
    then obtain y r where s: "s = y @ CHR ''/'' # r" and y: "CHR ''/'' \<notin> set y"
      by (meson split_list_first)
    with less.prems have "x = y \<or> x \<in> set (str_split ''/'' r)"
      using str_split_field [of "''/''" y r] by simp
    with less.hyps [of r] s y show ?thesis by auto
  next
    case False
    with less.prems show ?thesis using str_split_last [of "''/''" s] by simp
  qed
qed

definition plain_name :: "string \<Rightarrow> bool" where
  "plain_name n \<longleftrightarrow> n \<noteq> [] \<and> CHR ''/'' \<notin> set n \<and> n \<noteq> ''.'' \<and> n \<noteq> ''..''"

definition norm_step :: "string \<Rightarrow> string list \<Rightarrow> string list" where
  "norm_step c new_comps =
     (if c = [] \<or> c = ''.'' then new_comps
      else if c \<noteq> ''..'' \<or> (new_comps \<noteq> [] \<and> hd new_comps = ''..'') then c # new_comps
      else if new_comps \<noteq> [] then tl new_comps else new_comps)"

lemma norm_components_fold: "norm_components True comps = rev (fold norm_step comps [])"
  unfolding norm_components_def
  by (rule arg_cong [where f = rev], rule List.fold_cong) (auto simp: norm_step_def fun_eq_iff)

lemma norm_step_plain [simp]: "plain_name n \<Longrightarrow> norm_step n cs = n # cs"
  by (simp add: norm_step_def plain_name_def)

lemma norm_step_empty [simp]: "norm_step [] cs = cs"
  by (simp add: norm_step_def)

lemma fold_norm_plain: "\<forall>c \<in> set cs. plain_name c \<Longrightarrow> fold norm_step cs acc = rev cs @ acc"
  by (induction cs arbitrary: acc) simp_all

lemma norm_step_clean:
  "\<forall>c \<in> set acc. plain_name c \<Longrightarrow> CHR ''/'' \<notin> set x \<Longrightarrow> \<forall>c \<in> set (norm_step x acc). plain_name c"
  by (cases acc) (auto simp: norm_step_def plain_name_def)

lemma fold_norm_clean:
  "\<forall>c \<in> set acc. plain_name c \<Longrightarrow> \<forall>x \<in> set xs. CHR ''/'' \<notin> set x \<Longrightarrow>
   \<forall>c \<in> set (fold norm_step xs acc). plain_name c"
proof (induction xs arbitrary: acc)
  case (Cons x xs)
  have "\<forall>c \<in> set (norm_step x acc). plain_name c"
    by (rule norm_step_clean [OF Cons.prems(1)]) (simp add: Cons.prems(2))
  from Cons.IH [OF this] Cons.prems(2) show ?case by simp
qed simp

lemma norm_components_clean:
  assumes "c \<in> set (norm_components True (str_split ''/'' s))"
  shows "plain_name c"
proof -
  have "\<forall>c \<in> set (fold norm_step (str_split ''/'' s) []). plain_name c"
    by (rule fold_norm_clean) (simp_all add: str_split_no_slash)
  with assms show ?thesis by (simp add: norm_components_fold)
qed

definition path_of :: "string \<Rightarrow> string \<Rightarrow> string list" where
  "path_of cwd p = norm_components True (str_split ''/'' (if starts_with ''/'' p then p else path_join cwd p))"

lemma starts_with_slash: "starts_with ''/'' p \<longleftrightarrow> (\<exists>q. p = CHR ''/'' # q)"
  by (simp add: starts_with_iff)

lemma plain_no_slash: "plain_name n \<Longrightarrow> \<not> starts_with ''/'' n"
  by (auto simp: plain_name_def starts_with_slash)

lemma split_path_join:
  assumes "plain_name n" and "p \<noteq> []"
  shows "norm_components True (str_split ''/'' (path_join p n)) = norm_components True (str_split ''/'' p) @ [n]"
proof -
  have n: "str_split ''/'' n = [n]"
    using assms(1) by (simp add: plain_name_def str_split_last)
  show ?thesis
  proof (cases "last p = CHR ''/''")
    case True
    then obtain q where p: "p = q @ ''/''" using assms(2) by (metis append_butlast_last_id)
    have e: "str_split ''/'' [] = [[]]" by (simp add: str_split_last)
    have "str_split ''/'' p = str_split ''/'' q @ [[]]"
      using str_split_append_slash [of q "[]"] p e by simp
    moreover have "path_join p n = q @ CHR ''/'' # n"
      using p assms plain_no_slash by (simp add: path_join_def)
    ultimately show ?thesis
      using str_split_append_slash [of q n] n assms(1) by (simp add: norm_components_fold)
  next
    case False
    then have "path_join p n = p @ CHR ''/'' # n"
      using assms plain_no_slash by (simp add: path_join_def)
    then show ?thesis
      using str_split_append_slash [of p n] n assms(1) by (simp add: norm_components_fold)
  qed
qed

lemma path_join_assoc:
  "q \<noteq> [] \<Longrightarrow> path_join p (path_join q r) = path_join (path_join p q) r"
  by (auto simp: path_join_def starts_with_slash neq_Nil_conv)

lemma starts_with_join: "q \<noteq> [] \<Longrightarrow> \<not> starts_with ''/'' r \<Longrightarrow> starts_with ''/'' (path_join q r) \<longleftrightarrow> starts_with ''/'' q"
  by (auto simp: path_join_def starts_with_slash neq_Nil_conv)

lemma path_of_join:
  assumes "plain_name n" and "p \<noteq> []"
  shows "path_of cwd (path_join p n) = path_of cwd p @ [n]"
proof (cases "starts_with ''/'' p")
  case True
  then show ?thesis
    using split_path_join [OF assms] starts_with_join [OF assms(2) plain_no_slash [OF assms(1)]]
    by (simp add: path_of_def)
next
  case False
  have "path_join cwd p \<noteq> []" using assms(2) by (simp add: path_join_def)
  then show ?thesis
    using False split_path_join [OF assms(1), of "path_join cwd p"]
      starts_with_join [OF assms(2) plain_no_slash [OF assms(1)]]
    by (simp add: path_of_def path_join_assoc assms(2))
qed

lemma path_join_nonempty [simp]: "plain_name n \<Longrightarrow> path_join p n \<noteq> []"
  by (auto simp: path_join_def plain_name_def)

lemma path_of_clean: "c \<in> set (path_of cwd p) \<Longrightarrow> plain_name c"
  unfolding path_of_def by (rule norm_components_clean)

lemma path_of_normpath:
  assumes "starts_with ''/'' q"
  shows "path_of cwd (normpath q) = norm_components True (str_split ''/'' q)"
proof -
  let ?cs = "norm_components True (str_split ''/'' q)"
  define slashes where "slashes = (if starts_with ''//'' q \<and> \<not> starts_with ''///'' q then ''//'' else ''/'')"
  then have sl: "slashes = ''/'' \<or> slashes = ''//''" by simp
  have np: "normpath q = slashes @ str_join ''/'' ?cs"
    using assms unfolding normpath_def slashes_def by (cases q) (simp_all add: Let_def starts_with_def)
  have e: "str_split ''/'' [] = [[]]" by (simp add: str_split_last)
  have split: "str_split ''/'' (str_join ''/'' ?cs) = (if ?cs = [] then [[]] else ?cs)"
    using split_join [of "''/''" ?cs] norm_components_clean e by (auto simp: plain_name_def)
  have one: "str_split ''/'' (CHR ''/'' # r) = [] # str_split ''/'' r" for r
    using str_split_append_slash [of "[]" r] e by simp
  have "str_split ''/'' (normpath q) = (if slashes = ''/'' then [[]] else [[], []]) @ (if ?cs = [] then [[]] else ?cs)"
    using sl np split one by auto
  then have "norm_components True (str_split ''/'' (normpath q)) = ?cs"
    using fold_norm_plain [of ?cs "[]"] norm_components_clean
    by (simp add: norm_components_fold)
  moreover have "starts_with ''/'' (normpath q)" using sl np by (auto simp: starts_with_slash)
  ultimately show ?thesis by (simp add: path_of_def)
qed

lemma path_of_abspath:
  assumes "starts_with ''/'' cwd"
  shows "path_of cwd (abspath cwd p) = path_of cwd p"
proof -
  have "starts_with ''/'' (if starts_with ''/'' p then p else path_join cwd p)"
    using assms by (auto simp: path_join_def starts_with_slash)
  from path_of_normpath [OF this] show ?thesis by (simp add: abspath_def path_of_def)
qed

lemma abspath_nonempty [simp]: "abspath cwd p \<noteq> []"
  by (simp add: abspath_def normpath_def Let_def)

section \<open>Text\<close>

fun utf8_decode :: "string \<Rightarrow> string option" where
  "utf8_decode [] = Some []"
| "utf8_decode (c # r) =
     (if (of_char c :: nat) < 128 then map_option (Cons c) (utf8_decode r)
      else case r of
        [] \<Rightarrow> None
      | d # r' \<Rightarrow>
          if (of_char c = (194 :: nat) \<or> of_char c = (195 :: nat)) \<and> 128 \<le> (of_char d :: nat) \<and> (of_char d :: nat) < 192
          then map_option (Cons (char_of ((of_char c - 192) * 64 + (of_char d - 128 :: nat)))) (utf8_decode r')
          else None)"

lemma utf8_decode_char: "utf8_decode (utf8_char c @ r) = map_option (Cons c) (utf8_decode r)"
proof (cases "(of_char c :: nat) < 128")
  case True
  then show ?thesis by (simp add: utf8_char_def Let_def)
next
  case False
  let ?n = "of_char c :: nat"
  have lt: "?n < 256" using of_char_mod_256 [of c, where ?'a = nat] by (metis mod_less_divisor zero_less_numeral)
  have q: "?n div 64 = 2 \<or> ?n div 64 = 3" using False lt by linarith
  have l: "(of_char (char_of (192 + ?n div 64) :: char) :: nat) = 192 + ?n div 64"
    and m: "(of_char (char_of (128 + ?n mod 64) :: char) :: nat) = 128 + ?n mod 64"
    using utf8_lead_byte [OF lt] by auto
  have "?n div 64 * 64 + ?n mod 64 = ?n" by simp
  then have "char_of (?n div 64 * 64 + ?n mod 64) = c" using char_of_char [of c, where ?'a = nat] by simp
  then have c: "?n div 64 = 2 \<Longrightarrow> char_of (128 + ?n mod 64) = c" "?n div 64 = 3 \<Longrightarrow> char_of (192 + ?n mod 64) = c"
    by simp_all
  have "?n mod 64 < 64" by simp
  then show ?thesis using False q c by (auto simp: utf8_char_def Let_def l m)
qed

lemma utf8_decode_utf8 [simp]: "utf8_decode (utf8 s) = Some s"
  by (induction s) (simp_all add: utf8_def utf8_decode_char)

lemma utf8_char_pair:
  assumes "of_char c = (194 :: nat) \<or> of_char c = (195 :: nat)" and "128 \<le> (of_char d :: nat)" and "(of_char d :: nat) < 192"
  shows "utf8_char (char_of ((of_char c - 192) * 64 + (of_char d - 128 :: nat))) = [c, d]"
proof -
  let ?c = "of_char c :: nat" and ?d = "of_char d :: nat"
  let ?n = "(?c - 192) * 64 + (?d - 128)"
  have "?n < 256" and ge: "128 \<le> ?n" using assms by auto
  then have n: "(of_char (char_of ?n :: char) :: nat) = ?n" by (simp add: of_char_of)
  have "?n mod 64 = ?d - 128" using assms(2,3) mod_mult_self3 [of "?c - 192" 64 "?d - 128"] mod_less [of "?d - 128" 64] by linarith
  then have "192 + ?n div 64 = ?c" and "128 + ?n mod 64 = ?d" using assms by auto
  then show ?thesis using n ge by (simp add: utf8_char_def Let_def)
qed

lemma utf8_decode_Some: "utf8_decode t = Some s \<Longrightarrow> t = utf8 s"
proof (induction t arbitrary: s rule: utf8_decode.induct)
  case (2 c r)
  show ?case
  proof (cases "(of_char c :: nat) < 128")
    case True
    with 2 obtain s' where "utf8_decode r = Some s'" "s = c # s'" by auto
    with 2(1) True show ?thesis by (auto simp: utf8_def utf8_char_def)
  next
    case False
    then obtain d r' s' where r: "r = d # r'" "utf8_decode r' = Some s'"
      and d: "of_char c = (194 :: nat) \<or> of_char c = (195 :: nat)" "128 \<le> (of_char d :: nat)" "(of_char d :: nat) < 192"
      and s: "s = char_of ((of_char c - 192) * 64 + (of_char d - 128 :: nat)) # s'"
      using 2(3) by (auto split: list.splits if_splits)
    have "r' = utf8 s'" using 2(2) False r d by simp
    with utf8_char_pair [OF d] r s show ?thesis by (simp add: utf8_def)
  qed
qed (simp add: utf8_def)

text \<open>Universal newlines, on reading in text mode.\<close>

fun universal_newlines :: "string \<Rightarrow> string" where
  "universal_newlines [] = []"
| "universal_newlines (c # s) =
     (if c = CHR 0x0D then CHR 0x0A # universal_newlines (if s \<noteq> [] \<and> hd s = CHR 0x0A then tl s else s)
      else c # universal_newlines s)"

lemma universal_newlines_id: "CHR 0x0D \<notin> set s \<Longrightarrow> universal_newlines s = s"
  by (induction s) auto

section \<open>The file system\<close>

datatype node = Dir | File string

type_synonym fs = "(string list, node) odict"

record file_world =
  fw_cwd :: string
  fw_files :: fs
  fw_time :: "nat \<Rightarrow> string"
  fw_clock :: nat

text \<open>\<open>time.time()\<close>, printed; two readings may agree.\<close>

definition time_now :: "('z file_world_scheme, string) io" where
  "time_now w = (Inr (fw_time w (fw_clock w)), w\<lparr>fw_clock := Suc (fw_clock w)\<rparr>)"

definition fs_node :: "fs \<Rightarrow> string list \<Rightarrow> node option" where
  "fs_node fs p = (if p = [] then Some Dir else od_get fs p)"

definition resolve :: "'z file_world_scheme \<Rightarrow> string \<Rightarrow> string list" where
  "resolve w p = path_of (fw_cwd w) p"

definition node_at :: "'z file_world_scheme \<Rightarrow> string \<Rightarrow> node option" where
  "node_at w p = (if p = [] then None else fs_node (fw_files w) (resolve w p))"

definition path_exists :: "string \<Rightarrow> 'z file_world_scheme \<Rightarrow> bool" where
  "path_exists p w \<longleftrightarrow> node_at w p \<noteq> None"

definition set_node :: "string list \<Rightarrow> node \<Rightarrow> 'z file_world_scheme \<Rightarrow> 'z file_world_scheme" where
  "set_node p n w = w\<lparr>fw_files := od_set p n (fw_files w)\<rparr>"

text \<open>\<open>os.makedirs\<close>: the missing directories from the top.\<close>

fun make_dirs :: "string list \<Rightarrow> string list \<Rightarrow> fs \<Rightarrow> fs result" where
  "make_dirs upper [] fs = Inr fs"
| "make_dirs upper (c # cs) fs =
     (case fs_node fs (upper @ [c]) of
        None \<Rightarrow> make_dirs (upper @ [c]) cs (od_set (upper @ [c]) Dir fs)
      | Some Dir \<Rightarrow> make_dirs (upper @ [c]) cs fs
      | Some (File _) \<Rightarrow> Inl OSError)"

definition makedirs :: "bool \<Rightarrow> string \<Rightarrow> ('z file_world_scheme, unit) io" where
  "makedirs exist_ok p w =
     (if p = [] then (Inl FileNotFoundError, w)
      else if \<not> exist_ok \<and> path_exists p w then (Inl OSError, w)
      else case make_dirs [] (resolve w p) (fw_files w) of
        Inl e \<Rightarrow> (Inl e, w)
      | Inr fs \<Rightarrow> (Inr (), w\<lparr>fw_files := fs\<rparr>))"

definition read_bytes :: "string \<Rightarrow> ('z file_world_scheme, string) io" where
  "read_bytes p w =
     (case node_at w p of
        None \<Rightarrow> (Inl FileNotFoundError, w)
      | Some Dir \<Rightarrow> (Inl OSError, w)
      | Some (File s) \<Rightarrow> (Inr s, w))"

text \<open>Opening for writing empties or creates the file; its directory must exist.\<close>

definition write_bytes :: "string \<Rightarrow> string \<Rightarrow> ('z file_world_scheme, unit) io" where
  "write_bytes p s w =
     (if p = [] then (Inl FileNotFoundError, w)
      else case node_at w p of
        Some Dir \<Rightarrow> (Inl OSError, w)
      | Some (File _) \<Rightarrow> (Inr (), set_node (resolve w p) (File s) w)
      | None \<Rightarrow>
          (case fs_node (fw_files w) (butlast (resolve w p)) of
             None \<Rightarrow> (Inl FileNotFoundError, w)
           | Some (File _) \<Rightarrow> (Inl OSError, w)
           | Some Dir \<Rightarrow> (Inr (), set_node (resolve w p) (File s) w)))"

definition read_str :: "string \<Rightarrow> ('z file_world_scheme, string) io" where
  "read_str p =
     io_bind (read_bytes p) (\<lambda>b.
       case utf8_decode b of None \<Rightarrow> io_raise ValueError | Some s \<Rightarrow> io_return (universal_newlines s))"

definition write_str :: "string \<Rightarrow> string \<Rightarrow> ('z file_world_scheme, unit) io" where
  "write_str p s = write_bytes p (utf8 s)"

text \<open>\<open>os.rename\<close> of a file: the target's directory must exist, a file there is replaced.\<close>

definition rename_file :: "string \<Rightarrow> string \<Rightarrow> ('z file_world_scheme, unit) io" where
  "rename_file src dst =
     io_bind (read_bytes src) (\<lambda>s. io_bind io_get (\<lambda>w0.
     io_then (write_bytes dst s)
       (if resolve w0 src = resolve w0 dst then io_return ()
        else io_modify (\<lambda>w. w\<lparr>fw_files := od_del (resolve w src) (fw_files w)\<rparr>))))"

text \<open>\<open>os.scandir\<close>: names and whether they are directories, in the order the file system gives.\<close>

definition dir_entries :: "fs \<Rightarrow> string list \<Rightarrow> (string \<times> bool) list" where
  "dir_entries fs d = map (\<lambda>(p, n). (last p, n = Dir)) (filter (\<lambda>(p, n). p \<noteq> [] \<and> butlast p = d) fs)"

definition scandir :: "string \<Rightarrow> ('z file_world_scheme, (string \<times> bool) list) io" where
  "scandir p w =
     (case node_at w p of
        None \<Rightarrow> (Inl FileNotFoundError, w)
      | Some (File _) \<Rightarrow> (Inl OSError, w)
      | Some Dir \<Rightarrow> (Inr (dir_entries (fw_files w) (resolve w p)), w))"

text \<open>Reading in chunks of \<open>n\<close> bytes until an empty chunk: \<open>read(0)\<close> is empty, a negative size reads all.\<close>

function read_chunks :: "int \<Rightarrow> string \<Rightarrow> string list" where
  "read_chunks n s =
     (if s = [] \<or> n = 0 then []
      else if n < 0 then [s]
      else take (nat n) s # read_chunks n (drop (nat n) s))"
  by pat_completeness auto
termination by (relation "measure (\<lambda>(n, s). length s)") auto

declare read_chunks.simps [simp del]

lemma concat_read_chunks: "n \<noteq> 0 \<Longrightarrow> concat (read_chunks n s) = s"
proof (induction n s rule: read_chunks.induct)
  case (1 n s)
  then show ?case by (subst read_chunks.simps) simp
qed

lemma read_chunks_0 [simp]: "read_chunks 0 s = []"
  by (simp add: read_chunks.simps)

section \<open>Laws of the operations\<close>

definition nodes :: "'z file_world_scheme \<Rightarrow> string list \<Rightarrow> node option" where
  "nodes w p = fs_node (fw_files w) p"

definition fs_wf :: "'z file_world_scheme \<Rightarrow> bool" where
  "fs_wf w \<longleftrightarrow> distinct (od_keys (fw_files w)) \<and> starts_with ''/'' (fw_cwd w)
     \<and> (\<forall>p c. nodes w (p @ [c]) \<noteq> None \<longrightarrow> nodes w p = Some Dir)"

lemma nodes_root [simp]: "nodes w [] = Some Dir"
  by (simp add: nodes_def fs_node_def)

lemma nodes_set_node [simp]:
  "nodes (set_node p n w) q = (if q = p \<and> p \<noteq> [] then Some n else nodes w q)"
  by (simp add: nodes_def fs_node_def set_node_def od_simps)

lemma nodes_del:
  "nodes (w\<lparr>fw_files := od_del p (fw_files w)\<rparr>) q = (if q = p \<and> p \<noteq> [] then None else nodes w q)"
  by (simp add: nodes_def fs_node_def od_simps)

lemma nodes_more [simp]:
  "nodes (w\<lparr>fw_clock := n\<rparr>) = nodes w"
  "nodes (w\<lparr>fw_cwd := d\<rparr>) = nodes w"
  by (simp_all add: nodes_def fun_eq_iff)

lemma node_at_nodes: "node_at w p = (if p = [] then None else nodes w (resolve w p))"
  by (simp add: node_at_def nodes_def)

lemma set_node_fields [simp]:
  "fw_cwd (set_node p n w) = fw_cwd w"
  "fw_time (set_node p n w) = fw_time w"
  "fw_clock (set_node p n w) = fw_clock w"
  "resolve (set_node p n w) q = resolve w q"
  "resolve (w\<lparr>fw_clock := t\<rparr>) q = resolve w q"
  "resolve (w\<lparr>fw_files := f\<rparr>) q = resolve w q"
  by (simp_all add: set_node_def resolve_def)

lemma resolve_join [simp]:
  "plain_name n \<Longrightarrow> p \<noteq> [] \<Longrightarrow> resolve w (path_join p n) = resolve w p @ [n]"
  by (simp add: resolve_def path_of_join)

lemma resolve_abspath: "fs_wf w \<Longrightarrow> resolve w (abspath (fw_cwd w) p) = resolve w p"
  by (simp add: resolve_def fs_wf_def path_of_abspath)

lemma read_bytes_ok: "p \<noteq> [] \<Longrightarrow> nodes w (resolve w p) = Some (File b) \<Longrightarrow> read_bytes p w = (Inr b, w)"
  by (simp add: read_bytes_def node_at_nodes)

lemma read_bytes_absent: "nodes w (resolve w p) = None \<Longrightarrow> read_bytes p w = (Inl FileNotFoundError, w)"
  by (simp add: read_bytes_def node_at_nodes)

lemma write_bytes_ok:
  assumes "p \<noteq> []" and "nodes w (resolve w p) \<noteq> Some Dir" and "nodes w (butlast (resolve w p)) = Some Dir"
  shows "write_bytes p b w = (Inr (), set_node (resolve w p) (File b) w)"
  using assms
  by (auto simp: write_bytes_def node_at_nodes nodes_def [symmetric] split: option.splits node.splits)

lemma read_str_ok:
  assumes "p \<noteq> []" and "nodes w (resolve w p) = Some (File (utf8 s))" and "CHR 0x0D \<notin> set s"
  shows "read_str p w = (Inr s, w)"
  using assms by (simp add: read_str_def io_bind_def read_bytes_ok universal_newlines_id)

lemma make_dirs_ok:
  assumes "\<And>q. q \<noteq> [] \<Longrightarrow> \<exists>r. p = q @ r \<Longrightarrow> \<not> (\<exists>b. fs_node fs (up @ q) = Some (File b))"
    and "distinct (od_keys fs)"
  shows "\<exists>fs'. make_dirs up p fs = Inr fs' \<and> distinct (od_keys fs')
    \<and> (\<forall>q. fs_node fs' q = (if \<exists>x r. x \<noteq> [] \<and> p = x @ r \<and> q = up @ x then Some Dir else fs_node fs q))"
  using assms
proof (induction p arbitrary: up fs)
  case Nil
  then show ?case by simp
next
  case (Cons c cs)
  have notfile: "\<not> (\<exists>b. fs_node fs (up @ [c]) = Some (File b))"
    using Cons.prems(1) [of "[c]"] by simp
  define fs1 where "fs1 = (case fs_node fs (up @ [c]) of None \<Rightarrow> od_set (up @ [c]) Dir fs | _ \<Rightarrow> fs)"
  have step: "make_dirs up (c # cs) fs = make_dirs (up @ [c]) cs fs1"
    using notfile by (auto simp: fs1_def split: option.splits node.splits)
  have fs1: "fs_node fs1 q = (if q = up @ [c] then Some Dir else fs_node fs q)" for q
    using notfile by (auto simp: fs1_def fs_node_def od_simps split: option.splits) (metis node.exhaust)+
  have d1: "distinct (od_keys fs1)"
    using Cons.prems(2) by (auto simp: fs1_def od_simps split: option.splits)
  have "\<not> (\<exists>b. fs_node fs1 ((up @ [c]) @ q) = Some (File b))" if "q \<noteq> []" "\<exists>r. cs = q @ r" for q
    using that Cons.prems(1) [of "c # q"] by (simp add: fs1)
  from Cons.IH [OF this d1] obtain fs' where fs': "make_dirs (up @ [c]) cs fs1 = Inr fs'" "distinct (od_keys fs')"
    and n: "\<And>q. fs_node fs' q = (if \<exists>x r. x \<noteq> [] \<and> cs = x @ r \<and> q = (up @ [c]) @ x then Some Dir else fs_node fs1 q)"
    by blast
  have "(\<exists>x r. x \<noteq> [] \<and> c # cs = x @ r \<and> q = up @ x)
      \<longleftrightarrow> q = up @ [c] \<or> (\<exists>x r. x \<noteq> [] \<and> cs = x @ r \<and> q = (up @ [c]) @ x)" for q
    by (auto simp: Cons_eq_append_conv)
  with n fs1 have "fs_node fs' q = (if \<exists>x r. x \<noteq> [] \<and> c # cs = x @ r \<and> q = up @ x then Some Dir else fs_node fs q)" for q
    by auto
  with fs' step show ?case by auto
qed

text \<open>No file lies on the way to \<open>p\<close>.\<close>

definition way_free :: "'z file_world_scheme \<Rightarrow> string list \<Rightarrow> bool" where
  "way_free w p \<longleftrightarrow> (\<forall>q r b. p = q @ r \<longrightarrow> nodes w q \<noteq> Some (File b))"

definition is_prefix :: "string list \<Rightarrow> string list \<Rightarrow> bool" where
  is_prefix_take: "is_prefix q p \<longleftrightarrow> take (length q) p = q"

lemma is_prefix_def: "is_prefix q p \<longleftrightarrow> (\<exists>r. p = q @ r)"
  unfolding is_prefix_take by (metis append_eq_conv_conj append_take_drop_id)

lemma makedirs_ok:
  assumes "p \<noteq> []" and "fs_wf w" and "way_free w (resolve w p)" and "exist_ok \<or> \<not> path_exists p w"
  shows "\<exists>fs'. makedirs exist_ok p w = (Inr (), w\<lparr>fw_files := fs'\<rparr>) \<and> distinct (od_keys fs')
    \<and> (\<forall>q. nodes (w\<lparr>fw_files := fs'\<rparr>) q = (if is_prefix q (resolve w p) then Some Dir else nodes w q))"
proof -
  have "\<exists>fs'. make_dirs [] (resolve w p) (fw_files w) = Inr fs' \<and> distinct (od_keys fs')
    \<and> (\<forall>q. fs_node fs' q = (if \<exists>x r. x \<noteq> [] \<and> resolve w p = x @ r \<and> q = [] @ x then Some Dir else fs_node (fw_files w) q))"
    using assms by (intro make_dirs_ok) (auto simp: way_free_def nodes_def fs_wf_def)
  then obtain fs' where fs': "make_dirs [] (resolve w p) (fw_files w) = Inr fs'" "distinct (od_keys fs')"
    and n: "\<And>q. fs_node fs' q = (if \<exists>x r. x \<noteq> [] \<and> resolve w p = x @ r \<and> q = x then Some Dir else fs_node (fw_files w) q)"
    by auto
  have "nodes (w\<lparr>fw_files := fs'\<rparr>) q = (if is_prefix q (resolve w p) then Some Dir else nodes w q)" for q
    using n [of q] by (cases "q = []") (auto simp: nodes_def is_prefix_def fs_node_def)
  with fs' assms(1,4) show ?thesis by (auto simp: makedirs_def)
qed

lemma nodes_parents: "fs_wf w \<Longrightarrow> nodes w (p @ r) \<noteq> None \<Longrightarrow> r \<noteq> [] \<Longrightarrow> nodes w p = Some Dir"
proof (induction r rule: rev_induct)
  case (snoc c r)
  then have "nodes w (p @ r) = Some Dir" by (auto simp: fs_wf_def simp flip: append_assoc)
  with snoc show ?case by (cases r) auto
qed simp

text \<open>\<open>if not exists: makedirs\<close>, the way the code creates directories.\<close>

definition check_or_create_dir :: "string \<Rightarrow> ('z file_world_scheme, unit) io" where
  "check_or_create_dir p w = (if path_exists p w then (Inr (), w) else makedirs True p w)"

lemma check_or_create_dir_ok:
  assumes "p \<noteq> []" and wf: "fs_wf w" and free: "way_free w (resolve w p)"
  shows "\<exists>fs'. check_or_create_dir p w = (Inr (), w\<lparr>fw_files := fs'\<rparr>) \<and> distinct (od_keys fs')
    \<and> (\<forall>q. nodes (w\<lparr>fw_files := fs'\<rparr>) q = (if is_prefix q (resolve w p) then Some Dir else nodes w q))"
proof (cases "path_exists p w")
  case True
  then have ex: "nodes w (resolve w p) \<noteq> None" using assms(1) by (simp add: path_exists_def node_at_nodes)
  have "nodes w q = Some Dir" if pre: "is_prefix q (resolve w p)" for q
  proof -
    from pre obtain r where r: "resolve w p = q @ r" by (auto simp: is_prefix_def)
    have "nodes w q \<noteq> None" using ex r nodes_parents [OF wf, of q r] by (cases "r = []") auto
    moreover have "nodes w q \<noteq> Some (File b)" for b using free r by (auto simp: way_free_def)
    ultimately show ?thesis by (metis node.exhaust option.exhaust)
  qed
  then have "\<forall>q. nodes (w\<lparr>fw_files := fw_files w\<rparr>) q = (if is_prefix q (resolve w p) then Some Dir else nodes w q)"
    by simp
  moreover have "check_or_create_dir p w = (Inr (), w\<lparr>fw_files := fw_files w\<rparr>)"
    using True by (simp add: check_or_create_dir_def)
  ultimately show ?thesis using wf unfolding fs_wf_def by blast
next
  case False
  then show ?thesis using makedirs_ok [OF assms, of True] by (simp add: check_or_create_dir_def)
qed

lemma dir_entries_iff:
  assumes "fs_wf w"
  shows "(n, d) \<in> set (dir_entries (fw_files w) p) \<longleftrightarrow> (\<exists>x. nodes w (p @ [n]) = Some x \<and> d = (x = Dir))"
proof -
  have "od_get (fw_files w) q = Some x \<longleftrightarrow> (q, x) \<in> set (fw_files w)" for q x
    using assms by (intro od_get_Some_iff) (simp add: fs_wf_def)
  then have q: "nodes w (p @ [n]) = Some x \<longleftrightarrow> (p @ [n], x) \<in> set (fw_files w)" for x
    by (simp add: nodes_def fs_node_def)
  have "(n, d) \<in> set (dir_entries (fw_files w) p)
      \<longleftrightarrow> (\<exists>k x. (k, x) \<in> set (fw_files w) \<and> k \<noteq> [] \<and> butlast k = p \<and> n = last k \<and> d = (x = Dir))"
    by (auto simp: dir_entries_def image_iff)
  moreover have "k \<noteq> [] \<and> butlast k = p \<and> n = last k \<longleftrightarrow> k = p @ [n]" for k :: "string list"
    by auto
  ultimately show ?thesis unfolding q by (metis append_butlast_last_id butlast_snoc last_snoc snoc_eq_iff_butlast)
qed

end
