(* ===== verification/TrialTree.thy ===== *)
theory TrialTree
  imports Files MetaConfig
begin

text \<open>
  \<^verbatim>\<open>pysrc/pipeman/TrialTree.py\<close>: the tree of candidate pipelines a merge or a commit searches. A Python set is a
  list without duplicates; the order in which the keys of a stage become the children of a node is the
  argument \<open>arrange\<close> (of the path to the node). Node copies in the candidate lists are the nodes' own fields: the
  children of a copy are never read. Measured times and sizes are left out.
\<close>

section \<open>Nodes and trees\<close>

record trial_node =
  tn_key :: meta_key
  tn_ws_key :: "meta_key option"
  tn_trained :: bool
  tn_pruned :: bool
  tn_output :: json
  tn_params :: json

datatype 'a rose = Rose (rose_root: 'a) (rose_children: "'a rose list")

type_synonym trial_tree = "trial_node rose"

definition ROOT_KEY :: meta_key where
  "ROOT_KEY = mk_key ''TrialTree'' ''root'' build_zero_version"

definition mk_node :: "meta_key \<Rightarrow> bool \<Rightarrow> trial_node" where
  "mk_node k trained =
     \<lparr>tn_key = k, tn_ws_key = None, tn_trained = trained, tn_pruned = False, tn_output = JStr [], tn_params = JObj []\<rparr>"

definition is_root_key :: "meta_key \<Rightarrow> bool" where
  "is_root_key k \<longleftrightarrow> component_type k = ''TrialTree''"

definition node_key_str :: "trial_node \<Rightarrow> string" where
  "node_key_str n = (if is_root_key (tn_key n) then [] else to_string True (tn_key n))"

definition empty_tree :: trial_tree where
  "empty_tree = Rose (mk_node ROOT_KEY True) []"

fun nodes_at_level :: "nat \<Rightarrow> 'a rose \<Rightarrow> 'a rose list" where
  "nodes_at_level 0 t = [t]"
| "nodes_at_level (Suc l) t = concat (map rose_children (nodes_at_level l t))"

text \<open>New children for every node of a level.\<close>

fun add_at_level :: "nat \<Rightarrow> (meta_key list \<Rightarrow> trial_tree list) \<Rightarrow> meta_key list \<Rightarrow> trial_tree \<Rightarrow> trial_tree" where
  "add_at_level 0 kids path (Rose n cs) = Rose n (cs @ kids path)"
| "add_at_level (Suc i) kids path (Rose n cs) =
     Rose n (map (\<lambda>c. add_at_level i kids (path @ [tn_key (rose_root c)]) c) cs)"

type_synonym stages = "(nat, meta_key list) odict"

definition new_child :: "meta_key \<Rightarrow> trial_tree" where
  "new_child k = Rose (mk_node k (component_type k = GENERIC_DATASET_KEY)) []"

definition add_nodes ::
    "(meta_key list \<Rightarrow> meta_key list \<Rightarrow> meta_key list) \<Rightarrow> stages \<Rightarrow> nat \<Rightarrow> trial_tree \<Rightarrow> trial_tree result" where
  "add_nodes arrange stage_dict depth t =
     res_fold (\<lambda>i t. res_bind (od_item stage_dict i) (\<lambda>key_set.
       Inr (add_at_level i (\<lambda>path. map new_child (arrange path key_set)) [] t))) [0..<depth] t"

section \<open>Stages and compatibility\<close>

definition set_add :: "'a \<Rightarrow> 'a list \<Rightarrow> 'a list" where
  "set_add x xs = (if x \<in> set xs then xs else xs @ [x])"

fun add_pipeline :: "nat \<Rightarrow> meta_key list \<Rightarrow> stages \<times> nat \<Rightarrow> stages \<times> nat" where
  "add_pipeline i [] acc = acc"
| "add_pipeline i (k # ks) (st, depth) =
     add_pipeline (Suc i) ks
       (od_set i (set_add k (case od_get st i of None \<Rightarrow> [] | Some s \<Rightarrow> s)) st, if depth < i then i else depth)"

definition init_stage_dict :: "icp list \<Rightarrow> (stages \<times> nat) result" where
  "init_stage_dict workspaces =
     res_bind (res_fold (\<lambda>ws acc. res_bind (workspace_pipeline ws) (\<lambda>p. Inr (add_pipeline 0 p acc))) workspaces ([], 0))
       (\<lambda>(stages, depth). Inr (stages, depth + 1))"

text \<open>\<open>_init_compatibility_dict\<close>, which the tree does not use: neighbours of every pipeline, \<open>None\<close> before the first.\<close>

fun neighbours :: "meta_key option \<Rightarrow> meta_key list \<Rightarrow> (meta_key option \<times> meta_key) list" where
  "neighbours prev [] = []"
| "neighbours prev (k # ks) = (prev, k) # neighbours (Some k) ks"

definition init_compatibility_dict :: "icp list \<Rightarrow> (meta_key option \<times> meta_key) list result" where
  "init_compatibility_dict workspaces =
     res_fold (\<lambda>ws acc. res_bind (workspace_pipeline ws) (\<lambda>p. Inr (fold set_add (neighbours None p) acc))) workspaces []"

type_synonym api_sets = "(int, meta_key list) odict"

definition api_add :: "int \<Rightarrow> meta_key \<Rightarrow> api_sets \<Rightarrow> api_sets" where
  "api_add a k d = od_set a (set_add k (case od_get d a of None \<Rightarrow> [] | Some s \<Rightarrow> s)) d"

definition group_stage :: "nat \<Rightarrow> icp \<Rightarrow> api_sets \<times> api_sets \<Rightarrow> (api_sets \<times> api_sets) result" where
  "group_stage i ws acc =
     res_bind (workspace_pipeline ws) (\<lambda>p.
     res_bind (py_index p (int i)) (\<lambda>current_stage_key.
     res_bind (py_index p (int (i + 1))) (\<lambda>next_stage_key.
       let a = api_version (component_version current_stage_key)
       in Inr (api_add a current_stage_key (fst acc), api_add a next_stage_key (snd acc)))))"

type_synonym compat = "(meta_key \<times> meta_key) list"

definition stage_compat :: "icp list \<Rightarrow> nat \<Rightarrow> compat \<Rightarrow> compat result" where
  "stage_compat workspaces i compatibility_set =
     res_bind (res_fold (group_stage i) workspaces ([], [])) (\<lambda>(current_stage, next_stage).
     res_fold (\<lambda>(api_level, key_set1) acc.
       res_bind (od_item next_stage api_level) (\<lambda>key_set2.
         Inr (fold set_add (List.product key_set1 key_set2) acc))) current_stage compatibility_set)"

definition init_compatibility_dict2 :: "icp list \<Rightarrow> compat result" where
  "init_compatibility_dict2 workspaces =
     res_bind (py_index workspaces 0) (\<lambda>w0.
     res_bind (workspace_pipeline w0) (\<lambda>p0.
       res_fold (stage_compat workspaces) [0..<length p0 - 1] []))"

section \<open>Pruning\<close>

text \<open>A depth-first walk; the second component is the list of candidates, each the nodes of a path below the root.\<close>

fun dfs_prune :: "compat \<Rightarrow> trial_node list \<Rightarrow> trial_tree \<Rightarrow> trial_tree \<times> trial_node list list"
  and prune_children :: "compat \<Rightarrow> trial_node list \<Rightarrow> trial_node \<Rightarrow> trial_tree list \<Rightarrow> trial_tree list \<times> trial_node list list"
  where
  "dfs_prune comp_dict walking (Rose n cs) =
     (if cs = [] then (Rose n [], [walking])
      else let (cs', walked) = prune_children comp_dict walking n cs in (Rose n cs', walked))"
| "prune_children comp_dict walking n [] = ([], [])"
| "prune_children comp_dict walking n (Rose m ds # cs) =
     (let (t, here) =
        (if (tn_key n, tn_key m) \<notin> set comp_dict \<and> \<not> is_root_key (tn_key n) then (Rose (m\<lparr>tn_pruned := True\<rparr>) ds, [])
         else dfs_prune comp_dict (walking @ [m]) (Rose m ds));
        (ts, more) = prune_children comp_dict walking n cs
      in (t # ts, here @ more))"

section \<open>Training status\<close>

fun split_child :: "meta_key \<Rightarrow> trial_tree list \<Rightarrow> (trial_tree list \<times> trial_tree \<times> trial_tree list) option" where
  "split_child k [] = None"
| "split_child k (t # ts) =
     (if tn_key (rose_root t) = k then Some ([], t, ts)
      else map_option (\<lambda>(pre, x, post). (t # pre, x, post)) (split_child k ts))"

fun json_item :: "json \<Rightarrow> string \<Rightarrow> json result" where
  "json_item (JObj kvs) k = od_item kvs k"
| "json_item _ k = Inl TypeError"

definition mark_node :: "icp \<Rightarrow> trial_node \<Rightarrow> trial_node result" where
  "mark_node workspace n =
     res_bind
       (if component_type (tn_key n) = GENERIC_LIBRARY_KEY then
          res_bind (res_bind (workspace_outputs workspace) (\<lambda>j. json_item j (to_string True (tn_key n)))) (\<lambda>out.
          res_bind (res_bind (workspace_params workspace) (\<lambda>j. json_item j (to_string True (tn_key n)))) (\<lambda>params.
            Inr (n\<lparr>tn_output := out, tn_params := params\<rparr>)))
        else Inr n) (\<lambda>n'.
     res_bind (meta_key_of workspace) (\<lambda>ws_key.
       Inr (n'\<lparr>tn_trained := True, tn_ws_key := Some ws_key\<rparr>)))"

text \<open>A component without a node of its key is passed over: the search goes on at the same node.\<close>

fun mark_trained :: "icp \<Rightarrow> meta_key list \<Rightarrow> trial_tree \<Rightarrow> trial_tree result" where
  "mark_trained workspace [] t = Inr t"
| "mark_trained workspace (k # ks) t =
     (case split_child k (rose_children t) of
        None \<Rightarrow> mark_trained workspace ks t
      | Some (pre, c, post) \<Rightarrow>
          res_bind (mark_node workspace (rose_root c)) (\<lambda>m.
          res_bind (mark_trained workspace ks (Rose m (rose_children c))) (\<lambda>c'.
            Inr (Rose (rose_root t) (pre @ c' # post)))))"

fun json_len :: "json \<Rightarrow> nat result" where
  "json_len (JStr s) = Inr (length s)"
| "json_len (JList xs) = Inr (length xs)"
| "json_len (JObj kvs) = Inr (length kvs)"
| "json_len _ = Inl TypeError"

text \<open>\<open>try: trained = len(workspace.outputs) != 0\<close>, any exception meaning no.\<close>

definition has_outputs :: "icp \<Rightarrow> bool" where
  "has_outputs workspace =
     (case res_bind (workspace_outputs workspace) json_len of Inl _ \<Rightarrow> False | Inr n \<Rightarrow> n \<noteq> 0)"

section \<open>The constructor\<close>

record trial_state =
  tt_compat :: compat
  tt_tree :: trial_tree
  tt_walked :: "trial_node list list"

definition trial_tree_init :: "(meta_key list \<Rightarrow> meta_key list \<Rightarrow> meta_key list) \<Rightarrow> icp list \<Rightarrow> trial_state result" where
  "trial_tree_init arrange workspaces =
     res_bind (init_stage_dict workspaces) (\<lambda>(stage_dict, depth).
     res_bind (init_compatibility_dict2 workspaces) (\<lambda>comp_dict.
     res_bind (add_nodes arrange stage_dict depth empty_tree) (\<lambda>t0.
     let t1 = fst (dfs_prune comp_dict [] t0)
     in res_bind (res_fold (\<lambda>ws t.
            if has_outputs ws then res_bind (workspace_pipeline ws) (\<lambda>p. mark_trained ws p t) else Inr t) workspaces t1) (\<lambda>t2.
        let (t3, walked) = dfs_prune comp_dict [] t2
        in Inr \<lparr>tt_compat = comp_dict, tt_tree = t3, tt_walked = walked\<rparr>))))"

definition candidate_node_lists :: "trial_state \<Rightarrow> trial_node list list" where
  "candidate_node_lists tt = tt_walked tt"

section \<open>Training\<close>

record run_options =
  op_base_dir :: string
  op_venv_dir :: string
  op_temp_dir :: string
  op_output_dir :: string

definition make_missing :: "string \<Rightarrow> ('z file_world_scheme, unit) io" where
  "make_missing p w = (if path_exists p w then (Inr (), w) else makedirs False p w)"

definition generate_options :: "string \<Rightarrow> ('z file_world_scheme, run_options) io" where
  "generate_options base_dir =
     (let venv_dir = path_join base_dir ''venv/'';
          temp_dir = path_join base_dir ''temp/'';
          output_dir = path_join base_dir ''output/''
      in io_then (make_missing base_dir)
         (io_then (make_missing venv_dir)
         (io_then (make_missing temp_dir)
         (io_then (make_missing output_dir)
         (io_return \<lparr>op_base_dir = base_dir, op_venv_dir = venv_dir, op_temp_dir = temp_dir, op_output_dir = output_dir\<rparr>)))))"

text \<open>
  The nodes on the way down are the objects the training function is given, so what it stores in them is
  seen by every later path through them: the walk returns them updated. \<open>mkdtemp\<close> creates a fresh directory.
  The walk returns the nodes, the tree, the paths trained and the directories made.
\<close>

fun dfs_train ::
    "('z file_world_scheme, string) io \<Rightarrow> (trial_node list \<Rightarrow> run_options \<Rightarrow> ('z file_world_scheme, trial_node list) io) \<Rightarrow>
     trial_node list \<Rightarrow> trial_tree \<Rightarrow> ('z file_world_scheme, trial_node list \<times> trial_tree \<times> trial_node list list \<times> string list) io"
  and train_children ::
    "('z file_world_scheme, string) io \<Rightarrow> (trial_node list \<Rightarrow> run_options \<Rightarrow> ('z file_world_scheme, trial_node list) io) \<Rightarrow>
     trial_node list \<Rightarrow> trial_tree list \<Rightarrow>
     ('z file_world_scheme, trial_node list \<times> trial_tree list \<times> trial_node list list \<times> string list) io"
  where
  "dfs_train mkdtemp train walking (Rose n cs) =
     (if cs \<noteq> [] then
        io_bind (train_children mkdtemp train walking cs) (\<lambda>(walking', cs', walked, dirs).
          io_return (walking', Rose n cs', walked, dirs))
      else
        io_bind mkdtemp (\<lambda>base_dir.
        io_bind (generate_options base_dir) (\<lambda>opts.
        io_bind (train walking opts) (\<lambda>walking'.
          io_return (walking', Rose n [], [walking'], [base_dir])))))"
| "train_children mkdtemp train walking [] = io_return (walking, [], [], [])"
| "train_children mkdtemp train walking (Rose m ds # cs) =
     io_bind
       (if tn_pruned m then io_return (walking, Rose m ds, [], [])
        else
          io_bind (dfs_train mkdtemp train (walking @ [m]) (Rose m ds)) (\<lambda>(walking', t, walked, dirs).
            io_return (butlast walking', Rose (last walking') (rose_children t), walked, dirs)))
       (\<lambda>(walking', t, walked, dirs).
     io_bind (train_children mkdtemp train walking' cs) (\<lambda>(walking'', ts, more, more_dirs).
       io_return (walking'', t # ts, walked @ more, dirs @ more_dirs)))"

end
