(* ===== verification/Storage.thy ===== *)
theory Storage
  imports Files MetaKey
begin

text \<open>
  \<^verbatim>\<open>pysrc/pipeman/store/base_storage.py\<close> and \<^verbatim>\<open>pysrc/pipeman/storage.py\<close>. A physical storage is a
  record of its operations, as the Python classes take an object of class \<open>BaseStorage\<close>; the logical
  storages are functions of that record and of their key prefix. A failed \<open>assert\<close>, a missing key and
  an attribute the engine's reply does not have are the exceptions they are in the code.
\<close>

section \<open>The interface of a physical storage\<close>

datatype transfer_dtype = FILE | STRING

text \<open>
  The \<open>values\<close> of a reply: a dictionary for the engines of this repository, and text, a list or
  nothing for the replies parsed from a command line. Two engines return plain lists, a pair of
  \<open>None\<close>, or nothing where the interface asks for a \<open>StorageReturn\<close>.
\<close>

datatype py_value = VNone | VStr string | VList "string list" | VDict "(string, string option) odict"

datatype reply =
    StorageReturn py_value
  | CliReturn bool py_value
  | PlainList "string list"
  | PlainPair
  | PlainNone

fun reply_values :: "reply \<Rightarrow> py_value result" where
  "reply_values (StorageReturn v) = Inr v"
| "reply_values (CliReturn ok v) = (if ok then Inr v else Inl AttributeError)"
| "reply_values _ = Inl AttributeError"

fun reply_is_success :: "reply \<Rightarrow> bool result" where
  "reply_is_success (CliReturn ok v) = Inr ok"
| "reply_is_success _ = Inl AttributeError"

text \<open>\<open>value["Version"]\<close>, and iteration over a value.\<close>

fun value_item :: "py_value \<Rightarrow> string \<Rightarrow> string option result" where
  "value_item (VDict d) k = od_item d k"
| "value_item _ k = Inl TypeError"

fun value_iter :: "py_value \<Rightarrow> string list result" where
  "value_iter VNone = Inl TypeError"
| "value_iter (VStr s) = Inr (map (\<lambda>c. [c]) s)"
| "value_iter (VList xs) = Inr xs"
| "value_iter (VDict d) = Inr (od_keys d)"

text \<open>\<open>get\<close> returns the second component of the pair the code returns; callers use nothing else.\<close>

record 's phys_store =
  ps_get :: "string \<Rightarrow> string option \<Rightarrow> string option \<Rightarrow> transfer_dtype \<Rightarrow> ('s, string option) io"
  ps_put :: "string \<Rightarrow> string \<Rightarrow> transfer_dtype \<Rightarrow> string \<Rightarrow> ('s, reply) io"
  ps_list_key :: "('s, reply) io"
  ps_head :: "string \<Rightarrow> string \<Rightarrow> ('s, reply) io"
  ps_branch :: "string \<Rightarrow> string \<Rightarrow> string option \<Rightarrow> string option \<Rightarrow> ('s, reply) io"
  ps_list_branch :: "string \<Rightarrow> ('s, reply) io"
  ps_meta :: "string \<Rightarrow> string option \<Rightarrow> string option \<Rightarrow> ('s, reply) io"
  ps_merge :: "string \<Rightarrow> string \<Rightarrow> string \<Rightarrow> transfer_dtype \<Rightarrow> string \<Rightarrow> ('s, reply) io"

definition io_reply :: "('s, reply) io \<Rightarrow> ('s, py_value) io" where
  "io_reply f = io_bind f (\<lambda>r. io_lift (reply_values r))"

definition found_or_key_error :: "string option \<Rightarrow> ('s, string) io" where
  "found_or_key_error r = (case r of None \<Rightarrow> io_raise KeyError | Some s \<Rightarrow> io_return s)"

text \<open>\<open>ret.values["Version"]\<close>, when it is used as a version; \<open>None\<close> never is one after a \<open>put\<close>.\<close>

definition version_of_reply :: "('s, reply) io \<Rightarrow> ('s, string) io" where
  "version_of_reply f =
     io_bind (io_reply f) (\<lambda>v. io_bind (io_lift (value_item v ''Version'')) (\<lambda>x.
       case x of None \<Rightarrow> io_raise TypeError | Some h \<Rightarrow> io_return h))"

section \<open>StringStorage\<close>

definition string_get_branch_head :: "'s phys_store \<Rightarrow> string \<Rightarrow> string \<Rightarrow> ('s, string) io" where
  "string_get_branch_head P str_key str_branch =
     io_bind (ps_get P str_key (Some str_branch) None STRING) found_or_key_error"

definition string_get_version :: "'s phys_store \<Rightarrow> string \<Rightarrow> string \<Rightarrow> ('s, string) io" where
  "string_get_version P str_key hashed_version =
     io_bind (ps_get P str_key None (Some hashed_version) STRING) found_or_key_error"

definition string_put :: "'s phys_store \<Rightarrow> string \<Rightarrow> string \<Rightarrow> string \<Rightarrow> ('s, string) io" where
  "string_put P str_key str_branch raw_string = version_of_reply (ps_put P str_key str_branch STRING raw_string)"

definition string_merge :: "'s phys_store \<Rightarrow> string \<Rightarrow> string \<Rightarrow> string \<Rightarrow> string \<Rightarrow> ('s, string) io" where
  "string_merge P str_key head_branch merge_branch raw_string =
     version_of_reply (ps_merge P str_key head_branch merge_branch STRING raw_string)"

definition storage_head :: "'s phys_store \<Rightarrow> string \<Rightarrow> string \<Rightarrow> ('s, py_value) io" where
  "storage_head P str_key str_branch = io_reply (ps_head P str_key str_branch)"

definition storage_branch :: "'s phys_store \<Rightarrow> string \<Rightarrow> string \<Rightarrow> string option \<Rightarrow> string option \<Rightarrow> ('s, reply) io" where
  "storage_branch P str_key str_new_branch str_refer_branch str_refer_version =
     ps_branch P str_key str_new_branch str_refer_branch str_refer_version"

definition storage_list_of_branches :: "'s phys_store \<Rightarrow> string \<Rightarrow> ('s, py_value) io" where
  "storage_list_of_branches P str_key = io_reply (ps_list_branch P str_key)"

definition storage_list_with_prefix :: "'s phys_store \<Rightarrow> string \<Rightarrow> ('s, string list) io" where
  "storage_list_with_prefix P prfx =
     io_bind (io_reply (ps_list_key P)) (\<lambda>key_list. io_bind (io_lift (value_iter key_list)) (\<lambda>items.
       io_return (filter (starts_with prfx) items)))"

definition parents_by_branch_head :: "'s phys_store \<Rightarrow> string \<Rightarrow> string \<Rightarrow> ('s, py_value) io" where
  "parents_by_branch_head P str_key str_branch = io_reply (ps_meta P str_key None (Some str_branch))"

definition parents_by_version :: "'s phys_store \<Rightarrow> string \<Rightarrow> string \<Rightarrow> ('s, py_value) io" where
  "parents_by_version P str_key str_version = io_reply (ps_meta P str_key (Some str_version) None)"

section \<open>FileStorage\<close>

definition file_get_branch_head :: "'s phys_store \<Rightarrow> string \<Rightarrow> string \<Rightarrow> ('s, string) io" where
  "file_get_branch_head P str_key str_branch =
     io_bind (ps_get P str_key (Some str_branch) None FILE) found_or_key_error"

definition file_get_version :: "'s phys_store \<Rightarrow> string \<Rightarrow> string \<Rightarrow> ('s, string) io" where
  "file_get_version P str_key hashed_version =
     io_bind (ps_get P str_key None (Some hashed_version) FILE) found_or_key_error"

definition file_put :: "'s phys_store \<Rightarrow> string \<Rightarrow> string \<Rightarrow> string \<Rightarrow> ('s, string) io" where
  "file_put P str_key str_branch local_path = version_of_reply (ps_put P str_key str_branch FILE local_path)"

definition file_merge :: "'s phys_store \<Rightarrow> string \<Rightarrow> string \<Rightarrow> string \<Rightarrow> string \<Rightarrow> ('s, string) io" where
  "file_merge P str_key head_branch merge_branch local_path =
     version_of_reply (ps_merge P str_key head_branch merge_branch FILE local_path)"

definition file_head :: "'s phys_store \<Rightarrow> string \<Rightarrow> string \<Rightarrow> ('s, py_value) io" where
  "file_head P str_key str_branch = io_reply (ps_head P str_key str_branch)"

definition file_branch :: "'s phys_store \<Rightarrow> string \<Rightarrow> string \<Rightarrow> string option \<Rightarrow> string option \<Rightarrow> ('s, reply) io" where
  "file_branch P str_key str_new_branch str_refer_branch str_refer_version =
     ps_branch P str_key str_new_branch str_refer_branch str_refer_version"

definition file_list_of_branches :: "'s phys_store \<Rightarrow> string \<Rightarrow> ('s, py_value) io" where
  "file_list_of_branches P str_key = io_reply (ps_list_branch P str_key)"

definition file_list_with_prefix :: "'s phys_store \<Rightarrow> string \<Rightarrow> ('s, string list) io" where
  "file_list_with_prefix P prfx =
     io_bind (io_reply (ps_list_key P)) (\<lambda>key_list. io_bind (io_lift (value_iter key_list)) (\<lambda>items.
       io_return (filter (starts_with prfx) items)))"

definition file_parents_by_branch_head :: "'s phys_store \<Rightarrow> string \<Rightarrow> string \<Rightarrow> ('s, py_value) io" where
  "file_parents_by_branch_head P str_key str_branch = io_reply (ps_meta P str_key None (Some str_branch))"

definition file_parents_by_version :: "'s phys_store \<Rightarrow> string \<Rightarrow> string \<Rightarrow> ('s, py_value) io" where
  "file_parents_by_version P str_key str_version = io_reply (ps_meta P str_key (Some str_version) None)"

text \<open>\<open>FileStorage\<close> repeats these operations of \<open>StringStorage\<close> word for word.\<close>

lemma file_storage_shares [simp]:
  "file_head = storage_head" "file_branch = storage_branch" "file_list_of_branches = storage_list_of_branches"
  "file_list_with_prefix = storage_list_with_prefix"
  "file_parents_by_branch_head = parents_by_branch_head" "file_parents_by_version = parents_by_version"
  by (simp_all add: fun_eq_iff file_head_def storage_head_def file_branch_def storage_branch_def file_list_of_branches_def
      storage_list_of_branches_def file_list_with_prefix_def storage_list_with_prefix_def file_parents_by_branch_head_def
      parents_by_branch_head_def file_parents_by_version_def parents_by_version_def)

section \<open>SemanticFileStorage\<close>

definition COL_VERSION :: string where "COL_VERSION = ''VersionMapping''"
definition COL_ENTITY :: string where "COL_ENTITY = ''Entity''"

definition form_version_key :: "string \<Rightarrow> meta_key \<Rightarrow> string" where
  "form_version_key key_prefix key = key_prefix @ ''::'' @ COL_VERSION @ ''::'' @ to_string True key"

definition form_entity_key :: "string \<Rightarrow> meta_key \<Rightarrow> string" where
  "form_entity_key key_prefix key = key_prefix @ ''::'' @ COL_ENTITY @ ''::'' @ to_string False key"

abbreviation key_branch :: "meta_key \<Rightarrow> string" where
  "key_branch key \<equiv> branch (component_version key)"

definition semantic_get_branch_head :: "'s phys_store \<Rightarrow> string \<Rightarrow> meta_key \<Rightarrow> ('s, string) io" where
  "semantic_get_branch_head P pre key = file_get_branch_head P (form_entity_key pre key) (key_branch key)"

definition semantic_get_version :: "'s phys_store \<Rightarrow> string \<Rightarrow> meta_key \<Rightarrow> ('s, string) io" where
  "semantic_get_version P pre key =
     io_bind (string_get_branch_head P (form_version_key pre key) (key_branch key))
       (file_get_version P (form_entity_key pre key))"

definition semantic_put :: "'s phys_store \<Rightarrow> string \<Rightarrow> meta_key \<Rightarrow> string \<Rightarrow> ('s, unit) io" where
  "semantic_put P pre key local_path =
     io_bind (file_put P (form_entity_key pre key) (key_branch key) local_path) (\<lambda>hashed_version.
     io_then (string_put P (form_version_key pre key) (key_branch key) hashed_version) (io_return ()))"

definition io_assert :: "bool \<Rightarrow> ('s, unit) io" where
  "io_assert b = (if b then io_return () else io_raise AssertionError)"

definition semantic_merge :: "'s phys_store \<Rightarrow> string \<Rightarrow> meta_key \<Rightarrow> meta_key \<Rightarrow> meta_key \<Rightarrow> string \<Rightarrow> ('s, unit) io" where
  "semantic_merge P pre head_key merge_head_key new_head_key local_path =
     io_then (io_assert (component_name head_key = component_name new_head_key))
     (io_then (io_assert (component_name merge_head_key = component_name new_head_key))
     (io_then (io_assert (component_type head_key = component_type new_head_key))
     (io_then (io_assert (component_type merge_head_key = component_type new_head_key))
     (io_bind (file_merge P (form_entity_key pre new_head_key) (key_branch head_key) (key_branch merge_head_key) local_path)
        (\<lambda>hashed_version.
      io_then (string_put P (form_version_key pre new_head_key) (key_branch new_head_key) hashed_version)
        (io_return ()))))))"

text \<open>
  \<open>branch_on_branch_head\<close> stores the value \<open>head\<close> returned as the content of the version mapping; a
  value that is no text cannot be written.
\<close>

fun text_value :: "py_value \<Rightarrow> string result" where
  "text_value (VStr s) = Inr s"
| "text_value _ = Inl TypeError"

definition semantic_branch_on_branch_head :: "'s phys_store \<Rightarrow> string \<Rightarrow> meta_key \<Rightarrow> string \<Rightarrow> ('s, unit) io" where
  "semantic_branch_on_branch_head P pre key new_branch =
     io_bind (file_head P (form_entity_key pre key) (key_branch key)) (\<lambda>hashed_version.
     io_bind (file_branch P (form_entity_key pre key) new_branch (Some (key_branch key)) None) (\<lambda>_.
     io_bind (io_lift (text_value hashed_version)) (\<lambda>raw.
     io_then (string_put P (form_version_key pre key) (key_branch key) raw) (io_return ()))))"

definition semantic_branch_on_version :: "'s phys_store \<Rightarrow> string \<Rightarrow> meta_key \<Rightarrow> string \<Rightarrow> ('s, unit) io" where
  "semantic_branch_on_version P pre key new_branch =
     io_bind (string_get_branch_head P (form_version_key pre key) (key_branch key)) (\<lambda>hashed_version.
     io_bind (file_branch P (form_entity_key pre key) new_branch None (Some hashed_version)) (\<lambda>ret.
     io_bind (io_lift (reply_is_success ret)) (\<lambda>ok.
       if ok then
         io_then (string_put P (form_version_key pre (key\<lparr>component_version := (component_version key)\<lparr>branch := new_branch\<rparr>\<rparr>))
                    DEFAULT_BRANCH hashed_version) (io_return ())
       else io_return ())))"

definition semantic_parents_of_branch_head :: "'s phys_store \<Rightarrow> string \<Rightarrow> meta_key \<Rightarrow> ('s, py_value) io" where
  "semantic_parents_of_branch_head P pre key = file_parents_by_branch_head P (form_entity_key pre key) (key_branch key)"

definition semantic_parents_of_version :: "'s phys_store \<Rightarrow> string \<Rightarrow> meta_key \<Rightarrow> ('s, py_value) io" where
  "semantic_parents_of_version P pre key =
     io_bind (string_get_branch_head P (form_version_key pre key) (key_branch key))
       (file_parents_by_version P (form_entity_key pre key))"

text \<open>
  \<open>traverse_branch\<close> follows single parents until \<open>None\<close>. The chain may be as long as the history, so the
  loop takes fuel; \<open>None\<close> means that the fuel ran out. A node is a list of parents: \<open>len\<close> of nothing is a
  \<open>TypeError\<close>, more or less than one parent is not implemented.
\<close>

text \<open>\<open>node[0]\<close> of a node of length one.\<close>

fun single_parent :: "py_value \<Rightarrow> string result" where
  "single_parent VNone = Inl TypeError"
| "single_parent (VList [v]) = Inr v"
| "single_parent (VStr [c]) = Inr [c]"
| "single_parent (VDict [kv]) = Inl KeyError"
| "single_parent _ = Inl NotImplementedError"

fun lineage_from :: "nat \<Rightarrow> 's phys_store \<Rightarrow> string \<Rightarrow> py_value \<Rightarrow> ('s, string list option) io" where
  "lineage_from 0 P entity_key node = io_return None"
| "lineage_from (Suc fuel) P entity_key node =
     io_bind (io_lift (single_parent node)) (\<lambda>version.
     io_bind (file_parents_by_version P entity_key version) (\<lambda>parent.
       if parent = VNone then io_return (Some [version])
       else io_bind (lineage_from fuel P entity_key parent) (\<lambda>r. io_return (map_option (Cons version) r))))"

definition semantic_traverse_branch :: "nat \<Rightarrow> 's phys_store \<Rightarrow> string \<Rightarrow> meta_key \<Rightarrow> ('s, string list option) io" where
  "semantic_traverse_branch fuel P pre key =
     io_bind (semantic_parents_of_branch_head P pre key) (\<lambda>node.
     io_bind (lineage_from fuel P (form_entity_key pre key) node) (\<lambda>lineage.
     case lineage of
       None \<Rightarrow> io_return None
     | Some versions \<Rightarrow>
         io_bind (io_map (file_get_version P (form_entity_key pre key)) versions) (\<lambda>paths. io_return (Some paths))))"

definition semantic_list_of_branches :: "'s phys_store \<Rightarrow> string \<Rightarrow> meta_key \<Rightarrow> ('s, py_value) io" where
  "semantic_list_of_branches P pre key = file_list_of_branches P (form_entity_key pre key)"

definition semantic_list_of_components :: "'s phys_store \<Rightarrow> string \<Rightarrow> ('s, string list) io" where
  "semantic_list_of_components P pre = file_list_with_prefix P (pre @ ''::'' @ COL_ENTITY @ ''::'')"

definition semantic_list_of_versions :: "'s phys_store \<Rightarrow> string \<Rightarrow> meta_key \<Rightarrow> ('s, string list) io" where
  "semantic_list_of_versions P pre key =
     file_list_with_prefix P (pre @ ''::'' @ COL_VERSION @ ''::'' @ to_string False key)"

section \<open>The storages of the program\<close>

definition META_STORAGE :: string where "META_STORAGE = ''MetaStorage''"
definition DATASET_STORAGE :: string where "DATASET_STORAGE = ''DatasetStorage''"
definition LIBRARY_STORAGE :: string where "LIBRARY_STORAGE = ''LibraryStorage''"

definition runtime_form_key :: "string \<Rightarrow> meta_key \<Rightarrow> meta_key \<Rightarrow> string" where
  "runtime_form_key name workspace_key component_key =
     ''WorkspaceRuntime'' @ ''::'' @ name @ ''::'' @ component_type workspace_key @ ''::'' @ component_name workspace_key
     @ ''::'' @ component_type component_key @ ''::'' @ component_name component_key"

definition runtime_get :: "'s phys_store \<Rightarrow> string \<Rightarrow> meta_key \<Rightarrow> meta_key \<Rightarrow> string \<Rightarrow> ('s, string) io" where
  "runtime_get P name ws_key cpn_key hversion = file_get_version P (runtime_form_key name ws_key cpn_key) hversion"

definition runtime_put :: "'s phys_store \<Rightarrow> string \<Rightarrow> meta_key \<Rightarrow> meta_key \<Rightarrow> string \<Rightarrow> ('s, string) io" where
  "runtime_put P name ws_key cpn_key local_path =
     file_put P (runtime_form_key name ws_key cpn_key) (key_branch ws_key) local_path"

end
