(* ===== verification/IniFile.thy ===== *)
theory IniFile
  imports ConfigParser
begin

text \<open>
  Reading and writing of configuration files: \<open>read\<close>, \<open>read_file\<close> and \<open>write\<close> of Python's \<open>ConfigParser\<close> with
  its default settings, on the text of a file. Reading starts from an empty parser, as everywhere in the
  program. What is written for a well-formed configuration is read back as it was.
\<close>

section \<open>Writing\<close>

abbreviation newline :: char where "newline \<equiv> CHR 0x0A"
abbreviation tabulator :: char where "tabulator \<equiv> CHR 0x09"

definition ini_item :: "string \<times> string \<Rightarrow> string" where
  "ini_item kv = fst kv @ '' = '' @ str_replace [newline] [newline, tabulator] (snd kv) @ [newline]"

definition ini_section :: "string \<Rightarrow> (string, string) odict \<Rightarrow> string" where
  "ini_section name opts = ''['' @ name @ '']'' @ [newline] @ concat (map ini_item opts) @ [newline]"

definition ini_write :: "icp \<Rightarrow> string" where
  "ini_write cp =
     (if cp_defaults cp \<noteq> [] then ini_section DEFAULTSECT (cp_defaults cp) else [])
     @ concat (map (\<lambda>(name, opts). ini_section name opts) (cp_sections cp))"

section \<open>Reading\<close>

text \<open>The lines of a file, without their ends.\<close>

definition lines_of :: "string \<Rightarrow> string list" where
  "lines_of s = (let ls = str_split [newline] s in if last ls = [] then butlast ls else ls)"

text \<open>
  While a file is read, a value is the list of its lines; \<open>ini_section_name\<close> is the current section and
  \<open>ini_option\<close> the option a continuation line would extend.
\<close>

record ini_state =
  ini_sections :: "(string, (string, string list) odict) odict"
  ini_defaults :: "(string, string list) odict"
  ini_current :: "string option"
  ini_option :: "string option"
  ini_indent :: nat
  ini_seen :: "(string \<times> string) list"
  ini_bad :: bool

definition current_options :: "string \<Rightarrow> ini_state \<Rightarrow> (string, string list) odict" where
  "current_options sect s =
     (if sect = DEFAULTSECT then ini_defaults s else case od_get (ini_sections s) sect of None \<Rightarrow> [] | Some d \<Rightarrow> d)"

definition set_current_option :: "string \<Rightarrow> string \<Rightarrow> string list \<Rightarrow> ini_state \<Rightarrow> ini_state" where
  "set_current_option sect opt v s =
     (if sect = DEFAULTSECT then s\<lparr>ini_defaults := od_set opt v (ini_defaults s)\<rparr>
      else s\<lparr>ini_sections := od_set sect (od_set opt v (current_options sect s)) (ini_sections s)\<rparr>)"

definition extend_option :: "string \<Rightarrow> string \<Rightarrow> string \<Rightarrow> ini_state \<Rightarrow> ini_state" where
  "extend_option sect opt l s =
     set_current_option sect opt ((case od_get (current_options sect s) opt of None \<Rightarrow> [] | Some v \<Rightarrow> v) @ [l]) s"

text \<open>\<open>[header]\<close>, up to the last bracket.\<close>

definition section_header :: "string \<Rightarrow> string option" where
  "section_header v =
     (if starts_with ''['' v \<and> CHR '']'' \<in> set (tl v)
      then (let h = rev (tl (dropWhile (\<lambda>c. c \<noteq> CHR '']'') (rev (tl v)))) in if h = [] then None else Some h)
      else None)"

definition is_delim :: "char \<Rightarrow> bool" where
  "is_delim c \<longleftrightarrow> c = CHR ''='' \<or> c = CHR '':''"

definition option_line :: "string \<Rightarrow> (string \<times> string) option" where
  "option_line v =
     (case dropWhile (\<lambda>c. \<not> is_delim c) v of
        [] \<Rightarrow> None
      | d # r \<Rightarrow> Some (str_rstrip (takeWhile (\<lambda>c. \<not> is_delim c) v), str_strip r))"

definition ini_comment :: "string \<Rightarrow> bool" where
  "ini_comment line \<longleftrightarrow> starts_with ''#'' (str_strip line) \<or> starts_with '';'' (str_strip line)"

definition ini_line :: "string \<Rightarrow> ini_state \<Rightarrow> ini_state result" where
  "ini_line line s =
     (let v = (if ini_comment line then [] else str_strip line);
          here = (case (ini_current s, ini_option s) of (Some sect, Some opt) \<Rightarrow> if opt = [] then None else Some (sect, opt) | _ \<Rightarrow> None);
          indent = length (takeWhile is_space line)
      in if v = [] then
           (case here of
              Some (sect, opt) \<Rightarrow> Inr (if ini_comment line then s else extend_option sect opt [] s)
            | None \<Rightarrow> Inr s)
         else if here \<noteq> None \<and> ini_indent s < indent then
           (case here of Some (sect, opt) \<Rightarrow> Inr (extend_option sect opt v s) | None \<Rightarrow> Inr s)
         else
           (let s = s\<lparr>ini_indent := indent\<rparr>
            in case section_header v of
              Some h \<Rightarrow>
                if h = DEFAULTSECT then Inr (s\<lparr>ini_current := Some h, ini_option := None\<rparr>)
                else if od_get (ini_sections s) h \<noteq> None then Inl DuplicateSectionError
                else Inr (s\<lparr>ini_sections := od_set h [] (ini_sections s), ini_current := Some h, ini_option := None\<rparr>)
            | None \<Rightarrow>
                (case ini_current s of
                   None \<Rightarrow> Inl ParsingError
                 | Some sect \<Rightarrow>
                     (case option_line v of
                        None \<Rightarrow> Inr (s\<lparr>ini_bad := True\<rparr>)
                      | Some (k, x) \<Rightarrow>
                          let opt = optionxform k
                          in if (sect, opt) \<in> set (ini_seen s) then Inl DuplicateOptionError
                             else Inr (set_current_option sect opt [x]
                                    (s\<lparr>ini_option := Some opt, ini_seen := (sect, opt) # ini_seen s,
                                       ini_bad := ini_bad s \<or> k = []\<rparr>))))))"

definition ini_start :: ini_state where
  "ini_start = \<lparr>ini_sections = [], ini_defaults = [], ini_current = None, ini_option = None, ini_indent = 0,
     ini_seen = [], ini_bad = False\<rparr>"

definition join_values :: "(string, string list) odict \<Rightarrow> (string, string) odict" where
  "join_values d = map (\<lambda>(k, v). (k, str_rstrip (str_join [newline] v))) d"

definition ini_finish :: "ini_state \<Rightarrow> icp result" where
  "ini_finish s =
     (if ini_bad s then Inl ParsingError
      else Inr \<lparr>cp_sections = map (\<lambda>(n, d). (n, join_values d)) (ini_sections s), cp_defaults = join_values (ini_defaults s)\<rparr>)"

definition ini_read :: "string \<Rightarrow> icp result" where
  "ini_read text = res_bind (res_fold ini_line (lines_of text) ini_start) ini_finish"

section \<open>Reading what was written\<close>

definition clean_section :: "string \<Rightarrow> bool" where
  "clean_section n \<longleftrightarrow> n \<noteq> [] \<and> n \<noteq> DEFAULTSECT \<and> newline \<notin> set n \<and> CHR 0x0D \<notin> set n"

definition clean_option :: "string \<Rightarrow> bool" where
  "clean_option k \<longleftrightarrow> k \<noteq> [] \<and> str_strip k = k \<and> optionxform k = k \<and> newline \<notin> set k \<and> CHR 0x0D \<notin> set k
     \<and> (\<forall>c \<in> set k. \<not> is_delim c) \<and> hd k \<notin> {CHR ''#'', CHR '';'', CHR ''[''}"

definition clean_value :: "string \<Rightarrow> bool" where
  "clean_value v \<longleftrightarrow> str_strip v = v \<and> newline \<notin> set v \<and> CHR 0x0D \<notin> set v"

definition clean_config :: "icp \<Rightarrow> bool" where
  "clean_config cp \<longleftrightarrow> cp_defaults cp = [] \<and> distinct (od_keys (cp_sections cp))
     \<and> (\<forall>(n, opts) \<in> set (cp_sections cp). clean_section n \<and> distinct (od_keys opts)
          \<and> (\<forall>(k, v) \<in> set opts. clean_option k \<and> clean_value v))"

lemma strip_ends: "s \<noteq> [] \<Longrightarrow> \<not> is_space (hd s) \<Longrightarrow> \<not> is_space (last s) \<Longrightarrow> str_strip s = s"
proof -
  assume a: "s \<noteq> []" "\<not> is_space (hd s)" "\<not> is_space (last s)"
  have "dropWhile is_space s = s" using a by (cases s) auto
  moreover have "dropWhile is_space (rev s) = rev s" using a by (cases s rule: rev_cases) auto
  ultimately show ?thesis by (simp add: str_strip_def)
qed

lemma strip_fixed_ends: "str_strip s = s \<Longrightarrow> s \<noteq> [] \<Longrightarrow> \<not> is_space (hd s) \<and> \<not> is_space (last s)"
proof
  assume a: "str_strip s = s" "s \<noteq> []"
  let ?d = "dropWhile is_space s"
  have len: "length s \<le> length ?d" using a(1) length_dropWhile_le [of is_space "rev ?d"] by (simp add: str_strip_def) (metis length_rev)
  show "\<not> is_space (hd s)"
  proof
    assume "is_space (hd s)"
    then have "?d = dropWhile is_space (tl s)" using a(2) by (cases s) auto
    then have "length ?d \<le> length (tl s)" using length_dropWhile_le by metis
    with len a(2) show False by (cases s) auto
  qed
  then have "?d = s" using a(2) by (cases s) auto
  then have "rev (dropWhile is_space (rev s)) = s" using a(1) by (simp add: str_strip_def)
  then have "dropWhile is_space (rev s) = rev s" by (metis rev_rev_ident)
  then show "\<not> is_space (last s)" using a(2)
    by (metis hd_dropWhile hd_rev rev_is_Nil_conv)
qed

lemma rstrip_append_space: "is_space c \<Longrightarrow> str_rstrip (s @ [c]) = str_rstrip s"
  by (simp add: str_rstrip_def)

lemma rstrip_fixed: "str_strip s = s \<Longrightarrow> str_rstrip s = s"
proof (cases "s = []")
  case False
  moreover assume "str_strip s = s"
  ultimately have "\<not> is_space (last s)" using strip_fixed_ends by blast
  with False show ?thesis by (cases s rule: rev_cases) (simp_all add: str_rstrip_def)
qed (simp add: str_rstrip_def)

lemma is_space_chars [simp]: "is_space CHR '' ''" "is_space newline" "\<not> is_space CHR ''[''" "\<not> is_space CHR '']''" "\<not> is_space CHR ''=''"
  by (simp_all add: is_space_def)

lemma split_lines:
  "\<forall>l \<in> set ls. newline \<notin> set l \<Longrightarrow> str_split [newline] (concat (map (\<lambda>l. l @ [newline]) ls)) = ls @ [[]]"
proof (induction ls)
  case Nil
  show ?case using str_split_last [of "[newline]" "[]"] by simp
next
  case (Cons l ls)
  then show ?case using str_split_field [of "[newline]" l "concat (map (\<lambda>l. l @ [newline]) ls)"] by simp
qed

lemma lines_of_lines: "\<forall>l \<in> set ls. newline \<notin> set l \<Longrightarrow> lines_of (concat (map (\<lambda>l. l @ [newline]) ls)) = ls"
  by (simp add: lines_of_def split_lines)

definition section_lines :: "string \<Rightarrow> (string, string) odict \<Rightarrow> string list" where
  "section_lines n opts = (''['' @ n @ '']'') # map (\<lambda>(k, v). k @ '' = '' @ v) opts @ [[]]"

lemma ini_section_lines:
  assumes "\<forall>(k, v) \<in> set opts. clean_option k \<and> clean_value v"
  shows "ini_section n opts = concat (map (\<lambda>l. l @ [newline]) (section_lines n opts))"
proof -
  have "concat (map ini_item opts) = concat (map (\<lambda>l. l @ [newline]) (map (\<lambda>(k, v). k @ '' = '' @ v) opts))"
    using assms by (induction opts) (auto simp: ini_item_def clean_value_def str_replace_absent)
  then show ?thesis by (simp add: ini_section_def section_lines_def)
qed

lemma header_parse:
  assumes "n \<noteq> []"
  shows "str_strip (''['' @ n @ '']'') = ''['' @ n @ '']''" and "section_header (''['' @ n @ '']'') = Some n"
proof -
  show "str_strip (''['' @ n @ '']'') = ''['' @ n @ '']''" by (rule strip_ends) simp_all
  show "section_header (''['' @ n @ '']'') = Some n" using assms by (simp add: section_header_def starts_with_def)
qed

lemma header_line:
  assumes "clean_section n" and "od_get (ini_sections s) n = None"
  shows "ini_line (''['' @ n @ '']'') s =
    Inr (s\<lparr>ini_indent := 0, ini_sections := od_set n [] (ini_sections s), ini_current := Some n, ini_option := None\<rparr>)"
proof -
  have n: "n \<noteq> []" "n \<noteq> DEFAULTSECT" using assms(1) by (simp_all add: clean_section_def)
  note h = header_parse [OF n(1), simplified]
  show ?thesis using h n(2) assms(2) by (simp add: ini_line_def ini_comment_def starts_with_def)
qed

lemma option_parse:
  assumes "clean_option k" and "clean_value v"
  shows "option_line (str_strip (k @ '' = '' @ v)) = Some (k, v)" and "section_header (str_strip (k @ '' = '' @ v)) = None"
    and "\<not> ini_comment (k @ '' = '' @ v)" and "str_strip (k @ '' = '' @ v) \<noteq> []" and "takeWhile is_space (k @ '' = '' @ v) = []"
proof -
  have k: "k \<noteq> []" "\<not> is_space (hd k)" "str_rstrip k = k" "\<forall>c \<in> set k. \<not> is_delim c" "hd k \<notin> {CHR ''#'', CHR '';'', CHR ''[''}"
    using assms(1) strip_fixed_ends [of k] rstrip_fixed [of k] by (auto simp: clean_option_def)
  have v: "str_strip v = v" using assms(2) by (simp add: clean_value_def)
  define w where "w = (if v = [] then [] else CHR '' '' # v)"
  have l: "str_strip (k @ '' = '' @ v) = k @ '' ='' @ w"
  proof (cases "v = []")
    case True
    have "str_strip (k @ '' = '') = str_strip (k @ '' ='')"
      using k(1,2) by (simp add: str_strip_def dropWhile_append)
    also have "\<dots> = k @ '' =''" using k(1,2) by (intro strip_ends) simp_all
    finally show ?thesis using True by (simp add: w_def)
  next
    case False
    then have "\<not> is_space (last v)" using strip_fixed_ends [OF v] by blast
    then show ?thesis using k(1,2) False by (simp add: w_def strip_ends)
  qed
  have d: "is_delim CHR ''=''" "\<not> is_delim CHR '' ''" by (simp_all add: is_delim_def)
  have sv: "str_strip w = v"
    using v by (simp add: w_def str_strip_def)
  have rk: "str_rstrip (k @ '' '') = k" using rstrip_append_space [of "CHR '' ''" k] k(3) by simp
  show "option_line (str_strip (k @ '' = '' @ v)) = Some (k, v)"
    using k(4) d sv rk unfolding l option_line_def by (simp add: takeWhile_append dropWhile_append)
  show "section_header (str_strip (k @ '' = '' @ v)) = None"
    using k(1,5) unfolding l section_header_def by (cases k) (simp_all add: starts_with_def)
  show "\<not> ini_comment (k @ '' = '' @ v)"
    using k(1,5) unfolding ini_comment_def l by (cases k) (simp_all add: starts_with_def)
  show "str_strip (k @ '' = '' @ v) \<noteq> []" using k(1) unfolding l by simp
  show "takeWhile is_space (k @ '' = '' @ v) = []" using k(1,2) by (cases k) simp_all
qed

lemma option_step:
  assumes "clean_option k" and "clean_value v" and "ini_current s = Some n" and "n \<noteq> DEFAULTSECT" and "(n, k) \<notin> set (ini_seen s)"
  shows "ini_line (k @ '' = '' @ v) s = Inr (set_current_option n k [v]
    (s\<lparr>ini_indent := 0, ini_option := Some k, ini_seen := (n, k) # ini_seen s\<rparr>))"
proof -
  have k: "optionxform k = k" "k \<noteq> []" using assms(1) by (simp_all add: clean_option_def)
  note p = option_parse [OF assms(1,2)]
  show ?thesis using p k assms(3-5) unfolding ini_line_def
    by (simp add: Let_def split: option.splits)
qed

lemma od_set_last: "n \<notin> set (od_keys pre) \<Longrightarrow> od_set n x (pre @ [(n, d)]) = pre @ [(n, x)]"
  unfolding od_set_def od_keys_def by (induction pre) auto

lemma od_get_last: "n \<notin> set (od_keys pre) \<Longrightarrow> od_get (pre @ [(n, d)]) n = Some d"
  by (simp add: od_simps od_get_None_iff [THEN iffD2])

definition listed :: "(string, string) odict \<Rightarrow> (string, string list) odict" where
  "listed opts = map (\<lambda>(k, v). (k, [v])) opts"

lemma listed_simps [simp]: "listed [] = []" "listed (kv # opts) = (fst kv, [snd kv]) # listed opts" "od_keys (listed opts) = od_keys opts"
  "listed (xs @ ys) = listed xs @ listed ys"
  by (simp_all add: listed_def od_keys_def split_beta comp_def)

lemma options_fold:
  assumes "ini_sections s = pre @ [(n, d)]" and "n \<notin> set (od_keys pre)" and "n \<noteq> DEFAULTSECT" and "ini_current s = Some n"
    and "\<forall>(k, v) \<in> set opts. clean_option k \<and> clean_value v" and "distinct (od_keys opts)"
    and "\<forall>k \<in> set (od_keys opts). k \<notin> set (od_keys d) \<and> (n, k) \<notin> set (ini_seen s)"
  shows "\<exists>s'. res_fold ini_line (map (\<lambda>(k, v). k @ '' = '' @ v) opts) s = Inr s'
    \<and> ini_sections s' = pre @ [(n, d @ listed opts)] \<and> ini_current s' = Some n
    \<and> ini_option s' = (if opts = [] then ini_option s else Some (fst (last opts)))
    \<and> set (ini_seen s') = set (ini_seen s) \<union> {n} \<times> set (od_keys opts) \<and> ini_bad s' = ini_bad s \<and> ini_defaults s' = ini_defaults s"
  using assms
proof (induction opts arbitrary: s d)
  case Nil
  then show ?case by (simp add: od_simps)
next
  case (Cons kv opts)
  obtain k v where kv: "kv = (k, v)" by fastforce
  define s1 where "s1 = set_current_option n k [v] (s\<lparr>ini_indent := 0, ini_option := Some k, ini_seen := (n, k) # ini_seen s\<rparr>)"
  have st: "ini_line (k @ '' = '' @ v) s = Inr s1"
    unfolding s1_def by (rule option_step) (use Cons.prems kv in \<open>auto simp: od_simps\<close>)
  have k: "k \<notin> set (od_keys d)" "k \<notin> set (od_keys opts)" using Cons.prems(6,7) kv by (auto simp: od_simps)
  have s1: "ini_sections s1 = pre @ [(n, d @ [(k, [v])])]" "ini_current s1 = Some n" "ini_option s1 = Some k"
    "ini_seen s1 = (n, k) # ini_seen s" "ini_bad s1 = ini_bad s" "ini_defaults s1 = ini_defaults s"
    using Cons.prems(1-4) od_get_last [OF Cons.prems(2)] od_set_last [OF Cons.prems(2)] od_set_new [OF k(1)]
    by (simp_all add: s1_def set_current_option_def current_options_def)
  have ih: "\<exists>s'. res_fold ini_line (map (\<lambda>(k, v). k @ '' = '' @ v) opts) s1 = Inr s'
    \<and> ini_sections s' = pre @ [(n, (d @ [(k, [v])]) @ listed opts)] \<and> ini_current s' = Some n
    \<and> ini_option s' = (if opts = [] then ini_option s1 else Some (fst (last opts)))
    \<and> set (ini_seen s') = set (ini_seen s1) \<union> {n} \<times> set (od_keys opts) \<and> ini_bad s' = ini_bad s1 \<and> ini_defaults s' = ini_defaults s1"
    by (rule Cons.IH [OF s1(1) Cons.prems(2,3) s1(2)])
      (use Cons.prems(5-7) k s1(4) kv in \<open>auto simp: od_simps\<close>)
  show ?case using ih st s1(3-6) by (auto simp: kv od_simps)
qed

lemma blank_line:
  assumes "ini_current s = Some n" and "n \<noteq> DEFAULTSECT" and "ini_sections s = pre @ [(n, listed opts)]" and "n \<notin> set (od_keys pre)"
    and "ini_option s = (if opts = [] then None else Some (fst (last opts)))" and "distinct (od_keys opts)"
    and "\<forall>(k, v) \<in> set opts. clean_option k \<and> clean_value v"
  shows "\<exists>s' d. ini_line [] s = Inr s' \<and> ini_sections s' = pre @ [(n, d)] \<and> join_values d = opts
    \<and> ini_seen s' = ini_seen s \<and> ini_bad s' = ini_bad s \<and> ini_defaults s' = ini_defaults s"
proof -
  have j: "join_values (listed xs) = xs" if "\<forall>(k, v) \<in> set xs. clean_option k \<and> clean_value v" for xs
    using that by (induction xs) (auto simp: join_values_def listed_def clean_value_def rstrip_fixed)
  have c: "\<not> ini_comment []" by (simp add: ini_comment_def starts_with_def str_strip_def)
  show ?thesis
  proof (cases opts rule: rev_cases)
    case Nil
    then show ?thesis using assms c by (simp add: ini_line_def str_strip_def join_values_def)
  next
    case (snoc xs kv)
    obtain k v where kv: "kv = (k, v)" by fastforce
    have k: "k \<noteq> []" "str_strip v = v" using assms(7) by (auto simp: snoc kv clean_option_def clean_value_def)
    have kx: "k \<notin> set (od_keys (listed xs))" using assms(6) by (simp add: snoc kv od_simps)
    have "ini_line [] s = Inr (extend_option n k [] s)"
      using assms(1,5) k c by (simp add: ini_line_def snoc kv str_strip_def)
    moreover have "ini_sections (extend_option n k [] s) = pre @ [(n, listed xs @ [(k, [v, []])])]"
      using assms(2,3) od_get_last [OF assms(4)] od_set_last [OF assms(4)] od_get_last [OF kx] od_set_last [OF kx]
      by (simp add: extend_option_def set_current_option_def current_options_def snoc kv)
    moreover have "join_values (listed xs @ [(k, [v, []])]) = opts"
      using j [of xs] assms(7) rstrip_append_space [of newline v] rstrip_fixed [OF k(2)]
      by (simp add: join_values_def snoc kv)
    ultimately show ?thesis
      using assms(2) by (auto simp: extend_option_def set_current_option_def)
  qed
qed

definition joined :: "(string, (string, string list) odict) odict \<Rightarrow> (string, (string, string) odict) odict" where
  "joined ss = map (\<lambda>(n, d). (n, join_values d)) ss"

lemma keys_joined [simp]: "od_keys (joined ss) = od_keys ss"
  by (simp add: joined_def od_keys_def split_beta comp_def)

lemma section_fold:
  assumes "clean_section n" and "n \<notin> set (od_keys (ini_sections s))" and "distinct (od_keys opts)"
    and "\<forall>(k, v) \<in> set opts. clean_option k \<and> clean_value v" and "\<forall>k. (n, k) \<notin> set (ini_seen s)"
  shows "\<exists>s'. res_fold ini_line (section_lines n opts) s = Inr s' \<and> joined (ini_sections s') = joined (ini_sections s) @ [(n, opts)]
    \<and> set (ini_seen s') \<subseteq> set (ini_seen s) \<union> {n} \<times> UNIV \<and> ini_bad s' = ini_bad s \<and> ini_defaults s' = ini_defaults s"
proof -
  have n: "n \<noteq> DEFAULTSECT" using assms(1) by (simp add: clean_section_def)
  define s1 where "s1 = s\<lparr>ini_indent := 0, ini_sections := od_set n [] (ini_sections s), ini_current := Some n, ini_option := None\<rparr>"
  have h: "ini_line (''['' @ n @ '']'') s = Inr s1"
    unfolding s1_def by (rule header_line [OF assms(1)]) (use assms(2) od_get_None_iff in metis)
  have s1: "ini_sections s1 = ini_sections s @ [(n, [])]" "ini_current s1 = Some n" "ini_seen s1 = ini_seen s"
    "ini_bad s1 = ini_bad s" "ini_defaults s1 = ini_defaults s" "ini_option s1 = None"
    using od_set_new [OF assms(2)] by (simp_all add: s1_def)
  obtain s2 where s2: "res_fold ini_line (map (\<lambda>(k, v). k @ '' = '' @ v) opts) s1 = Inr s2"
      "ini_sections s2 = ini_sections s @ [(n, [] @ listed opts)]" "ini_current s2 = Some n"
      "ini_option s2 = (if opts = [] then ini_option s1 else Some (fst (last opts)))"
      "set (ini_seen s2) = set (ini_seen s1) \<union> {n} \<times> set (od_keys opts)" "ini_bad s2 = ini_bad s1" "ini_defaults s2 = ini_defaults s1"
    using options_fold [OF s1(1) assms(2) n s1(2) assms(4,3)] assms(5) s1(3) by (auto simp: od_simps)
  obtain s3 d where s3: "ini_line [] s2 = Inr s3" "ini_sections s3 = ini_sections s @ [(n, d)]" "join_values d = opts"
      "ini_seen s3 = ini_seen s2" "ini_bad s3 = ini_bad s2" "ini_defaults s3 = ini_defaults s2"
    using blank_line [OF s2(3) n s2(2) [simplified] assms(2) s2(4) [unfolded s1(6)] assms(3,4)] by blast
  have "res_fold ini_line (section_lines n opts) s = Inr s3"
    using h s2(1) s3(1) by (simp add: section_lines_def res_fold_append)
  moreover have "joined (ini_sections s3) = joined (ini_sections s) @ [(n, opts)]"
    using s3(2,3) by (simp add: joined_def)
  ultimately show ?thesis using s1 s2(5-7) s3(4-6) by auto
qed

lemma sections_fold:
  assumes "\<forall>(n, opts) \<in> set ss. clean_section n \<and> distinct (od_keys opts) \<and> (\<forall>(k, v) \<in> set opts. clean_option k \<and> clean_value v)"
    and "distinct (od_keys ss)" and "\<forall>n \<in> set (od_keys ss). n \<notin> set (od_keys (ini_sections s)) \<and> (\<forall>k. (n, k) \<notin> set (ini_seen s))"
  shows "\<exists>s'. res_fold ini_line (concat (map (\<lambda>(n, opts). section_lines n opts) ss)) s = Inr s'
    \<and> joined (ini_sections s') = joined (ini_sections s) @ ss \<and> ini_bad s' = ini_bad s \<and> ini_defaults s' = ini_defaults s"
  using assms
proof (induction ss arbitrary: s)
  case (Cons nd ss)
  obtain n opts where nd: "nd = (n, opts)" by fastforce
  obtain s1 where s1: "res_fold ini_line (section_lines n opts) s = Inr s1" "joined (ini_sections s1) = joined (ini_sections s) @ [(n, opts)]"
      "set (ini_seen s1) \<subseteq> set (ini_seen s) \<union> {n} \<times> UNIV" "ini_bad s1 = ini_bad s" "ini_defaults s1 = ini_defaults s"
    using section_fold [of n s opts] Cons.prems by (auto simp: nd od_simps)
  have k: "od_keys (ini_sections s1) = od_keys (ini_sections s) @ [n]"
    using arg_cong [OF s1(2), of od_keys] by (simp add: od_simps)
  have "\<exists>s'. res_fold ini_line (concat (map (\<lambda>(n, opts). section_lines n opts) ss)) s1 = Inr s'
    \<and> joined (ini_sections s') = joined (ini_sections s1) @ ss \<and> ini_bad s' = ini_bad s1 \<and> ini_defaults s' = ini_defaults s1"
  proof (rule Cons.IH)
    show "\<forall>m \<in> set (od_keys ss). m \<notin> set (od_keys (ini_sections s1)) \<and> (\<forall>k. (m, k) \<notin> set (ini_seen s1))"
      using Cons.prems(2,3) s1(3) k by (auto simp: nd od_simps)
  qed (use Cons.prems in \<open>auto simp: nd od_simps\<close>)
  then show ?case using s1 by (auto simp: nd res_fold_append)
qed (simp add: od_simps)

lemma ini_read_write_lines:
  assumes "clean_config cp"
  shows "ini_write cp = concat (map (\<lambda>l. l @ [newline]) (concat (map (\<lambda>(n, opts). section_lines n opts) (cp_sections cp))))"
proof -
  have "concat (map (\<lambda>(n, opts). ini_section n opts) ss) =
      concat (map (\<lambda>l. l @ [newline]) (concat (map (\<lambda>(n, opts). section_lines n opts) ss)))"
    if "set ss \<subseteq> set (cp_sections cp)" for ss
    using that assms by (induction ss) (auto simp: clean_config_def ini_section_lines)
  then show ?thesis using assms by (simp add: ini_write_def clean_config_def)
qed

lemma section_lines_clean:
  assumes "clean_section n" and "\<forall>(k, v) \<in> set opts. clean_option k \<and> clean_value v" and "l \<in> set (section_lines n opts)"
  shows "newline \<notin> set l \<and> CHR 0x0D \<notin> set l"
proof -
  consider "l = ''['' @ n @ '']''" | "l = []" | k v where "(k, v) \<in> set opts" "l = k @ '' = '' @ v"
    using assms(3) by (auto simp: section_lines_def)
  then show ?thesis
  proof cases
    case 3
    then have "clean_option k" "clean_value v" using assms(2) by blast+
    with 3 show ?thesis by (simp add: clean_option_def clean_value_def)
  qed (use assms(1) in \<open>simp_all add: clean_section_def\<close>)
qed

lemma lines_clean:
  assumes "clean_config cp" and "l \<in> set (concat (map (\<lambda>(n, opts). section_lines n opts) (cp_sections cp)))"
  shows "newline \<notin> set l \<and> CHR 0x0D \<notin> set l"
proof -
  obtain n opts where "(n, opts) \<in> set (cp_sections cp)" and l: "l \<in> set (section_lines n opts)"
    using assms(2) by auto
  then have "clean_section n" "\<forall>(k, v) \<in> set opts. clean_option k \<and> clean_value v"
    using assms(1) unfolding clean_config_def by blast+
  from section_lines_clean [OF this l] show ?thesis .
qed

lemma ini_write_no_return:
  assumes "clean_config cp"
  shows "CHR 0x0D \<notin> set (ini_write cp)"
proof -
  have "CHR 0x0D \<notin> set (concat (map (\<lambda>l. l @ [newline]) ls))" if "\<forall>l \<in> set ls. CHR 0x0D \<notin> set l" for ls :: "string list"
    using that by auto
  then show ?thesis unfolding ini_read_write_lines [OF assms] using lines_clean [OF assms] by blast
qed

lemma ini_read_write_clean:
  assumes "clean_config cp"
  shows "ini_read (ini_write cp) = Inr cp"
proof -
  have "\<exists>s'. res_fold ini_line (concat (map (\<lambda>(n, opts). section_lines n opts) (cp_sections cp))) ini_start = Inr s'
    \<and> joined (ini_sections s') = joined (ini_sections ini_start) @ cp_sections cp
    \<and> ini_bad s' = ini_bad ini_start \<and> ini_defaults s' = ini_defaults ini_start"
    by (rule sections_fold) (use assms in \<open>auto simp: clean_config_def ini_start_def od_simps\<close>)
  then show ?thesis
    using assms by (auto simp: ini_read_def ini_read_write_lines lines_of_lines lines_clean ini_finish_def ini_start_def
        joined_def join_values_def clean_config_def)
qed

text \<open>Names and values must be on one line and have no space at their ends; option names must be lower case and hold no delimiter.\<close>

lemma clean_config_example:
  "clean_config \<lparr>cp_sections = [(''identifier'', [(''name'', ''hmm''), (''version'', ''master.0.1'')]), (''config'', [(''files'', '''')])], cp_defaults = []\<rparr>"
  by code_simp

end
