(* ===== verification/FileUtils.thy ===== *)
theory FileUtils
  imports Files IniFile Json
begin

text \<open>
  \<^verbatim>\<open>pysrc/pipeman/file.py\<close>. The zip format is an argument here (Archives gives the one of the vendored modules): the bytes of
  an archive for its entries and the clock, and the entries read back, each with the error that ended it, if one did.
  Logging and garbage collection leave no trace.
\<close>

section \<open>Directories\<close>

text \<open>\<open>os.chdir\<close>, and \<open>os.getcwd\<close>: the working directory is a normalised absolute path.\<close>

definition cwd_text :: "string list \<Rightarrow> string" where
  "cwd_text comps = CHR ''/'' # str_join ''/'' comps"

definition chdir :: "string \<Rightarrow> ('z file_world_scheme, unit) io" where
  "chdir p w =
     (case node_at w p of
        None \<Rightarrow> (Inl FileNotFoundError, w)
      | Some (File _) \<Rightarrow> (Inl OSError, w)
      | Some Dir \<Rightarrow> (Inr (), w\<lparr>fw_cwd := cwd_text (resolve w p)\<rparr>))"

definition file_check_or_create_dir :: "string \<Rightarrow> ('z file_world_scheme, unit) io" where
  "file_check_or_create_dir directory =
     (if directory = [] then io_return ()
      else io_bind io_get (\<lambda>w. if \<not> path_exists directory w then makedirs True directory else io_return ()))"

definition goto_dir :: "string \<Rightarrow> ('z file_world_scheme, string) io" where
  "goto_dir directory =
     io_bind io_get (\<lambda>w. let old_pwd = fw_cwd w
       in io_then (file_check_or_create_dir directory) (io_then (chdir directory) (io_return old_pwd)))"

section \<open>Walking\<close>

text \<open>The files below a node, each by the path its directory entry has; the keys of the table bound the depth.\<close>

definition deepest :: "fs \<Rightarrow> nat" where
  "deepest fs = fold (\<lambda>(p, _). max (length p)) fs 0"

lemma fold_max_le: "(m :: nat) \<le> fold (\<lambda>(p, _). max (length p)) fs m \<and> (\<forall>(p, n) \<in> set fs. length p \<le> fold (\<lambda>(p, _). max (length p)) fs m)"
proof (induction fs arbitrary: m)
  case (Cons pn fs)
  obtain p n where pn: "pn = (p, n)" by fastforce
  note ih = Cons.IH [of "max (length p) m"]
  have "fold (\<lambda>(p, _). max (length p)) (pn # fs) m = fold (\<lambda>(p, _). max (length p)) fs (max (length p) m)"
    by (simp add: pn)
  with ih show ?case by (auto simp: pn)
qed simp

lemma entry_deeper:
  assumes "(c, b) \<in> set (dir_entries fs p)"
  shows "length p < deepest fs"
proof -
  obtain q n where q: "(q, n) \<in> set fs" "q \<noteq> []" "butlast q = p"
    using assms by (auto simp: dir_entries_def)
  then have "length q \<le> deepest fs" using fold_max_le [of 0 fs] by (auto simp: deepest_def)
  then show ?thesis using q(2,3) by (cases q rule: rev_cases) auto
qed

function traverse_directory :: "fs \<Rightarrow> string list \<Rightarrow> string \<Rightarrow> string list" where
  "traverse_directory fs p name =
     (if fs_node fs p \<noteq> Some Dir then [name]
      else concat (map (\<lambda>(c, _). traverse_directory fs (p @ [c]) (path_join name c)) (dir_entries fs p)))"
  by pat_completeness auto
termination
  by (relation "measure (\<lambda>(fs, p, _). Suc (deepest fs) - length p)") (auto dest: entry_deeper)

declare traverse_directory.simps [simp del]

section \<open>Configurations and parameters\<close>

definition open_local_config :: "string \<Rightarrow> ('z file_world_scheme, icp) io" where
  "open_local_config source_path = io_bind (read_str source_path) (\<lambda>text. io_lift (ini_read text))"

definition write_local_config :: "icp \<Rightarrow> string \<Rightarrow> ('z file_world_scheme, unit) io" where
  "write_local_config target_config dest_path = write_str dest_path (ini_write target_config)"

definition dump_params_to :: "json \<Rightarrow> string \<Rightarrow> ('z file_world_scheme, unit) io" where
  "dump_params_to params dest_path = write_str dest_path (dumps params)"

definition load_params_from :: "string \<Rightarrow> ('z file_world_scheme, json) io" where
  "load_params_from source_path = io_bind (read_str source_path) (\<lambda>text. io_lift (loads text))"

section \<open>Archives\<close>

record archiver =
  az_zip :: "nat \<Rightarrow> (string \<times> string) list \<Rightarrow> string \<times> py_error option"
  az_unzip :: "string \<Rightarrow> (string \<times> string) list \<times> py_error option"

text \<open>The chunks of an archive, written one after the other to the open file.\<close>

definition write_archive :: "archiver \<Rightarrow> nat \<Rightarrow> string \<Rightarrow> (string \<times> string) list \<Rightarrow> ('z file_world_scheme, unit) io" where
  "write_archive Z clock dest_archive entries =
     (case az_zip Z clock entries of (bytes, err) \<Rightarrow>
        io_then (write_bytes dest_archive bytes) (case err of None \<Rightarrow> io_return () | Some e \<Rightarrow> io_raise e))"

text \<open>
  The entries of \<open>iter_stream_zip\<close>: names are prefixed with \<open>./\<close>, the content is what the file holds, and every
  entry reads the clock. The archive exists, empty, while the folder is walked.
\<close>

definition iter_stream_zip :: "string \<Rightarrow> ('z file_world_scheme, (string \<times> string) list) io" where
  "iter_stream_zip root =
     io_bind io_get (\<lambda>w.
     if root = [] \<or> node_at w root = None then io_raise FileNotFoundError
     else io_map (\<lambda>p. let path = ''./'' @ p
       in io_bind time_now (\<lambda>_. io_bind (read_bytes path) (\<lambda>content. io_return (path, content))))
       (traverse_directory (fw_files w) (resolve w root) root))"

definition archive_local_folder :: "archiver \<Rightarrow> string \<Rightarrow> string \<Rightarrow> ('z file_world_scheme, unit) io" where
  "archive_local_folder Z source_folder dest_archive =
     io_bind (goto_dir source_folder) (\<lambda>old_pwd.
     io_then (write_bytes dest_archive [])
     (io_bind io_get (\<lambda>w0.
      io_bind (iter_stream_zip ''.'') (\<lambda>entries.
      io_then (write_archive Z (fw_clock w0) dest_archive entries)
      (io_bind (goto_dir old_pwd) (\<lambda>_. io_return ()))))))"

text \<open>
  \<open>archive_local_file\<close> passes generators where the zip module expects tuples of five: unpacking the first one fails. Only
  an empty list of files makes an archive.
\<close>

datatype source_files = OneFile string | FileList "string list"

definition archive_local_file :: "archiver \<Rightarrow> source_files \<Rightarrow> string \<Rightarrow> ('z file_world_scheme, unit) io" where
  "archive_local_file Z source dest_archive =
     io_then (write_bytes dest_archive [])
       (case source of
          FileList [] \<Rightarrow> io_bind io_get (\<lambda>w. write_archive Z (fw_clock w) dest_archive [])
        | FileList (p # ps) \<Rightarrow> io_bind io_get (\<lambda>w. if node_at w p = None then io_raise FileNotFoundError else io_raise ValueError)
        | OneFile p \<Rightarrow> io_bind io_get (\<lambda>w. if node_at w p = None then io_raise FileNotFoundError else io_raise ValueError))"

definition file_dirname :: "string \<Rightarrow> string" where
  "file_dirname p =
     (let h = rev (dropWhile (\<lambda>c. c \<noteq> CHR ''/'') (rev p))
      in if list_all (\<lambda>c. c = CHR ''/'') h then h else rev (dropWhile (\<lambda>c. c = CHR ''/'') (rev h)))"

definition extract_entry :: "string \<times> string \<Rightarrow> ('z file_world_scheme, unit) io" where
  "extract_entry e =
     io_bind io_get (\<lambda>w. let file_name = abspath (fw_cwd w) (fst e)
       in io_then (file_check_or_create_dir (file_dirname file_name)) (write_bytes file_name (snd e)))"

definition extract_archive_to :: "archiver \<Rightarrow> string \<Rightarrow> string \<Rightarrow> ('z file_world_scheme, unit) io" where
  "extract_archive_to Z source_path dest_path =
     io_bind (goto_dir dest_path) (\<lambda>old_pwd.
     io_bind (read_bytes source_path) (\<lambda>content.
     let (entries, err) = az_unzip Z content
     in io_then (io_map extract_entry entries)
        (case err of
           Some e \<Rightarrow> io_raise e
         | None \<Rightarrow> io_bind (goto_dir old_pwd) (\<lambda>_. io_return ()))))"

section \<open>Sizes\<close>

text \<open>What \<open>getsize\<close> says of a directory is up to the file system.\<close>

definition get_file_size :: "nat \<Rightarrow> string \<Rightarrow> ('z file_world_scheme, nat) io" where
  "get_file_size dir_size path w =
     (case node_at w path of
        None \<Rightarrow> (Inl FileNotFoundError, w)
      | Some (File s) \<Rightarrow> (Inr (length s), w)
      | Some Dir \<Rightarrow> (Inr dir_size, w))"

definition file_size_of :: "fs \<Rightarrow> string list \<Rightarrow> nat" where
  "file_size_of fs p = (case fs_node fs p of Some (File s) \<Rightarrow> length s | _ \<Rightarrow> 0)"

text \<open>\<open>os.walk\<close> of a missing path visits nothing; the size is the sum over all files below the path.\<close>

definition below :: "fs \<Rightarrow> string list \<Rightarrow> string list list" where
  "below fs p = filter (\<lambda>q. length p < length q \<and> take (length p) q = p) (od_keys fs)"

definition get_dir_size :: "string \<Rightarrow> 'z file_world_scheme \<Rightarrow> nat" where
  "get_dir_size path w =
     (if node_at w path = Some Dir
      then sum_list (map (file_size_of (fw_files w)) (below (fw_files w) (resolve w path))) else 0)"

text \<open>Sizes of archives: a temporary file (its path is the parameter \<open>tmp\<close>) that is deleted on leaving the block.\<close>

definition delete_file :: "string \<Rightarrow> ('z file_world_scheme, unit) io" where
  "delete_file p w = (Inr (), w\<lparr>fw_files := od_del (resolve w p) (fw_files w)\<rparr>)"

definition with_temp_file :: "string \<Rightarrow> ('z file_world_scheme, 'a) io \<Rightarrow> ('z file_world_scheme, 'a) io" where
  "with_temp_file tmp f = io_then (write_bytes tmp []) (\<lambda>w. case f w of (r, w') \<Rightarrow> (r, snd (delete_file tmp w')))"

definition get_dir_compressed_size :: "archiver \<Rightarrow> string \<Rightarrow> string \<Rightarrow> ('z file_world_scheme, nat) io" where
  "get_dir_compressed_size Z tmp path =
     with_temp_file tmp (io_then (archive_local_folder Z path tmp) (get_file_size 0 tmp))"

definition get_file_compressed_size :: "archiver \<Rightarrow> string \<Rightarrow> string \<Rightarrow> ('z file_world_scheme, nat) io" where
  "get_file_compressed_size Z tmp path =
     with_temp_file tmp (io_then (archive_local_file Z (OneFile path) tmp) (get_file_size 0 tmp))"

section \<open>Laws\<close>

lemma open_local_config_ok:
  assumes "read_bytes p w = (Inr (utf8 (ini_write cp)), w)" and "clean_config cp"
  shows "open_local_config p w = (Inr cp, w)"
proof -
  have "CHR 0x0D \<notin> set (ini_write cp)"
    using assms(2) ini_write_no_return by blast
  then have "read_str p w = (Inr (ini_write cp), w)"
    using assms(1) by (simp add: read_str_def io_bind_def universal_newlines_id)
  then show ?thesis using ini_read_write_clean [OF assms(2)] by (simp add: open_local_config_def io_bind_def)
qed

lemma read_written:
  assumes "write_bytes p s w = (Inr (), w')"
  shows "read_bytes p w' = (Inr s, w')"
proof -
  have p: "p \<noteq> []" and r: "resolve w p \<noteq> []" and w': "w' = set_node (resolve w p) (File s) w"
    using assms by (auto simp: write_bytes_def node_at_def fs_node_def split: option.splits node.splits if_splits)
  then have "nodes w' (resolve w' p) = Some (File s)" by (simp add: resolve_def)
  then show ?thesis using p by (rule read_bytes_ok [rotated])
qed

text \<open>
  What \<open>write_local_config\<close> puts into a file for a configuration is what \<open>open_local_config\<close> reads from it: the same
  sections, options and values in the same order. Names and values must be on one line and have no space at their
  ends, and option names must be lower case and hold no delimiter.
\<close>
theorem local_config_roundtrip:
  assumes "clean_config cp" and "write_local_config cp path w = (Inr (), w')"
  shows "open_local_config path w' = (Inr cp, w')"
  using assms(2) by (intro open_local_config_ok read_written assms(1)) (simp add: write_local_config_def write_str_def)

lemma local_config_roundtrip_witness:
  "\<exists>w w' :: file_world. write_local_config \<lparr>cp_sections = [(''identifier'', [(''name'', ''hmm''), (''version'', ''master.0.1'')]), (''config'', [(''files'', '''')])],
       cp_defaults = []\<rparr> ''/m'' w = (Inr (), w')
     \<and> open_local_config ''/m'' w' = (Inr \<lparr>cp_sections = [(''identifier'', [(''name'', ''hmm''), (''version'', ''master.0.1'')]), (''config'', [(''files'', '''')])],
       cp_defaults = []\<rparr>, w')"
proof -
  let ?cp = "\<lparr>cp_sections = [(''identifier'', [(''name'', ''hmm''), (''version'', ''master.0.1'')]), (''config'', [(''files'', '''')])], cp_defaults = []\<rparr>"
  let ?w = "\<lparr>fw_cwd = ''/'', fw_files = [], fw_time = (\<lambda>_. ''0''), fw_clock = 0\<rparr> :: file_world"
  have "isl (fst (write_local_config ?cp ''/m'' ?w)) = False" by code_simp
  then obtain w' where w: "write_local_config ?cp ''/m'' ?w = (Inr (), w')"
    by (cases "write_local_config ?cp ''/m'' ?w"; cases "fst (write_local_config ?cp ''/m'' ?w)") auto
  from local_config_roundtrip [OF clean_config_example w] w show ?thesis by blast
qed

text \<open>
  Archiving a single file never works: it fails with \<open>ValueError\<close>, or because the file is missing, after it
  has left an empty archive behind.
\<close>
theorem archive_local_file_fails:
  "fst (archive_local_file Z (OneFile p) dest w) \<in> {Inl ValueError, Inl FileNotFoundError, Inl OSError}"
  unfolding archive_local_file_def io_then_def io_bind_def write_bytes_def
  by (auto split: sum.splits prod.splits option.splits node.splits)

end
