(* ===== verification/Managers.thy ===== *)
theory Managers
  imports Storage FileUtils MetaConfig
begin

text \<open>
  The managers of the components of a pipeline: \<^verbatim>\<open>MetaStorage\<close> of \<^verbatim>\<open>pysrc/pipeman/storage.py\<close>,
  \<^verbatim>\<open>librarymanager.py\<close>, \<^verbatim>\<open>datasetmanager.py\<close>, \<^verbatim>\<open>solutionmanager.py\<close> and \<^verbatim>\<open>workspace.py\<close>. The physical storage, the
  zip format, the MD5 digest and the temporary directory are arguments; the managers keep no state of
  their own. Wrapping a configuration in its class adds the identifier section where it is missing (\<open>meta_init\<close>).
\<close>

section \<open>MetaStorage\<close>

text \<open>\<open>ConfigParser().read(path)\<close>: a file that cannot be opened is passed over.\<close>

definition parse_path :: "string \<Rightarrow> ('z file_world_scheme, icp) io" where
  "parse_path local_path w =
     (case read_str local_path w of
        (Inl e, w') \<Rightarrow> (if e = FileNotFoundError \<or> e = OSError then Inr cp_empty else Inl e, w')
      | (Inr text, w') \<Rightarrow> (ini_read text, w'))"

definition meta_get_branch_head :: "'z file_world_scheme phys_store \<Rightarrow> meta_key \<Rightarrow> ('z file_world_scheme, icp) io" where
  "meta_get_branch_head P key = io_bind (semantic_get_branch_head P META_STORAGE key) parse_path"

definition meta_get_semantic_version :: "'z file_world_scheme phys_store \<Rightarrow> meta_key \<Rightarrow> ('z file_world_scheme, icp) io" where
  "meta_get_semantic_version P key = io_bind (semantic_get_version P META_STORAGE key) parse_path"

definition meta_get_lineage ::
    "nat \<Rightarrow> 'z file_world_scheme phys_store \<Rightarrow> meta_key \<Rightarrow> ('z file_world_scheme, icp list option) io" where
  "meta_get_lineage fuel P key =
     io_bind (semantic_traverse_branch fuel P META_STORAGE key) (\<lambda>lineage.
       case lineage of
         None \<Rightarrow> io_return None
       | Some paths \<Rightarrow> io_bind (io_map parse_path paths) (\<lambda>cps. io_return (Some cps)))"

abbreviation meta_put :: "'s phys_store \<Rightarrow> meta_key \<Rightarrow> string \<Rightarrow> ('s, unit) io" where
  "meta_put P \<equiv> semantic_put P META_STORAGE"

definition wrap_meta :: "icp \<Rightarrow> ('s, icp) io" where
  "wrap_meta cp = io_lift (meta_init cp)"

section \<open>LibraryManager\<close>

definition MANIFEST_PATH :: string where "MANIFEST_PATH = ''.manifest''"

text \<open>The version a commit proposes: the successor of the head of the branch, or 0.0 when there is none.\<close>

definition next_library_version :: "string \<Rightarrow> bool \<Rightarrow> semantic_version \<Rightarrow> semantic_version" where
  "next_library_version working_branch api_is_updated current =
     (if api_is_updated then mk_version working_branch (api_version current + 1) 0
      else mk_version working_branch (api_version current) (inc_version current + 1))"

definition library_proposed_version ::
    "'z file_world_scheme phys_store \<Rightarrow> icp \<Rightarrow> meta_key \<Rightarrow> ('z file_world_scheme, semantic_version) io" where
  "library_proposed_version P manifest_meta library_key =
     io_try
       (io_bind (meta_get_branch_head P library_key) (\<lambda>config.
        io_bind (wrap_meta config) (\<lambda>library_meta.
        io_bind (io_lift (meta_version library_meta)) (\<lambda>current_latest_sv.
        io_bind (io_lift (api_updated manifest_meta)) (\<lambda>updated.
          io_return (next_library_version (key_branch library_key) updated current_latest_sv))))))
       (\<lambda>e. e = KeyError)
       (io_return (mk_version (key_branch library_key) 0 0))"

text \<open>The tail the two \<open>create\<close> methods share: the manifest is stamped and the folder and the manifest are committed.\<close>

definition commit_component ::
    "'z file_world_scheme phys_store \<Rightarrow> archiver \<Rightarrow> string \<Rightarrow> string \<Rightarrow> icp \<Rightarrow> meta_key \<Rightarrow> string \<Rightarrow> string \<Rightarrow>
     ('z file_world_scheme, unit) io" where
  "commit_component P Z temp_path storage_prefix manifest_meta key source_path source_manifest_path =
     io_bind (io_lift (set_meta_version (component_version key) manifest_meta)) (\<lambda>m1.
     io_bind time_now (\<lambda>now.
     io_bind (io_lift (set_created_timestamp now m1)) (\<lambda>m2.
     io_then (write_local_config m2 source_manifest_path)
     (let archive_file_path = path_join temp_path (to_string False key)
      in io_then (archive_local_folder Z source_path archive_file_path)
         (io_then (semantic_put P storage_prefix key archive_file_path)
         (meta_put P key source_manifest_path))))))"

definition library_create ::
    "'z file_world_scheme phys_store \<Rightarrow> archiver \<Rightarrow> string \<Rightarrow> string \<Rightarrow> string \<Rightarrow> ('z file_world_scheme, unit) io" where
  "library_create P Z temp_path source_path working_branch =
     (let source_manifest_path = path_join source_path MANIFEST_PATH
      in io_bind (io_bind (open_local_config source_manifest_path) wrap_meta) (\<lambda>manifest_meta.
         io_bind (io_lift (meta_name manifest_meta)) (\<lambda>name.
         let library_key = mk_key GENERIC_LIBRARY_KEY name (mk_version working_branch 0 0)
         in io_bind (library_proposed_version P manifest_meta library_key) (\<lambda>proposed_sv.
            commit_component P Z temp_path LIBRARY_STORAGE manifest_meta (library_key\<lparr>component_version := proposed_sv\<rparr>)
              source_path source_manifest_path))))"

text \<open>Branching is the same for libraries and datasets, but for the storage of the archives.\<close>

definition component_branch_on_version ::
    "'s phys_store \<Rightarrow> string \<Rightarrow> meta_key \<Rightarrow> string \<Rightarrow> ('s, unit) io" where
  "component_branch_on_version P storage_prefix key new_branch =
     io_then (semantic_branch_on_version P META_STORAGE key new_branch)
       (semantic_branch_on_version P storage_prefix key new_branch)"

definition component_branch_on_head ::
    "'z file_world_scheme phys_store \<Rightarrow> string \<Rightarrow> meta_key \<Rightarrow> string \<Rightarrow> ('z file_world_scheme, unit) io" where
  "component_branch_on_head P storage_prefix key new_branch =
     io_bind (io_bind (meta_get_branch_head P key) wrap_meta) (\<lambda>meta.
     io_bind (io_lift (meta_version meta)) (\<lambda>v.
       component_branch_on_version P storage_prefix (key\<lparr>component_version := v\<rparr>) new_branch))"

definition library_branch_on_branch_head :: "'z file_world_scheme phys_store \<Rightarrow> meta_key \<Rightarrow> string \<Rightarrow> ('z file_world_scheme, unit) io" where
  "library_branch_on_branch_head P key new_branch = component_branch_on_head P LIBRARY_STORAGE key new_branch"

definition library_branch_on_semantic_version :: "'s phys_store \<Rightarrow> meta_key \<Rightarrow> string \<Rightarrow> ('s, unit) io" where
  "library_branch_on_semantic_version P key new_branch = component_branch_on_version P LIBRARY_STORAGE key new_branch"

definition list_of_branch :: "'s phys_store \<Rightarrow> meta_key \<Rightarrow> ('s, py_value) io" where
  "list_of_branch P key = semantic_list_of_branches P META_STORAGE key"

definition list_of_components :: "'s phys_store \<Rightarrow> ('s, string list) io" where
  "list_of_components P = semantic_list_of_components P META_STORAGE"

definition list_of_component_versions :: "'s phys_store \<Rightarrow> meta_key \<Rightarrow> ('s, string list) io" where
  "list_of_component_versions P key = semantic_list_of_versions P META_STORAGE key"

definition get_meta :: "'z file_world_scheme phys_store \<Rightarrow> meta_key \<Rightarrow> ('z file_world_scheme, icp) io" where
  "get_meta P key = io_bind (meta_get_semantic_version P key) wrap_meta"

definition get_meta_on_branch_head :: "'z file_world_scheme phys_store \<Rightarrow> meta_key \<Rightarrow> ('z file_world_scheme, icp) io" where
  "get_meta_on_branch_head P key = io_bind (meta_get_branch_head P key) wrap_meta"

definition component_get_archive ::
    "'z file_world_scheme phys_store \<Rightarrow> archiver \<Rightarrow> string \<Rightarrow> meta_key \<Rightarrow> string \<Rightarrow> ('z file_world_scheme, unit) io" where
  "component_get_archive P Z storage_prefix key dest_path =
     io_bind (semantic_get_version P storage_prefix key) (\<lambda>temp_path. extract_archive_to Z temp_path dest_path)"

definition library_get_archive :: "'z file_world_scheme phys_store \<Rightarrow> archiver \<Rightarrow> meta_key \<Rightarrow> string \<Rightarrow> ('z file_world_scheme, unit) io" where
  "library_get_archive P Z key dest_path = component_get_archive P Z LIBRARY_STORAGE key dest_path"

section \<open>DatasetManager\<close>

text \<open>
  The first record of \<open>csv.reader\<close> with its default dialect, over the lines of the file with their ends. A quoted field may run
  over several lines; at the end of the file what was read so far is a record.
\<close>

datatype csv_state = StartRecord | StartField | InField | InQuoted | QuoteInQuoted

text \<open>State, fields so far (reversed), current field (reversed); \<open>Inr\<close> is a finished record.\<close>

definition csv_end :: "string list \<Rightarrow> string \<Rightarrow> string list" where
  "csv_end row f = rev (rev f # row)"

fun csv_go :: "csv_state \<Rightarrow> string list \<Rightarrow> string \<Rightarrow> string \<Rightarrow> string list option" where
  "csv_go st row f [] =
     (case st of
        StartRecord \<Rightarrow> None
      | _ \<Rightarrow> Some (csv_end row f))"
| "csv_go st row f (c # s) =
     (case st of
        StartRecord \<Rightarrow>
          if c = newline then Some []
          else if c = CHR 0x22 then csv_go InQuoted row f s
          else if c = CHR '','' then csv_go StartField (rev f # row) [] s
          else csv_go InField row (c # f) s
      | StartField \<Rightarrow>
          if c = newline then Some (csv_end row f)
          else if c = CHR 0x22 then csv_go InQuoted row f s
          else if c = CHR '','' then csv_go StartField (rev f # row) [] s
          else csv_go InField row (c # f) s
      | InField \<Rightarrow>
          if c = newline then Some (csv_end row f)
          else if c = CHR '','' then csv_go StartField (rev f # row) [] s
          else csv_go InField row (c # f) s
      | InQuoted \<Rightarrow> if c = CHR 0x22 then csv_go QuoteInQuoted row f s else csv_go InQuoted row (c # f) s
      | QuoteInQuoted \<Rightarrow>
          if c = CHR 0x22 then csv_go InQuoted row (c # f) s
          else if c = CHR '','' then csv_go StartField (rev f # row) [] s
          else if c = newline then Some (csv_end row f)
          else csv_go InField row (c # f) s)"

definition csv_first_record :: "string \<Rightarrow> string list option" where
  "csv_first_record text = csv_go StartRecord [] [] text"

text \<open>\<open>str.upper()\<close>; three letters of Latin-1 have no upper case inside it, one of which doubles.\<close>

definition upper_char :: "char \<Rightarrow> string result" where
  "upper_char c =
     (let n = (of_char c :: nat)
      in if 97 \<le> n \<and> n \<le> 122 \<or> 224 \<le> n \<and> n \<le> 254 \<and> n \<noteq> 247 then Inr [char_of (n - 32)]
         else if n = 223 then Inr ''SS''
         else if n = 181 \<or> n = 255 then Inl ValueError
         else Inr [c])"

definition str_upper :: "string \<Rightarrow> string result" where
  "str_upper s = res_bind (res_map upper_char s) (\<lambda>cs. Inr (concat cs))"

definition normal_column :: "string \<Rightarrow> string result" where
  "normal_column item = res_bind (str_upper item) (\<lambda>u. Inr (str_replace '' '' [] u))"

definition sort_strings :: "string list \<Rightarrow> string list" where
  "sort_strings xs = map fst (sort_items (map (\<lambda>x. (x, ())) xs))"

text \<open>A file without any line has no header: \<open>headers.extend(None)\<close>.\<close>

definition csv_header :: "string \<Rightarrow> ('z file_world_scheme, string list) io" where
  "csv_header file_name =
     io_bind (read_str file_name) (\<lambda>text.
       case csv_first_record text of None \<Rightarrow> io_raise TypeError | Some header \<Rightarrow> io_return header)"

definition cal_dataset_schema_hash :: "(string \<Rightarrow> string) \<Rightarrow> string list \<Rightarrow> ('z file_world_scheme, string) io" where
  "cal_dataset_schema_hash md5 csv_files =
     io_bind (io_map csv_header csv_files) (\<lambda>headers.
     io_bind (io_lift (res_map normal_column (concat headers))) (\<lambda>items.
       io_return (md5 (utf8 (str_join '';'' (sort_strings items))))))"

definition NOT_HASHABLE :: string where "NOT_HASHABLE = ''not-schema-hashable''"

text \<open>
  The loop over the files of a manifest; an entry \<open>all\<close> ends it. \<open>manifest_meta.version.branch = ...\<close> assigns to a version
  that was just parsed and is thrown away; parsing it can fail.
\<close>

fun dataset_files_loop :: "string \<Rightarrow> string list \<Rightarrow> icp \<Rightarrow> string list \<Rightarrow> (icp \<times> string list) result" where
  "dataset_files_loop source_base [] manifest_meta file_list = Inr (manifest_meta, file_list)"
| "dataset_files_loop source_base (file_name # rest) manifest_meta file_list =
     (if file_name = ''all'' then
        res_bind (set_schema_hash NOT_HASHABLE manifest_meta) (\<lambda>m.
        res_bind (schema_hash m) (\<lambda>_. res_bind (meta_version m) (\<lambda>_. Inr (m, file_list))))
      else dataset_files_loop source_base rest manifest_meta (file_list @ [path_join source_base file_name]))"

definition dataset_refresh_schema ::
    "(string \<Rightarrow> string) \<Rightarrow> icp \<Rightarrow> string list \<Rightarrow> ('z file_world_scheme, icp) io" where
  "dataset_refresh_schema md5 manifest_meta file_list =
     io_bind (io_lift (schema_hash manifest_meta)) (\<lambda>h.
     if h \<noteq> NOT_HASHABLE then
       io_bind (cal_dataset_schema_hash md5 file_list) (\<lambda>d.
       io_lift (res_bind (set_schema_hash d manifest_meta) (\<lambda>m.
         res_bind (schema_hash m) (\<lambda>_. res_bind (meta_version m) (\<lambda>_. Inr m)))))
     else io_return manifest_meta)"

definition dataset_proposed_version ::
    "'z file_world_scheme phys_store \<Rightarrow> meta_key \<Rightarrow> ('z file_world_scheme, semantic_version) io" where
  "dataset_proposed_version P dataset_key =
     io_try
       (io_bind (meta_get_branch_head P dataset_key) (\<lambda>config.
        io_bind (wrap_meta config) (\<lambda>dataset_meta.
        io_bind (io_lift (meta_version dataset_meta)) (\<lambda>current_latest_sv.
          io_return (mk_version (key_branch dataset_key) (api_version current_latest_sv) (inc_version current_latest_sv + 1))))))
       (\<lambda>e. e = KeyError)
       (io_return (mk_version (key_branch dataset_key) 0 0))"

definition dataset_create ::
    "'z file_world_scheme phys_store \<Rightarrow> archiver \<Rightarrow> (string \<Rightarrow> string) \<Rightarrow> string \<Rightarrow> string \<Rightarrow> ('z file_world_scheme, meta_key) io" where
  "dataset_create P Z md5 temp_path source_path =
     (let source_manifest_path = path_join source_path MANIFEST_PATH
      in io_bind (io_bind (open_local_config source_manifest_path) wrap_meta) (\<lambda>m0.
         io_bind (io_lift (dataset_files m0)) (\<lambda>files.
         io_bind (io_lift (dataset_files_loop (file_dirname source_manifest_path) files m0 [])) (\<lambda>(m1, file_list).
         io_bind (dataset_refresh_schema md5 m1 file_list) (\<lambda>manifest_meta.
         io_bind (io_lift (meta_name manifest_meta)) (\<lambda>name.
         io_bind (io_lift (schema_hash manifest_meta)) (\<lambda>h.
         let dataset_key = mk_key GENERIC_DATASET_KEY name (mk_version h 0 0)
         in io_bind (dataset_proposed_version P dataset_key) (\<lambda>proposed_sv.
            let key = dataset_key\<lparr>component_version := proposed_sv\<rparr>
            in io_then (commit_component P Z temp_path DATASET_STORAGE manifest_meta key source_path source_manifest_path)
                 (io_return key)))))))))"

definition dataset_branch_on_branch_head :: "'z file_world_scheme phys_store \<Rightarrow> meta_key \<Rightarrow> string \<Rightarrow> ('z file_world_scheme, unit) io" where
  "dataset_branch_on_branch_head P key new_branch = component_branch_on_head P DATASET_STORAGE key new_branch"

definition dataset_branch_on_semantic_version :: "'s phys_store \<Rightarrow> meta_key \<Rightarrow> string \<Rightarrow> ('s, unit) io" where
  "dataset_branch_on_semantic_version P key new_branch = component_branch_on_version P DATASET_STORAGE key new_branch"

definition dataset_get_archive :: "'z file_world_scheme phys_store \<Rightarrow> archiver \<Rightarrow> meta_key \<Rightarrow> string \<Rightarrow> ('z file_world_scheme, unit) io" where
  "dataset_get_archive P Z key dest_path = component_get_archive P Z DATASET_STORAGE key dest_path"

definition dataset_get_meta :: "'z file_world_scheme phys_store \<Rightarrow> meta_key \<Rightarrow> ('z file_world_scheme, icp) io" where
  "dataset_get_meta P key = get_meta P key"

definition dataset_get_meta_on_branch_head :: "'z file_world_scheme phys_store \<Rightarrow> meta_key \<Rightarrow> ('z file_world_scheme, icp) io" where
  "dataset_get_meta_on_branch_head P key = get_meta_on_branch_head P key"

section \<open>SolutionManager\<close>

definition solution_create ::
    "'z file_world_scheme phys_store \<Rightarrow> string \<Rightarrow> string \<Rightarrow> meta_key list \<Rightarrow> ('z file_world_scheme, unit) io" where
  "solution_create P temp_path solution_name preprocess =
     (let solution_key = build_generic_solution_key solution_name build_zero_version
      in io_bind (wrap_meta cp_empty) (\<lambda>m0.
         io_bind (io_lift (solution_init_sections m0)) (\<lambda>m1.
         io_bind (io_lift (set_meta_name solution_name m1)) (\<lambda>m2.
         io_bind (io_lift (set_solution_preprocess preprocess m2)) (\<lambda>m3.
         io_bind time_now (\<lambda>now.
         io_bind (io_lift (set_created_timestamp now m3)) (\<lambda>m4.
         let temp = path_join temp_path (to_string False solution_key)
         in io_then (write_local_config m4 temp) (meta_put P solution_key temp))))))))"

definition solution_get :: "'z file_world_scheme phys_store \<Rightarrow> meta_key \<Rightarrow> ('z file_world_scheme, icp) io" where
  "solution_get P solution_key = io_bind (meta_get_branch_head P solution_key) wrap_meta"

section \<open>WorkspaceManager\<close>

definition new_workspace_meta ::
    "string \<Rightarrow> (string, meta_key option) odict \<Rightarrow> (string, string option) odict \<Rightarrow> string \<Rightarrow> string \<Rightarrow> meta_key list \<Rightarrow> icp result" where
  "new_workspace_meta name dataset_dict path_dict description now pipeline =
     res_bind (meta_init cp_empty) (\<lambda>m.
     res_bind (workspace_init_sections m) (\<lambda>m.
     res_bind (set_meta_type GENERIC_WORKSPACE_KEY m) (\<lambda>m.
     res_bind (set_workspace_type ''production-pipeline'' m) (\<lambda>m.
     res_bind (set_meta_name name m) (\<lambda>m.
     res_bind (set_workspace_datasets dataset_dict m) (\<lambda>m.
     res_bind (set_workspace_paths path_dict m) (\<lambda>m.
     res_bind (set_workspace_description description m) (\<lambda>m.
     res_bind (set_created_timestamp now m) (\<lambda>m.
       set_workspace_pipeline pipeline m)))))))))"

text \<open>
  A branch without a head is the exception of \<open>get_branch_head\<close>, not the \<open>None\<close> the code tests for: the branch
  of \<open>create\<close> for a new workspace is never taken.
\<close>

definition workspace_create ::
    "'z file_world_scheme phys_store \<Rightarrow> string \<Rightarrow> string \<Rightarrow> string \<Rightarrow> (string, meta_key option) odict \<Rightarrow>
     (string, string option) odict \<Rightarrow> string \<Rightarrow> meta_key list \<Rightarrow> ('z file_world_scheme, unit) io" where
  "workspace_create P temp_path name br dataset_dict path_dict description pipeline =
     io_bind time_now (\<lambda>now.
     io_bind (io_lift (new_workspace_meta name dataset_dict path_dict description now pipeline)) (\<lambda>meta.
     let ws_key = mk_key GENERIC_WORKSPACE_KEY name (mk_version br 0 0)
     in io_bind (meta_get_branch_head P ws_key) (\<lambda>existing_meta_config.
        io_bind (wrap_meta existing_meta_config) (\<lambda>existing.
        io_bind (io_lift (meta_version existing)) (\<lambda>existing_version.
        let key = ws_key\<lparr>component_version := (component_version ws_key)\<lparr>inc_version := inc_version existing_version + 1\<rparr>\<rparr>
        in io_bind (io_lift (set_meta_version (component_version key) meta)) (\<lambda>meta'.
           let tmp_file_path = path_join temp_path (to_string False key)
           in io_then (write_local_config meta' tmp_file_path) (meta_put P key tmp_file_path)))))))"

definition workspace_list_branches :: "'s phys_store \<Rightarrow> string \<Rightarrow> ('s, py_value) io" where
  "workspace_list_branches P workspace_name =
     semantic_list_of_branches P META_STORAGE (build_generic_workspace_key workspace_name build_zero_version)"

definition workspace_get :: "'z file_world_scheme phys_store \<Rightarrow> meta_key \<Rightarrow> ('z file_world_scheme, icp) io" where
  "workspace_get P key = io_bind (meta_get_branch_head P key) wrap_meta"

definition workspace_branch_on_branch_head :: "'s phys_store \<Rightarrow> meta_key \<Rightarrow> string \<Rightarrow> ('s, unit) io" where
  "workspace_branch_on_branch_head P key new_branch = semantic_branch_on_branch_head P META_STORAGE key new_branch"

definition workspace_branch_on_semantic_version :: "'s phys_store \<Rightarrow> meta_key \<Rightarrow> string \<Rightarrow> ('s, unit) io" where
  "workspace_branch_on_semantic_version P key new_branch = semantic_branch_on_version P META_STORAGE key new_branch"

end
