(* ===== verification/TrialManager.thy ===== *)
theory TrialManager
  imports TrialTree Managers Utils
begin

text \<open>
  \<^verbatim>\<open>pysrc/pipeman/trialmanager.py\<close>: the trial manager builds the environments of a pipeline's components, hands
  them to the coordinator one by one, saves what they produced and commits the workspace. The C++ coordinator,
  the generator of identifiers, \<open>repr\<close>, \<open>float\<close> and \<open>pickle\<close> are arguments, next to the storage and the zip format. Nodes are the
  records of the trial tree; measured times and the printed performance are left out.
\<close>

section \<open>The environment of the manager\<close>

record 'z trial_env =
  te_store :: "'z file_world_scheme phys_store"
  te_zip :: archiver
  te_temp_path :: string
  te_repr :: "json \<Rightarrow> string"
  te_is_float :: "string \<Rightarrow> bool"
  te_uuid :: "('z file_world_scheme, string) io"
  te_component_key :: "('z file_world_scheme, string) io"
  te_on_new_pipeline :: "string list \<Rightarrow> string list \<Rightarrow> ('z file_world_scheme, unit) io"
  te_on_new_component :: "string list \<Rightarrow> ('z file_world_scheme, unit) io"
  te_mkdtemp :: "('z file_world_scheme, string) io"
  te_arrange :: "meta_key list \<Rightarrow> meta_key list \<Rightarrow> meta_key list"
  te_retrain :: bool
  te_dump_tree :: "trial_tree \<Rightarrow> string"
  te_dump_heads :: "icp list \<Rightarrow> string"

definition py_str :: "'z trial_env \<Rightarrow> json \<Rightarrow> string" where
  "py_str E j =
     (case j of
        JStr s \<Rightarrow> s | JInt i \<Rightarrow> int_str i | JBool b \<Rightarrow> (if b then ''True'' else ''False'') | JNull \<Rightarrow> ''None''
      | _ \<Rightarrow> te_repr E j)"

text \<open>\<open>os.path.exists(output)\<close>; an output that is no text raises (an integer would be a file descriptor, which no output is).\<close>

definition output_exists :: "json \<Rightarrow> ('z file_world_scheme, bool) io" where
  "output_exists j = (case j of JStr s \<Rightarrow> io_bind io_get (\<lambda>w. io_return (path_exists s w)) | _ \<Rightarrow> io_raise TypeError)"

section \<open>Directories of a workspace\<close>

definition prepare_env :: "icp \<Rightarrow> ('z file_world_scheme, run_options) io" where
  "prepare_env workspace =
     io_bind (io_lift (get_path workspace ''base'')) (\<lambda>base_dir.
     io_bind (io_lift (get_path workspace ''venv'')) (\<lambda>venv.
     io_bind (io_lift (get_path workspace ''temp'')) (\<lambda>temp.
     io_bind (io_lift (get_path workspace ''output'')) (\<lambda>output.
     let venv_dir = path_join base_dir venv; tmp_dir = path_join base_dir temp; output_dir = path_join base_dir output
     in io_bind (io_map make_missing [base_dir, venv_dir, tmp_dir, output_dir]) (\<lambda>_.
        io_return \<lparr>op_base_dir = base_dir, op_venv_dir = venv_dir, op_temp_dir = tmp_dir, op_output_dir = output_dir\<rparr>)))))"

section \<open>Building the environments\<close>

record venv_state =
  vs_first :: bool
  vs_input :: string
  vs_cmds :: "string list"
  vs_wds :: "string list"
  vs_exec :: "nat list"
  vs_nodes :: "trial_node list"

abbreviation node_text :: "trial_node \<Rightarrow> string" where
  "node_text n \<equiv> to_string True (tn_key n)"

text \<open>Where the first component to run finds its input: the data set in front of it, or the output of the library in front of it.\<close>

definition dataset_input :: "'z trial_env \<Rightarrow> run_options \<Rightarrow> trial_node \<Rightarrow> ('z file_world_scheme, string) io" where
  "dataset_input E options prev_node =
     (let base_dir = path_join (op_venv_dir options) (node_text prev_node)
      in io_then (dataset_get_archive (te_store E) (te_zip E) (tn_key prev_node) base_dir)
         (io_bind (dataset_get_meta (te_store E) (tn_key prev_node)) (\<lambda>ds_meta.
          io_bind time_now (\<lambda>_.
          io_bind (io_lift (meta_version ds_meta)) (\<lambda>v.
          if branch v = NOT_HASHABLE then io_return (base_dir @ ''/'')
          else io_bind (io_lift (dataset_files ds_meta)) (\<lambda>files.
            io_return (str_join '','' (map (path_join base_dir) files))))))))"

definition library_input :: "'z trial_env \<Rightarrow> run_options \<Rightarrow> trial_node \<Rightarrow> ('z file_world_scheme, string) io" where
  "library_input E options prev_node =
     io_bind (output_exists (tn_output prev_node)) (\<lambda>here.
     case tn_output prev_node of
       JStr output \<Rightarrow>
         if here then io_return output
         else io_bind time_now (\<lambda>_.
           (case tn_ws_key prev_node of
              None \<Rightarrow> io_raise AttributeError
            | Some ws_key \<Rightarrow>
                io_bind (runtime_get (te_store E) ''output'' ws_key (tn_key prev_node) output) (\<lambda>local_path.
                io_bind time_now (\<lambda>_.
                let input_path = path_join (op_output_dir options) (node_text prev_node) @ ''/''
                in io_then (extract_archive_to (te_zip E) local_path input_path) (io_return input_path)))))
     | _ \<Rightarrow> io_raise TypeError)"

definition first_input :: "'z trial_env \<Rightarrow> run_options \<Rightarrow> trial_node \<Rightarrow> ('z file_world_scheme, string) io" where
  "first_input E options prev_node =
     (if component_type (tn_key prev_node) = GENERIC_DATASET_KEY then
        io_bind time_now (\<lambda>_. dataset_input E options prev_node)
      else if component_type (tn_key prev_node) = GENERIC_LIBRARY_KEY then library_input E options prev_node
      else io_return [])"

definition set_json_item :: "string \<Rightarrow> json \<Rightarrow> json \<Rightarrow> json result" where
  "set_json_item k v j = (case j of JObj kvs \<Rightarrow> Inr (JObj (od_set k v kvs)) | _ \<Rightarrow> Inl TypeError)"

definition library_command :: "'z trial_env \<Rightarrow> string \<Rightarrow> json \<Rightarrow> string" where
  "library_command E script params =
     (case params of
        JObj kvs \<Rightarrow> fold (\<lambda>(k, v) cmd. cmd @ '' '' @ k @ '' '' @ py_str E v) kvs script
      | _ \<Rightarrow> script)"

text \<open>One library: its archive, its command line, and its node with the output folder and the parameters.\<close>

definition transfer_library ::
    "'z trial_env \<Rightarrow> run_options \<Rightarrow> string \<Rightarrow> trial_node \<Rightarrow> ('z file_world_scheme, string \<times> string \<times> trial_node \<times> string) io" where
  "transfer_library E options input_path node =
     io_bind (get_meta (te_store E) (tn_key node)) (\<lambda>lib_meta.
     let lib_base_path = path_join (op_venv_dir options) (node_text node)
     in io_then (library_get_archive (te_store E) (te_zip E) (tn_key node) lib_base_path)
        (io_bind (io_lift (train_script lib_meta)) (\<lambda>script.
         let output_dir = path_join (op_output_dir options) (node_text node); output_path = output_dir @ ''/''
         in io_then (make_missing output_dir)
            (io_bind (io_lift (train_params lib_meta)) (\<lambda>p0.
             io_bind (io_lift (set_json_item ''--input'' (JStr input_path) p0)) (\<lambda>p1.
             io_bind (io_lift (set_json_item ''--output'' (JStr output_path) p1)) (\<lambda>p2.
             io_bind (io_lift (set_json_item ''--vis'' (JStr (te_temp_path E)) p2)) (\<lambda>lib_param.
               io_return (library_command E script lib_param, lib_base_path,
                 node\<lparr>tn_output := JStr output_path, tn_params := lib_param\<rparr>, output_path)))))))))"

definition skips_node :: "'z trial_env \<Rightarrow> trial_node \<Rightarrow> bool" where
  "skips_node E node \<longleftrightarrow>
     tn_trained node \<and> (\<not> te_retrain E \<or> component_type (tn_key node) = GENERIC_DATASET_KEY)"

definition build_node :: "'z trial_env \<Rightarrow> run_options \<Rightarrow> nat \<Rightarrow> venv_state \<Rightarrow> ('z file_world_scheme, venv_state) io" where
  "build_node E options i vs =
     (let node = vs_nodes vs ! i
      in if vs_first vs \<and> skips_node E node then io_return vs
         else io_bind (if vs_first vs then first_input E options (if i = 0 then node else vs_nodes vs ! (i - 1))
                       else io_return (vs_input vs)) (\<lambda>input_path.
           io_bind (transfer_library E options input_path node) (\<lambda>(cmd, wd, node', output_path).
             io_return (vs\<lparr>vs_first := False, vs_input := output_path, vs_cmds := vs_cmds vs @ [cmd], vs_wds := vs_wds vs @ [wd],
               vs_exec := vs_exec vs @ [i], vs_nodes := (vs_nodes vs)[i := node']\<rparr>))))"

definition build_venvs :: "'z trial_env \<Rightarrow> run_options \<Rightarrow> trial_node list \<Rightarrow> ('z file_world_scheme, venv_state) io" where
  "build_venvs E options node_list =
     io_fold (build_node E options) [0..<length node_list]
       \<lparr>vs_first = True, vs_input = [], vs_cmds = [], vs_wds = [], vs_exec = [], vs_nodes = node_list\<rparr>"

section \<open>Training\<close>

definition run_component ::
    "'z trial_env \<Rightarrow> string list \<Rightarrow> string \<times> string \<times> nat \<Rightarrow> ('z file_world_scheme, unit) io" where
  "run_component E candidate_ids = (\<lambda>(cmd, wd, i).
     io_bind time_now (\<lambda>_.
     let cmds = ''python'' # split_ws cmd
     in io_bind time_now (\<lambda>_.
        io_bind (te_component_key E) (\<lambda>component_key.
        io_bind (io_lift (py_index candidate_ids (int i))) (\<lambda>candidate_id.
        io_then (te_on_new_component E ([candidate_id, wd, if component_key = [] then ''NULL'' else component_key] @ cmds))
          (io_bind time_now (\<lambda>_. io_return ())))))))"

text \<open>The result of the last component that ran; a pipeline none of whose components ran has none.\<close>

definition read_performance :: "'z trial_env \<Rightarrow> venv_state \<Rightarrow> ('z file_world_scheme, unit) io" where
  "read_performance E vs =
     io_bind (io_lift (py_index (vs_exec vs) (- 1))) (\<lambda>i.
     case tn_output (vs_nodes vs ! i) of
       JStr output \<Rightarrow>
         io_bind (read_str (path_join output ''final_results.txt'')) (\<lambda>text.
           if te_is_float E (takeWhile (\<lambda>c. c \<noteq> newline) text) then io_return () else io_raise ValueError)
     | _ \<Rightarrow> io_raise TypeError)"

definition train_node_list ::
    "'z trial_env \<Rightarrow> trial_node list \<Rightarrow> run_options \<Rightarrow> string list \<Rightarrow> ('z file_world_scheme, trial_node list) io" where
  "train_node_list E node_list options candidate_ids =
     io_bind (build_venvs E options node_list) (\<lambda>vs.
     io_bind time_now (\<lambda>_.
     io_bind (io_map (run_component E candidate_ids) (zip (vs_cmds vs) (zip (vs_wds vs) (vs_exec vs)))) (\<lambda>_.
     io_bind time_now (\<lambda>_.
     io_then (read_performance E vs)
       (io_return (map (\<lambda>n. n\<lparr>tn_trained := True\<rparr>) (vs_nodes vs)))))))"

section \<open>Saving and committing\<close>

text \<open>One of the two states: every value is dumped to a file of the temporary directory and the file is stored.\<close>

definition save_state ::
    "'z trial_env \<Rightarrow> string \<Rightarrow> ('v \<Rightarrow> string \<Rightarrow> ('z file_world_scheme, unit) io) \<Rightarrow> meta_key \<Rightarrow> string \<Rightarrow>
     (string, 'v) odict \<Rightarrow> ('z file_world_scheme, (string, string) odict) io" where
  "save_state E storage_name action ws_key tmp_dir items =
     io_fold (\<lambda>(key_str, v) acc.
       io_bind (io_lift (build_from_string key_str True)) (\<lambda>key.
       let dump_path = path_join tmp_dir (to_string False key)
       in io_then (action v dump_path)
          (io_bind (runtime_put (te_store E) storage_name ws_key key dump_path) (\<lambda>hversion.
            io_return (od_set (to_string True key) hversion acc))))) items []"

definition output_folder :: "'z trial_env \<Rightarrow> json \<Rightarrow> string \<Rightarrow> ('z file_world_scheme, unit) io" where
  "output_folder E v dump_path = (case v of JStr folder \<Rightarrow> archive_local_folder (te_zip E) folder dump_path | _ \<Rightarrow> io_raise TypeError)"

definition save_pipeline_state ::
    "'z trial_env \<Rightarrow> meta_key \<Rightarrow> (string, json) odict \<Rightarrow> (string, json) odict \<Rightarrow> string \<Rightarrow>
     ('z file_world_scheme, (string, string) odict \<times> (string, string) odict) io" where
  "save_pipeline_state E ws_key lib_params_dict output_path_dict tmp_dir =
     io_bind (save_state E ''params'' dump_params_to ws_key tmp_dir lib_params_dict) (\<lambda>hp.
     io_bind (save_state E ''output'' (output_folder E) ws_key tmp_dir output_path_dict) (\<lambda>out.
       io_return (hp, out)))"

record run_maps =
  rm_params :: "(string, json) odict"
  rm_output :: "(string, json) odict"

definition add_node :: "trial_node \<Rightarrow> run_maps \<Rightarrow> run_maps" where
  "add_node n m = m\<lparr>rm_params := od_set (node_text n) (tn_params n) (rm_params m), rm_output := od_set (node_text n) (tn_output n) (rm_output m)\<rparr>"

text \<open>Nodes whose output is a path ran just now; any exception passes the node over.\<close>

definition split_nodes :: "trial_node list \<Rightarrow> 'z file_world_scheme \<Rightarrow> run_maps \<times> run_maps" where
  "split_nodes node_list w =
     fold (\<lambda>n (executed, skipped).
       case fst (output_exists (tn_output n) w) of
         Inl _ \<Rightarrow> (executed, skipped)
       | Inr True \<Rightarrow> (add_node n executed, skipped)
       | Inr False \<Rightarrow> (executed, add_node n skipped)) node_list
       (\<lparr>rm_params = [], rm_output = []\<rparr>, \<lparr>rm_params = [], rm_output = []\<rparr>)"

fun same_keys :: "trial_node list \<Rightarrow> meta_key list \<Rightarrow> bool" where
  "same_keys (n # ns) (k # ks) \<longleftrightarrow> tn_key n = k \<and> same_keys ns ks"
| "same_keys _ _ \<longleftrightarrow> True"

text \<open>The version and the tree a commit starts from: a \<open>KeyError\<close> anywhere in it means a first version.\<close>

definition commit_plan :: "'z trial_env \<Rightarrow> icp \<Rightarrow> ('z file_world_scheme, semantic_version \<times> trial_state) io" where
  "commit_plan E workspace =
     io_try
       (io_bind (io_lift (meta_key_of workspace)) (\<lambda>key.
        io_bind (meta_get_branch_head (te_store E) key) (\<lambda>previous_workspace_config.
        io_bind (wrap_meta previous_workspace_config) (\<lambda>previous_workspace.
        io_bind (io_lift (meta_version workspace)) (\<lambda>v.
        io_bind (io_lift (meta_version previous_workspace)) (\<lambda>pv.
        io_bind (io_lift (trial_tree_init (te_arrange E) [previous_workspace, workspace])) (\<lambda>tt.
          io_return (mk_version (branch v) (api_version pv) (inc_version pv + 1), tt))))))))
       (\<lambda>e. e = KeyError)
       (io_bind (io_lift (meta_version workspace)) (\<lambda>v.
        io_bind (io_lift (trial_tree_init (te_arrange E) [workspace])) (\<lambda>tt.
          io_return (mk_version (branch v) 0 0, tt))))"

text \<open>The workspace as it is committed.\<close>

definition record_results ::
    "icp \<Rightarrow> (string, string) odict \<Rightarrow> (string, string) odict \<Rightarrow> run_maps \<Rightarrow> semantic_version \<Rightarrow> string \<Rightarrow> icp result" where
  "record_results workspace hp_map out_map skipped proposed_sv now =
     (let text = map (\<lambda>(k, v). (k, JStr v))
      in res_bind (set_workspace_outputs (JObj (od_update_all (text out_map) (rm_output skipped))) workspace) (\<lambda>ws.
         res_bind (set_workspace_params (JObj (od_update_all (text hp_map) (rm_params skipped))) ws) (\<lambda>ws.
         res_bind (set_meta_version proposed_sv ws) (\<lambda>ws. set_created_timestamp now ws))))"

definition commit_workspace :: "'z trial_env \<Rightarrow> icp \<Rightarrow> ('z file_world_scheme, icp) io" where
  "commit_workspace E workspace =
     io_bind (commit_plan E workspace) (\<lambda>(proposed_sv, trial_tree).
     io_bind (prepare_env workspace) (\<lambda>options.
     io_bind (io_lift (workspace_pipeline workspace)) (\<lambda>pipeline.
     io_bind (io_lift (first_item (candidate_node_lists trial_tree) (\<lambda>nl. same_keys nl pipeline) None)) (\<lambda>nodes.
     io_bind (io_map (\<lambda>_. te_uuid E) pipeline) (\<lambda>candidate_ids.
     io_then (te_on_new_pipeline E (map (to_string True) pipeline) candidate_ids)
     (io_bind (train_node_list E nodes options candidate_ids) (\<lambda>nodes.
      io_bind io_get (\<lambda>w.
      let (executed, skipped) = split_nodes nodes w
      in io_bind (io_lift (meta_key_of workspace)) (\<lambda>ws_key.
         io_bind (save_pipeline_state E ws_key (rm_params executed) (rm_output executed) (op_temp_dir options)) (\<lambda>(hp_map, out_map).
         io_bind time_now (\<lambda>now.
         io_bind (io_lift (record_results workspace hp_map out_map skipped proposed_sv now)) (\<lambda>ws.
         io_bind (io_lift (meta_key_of ws)) (\<lambda>key.
         let meta_file_path = path_join (te_temp_path E) (to_string True key)
         in io_then (write_local_config ws meta_file_path)
            (io_then (meta_put (te_store E) key meta_file_path) (io_return ws)))))))))))))))"

section \<open>Merging branches\<close>

text \<open>
  \<open>dfs_train\<close> calls the training function with the nodes and the options only, but \<open>_train_node_list\<close> has a third
  parameter: the call is a \<open>TypeError\<close>.
\<close>

definition branch_workspaces :: "nat \<Rightarrow> 'z trial_env \<Rightarrow> meta_key \<Rightarrow> ('z file_world_scheme, icp list) io" where
  "branch_workspaces fuel E key =
     io_bind (meta_get_lineage fuel (te_store E) key) (\<lambda>configs.
       case configs of
         None \<Rightarrow> io_raise RecursionError
       | Some cps \<Rightarrow> io_map wrap_meta cps)"

definition merge_inputs :: "nat \<Rightarrow> 'z trial_env \<Rightarrow> meta_key \<Rightarrow> meta_key \<Rightarrow> ('z file_world_scheme, icp list) io" where
  "merge_inputs fuel E merge_branch_key base_branch_key =
     io_bind (io_bind (meta_get_branch_head (te_store E) merge_branch_key) wrap_meta) (\<lambda>merge_head.
     io_bind (io_bind (meta_get_branch_head (te_store E) base_branch_key) wrap_meta) (\<lambda>base_head.
     io_bind (branch_workspaces fuel E merge_branch_key) (\<lambda>merge_lineage.
     io_bind (branch_workspaces fuel E base_branch_key) (\<lambda>base_lineage.
     io_lift (res_map (\<lambda>ws. res_bind (set_workspace_outputs (JObj []) ws) (set_workspace_params (JObj [])))
       (merge_head # merge_lineage @ base_head # base_lineage))))))"

definition merge_workspace_branches :: "nat \<Rightarrow> 'z trial_env \<Rightarrow> meta_key \<Rightarrow> meta_key \<Rightarrow> ('z file_world_scheme, unit) io" where
  "merge_workspace_branches fuel E merge_branch_key base_branch_key =
     io_bind (merge_inputs fuel E merge_branch_key base_branch_key) (\<lambda>workspace_list.
     io_bind (io_lift (trial_tree_init (te_arrange E) workspace_list)) (\<lambda>trial_tree.
     io_bind (dfs_train (te_mkdtemp E) (\<lambda>_ _. io_raise TypeError) [] (tt_tree trial_tree)) (\<lambda>(_, tree, _, _).
     io_then (write_bytes ''tree.dump'' (te_dump_tree E tree))
       (write_bytes ''heads.dump'' (te_dump_heads E workspace_list)))))"

end
