(* ===== verification/TrialTreeProps.thy ===== *)
theory TrialTreeProps
  imports TrialTree
begin

text \<open>
  The candidates of a trial tree are the combinations of stages whose neighbours are compatible, the
  pipelines themselves among them, and training visits exactly the candidates. The proofs work on the keys of
  a tree alone (\<open>map_rose tn_key\<close>), which pruning and marking do not change.
\<close>

section \<open>Keys of a walk\<close>

fun key_paths :: "compat \<Rightarrow> meta_key list \<Rightarrow> meta_key rose \<Rightarrow> meta_key list list" where
  "key_paths comp_dict walk (Rose k cs) =
     (if cs = [] then [walk]
      else concat (map (\<lambda>c. if (k, rose_root c) \<notin> set comp_dict \<and> \<not> is_root_key k then []
                             else key_paths comp_dict (walk @ [rose_root c]) c) cs))"

lemma map_rose_root [simp]: "rose_root (map_rose f t) = f (rose_root t)"
  by (cases t) simp

lemma dfs_prune_keys:
  "map_rose tn_key (fst (dfs_prune cd walk t)) = map_rose tn_key t
   \<and> map (map tn_key) (snd (dfs_prune cd walk t)) = key_paths cd (map tn_key walk) (map_rose tn_key t)"
  "map (map_rose tn_key) (fst (prune_children cd walk n cs)) = map (map_rose tn_key) cs
   \<and> map (map tn_key) (snd (prune_children cd walk n cs)) =
       concat (map (\<lambda>c. if (tn_key n, rose_root c) \<notin> set cd \<and> \<not> is_root_key (tn_key n) then []
                             else key_paths cd (map tn_key walk @ [rose_root c]) c) (map (map_rose tn_key) cs))"
proof (induction cd walk t and cd walk n cs rule: dfs_prune_prune_children.induct)
  case (1 cd walk n cs)
  then show ?case by (cases "cs = []") (simp_all add: split_beta comp_def)
next
  case (3 cd walk n m ds cs)
  define x where "x = (if (tn_key n, tn_key m) \<notin> set cd \<and> \<not> is_root_key (tn_key n)
    then (Rose (m\<lparr>tn_pruned := True\<rparr>) ds, []) else dfs_prune cd (walk @ [m]) (Rose m ds))"
  have "map_rose tn_key (fst x) = map_rose tn_key (Rose m ds)
      \<and> map (map tn_key) (snd x) = (if (tn_key n, tn_key m) \<notin> set cd \<and> \<not> is_root_key (tn_key n) then []
                             else key_paths cd (map tn_key walk @ [tn_key m]) (map_rose tn_key (Rose m ds)))"
    using 3(1) by (auto simp: x_def)
  moreover note 3(2) [OF x_def prod.collapse]
  moreover have "prune_children cd walk n (Rose m ds # cs) =
      (fst x # fst (prune_children cd walk n cs), snd x @ snd (prune_children cd walk n cs))"
    by (simp add: x_def split_beta Let_def)
  ultimately show ?case by simp
qed simp

lemma split_child_Some:
  "split_child k ts = Some (pre, c, post) \<Longrightarrow> ts = pre @ c # post \<and> tn_key (rose_root c) = k"
  by (induction ts arbitrary: pre) (auto split: if_splits)

lemma mark_node_key: "mark_node ws n = Inr m \<Longrightarrow> tn_key m = tn_key n"
  by (auto simp: mark_node_def res_bind_eq_Inr split: if_splits)

text \<open>Marking keeps what it does not write.\<close>

lemma mark_trained_map:
  assumes f: "\<And>ws n m. mark_node ws n = Inr m \<Longrightarrow> f m = f n"
  shows "mark_trained ws ks t = Inr t' \<Longrightarrow> map_rose f t' = map_rose f t"
proof (induction ks arbitrary: t t')
  case (Cons k ks)
  obtain n cs where t: "t = Rose n cs" by (cases t)
  show ?case
  proof (cases "split_child k cs")
    case None
    with Cons t show ?thesis by simp
  next
    case (Some x)
    then obtain pre c post where x: "split_child k cs = Some (pre, c, post)" by (cases x) auto
    then obtain m c' where m: "mark_node ws (rose_root c) = Inr m"
      and c': "mark_trained ws ks (Rose m (rose_children c)) = Inr c'" and t': "t' = Rose n (pre @ c' # post)"
      using Cons.prems by (auto simp: t res_bind_eq_Inr)
    have "map_rose f c' = map_rose f c"
      using Cons.IH [OF c'] f [OF m] by (cases c) simp
    with split_child_Some [OF x] t t' show ?thesis by simp
  qed
qed simp

lemma mark_trained_keys: "mark_trained ws ks t = Inr t' \<Longrightarrow> map_rose tn_key t' = map_rose tn_key t"
  by (rule mark_trained_map [OF mark_node_key])

section \<open>The full tree\<close>

type_synonym arranger = "meta_key list \<Rightarrow> meta_key list \<Rightarrow> meta_key list"

fun full_tree :: "arranger \<Rightarrow> meta_key list \<Rightarrow> meta_key list list \<Rightarrow> meta_key \<Rightarrow> meta_key rose" where
  "full_tree ar path [] k = Rose k []"
| "full_tree ar path (S # stages) k = Rose k (map (\<lambda>x. full_tree ar (path @ [x]) stages x) (ar path S))"

lemma rose_root_full [simp]: "rose_root (full_tree ar path stages k) = k"
  by (cases stages) simp_all

lemma add_at_level_full:
  "map_rose tn_key t = full_tree ar path stages k \<Longrightarrow>
   map_rose tn_key (add_at_level (length stages) (\<lambda>p. map new_child (ar p S)) path t) = full_tree ar path (stages @ [S]) k"
proof (induction stages arbitrary: path k t)
  case Nil
  then show ?case by (cases t) (simp add: new_child_def mk_node_def comp_def)
next
  case (Cons T stages)
  obtain n cs where t: "t = Rose n cs" by (cases t)
  have keys: "map (map_rose tn_key) cs = map (\<lambda>x. full_tree ar (path @ [x]) stages x) (ar path T)" and n: "tn_key n = k"
    using Cons.prems by (simp_all add: t)
  have "map (\<lambda>c. map_rose tn_key (add_at_level (length stages) (\<lambda>p. map new_child (ar p S)) (path @ [tn_key (rose_root c)]) c)) cs
      = map (\<lambda>x. full_tree ar (path @ [x]) (stages @ [S]) x) (ar path T)"
  proof (rule nth_equalityI)
    show "length (map (\<lambda>c. map_rose tn_key (add_at_level (length stages) (\<lambda>p. map new_child (ar p S))
        (path @ [tn_key (rose_root c)]) c)) cs) = length (map (\<lambda>x. full_tree ar (path @ [x]) (stages @ [S]) x) (ar path T))"
      using arg_cong [OF keys, of length] by simp
    fix i assume "i < length (map (\<lambda>c. map_rose tn_key (add_at_level (length stages) (\<lambda>p. map new_child (ar p S))
        (path @ [tn_key (rose_root c)]) c)) cs)"
    then have i: "i < length cs" "i < length (ar path T)" using arg_cong [OF keys, of length] by simp_all
    then have ci: "map_rose tn_key (cs ! i) = full_tree ar (path @ [ar path T ! i]) stages (ar path T ! i)"
      using arg_cong [OF keys, of "\<lambda>xs. xs ! i"] by simp
    then have "tn_key (rose_root (cs ! i)) = ar path T ! i" using map_rose_root [of tn_key "cs ! i"] by simp
    with Cons.IH [OF ci] i show "map (\<lambda>c. map_rose tn_key (add_at_level (length stages) (\<lambda>p. map new_child (ar p S))
        (path @ [tn_key (rose_root c)]) c)) cs ! i = map (\<lambda>x. full_tree ar (path @ [x]) (stages @ [S]) x) (ar path T) ! i"
      by simp
  qed
  then show ?case by (simp add: t n comp_def)
qed

lemma add_nodes_full:
  assumes "\<And>i. i < depth \<Longrightarrow> od_get st i = Some (S i)"
  shows "\<exists>t. add_nodes ar st depth empty_tree = Inr t \<and> map_rose tn_key t = full_tree ar [] (map S [0..<depth]) ROOT_KEY"
  using assms
proof (induction depth)
  case 0
  then show ?case by (simp add: add_nodes_def empty_tree_def mk_node_def)
next
  case (Suc d)
  then obtain t where "add_nodes ar st d empty_tree = Inr t" "map_rose tn_key t = full_tree ar [] (map S [0..<d]) ROOT_KEY"
    by auto
  with add_at_level_full [of t ar "[]" "map S [0..<d]" ROOT_KEY "S d"] Suc.prems [of d] show ?case
    by (simp add: add_nodes_def res_fold_append od_item_def)
qed

fun chain :: "compat \<Rightarrow> meta_key \<Rightarrow> meta_key list \<Rightarrow> meta_key list list \<Rightarrow> bool" where
  "chain cd k [] [] \<longleftrightarrow> True"
| "chain cd k (x # xs) (S # stages) \<longleftrightarrow> x \<in> set S \<and> ((k, x) \<in> set cd \<or> is_root_key k) \<and> chain cd x xs stages"
| "chain cd k _ _ \<longleftrightarrow> False"

lemma key_paths_full:
  assumes "\<And>p ks. set (ar p ks) = set ks" and "\<And>S. S \<in> set stages \<Longrightarrow> S \<noteq> []"
  shows "set (key_paths cd walk (full_tree ar path stages k)) = {walk @ ks | ks. chain cd k ks stages}"
  using assms(2)
proof (induction stages arbitrary: walk path k)
  case Nil
  have "chain cd k ks [] \<longleftrightarrow> ks = []" for ks by (cases ks) auto
  then show ?case by simp
next
  case (Cons S stages)
  have ne: "ar path S \<noteq> []" using assms(1) [of path S] Cons.prems by auto
  have chain: "chain cd k ks (S # stages) \<longleftrightarrow> (\<exists>x xs. ks = x # xs \<and> x \<in> set S \<and> ((k, x) \<in> set cd \<or> is_root_key k) \<and> chain cd x xs stages)" for ks
    by (cases ks) auto
  have IH: "set (key_paths cd (walk @ [x]) (full_tree ar (path @ [x]) stages x)) = {(walk @ [x]) @ ks | ks. chain cd x ks stages}" for x
    using Cons by simp
  show ?case
    unfolding chain using ne by (auto simp: IH assms(1) split: if_splits)
qed

section \<open>The stages\<close>

lemma res_fold_pure:
  "res_map f xs = Inr ys \<Longrightarrow> res_fold (\<lambda>x acc. res_bind (f x) (\<lambda>y. Inr (g y acc))) xs acc = Inr (fold g ys acc)"
proof (induction xs arbitrary: ys acc)
  case (Cons x xs)
  then obtain y ys' where y: "f x = Inr y" "res_map f xs = Inr ys'" "ys = y # ys'" by (auto simp: res_bind_eq_Inr)
  from Cons.IH [OF y(2)] y(1,3) show ?case by simp
qed simp

definition at_key :: "('k, 'v list) odict \<Rightarrow> 'k \<Rightarrow> 'v list" where
  "at_key d k = (case od_get d k of None \<Rightarrow> [] | Some s \<Rightarrow> s)"

lemma set_set_add [simp]: "set (set_add x xs) = insert x (set xs)"
  by (auto simp: set_add_def)

lemma set_fold_set_add [simp]: "set (fold set_add xs acc) = set acc \<union> set xs"
  by (induction xs arbitrary: acc) auto

lemma add_pipeline_stages:
  "add_pipeline i ks (st, d) = (st', d') \<Longrightarrow>
   (\<forall>j. (od_get st' j = None \<longleftrightarrow> od_get st j = None \<and> \<not> (i \<le> j \<and> j < i + length ks))
      \<and> set (at_key st' j) = set (at_key st j) \<union> (if i \<le> j \<and> j < i + length ks then {ks ! (j - i)} else {}))
   \<and> d' = (if ks = [] then d else max d (i + length ks - 1))"
proof (induction ks arbitrary: i st d)
  case (Cons k ks)
  have "add_pipeline (Suc i) ks (od_set i (set_add k (at_key st i)) st, if d < i then i else d) = (st', d')"
    using Cons.prems by (simp add: at_key_def)
  note IH = Cons.IH [OF this]
  have get: "od_get (od_set i (set_add k (at_key st i)) st) j = (if j = i then Some (set_add k (at_key st i)) else od_get st j)" for j
    by (simp add: od_simps)
  then have at: "at_key (od_set i (set_add k (at_key st i)) st) j = (if j = i then set_add k (at_key st i) else at_key st j)" for j
    by (simp add: at_key_def)
  have d: "d' = max d (i + length (k # ks) - 1)"
    using IH by (cases ks) auto
  have "(od_get st' j = None \<longleftrightarrow> od_get st j = None \<and> \<not> (i \<le> j \<and> j < i + length (k # ks)))
      \<and> set (at_key st' j) = set (at_key st j) \<union> (if i \<le> j \<and> j < i + length (k # ks) then {(k # ks) ! (j - i)} else {})" for j
  proof (cases "j = i")
    case True
    then show ?thesis using IH by (simp add: get at)
  next
    case False
    have "(k # ks) ! (j - i) = ks ! (j - Suc i)" if "i \<le> j" using that False by (simp add: nth_Cons')
    then show ?thesis using IH False by (auto simp: get at)
  qed
  with d show ?case by simp
qed auto

lemma stage_fold:
  assumes "\<And>p. p \<in> set ps \<Longrightarrow> length p = n" and "fold (add_pipeline 0) ps (st, d) = (st', d')" and "0 < n"
  shows "(\<forall>j. (od_get st' j = None \<longleftrightarrow> od_get st j = None \<and> \<not> (ps \<noteq> [] \<and> j < n))
      \<and> set (at_key st' j) = set (at_key st j) \<union> (if j < n then {p ! j | p. p \<in> set ps} else {}))
   \<and> d' = (if ps = [] then d else max d (n - 1))"
  using assms
proof (induction ps arbitrary: st d)
  case (Cons p ps)
  obtain st1 d1 where 1: "add_pipeline 0 p (st, d) = (st1, d1)" by (metis surj_pair)
  have p: "length p = n" "p \<noteq> []" using Cons.prems(1) [of p] \<open>0 < n\<close> by auto
  note A = add_pipeline_stages [OF 1]
  have "fold (add_pipeline 0) ps (st1, d1) = (st', d')" using Cons.prems(2) 1 by simp
  from Cons.IH [OF Cons.prems(1) this \<open>0 < n\<close>] have B:
    "(\<forall>j. (od_get st' j = None \<longleftrightarrow> od_get st1 j = None \<and> \<not> (ps \<noteq> [] \<and> j < n))
      \<and> set (at_key st' j) = set (at_key st1 j) \<union> (if j < n then {p ! j | p. p \<in> set ps} else {}))
     \<and> d' = (if ps = [] then d1 else max d1 (n - 1))" by simp
  show ?case using A B p by (auto simp: max_def)
qed simp

lemma init_stage_dict_ok:
  assumes "res_map workspace_pipeline wss = Inr ps" and "ps \<noteq> []" and "\<And>p. p \<in> set ps \<Longrightarrow> length p = n" and "0 < n"
  shows "\<exists>st. init_stage_dict wss = Inr (st, n) \<and> (\<forall>j < n. \<exists>S. od_get st j = Some S \<and> set S = {p ! j | p. p \<in> set ps})"
proof -
  obtain st d where f: "fold (add_pipeline 0) ps ([], 0) = (st, d)" by (metis surj_pair)
  have S: "(\<forall>j. (od_get st j = None \<longleftrightarrow> \<not> (ps \<noteq> [] \<and> j < n))
      \<and> set (at_key st j) = (if j < n then {p ! j | p. p \<in> set ps} else {})) \<and> d = n - 1"
    using stage_fold [OF assms(3) f assms(4)] assms(2,4) by (simp add: od_get_empty at_key_def)
  have "init_stage_dict wss = Inr (st, d + 1)"
    using res_fold_pure [OF assms(1), of "add_pipeline 0" "([], 0)"] f by (simp add: init_stage_dict_def)
  moreover have "\<exists>S. od_get st j = Some S \<and> set S = {p ! j | p. p \<in> set ps}" if "j < n" for j
    using S that assms(2) by (auto simp: at_key_def split: option.splits)
  ultimately show ?thesis using S assms(4) by (intro exI [of _ st]) auto
qed

section \<open>Compatibility\<close>

definition add_api :: "nat \<Rightarrow> meta_key list \<Rightarrow> api_sets \<times> api_sets \<Rightarrow> api_sets \<times> api_sets" where
  "add_api i p acc =
     (api_add (api_version (component_version (p ! i))) (p ! i) (fst acc),
      api_add (api_version (component_version (p ! i))) (p ! (i + 1)) (snd acc))"

lemma group_stage_fold:
  assumes "res_map workspace_pipeline wss = Inr ps" and "\<And>p. p \<in> set ps \<Longrightarrow> i + 1 < length p"
  shows "res_fold (group_stage i) wss acc = Inr (fold (add_api i) ps acc)"
  using assms
proof (induction wss arbitrary: ps acc)
  case (Cons w wss)
  then obtain p ps' where p: "workspace_pipeline w = Inr p" "res_map workspace_pipeline wss = Inr ps'" "ps = p # ps'"
    by (auto simp: res_bind_eq_Inr)
  have "i + 1 < length p" using Cons.prems(2) p(3) by simp
  then have i: "py_index p (int i) = Inr (p ! i)" "py_index p (int (i + 1)) = Inr (p ! (i + 1))"
    unfolding py_index_nat by simp_all
  have "group_stage i w acc = Inr (add_api i p acc)"
    unfolding group_stage_def p(1) res_bind_simps i add_api_def Let_def ..
  with Cons.IH [OF p(2)] Cons.prems(2) p(3) show ?case by simp
qed simp

lemma od_get_api_add: "od_get (api_add a k d) b = (if b = a then Some (set_add k (at_key d a)) else od_get d b)"
  by (simp add: api_add_def od_simps at_key_def)

lemma api_fold:
  assumes "fold (add_api i) ps (c, x) = (c', x')" and "distinct (od_keys c)"
  shows "distinct (od_keys c')
   \<and> (\<forall>a. set (at_key c' a) = set (at_key c a) \<union> {p ! i | p. p \<in> set ps \<and> api_version (component_version (p ! i)) = a}
       \<and> set (at_key x' a) = set (at_key x a) \<union> {p ! (i + 1) | p. p \<in> set ps \<and> api_version (component_version (p ! i)) = a}
       \<and> ((od_get c a = None \<longleftrightarrow> od_get x a = None) \<longrightarrow> (od_get c' a = None \<longleftrightarrow> od_get x' a = None)))"
  using assms
proof (induction ps arbitrary: c x)
  case (Cons p ps)
  let ?a = "api_version (component_version (p ! i))"
  have f: "fold (add_api i) ps (api_add ?a (p ! i) c, api_add ?a (p ! (i + 1)) x) = (c', x')"
    using Cons.prems(1) add_api_def [of i p "(c, x)"] by simp
  have d: "distinct (od_keys (api_add ?a (p ! i) c))" using Cons.prems(2) by (simp add: api_add_def od_simps)
  have at: "at_key (api_add a k d) b = (if b = a then set_add k (at_key d a) else at_key d b)" for a k d b
    by (simp add: at_key_def [of "api_add a k d"] od_get_api_add) (simp add: at_key_def)
  note IH = Cons.IH [OF f d]
  show ?case
    using IH by (auto simp: at od_get_api_add split: if_splits)
qed simp

lemma res_fold_product:
  assumes "\<And>a S. (a, S) \<in> set cur \<Longrightarrow> od_get nxt a \<noteq> None"
  shows "\<exists>r. res_fold (\<lambda>(a, S) acc. res_bind (od_item nxt a) (\<lambda>T. Inr (fold set_add (List.product S T) acc))) cur acc = Inr r
    \<and> set r = set acc \<union> (\<Union>(a, S) \<in> set cur. set S \<times> set (at_key nxt a))"
  using assms
proof (induction cur arbitrary: acc)
  case (Cons aS cur)
  obtain a S where aS: "aS = (a, S)" by fastforce
  with Cons.prems obtain T where T: "od_get nxt a = Some T" by fastforce
  from Cons.IH [of "fold set_add (List.product S T) acc"] Cons.prems obtain r where
    "res_fold (\<lambda>(a, S) acc. res_bind (od_item nxt a) (\<lambda>T. Inr (fold set_add (List.product S T) acc))) cur
       (fold set_add (List.product S T) acc) = Inr r"
    "set r = set (fold set_add (List.product S T) acc) \<union> (\<Union>(a, S) \<in> set cur. set S \<times> set (at_key nxt a))"
    by fastforce
  then show ?case by (auto simp: aS T od_item_def at_key_def)
qed simp

text \<open>Two keys of neighbouring stages are compatible when the pipelines they come from agree on the earlier API version.\<close>

definition api_compatible :: "meta_key list list \<Rightarrow> nat \<Rightarrow> meta_key \<Rightarrow> meta_key \<Rightarrow> bool" where
  "api_compatible ps i k l \<longleftrightarrow>
     (\<exists>p \<in> set ps. \<exists>q \<in> set ps. k = p ! i \<and> l = q ! (i + 1)
        \<and> api_version (component_version (p ! i)) = api_version (component_version (q ! i)))"

lemma stage_compat_ok:
  assumes "res_map workspace_pipeline wss = Inr ps" and "\<And>p. p \<in> set ps \<Longrightarrow> i + 1 < length p"
  shows "\<exists>r. stage_compat wss i acc = Inr r \<and> set r = set acc \<union> {(k, l). api_compatible ps i k l}"
proof -
  obtain c x where f: "fold (add_api i) ps ([], []) = (c, x)" by (metis surj_pair)
  note A = api_fold [OF f]
  have d: "distinct (od_keys c)"
    and c: "\<And>a. set (at_key c a) = {p ! i | p. p \<in> set ps \<and> api_version (component_version (p ! i)) = a}"
    and x: "\<And>a. set (at_key x a) = {p ! (i + 1) | p. p \<in> set ps \<and> api_version (component_version (p ! i)) = a}"
    and n: "\<And>a. od_get c a = None \<longleftrightarrow> od_get x a = None"
    using A by (simp_all add: od_get_empty at_key_def od_keys_empty)
  have get: "(a, S) \<in> set c \<longleftrightarrow> od_get c a = Some S" for a S using od_get_Some_iff [OF d] by simp
  obtain r where r: "res_fold (\<lambda>(a, S) acc. res_bind (od_item x a) (\<lambda>T. Inr (fold set_add (List.product S T) acc))) c acc = Inr r"
      "set r = set acc \<union> (\<Union>(a, S) \<in> set c. set S \<times> set (at_key x a))"
    using res_fold_product [of c x acc] get n by (metis option.distinct(1))
  have "(\<Union>(a, S) \<in> set c. set S \<times> set (at_key x a)) = (\<Union>a. set (at_key c a) \<times> set (at_key x a))"
    by (force simp: get at_key_def [of c] split: option.splits)
  also have "\<dots> = {(k, l). api_compatible ps i k l}"
    unfolding c x api_compatible_def by force
  finally show ?thesis
    using r group_stage_fold [OF assms, of "([], [])"] f by (auto simp: stage_compat_def)
qed

lemma init_compatibility_ok:
  assumes "res_map workspace_pipeline wss = Inr ps" and "ps \<noteq> []" and "\<And>p. p \<in> set ps \<Longrightarrow> length p = n"
  shows "\<exists>cd. init_compatibility_dict2 wss = Inr cd \<and> set cd = {(k, l). \<exists>i. i + 1 < n \<and> api_compatible ps i k l}"
proof -
  obtain w wss' p ps' where w: "wss = w # wss'" "workspace_pipeline w = Inr p" "ps = p # ps'"
    using assms(1,2) by (cases wss) (auto simp: res_bind_eq_Inr)
  have "m \<le> n - 1 \<Longrightarrow> \<exists>r. res_fold (stage_compat wss) [0..<m] [] = Inr r
      \<and> set r = {(k, l). \<exists>i < m. api_compatible ps i k l}" for m
  proof (induction m)
    case (Suc m)
    then obtain r where r: "res_fold (stage_compat wss) [0..<m] [] = Inr r" "set r = {(k, l). \<exists>i < m. api_compatible ps i k l}"
      by auto
    have "m + 1 < length q" if "q \<in> set ps" for q using Suc.prems assms(3) [OF that] by simp
    from stage_compat_ok [OF assms(1) this, of r] obtain r' where
      "stage_compat wss m r = Inr r'" "set r' = set r \<union> {(k, l). api_compatible ps m k l}" by auto
    then show ?case using r by (auto simp: res_fold_append less_Suc_eq)
  qed simp
  from this [of "n - 1"] obtain r where "res_fold (stage_compat wss) [0..<n - 1] [] = Inr r"
      "set r = {(k, l). \<exists>i < n - 1. api_compatible ps i k l}" by auto
  moreover have "py_index wss 0 = Inr w" using w(1) by (simp add: py_index_def)
  ultimately show ?thesis using w assms(3) [of p] by (auto simp: init_compatibility_dict2_def less_diff_conv)
qed

section \<open>The candidates\<close>

lemma marking_map:
  assumes f: "\<And>ws n m. mark_node ws n = Inr m \<Longrightarrow> f m = f n"
  shows "res_fold (\<lambda>ws t. if has_outputs ws then res_bind (workspace_pipeline ws) (\<lambda>p. mark_trained ws p t) else Inr t) wss t = Inr t'
   \<Longrightarrow> map_rose f t' = map_rose f t"
proof (induction wss arbitrary: t)
  case (Cons ws wss)
  then obtain t1 where "(if has_outputs ws then res_bind (workspace_pipeline ws) (\<lambda>p. mark_trained ws p t) else Inr t) = Inr t1"
    and "map_rose f t' = map_rose f t1" by (auto simp: res_bind_eq_Inr)
  then show ?case using mark_trained_map [OF f] by (auto simp: res_bind_eq_Inr split: if_splits)
qed simp

lemma marking_keys:
  "res_fold (\<lambda>ws t. if has_outputs ws then res_bind (workspace_pipeline ws) (\<lambda>p. mark_trained ws p t) else Inr t) wss t = Inr t'
   \<Longrightarrow> map_rose tn_key t' = map_rose tn_key t"
  by (rule marking_map [OF mark_node_key])

lemma chain_iff:
  "chain cd k ks stages \<longleftrightarrow> length ks = length stages \<and> (\<forall>i < length ks. ks ! i \<in> set (stages ! i))
     \<and> (ks \<noteq> [] \<longrightarrow> (k, hd ks) \<in> set cd \<or> is_root_key k)
     \<and> (\<forall>i. i + 1 < length ks \<longrightarrow> (ks ! i, ks ! (i + 1)) \<in> set cd \<or> is_root_key (ks ! i))"
proof (induction cd k ks stages rule: chain.induct)
  case (2 cd k x xs S stages)
  have a: "(\<forall>i < length (x # xs). (x # xs) ! i \<in> set ((S # stages) ! i)) \<longleftrightarrow> x \<in> set S \<and> (\<forall>i < length xs. xs ! i \<in> set (stages ! i))"
    by (auto simp: less_Suc_eq_0_disj)
  have b: "(\<forall>i. i + 1 < length (x # xs) \<longrightarrow> ((x # xs) ! i, (x # xs) ! (i + 1)) \<in> set cd \<or> is_root_key ((x # xs) ! i))
    \<longleftrightarrow> (xs \<noteq> [] \<longrightarrow> (x, hd xs) \<in> set cd \<or> is_root_key x)
       \<and> (\<forall>i. i + 1 < length xs \<longrightarrow> (xs ! i, xs ! (i + 1)) \<in> set cd \<or> is_root_key (xs ! i))"
    by (cases xs) (auto simp: less_Suc_eq_0_disj nth_Cons split: nat.splits)
  show ?case unfolding a b using 2 by auto
qed simp_all

definition arranges :: "arranger \<Rightarrow> bool" where
  "arranges ar \<longleftrightarrow> (\<forall>p ks. set (ar p ks) = set ks)"

definition candidate :: "meta_key list list \<Rightarrow> nat \<Rightarrow> meta_key list \<Rightarrow> bool" where
  "candidate ps n ks \<longleftrightarrow> length ks = n \<and> (\<forall>i < n. \<exists>p \<in> set ps. ks ! i = p ! i)
     \<and> (\<forall>i. i + 1 < n \<longrightarrow> (\<exists>j. j + 1 < n \<and> api_compatible ps j (ks ! i) (ks ! (i + 1))))"

text \<open>What a pruning walk over the full tree returns.\<close>

lemma walk_keys:
  assumes ar: "arranges ar" and t: "map_rose tn_key t = full_tree ar [] (map S [0..<n]) ROOT_KEY"
    and S: "\<forall>j < n. set (S j) = {p ! j | p. p \<in> set ps}" and ps: "ps \<noteq> []"
    and types: "\<forall>p \<in> set ps. length p = n \<and> (\<forall>k \<in> set p. \<not> is_root_key k)"
    and cd: "set cd = {(k, l). \<exists>i. i + 1 < n \<and> api_compatible ps i k l}"
  shows "set (map (map tn_key) (snd (dfs_prune cd [] t))) = {ks. candidate ps n ks}"
proof -
  have ne: "X \<noteq> []" if "X \<in> set (map S [0..<n])" for X
  proof -
    from that obtain j where j: "X = S j" "j < n" by auto
    have "hd ps ! j \<in> set (S j)" using S j(2) ps hd_in_set by blast
    then show ?thesis unfolding j(1) by (metis empty_iff empty_set)
  qed
  have kp: "set (key_paths cd [] (full_tree ar [] (map S [0..<n]) ROOT_KEY)) = {[] @ ks | ks. chain cd ROOT_KEY ks (map S [0..<n])}"
    by (rule key_paths_full) (use ar ne in \<open>auto simp: arranges_def\<close>)
  have "set (map (map tn_key) (snd (dfs_prune cd [] t))) = {ks. chain cd ROOT_KEY ks (map S [0..<n])}"
    using kp dfs_prune_keys(1) [of cd "[]" t] t by simp
  also have "\<dots> = {ks. candidate ps n ks}"
  proof (rule Collect_cong)
    fix ks
    have "is_root_key ROOT_KEY" by (simp add: is_root_key_def ROOT_KEY_def)
    then have "chain cd ROOT_KEY ks (map S [0..<n]) \<longleftrightarrow> length ks = n \<and> (\<forall>i < n. \<exists>p \<in> set ps. ks ! i = p ! i)
        \<and> (\<forall>i. i + 1 < n \<longrightarrow> (ks ! i, ks ! (i + 1)) \<in> set cd \<or> is_root_key (ks ! i))"
      using S unfolding chain_iff by (simp add: Bex_def conj_commute cong: conj_cong)
    moreover have "\<not> is_root_key (ks ! i)" if "\<forall>i < n. \<exists>p \<in> set ps. ks ! i = p ! i" "i + 1 < n" for i
      using that types by (metis add_lessD1 nth_mem)
    ultimately show "chain cd ROOT_KEY ks (map S [0..<n]) \<longleftrightarrow> candidate ps n ks"
      unfolding candidate_def cd by blast
  qed
  finally show ?thesis .
qed

end
