(* ===== verification/TrialTreeMarks.thy ===== *)
theory TrialTreeMarks
  imports TrialTreeProps
begin

text \<open>
  Marking and training over a trial tree: what a workspace that ran leaves on the path of its pipeline, and which
  paths \<open>dfs_train\<close> hands to the training function.
\<close>

section \<open>Marking goes through\<close>

text \<open>What marking needs of a workspace that has outputs: a key, and an output and parameters for every library.\<close>

definition markable :: "icp \<Rightarrow> meta_key list \<Rightarrow> bool" where
  "markable ws p \<longleftrightarrow> (has_outputs ws \<longrightarrow> (\<exists>k. meta_key_of ws = Inr k)
     \<and> (\<forall>k \<in> set p. component_type k = GENERIC_LIBRARY_KEY \<longrightarrow>
          (\<exists>out params. res_bind (workspace_outputs ws) (\<lambda>j. json_item j (to_string True k)) = Inr out
             \<and> res_bind (workspace_params ws) (\<lambda>j. json_item j (to_string True k)) = Inr params)))"

lemma mark_node_total:
  assumes "markable ws p" "has_outputs ws" "tn_key n \<in> set p"
  shows "\<exists>m. mark_node ws n = Inr m \<and> tn_trained m"
proof -
  obtain k where k: "meta_key_of ws = Inr k" using assms by (auto simp: markable_def)
  show ?thesis
  proof (cases "component_type (tn_key n) = GENERIC_LIBRARY_KEY")
    case True
    then obtain out params where
      "res_bind (workspace_outputs ws) (\<lambda>j. json_item j (to_string True (tn_key n))) = Inr out"
      "res_bind (workspace_params ws) (\<lambda>j. json_item j (to_string True (tn_key n))) = Inr params"
      using assms unfolding markable_def by blast
    with True k show ?thesis by (simp add: mark_node_def)
  qed (use k in \<open>simp add: mark_node_def\<close>)
qed

lemma mark_node_trained: "mark_node ws n = Inr m \<Longrightarrow> tn_trained m"
  by (auto simp: mark_node_def res_bind_eq_Inr split: if_splits)

lemma mark_trained_total:
  assumes "markable ws p" "has_outputs ws"
  shows "set ks \<subseteq> set p \<Longrightarrow> \<exists>t'. mark_trained ws ks t = Inr t'"
proof (induction ks arbitrary: t)
  case (Cons k ks)
  show ?case
  proof (cases "split_child k (rose_children t)")
    case None
    with Cons show ?thesis by simp
  next
    case (Some x)
    then obtain pre c post where x: "split_child k (rose_children t) = Some (pre, c, post)" by (cases x) auto
    then have "tn_key (rose_root c) \<in> set p" using split_child_Some Cons.prems by fastforce
    then obtain m where m: "mark_node ws (rose_root c) = Inr m" using mark_node_total [OF assms] by blast
    obtain c' where "mark_trained ws ks (Rose m (rose_children c)) = Inr c'"
      using Cons by (metis set_subset_Cons subset_trans)
    with x m show ?thesis by simp
  qed
qed simp

definition mark_all :: "icp list \<Rightarrow> trial_tree \<Rightarrow> trial_tree result" where
  "mark_all wss = res_fold (\<lambda>ws t. if has_outputs ws then res_bind (workspace_pipeline ws) (\<lambda>p. mark_trained ws p t) else Inr t) wss"

lemma mark_all_total:
  assumes "res_map workspace_pipeline wss = Inr ps"
    and "\<And>ws p. ws \<in> set wss \<Longrightarrow> workspace_pipeline ws = Inr p \<Longrightarrow> markable ws p"
  shows "\<exists>t'. mark_all wss t = Inr t'"
  using assms
proof (induction wss arbitrary: t ps)
  case (Cons ws wss)
  obtain p qs where p: "workspace_pipeline ws = Inr p" "res_map workspace_pipeline wss = Inr qs"
    using Cons.prems(1) by (auto simp: res_bind_eq_Inr)
  have "\<exists>t1. (if has_outputs ws then res_bind (workspace_pipeline ws) (\<lambda>p. mark_trained ws p t) else Inr t) = Inr t1"
    using mark_trained_total [of ws p p t] Cons.prems(2) p by auto
  moreover have "\<exists>t'. mark_all wss t1 = Inr t'" for t1 using Cons.IH [OF p(2)] Cons.prems(2) by simp
  ultimately show ?case unfolding mark_all_def res_fold.simps by fastforce
qed (simp add: mark_all_def)

section \<open>Marks stay\<close>

definition grows :: "trial_tree \<Rightarrow> trial_tree \<Rightarrow> bool" where
  "grows = rel_rose (\<lambda>m n. tn_key m = tn_key n \<and> (tn_trained m \<longrightarrow> tn_trained n))"

lemma grows_refl [simp]: "grows t t"
  unfolding grows_def by (rule rose.rel_refl) simp

lemma grows_trans: "grows s t \<Longrightarrow> grows t u \<Longrightarrow> grows s u"
  unfolding grows_def by (rule transpD [OF rose.rel_transp]) (auto intro: transpI)

lemma grows_Rose:
  "grows (Rose m cs) (Rose n ds) \<longleftrightarrow> tn_key m = tn_key n \<and> (tn_trained m \<longrightarrow> tn_trained n) \<and> list_all2 grows cs ds"
  by (simp add: grows_def)

lemma mark_trained_grows: "mark_trained ws ks t = Inr t' \<Longrightarrow> grows t t' \<and> rose_root t' = rose_root t"
proof (induction ks arbitrary: t t')
  case (Cons k ks)
  show ?case
  proof (cases "split_child k (rose_children t)")
    case None
    with Cons show ?thesis by simp
  next
    case (Some x)
    then obtain pre c post where x: "split_child k (rose_children t) = Some (pre, c, post)" by (cases x) auto
    then obtain m c' where m: "mark_node ws (rose_root c) = Inr m"
      and c': "mark_trained ws ks (Rose m (rose_children c)) = Inr c'" and t': "t' = Rose (rose_root t) (pre @ c' # post)"
      using Cons.prems by (auto simp: res_bind_eq_Inr)
    have "grows c (Rose m (rose_children c))"
      using mark_node_key [OF m] mark_node_trained [OF m]
      by (cases c) (simp add: grows_Rose list_all2_refl)
    then have "grows c c'" using Cons.IH [OF c'] grows_trans by blast
    then show ?thesis
      using split_child_Some [OF x] t' by (cases t) (auto simp: grows_Rose list_all2_refl intro!: list_all2_appendI)
  qed
qed simp

lemma mark_all_grows: "mark_all wss t = Inr t' \<Longrightarrow> grows t t'"
proof (induction wss arbitrary: t)
  case (Cons ws wss)
  then obtain t1 where t1: "(if has_outputs ws then res_bind (workspace_pipeline ws) (\<lambda>p. mark_trained ws p t) else Inr t) = Inr t1"
    and "mark_all wss t1 = Inr t'" by (auto simp: mark_all_def res_bind_eq_Inr)
  moreover have "grows t t1" using t1 mark_trained_grows by (auto simp: res_bind_eq_Inr split: if_splits)
  ultimately show ?case using Cons.IH grows_trans by blast
qed (simp add: mark_all_def)

lemma prune_grows:
  "grows t (fst (dfs_prune cd walk t))"
  "list_all2 grows cs (fst (prune_children cd walk n cs))"
proof (induction cd walk t and cd walk n cs rule: dfs_prune_prune_children.induct)
  case (1 cd walk n cs)
  then show ?case by (cases "cs = []") (simp_all add: split_beta grows_Rose)
next
  case (3 cd walk n m ds cs)
  define x where "x = (if (tn_key n, tn_key m) \<notin> set cd \<and> \<not> is_root_key (tn_key n)
    then (Rose (m\<lparr>tn_pruned := True\<rparr>) ds, []) else dfs_prune cd (walk @ [m]) (Rose m ds))"
  have "grows (Rose m ds) (fst x)"
    using 3(1) by (auto simp: x_def grows_Rose list_all2_refl)
  moreover note 3(2) [OF x_def prod.collapse]
  moreover have "fst (prune_children cd walk n (Rose m ds # cs)) = fst x # fst (prune_children cd walk n cs)"
    by (simp add: x_def split_beta Let_def)
  ultimately show ?case by simp
qed simp

section \<open>The path of a workspace\<close>

fun key_path :: "meta_key list \<Rightarrow> meta_key rose \<Rightarrow> bool" where
  "key_path [] t \<longleftrightarrow> rose_children t = []"
| "key_path (k # ks) t \<longleftrightarrow> (\<exists>c \<in> set (rose_children t). rose_root c = k)
     \<and> (\<forall>c \<in> set (rose_children t). rose_root c = k \<longrightarrow> key_path ks c)"

fun trained_path :: "meta_key list \<Rightarrow> trial_tree \<Rightarrow> bool" where
  "trained_path [] t \<longleftrightarrow> rose_children t = []"
| "trained_path (k # ks) t \<longleftrightarrow>
     (\<exists>c \<in> set (rose_children t). tn_key (rose_root c) = k \<and> tn_trained (rose_root c) \<and> trained_path ks c)"

lemma key_path_full:
  assumes "\<And>p ks. set (ar p ks) = set ks"
  shows "list_all2 (\<lambda>k S. k \<in> set S) ks stages \<Longrightarrow> key_path ks (full_tree ar path stages k)"
proof (induction ks stages arbitrary: path k rule: list_all2_induct)
  case (Cons x xs S stages)
  then show ?case using assms by auto
qed simp

lemma split_child_None: "split_child k ts = None \<Longrightarrow> c \<in> set ts \<Longrightarrow> tn_key (rose_root c) \<noteq> k"
  by (induction ts) (auto split: if_splits)

lemma mark_trained_path:
  "mark_trained ws ks t = Inr t' \<Longrightarrow> key_path ks (map_rose tn_key t) \<Longrightarrow> trained_path ks t'"
proof (induction ks arbitrary: t t')
  case Nil
  then show ?case by (cases t) auto
next
  case (Cons k ks)
  obtain n cs where t: "t = Rose n cs" by (cases t)
  have "split_child k cs \<noteq> None" using Cons.prems(2) split_child_None by (fastforce simp: t)
  then obtain pre c post where x: "split_child k cs = Some (pre, c, post)" by auto
  then obtain m c' where m: "mark_node ws (rose_root c) = Inr m"
    and c': "mark_trained ws ks (Rose m (rose_children c)) = Inr c'" and t': "t' = Rose n (pre @ c' # post)"
    using Cons.prems(1) by (auto simp: t res_bind_eq_Inr)
  note s = split_child_Some [OF x]
  have "key_path ks (map_rose tn_key c)" using Cons.prems(2) s by (simp add: t)
  then have "key_path ks (map_rose tn_key (Rose m (rose_children c)))"
    using mark_node_key [OF m] by (cases c) simp
  then have "trained_path ks c'" using Cons.IH [OF c'] by blast
  then show ?case
    using mark_trained_grows [OF c'] mark_node_trained [OF m] mark_node_key [OF m] s by (simp add: t')
qed

lemma trained_path_grows: "trained_path ks t \<Longrightarrow> grows t t' \<Longrightarrow> trained_path ks t'"
proof (induction ks arbitrary: t t')
  case Nil
  then show ?case by (cases t; cases t') (simp add: grows_Rose)
next
  case (Cons k ks)
  obtain n cs n' cs' where t: "t = Rose n cs" "t' = Rose n' cs'" by (metis rose.exhaust)
  obtain c where c: "c \<in> set cs" "tn_key (rose_root c) = k" "tn_trained (rose_root c)" "trained_path ks c"
    using Cons.prems(1) by (auto simp: t)
  then obtain i where i: "i < length cs" "c = cs ! i" by (metis in_set_conv_nth)
  have "grows c (cs' ! i)" "i < length cs'"
    using Cons.prems(2) i by (auto simp: t grows_Rose list_all2_conv_all_nth)
  moreover then have "tn_key (rose_root (cs' ! i)) = k" "tn_trained (rose_root (cs' ! i))"
    using c by (cases c; cases "cs' ! i"; simp add: grows_Rose)+
  ultimately show ?case using Cons.IH c(4) by (auto simp: t)
qed

lemma mark_all_path:
  assumes "mark_all wss t = Inr t'" "ws \<in> set wss" "has_outputs ws" "workspace_pipeline ws = Inr p"
    and "key_path p (map_rose tn_key t)"
  shows "trained_path p t'"
  using assms(1,2,5)
proof (induction wss arbitrary: t)
  case (Cons w wss)
  then obtain t1 where t1: "(if has_outputs w then res_bind (workspace_pipeline w) (\<lambda>p. mark_trained w p t) else Inr t) = Inr t1"
    and r: "mark_all wss t1 = Inr t'" by (auto simp: mark_all_def res_bind_eq_Inr)
  show ?case
  proof (cases "w = ws")
    case True
    then have "mark_trained ws p t = Inr t1" using t1 assms(3,4) by simp
    then show ?thesis using mark_trained_path Cons.prems(3) trained_path_grows mark_all_grows [OF r] by blast
  next
    case False
    have "map_rose tn_key t1 = map_rose tn_key t"
      using t1 mark_trained_keys by (auto simp: res_bind_eq_Inr split: if_splits)
    then show ?thesis using Cons.IH [OF r] Cons.prems False by simp
  qed
qed simp

lemma prune_trained_path:
  "trained_path ks t \<Longrightarrow> chain cd (tn_key (rose_root t)) ks (map (\<lambda>k. [k]) ks)
   \<Longrightarrow> \<exists>ns. map tn_key ns = ks \<and> (\<forall>n \<in> set ns. tn_trained n) \<and> walk @ ns \<in> set (snd (dfs_prune cd walk t))"
  "c \<in> set cs \<Longrightarrow> tn_trained (rose_root c) \<Longrightarrow> trained_path ks c \<Longrightarrow>
   chain cd (tn_key n) (tn_key (rose_root c) # ks) (map (\<lambda>k. [k]) (tn_key (rose_root c) # ks))
   \<Longrightarrow> \<exists>ns. map tn_key ns = tn_key (rose_root c) # ks \<and> (\<forall>n \<in> set ns. tn_trained n)
        \<and> walk @ ns \<in> set (snd (prune_children cd walk n cs))"
proof (induction cd walk t and cd walk n cs arbitrary: ks and c ks rule: dfs_prune_prune_children.induct)
  case (1 cd walk n cs)
  show ?case
  proof (cases ks)
    case Nil
    with 1 show ?thesis by simp
  next
    case (Cons k ks')
    then obtain c where c: "c \<in> set cs" "tn_key (rose_root c) = k" "tn_trained (rose_root c)" "trained_path ks' c"
      using 1(2) by auto
    then have ne: "cs \<noteq> []" by auto
    show ?thesis using 1(1) [OF ne c(1,3,4)] 1(3) ne c(2) Cons by (simp add: split_beta)
  qed
next
  case (3 cd walk n m ds cs)
  define x where "x = (if (tn_key n, tn_key m) \<notin> set cd \<and> \<not> is_root_key (tn_key n)
    then (Rose (m\<lparr>tn_pruned := True\<rparr>) ds, []) else dfs_prune cd (walk @ [m]) (Rose m ds))"
  have u: "snd (prune_children cd walk n (Rose m ds # cs)) = snd x @ snd (prune_children cd walk n cs)"
    by (simp add: x_def split_beta Let_def)
  show ?case
  proof (cases "c \<in> set cs")
    case True
    obtain ns where "map tn_key ns = tn_key (rose_root c) # ks" "\<forall>n \<in> set ns. tn_trained n"
        "walk @ ns \<in> set (snd (prune_children cd walk n cs))"
      using 3(2) [OF x_def prod.collapse True 3(4-6)] by (elim exE conjE)
    moreover then have "walk @ ns \<in> set (snd (prune_children cd walk n (Rose m ds # cs)))" unfolding u by simp
    ultimately show ?thesis by (intro exI conjI)
  next
    case False
    then have c: "c = Rose m ds" using 3(3) by simp
    have ok: "\<not> ((tn_key n, tn_key m) \<notin> set cd \<and> \<not> is_root_key (tn_key n))" using 3(6) by (auto simp: c)
    obtain ns where ns: "map tn_key ns = ks" "\<forall>n \<in> set ns. tn_trained n" "(walk @ [m]) @ ns \<in> set (snd x)"
      using 3(1) [OF ok, of ks] 3(4-6) ok by (auto simp: c x_def)
    have "map tn_key (m # ns) = tn_key (rose_root c) # ks" "\<forall>n \<in> set (m # ns). tn_trained n"
      using ns 3(4) by (simp_all add: c)
    moreover have "walk @ (m # ns) \<in> set (snd (prune_children cd walk n (Rose m ds # cs)))"
      using ns(3) u by simp
    ultimately show ?thesis by (intro exI conjI)
  qed
qed simp

section \<open>Training\<close>

text \<open>The key paths of a tree that no pruned child lies on.\<close>

fun open_paths :: "meta_key list \<Rightarrow> trial_tree \<Rightarrow> meta_key list list" where
  "open_paths walk (Rose n cs) =
     (if cs = [] then [walk]
      else concat (map (\<lambda>c. if tn_pruned (rose_root c) then [] else open_paths (walk @ [tn_key (rose_root c)]) c) cs))"

text \<open>A child may be marked as pruned only where the compatibility of its key with its parent's says so.\<close>

fun pruned_ok :: "compat \<Rightarrow> trial_tree \<Rightarrow> bool" where
  "pruned_ok cd (Rose n cs) \<longleftrightarrow>
     (\<forall>c \<in> set cs. (tn_pruned (rose_root c) \<longrightarrow> (tn_key n, tn_key (rose_root c)) \<notin> set cd \<and> \<not> is_root_key (tn_key n))
        \<and> pruned_ok cd c)"

lemma dfs_prune_root: "rose_root (fst (dfs_prune cd walk t)) = rose_root t"
  by (cases t) (simp add: split_beta)

lemma open_paths_pruned:
  "pruned_ok cd t \<Longrightarrow> open_paths (map tn_key walk) (fst (dfs_prune cd walk t)) = map (map tn_key) (snd (dfs_prune cd walk t))"
  "(\<forall>c \<in> set cs. (tn_pruned (rose_root c) \<longrightarrow> (tn_key n, tn_key (rose_root c)) \<notin> set cd \<and> \<not> is_root_key (tn_key n)) \<and> pruned_ok cd c)
   \<Longrightarrow> concat (map (\<lambda>c. if tn_pruned (rose_root c) then [] else open_paths (map tn_key walk @ [tn_key (rose_root c)]) c)
         (fst (prune_children cd walk n cs))) = map (map tn_key) (snd (prune_children cd walk n cs))
     \<and> (fst (prune_children cd walk n cs) = [] \<longleftrightarrow> cs = [])"
proof (induction cd walk t and cd walk n cs rule: dfs_prune_prune_children.induct)
  case (1 cd walk n cs)
  then show ?case by (cases "cs = []") (simp_all add: split_beta)
next
  case (3 cd walk n m ds cs)
  define x where "x = (if (tn_key n, tn_key m) \<notin> set cd \<and> \<not> is_root_key (tn_key n)
    then (Rose (m\<lparr>tn_pruned := True\<rparr>) ds, []) else dfs_prune cd (walk @ [m]) (Rose m ds))"
  have u: "prune_children cd walk n (Rose m ds # cs) =
      (fst x # fst (prune_children cd walk n cs), snd x @ snd (prune_children cd walk n cs))"
    by (simp add: x_def split_beta Let_def)
  have "(if tn_pruned (rose_root (fst x)) then [] else open_paths (map tn_key walk @ [tn_key (rose_root (fst x))]) (fst x))
      = map (map tn_key) (snd x)"
    using 3(1,3) by (auto simp: x_def dfs_prune_root simp del: dfs_prune.simps)
  moreover have rest: "(\<forall>c \<in> set cs. (tn_pruned (rose_root c) \<longrightarrow> (tn_key n, tn_key (rose_root c)) \<notin> set cd \<and> \<not> is_root_key (tn_key n)) \<and> pruned_ok cd c)"
    using 3(3) by simp
  moreover have "concat (map (\<lambda>c. if tn_pruned (rose_root c) then [] else open_paths (map tn_key walk @ [tn_key (rose_root c)]) c)
         (fst (prune_children cd walk n cs))) = map (map tn_key) (snd (prune_children cd walk n cs))"
    using 3(2) [OF x_def prod.collapse rest] by blast
  ultimately show ?case unfolding u by simp
qed simp

lemma prune_pruned_ok:
  "pruned_ok cd t \<Longrightarrow> pruned_ok cd (fst (dfs_prune cd walk t))"
  "(\<forall>c \<in> set cs. (tn_pruned (rose_root c) \<longrightarrow> (tn_key n, tn_key (rose_root c)) \<notin> set cd \<and> \<not> is_root_key (tn_key n)) \<and> pruned_ok cd c)
   \<Longrightarrow> (\<forall>c \<in> set (fst (prune_children cd walk n cs)).
        (tn_pruned (rose_root c) \<longrightarrow> (tn_key n, tn_key (rose_root c)) \<notin> set cd \<and> \<not> is_root_key (tn_key n)) \<and> pruned_ok cd c)"
proof (induction cd walk t and cd walk n cs rule: dfs_prune_prune_children.induct)
  case (1 cd walk n cs)
  then show ?case by (cases "cs = []") (simp_all add: split_beta)
next
  case (3 cd walk n m ds cs)
  define x where "x = (if (tn_key n, tn_key m) \<notin> set cd \<and> \<not> is_root_key (tn_key n)
    then (Rose (m\<lparr>tn_pruned := True\<rparr>) ds, []) else dfs_prune cd (walk @ [m]) (Rose m ds))"
  have u: "fst (prune_children cd walk n (Rose m ds # cs)) = fst x # fst (prune_children cd walk n cs)"
    by (simp add: x_def split_beta Let_def)
  have "(tn_pruned (rose_root (fst x)) \<longrightarrow> (tn_key n, tn_key (rose_root (fst x))) \<notin> set cd \<and> \<not> is_root_key (tn_key n)) \<and> pruned_ok cd (fst x)"
    using 3(1,3) by (auto simp: x_def dfs_prune_root simp del: dfs_prune.simps)
  moreover note 3(2) [OF x_def prod.collapse]
  ultimately show ?case using 3(3) unfolding u list.set ball_simps by simp
qed simp

lemma mark_node_pruned: "mark_node ws n = Inr m \<Longrightarrow> tn_pruned m = tn_pruned n"
  by (auto simp: mark_node_def res_bind_eq_Inr split: if_splits)

text \<open>Keys and pruning flags are all that \<open>pruned_ok\<close> reads.\<close>

lemma pruned_ok_cong:
  "map_rose (\<lambda>n. (tn_key n, tn_pruned n)) t = map_rose (\<lambda>n. (tn_key n, tn_pruned n)) t' \<Longrightarrow> pruned_ok cd t = pruned_ok cd t'"
proof (induction t arbitrary: t')
  case (Rose n cs)
  obtain n' cs' where t': "t' = Rose n' cs'" by (cases t')
  have l: "length cs = length cs'" using Rose.prems unfolding t' by (auto dest: map_eq_imp_length_eq)
  have c: "map_rose (\<lambda>n. (tn_key n, tn_pruned n)) (cs ! i) = map_rose (\<lambda>n. (tn_key n, tn_pruned n)) (cs' ! i)" if "i < length cs" for i
    using Rose.prems that l unfolding t' by (auto simp: list_eq_iff_nth_eq)
  have r: "tn_key (rose_root (cs ! i)) = tn_key (rose_root (cs' ! i))" "tn_pruned (rose_root (cs ! i)) = tn_pruned (rose_root (cs' ! i))"
    if "i < length cs" for i
    using c [OF that] by (cases "cs ! i"; cases "cs' ! i"; simp)+
  have "pruned_ok cd (cs ! i) = pruned_ok cd (cs' ! i)" if "i < length cs" for i
    using Rose.IH [OF nth_mem [OF that] c [OF that]] .
  moreover have "tn_key n = tn_key n'" using Rose.prems unfolding t' by simp
  ultimately show ?case unfolding t' using l r by (simp add: all_set_conv_all_nth)
qed

text \<open>A training function may change what the nodes store, not their keys.\<close>

definition keeps_keys :: "(trial_node list \<Rightarrow> run_options \<Rightarrow> ('z file_world_scheme, trial_node list) io) \<Rightarrow> bool" where
  "keeps_keys train \<longleftrightarrow> (\<forall>ns opts w ns' w'. train ns opts w = (Inr ns', w') \<longrightarrow> map tn_key ns' = map tn_key ns)"

lemma dfs_train_paths:
  assumes "keeps_keys train"
  shows "dfs_train mk train walk t w = (Inr (walk', t', walked, dirs), w') \<Longrightarrow>
      map (map tn_key) walked = open_paths (map tn_key walk) t \<and> map tn_key walk' = map tn_key walk \<and> length dirs = length walked"
    and "train_children mk train walk cs w = (Inr (walk', cs', walked, dirs), w') \<Longrightarrow>
      map (map tn_key) walked = concat (map (\<lambda>c. if tn_pruned (rose_root c) then [] else open_paths (map tn_key walk @ [tn_key (rose_root c)]) c) cs)
      \<and> map tn_key walk' = map tn_key walk \<and> length dirs = length walked"
  using assms
proof (induction mk train walk t and mk train walk cs arbitrary: w walk' t' walked dirs w' and w walk' cs' walked dirs w'
    rule: dfs_train_train_children.induct)
  case (1 mk train walk n cs)
  show ?case
  proof (cases "cs = []")
    case True
    then obtain b w1 o' w2 where "mk w = (Inr b, w1)" "generate_options b w1 = (Inr o', w2)" and tr: "train walk o' w2 = (Inr walk', w')"
      and e: "walked = [walk']" "dirs = [b]"
      using 1(2) by (auto simp: io_bind_run)
    have "map tn_key walk' = map tn_key walk" by (rule 1(3) [unfolded keeps_keys_def, rule_format, OF tr])
    then show ?thesis using True e by simp
  next
    case False
    then obtain cs' where "train_children mk train walk cs w = (Inr (walk', cs', walked, dirs), w')"
      using 1(2) by (auto simp: io_bind_run)
    from 1(1) [OF False this 1(3)] show ?thesis using False by simp
  qed
next
  case (3 mk train walk m ds cs)
  obtain wk1 t1 wd1 ds1 w1 where a: "(if tn_pruned m then io_return (walk, Rose m ds, [], [])
        else io_bind (dfs_train mk train (walk @ [m]) (Rose m ds)) (\<lambda>(walking', t, walked, dirs).
            io_return (butlast walking', Rose (last walking') (rose_children t), walked, dirs))) w = (Inr (wk1, t1, wd1, ds1), w1)"
    and b: "io_bind (train_children mk train wk1 cs) (\<lambda>(walking'', ts, more, more_dirs).
       io_return (walking'', t1 # ts, wd1 @ more, ds1 @ more_dirs)) w1 = (Inr (walk', cs', walked, dirs), w')"
    using 3(3) by (auto simp: io_bind_run)
  have A: "map (map tn_key) wd1 = (if tn_pruned m then [] else open_paths (map tn_key walk @ [tn_key m]) (Rose m ds))
      \<and> map tn_key wk1 = map tn_key walk \<and> length ds1 = length wd1"
  proof (cases "tn_pruned m")
    case True
    with a show ?thesis by simp
  next
    case False
    then obtain wk t where d: "dfs_train mk train (walk @ [m]) (Rose m ds) w = (Inr (wk, t, wd1, ds1), w1)" and wk: "wk1 = butlast wk"
      using a by (auto simp: io_bind_run simp del: dfs_train.simps)
    note e = 3(1) [OF False d 3(4)]
    then have "map tn_key wk1 = map tn_key walk" unfolding wk by (simp add: map_butlast del: open_paths.simps)
    with e False show ?thesis by (simp del: open_paths.simps)
  qed
  obtain ts wd2 ds2 where r: "train_children mk train wk1 cs w1 = (Inr (walk', ts, wd2, ds2), w')"
      "walked = wd1 @ wd2" "dirs = ds1 @ ds2"
    using b by (auto simp: io_bind_run)
  have B: "map (map tn_key) wd2 = concat (map (\<lambda>c. if tn_pruned (rose_root c) then []
        else open_paths (map tn_key wk1 @ [tn_key (rose_root c)]) c) cs) \<and> map tn_key walk' = map tn_key wk1 \<and> length ds2 = length wd2"
    by (rule 3(2)) (use r 3(4) in simp_all)
  have k: "map tn_key wk1 = map tn_key walk" using A by blast
  show ?case using A B unfolding r(2,3) k by (simp del: open_paths.simps)
qed simp_all

section \<open>The constructor, step by step\<close>

definition trial_input :: "arranger \<Rightarrow> icp list \<Rightarrow> meta_key list list \<Rightarrow> nat \<Rightarrow> bool" where
  "trial_input ar wss ps n \<longleftrightarrow> arranges ar \<and> res_map workspace_pipeline wss = Inr ps \<and> ps \<noteq> [] \<and> 0 < n
     \<and> (\<forall>p \<in> set ps. length p = n \<and> (\<forall>k \<in> set p. \<not> is_root_key k))
     \<and> (\<forall>ws \<in> set wss. \<forall>p. workspace_pipeline ws = Inr p \<longrightarrow> markable ws p)"

lemma add_at_level_unpruned:
  "\<forall>p. \<forall>t \<in> set (kids p). \<forall>n \<in> set_rose t. \<not> tn_pruned n \<Longrightarrow>
   \<forall>n \<in> set_rose t. \<not> tn_pruned n \<Longrightarrow> \<forall>n \<in> set_rose (add_at_level i kids path t). \<not> tn_pruned n"
proof (induction i kids path t rule: add_at_level.induct)
  case (1 kids path n cs)
  then show ?case by auto
qed auto

lemma res_fold_inv:
  assumes "res_fold f xs s = Inr s'" "P s" "\<And>x s s'. f x s = Inr s' \<Longrightarrow> P s \<Longrightarrow> P s'"
  shows "P s'"
  using assms(1,2) by (induction xs arbitrary: s) (auto simp: res_bind_eq_Inr dest: assms(3))

lemma add_nodes_unpruned:
  "add_nodes ar st n t = Inr t' \<Longrightarrow> \<forall>n \<in> set_rose t. \<not> tn_pruned n \<Longrightarrow> \<forall>n \<in> set_rose t'. \<not> tn_pruned n"
proof -
  have step: "\<forall>n \<in> set_rose s'. \<not> tn_pruned n"
    if a: "res_bind (od_item st i) (\<lambda>key_set. Inr (add_at_level i (\<lambda>path. map new_child (ar path key_set)) [] s)) = Inr s'"
      and b: "\<forall>n \<in> set_rose s. \<not> tn_pruned n" for i s s'
  proof -
    obtain ks where s': "s' = add_at_level i (\<lambda>path. map new_child (ar path ks)) [] s" using a by (auto simp: res_bind_eq_Inr)
    show ?thesis unfolding s'
      by (rule add_at_level_unpruned [OF _ b]) (auto simp: new_child_def mk_node_def)
  qed
  assume "add_nodes ar st n t = Inr t'" "\<forall>n \<in> set_rose t. \<not> tn_pruned n"
  then show ?thesis unfolding add_nodes_def by (rule res_fold_inv) (rule step)
qed

lemma unpruned_ok: "\<forall>n \<in> set_rose t. \<not> tn_pruned n \<Longrightarrow> pruned_ok cd t"
proof (induction t)
  case (Rose n cs)
  have "\<not> tn_pruned (rose_root c)" if "c \<in> set cs" for c
    using Rose.prems that by (cases c) auto
  with Rose show ?case by auto
qed

lemma trial_tree_init_parts:
  assumes "trial_input ar wss ps n"
  obtains cd S t0 t2 where "set cd = {(k, l). \<exists>i. i + 1 < n \<and> api_compatible ps i k l}"
    and "\<forall>j < n. set (S j) = {p ! j | p. p \<in> set ps}"
    and "map_rose tn_key t0 = full_tree ar [] (map S [0..<n]) ROOT_KEY" and "pruned_ok cd t0"
    and "mark_all wss (fst (dfs_prune cd [] t0)) = Inr t2"
    and "trial_tree_init ar wss = Inr \<lparr>tt_compat = cd, tt_tree = fst (dfs_prune cd [] t2), tt_walked = snd (dfs_prune cd [] t2)\<rparr>"
proof -
  have ps: "res_map workspace_pipeline wss = Inr ps" "ps \<noteq> []" and n: "\<And>p. p \<in> set ps \<Longrightarrow> length p = n" "0 < n"
    and m: "\<And>ws p. ws \<in> set wss \<Longrightarrow> workspace_pipeline ws = Inr p \<Longrightarrow> markable ws p"
    using assms by (auto simp: trial_input_def)
  obtain st where st: "init_stage_dict wss = Inr (st, n)"
      "\<forall>j < n. \<exists>S. od_get st j = Some S \<and> set S = {p ! j | p. p \<in> set ps}"
    using init_stage_dict_ok [OF ps n] by blast
  define S where "S j = the (od_get st j)" for j
  have S: "od_get st j = Some (S j)" "set (S j) = {p ! j | p. p \<in> set ps}" if "j < n" for j
    using st(2) [rule_format, OF that] by (auto simp: S_def)
  obtain cd where cd: "init_compatibility_dict2 wss = Inr cd" "set cd = {(k, l). \<exists>i. i + 1 < n \<and> api_compatible ps i k l}"
    using init_compatibility_ok [OF ps n(1)] by blast
  obtain t0 where t0: "add_nodes ar st n empty_tree = Inr t0" "map_rose tn_key t0 = full_tree ar [] (map S [0..<n]) ROOT_KEY"
    using add_nodes_full [of n st S ar] S(1) by blast
  obtain t2 where t2: "mark_all wss (fst (dfs_prune cd [] t0)) = Inr t2"
    using mark_all_total [OF ps(1) m] by blast
  have "pruned_ok cd t0"
    by (rule unpruned_ok, rule add_nodes_unpruned [OF t0(1)]) (simp add: empty_tree_def mk_node_def)
  moreover have "trial_tree_init ar wss = Inr \<lparr>tt_compat = cd, tt_tree = fst (dfs_prune cd [] t2), tt_walked = snd (dfs_prune cd [] t2)\<rparr>"
    using t2 by (simp add: trial_tree_init_def st(1) cd(1) t0(1) mark_all_def split_beta)
  ultimately show ?thesis using that S(2) cd(2) t0(2) t2 by blast
qed

end
