(* ===== verification/TrialTreeThms.thy ===== *)
theory TrialTreeThms
  imports TrialTreeMarks
begin

text \<open>The theorems on the trial tree, with two concrete workspaces at which they are applied.\<close>

section \<open>Two workspaces\<close>

definition lib_a :: meta_key where "lib_a = mk_key ''library'' ''a'' (mk_version ''m'' 0 0)"
definition lib_b :: meta_key where "lib_b = mk_key ''library'' ''b'' (mk_version ''m'' 0 0)"
definition lib_b2 :: meta_key where "lib_b2 = mk_key ''library'' ''b'' (mk_version ''m'' 0 1)"

definition quoted :: "string \<Rightarrow> string" where
  "quoted s = CHR 0x22 # s @ [CHR 0x22]"

definition ran_workspace :: icp where
  "ran_workspace = \<lparr>cp_sections =
     [(''identifier'', [(''type'', ''workspace''), (''name'', ''w''), (''version'', ''m.0.0'')]),
      (''reference'',
        [(''pipeline'', ''['' @ quoted ''library::a::m.0.0'' @ '', '' @ quoted ''library::b::m.0.0'' @ '']''),
         (''output'', ''{'' @ quoted ''library::a::m.0.0'' @ '': 1, '' @ quoted ''library::b::m.0.0'' @ '': 2}''),
         (''params'', ''{'' @ quoted ''library::a::m.0.0'' @ '': 1, '' @ quoted ''library::b::m.0.0'' @ '': 2}'')])],
     cp_defaults = []\<rparr>"

definition new_workspace :: icp where
  "new_workspace = \<lparr>cp_sections =
     [(''reference'', [(''pipeline'', ''['' @ quoted ''library::a::m.0.0'' @ '', '' @ quoted ''library::b::m.0.1'' @ '']'')])],
     cp_defaults = []\<rparr>"

lemma example_pipelines:
  "workspace_pipeline ran_workspace = Inr [lib_a, lib_b]"
  "workspace_pipeline new_workspace = Inr [lib_a, lib_b2]"
  by code_simp+

lemma example_outputs:
  "has_outputs ran_workspace" "\<not> has_outputs new_workspace"
  by code_simp+

lemma example_items:
  "isl (meta_key_of ran_workspace) = False"
  "list_all (\<lambda>k. isl (res_bind (workspace_outputs ran_workspace) (\<lambda>j. json_item j (to_string True k))) = False
     \<and> isl (res_bind (workspace_params ran_workspace) (\<lambda>j. json_item j (to_string True k))) = False) [lib_a, lib_b]"
  by code_simp+

section \<open>Candidates and training\<close>

lemma trial_candidates_exist:
  assumes "trial_input ar wss ps n"
  shows "\<exists>tt. trial_tree_init ar wss = Inr tt \<and> set (map (map tn_key) (candidate_node_lists tt)) = {ks. candidate ps n ks}"
proof -
  obtain cd S t0 t2 where P: "set cd = {(k, l). \<exists>i. i + 1 < n \<and> api_compatible ps i k l}"
      "\<forall>j < n. set (S j) = {p ! j | p. p \<in> set ps}" "map_rose tn_key t0 = full_tree ar [] (map S [0..<n]) ROOT_KEY"
      "mark_all wss (fst (dfs_prune cd [] t0)) = Inr t2"
      "trial_tree_init ar wss = Inr \<lparr>tt_compat = cd, tt_tree = fst (dfs_prune cd [] t2), tt_walked = snd (dfs_prune cd [] t2)\<rparr>"
    by (rule trial_tree_init_parts [OF assms])
  have i: "arranges ar" "ps \<noteq> []" "\<forall>p \<in> set ps. length p = n \<and> (\<forall>k \<in> set p. \<not> is_root_key k)"
    using assms by (simp_all add: trial_input_def)
  have "map_rose tn_key t2 = full_tree ar [] (map S [0..<n]) ROOT_KEY"
    using marking_keys [OF P(4) [unfolded mark_all_def]] dfs_prune_keys(1) [of cd "[]" t0] P(3) by simp
  note walk_keys [OF i(1) this P(2) i(2,3) P(1)]
  then show ?thesis unfolding P(5) by (simp add: candidate_node_lists_def)
qed

lemma trial_candidate_keys:
  assumes "trial_input ar wss ps n" and "trial_tree_init ar wss = Inr tt"
  shows "set (map (map tn_key) (candidate_node_lists tt)) = {ks. candidate ps n ks}"
  using trial_candidates_exist [OF assms(1)] assms(2) by auto

lemma trial_trains_candidates_keys:
  assumes "trial_input ar wss ps n" and "trial_tree_init ar wss = Inr tt" and "keeps_keys train"
    and "dfs_train mk train [] (tt_tree tt) w = (Inr (walk', t', walked, dirs), w')"
  shows "map (map tn_key) walked = map (map tn_key) (candidate_node_lists tt) \<and> length dirs = length walked"
proof -
  obtain cd S t0 t2 where P: "pruned_ok cd t0" "mark_all wss (fst (dfs_prune cd [] t0)) = Inr t2"
      "trial_tree_init ar wss = Inr \<lparr>tt_compat = cd, tt_tree = fst (dfs_prune cd [] t2), tt_walked = snd (dfs_prune cd [] t2)\<rparr>"
    using trial_tree_init_parts [OF assms(1)] by metis
  have "pruned_ok cd (fst (dfs_prune cd [] t0))" by (rule prune_pruned_ok(1) [OF P(1)])
  moreover have "map_rose (\<lambda>n. (tn_key n, tn_pruned n)) t2 = map_rose (\<lambda>n. (tn_key n, tn_pruned n)) (fst (dfs_prune cd [] t0))"
    by (rule marking_map [OF _ P(2) [unfolded mark_all_def]]) (simp add: mark_node_key mark_node_pruned)
  ultimately have "pruned_ok cd t2" using pruned_ok_cong by metis
  from open_paths_pruned(1) [OF this, of "[]"]
  have "open_paths [] (tt_tree tt) = map (map tn_key) (candidate_node_lists tt)"
    using assms(2) unfolding P(3) by (auto simp: candidate_node_lists_def)
  then show ?thesis using dfs_train_paths(1) [OF assms(3,4)] by simp
qed

section \<open>Theorems\<close>



text \<open>
  C22 (safety). Training hands exactly the candidates to the training function, one after the other and in the
  order of the candidate list, and makes one directory for each; pruned paths are never trained.
\<close>
theorem trial_trains_candidates:
  assumes "trial_input ar wss ps n" and "trial_tree_init ar wss = Inr tt" and "keeps_keys train"
    and "dfs_train mk train [] (tt_tree tt) w = (Inr (walk', t', walked, dirs), w')"
  shows "map (map tn_key) walked = map (map tn_key) (candidate_node_lists tt) \<and> length dirs = length walked"
  by (rule trial_trains_candidates_keys [OF assms])

section \<open>The theorems at the two workspaces\<close>

lemma example_input: "trial_input (\<lambda>_ ks. ks) [ran_workspace, new_workspace] [[lib_a, lib_b], [lib_a, lib_b2]] 2"
proof -
  have "markable ran_workspace [lib_a, lib_b]"
    using example_items unfolding markable_def isl_def list.pred_inject
    by (auto split: sum.splits) (metis sum.exhaust)+
  moreover have "markable new_workspace p" for p using example_outputs by (simp add: markable_def)
  ultimately show ?thesis
    by (simp add: trial_input_def arranges_def example_pipelines is_root_key_def lib_a_def lib_b_def lib_b2_def)
qed


definition example_tree :: trial_state where
  "example_tree = (case trial_tree_init (\<lambda>_ ks. ks) [ran_workspace, new_workspace] of Inr tt \<Rightarrow> tt | Inl _ \<Rightarrow> undefined)"

lemma example_tree_init: "trial_tree_init (\<lambda>_ ks. ks) [ran_workspace, new_workspace] = Inr example_tree"
  by (rule trial_tree_init_parts [OF example_input]) (simp add: example_tree_def)


definition train_world :: file_world where
  "train_world = \<lparr>fw_cwd = ''/'', fw_files = [([''t''], Dir), ([''t'', ''venv''], Dir), ([''t'', ''temp''], Dir), ([''t'', ''output''], Dir)],
     fw_time = (\<lambda>_. ''0''), fw_clock = 0\<rparr>"

lemma example_train:
  "isl (fst (dfs_train (io_return ''/t'') (\<lambda>ns _. io_return ns) [] (tt_tree example_tree) train_world)) = False"
  by code_simp

text \<open>Both directories are the one that exists already; the training function leaves the nodes as they are.\<close>

lemma trial_trains_candidates_witness:
  "\<exists>walk' t' walked dirs w'.
     dfs_train (io_return ''/t'') (\<lambda>ns _. io_return ns) [] (tt_tree example_tree) train_world = (Inr (walk', t', walked, dirs), w')
     \<and> map (map tn_key) walked = map (map tn_key) (candidate_node_lists example_tree) \<and> length dirs = length walked"
proof -
  obtain walk' t' walked dirs w' where
    d: "dfs_train (io_return ''/t'') (\<lambda>ns _. io_return ns) [] (tt_tree example_tree) train_world = (Inr (walk', t', walked, dirs), w')"
    using example_train by (cases "dfs_train (io_return ''/t'') (\<lambda>ns _. io_return ns) [] (tt_tree example_tree) train_world")
      (auto simp: isl_def; metis sum.exhaust surj_pair)
  have "keeps_keys (\<lambda>ns _. io_return ns)" by (simp add: keeps_keys_def)
  from trial_trains_candidates [OF example_input example_tree_init this d] d show ?thesis by metis
qed

end
