(* ===== verification/StorageSpec.thy ===== *)
theory StorageSpec
  imports Storage
begin

text \<open>
  What a physical storage promises, as a locale, and what the logical storages do on top of any
  engine that keeps the promise. The view of an engine is two maps: the bytes of every version of a
  key, and the head version of every branch of a key. \<open>local_file\<close> is the content of the files of the
  client, which no operation but a \<open>get\<close> that finds something changes, and \<open>stamp\<close> the version the next \<open>put\<close> gives.
\<close>

section \<open>The contract\<close>

locale version_store =
  fixes P :: "'z file_world_scheme phys_store"
    and inv :: "'z file_world_scheme \<Rightarrow> bool"
    and contents :: "'z file_world_scheme \<Rightarrow> string \<Rightarrow> string \<Rightarrow> string option"
    and head_of :: "'z file_world_scheme \<Rightarrow> string \<Rightarrow> string \<Rightarrow> string option"
    and local_file :: "'z file_world_scheme \<Rightarrow> string \<Rightarrow> string option"
    and stamp :: "'z file_world_scheme \<Rightarrow> string \<Rightarrow> string \<Rightarrow> string \<Rightarrow> string"
    and good :: "string \<Rightarrow> bool"
  assumes local_read: "local_file w p = Some b \<Longrightarrow> read_bytes p w = (Inr b, w)"
    and head_contents: "inv w \<Longrightarrow> head_of w k br = Some h \<Longrightarrow> \<exists>b. contents w k h = Some b"
    and stamp_text: "inv w \<Longrightarrow> CHR 0x0D \<notin> set (stamp w k br b)"
    and put_text:
      "inv w \<Longrightarrow> good k \<Longrightarrow> good br \<Longrightarrow> contents w k (stamp w k br (utf8 v)) = None \<Longrightarrow>
       \<exists>w'. ps_put P k br STRING v w = (Inr (StorageReturn (VDict [(''Version'', Some (stamp w k br (utf8 v)))])), w')
         \<and> inv w' \<and> contents w' = (contents w)(k := (contents w k)(stamp w k br (utf8 v) \<mapsto> utf8 v))
         \<and> head_of w' = (head_of w)(k := (head_of w k)(br \<mapsto> stamp w k br (utf8 v))) \<and> local_file w' = local_file w"
    and put_file:
      "inv w \<Longrightarrow> good k \<Longrightarrow> good br \<Longrightarrow> local_file w p = Some b \<Longrightarrow> contents w k (stamp w k br b) = None \<Longrightarrow>
       \<exists>w'. ps_put P k br FILE p w = (Inr (StorageReturn (VDict [(''Version'', Some (stamp w k br b))])), w')
         \<and> inv w' \<and> contents w' = (contents w)(k := (contents w k)(stamp w k br b \<mapsto> b))
         \<and> head_of w' = (head_of w)(k := (head_of w k)(br \<mapsto> stamp w k br b)) \<and> local_file w' = local_file w"
    and get_head_none:
      "inv w \<Longrightarrow> good k \<Longrightarrow> good br \<Longrightarrow> head_of w k br = None \<Longrightarrow>
       \<exists>w'. ps_get P k (Some br) None d w = (Inr None, w')
         \<and> inv w' \<and> contents w' = contents w \<and> head_of w' = head_of w \<and> local_file w' = local_file w"
    and get_head_text:
      "inv w \<Longrightarrow> good k \<Longrightarrow> good br \<Longrightarrow> head_of w k br = Some h \<Longrightarrow> contents w k h = Some (utf8 v) \<Longrightarrow>
       CHR 0x0D \<notin> set v \<Longrightarrow>
       \<exists>w'. ps_get P k (Some br) None STRING w = (Inr (Some v), w')
         \<and> inv w' \<and> contents w' = contents w \<and> head_of w' = head_of w"
    and get_version_file:
      "inv w \<Longrightarrow> good k \<Longrightarrow> contents w k h = Some b \<Longrightarrow>
       \<exists>w' p. ps_get P k None (Some h) FILE w = (Inr (Some p), w')
         \<and> inv w' \<and> contents w' = contents w \<and> head_of w' = head_of w \<and> local_file w' p = Some b"
    and get_head_file:
      "inv w \<Longrightarrow> good k \<Longrightarrow> good br \<Longrightarrow> head_of w k br = Some h \<Longrightarrow> contents w k h = Some b \<Longrightarrow>
       \<exists>w' p. ps_get P k (Some br) None FILE w = (Inr (Some p), w')
         \<and> inv w' \<and> contents w' = contents w \<and> head_of w' = head_of w \<and> local_file w' p = Some b"

section \<open>Keys of the logical storages\<close>

text \<open>Storage prefixes have no colon; then the collection and the key can be read back.\<close>

lemma colon_free_split:
  assumes "a @ ''::'' @ x = b @ ''::'' @ y" and "no_colon a" and "no_colon b"
  shows "a = b \<and> x = y"
proof -
  have "takeWhile (\<lambda>c. c \<noteq> CHR '':'') (a @ ''::'' @ x) = a" "takeWhile (\<lambda>c. c \<noteq> CHR '':'') (b @ ''::'' @ y) = b"
    using assms(2,3) by (auto simp: no_colon_def takeWhile_append takeWhile_eq_all_conv)
  with assms(1) have "a = b" by simp
  with assms(1) show ?thesis by simp
qed

lemma collections_no_colon [simp]: "no_colon COL_VERSION" "no_colon COL_ENTITY"
  by (simp_all add: no_colon_def COL_VERSION_def COL_ENTITY_def)

lemma collections_differ [simp]: "COL_VERSION \<noteq> COL_ENTITY"
  by (simp add: COL_VERSION_def COL_ENTITY_def)

lemma form_keys_differ: "no_colon pre \<Longrightarrow> no_colon pre' \<Longrightarrow> form_version_key pre k \<noteq> form_entity_key pre' k'"
proof
  assume p: "no_colon pre" "no_colon pre'" and eq: "form_version_key pre k = form_entity_key pre' k'"
  then have "COL_VERSION @ ''::'' @ to_string True k = COL_ENTITY @ ''::'' @ to_string False k'"
    using colon_free_split unfolding form_version_key_def form_entity_key_def by blast
  then show False using colon_free_split by (metis collections_differ collections_no_colon)
qed

lemma form_version_key_inj:
  assumes "form_version_key pre k = form_version_key pre' k'"
    and "no_colon pre" and "no_colon pre'" and "wf_key k" and "wf_key k'"
  shows "pre = pre' \<and> k = k'"
proof -
  have "pre = pre'" and "COL_VERSION @ ''::'' @ to_string True k = COL_VERSION @ ''::'' @ to_string True k'"
    using colon_free_split assms(1-3) unfolding form_version_key_def by blast+
  then show ?thesis using key_version_string_inj assms(4,5) by auto
qed

section \<open>SemanticFileStorage over any engine\<close>

text \<open>What \<open>get_semantic_version\<close> finds, in terms of the view.\<close>

definition semantic_lookup ::
    "('w \<Rightarrow> string \<Rightarrow> string \<Rightarrow> string option) \<Rightarrow> ('w \<Rightarrow> string \<Rightarrow> string \<Rightarrow> string option) \<Rightarrow> 'w \<Rightarrow> string \<Rightarrow> meta_key \<Rightarrow>
     string option" where
  "semantic_lookup contents head_of w pre key =
     (case head_of w (form_version_key pre key) (key_branch key) of
        None \<Rightarrow> None
      | Some v \<Rightarrow>
          (case contents w (form_version_key pre key) v of
             None \<Rightarrow> None
           | Some t \<Rightarrow>
               (case utf8_decode t of
                  None \<Rightarrow> None
                | Some h \<Rightarrow> if CHR 0x0D \<in> set h then None else contents w (form_entity_key pre key) h)))"

context version_store begin

lemma file_put_ok:
  assumes "inv w" and "good k" and "good br" and "local_file w p = Some b" and "contents w k (stamp w k br b) = None"
  shows "\<exists>w'. file_put P k br p w = (Inr (stamp w k br b), w')
     \<and> inv w' \<and> contents w' = (contents w)(k := (contents w k)(stamp w k br b \<mapsto> b))
     \<and> head_of w' = (head_of w)(k := (head_of w k)(br \<mapsto> stamp w k br b)) \<and> local_file w' = local_file w"
  using put_file [OF assms]
  by (auto simp: file_put_def version_of_reply_def io_reply_def io_bind_def od_item_def od_simps)

lemma string_put_ok:
  assumes "inv w" and "good k" and "good br" and "contents w k (stamp w k br (utf8 v)) = None"
  shows "\<exists>w'. string_put P k br v w = (Inr (stamp w k br (utf8 v)), w')
     \<and> inv w' \<and> contents w' = (contents w)(k := (contents w k)(stamp w k br (utf8 v) \<mapsto> utf8 v))
     \<and> head_of w' = (head_of w)(k := (head_of w k)(br \<mapsto> stamp w k br (utf8 v))) \<and> local_file w' = local_file w"
  using put_text [OF assms]
  by (auto simp: string_put_def version_of_reply_def io_reply_def io_bind_def od_item_def od_simps)

text \<open>A version put under a key is found there, and every other version of every key stays what it was.\<close>

lemma semantic_put_lookup:
  assumes w: "inv w" "no_colon pre" "wf_key key" "good (form_entity_key pre key)" "good (form_version_key pre key)"
      "good (key_branch key)" "local_file w path = Some b"
    and fresh: "contents w (form_entity_key pre key) (stamp w (form_entity_key pre key) (key_branch key) b) = None"
    and mid: "file_put P (form_entity_key pre key) (key_branch key) path w = (Inr h, w1)"
      "contents w1 (form_version_key pre key) (stamp w1 (form_version_key pre key) (key_branch key) (utf8 h)) = None"
  shows "\<exists>w'. semantic_put P pre key path w = (Inr (), w') \<and> inv w' \<and> local_file w' = local_file w
    \<and> semantic_lookup contents head_of w' pre key = Some b
    \<and> (\<forall>pre' key'. no_colon pre' \<and> wf_key key' \<and> (pre', key') \<noteq> (pre, key) \<and> semantic_lookup contents head_of w pre' key' \<noteq> None
         \<longrightarrow> semantic_lookup contents head_of w' pre' key' = semantic_lookup contents head_of w pre' key')"
proof -
  let ?e = "form_entity_key pre key" and ?v = "form_version_key pre key" and ?br = "key_branch key"
  let ?h = "stamp w ?e ?br b" and ?g = "stamp w1 ?v ?br (utf8 h)"
  have h: "h = ?h" and w1: "inv w1" "contents w1 = (contents w)(?e := (contents w ?e)(?h \<mapsto> b))"
      "head_of w1 = (head_of w)(?e := (head_of w ?e)(?br \<mapsto> ?h))" "local_file w1 = local_file w"
    using file_put_ok [OF w(1,4,6,7) fresh] mid(1) by auto
  obtain w' where w': "string_put P ?v ?br h w1 = (Inr ?g, w')" "inv w'"
      "contents w' = (contents w1)(?v := (contents w1 ?v)(?g \<mapsto> utf8 h))"
      "head_of w' = (head_of w1)(?v := (head_of w1 ?v)(?br \<mapsto> ?g))" "local_file w' = local_file w1"
    using string_put_ok [OF w1(1) w(5,6) mid(2)] by auto
  have ne: "?v \<noteq> ?e" using form_keys_differ w(2) by blast
  have put: "semantic_put P pre key path w = (Inr (), w')"
    by (simp add: semantic_put_def io_bind_def mid(1) io_then_def w'(1))
  have found: "semantic_lookup contents head_of w' pre key = Some b"
    using ne ne [symmetric] stamp_text [OF w(1)] h by (simp add: semantic_lookup_def w'(3,4) w1(2,3))
  have frame: "semantic_lookup contents head_of w' pre' key' = semantic_lookup contents head_of w pre' key'"
    if k: "no_colon pre'" "wf_key key'" "(pre', key') \<noteq> (pre, key)"
      and some: "semantic_lookup contents head_of w pre' key' \<noteq> None" for pre' key'
  proof -
    let ?e' = "form_entity_key pre' key'" and ?v' = "form_version_key pre' key'"
    have vv: "?v' \<noteq> ?v" using form_version_key_inj k w(2,3) by blast
    have ve: "?v' \<noteq> ?e" using form_keys_differ k(1) w(2) by blast
    have ev: "?e' \<noteq> ?v" using form_keys_differ k(1) w(2) by metis
    obtain vh t hh c where s: "head_of w ?v' (key_branch key') = Some vh" "contents w ?v' vh = Some t"
        "utf8_decode t = Some hh" "CHR 0x0D \<notin> set hh" "contents w ?e' hh = Some c"
      using some by (auto simp: semantic_lookup_def split: option.splits if_splits)
    have "contents w' ?e' hh = contents w ?e' hh"
      using s(5) fresh ev by (auto simp: w'(3) w1(2))
    then show ?thesis using vv ve s by (simp add: semantic_lookup_def w'(3,4) w1(2,3))
  qed
  show ?thesis using put w' w1 found frame by auto
qed

text \<open>\<open>get_semantic_version\<close> returns a local copy of what the view holds.\<close>

lemma semantic_get_version_ok:
  assumes w: "inv w" "good (form_entity_key pre key)" "good (form_version_key pre key)" "good (key_branch key)"
    and found: "semantic_lookup contents head_of w pre key = Some b"
  shows "\<exists>p w'. semantic_get_version P pre key w = (Inr p, w') \<and> inv w' \<and> read_bytes p w' = (Inr b, w')
    \<and> contents w' = contents w \<and> head_of w' = head_of w"
proof -
  let ?e = "form_entity_key pre key" and ?v = "form_version_key pre key" and ?br = "key_branch key"
  obtain vh t h where s: "head_of w ?v ?br = Some vh" "contents w ?v vh = Some t" "utf8_decode t = Some h"
      "CHR 0x0D \<notin> set h" "contents w ?e h = Some b"
    using found by (auto simp: semantic_lookup_def split: option.splits if_splits)
  have t: "t = utf8 h" using s(3) by (rule utf8_decode_Some)
  obtain w1 where w1: "ps_get P ?v (Some ?br) None STRING w = (Inr (Some h), w1)" "inv w1"
      "contents w1 = contents w" "head_of w1 = head_of w"
    using get_head_text [OF w(1,3,4) s(1)] s(2,4) t by blast
  have "contents w1 ?e h = Some b" using w1 s by simp
  from get_version_file [OF w1(2) w(2) this]
  obtain p w2 where w2: "ps_get P ?e None (Some h) FILE w1 = (Inr (Some p), w2)" "inv w2"
      "contents w2 = contents w1" "head_of w2 = head_of w1" "local_file w2 p = Some b"
    by blast
  have "semantic_get_version P pre key w = (Inr p, w2)"
    by (simp add: semantic_get_version_def string_get_branch_head_def file_get_version_def io_bind_def w1(1) w2(1)
      found_or_key_error_def)
  with w1 w2 local_read show ?thesis by auto
qed

text \<open>Both together.\<close>

lemma semantic_put_get:
  assumes "inv w" "no_colon pre" "wf_key key" "good (form_entity_key pre key)" "good (form_version_key pre key)"
      "good (key_branch key)" "local_file w path = Some b"
    and "contents w (form_entity_key pre key) (stamp w (form_entity_key pre key) (key_branch key) b) = None"
    and "file_put P (form_entity_key pre key) (key_branch key) path w = (Inr h, w1)"
      "contents w1 (form_version_key pre key) (stamp w1 (form_version_key pre key) (key_branch key) (utf8 h)) = None"
  shows "\<exists>w2 p w3. semantic_put P pre key path w = (Inr (), w2)
    \<and> semantic_get_version P pre key w2 = (Inr p, w3) \<and> read_bytes p w3 = (Inr b, w3) \<and> inv w3
    \<and> (\<forall>pre' key'. no_colon pre' \<and> wf_key key' \<and> (pre', key') \<noteq> (pre, key) \<and> semantic_lookup contents head_of w pre' key' \<noteq> None
         \<longrightarrow> semantic_lookup contents head_of w3 pre' key' = semantic_lookup contents head_of w pre' key')"
proof -
  obtain w2 where w2: "semantic_put P pre key path w = (Inr (), w2)" "inv w2" "semantic_lookup contents head_of w2 pre key = Some b"
      "\<forall>pre' key'. no_colon pre' \<and> wf_key key' \<and> (pre', key') \<noteq> (pre, key) \<and> semantic_lookup contents head_of w pre' key' \<noteq> None
         \<longrightarrow> semantic_lookup contents head_of w2 pre' key' = semantic_lookup contents head_of w pre' key'"
    using semantic_put_lookup [OF assms] by blast
  obtain p w3 where w3: "semantic_get_version P pre key w2 = (Inr p, w3)" "inv w3" "read_bytes p w3 = (Inr b, w3)"
      "contents w3 = contents w2" "head_of w3 = head_of w2"
    using semantic_get_version_ok [OF w2(2) assms(4-6) w2(3)] by blast
  have "semantic_lookup contents head_of w3 = semantic_lookup contents head_of w2"
    unfolding semantic_lookup_def fun_eq_iff w3(4,5) by simp
  with w2 w3 show ?thesis by metis
qed

text \<open>Without a mapping for the version the key is not found.\<close>

lemma semantic_get_version_missing:
  assumes "inv w" and "good (form_version_key pre key)" and "good (key_branch key)"
    and "head_of w (form_version_key pre key) (key_branch key) = None"
  shows "\<exists>w'. semantic_get_version P pre key w = (Inl KeyError, w') \<and> inv w'"
  using get_head_none [OF assms, of STRING]
  by (auto simp: semantic_get_version_def string_get_branch_head_def io_bind_def found_or_key_error_def)

lemma semantic_get_branch_head_missing:
  assumes "inv w" and "good (form_entity_key pre key)" and "good (key_branch key)"
    and "head_of w (form_entity_key pre key) (key_branch key) = None"
  shows "\<exists>w'. semantic_get_branch_head P pre key w = (Inl KeyError, w') \<and> inv w'
    \<and> contents w' = contents w \<and> head_of w' = head_of w \<and> local_file w' = local_file w"
  using get_head_none [OF assms, of FILE]
  by (auto simp: semantic_get_branch_head_def file_get_branch_head_def io_bind_def found_or_key_error_def)

lemma semantic_get_branch_head_ok:
  assumes "inv w" and "good (form_entity_key pre key)" and "good (key_branch key)"
    and "head_of w (form_entity_key pre key) (key_branch key) = Some h" and "contents w (form_entity_key pre key) h = Some b"
  shows "\<exists>p w'. semantic_get_branch_head P pre key w = (Inr p, w') \<and> inv w' \<and> read_bytes p w' = (Inr b, w')
    \<and> contents w' = contents w \<and> head_of w' = head_of w"
proof -
  obtain w' p where "ps_get P (form_entity_key pre key) (Some (key_branch key)) None FILE w = (Inr (Some p), w')"
      "inv w'" "contents w' = contents w" "head_of w' = head_of w" "local_file w' p = Some b"
    using get_head_file [OF assms] by blast
  with local_read show ?thesis
    by (auto simp: semantic_get_branch_head_def file_get_branch_head_def io_bind_def found_or_key_error_def)
qed

end

end
