(* ===== verification/FsStore.thy ===== *)
theory FsStore
  imports StorageSpec Config
begin

text \<open>
  \<^verbatim>\<open>pysrc/pipeman/store/filesystem.py\<close>: the storage engine that keeps versions in directories
  \<^verbatim>\<open>base/key/branch/hversion\<close>, the head of a branch in its file \<^verbatim>\<open>@HEAD\<close>. The class constants, the log switch
  and the temporary directory come from the configuration, which does not change after start-up;
  SHA-256 (as a function from bytes to the hexadecimal digest) and the component key the C++
  coordinator hands out are parameters.
\<close>

record fs_config =
  fc_chunk :: int
  fc_generic :: string
  fc_base :: string
  fc_log :: bool
  fc_temp :: string
  fc_component_key :: string
  fc_sha256 :: "string \<Rightarrow> string"

definition PARENTS_FILE_NAME :: string where "PARENTS_FILE_NAME = ''PARENTS''"
definition HEAD_FILE_NAME :: string where "HEAD_FILE_NAME = ''@HEAD''"

definition fs_storage_init :: "configuration \<Rightarrow> string \<Rightarrow> string \<Rightarrow> (string \<Rightarrow> string) \<Rightarrow> fs_config result" where
  "fs_storage_init cf base_path component_key sha =
     res_bind (conf_get cf ''storage_filesystem'' ''chunk_size'') (\<lambda>chunk_text.
     res_bind (parse_py_int chunk_text) (\<lambda>chunk.
     res_bind (conf_get cf ''storage_filesystem'' ''generic_file_name'') (\<lambda>generic.
     res_bind (conf_get cf ''storage_filesystem'' ''prefix'') (\<lambda>prfx.
     res_bind (conf_getboolean cf ''log'' ''log_filesystem_storage'') (\<lambda>log.
     res_bind (env_temp_path cf) (\<lambda>temp.
       Inr \<lparr>fc_chunk = chunk, fc_generic = generic, fc_base = path_join prfx base_path, fc_log = log,
            fc_temp = temp, fc_component_key = component_key, fc_sha256 = sha\<rparr>))))))"

text \<open>Reading the clock for the log, which nothing else sees.\<close>

definition log_time :: "fs_config \<Rightarrow> ('z file_world_scheme, unit) io" where
  "log_time C = (if fc_log C then io_bind time_now (\<lambda>_. io_return ()) else io_return ())"

definition fs_connect :: "fs_config \<Rightarrow> ('z file_world_scheme, unit) io" where
  "fs_connect C = check_or_create_dir (fc_base C)"

section \<open>Paths\<close>

definition path_from_branch :: "fs_config \<Rightarrow> string \<Rightarrow> string \<Rightarrow> 'z file_world_scheme \<Rightarrow> string" where
  "path_from_branch C key br w = abspath (fw_cwd w) (path_join (path_join (fc_base C) key) br)"

definition get_head_version :: "fs_config \<Rightarrow> string \<Rightarrow> string \<Rightarrow> ('z file_world_scheme, string option) io" where
  "get_head_version C key br =
     io_bind io_get (\<lambda>w.
     let file_path = path_join (path_from_branch C key br w) HEAD_FILE_NAME
     in if \<not> path_exists file_path w then io_return None
        else io_bind (read_str file_path) (\<lambda>content. io_return (Some content)))"

definition set_head_version :: "fs_config \<Rightarrow> string \<Rightarrow> string \<Rightarrow> string \<Rightarrow> ('z file_world_scheme, unit) io" where
  "set_head_version C key br hversion =
     io_bind io_get (\<lambda>w. write_str (path_join (path_from_branch C key br w) HEAD_FILE_NAME) hversion)"

definition fs_list_key :: "fs_config \<Rightarrow> ('z file_world_scheme, string list) io" where
  "fs_list_key C =
     io_bind (scandir (fc_base C)) (\<lambda>entries.
       io_return (map (\<lambda>(n, _). path_join (fc_base C) n) (filter snd entries)))"

definition fs_list_branch :: "fs_config \<Rightarrow> string \<Rightarrow> ('z file_world_scheme, string list) io" where
  "fs_list_branch C key =
     io_bind io_get (\<lambda>w.
     let key_dir = abspath (fw_cwd w) (path_join (fc_base C) key)
     in io_bind (scandir key_dir) (\<lambda>entries.
          io_return (map (\<lambda>(n, _). path_join key_dir n) (filter snd entries))))"

definition path_from_hashed_version :: "fs_config \<Rightarrow> string \<Rightarrow> string \<Rightarrow> ('z file_world_scheme, string) io" where
  "path_from_hashed_version C key hversion =
     io_bind (fs_list_branch C key) (\<lambda>branches. io_bind io_get (\<lambda>w.
       case find (\<lambda>br. path_exists (path_join (path_join (path_join (fc_base C) key) br) hversion) w) branches of
         Some br \<Rightarrow> io_return (path_join (path_from_branch C key br w) hversion)
       | None \<Rightarrow> io_return []))"

definition head_path_from_branch :: "fs_config \<Rightarrow> string \<Rightarrow> string \<Rightarrow> ('z file_world_scheme, string option) io" where
  "head_path_from_branch C key br =
     io_bind (get_head_version C key br) (\<lambda>head_version. io_bind io_get (\<lambda>w.
       case head_version of
         None \<Rightarrow> io_return None
       | Some h \<Rightarrow> io_return (Some (path_join (path_from_branch C key br w) h))))"

definition get_file_path :: "fs_config \<Rightarrow> string \<Rightarrow> string option \<Rightarrow> string option \<Rightarrow> ('z file_world_scheme, string option) io" where
  "get_file_path C key br hversion =
     (case hversion of
        Some h \<Rightarrow> io_bind (path_from_hashed_version C key h) (\<lambda>p. io_return (Some p))
      | None \<Rightarrow>
          (case br of
             Some b \<Rightarrow> head_path_from_branch C key b
           | None \<Rightarrow> io_raise ValueError))"

text \<open>\<open>os.path.dirname\<close>.\<close>

definition dirname :: "string \<Rightarrow> string" where
  "dirname p =
     (let h = rev (dropWhile (\<lambda>c. c \<noteq> CHR ''/'') (rev p))
      in if list_all (\<lambda>c. c = CHR ''/'') h then h else rev (dropWhile (\<lambda>c. c = CHR ''/'') (rev h)))"

section \<open>get and put\<close>

definition none_str :: "string option \<Rightarrow> string" where
  "none_str s = (case s of None \<Rightarrow> ''None'' | Some x \<Rightarrow> x)"

definition fs_get :: "fs_config \<Rightarrow> string \<Rightarrow> string option \<Rightarrow> string option \<Rightarrow> transfer_dtype \<Rightarrow>
    ('z file_world_scheme, string option) io" where
  "fs_get C key br hversion dtype =
     io_then (log_time C)
     (io_bind (get_file_path C key br hversion) (\<lambda>dir.
      case dir of
        None \<Rightarrow> io_then (log_time C) (io_return None)
      | Some d \<Rightarrow>
          let file_path = path_join d (fc_generic C)
          in case dtype of
            FILE \<Rightarrow>
              io_bind time_now (\<lambda>now.
              let local_file = path_join (fc_temp C) (key @ ''-'' @ none_str br @ ''-'' @ now)
              in io_bind (read_bytes file_path) (\<lambda>content.
                 io_then (write_bytes local_file (concat (read_chunks (fc_chunk C) content)))
                 (io_then (log_time C) (io_return (Some local_file)))))
          | STRING \<Rightarrow>
              io_bind (read_str file_path) (\<lambda>content.
                io_then (log_time C) (io_return (Some content)))))"

definition hash_header :: "string \<Rightarrow> string \<Rightarrow> string \<Rightarrow> string" where
  "hash_header now key br = utf8 (now @ ''##'' @ key @ ''::'' @ br @ ''::'')"

text \<open>The upload into the branch directory; its result is the hashed version.\<close>

definition fs_upload :: "fs_config \<Rightarrow> string \<Rightarrow> string \<Rightarrow> transfer_dtype \<Rightarrow> string \<Rightarrow> string \<Rightarrow> ('z file_world_scheme, string) io" where
  "fs_upload C key br dtype v remote_file_path =
     (case dtype of
        FILE \<Rightarrow>
          io_bind time_now (\<lambda>now.
          io_bind (read_bytes v) (\<lambda>content.
          let chunks = read_chunks (fc_chunk C) content
          in io_then (write_bytes remote_file_path (concat chunks))
             (io_return (fc_sha256 C (hash_header now key br @ concat chunks)))))
      | STRING \<Rightarrow>
          io_then (write_str remote_file_path v)
          (io_bind time_now (\<lambda>now.
            io_return (fc_sha256 C (utf8 (now @ ''##'' @ key @ ''::'' @ br @ ''::'' @ v))))))"

text \<open>
  The rest of \<open>put\<close>: the uploaded file moves into the directory of its version (so does its \<open>.hash\<close> file when
  the component key is set), the old head becomes the parent, and the head moves.
\<close>

definition fs_commit :: "fs_config \<Rightarrow> string \<Rightarrow> string \<Rightarrow> string \<Rightarrow> string \<Rightarrow> ('z file_world_scheme, unit) io" where
  "fs_commit C key br remote_file_path hversion =
     (let new_dir = path_join (dirname remote_file_path) hversion
      in io_then (check_or_create_dir new_dir)
         (io_then (rename_file remote_file_path (path_join new_dir (fc_generic C)))
         (io_then (if fc_component_key C \<noteq> []
                   then rename_file (remote_file_path @ ''.hash'') (path_join new_dir (fc_generic C @ ''.hash''))
                   else io_return ())
         (io_bind (get_head_version C key br) (\<lambda>current_head.
          io_then (write_str (path_join new_dir PARENTS_FILE_NAME)
                     (case current_head of None \<Rightarrow> ''<null>'' | Some h \<Rightarrow> h))
            (set_head_version C key br hversion))))))"

definition fs_put :: "fs_config \<Rightarrow> string \<Rightarrow> string \<Rightarrow> transfer_dtype \<Rightarrow> string \<Rightarrow> ('z file_world_scheme, reply) io" where
  "fs_put C key br dtype v =
     io_then (log_time C)
     (io_bind io_get (\<lambda>w.
      let remote_dir = path_from_branch C key br w;
          remote_file_path = path_join remote_dir (fc_generic C)
      in io_then (check_or_create_dir remote_dir)
         (io_bind (fs_upload C key br dtype v remote_file_path) (\<lambda>hversion.
          io_then (fs_commit C key br remote_file_path hversion)
          (io_then (log_time C)
            (io_return (StorageReturn (VDict [(''Version'', Some hversion)]))))))))"

section \<open>The other operations\<close>

definition fs_head :: "fs_config \<Rightarrow> string \<Rightarrow> string \<Rightarrow> ('z file_world_scheme, reply) io" where
  "fs_head C key br =
     io_bind (get_head_version C key br) (\<lambda>h. io_return (StorageReturn (VDict [(''Version'', h)])))"

text \<open>\<open>meta\<close> computes the path of the parents file and returns nothing.\<close>

definition fs_meta :: "fs_config \<Rightarrow> string \<Rightarrow> string option \<Rightarrow> string option \<Rightarrow> ('z file_world_scheme, reply) io" where
  "fs_meta C key version br =
     io_then (log_time C)
     (io_bind (get_file_path C key br version) (\<lambda>file_path.
      case file_path of
        None \<Rightarrow> io_then (log_time C) (io_return PlainPair)
      | Some _ \<Rightarrow> io_return PlainNone))"

definition fs_branch :: "string \<Rightarrow> string \<Rightarrow> string option \<Rightarrow> string option \<Rightarrow> ('z file_world_scheme, reply) io" where
  "fs_branch key new_branch based_on_branch refer_version = io_raise NotImplementedError"

definition fs_merge :: "string \<Rightarrow> string \<Rightarrow> string \<Rightarrow> transfer_dtype \<Rightarrow> string \<Rightarrow> ('z file_world_scheme, reply) io" where
  "fs_merge key head_branch merge_branch dtype v = io_raise NotImplementedError"

definition fs_store :: "fs_config \<Rightarrow> 'z file_world_scheme phys_store" where
  "fs_store C =
     \<lparr>ps_get = fs_get C, ps_put = fs_put C, ps_list_key = io_bind (fs_list_key C) (\<lambda>ks. io_return (PlainList ks)),
      ps_head = fs_head C, ps_branch = fs_branch,
      ps_list_branch = (\<lambda>key. io_bind (fs_list_branch C key) (\<lambda>bs. io_return (PlainList bs))),
      ps_meta = fs_meta C, ps_merge = fs_merge\<rparr>"

end
