(* ===== verification/FsStoreProps.thy ===== *)
theory FsStoreProps
  imports FsStore
begin

text \<open>
  The file system engine keeps the contract \<open>version_store\<close>: \<open>fs_inv\<close> describes the directories under
  the base path, \<open>fs_contents\<close> and \<open>fs_head_of\<close> are the view of them, and every operation of the
  contract is simulated. The interpretation \<open>fs\<close> carries the theorems of the logical storages over.
\<close>

section \<open>Names and digests\<close>

definition is_hex :: "char \<Rightarrow> bool" where
  "is_hex c \<longleftrightarrow> (let n = (of_char c :: nat) in 48 \<le> n \<and> n \<le> 57 \<or> 97 \<le> n \<and> n \<le> 102)"

definition is_hversion :: "string \<Rightarrow> bool" where
  "is_hversion h \<longleftrightarrow> length h = 64 \<and> (\<forall>c \<in> set h. is_hex c)"

lemma not_hex [simp]: "\<not> is_hex CHR ''/''" "\<not> is_hex CHR ''.''" "\<not> is_hex CHR 0x0D"
  by (simp_all add: is_hex_def)

lemma hex_plain: "is_hversion h \<Longrightarrow> plain_name h"
  unfolding is_hversion_def plain_name_def by (metis length_0_conv list.set_intros(1) not_hex zero_neq_numeral)

lemma hex_ascii: "is_hversion h \<Longrightarrow> utf8 h = h"
proof -
  have c: "utf8_char c = [c]" if "is_hex c" for c
    using that by (auto simp: is_hex_def utf8_char_def Let_def)
  have "\<forall>c \<in> set h. is_hex c \<Longrightarrow> utf8 h = h"
    unfolding utf8_def by (induction h) (simp_all add: c)
  then show "is_hversion h \<Longrightarrow> utf8 h = h" by (simp add: is_hversion_def)
qed

lemma hex_no_return: "is_hversion h \<Longrightarrow> CHR 0x0D \<notin> set h"
  unfolding is_hversion_def by (metis not_hex(3))

lemma fixed_names [simp]:
  "plain_name HEAD_FILE_NAME" "plain_name PARENTS_FILE_NAME" "HEAD_FILE_NAME \<noteq> PARENTS_FILE_NAME"
  by (simp_all add: plain_name_def HEAD_FILE_NAME_def PARENTS_FILE_NAME_def)

lemma fixed_not_hex [simp]: "\<not> is_hversion HEAD_FILE_NAME" "\<not> is_hversion PARENTS_FILE_NAME"
  by (simp_all add: is_hversion_def HEAD_FILE_NAME_def PARENTS_FILE_NAME_def)

definition fs_config_ok :: "fs_config \<Rightarrow> bool" where
  "fs_config_ok C \<longleftrightarrow>
     plain_name (fc_generic C) \<and> \<not> is_hversion (fc_generic C) \<and> fc_generic C \<noteq> HEAD_FILE_NAME
     \<and> fc_generic C \<noteq> PARENTS_FILE_NAME \<and> fc_chunk C \<noteq> 0 \<and> fc_base C \<noteq> [] \<and> fc_temp C \<noteq> []
     \<and> fc_component_key C = [] \<and> (\<forall>x. is_hversion (fc_sha256 C x))"

section \<open>The view\<close>

definition base_of :: "fs_config \<Rightarrow> 'z file_world_scheme \<Rightarrow> string list" where
  "base_of C w = resolve w (fc_base C)"

definition temp_of :: "fs_config \<Rightarrow> 'z file_world_scheme \<Rightarrow> string list" where
  "temp_of C w = resolve w (fc_temp C)"

definition file_content :: "node option \<Rightarrow> string option" where
  "file_content n = (case n of Some (File b) \<Rightarrow> Some b | _ \<Rightarrow> None)"

definition fs_contents :: "fs_config \<Rightarrow> 'z file_world_scheme \<Rightarrow> string \<Rightarrow> string \<Rightarrow> string option" where
  "fs_contents C w k h =
     (if \<not> is_hversion h then None
      else case find (\<lambda>(b, d). d \<and> nodes w (base_of C w @ [k, b, h]) \<noteq> None)
                  (dir_entries (fw_files w) (base_of C w @ [k])) of
        None \<Rightarrow> None
      | Some (b, _) \<Rightarrow> file_content (nodes w (base_of C w @ [k, b, h, fc_generic C])))"

definition fs_head_of :: "fs_config \<Rightarrow> 'z file_world_scheme \<Rightarrow> string \<Rightarrow> string \<Rightarrow> string option" where
  "fs_head_of C w k b = file_content (nodes w (base_of C w @ [k, b, HEAD_FILE_NAME]))"

definition fs_local :: "fs_config \<Rightarrow> 'z file_world_scheme \<Rightarrow> string \<Rightarrow> string option" where
  "fs_local C w p =
     (if p = [] \<or> is_prefix (base_of C w) (resolve w p) then None else file_content (nodes w (resolve w p)))"

definition fs_stamp :: "fs_config \<Rightarrow> 'z file_world_scheme \<Rightarrow> string \<Rightarrow> string \<Rightarrow> string \<Rightarrow> string" where
  "fs_stamp C w k br b =
     fc_sha256 C (hash_header (fw_time w (if fc_log C then Suc (fw_clock w) else fw_clock w)) k br @ b)"

definition fs_inv :: "fs_config \<Rightarrow> 'z file_world_scheme \<Rightarrow> bool" where
  "fs_inv C w \<longleftrightarrow>
     (let base = base_of C w; temp = temp_of C w; N = nodes w
      in fs_wf w \<and> (\<forall>n. CHR ''/'' \<notin> set (fw_time w n))
        \<and> N base = Some Dir \<and> N temp = Some Dir \<and> (\<forall>n. N (temp @ [n]) \<noteq> Some Dir)
        \<and> \<not> is_prefix base temp \<and> \<not> is_prefix temp base
        \<and> (\<forall>k c. N (base @ [k]) \<noteq> Some (File c)) \<and> (\<forall>k b c. plain_name b \<longrightarrow> N (base @ [k, b]) \<noteq> Some (File c))
        \<and> (\<forall>k b. N (base @ [k, b, HEAD_FILE_NAME]) \<noteq> Some Dir \<and> N (base @ [k, b, fc_generic C]) \<noteq> Some Dir)
        \<and> (\<forall>k b h. is_hversion h \<longrightarrow> N (base @ [k, b, h]) \<noteq> None \<longrightarrow> (\<exists>c. N (base @ [k, b, h, fc_generic C]) = Some (File c)))
        \<and> (\<forall>k b b' h. is_hversion h \<longrightarrow> N (base @ [k, b, h]) \<noteq> None \<longrightarrow> N (base @ [k, b', h]) \<noteq> None \<longrightarrow> b = b')
        \<and> (\<forall>k b c. N (base @ [k, b, HEAD_FILE_NAME]) = Some (File c) \<longrightarrow> is_hversion c \<and> N (base @ [k, b, c]) \<noteq> None)
        \<and> (\<forall>k b. N (base @ [k, b]) \<noteq> None \<longrightarrow> plain_name b))"

lemma fs_invD:
  assumes "fs_inv C w"
  shows "fs_wf w" "CHR ''/'' \<notin> set (fw_time w n)" "nodes w (base_of C w) = Some Dir" "nodes w (temp_of C w) = Some Dir"
    "nodes w (temp_of C w @ [x]) \<noteq> Some Dir" "\<not> is_prefix (base_of C w) (temp_of C w)"
    "\<not> is_prefix (temp_of C w) (base_of C w)" "nodes w (base_of C w @ [k]) \<noteq> Some (File c)"
    "plain_name b \<Longrightarrow> nodes w (base_of C w @ [k, b]) \<noteq> Some (File c)"
    "nodes w (base_of C w @ [k, b, HEAD_FILE_NAME]) \<noteq> Some Dir" "nodes w (base_of C w @ [k, b, fc_generic C]) \<noteq> Some Dir"
    "is_hversion h \<Longrightarrow> nodes w (base_of C w @ [k, b, h]) \<noteq> None \<Longrightarrow>
       \<exists>c. nodes w (base_of C w @ [k, b, h, fc_generic C]) = Some (File c)"
    "is_hversion h \<Longrightarrow> nodes w (base_of C w @ [k, b, h]) \<noteq> None \<Longrightarrow> nodes w (base_of C w @ [k, b', h]) \<noteq> None \<Longrightarrow> b = b'"
    "nodes w (base_of C w @ [k, b, HEAD_FILE_NAME]) = Some (File c) \<Longrightarrow> is_hversion c \<and> nodes w (base_of C w @ [k, b, c]) \<noteq> None"
    "nodes w (base_of C w @ [k, b]) \<noteq> None \<Longrightarrow> plain_name b"
  by (insert assms [unfolded fs_inv_def Let_def], (elim conjE, (assumption | metis))+)

lemma file_content_Some [simp]: "file_content n = Some b \<longleftrightarrow> n = Some (File b)"
  by (auto simp: file_content_def split: option.splits node.splits)

text \<open>The search over the branches finds the one that holds the version.\<close>

lemma fs_contents_iff:
  assumes I: "fs_inv C w"
  shows "fs_contents C w k h = Some c
    \<longleftrightarrow> is_hversion h \<and> (\<exists>b. nodes w (base_of C w @ [k, b, h, fc_generic C]) = Some (File c))"
proof (cases "is_hversion h")
  case True
  let ?B = "base_of C w" and ?g = "fc_generic C"
  let ?f = "find (\<lambda>(b, d). d \<and> nodes w (?B @ [k, b, h]) \<noteq> None) (dir_entries (fw_files w) (?B @ [k]))"
  have dir: "nodes w (?B @ [k, b]) = Some Dir" "nodes w (?B @ [k, b, h]) \<noteq> None"
    if "nodes w (?B @ [k, b, h, x]) \<noteq> None" for b x
    using that nodes_parents [OF fs_invD(1) [OF I], of "?B @ [k, b]" "[h, x]"]
      nodes_parents [OF fs_invD(1) [OF I], of "?B @ [k, b, h]" "[x]"] by auto
  show ?thesis
  proof (cases ?f)
    case None
    then have "nodes w (?B @ [k, b, h]) = None" if "nodes w (?B @ [k, b]) = Some Dir" for b
      using that dir_entries_iff [OF fs_invD(1) [OF I], of b True "?B @ [k]"] by (auto simp: find_None_iff)
    with dir have "nodes w (?B @ [k, b, h, ?g]) = None" for b by (metis not_None_eq)
    with True None show ?thesis by (simp add: fs_contents_def)
  next
    case (Some bd)
    then obtain b where bd: "bd = (b, True)" and b: "nodes w (?B @ [k, b, h]) \<noteq> None"
      by (auto dest!: find_SomeD)
    have "b' = b" if "nodes w (?B @ [k, b', h, ?g]) = Some (File c)" for b'
      using that dir(2) [of b' ?g] fs_invD(13) [OF I True b] by (metis option.distinct(1))
    then show ?thesis using True Some bd by (auto simp: fs_contents_def)
  qed
qed (simp add: fs_contents_def)

lemma option_eqI: "(\<And>c. x = Some c \<longleftrightarrow> y = Some c) \<Longrightarrow> x = y"
  by (cases x; cases y) auto

lemma fs_contents_None:
  "fs_inv C w \<Longrightarrow> is_hversion h \<Longrightarrow> fs_contents C w k h = None \<longleftrightarrow> (\<forall>b. nodes w (base_of C w @ [k, b, h]) = None)"
  using fs_contents_iff [of C w k h] fs_invD(12) [of C w h k]
    nodes_parents [of w "base_of C w @ [k, b, h]" "[fc_generic C]" for b] fs_invD(1) [of C w]
  by (metis append.assoc append_Cons append_Nil not_None_eq not_Cons_self2)

section \<open>Steps on the file system\<close>

lemma fs_wf_parent: "fs_wf w \<Longrightarrow> nodes w (p @ [c]) \<noteq> None \<Longrightarrow> nodes w p = Some Dir"
  unfolding fs_wf_def by blast

lemma fs_wfI:
  assumes "distinct (od_keys (fw_files w))" and "starts_with ''/'' (fw_cwd w)"
    and "\<And>p c. nodes w (p @ [c]) \<noteq> None \<Longrightarrow> nodes w p = Some Dir"
  shows "fs_wf w"
  using assms unfolding fs_wf_def by blast

lemma fs_wf_fields: "fs_wf w \<Longrightarrow> distinct (od_keys (fw_files w))" "fs_wf w \<Longrightarrow> starts_with ''/'' (fw_cwd w)"
  by (simp_all add: fs_wf_def)

lemma fs_wf_set:
  assumes "fs_wf w" and "p \<noteq> []" and "nodes w (butlast p) = Some Dir" and "n = Dir \<or> nodes w p \<noteq> Some Dir"
  shows "fs_wf (set_node p n w)"
proof -
  have "nodes (set_node p n w) q = Some Dir" if "nodes (set_node p n w) (q @ [c]) \<noteq> None" for q c
  proof (cases "q @ [c] = p")
    case True
    then have "q = butlast p" by auto
    with True assms(3) show ?thesis by auto
  next
    case False
    with that have "nodes w q = Some Dir" using fs_wf_parent [OF assms(1)] by auto
    with assms(4) show ?thesis by auto
  qed
  with fs_wf_fields [OF assms(1)] show ?thesis by (intro fs_wfI) (simp_all add: set_node_def od_simps)
qed

lemma fs_wf_dirs:
  assumes "fs_wf w" and "distinct (od_keys fs)"
    and "\<And>q. nodes (w\<lparr>fw_files := fs\<rparr>) q = (if is_prefix q p then Some Dir else nodes w q)"
  shows "fs_wf (w\<lparr>fw_files := fs\<rparr>)"
proof -
  have "nodes (w\<lparr>fw_files := fs\<rparr>) q = Some Dir" if x: "nodes (w\<lparr>fw_files := fs\<rparr>) (q @ [c]) \<noteq> None" for q c
  proof (cases "is_prefix (q @ [c]) p")
    case True
    then have "is_prefix q p" by (auto simp: is_prefix_def)
    then show ?thesis by (simp add: assms(3))
  next
    case False
    with x have "nodes w (q @ [c]) \<noteq> None" using assms(3) [of "q @ [c]"] by simp
    then have "nodes w q = Some Dir" by (rule fs_wf_parent [OF assms(1)])
    then show ?thesis by (simp add: assms(3))
  qed
  with fs_wf_fields [OF assms(1)] assms(2) show ?thesis by (intro fs_wfI) simp_all
qed

lemma fs_wf_del:
  assumes "fs_wf w" and "nodes w p \<noteq> Some Dir"
  shows "fs_wf (w\<lparr>fw_files := od_del p (fw_files w)\<rparr>)"
proof -
  let ?w = "w\<lparr>fw_files := od_del p (fw_files w)\<rparr>"
  have "nodes ?w q = Some Dir" if x: "nodes ?w (q @ [c]) \<noteq> None" for q c
  proof -
    have "nodes w (q @ [c]) \<noteq> None" using x by (auto simp: nodes_del split: if_splits)
    then have "nodes w q = Some Dir" by (rule fs_wf_parent [OF assms(1)])
    with assms(2) show ?thesis by (auto simp: nodes_del)
  qed
  with fs_wf_fields [OF assms(1)] show ?thesis by (intro fs_wfI) (simp_all add: od_simps)
qed

lemma rename_file_ok:
  assumes "src \<noteq> []" and "dst \<noteq> []" and "resolve w src \<noteq> resolve w dst" and "nodes w (resolve w src) = Some (File b)"
    and "nodes w (resolve w dst) \<noteq> Some Dir" and "nodes w (butlast (resolve w dst)) = Some Dir" and "fs_wf w"
  defines "w1 \<equiv> set_node (resolve w dst) (File b) w"
  defines "w' \<equiv> w1\<lparr>fw_files := od_del (resolve w src) (fw_files w1)\<rparr>"
  shows "rename_file src dst w = (Inr (), w')" and "fs_wf w'"
    and "nodes w' q = (if q = resolve w src then None else if q = resolve w dst then Some (File b) else nodes w q)"
proof -
  have ne: "resolve w dst \<noteq> []" "resolve w src \<noteq> []" using assms(4,5) by auto
  show "rename_file src dst w = (Inr (), w')"
    using assms(1-6) by (simp add: rename_file_def io_bind_def read_bytes_ok io_then_def write_bytes_ok w1_def w'_def)
  have "fs_wf w1" unfolding w1_def using assms(5-7) ne by (intro fs_wf_set) auto
  then show "fs_wf w'" unfolding w'_def using assms(3,4) by (intro fs_wf_del) (auto simp: w1_def)
  show "nodes w' q = (if q = resolve w src then None else if q = resolve w dst then Some (File b) else nodes w q)"
    unfolding w'_def nodes_del w1_def using ne by auto
qed

lemma last_str_join: "xs \<noteq> [] \<Longrightarrow> last xs \<noteq> [] \<Longrightarrow> str_join sep xs \<noteq> [] \<and> last (str_join sep xs) = last (last xs)"
  by (induction sep xs rule: str_join.induct) auto

lemma last_abspath:
  assumes "starts_with ''/'' cwd" and "path_of cwd p \<noteq> []"
  shows "last (abspath cwd p) \<noteq> CHR ''/''"
proof -
  define q where "q = (if starts_with ''/'' p then p else path_join cwd p)"
  have q: "starts_with ''/'' q" using assms(1) by (auto simp: q_def path_join_def starts_with_slash)
  have cs: "norm_components True (str_split ''/'' q) = path_of cwd p" by (simp add: path_of_def q_def)
  have l: "plain_name (last (path_of cwd p))" using path_of_clean last_in_set [OF assms(2)] by blast
  then have ne: "last (path_of cwd p) \<noteq> []" and s: "last (last (path_of cwd p)) \<noteq> CHR ''/''"
    unfolding plain_name_def by (auto dest: last_in_set)
  have j: "str_join ''/'' (path_of cwd p) \<noteq> []" "last (str_join ''/'' (path_of cwd p)) \<noteq> CHR ''/''"
    using last_str_join [OF assms(2) ne, of "''/''"] s by auto
  obtain r where r: "q = CHR ''/'' # r" using q by (auto simp: starts_with_slash)
  have "\<exists>slashes. normpath q = slashes @ str_join ''/'' (norm_components True (str_split ''/'' q))"
    unfolding normpath_def r by (simp add: Let_def starts_with_def)
  then show ?thesis using j unfolding abspath_def q_def [symmetric] cs by auto
qed

lemma abspath_absolute:
  assumes "starts_with ''/'' cwd"
  shows "starts_with ''/'' (abspath cwd p)"
proof -
  define q where "q = (if starts_with ''/'' p then p else path_join cwd p)"
  have "starts_with ''/'' q" using assms by (auto simp: q_def path_join_def starts_with_slash)
  then obtain r where r: "q = CHR ''/'' # r" by (auto simp: starts_with_slash)
  have "starts_with ''/'' (normpath q)"
    unfolding normpath_def r by (simp add: Let_def starts_with_def)
  then show ?thesis by (simp add: abspath_def q_def)
qed

lemma dirname_join:
  assumes "plain_name g" and "d \<noteq> []" and "last d \<noteq> CHR ''/''"
  shows "dirname (path_join d g) = d"
proof -
  have j: "path_join d g = d @ CHR ''/'' # g" using assms plain_no_slash by (simp add: path_join_def)
  have "dropWhile (\<lambda>c. c \<noteq> CHR ''/'') (rev g @ CHR ''/'' # rev d) = CHR ''/'' # rev d"
    using assms(1) by (subst dropWhile_append2) (auto simp: plain_name_def)
  moreover have "\<not> list_all (\<lambda>c. c = CHR ''/'') (d @ ''/'')"
    using assms(2,3) last_in_set by (fastforce simp: list_all_iff)
  moreover have "dropWhile (\<lambda>c. c = CHR ''/'') (rev d) = rev d"
    using assms(2,3) by (cases d rule: rev_cases) auto
  ultimately show ?thesis by (simp add: dirname_def j Let_def)
qed

section \<open>Paths of the engine\<close>

lemma resolve_branch:
  assumes "fs_wf w" and "fs_config_ok C" and "plain_name k" and "plain_name br"
  shows "resolve w (path_from_branch C k br w) = base_of C w @ [k, br]" and "path_from_branch C k br w \<noteq> []"
    and "last (path_from_branch C k br w) \<noteq> CHR ''/''"
proof -
  have b: "fc_base C \<noteq> []" using assms(2) by (simp add: fs_config_ok_def)
  have p: "resolve w (path_join (path_join (fc_base C) k) br) = base_of C w @ [k, br]"
    using assms(3,4) b by (simp add: base_of_def)
  then show "resolve w (path_from_branch C k br w) = base_of C w @ [k, br]"
    using resolve_abspath [OF assms(1)] by (simp add: path_from_branch_def)
  show "path_from_branch C k br w \<noteq> []" by (simp add: path_from_branch_def)
  have "path_of (fw_cwd w) (path_join (path_join (fc_base C) k) br) \<noteq> []" using p by (simp add: resolve_def)
  then show "last (path_from_branch C k br w) \<noteq> CHR ''/''"
    using assms(1) last_abspath unfolding path_from_branch_def fs_wf_def by blast
qed

lemma get_head_version_run:
  assumes "fs_wf w" and "fs_config_ok C" and "plain_name k" and "plain_name br"
    and "nodes w (base_of C w @ [k, br, HEAD_FILE_NAME]) \<noteq> Some Dir"
    and "\<And>c. nodes w (base_of C w @ [k, br, HEAD_FILE_NAME]) = Some (File c) \<Longrightarrow> is_hversion c"
  shows "get_head_version C k br w = (Inr (fs_head_of C w k br), w)"
proof -
  let ?p = "path_join (path_from_branch C k br w) HEAD_FILE_NAME"
  note r = resolve_branch [OF assms(1-4)]
  have p: "resolve w ?p = base_of C w @ [k, br, HEAD_FILE_NAME]" "?p \<noteq> []" using r by simp_all
  show ?thesis
  proof (cases "nodes w (base_of C w @ [k, br, HEAD_FILE_NAME])")
    case None
    then show ?thesis
      using p by (simp add: get_head_version_def path_exists_def node_at_nodes fs_head_of_def file_content_def)
  next
    case (Some n)
    with assms(5) obtain c where c: "n = File c" by (cases n) auto
    then have h: "is_hversion c" using Some assms(6) by simp
    have "read_str ?p w = (Inr c, w)"
      using p Some c hex_ascii [OF h] hex_no_return [OF h] by (intro read_str_ok) simp_all
    then show ?thesis
      using p Some c by (simp add: get_head_version_def path_exists_def node_at_nodes fs_head_of_def file_content_def io_bind_def)
  qed
qed

section \<open>put\<close>

lemma same_cwd:
  assumes "fw_cwd w' = fw_cwd w"
  shows "resolve w' p = resolve w p" and "base_of C w' = base_of C w" and "temp_of C w' = temp_of C w"
    and "path_from_branch C k br w' = path_from_branch C k br w"
  using assms by (simp_all add: resolve_def base_of_def temp_of_def path_from_branch_def)

definition after_commit :: "string list \<Rightarrow> string \<Rightarrow> string \<Rightarrow> string \<Rightarrow> string \<Rightarrow>
    (string list \<Rightarrow> node option) \<Rightarrow> string list \<Rightarrow> node option" where
  "after_commit branch_dir g h b par N q =
     (if q = branch_dir @ [g] then None
      else if q = branch_dir @ [h] then Some Dir
      else if q = branch_dir @ [h, g] then Some (File b)
      else if q = branch_dir @ [h, PARENTS_FILE_NAME] then Some (File par)
      else if q = branch_dir @ [HEAD_FILE_NAME] then Some (File h)
      else N q)"

lemma append_same_eq: "a @ x = a @ y \<longleftrightarrow> x = (y :: 'a list)"
  by simp

lemma fs_commit_run:
  assumes w: "fs_wf w" and C: "fs_config_ok C" and n: "plain_name k" "plain_name br" and h: "is_hversion h"
    and up: "nodes w (base_of C w @ [k, br, fc_generic C]) = Some (File b)"
    and fresh: "nodes w (base_of C w @ [k, br, h]) = None"
    and hd: "nodes w (base_of C w @ [k, br, HEAD_FILE_NAME]) \<noteq> Some Dir"
      "\<And>c. nodes w (base_of C w @ [k, br, HEAD_FILE_NAME]) = Some (File c) \<Longrightarrow> is_hversion c"
  shows "\<exists>w' par. fs_commit C k br (path_join (path_from_branch C k br w) (fc_generic C)) h w = (Inr (), w')
    \<and> fs_wf w' \<and> fw_cwd w' = fw_cwd w \<and> fw_time w' = fw_time w
    \<and> nodes w' = after_commit (base_of C w @ [k, br]) (fc_generic C) h b par (nodes w)"
proof -
  let ?D = "base_of C w @ [k, br]" and ?g = "fc_generic C" and ?d = "path_from_branch C k br w"
  note r = resolve_branch [OF w C n]
  have g: "plain_name ?g" "?g \<noteq> h" "?g \<noteq> HEAD_FILE_NAME" "?g \<noteq> PARENTS_FILE_NAME" "fc_component_key C = []"
    using C h by (auto simp: fs_config_ok_def)
  have hh: "h \<noteq> HEAD_FILE_NAME" "h \<noteq> PARENTS_FILE_NAME" using h by auto
  let ?new = "path_join ?d h" and ?src = "path_join ?d ?g"
  have new: "resolve w ?new = ?D @ [h]" "?new \<noteq> []" using r hex_plain [OF h] by simp_all
  have src: "resolve w ?src = ?D @ [?g]" "?src \<noteq> []" using r g by simp_all
  have upD: "nodes w (?D @ [?g]) = Some (File b)" and freshD: "nodes w (?D @ [h]) = None" using up fresh by simp_all
  have D: "nodes w ?D = Some Dir" using fs_wf_parent [OF w, of ?D ?g] upD by simp
  have under: "nodes w (?D @ h # x) = None" for x
  proof (rule ccontr)
    assume "nodes w (?D @ h # x) \<noteq> None"
    then have some: "nodes w ((?D @ [h]) @ x) \<noteq> None" by simp
    with freshD have "x \<noteq> []" by auto
    with nodes_parents [OF w some] freshD show False by simp
  qed
  \<comment> \<open>the directory of the version\<close>
  have "way_free w (?D @ [h])"
    unfolding way_free_def
  proof (intro allI impI)
    fix q s c assume e: "?D @ [h] = q @ s"
    show "nodes w q \<noteq> Some (File c)"
    proof (cases "s = []")
      case True
      with e freshD show ?thesis by auto
    next
      case False
      then obtain s' where "?D = q @ s'" using e by (metis append.assoc butlast_append butlast_snoc)
      then show ?thesis using D nodes_parents [OF w, of q s'] by (cases "s' = []") auto
    qed
  qed
  then obtain fs1 where c1: "check_or_create_dir ?new w = (Inr (), w\<lparr>fw_files := fs1\<rparr>)" "distinct (od_keys fs1)"
    and n1: "\<And>q. nodes (w\<lparr>fw_files := fs1\<rparr>) q = (if is_prefix q (?D @ [h]) then Some Dir else nodes w q)"
    using check_or_create_dir_ok [OF new(2) w] new(1) by auto
  define w1 where "w1 = w\<lparr>fw_files := fs1\<rparr>"
  have w1: "fs_wf w1" "fw_cwd w1 = fw_cwd w" "fw_time w1 = fw_time w"
    using fs_wf_dirs [OF w c1(2) n1] by (simp_all add: w1_def)
  have pre: "nodes w1 q = (if q = ?D @ [h] then Some Dir else nodes w q)" for q
  proof (cases "is_prefix q (?D @ [h])")
    case True
    then obtain s where s: "?D @ [h] = q @ s" by (auto simp: is_prefix_def)
    then have "q = ?D @ [h] \<or> nodes w q = Some Dir"
    proof (cases "s = []")
      case False
      then obtain s' where "?D = q @ s'" using s by (metis append.assoc butlast_append butlast_snoc)
      then show ?thesis using D nodes_parents [OF w, of q s'] by (cases "s' = []") auto
    qed simp
    with True n1 show ?thesis by (auto simp: w1_def)
  next
    case False
    then have "q \<noteq> ?D @ [h]" by (auto simp: is_prefix_def)
    with False n1 show ?thesis by (simp add: w1_def)
  qed
  \<comment> \<open>the move\<close>
  note cw1 = same_cwd [OF w1(2)]
  let ?dst = "path_join ?new ?g"
  have dst: "resolve w1 ?dst = ?D @ [h, ?g]" "?dst \<noteq> []" using new g by (simp_all add: cw1)
  define w2 where "w2 = (set_node (resolve w1 ?dst) (File b) w1)\<lparr>fw_files :=
      od_del (resolve w1 ?src) (fw_files (set_node (resolve w1 ?dst) (File b) w1))\<rparr>"
  have ren: "rename_file ?src ?dst w1 = (Inr (), w2)" "fs_wf w2"
    and n2: "\<And>q. nodes w2 q = (if q = ?D @ [?g] then None else if q = ?D @ [h, ?g] then Some (File b) else nodes w1 q)"
  proof -
    have s1: "resolve w1 ?src = ?D @ [?g]" using src by (simp add: cw1)
    have a: "resolve w1 ?src \<noteq> resolve w1 ?dst" "nodes w1 (resolve w1 ?src) = Some (File b)"
        "nodes w1 (resolve w1 ?dst) \<noteq> Some Dir" "nodes w1 (butlast (resolve w1 ?dst)) = Some Dir"
      using upD under [of "[?g]"] g(2) by (simp_all add: s1 dst pre butlast_append)
    note R = rename_file_ok [OF src(2) dst(2) a w1(1)]
    show "rename_file ?src ?dst w1 = (Inr (), w2)" "fs_wf w2" unfolding w2_def by (rule R)+
    show "nodes w2 q = (if q = ?D @ [?g] then None else if q = ?D @ [h, ?g] then Some (File b) else nodes w1 q)" for q
      using R(3) [of q] unfolding w2_def s1 dst(1) .
  qed
  have w2: "fw_cwd w2 = fw_cwd w" "fw_time w2 = fw_time w" by (simp_all add: w2_def w1)
  note cw2 = same_cwd [OF w2(1)]
  \<comment> \<open>the parents\<close>
  have hd2: "nodes w2 (base_of C w @ [k, br, HEAD_FILE_NAME]) = nodes w (base_of C w @ [k, br, HEAD_FILE_NAME])"
    using g hh by (simp add: n2 pre)
  have head: "get_head_version C k br w2 = (Inr (fs_head_of C w2 k br), w2)"
    using get_head_version_run [OF ren(2) C n] hd hd2 by (simp add: cw2)
  define par where "par = (case fs_head_of C w2 k br of None \<Rightarrow> ''<null>'' | Some x \<Rightarrow> x)"
  let ?par = "path_join ?new PARENTS_FILE_NAME"
  have pp: "resolve w2 ?par = ?D @ [h, PARENTS_FILE_NAME]" "?par \<noteq> []" using new by (simp_all add: cw2)
  have n2p: "nodes w2 (?D @ [h, PARENTS_FILE_NAME]) = None" "nodes w2 (?D @ [h]) = Some Dir"
    using under [of "[PARENTS_FILE_NAME]"] g by (auto simp: n2 pre)
  define w3 where "w3 = set_node (?D @ [h, PARENTS_FILE_NAME]) (File (utf8 par)) w2"
  have c3: "write_str ?par par w2 = (Inr (), w3)"
    using write_bytes_ok [of ?par w2 "utf8 par"] pp n2p by (simp add: write_str_def w3_def butlast_append)
  have w3: "fs_wf w3" "fw_cwd w3 = fw_cwd w" "fw_time w3 = fw_time w"
    using fs_wf_set [OF ren(2), of "?D @ [h, PARENTS_FILE_NAME]"] n2p w2 by (simp_all add: w3_def butlast_append)
  note cw3 = same_cwd [OF w3(2)]
  \<comment> \<open>the head\<close>
  let ?hp = "path_join ?d HEAD_FILE_NAME"
  have hp: "resolve w3 ?hp = ?D @ [HEAD_FILE_NAME]" "?hp \<noteq> []" using r by (simp_all add: cw3)
  have n3: "nodes w3 (?D @ [HEAD_FILE_NAME]) \<noteq> Some Dir" "nodes w3 ?D = Some Dir"
    using hd hd2 D g by (simp_all add: w3_def n2 pre)
  define w4 where "w4 = set_node (?D @ [HEAD_FILE_NAME]) (File h) w3"
  have c4: "set_head_version C k br h w3 = (Inr (), w4)"
    using write_bytes_ok [of ?hp w3 h] hp n3 hex_ascii [OF h]
    by (simp add: set_head_version_def write_str_def w4_def cw3 butlast_append)
  have w4: "fs_wf w4" "fw_cwd w4 = fw_cwd w" "fw_time w4 = fw_time w"
    using fs_wf_set [OF w3(1), of "?D @ [HEAD_FILE_NAME]"] n3 w3 by (simp_all add: w4_def butlast_append)
  have "nodes w4 q = after_commit ?D ?g h b (utf8 par) (nodes w) q" for q
    using g hh by (auto simp: after_commit_def w4_def w3_def n2 pre)
  moreover have "fs_commit C k br ?src h w = (Inr (), w4)"
    using dirname_join [OF g(1) r(2,3)] g(5) ren(1) c1(1) c3 c4 head
    by (simp add: fs_commit_def io_then_def io_bind_def w1_def [symmetric] par_def Let_def)
  ultimately show ?thesis using w4 by blast
qed

lemma view_clock [simp]:
  "base_of C (w\<lparr>fw_clock := t\<rparr>) = base_of C w" "temp_of C (w\<lparr>fw_clock := t\<rparr>) = temp_of C w"
  "path_from_branch C k br (w\<lparr>fw_clock := t\<rparr>) = path_from_branch C k br w"
  by (simp_all add: base_of_def temp_of_def path_from_branch_def)

lemma fs_wf_clock [simp]: "fs_wf (w\<lparr>fw_clock := t\<rparr>) = fs_wf w"
  by (simp add: fs_wf_def)

lemma fs_inv_clock [simp]: "fs_inv C (w\<lparr>fw_clock := t\<rparr>) = fs_inv C w"
  by (simp add: fs_inv_def)

lemma log_time_run:
  "log_time C w = (Inr (), w\<lparr>fw_clock := (if fc_log C then Suc (fw_clock w) else fw_clock w)\<rparr>)"
  by (simp add: log_time_def io_bind_def time_now_def)

lemma hash_text: "utf8 (now @ ''##'' @ k @ ''::'' @ br @ ''::'' @ v) = hash_header now k br @ utf8 v"
  by (simp add: hash_header_def utf8_def)

text \<open>What is uploaded: the text encoded, or the bytes of the local file.\<close>

definition payload :: "transfer_dtype \<Rightarrow> string \<Rightarrow> 'z file_world_scheme \<Rightarrow> string option" where
  "payload dtype v w =
     (case dtype of STRING \<Rightarrow> Some (utf8 v)
      | FILE \<Rightarrow> if v = [] then None else file_content (nodes w (resolve w v)))"

lemma fs_upload_run:
  assumes "payload dtype v w = Some b" and "fc_chunk C \<noteq> 0" and "p \<noteq> []"
    and "nodes w (resolve w p) \<noteq> Some Dir" and "nodes w (butlast (resolve w p)) = Some Dir"
  shows "fs_upload C k br dtype v p w =
    (Inr (fc_sha256 C (hash_header (fw_time w (fw_clock w)) k br @ b)),
     (set_node (resolve w p) (File b) w)\<lparr>fw_clock := Suc (fw_clock w)\<rparr>)"
proof (cases dtype)
  case STRING
  then have b: "b = utf8 v" using assms(1) by (simp add: payload_def)
  show ?thesis
    using write_bytes_ok [OF assms(3-5), of b]
    by (simp add: fs_upload_def STRING b io_then_def io_bind_def write_str_def time_now_def hash_text [simplified])
next
  case FILE
  let ?w = "w\<lparr>fw_clock := Suc (fw_clock w)\<rparr>"
  have b: "v \<noteq> []" "nodes ?w (resolve ?w v) = Some (File b)"
    using assms(1) FILE by (auto simp: payload_def split: if_splits)
  have "write_bytes p b ?w = (Inr (), set_node (resolve w p) (File b) ?w)"
    using write_bytes_ok [OF assms(3), of ?w b] assms(4,5) by simp
  then show ?thesis
    using read_bytes_ok [OF b]
    by (simp add: fs_upload_def FILE io_then_def io_bind_def time_now_def concat_read_chunks [OF assms(2)] set_node_def)
qed

definition after_put :: "string list \<Rightarrow> string \<Rightarrow> string \<Rightarrow> string \<Rightarrow> string \<Rightarrow> string \<Rightarrow> string \<Rightarrow>
    (string list \<Rightarrow> node option) \<Rightarrow> string list \<Rightarrow> node option" where
  "after_put base k br g h b par N q =
     after_commit (base @ [k, br]) g h b par (\<lambda>q. if q = base @ [k] \<or> q = base @ [k, br] then Some Dir else N q) q"

lemma fs_put_run:
  assumes I: "fs_inv C w" and C: "fs_config_ok C" and n: "plain_name k" "plain_name br"
    and b: "payload dtype v w = Some b" and local: "dtype = FILE \<Longrightarrow> \<not> is_prefix (base_of C w) (resolve w v)"
    and fresh: "fs_contents C w k (fs_stamp C w k br b) = None"
  shows "\<exists>w' par. fs_put C k br dtype v w
      = (Inr (StorageReturn (VDict [(''Version'', Some (fs_stamp C w k br b))])), w')
    \<and> fs_wf w' \<and> fw_cwd w' = fw_cwd w \<and> fw_time w' = fw_time w
    \<and> nodes w' = after_put (base_of C w) k br (fc_generic C) (fs_stamp C w k br b) b par (nodes w)"
proof -
  let ?B = "base_of C w" and ?g = "fc_generic C" and ?h = "fs_stamp C w k br b"
  note inv = fs_invD [OF I]
  have g: "plain_name ?g" "?g \<noteq> HEAD_FILE_NAME" using C by (auto simp: fs_config_ok_def)
  have h: "is_hversion ?h" using C by (simp add: fs_config_ok_def fs_stamp_def)
  have fr: "nodes w (?B @ [k, x, ?h]) = None" for x using fs_contents_None [OF I h] fresh by simp
  define w0 where "w0 = w\<lparr>fw_clock := (if fc_log C then Suc (fw_clock w) else fw_clock w)\<rparr>"
  have w0: "fs_wf w0" "nodes w0 = nodes w" "fw_cwd w0 = fw_cwd w" "fw_time w0 = fw_time w"
    using inv(1) by (simp_all add: w0_def)
  note cw0 = same_cwd [OF w0(3)]
  note r = resolve_branch [OF w0(1) C n]
  let ?d = "path_from_branch C k br w"
  have d: "resolve w0 ?d = ?B @ [k, br]" "?d \<noteq> []" using r(1,2) by (simp_all add: cw0)
  have upto: "nodes w q = Some Dir" if "?B = q @ s" for q s
    using that inv(3) nodes_parents [OF inv(1), of q s] by (cases "s = []") auto
  have way: "way_free w0 (?B @ [k, br])"
    unfolding way_free_def
  proof (intro allI impI)
    fix q s c assume e: "?B @ [k, br] = q @ s"
    then consider s' where "?B = q @ s'" | "q = ?B @ [k]" | "q = ?B @ [k, br]"
      by (auto simp: append_eq_append_conv2 append_eq_Cons_conv Cons_eq_append_conv)
    then show "nodes w0 q \<noteq> Some (File c)"
      using upto inv(8,9) n by cases (auto simp: w0)
  qed
  then obtain fs1 where c1: "check_or_create_dir ?d w0 = (Inr (), w0\<lparr>fw_files := fs1\<rparr>)" "distinct (od_keys fs1)"
    and n1: "\<And>q. nodes (w0\<lparr>fw_files := fs1\<rparr>) q = (if is_prefix q (?B @ [k, br]) then Some Dir else nodes w0 q)"
    using check_or_create_dir_ok [OF d(2) w0(1)] d(1) by auto
  define w1 where "w1 = w0\<lparr>fw_files := fs1\<rparr>"
  have w1: "fs_wf w1" "fw_cwd w1 = fw_cwd w" "fw_time w1 = fw_time w" "fw_clock w1 = fw_clock w0"
    using fs_wf_dirs [OF w0(1) c1(2) n1] by (simp_all add: w1_def w0)
  note cw1 = same_cwd [OF w1(2)]
  have pre: "nodes w1 q = (if q = ?B @ [k] \<or> q = ?B @ [k, br] then Some Dir else nodes w q)" for q
  proof (cases "is_prefix q (?B @ [k, br])")
    case True
    then obtain s where "?B @ [k, br] = q @ s" by (auto simp: is_prefix_def)
    then consider s' where "?B = q @ s'" | "q = ?B @ [k]" | "q = ?B @ [k, br]"
      by (auto simp: append_eq_append_conv2 append_eq_Cons_conv Cons_eq_append_conv)
    then show ?thesis using True n1 upto by cases (auto simp: w1_def)
  next
    case False
    then have "q \<noteq> ?B @ [k]" "q \<noteq> ?B @ [k, br]" by (auto simp: is_prefix_def)
    with False n1 show ?thesis by (simp add: w1_def w0)
  qed
  let ?src = "path_join ?d ?g"
  have src: "resolve w1 ?src = ?B @ [k, br, ?g]" "?src \<noteq> []" using d g by (simp_all add: cw0 cw1)
  have pay: "payload dtype v w1 = Some b"
  proof (cases dtype)
    case FILE
    then have v: "\<not> is_prefix ?B (resolve w v)" using local by simp
    then have "resolve w v \<noteq> ?B @ [k]" "resolve w v \<noteq> ?B @ [k, br]" by (auto simp: is_prefix_def)
    with b FILE show ?thesis by (auto simp: payload_def pre cw1 split: if_splits)
  qed (use b in \<open>simp add: payload_def\<close>)
  define w2 where "w2 = (set_node (?B @ [k, br, ?g]) (File b) w1)\<lparr>fw_clock := Suc (fw_clock w1)\<rparr>"
  have up1: "nodes w1 (?B @ [k, br, ?g]) \<noteq> Some Dir" "nodes w1 (butlast (?B @ [k, br, ?g])) = Some Dir"
    using inv(11) by (simp_all add: pre butlast_append)
  have upl: "fs_upload C k br dtype v ?src w1 = (Inr ?h, w2)"
    using fs_upload_run [OF pay, of C ?src k br] C src up1
    by (simp add: fs_config_ok_def w2_def fs_stamp_def w1(3,4) w0_def)
  have w2: "fs_wf w2" "fw_cwd w2 = fw_cwd w" "fw_time w2 = fw_time w"
    using fs_wf_set [OF w1(1), of "?B @ [k, br, ?g]"] up1 w1 by (simp_all add: w2_def)
  note cw2 = same_cwd [OF w2(2)]
  have n2: "nodes w2 q = (if q = ?B @ [k, br, ?g] then Some (File b) else nodes w1 q)" for q
    by (simp add: w2_def)
  have gh: "?g \<noteq> ?h" using C h by (auto simp: fs_config_ok_def)
  have at2: "nodes w2 (base_of C w2 @ [k, br, ?g]) = Some (File b)" "nodes w2 (base_of C w2 @ [k, br, ?h]) = None"
    using fr gh by (simp_all add: n2 pre cw2)
  have hd2: "nodes w2 (base_of C w2 @ [k, br, HEAD_FILE_NAME]) = nodes w (?B @ [k, br, HEAD_FILE_NAME])"
    using g by (simp add: n2 pre cw2)
  have hdA: "nodes w2 (base_of C w2 @ [k, br, HEAD_FILE_NAME]) \<noteq> Some Dir"
    unfolding hd2 by (rule inv(10))
  have hdB: "is_hversion c" if "nodes w2 (base_of C w2 @ [k, br, HEAD_FILE_NAME]) = Some (File c)" for c
    using that unfolding hd2 by (blast dest: inv(14))
  obtain w3 par where w3: "fs_commit C k br ?src ?h w2 = (Inr (), w3)" "fs_wf w3" "fw_cwd w3 = fw_cwd w2"
      "fw_time w3 = fw_time w2" "nodes w3 = after_commit (?B @ [k, br]) ?g ?h b par (nodes w2)"
    using fs_commit_run [OF w2(1) C n h at2 hdA hdB] unfolding cw2 by blast
  define w4 where "w4 = w3\<lparr>fw_clock := (if fc_log C then Suc (fw_clock w3) else fw_clock w3)\<rparr>"
  have run: "fs_put C k br dtype v w = (Inr (StorageReturn (VDict [(''Version'', Some ?h)])), w4)"
    using c1(1) upl w3(1)
    by (simp add: fs_put_def io_then_def io_bind_def log_time_run w0_def [symmetric] w1_def [symmetric] w4_def [symmetric] cw0 Let_def)
  have "nodes w4 q = after_put ?B k br ?g ?h b par (nodes w) q" for q
    by (auto simp: w4_def w3(5) after_put_def after_commit_def n2 pre)
  then show ?thesis using run w3 w2 by (intro exI [of _ w4] exI [of _ par]) (auto simp: w4_def)
qed

section \<open>The view after a put\<close>

lemma fs_invI:
  assumes "fs_wf w" "\<And>n. CHR ''/'' \<notin> set (fw_time w n)" "nodes w (base_of C w) = Some Dir" "nodes w (temp_of C w) = Some Dir"
    "\<And>x. nodes w (temp_of C w @ [x]) \<noteq> Some Dir" "\<not> is_prefix (base_of C w) (temp_of C w)"
    "\<not> is_prefix (temp_of C w) (base_of C w)" "\<And>k c. nodes w (base_of C w @ [k]) \<noteq> Some (File c)"
    "\<And>k b c. plain_name b \<Longrightarrow> nodes w (base_of C w @ [k, b]) \<noteq> Some (File c)"
    "\<And>k b. nodes w (base_of C w @ [k, b, HEAD_FILE_NAME]) \<noteq> Some Dir"
    "\<And>k b. nodes w (base_of C w @ [k, b, fc_generic C]) \<noteq> Some Dir"
    "\<And>k b h. is_hversion h \<Longrightarrow> nodes w (base_of C w @ [k, b, h]) \<noteq> None \<Longrightarrow>
       \<exists>c. nodes w (base_of C w @ [k, b, h, fc_generic C]) = Some (File c)"
    "\<And>k b b' h. is_hversion h \<Longrightarrow> nodes w (base_of C w @ [k, b, h]) \<noteq> None \<Longrightarrow> nodes w (base_of C w @ [k, b', h]) \<noteq> None
       \<Longrightarrow> b = b'"
    "\<And>k b c. nodes w (base_of C w @ [k, b, HEAD_FILE_NAME]) = Some (File c) \<Longrightarrow>
       is_hversion c \<and> nodes w (base_of C w @ [k, b, c]) \<noteq> None"
    "\<And>k b. nodes w (base_of C w @ [k, b]) \<noteq> None \<Longrightarrow> plain_name b"
  shows "fs_inv C w"
  unfolding fs_inv_def Let_def
  by (intro conjI allI impI;
      (rule assms(1-13,15) | rule assms(14) [THEN conjunct1] | rule assms(14) [THEN conjunct2]); assumption)

lemma not_is_prefixD: "\<not> is_prefix p q \<Longrightarrow> q \<noteq> p @ r"
  by (auto simp: is_prefix_def)

definition put_step :: "fs_config \<Rightarrow> 'z file_world_scheme \<Rightarrow> 'z file_world_scheme \<Rightarrow> string \<Rightarrow> string \<Rightarrow> string \<Rightarrow> string \<Rightarrow>
    string \<Rightarrow> bool" where
  "put_step C w w' k br h b par \<longleftrightarrow>
     fs_inv C w \<and> fs_config_ok C \<and> plain_name br \<and> is_hversion h \<and> fs_contents C w k h = None
     \<and> fs_wf w' \<and> fw_cwd w' = fw_cwd w \<and> fw_time w' = fw_time w
     \<and> nodes w' = after_put (base_of C w) k br (fc_generic C) h b par (nodes w)"

lemma put_stepD:
  assumes "put_step C w w' k br h b par"
  shows "fs_inv C w" "is_hversion h" "fs_wf w'" "fw_cwd w' = fw_cwd w" "fw_time w' = fw_time w"
    "nodes w' = after_put (base_of C w) k br (fc_generic C) h b par (nodes w)"
    "\<And>x. nodes w (base_of C w @ [k, x, h]) = None"
  using assms fs_contents_None unfolding put_step_def by blast+

lemma put_branch_plain: "put_step C w w' k br h b par \<Longrightarrow> plain_name br"
  by (simp add: put_step_def)

lemma put_names:
  assumes "put_step C w w' k br h b par"
  shows "fc_generic C \<noteq> h" "fc_generic C \<noteq> HEAD_FILE_NAME" "fc_generic C \<noteq> PARENTS_FILE_NAME"
    "h \<noteq> HEAD_FILE_NAME" "h \<noteq> PARENTS_FILE_NAME" "HEAD_FILE_NAME \<noteq> PARENTS_FILE_NAME"
  using assms by (auto simp: fs_config_ok_def put_step_def)

lemma after_1:
  "put_step C w w' k br h b par \<Longrightarrow>
   nodes w' (base_of C w @ [x]) = (if x = k then Some Dir else nodes w (base_of C w @ [x]))"
  by (simp add: put_stepD(6) after_put_def after_commit_def)

lemma after_2:
  "put_step C w w' k br h b par \<Longrightarrow>
   nodes w' (base_of C w @ [x, y]) = (if x = k \<and> y = br then Some Dir else nodes w (base_of C w @ [x, y]))"
  by (simp add: put_stepD(6) after_put_def after_commit_def)

lemma after_3:
  "put_step C w w' k br h b par \<Longrightarrow>
   nodes w' (base_of C w @ [x, y, z]) =
     (if x = k \<and> y = br then
        (if z = fc_generic C then None else if z = h then Some Dir else if z = HEAD_FILE_NAME then Some (File h)
         else nodes w (base_of C w @ [x, y, z]))
      else nodes w (base_of C w @ [x, y, z]))"
  by (frule put_names) (simp add: put_stepD(6) after_put_def after_commit_def)

lemma after_4:
  "put_step C w w' k br h b par \<Longrightarrow>
   nodes w' (base_of C w @ [x, y, z, u]) =
     (if x = k \<and> y = br \<and> z = h then
        (if u = fc_generic C then Some (File b) else if u = PARENTS_FILE_NAME then Some (File par)
         else nodes w (base_of C w @ [x, y, z, u]))
      else nodes w (base_of C w @ [x, y, z, u]))"
  by (frule put_names) (simp add: put_stepD(6) after_put_def after_commit_def)

lemma after_other: "put_step C w w' k br h b par \<Longrightarrow> \<not> is_prefix (base_of C w) q \<Longrightarrow> nodes w' q = nodes w q"
  by (simp add: put_stepD(6) after_put_def after_commit_def not_is_prefixD)

lemma after_base: "put_step C w w' k br h b par \<Longrightarrow> nodes w' (base_of C w) = nodes w (base_of C w)"
  by (simp add: put_stepD(6) after_put_def after_commit_def)

lemmas after_put_nodes = after_1 after_2 after_3 after_4 after_base

lemma put_inv:
  assumes S: "put_step C w w' k br h b par"
  shows "fs_inv C w'"
proof (rule fs_invI, unfold same_cwd [OF put_stepD(4) [OF S]])
  note inv = fs_invD [OF put_stepD(1) [OF S]] and names = put_names [OF S] and h = put_stepD(2) [OF S]
    and fresh_nodes = put_stepD(7) [OF S]
  note after_4 = after_4 [OF S] and after_3 = after_3 [OF S] and after_other = after_other [OF S]
  show "nodes w' (temp_of C w) = Some Dir" using after_other inv(4,6) by simp
  show "nodes w' (temp_of C w @ [x]) \<noteq> Some Dir" for x
  proof -
    have "\<not> is_prefix (base_of C w) (temp_of C w @ [x])"
      using inv(6,7) unfolding is_prefix_def by (metis append_Nil2 append_assoc butlast_append butlast_snoc)
    then show ?thesis using after_other inv(5) by simp
  qed
  show "\<exists>c. nodes w' (base_of C w @ [x, y, z, fc_generic C]) = Some (File c)"
    if z: "is_hversion z" and ex: "nodes w' (base_of C w @ [x, y, z]) \<noteq> None" for x y z
  proof (cases "x = k \<and> y = br \<and> z = h")
    case True
    then show ?thesis by (simp add: after_4)
  next
    case False
    have "z \<noteq> HEAD_FILE_NAME" using z by auto
    with ex False have "nodes w (base_of C w @ [x, y, z]) \<noteq> None" by (auto simp: after_3 split: if_splits)
    with inv(12) [OF z] False show ?thesis by (auto simp: after_4)
  qed
  show "y = y'" if z: "is_hversion z" and ex: "nodes w' (base_of C w @ [x, y, z]) \<noteq> None"
      "nodes w' (base_of C w @ [x, y', z]) \<noteq> None" for x y y' z
  proof -
    have z': "z \<noteq> HEAD_FILE_NAME" using z by auto
    show ?thesis
    proof (cases "x = k \<and> z = h")
      case True
      with ex fresh_nodes show ?thesis by (auto simp: after_3 split: if_splits)
    next
      case False
      with ex z' have "nodes w (base_of C w @ [x, y, z]) \<noteq> None" "nodes w (base_of C w @ [x, y', z]) \<noteq> None"
        by (auto simp: after_3 split: if_splits)
      with inv(13) [OF z] show ?thesis by blast
    qed
  qed
  show "is_hversion c \<and> nodes w' (base_of C w @ [x, y, c]) \<noteq> None"
    if hd: "nodes w' (base_of C w @ [x, y, HEAD_FILE_NAME]) = Some (File c)" for x y c
  proof (cases "x = k \<and> y = br")
    case True
    with hd names h show ?thesis by (auto simp: after_3 split: if_splits)
  next
    case False
    with hd have "nodes w (base_of C w @ [x, y, HEAD_FILE_NAME]) = Some (File c)" by (auto simp: after_3 split: if_splits)
    with inv(14) False show ?thesis by (auto simp: after_3)
  qed
qed (use fs_invD [OF put_stepD(1) [OF S]] put_names [OF S] put_stepD(2,3,5) [OF S] put_branch_plain [OF S] in
      \<open>auto simp: after_put_nodes [OF S] split: if_splits\<close>)

lemma put_contents:
  assumes S: "put_step C w w' k br h b par"
  shows "fs_contents C w' = (fs_contents C w)(k := (fs_contents C w k)(h \<mapsto> b))"
proof (intro ext option_eqI)
  fix x z c
  have iff: "fs_contents C w' x z = Some c
      \<longleftrightarrow> is_hversion z \<and> (\<exists>y. nodes w' (base_of C w @ [x, y, z, fc_generic C]) = Some (File c))"
    using fs_contents_iff [OF put_inv [OF S]] same_cwd(2) [OF put_stepD(4) [OF S]] by simp
  have no: "nodes w (base_of C w @ [k, y, h, fc_generic C]) = None" for y
    using put_stepD(7) [OF S, of y]
      fs_wf_parent [OF fs_invD(1) [OF put_stepD(1) [OF S]], of "base_of C w @ [k, y, h]" "fc_generic C"]
    by (cases "nodes w (base_of C w @ [k, y, h, fc_generic C])") auto
  show "fs_contents C w' x z = Some c \<longleftrightarrow> ((fs_contents C w)(k := (fs_contents C w k)(h \<mapsto> b))) x z = Some c"
    using fs_contents_iff [OF put_stepD(1) [OF S]] put_stepD(2) [OF S] no
    by (auto simp: iff after_4 [OF S] split: if_splits)
qed

lemma put_head:
  assumes S: "put_step C w w' k br h b par"
  shows "fs_head_of C w' = (fs_head_of C w)(k := (fs_head_of C w k)(br \<mapsto> h))"
  using put_names [OF S] same_cwd(2) [OF put_stepD(4) [OF S]]
  by (auto simp: fs_head_of_def fun_eq_iff after_3 [OF S] file_content_def)

lemma put_local:
  assumes S: "put_step C w w' k br h b par"
  shows "fs_local C w' = fs_local C w"
  using same_cwd [OF put_stepD(4) [OF S]] by (auto simp: fs_local_def fun_eq_iff after_other [OF S])

text \<open>The engine's \<open>put\<close> on its view.\<close>

lemma fs_put_view:
  assumes I: "fs_inv C w" and C: "fs_config_ok C" and n: "plain_name k" "plain_name br"
    and b: "payload dtype v w = Some b" and local: "dtype = FILE \<Longrightarrow> \<not> is_prefix (base_of C w) (resolve w v)"
    and fresh: "fs_contents C w k (fs_stamp C w k br b) = None"
  shows "\<exists>w'. fs_put C k br dtype v w
      = (Inr (StorageReturn (VDict [(''Version'', Some (fs_stamp C w k br b))])), w')
    \<and> fs_inv C w' \<and> fs_contents C w' = (fs_contents C w)(k := (fs_contents C w k)(fs_stamp C w k br b \<mapsto> b))
    \<and> fs_head_of C w' = (fs_head_of C w)(k := (fs_head_of C w k)(br \<mapsto> fs_stamp C w k br b))
    \<and> fs_local C w' = fs_local C w"
proof -
  obtain w' par where w': "fs_put C k br dtype v w
      = (Inr (StorageReturn (VDict [(''Version'', Some (fs_stamp C w k br b))])), w')"
      "fs_wf w'" "fw_cwd w' = fw_cwd w" "fw_time w' = fw_time w"
      "nodes w' = after_put (base_of C w) k br (fc_generic C) (fs_stamp C w k br b) b par (nodes w)"
    using fs_put_run [OF assms] by blast
  have "is_hversion (fs_stamp C w k br b)" using C by (simp add: fs_config_ok_def fs_stamp_def)
  then have S: "put_step C w w' k br (fs_stamp C w k br b) b par"
    unfolding put_step_def using I C n(2) fresh w' by blast
  show ?thesis using w'(1) put_inv [OF S] put_contents [OF S] put_head [OF S] put_local [OF S] by blast
qed

section \<open>get\<close>

lemma fs_frame:
  assumes I: "fs_inv C w" and w': "fs_wf w'" "fw_cwd w' = fw_cwd w" "fw_time w' = fw_time w"
    and base: "\<And>r. nodes w' (base_of C w @ r) = nodes w (base_of C w @ r)"
    and temp: "nodes w' (temp_of C w) = Some Dir" "\<And>x. nodes w' (temp_of C w @ [x]) \<noteq> Some Dir"
  shows "fs_inv C w'" and "fs_contents C w' = fs_contents C w" and "fs_head_of C w' = fs_head_of C w"
proof -
  note cw = same_cwd [OF w'(2)] and inv = fs_invD [OF I]
  have b0: "nodes w' (base_of C w) = nodes w (base_of C w)" using base [of "[]"] by simp
  show I': "fs_inv C w'"
    by (rule fs_invI, unfold cw base b0) (use inv w' temp in \<open>auto\<close>)
  show "fs_contents C w' = fs_contents C w"
    using fs_contents_iff [OF I] fs_contents_iff [OF I'] by (intro ext option_eqI) (simp add: cw base)
  show "fs_head_of C w' = fs_head_of C w" by (simp add: fs_head_of_def cw base fun_eq_iff)
qed

lemma view_clock_more [simp]:
  "fs_contents C (w\<lparr>fw_clock := t\<rparr>) = fs_contents C w" "fs_head_of C (w\<lparr>fw_clock := t\<rparr>) = fs_head_of C w"
  "fs_local C (w\<lparr>fw_clock := t\<rparr>) = fs_local C w"
  unfolding fs_contents_def fs_head_of_def fs_local_def fun_eq_iff view_clock nodes_more set_node_fields by simp_all

text \<open>The path of a version, by its hash and by the head of a branch.\<close>

lemma version_path_run:
  assumes I: "fs_inv C w" and C: "fs_config_ok C" and k: "plain_name k" and c: "fs_contents C w k h = Some b"
  shows "\<exists>p br. path_from_hashed_version C k h w = (Inr p, w) \<and> p \<noteq> [] \<and> resolve w p = base_of C w @ [k, br, h]
    \<and> nodes w (base_of C w @ [k, br, h, fc_generic C]) = Some (File b)"
proof -
  let ?B = "base_of C w"
  note inv = fs_invD [OF I]
  have h: "is_hversion h" using fs_contents_iff [OF I] c by blast
  obtain b0 where b0: "nodes w (?B @ [k, b0, h, fc_generic C]) = Some (File b)"
    using fs_contents_iff [OF I] c by blast
  have dirs: "nodes w (?B @ [k, b0, h]) = Some Dir" "nodes w (?B @ [k, b0]) = Some Dir" "nodes w (?B @ [k]) = Some Dir"
    using b0 nodes_parents [OF inv(1), of "?B @ [k, b0, h]" "[fc_generic C]"]
      nodes_parents [OF inv(1), of "?B @ [k, b0]" "[h, fc_generic C]"]
      nodes_parents [OF inv(1), of "?B @ [k]" "[b0, h, fc_generic C]"] by auto
  define kd where "kd = abspath (fw_cwd w) (path_join (fc_base C) k)"
  have base: "fc_base C \<noteq> []" using C by (simp add: fs_config_ok_def)
  have kd: "resolve w kd = ?B @ [k]" "kd \<noteq> []"
    using resolve_abspath [OF inv(1)] k base by (simp_all add: kd_def base_of_def)
  have abs: "starts_with ''/'' kd"
    unfolding kd_def by (rule abspath_absolute [OF fs_wf_fields(2) [OF inv(1)]])
  have abs': "starts_with ''/'' (path_join kd n)" if "plain_name n" for n
    using that abs kd(2) starts_with_join plain_no_slash by blast
  let ?P = "\<lambda>br. path_exists (path_join (path_join (path_join (fc_base C) k) br) h) w"
  let ?E = "filter snd (dir_entries (fw_files w) (?B @ [k]))"
  let ?L = "map (\<lambda>(n, _). path_join kd n) ?E"
  have P: "?P (path_join kd n) \<longleftrightarrow> nodes w (?B @ [k, n, h]) \<noteq> None" if "plain_name n" for n
    using that abs' [OF that] kd hex_plain [OF h]
    by (simp add: path_exists_def node_at_nodes path_join_def [of _ "path_join kd n"])
  have E: "(n, d) \<in> set ?E \<longleftrightarrow> d \<and> nodes w (?B @ [k, n]) = Some Dir" for n d
    using dir_entries_iff [OF inv(1), of n d "?B @ [k]"] by auto
  have plain: "plain_name n" if "nodes w (?B @ [k, n]) = Some Dir" for n using inv(15) [of k n] that by simp
  have list: "fs_list_branch C k w = (Inr ?L, w)"
    using kd dirs(3) by (simp add: fs_list_branch_def io_bind_def scandir_def node_at_nodes kd_def [symmetric])
  have "path_join kd b0 \<in> set ?L" using E [of b0 True] dirs(2) by force
  moreover have "?P (path_join kd b0)" using P plain dirs by simp
  ultimately obtain br where br: "find ?P ?L = Some br" by (metis find_None_iff not_None_eq)
  then have "br \<in> set ?L" and pb: "?P br" using find_SomeD [OF br] by auto
  then obtain n d where e: "br = path_join kd n" "(n, d) \<in> set ?E" by auto
  have "nodes w (?B @ [k, n]) = Some Dir" using E e(2) by blast
  with e(1) pb P [OF plain] have n: "br = path_join kd n" "nodes w (?B @ [k, n]) = Some Dir"
      "nodes w (?B @ [k, n, h]) \<noteq> None"
    by simp_all
  then have nb: "n = b0" using inv(13) [OF h] dirs(1) by (metis option.distinct(1))
  have "resolve w (path_from_branch C k br w) = ?B @ [k, n]"
    using n plain abs' kd resolve_abspath [OF inv(1)]
    by (simp add: path_from_branch_def path_join_def [of _ "path_join kd n"])
  then have "resolve w (path_join (path_from_branch C k br w) h) = ?B @ [k, b0, h]"
    using hex_plain [OF h] nb by (simp add: path_from_branch_def)
  moreover have "path_from_hashed_version C k h w = (Inr (path_join (path_from_branch C k br w) h), w)"
    using list br by (simp add: path_from_hashed_version_def io_bind_def)
  ultimately show ?thesis using b0 hex_plain [OF h] by (intro exI conjI) auto
qed

lemma head_path_run:
  assumes I: "fs_inv C w" and C: "fs_config_ok C" and n: "plain_name k" "plain_name br"
    and hd: "fs_head_of C w k br = Some h" and c: "fs_contents C w k h = Some b"
  shows "\<exists>p. head_path_from_branch C k br w = (Inr (Some p), w) \<and> p \<noteq> [] \<and> resolve w p = base_of C w @ [k, br, h]
    \<and> nodes w (base_of C w @ [k, br, h, fc_generic C]) = Some (File b)"
proof -
  let ?B = "base_of C w"
  note inv = fs_invD [OF I] and r = resolve_branch [OF fs_invD(1) [OF I] C n]
  have h: "is_hversion h" "nodes w (?B @ [k, br, h]) \<noteq> None"
    using hd inv(14) [of k br h] by (auto simp: fs_head_of_def)
  obtain b' where b': "nodes w (?B @ [k, br, h, fc_generic C]) = Some (File b')" using inv(12) [OF h] by blast
  with h(1) have "fs_contents C w k h = Some b'" using fs_contents_iff [OF I] by blast
  with c b' have b: "nodes w (?B @ [k, br, h, fc_generic C]) = Some (File b)" by simp
  have "is_hversion c" if "nodes w (?B @ [k, br, HEAD_FILE_NAME]) = Some (File c)" for c
    using inv(14) [OF that] by simp
  with hd have "head_path_from_branch C k br w = (Inr (Some (path_join (path_from_branch C k br w) h)), w)"
    using get_head_version_run [OF inv(1) C n inv(10)] by (simp add: head_path_from_branch_def io_bind_def)
  then show ?thesis using r hex_plain [OF h(1)] b by auto
qed

lemma head_path_none:
  assumes I: "fs_inv C w" and C: "fs_config_ok C" and n: "plain_name k" "plain_name br" and hd: "fs_head_of C w k br = None"
  shows "head_path_from_branch C k br w = (Inr None, w)"
proof -
  note inv = fs_invD [OF I]
  have "is_hversion c" if "nodes w (base_of C w @ [k, br, HEAD_FILE_NAME]) = Some (File c)" for c
    using inv(14) [OF that] by simp
  with hd show ?thesis
    using get_head_version_run [OF inv(1) C n inv(10)] by (simp add: head_path_from_branch_def io_bind_def)
qed

definition tick :: "fs_config \<Rightarrow> 'z file_world_scheme \<Rightarrow> 'z file_world_scheme" where
  "tick C w = w\<lparr>fw_clock := (if fc_log C then Suc (fw_clock w) else fw_clock w)\<rparr>"

lemma tick_simps [simp]:
  "nodes (tick C w) = nodes w" "fs_inv C (tick C w) = fs_inv C w" "fs_contents C (tick C w) = fs_contents C w"
  "fs_head_of C (tick C w) = fs_head_of C w" "fs_local C (tick C w) = fs_local C w" "base_of C (tick C w) = base_of C w"
  "resolve (tick C w) p = resolve w p" "fw_cwd (tick C w) = fw_cwd w" "fw_time (tick C w) = fw_time w"
  by (simp_all add: tick_def)

lemma log_time_tick: "log_time C w = (Inr (), tick C w)"
  by (simp add: log_time_run tick_def)

text \<open>A copy of a file into the temporary directory leaves the view alone.\<close>

lemma fs_get_file:
  assumes I: "fs_inv C w" and C: "fs_config_ok C" and k: "plain_name k" and br: "br = None \<or> (\<exists>x. br = Some x \<and> plain_name x)"
    and path: "get_file_path C k br hv (tick C w) = (Inr (Some p), tick C w)" "p \<noteq> []" "resolve w p = base_of C w @ q"
    and cont: "nodes w (base_of C w @ q @ [fc_generic C]) = Some (File b)"
  shows "\<exists>w' l. fs_get C k br hv FILE w = (Inr (Some l), w') \<and> fs_inv C w' \<and> fs_contents C w' = fs_contents C w
    \<and> fs_head_of C w' = fs_head_of C w \<and> fs_local C w' l = Some b"
proof -
  note inv = fs_invD [OF I]
  have cfg: "plain_name (fc_generic C)" "fc_chunk C \<noteq> 0" "fc_temp C \<noteq> []" using C by (simp_all add: fs_config_ok_def)
  define w1 where "w1 = (tick C w)\<lparr>fw_clock := Suc (fw_clock (tick C w))\<rparr>"
  define now where "now = fw_time w (fw_clock (tick C w))"
  define nm where "nm = k @ ''-'' @ none_str br @ ''-'' @ now"
  have "CHR ''/'' \<notin> set now" using inv(2) by (simp add: now_def)
  then have nm: "plain_name nm"
    using k br by (auto simp: nm_def plain_name_def none_str_def append_eq_Cons_conv Cons_eq_append_conv)
  define l where "l = path_join (fc_temp C) nm"
  have l: "resolve w1 l = temp_of C w @ [nm]" "l \<noteq> []" using nm cfg by (simp_all add: l_def w1_def temp_of_def)
  have fp: "resolve w1 (path_join p (fc_generic C)) = base_of C w @ q @ [fc_generic C]" "path_join p (fc_generic C) \<noteq> []"
    using path(2,3) cfg by (simp_all add: w1_def)
  define w2 where "w2 = set_node (temp_of C w @ [nm]) (File b) w1"
  have rd: "read_bytes (path_join p (fc_generic C)) w1 = (Inr b, w1)"
    using fp cont by (intro read_bytes_ok) (simp_all add: w1_def)
  have wr: "write_bytes l b w1 = (Inr (), w2)"
    using write_bytes_ok [of l w1 b] l inv(4,5) by (simp add: w1_def w2_def)
  have l': "path_join (fc_temp C) (k @ ''-'' @ none_str br @ ''-'' @ now) = l" by (simp add: l_def nm_def)
  have run: "fs_get C k br hv FILE w = (Inr (Some l), tick C w2)"
    using path(1) rd wr
    by (simp add: fs_get_def io_then_def io_bind_def log_time_tick time_now_def w1_def [symmetric] now_def [symmetric]
        l' [simplified] concat_read_chunks [OF cfg(2)] Let_def)
  have w1: "fs_wf w1" "nodes w1 = nodes w" using inv(1) by (simp_all add: w1_def tick_def)
  have w2: "fs_wf w2" "fw_cwd w2 = fw_cwd w" "fw_time w2 = fw_time w"
    using fs_wf_set [OF w1(1), of "temp_of C w @ [nm]"] inv(4,5) w1(2) by (simp_all add: w2_def w1_def)
  have apart: "base_of C w @ r \<noteq> temp_of C w @ [nm]" for r
    using inv(6,7) unfolding is_prefix_def by (metis append_Nil2 append_assoc butlast_append butlast_snoc)
  have t: "nodes w2 (temp_of C w) = Some Dir" "nodes w2 (temp_of C w @ [x]) \<noteq> Some Dir" for x
    using inv(4,5) by (simp_all add: w2_def w1(2))
  have B: "nodes w2 (base_of C w @ r) = nodes w (base_of C w @ r)" for r
    using apart by (simp add: w2_def w1(2))
  note F = fs_frame [OF I w2 B t]
  have "fs_local C w2 l = Some b"
    using l apart [of "[]"] inv(6,7) same_cwd [OF w2(2)] unfolding fs_local_def
    by (auto simp: w2_def is_prefix_def w1_def temp_of_def) (metis apart temp_of_def)+
  with F run show ?thesis by (intro exI [of _ "tick C w2"] exI [of _ l]) simp
qed

lemma fs_get_text:
  assumes I: "fs_inv C w" and C: "fs_config_ok C" and n: "plain_name k" "plain_name br"
    and hd: "fs_head_of C w k br = Some h" and c: "fs_contents C w k h = Some (utf8 v)" and cr: "CHR 0x0D \<notin> set v"
  shows "fs_get C k (Some br) None STRING w = (Inr (Some v), tick C (tick C w))"
proof -
  have I': "fs_inv C (tick C w)" "fs_head_of C (tick C w) k br = Some h" "fs_contents C (tick C w) k h = Some (utf8 v)"
    using I hd c by simp_all
  obtain p where p: "head_path_from_branch C k br (tick C w) = (Inr (Some p), tick C w)" "p \<noteq> []"
      "resolve (tick C w) p = base_of C w @ [k, br, h]"
      "nodes w (base_of C w @ [k, br, h, fc_generic C]) = Some (File (utf8 v))"
    using head_path_run [OF I'(1) C n I'(2,3)] by auto
  have g: "plain_name (fc_generic C)" using C by (simp add: fs_config_ok_def)
  have "read_str (path_join p (fc_generic C)) (tick C w) = (Inr v, tick C w)"
    using p g cr by (intro read_str_ok) simp_all
  then show ?thesis
    using p(1) by (simp add: fs_get_def io_then_def io_bind_def log_time_tick get_file_path_def)
qed

lemma fs_get_none:
  assumes "fs_inv C w" and "fs_config_ok C" and "plain_name k" and "plain_name br" and "fs_head_of C w k br = None"
  shows "fs_get C k (Some br) None d w = (Inr None, tick C (tick C w))"
  using head_path_none [of C "tick C w" k br] assms
  by (simp add: fs_get_def io_then_def io_bind_def log_time_tick get_file_path_def)

section \<open>The engine keeps the contract\<close>

definition fs_ok :: "fs_config \<Rightarrow> 'z file_world_scheme \<Rightarrow> bool" where
  "fs_ok C w \<longleftrightarrow> fs_config_ok C \<and> fs_inv C w"

interpretation fs: version_store "fs_store C" "fs_ok C" "fs_contents C" "fs_head_of C" "fs_local C" "fs_stamp C" plain_name
  for C :: fs_config
proof
  fix w :: "'a file_world_scheme" and p b k br h v d
  show "fs_local C w p = Some b \<Longrightarrow> read_bytes p w = (Inr b, w)"
    by (rule read_bytes_ok) (auto simp: fs_local_def split: if_splits)
  assume ok: "fs_ok C w"
  then have I: "fs_inv C w" and C: "fs_config_ok C" by (simp_all add: fs_ok_def)
  show "CHR 0x0D \<notin> set (fs_stamp C w k br b)"
    using C by (intro hex_no_return) (simp add: fs_config_ok_def fs_stamp_def)
  show "fs_head_of C w k br = Some h \<Longrightarrow> \<exists>b. fs_contents C w k h = Some b"
  proof -
    assume "fs_head_of C w k br = Some h"
    then have "is_hversion h" "nodes w (base_of C w @ [k, br, h]) \<noteq> None"
      using fs_invD(14) [OF I, of k br h] by (simp_all add: fs_head_of_def)
    with fs_invD(12) [OF I] obtain b where "nodes w (base_of C w @ [k, br, h, fc_generic C]) = Some (File b)" by blast
    with \<open>is_hversion h\<close> have "fs_contents C w k h = Some b" using fs_contents_iff [OF I] by blast
    then show ?thesis ..
  qed
  assume k: "plain_name k"
  show "fs_contents C w k h = Some b \<Longrightarrow>
      \<exists>w' p. ps_get (fs_store C) k None (Some h) FILE w = (Inr (Some p), w') \<and> fs_ok C w' \<and> fs_contents C w' = fs_contents C w
        \<and> fs_head_of C w' = fs_head_of C w \<and> fs_local C w' p = Some b"
  proof -
    assume c: "fs_contents C w k h = Some b"
    have t: "fs_inv C (tick C w)" "fs_contents C (tick C w) k h = Some b" using I c by simp_all
    from version_path_run [OF t(1) C k t(2)] obtain p br where p: "path_from_hashed_version C k h (tick C w) = (Inr p, tick C w)" "p \<noteq> []"
        "resolve w p = base_of C w @ [k, br, h]" "nodes w (base_of C w @ [k, br, h, fc_generic C]) = Some (File b)"
      by auto
    have "get_file_path C k None (Some h) (tick C w) = (Inr (Some p), tick C w)"
      using p(1) by (simp add: get_file_path_def io_bind_def)
    from fs_get_file [OF I C k _ this p(2,3)] p(4) C show ?thesis by (auto simp: fs_store_def fs_ok_def)
  qed
  assume br: "plain_name br"
  show "fs_head_of C w k br = None \<Longrightarrow>
      \<exists>w'. ps_get (fs_store C) k (Some br) None d w = (Inr None, w') \<and> fs_ok C w' \<and> fs_contents C w' = fs_contents C w
        \<and> fs_head_of C w' = fs_head_of C w \<and> fs_local C w' = fs_local C w"
    using fs_get_none [OF I C k br] I C by (simp add: fs_store_def fs_ok_def)
  show "fs_head_of C w k br = Some h \<Longrightarrow> fs_contents C w k h = Some (utf8 v) \<Longrightarrow> CHR 0x0D \<notin> set v \<Longrightarrow>
      \<exists>w'. ps_get (fs_store C) k (Some br) None STRING w = (Inr (Some v), w') \<and> fs_ok C w'
        \<and> fs_contents C w' = fs_contents C w \<and> fs_head_of C w' = fs_head_of C w"
    using fs_get_text [OF I C k br] I C by (simp add: fs_store_def fs_ok_def)
  show "fs_head_of C w k br = Some h \<Longrightarrow> fs_contents C w k h = Some b \<Longrightarrow>
      \<exists>w' p. ps_get (fs_store C) k (Some br) None FILE w = (Inr (Some p), w') \<and> fs_ok C w'
        \<and> fs_contents C w' = fs_contents C w \<and> fs_head_of C w' = fs_head_of C w \<and> fs_local C w' p = Some b"
  proof -
    assume h: "fs_head_of C w k br = Some h" "fs_contents C w k h = Some b"
    have t: "fs_inv C (tick C w)" "fs_head_of C (tick C w) k br = Some h" "fs_contents C (tick C w) k h = Some b"
      using I h by simp_all
    from head_path_run [OF t(1) C k br t(2,3)] obtain p where p: "head_path_from_branch C k br (tick C w) = (Inr (Some p), tick C w)" "p \<noteq> []"
        "resolve w p = base_of C w @ [k, br, h]" "nodes w (base_of C w @ [k, br, h, fc_generic C]) = Some (File b)"
      by auto
    have "get_file_path C k (Some br) None (tick C w) = (Inr (Some p), tick C w)"
      using p(1) by (simp add: get_file_path_def)
    from fs_get_file [OF I C k _ this p(2,3)] p(4) br C show ?thesis by (auto simp: fs_store_def fs_ok_def)
  qed
  show "fs_contents C w k (fs_stamp C w k br (utf8 v)) = None \<Longrightarrow>
      \<exists>w'. ps_put (fs_store C) k br STRING v w
          = (Inr (StorageReturn (VDict [(''Version'', Some (fs_stamp C w k br (utf8 v)))])), w')
        \<and> fs_ok C w' \<and> fs_contents C w' = (fs_contents C w)(k := (fs_contents C w k)(fs_stamp C w k br (utf8 v) \<mapsto> utf8 v))
        \<and> fs_head_of C w' = (fs_head_of C w)(k := (fs_head_of C w k)(br \<mapsto> fs_stamp C w k br (utf8 v)))
        \<and> fs_local C w' = fs_local C w"
    using fs_put_view [OF I C k br, of STRING v "utf8 v"] C by (auto simp: fs_store_def fs_ok_def payload_def)
  show "fs_local C w p = Some b \<Longrightarrow> fs_contents C w k (fs_stamp C w k br b) = None \<Longrightarrow>
      \<exists>w'. ps_put (fs_store C) k br FILE p w = (Inr (StorageReturn (VDict [(''Version'', Some (fs_stamp C w k br b))])), w')
        \<and> fs_ok C w' \<and> fs_contents C w' = (fs_contents C w)(k := (fs_contents C w k)(fs_stamp C w k br b \<mapsto> b))
        \<and> fs_head_of C w' = (fs_head_of C w)(k := (fs_head_of C w k)(br \<mapsto> fs_stamp C w k br b))
        \<and> fs_local C w' = fs_local C w"
    using fs_put_view [OF I C k br, of FILE p b] C
    by (auto simp: fs_store_def fs_ok_def payload_def fs_local_def split: if_splits)
qed

end
