(* ===== verification/StorageProps.thy ===== *)
theory StorageProps
  imports FsStoreProps
begin

text \<open>
  The theorems on the file system engine and on the logical storages over it, with a concrete store
  at which they are applied.
\<close>

section \<open>Names that make paths\<close>

definition no_slash :: "string \<Rightarrow> bool" where
  "no_slash s \<longleftrightarrow> CHR ''/'' \<notin> set s"

definition storable :: "string \<Rightarrow> meta_key \<Rightarrow> bool" where
  "storable pre key \<longleftrightarrow> no_colon pre \<and> wf_key key \<and> no_slash pre \<and> no_slash (component_type key)
     \<and> no_slash (component_name key) \<and> plain_name (key_branch key)"

lemma no_slash_int_str: "0 \<le> i \<Longrightarrow> CHR ''/'' \<notin> set (int_str i)"
  using int_str_digits [of i] by (auto simp: is_digit_def)

lemma colon_plain: "CHR '':'' \<in> set s \<Longrightarrow> no_slash s \<Longrightarrow> plain_name s"
  by (auto simp: plain_name_def no_slash_def)

lemma storable_plain:
  assumes "storable pre key"
  shows "plain_name (form_entity_key pre key)" and "plain_name (form_version_key pre key)" and "plain_name (key_branch key)"
proof -
  have v: "0 \<le> api_version (component_version key)" "0 \<le> inc_version (component_version key)"
    using assms by (simp_all add: storable_def wf_key_def wf_version_def)
  have s: "no_slash pre" "no_slash (component_type key)" "no_slash (component_name key)" "no_slash (key_branch key)"
    using assms by (simp_all add: storable_def plain_name_def no_slash_def)
  have "no_slash (version_str (component_version key))"
    using s(4) v no_slash_int_str by (auto simp: version_str_def no_slash_def)
  then have "no_slash (form_entity_key pre key)" "no_slash (form_version_key pre key)"
    using s by (auto simp: form_entity_key_def form_version_key_def to_string_def no_slash_def COL_ENTITY_def COL_VERSION_def)
  then show "plain_name (form_entity_key pre key)" "plain_name (form_version_key pre key)"
    by (auto intro!: colon_plain simp: form_entity_key_def form_version_key_def)
  show "plain_name (key_branch key)" using assms by (simp add: storable_def)
qed

section \<open>A concrete store\<close>

definition toy_digest :: "string \<Rightarrow> string" where
  "toy_digest x = replicate 62 (CHR ''0'')
     @ [digit_char (length x mod 10), digit_char (sum_list (map (\<lambda>c. of_char c) x) mod 10)]"

definition toy_config :: fs_config where
  "toy_config = \<lparr>fc_chunk = 4, fc_generic = ''VALUE'', fc_base = ''/s/SecCask'', fc_log = False, fc_temp = ''/t'',
     fc_component_key = [], fc_sha256 = toy_digest\<rparr>"

text \<open>The client's file is \<open>/d\<close>.\<close>

definition toy_at :: "string \<Rightarrow> file_world" where
  "toy_at c = \<lparr>fw_cwd = ''/w'', fw_files = [([''s''], Dir), ([''s'', ''SecCask''], Dir), ([''t''], Dir), ([''d''], File c)],
     fw_time = (\<lambda>n. ''1.'' @ replicate n (CHR ''5'')), fw_clock = 0\<rparr>"

definition toy_world :: file_world where
  "toy_world = toy_at ''model v0''"

lemma toy_digest_hex: "is_hversion (toy_digest x)"
proof -
  have "is_hex (digit_char d)" if "d < 10" for d
    using that by (simp add: is_hex_def of_char_digit_char Let_def)
  moreover have "is_hex CHR ''0''" by (simp add: is_hex_def)
  ultimately show ?thesis by (auto simp: is_hversion_def toy_digest_def)
qed

lemma toy_config_ok: "fs_config_ok toy_config"
proof -
  have "\<not> is_hversion (fc_generic toy_config)" by (simp add: is_hversion_def toy_config_def)
  moreover have "\<forall>x. is_hversion (fc_sha256 toy_config x)" by (simp add: toy_config_def toy_digest_hex)
  ultimately show ?thesis
    unfolding fs_config_ok_def by (simp add: toy_config_def plain_name_def HEAD_FILE_NAME_def PARENTS_FILE_NAME_def)
qed

lemma toy_at_paths:
  "base_of toy_config (toy_at c) = [''s'', ''SecCask'']" "temp_of toy_config (toy_at c) = [''t'']"
proof -
  have "base_of toy_config (toy_at []) = [''s'', ''SecCask'']" "temp_of toy_config (toy_at []) = [''t'']"
    by code_simp+
  then show "base_of toy_config (toy_at c) = [''s'', ''SecCask'']" "temp_of toy_config (toy_at c) = [''t'']"
    by (simp_all add: base_of_def temp_of_def resolve_def toy_at_def)
qed

lemma toy_at_nodes:
  "nodes (toy_at c) p = (if p \<in> {[], [''s''], [''s'', ''SecCask''], [''t'']} then Some Dir
     else if p = [''d''] then Some (File c) else None)"
  by (auto simp: nodes_def fs_node_def toy_at_def od_get_def)

lemma toy_at_inv: "fs_inv toy_config (toy_at c)"
proof (rule fs_invI, unfold toy_at_paths toy_at_nodes)
  show "fs_wf (toy_at c)"
  proof (rule fs_wfI)
    show "nodes (toy_at c) p = Some Dir" if "nodes (toy_at c) (p @ [x]) \<noteq> None" for p x
      using that by (cases p) (auto simp: toy_at_nodes Cons_eq_append_conv append_eq_Cons_conv split: if_splits)
  qed (simp_all add: toy_at_def od_keys_def starts_with_def)
  show "CHR ''/'' \<notin> set (fw_time (toy_at c) n)" for n by (simp add: toy_at_def)
qed (auto simp: is_prefix_def)

lemma toy_at_ok: "fs_ok toy_config (toy_at c)"
  by (simp add: fs_ok_def toy_config_ok toy_at_inv)

lemma toy_at_empty: "fs_contents toy_config (toy_at c) k h = None"
proof (cases "is_hversion h")
  case True
  have "fs_contents toy_config (toy_at c) k h = None
      \<longleftrightarrow> (\<forall>b. nodes (toy_at c) (base_of toy_config (toy_at c) @ [k, b, h]) = None)"
    by (rule fs_contents_None [OF toy_at_inv True])
  then show ?thesis by (simp add: toy_at_paths toy_at_nodes)
qed (simp add: fs_contents_def)

lemma toy_at_local: "fs_local toy_config (toy_at c) ''/d'' = Some c"
proof -
  have "resolve (toy_at []) ''/d'' = [''d'']" by code_simp
  then have "resolve (toy_at c) ''/d'' = [''d'']" by (simp add: resolve_def toy_at_def)
  then show ?thesis by (simp add: fs_local_def toy_at_paths toy_at_nodes is_prefix_def)
qed

lemmas toy_paths = toy_at_paths [of "''model v0''", folded toy_world_def]
lemmas toy_nodes = toy_at_nodes [of "''model v0''", folded toy_world_def]
lemmas toy_inv = toy_at_inv [of "''model v0''", folded toy_world_def]
lemmas toy_ok = toy_at_ok [of "''model v0''", folded toy_world_def]
lemmas toy_empty = toy_at_empty [of "''model v0''", folded toy_world_def]
lemmas toy_local = toy_at_local [of "''model v0''", folded toy_world_def]

section \<open>Theorems\<close>

definition fs_lookup :: "fs_config \<Rightarrow> 'z file_world_scheme \<Rightarrow> string \<Rightarrow> meta_key \<Rightarrow> string option" where
  "fs_lookup C w pre key = semantic_lookup (fs_contents C) (fs_head_of C) w pre key"

text \<open>
  C17 (roundtrip). A file put under a key into a semantic storage over the file system engine is what
  \<open>get_semantic_version\<close> returns for the key afterwards, byte for byte, and what was stored under every other
  key is unchanged, as long as the two hashes the put computes are not versions already.
\<close>
theorem fs_put_get:
  assumes "fs_ok C w" and "storable pre key" and "fs_local C w path = Some b"
    and "fs_contents C w (form_entity_key pre key) (fs_stamp C w (form_entity_key pre key) (key_branch key) b) = None"
    and "file_put (fs_store C) (form_entity_key pre key) (key_branch key) path w = (Inr h, w1)"
    and "fs_contents C w1 (form_version_key pre key) (fs_stamp C w1 (form_version_key pre key) (key_branch key) (utf8 h)) = None"
  shows "\<exists>w2 p w3. semantic_put (fs_store C) pre key path w = (Inr (), w2)
    \<and> semantic_get_version (fs_store C) pre key w2 = (Inr p, w3) \<and> read_bytes p w3 = (Inr b, w3) \<and> fs_ok C w3
    \<and> (\<forall>pre' key'. no_colon pre' \<and> wf_key key' \<and> (pre', key') \<noteq> (pre, key) \<and> fs_lookup C w pre' key' \<noteq> None
         \<longrightarrow> fs_lookup C w3 pre' key' = fs_lookup C w pre' key')"
proof -
  note n = storable_plain [OF assms(2)]
  have k: "no_colon pre" "wf_key key" using assms(2) by (simp_all add: storable_def)
  show ?thesis using fs.semantic_put_get [OF assms(1) k n assms(3-6)] unfolding fs_lookup_def .
qed

text \<open>
  C19 (refinement). \<open>put\<close> of the file system engine implements the abstract store: it returns the hash as the new
  version, adds exactly this version to the key and moves exactly this branch's head to it; every other version
  and head, and the client's own files, stay as they were.
\<close>
theorem fs_put_refines:
  assumes "fs_inv C w" and "fs_config_ok C" and "plain_name k" and "plain_name br" and "payload dtype v w = Some b"
    and "dtype = FILE \<Longrightarrow> \<not> is_prefix (base_of C w) (resolve w v)"
    and "fs_contents C w k (fs_stamp C w k br b) = None"
  shows "\<exists>w'. fs_put C k br dtype v w = (Inr (StorageReturn (VDict [(''Version'', Some (fs_stamp C w k br b))])), w')
    \<and> fs_inv C w' \<and> fs_contents C w' = (fs_contents C w)(k := (fs_contents C w k)(fs_stamp C w k br b \<mapsto> b))
    \<and> fs_head_of C w' = (fs_head_of C w)(k := (fs_head_of C w k)(br \<mapsto> fs_stamp C w k br b))
    \<and> fs_local C w' = fs_local C w"
  by (rule fs_put_view [OF assms])

text \<open>A storage in which nothing was put.\<close>

definition the_key :: meta_key where
  "the_key = mk_key ''library'' ''hmm'' (mk_version ''master'' 0 3)"

lemma the_key_storable: "storable ''LibraryStorage'' the_key"
  by code_simp

lemma fs_put_get_witness:
  "\<exists>w2 p w3. semantic_put (fs_store toy_config) ''LibraryStorage'' the_key ''/d'' toy_world = (Inr (), w2)
    \<and> semantic_get_version (fs_store toy_config) ''LibraryStorage'' the_key w2 = (Inr p, w3)
    \<and> read_bytes p w3 = (Inr ''model v0'', w3)"
proof -
  let ?E = "form_entity_key ''LibraryStorage'' the_key" and ?V = "form_version_key ''LibraryStorage'' the_key"
  have ne: "?V \<noteq> ?E" by code_simp
  obtain w1 where w1: "file_put (fs_store toy_config) ?E (key_branch the_key) ''/d'' toy_world
      = (Inr (fs_stamp toy_config toy_world ?E (key_branch the_key) ''model v0''), w1)"
      "fs_contents toy_config w1 = (fs_contents toy_config toy_world)(?E := (fs_contents toy_config toy_world ?E)
         (fs_stamp toy_config toy_world ?E (key_branch the_key) ''model v0'' \<mapsto> ''model v0''))"
    using fs.file_put_ok [OF toy_ok storable_plain(1,3) [OF the_key_storable] toy_local toy_empty] by blast
  have "fs_contents toy_config w1 ?V h = None" for h using ne w1(2) toy_empty by simp
  from fs_put_get [OF toy_ok the_key_storable toy_local toy_empty w1(1) this] show ?thesis by blast
qed

lemma fs_put_refines_witness:
  "\<exists>w' h. fs_put toy_config ''k'' ''master'' STRING ''text'' toy_world = (Inr (StorageReturn (VDict [(''Version'', Some h)])), w')
    \<and> fs_contents toy_config w' ''k'' h = Some ''text'' \<and> fs_head_of toy_config w' ''k'' ''master'' = Some h"
proof -
  have p: "payload STRING ''text'' toy_world = Some ''text''" by code_simp
  have n: "plain_name ''k''" "plain_name ''master''" by code_simp+
  have no: "STRING = FILE \<Longrightarrow> \<not> is_prefix (base_of toy_config toy_world) (resolve toy_world ''text'')" by simp
  from fs_put_refines [OF toy_inv toy_config_ok n p no toy_empty] show ?thesis by auto
qed

text \<open>
  What the file system engine cannot do surfaces as exceptions of the logical storages: lists of keys and
  branches and parents of versions end in \<open>AttributeError\<close>, because the engine returns plain lists and pairs where the
  interface asks for a reply, and branching ends in \<open>NotImplementedError\<close>.
\<close>
theorem fs_unsupported:
  assumes "fs_ok C w" and "plain_name k" and "plain_name br" and "nodes w (base_of C w @ [k]) = Some Dir"
    and "fs_head_of C w k br = Some h" and "fs_contents C w k h = Some b"
  shows "fst (storage_list_of_branches (fs_store C) k w) = Inl AttributeError
    \<and> fst (storage_list_with_prefix (fs_store C) pre w) = Inl AttributeError
    \<and> fst (parents_by_branch_head (fs_store C) k br w) = Inl AttributeError
    \<and> fst (storage_branch (fs_store C) k new from_branch from_version w) = Inl NotImplementedError"
proof -
  have I: "fs_inv C w" and C: "fs_config_ok C" using assms(1) by (simp_all add: fs_ok_def)
  note inv = fs_invD [OF I]
  have base: "fc_base C \<noteq> []" using C by (simp add: fs_config_ok_def)
  have key: "resolve w (abspath (fw_cwd w) (path_join (fc_base C) k)) = base_of C w @ [k]"
    using resolve_abspath [OF inv(1)] assms(2) base by (simp add: base_of_def)
  have a: "fst (storage_list_of_branches (fs_store C) k w) = Inl AttributeError"
    using key assms(4)
    by (simp add: storage_list_of_branches_def io_reply_def fs_store_def fs_list_branch_def io_bind_def scandir_def
        node_at_nodes Let_def)
  have b: "fst (storage_list_with_prefix (fs_store C) pre w) = Inl AttributeError"
    using inv(3) base
    by (simp add: storage_list_with_prefix_def io_reply_def fs_store_def fs_list_key_def io_bind_def scandir_def
        node_at_nodes base_of_def [symmetric])
  have t: "fs_inv C (tick C w)" "fs_head_of C (tick C w) k br = Some h" "fs_contents C (tick C w) k h = Some b"
    using I assms(5,6) by simp_all
  obtain p where "head_path_from_branch C k br (tick C w) = (Inr (Some p), tick C w)"
    using head_path_run [OF t(1) C assms(2,3) t(2,3)] by blast
  then have c: "fst (parents_by_branch_head (fs_store C) k br w) = Inl AttributeError"
    by (simp add: parents_by_branch_head_def io_reply_def fs_store_def fs_meta_def io_then_def io_bind_def log_time_tick
        get_file_path_def)
  have d: "fst (storage_branch (fs_store C) k new from_branch from_version w) = Inl NotImplementedError"
    by (simp add: storage_branch_def fs_store_def fs_branch_def)
  from a b c d show ?thesis by simp
qed

lemma fs_unsupported_witness:
  "\<exists>w :: file_world. fst (storage_list_of_branches (fs_store toy_config) ''k'' w) = Inl AttributeError
    \<and> fst (storage_branch (fs_store toy_config) ''k'' ''dev'' (Some ''master'') None w) = Inl NotImplementedError"
proof -
  have p: "payload STRING ''text'' toy_world = Some ''text''" by code_simp
  have n: "plain_name ''k''" "plain_name ''master''" by code_simp+
  obtain w' par where w': "fw_cwd w' = fw_cwd toy_world" "nodes w' = after_put (base_of toy_config toy_world) ''k'' ''master''
      (fc_generic toy_config) (fs_stamp toy_config toy_world ''k'' ''master'' ''text'') ''text'' par (nodes toy_world)"
      "fs_put toy_config ''k'' ''master'' STRING ''text'' toy_world
        = (Inr (StorageReturn (VDict [(''Version'', Some (fs_stamp toy_config toy_world ''k'' ''master'' ''text''))])), w')"
    using fs_put_run [OF toy_inv toy_config_ok n p _ toy_empty] by blast
  from fs_put_view [OF toy_inv toy_config_ok n p _ toy_empty] w'(3)
  have v: "fs_inv toy_config w'" "fs_contents toy_config w' = (fs_contents toy_config toy_world)(''k'' :=
        (fs_contents toy_config toy_world ''k'')(fs_stamp toy_config toy_world ''k'' ''master'' ''text'' \<mapsto> ''text''))"
      "fs_head_of toy_config w' = (fs_head_of toy_config toy_world)(''k'' :=
        (fs_head_of toy_config toy_world ''k'')(''master'' \<mapsto> fs_stamp toy_config toy_world ''k'' ''master'' ''text''))"
    by auto
  have nd: "nodes w' (base_of toy_config w' @ [''k'']) = Some Dir"
    using same_cwd(2) [OF w'(1)] by (simp add: w'(2) after_put_def after_commit_def)
  have ok: "fs_ok toy_config w'" using v(1) toy_config_ok by (simp add: fs_ok_def)
  have at: "fs_head_of toy_config w' ''k'' ''master'' = Some (fs_stamp toy_config toy_world ''k'' ''master'' ''text'')"
    "fs_contents toy_config w' ''k'' (fs_stamp toy_config toy_world ''k'' ''master'' ''text'') = Some ''text''"
    by (simp_all add: v)
  show ?thesis
    using fs_unsupported [OF ok n nd at, of "[]" "''dev''" "Some ''master''" None] by (intro exI [of _ w']) blast
qed

text \<open>
  A version that the key does not have is not reported as \<open>KeyError\<close>, as \<open>StringStorage.get_version\<close> says: the engine
  looks for a file of the generic name in the working directory, and ends in \<open>FileNotFoundError\<close> when there is none.
\<close>
theorem fs_unknown_version:
  assumes "fs_ok C w" and "plain_name k" and "nodes w (base_of C w @ [k]) = Some Dir" and "is_hversion h"
    and "fs_contents C w k h = None" and "nodes w (resolve w (fc_generic C)) = None"
  shows "fst (string_get_version (fs_store C) k h w) = Inl FileNotFoundError"
proof -
  have I: "fs_inv C w" and C: "fs_config_ok C" using assms(1) by (simp_all add: fs_ok_def)
  note inv = fs_invD [OF I]
  have base: "fc_base C \<noteq> []" using C by (simp add: fs_config_ok_def)
  define kd where "kd = abspath (fw_cwd w) (path_join (fc_base C) k)"
  have kd: "resolve w kd = base_of C w @ [k]" "kd \<noteq> []" "starts_with ''/'' kd"
    using resolve_abspath [OF inv(1)] assms(2) base abspath_absolute [OF fs_wf_fields(2) [OF inv(1)]]
    by (simp_all add: base_of_def kd_def)
  let ?E = "filter snd (dir_entries (fw_files w) (base_of C w @ [k]))"
  have none: "nodes w (base_of C w @ [k, n, h]) = None" for n
    using fs_contents_None [OF I assms(4)] assms(5) by simp
  have "\<not> path_exists (path_join (path_join (path_join (fc_base C) k) (path_join kd n)) h) (tick C w)"
    if "(n, d) \<in> set ?E" for n d
  proof -
    have n: "plain_name n" using that dir_entries_iff [OF inv(1)] inv(15) [of k n] by fastforce
    have "starts_with ''/'' (path_join kd n)" using starts_with_join [OF kd(2) plain_no_slash [OF n]] kd(3) by simp
    then show ?thesis
      using n kd none hex_plain [OF assms(4)]
      by (simp add: path_exists_def node_at_nodes path_join_def [of _ "path_join kd n"])
  qed
  then have "find (\<lambda>br. path_exists (path_join (path_join (path_join (fc_base C) k) br) h) (tick C w))
      (map (\<lambda>(n, _). path_join kd n) ?E) = None"
    by (auto simp: find_None_iff)
  then have path: "path_from_hashed_version C k h (tick C w) = (Inr [], tick C w)"
    using kd assms(3)
    by (simp add: path_from_hashed_version_def fs_list_branch_def io_bind_def scandir_def node_at_nodes kd_def [symmetric] Let_def
        tick_def)
  have "path_join [] (fc_generic C) = fc_generic C" by (simp add: path_join_def)
  with path assms(6) show ?thesis
    by (simp add: string_get_version_def fs_store_def fs_get_def io_then_def io_bind_def log_time_tick get_file_path_def
        read_str_def read_bytes_absent)
qed

lemma fs_unknown_version_witness:
  "\<exists>w :: file_world. fst (string_get_version (fs_store toy_config) ''k'' (replicate 64 CHR ''a'') w) = Inl FileNotFoundError"
proof -
  define w where "w = toy_world\<lparr>fw_files := od_set [''s'', ''SecCask'', ''k''] Dir (fw_files toy_world)\<rparr>"
  have w: "w = set_node [''s'', ''SecCask'', ''k''] Dir toy_world" by (simp add: w_def set_node_def)
  have c: "base_of toy_config w = [''s'', ''SecCask'']" "temp_of toy_config w = [''t'']"
    using toy_paths by (simp_all add: w base_of_def temp_of_def)
  have I: "fs_inv toy_config w"
  proof (rule fs_invI, unfold c)
    show "fs_wf w" unfolding w using fs_invD(1) [OF toy_inv] by (rule fs_wf_set) (simp_all add: toy_nodes)
    show "CHR ''/'' \<notin> set (fw_time w n)" for n using fs_invD(2) [OF toy_inv] by (simp add: w)
  qed (auto simp: w toy_nodes is_prefix_def split: if_splits)
  have h: "is_hversion (replicate 64 CHR ''a'')" by (simp add: is_hversion_def is_hex_def)
  have "fs_contents toy_config w ''k'' (replicate 64 CHR ''a'') = None"
    using fs_contents_None [OF I h] unfolding c by (simp add: w toy_nodes)
  moreover have "nodes w (resolve w (fc_generic toy_config)) = None"
  proof -
    have "resolve toy_world (fc_generic toy_config) = [''w'', ''VALUE'']" by code_simp
    then show ?thesis by (simp add: w toy_nodes)
  qed
  moreover have "plain_name ''k''" by code_simp
  moreover have "nodes w (base_of toy_config w @ [''k'']) = Some Dir" unfolding c by (simp add: w)
  ultimately show ?thesis
    using fs_unknown_version [of toy_config w "''k''" "replicate 64 CHR ''a''"] I h toy_config_ok by (auto simp: fs_ok_def)
qed

end
