(* ===== verification/ManagersProps.thy ===== *)
theory ManagersProps
  imports Managers StorageProps
begin

text \<open>
  The managers over any storage that keeps the contract of \<open>version_store\<close>, and the theorems over the file
  system engine: configurations come back as they were put, a library gets the next version of its branch, a
  solution or the first workspace of a branch cannot be created, and the schema of a dataset is that of its columns in any order.
\<close>

section \<open>Configurations in a storage\<close>

lemma parse_path_ok:
  assumes "read_bytes p w = (Inr (utf8 (ini_write cp)), w)" and "clean_config cp"
  shows "parse_path p w = (Inr cp, w)"
proof -
  have "read_str p w = (Inr (ini_write cp), w)"
    using assms ini_write_no_return by (simp add: read_str_def io_bind_def universal_newlines_id)
  then show ?thesis using ini_read_write_clean [OF assms(2)] by (simp add: parse_path_def)
qed

context version_store begin

lemma meta_get_branch_head_ok:
  assumes "inv w" and "good (form_entity_key META_STORAGE key)" and "good (key_branch key)"
    and "head_of w (form_entity_key META_STORAGE key) (key_branch key) = Some h"
    and "contents w (form_entity_key META_STORAGE key) h = Some (utf8 (ini_write cp))" and "clean_config cp"
  shows "\<exists>w'. meta_get_branch_head P key w = (Inr cp, w') \<and> inv w' \<and> contents w' = contents w \<and> head_of w' = head_of w"
  using semantic_get_branch_head_ok [OF assms(1-5)] parse_path_ok [OF _ assms(6)]
  by (fastforce simp: meta_get_branch_head_def io_bind_def)

lemma meta_get_branch_head_missing:
  assumes "inv w" and "good (form_entity_key META_STORAGE key)" and "good (key_branch key)"
    and "head_of w (form_entity_key META_STORAGE key) (key_branch key) = None"
  shows "\<exists>w'. meta_get_branch_head P key w = (Inl KeyError, w') \<and> inv w' \<and> contents w' = contents w \<and> head_of w' = head_of w"
  using semantic_get_branch_head_missing [OF assms] by (auto simp: meta_get_branch_head_def io_bind_def)

lemma meta_get_semantic_version_ok:
  assumes "inv w" and "good (form_entity_key META_STORAGE key)" and "good (form_version_key META_STORAGE key)" and "good (key_branch key)"
    and "semantic_lookup contents head_of w META_STORAGE key = Some (utf8 (ini_write cp))" and "clean_config cp"
  shows "\<exists>w'. meta_get_semantic_version P key w = (Inr cp, w') \<and> inv w' \<and> contents w' = contents w \<and> head_of w' = head_of w"
  using semantic_get_version_ok [OF assms(1-5)] parse_path_ok [OF _ assms(6)]
  by (fastforce simp: meta_get_semantic_version_def io_bind_def)

lemma library_proposed_version_ok:
  assumes "inv w" and "good (form_entity_key META_STORAGE key)" and "good (key_branch key)"
    and "head_of w (form_entity_key META_STORAGE key) (key_branch key) = Some h"
    and "contents w (form_entity_key META_STORAGE key) h = Some (utf8 (ini_write cp))" and "clean_config cp"
    and "meta_init cp = Inr cp" and "meta_version cp = Inr v" and "api_updated m = Inr u"
  shows "\<exists>w'. library_proposed_version P m key w = (Inr (next_library_version (key_branch key) u v), w')
    \<and> inv w' \<and> contents w' = contents w \<and> head_of w' = head_of w"
  using meta_get_branch_head_ok [OF assms(1-6)] assms(7-9)
  by (auto simp: library_proposed_version_def io_try_def io_bind_def wrap_meta_def)

lemma library_proposed_version_new:
  assumes "inv w" and "good (form_entity_key META_STORAGE key)" and "good (key_branch key)"
    and "head_of w (form_entity_key META_STORAGE key) (key_branch key) = None"
  shows "\<exists>w'. library_proposed_version P m key w = (Inr (mk_version (key_branch key) 0 0), w')
    \<and> inv w' \<and> contents w' = contents w \<and> head_of w' = head_of w"
  using meta_get_branch_head_missing [OF assms]
  by (auto simp: library_proposed_version_def io_try_def io_bind_def)

end

section \<open>Theorems on the file system engine\<close>

definition config_file :: "icp \<Rightarrow> string" where
  "config_file cp = utf8 (ini_write cp)"

text \<open>What the head of a branch holds.\<close>

definition head_content :: "fs_config \<Rightarrow> 'z file_world_scheme \<Rightarrow> meta_key \<Rightarrow> string option" where
  "head_content C w key =
     (case fs_head_of C w (form_entity_key META_STORAGE key) (key_branch key) of
        None \<Rightarrow> None
      | Some h \<Rightarrow> fs_contents C w (form_entity_key META_STORAGE key) h)"

text \<open>
  C25 (functional). The version a library is committed with: 0.0 on a branch without a head; otherwise the successor of the version
  in the configuration at the head, with the API version raised and the increment reset exactly when the manifest says that
  the API was updated.
\<close>
theorem library_next_version:
  assumes "fs_ok C w" and "storable META_STORAGE key" and "head_content C w key = map_option (\<lambda>x. config_file (fst x)) at_head"
    and "\<And>cp v. at_head = Some (cp, v) \<Longrightarrow> clean_config cp \<and> meta_init cp = Inr cp \<and> meta_version cp = Inr v"
    and "api_updated m = Inr u"
  shows "\<exists>w'. library_proposed_version (fs_store C) m key w =
      (Inr (case at_head of
              None \<Rightarrow> mk_version (key_branch key) 0 0
            | Some (cp, v) \<Rightarrow> mk_version (key_branch key) (if u then api_version v + 1 else api_version v) (if u then 0 else inc_version v + 1)), w')
    \<and> fs_ok C w'"
proof -
  note n = storable_plain(1,3) [OF assms(2)]
  show ?thesis
  proof (cases at_head)
    case None
    have "fs_head_of C w (form_entity_key META_STORAGE key) (key_branch key) = None"
    proof (rule ccontr)
      assume "fs_head_of C w (form_entity_key META_STORAGE key) (key_branch key) \<noteq> None"
      then obtain h where h: "fs_head_of C w (form_entity_key META_STORAGE key) (key_branch key) = Some h" by blast
      from fs.head_contents [OF assms(1) h] show False using assms(3) None h by (auto simp: head_content_def)
    qed
    from fs.library_proposed_version_new [OF assms(1) n this, of m] None show ?thesis by auto
  next
    case (Some cv)
    obtain cp v where cv: "cv = (cp, v)" by fastforce
    with Some assms(3) obtain h where h: "fs_head_of C w (form_entity_key META_STORAGE key) (key_branch key) = Some h"
        "fs_contents C w (form_entity_key META_STORAGE key) h = Some (utf8 (ini_write cp))"
      by (auto simp: head_content_def config_file_def split: option.splits)
    have c: "clean_config cp" "meta_init cp = Inr cp" "meta_version cp = Inr v" using assms(4) Some cv by auto
    from fs.library_proposed_version_ok [OF assms(1) n h c assms(5)] Some cv show ?thesis
      by (auto simp: next_library_version_def)
  qed
qed

text \<open>
  C26 (roundtrip). A configuration that is written to a local file and put under a key into \<open>MetaStorage\<close> over the file system engine is
  what \<open>get_semantic_version\<close> parses back, and the configurations under all other keys are still found.
\<close>
theorem meta_put_get:
  assumes "fs_ok C w" and "storable META_STORAGE key" and "clean_config cp" and "fs_local C w path = Some (config_file cp)"
    and "fs_contents C w (form_entity_key META_STORAGE key) (fs_stamp C w (form_entity_key META_STORAGE key) (key_branch key) (config_file cp)) = None"
    and "file_put (fs_store C) (form_entity_key META_STORAGE key) (key_branch key) path w = (Inr h, w1)"
    and "fs_contents C w1 (form_version_key META_STORAGE key) (fs_stamp C w1 (form_version_key META_STORAGE key) (key_branch key) (utf8 h)) = None"
  shows "\<exists>w2 w3. meta_put (fs_store C) key path w = (Inr (), w2) \<and> meta_get_semantic_version (fs_store C) key w2 = (Inr cp, w3)
    \<and> (\<forall>key' cp'. wf_key key' \<and> key' \<noteq> key \<and> storable META_STORAGE key' \<and> clean_config cp'
         \<and> fs_lookup C w META_STORAGE key' = Some (config_file cp')
         \<longrightarrow> (\<exists>w4. meta_get_semantic_version (fs_store C) key' w2 = (Inr cp', w4)))"
proof -
  note n = storable_plain [OF assms(2)]
  have k: "no_colon META_STORAGE" "wf_key key" using assms(2) by (simp_all add: storable_def)
  obtain w2 where w2: "meta_put (fs_store C) key path w = (Inr (), w2)" "fs_ok C w2"
      "fs_lookup C w2 META_STORAGE key = Some (config_file cp)"
      "\<forall>pre' key'. no_colon pre' \<and> wf_key key' \<and> (pre', key') \<noteq> (META_STORAGE, key) \<and> fs_lookup C w pre' key' \<noteq> None
         \<longrightarrow> fs_lookup C w2 pre' key' = fs_lookup C w pre' key'"
    using fs.semantic_put_lookup [OF assms(1) k n assms(4-7)] unfolding fs_lookup_def by blast
  have get: "\<exists>w4. meta_get_semantic_version (fs_store C) key' w2 = (Inr cp', w4)"
    if "storable META_STORAGE key'" "fs_lookup C w2 META_STORAGE key' = Some (config_file cp')" "clean_config cp'" for key' cp'
    using fs.meta_get_semantic_version_ok [OF w2(2) storable_plain [OF that(1)], of cp'] that(2,3)
    unfolding fs_lookup_def config_file_def by blast
  have "\<exists>w4. meta_get_semantic_version (fs_store C) key' w2 = (Inr cp', w4)"
    if a: "wf_key key'" "key' \<noteq> key" "storable META_STORAGE key'" "clean_config cp'"
      "fs_lookup C w META_STORAGE key' = Some (config_file cp')" for key' cp'
  proof (rule get [OF a(3) _ a(4)])
    show "fs_lookup C w2 META_STORAGE key' = Some (config_file cp')"
      using w2(4) [rule_format, of META_STORAGE key'] a k(1) by simp
  qed
  with get [OF assms(2) w2(3) assms(3)] w2(1) show ?thesis by blast
qed

text \<open>
  No workspace can ever be created on a branch that has none yet: \<open>create\<close> expects \<open>None\<close> for a missing head, but
  \<open>get_branch_head\<close> raises \<open>KeyError\<close>, which nobody handles. Nothing is stored.
\<close>
theorem workspace_create_fails_first:
  assumes "fs_ok C w" and "storable META_STORAGE (mk_key GENERIC_WORKSPACE_KEY name (mk_version br 0 0))"
    and "head_content C w (mk_key GENERIC_WORKSPACE_KEY name (mk_version br 0 0)) = None"
    and "new_workspace_meta name datasets paths description (fw_time w (fw_clock w)) pipeline = Inr m"
  shows "\<exists>w'. workspace_create (fs_store C) temp name br datasets paths description pipeline w = (Inl KeyError, w')
    \<and> fs_contents C w' = fs_contents C w \<and> fs_head_of C w' = fs_head_of C w"
proof -
  let ?k = "mk_key GENERIC_WORKSPACE_KEY name (mk_version br 0 0)"
  let ?w = "w\<lparr>fw_clock := Suc (fw_clock w)\<rparr>"
  note n = storable_plain(1,3) [OF assms(2)]
  have ok: "fs_ok C ?w" using assms(1) by (simp add: fs_ok_def)
  have "fs_head_of C w (form_entity_key META_STORAGE ?k) (key_branch ?k) = None"
  proof (rule ccontr)
    assume "fs_head_of C w (form_entity_key META_STORAGE ?k) (key_branch ?k) \<noteq> None"
    then obtain h where h: "fs_head_of C w (form_entity_key META_STORAGE ?k) (key_branch ?k) = Some h" by blast
    from fs.head_contents [OF assms(1) h] show False using assms(3) h by (auto simp: head_content_def)
  qed
  then have "fs_head_of C ?w (form_entity_key META_STORAGE ?k) (key_branch ?k) = None" by simp
  from fs.meta_get_branch_head_missing [OF ok n this] obtain w' where
    w': "meta_get_branch_head (fs_store C) ?k ?w = (Inl KeyError, w')" "fs_contents C w' = fs_contents C ?w" "fs_head_of C w' = fs_head_of C ?w"
    by blast
  have "workspace_create (fs_store C) temp name br datasets paths description pipeline w = (Inl KeyError, w')"
    using w'(1) assms(4) by (simp add: workspace_create_def io_bind_def time_now_def Let_def)
  with w' show ?thesis by simp
qed

text \<open>
  No solution can ever be created, over any storage: the constructor of its configuration has made the
  section that \<open>init_sections\<close> adds again.
\<close>
theorem solution_create_fails:
  "solution_create P temp name preprocess w = (Inl DuplicateSectionError, w)"
proof -
  obtain m where m: "meta_init cp_empty = Inr m"
    by (simp add: meta_init_def has_section_def cp_empty_def od_simps add_section_def section_defs)
  show ?thesis
    using solution_init_sections_fails [OF m] m by (simp add: solution_create_def wrap_meta_def io_bind_def)
qed

section \<open>The theorems at a concrete store\<close>

definition toy_meta :: icp where
  "toy_meta = \<lparr>cp_sections = [(META_SECTION_ID, [(''type'', ''library''), (''name'', ''hmm''), (''version'', ''master.0.3'')]),
     (META_SECTION_CONFIG, [(''train'', ''train.py''), (''api-version-updated'', ''yes'')])], cp_defaults = []\<rparr>"

lemma toy_meta_facts:
  "clean_config toy_meta" "meta_init toy_meta = Inr toy_meta" "meta_version toy_meta = Inr (mk_version ''master'' 0 3)"
  "api_updated toy_meta = Inr True"
  by code_simp+

lemma toy_meta_key: "storable META_STORAGE the_key"
  by code_simp

abbreviation toy_meta_world :: file_world where
  "toy_meta_world \<equiv> toy_at (config_file toy_meta)"

lemma toy_meta_put:
  "\<exists>h w1. file_put (fs_store toy_config) (form_entity_key META_STORAGE the_key) (key_branch the_key) ''/d'' toy_meta_world = (Inr h, w1)
     \<and> fs_ok toy_config w1 \<and> head_content toy_config w1 the_key = Some (config_file toy_meta)
     \<and> (\<forall>g. fs_contents toy_config w1 (form_version_key META_STORAGE the_key) g = None)"
proof -
  let ?E = "form_entity_key META_STORAGE the_key" and ?V = "form_version_key META_STORAGE the_key"
  have ne: "?V \<noteq> ?E" by code_simp
  obtain h w1 where "file_put (fs_store toy_config) ?E (key_branch the_key) ''/d'' toy_meta_world = (Inr h, w1)" "fs_ok toy_config w1"
      "fs_contents toy_config w1 = (fs_contents toy_config toy_meta_world)(?E := (fs_contents toy_config toy_meta_world ?E)(h \<mapsto> config_file toy_meta))"
      "fs_head_of toy_config w1 = (fs_head_of toy_config toy_meta_world)(?E := (fs_head_of toy_config toy_meta_world ?E)(key_branch the_key \<mapsto> h))"
    using fs.file_put_ok [OF toy_at_ok storable_plain(1,3) [OF toy_meta_key] toy_at_local toy_at_empty] by blast
  with ne show ?thesis by (auto simp: head_content_def toy_at_empty)
qed

lemma library_next_version_witness:
  "\<exists>w w' :: file_world. library_proposed_version (fs_store toy_config) toy_meta the_key w = (Inr (mk_version ''master'' 1 0), w')"
proof -
  obtain w1 :: file_world where w1: "fs_ok toy_config w1" "head_content toy_config w1 the_key = map_option (\<lambda>x. config_file (fst x)) (Some (toy_meta, mk_version ''master'' 0 3))"
    using toy_meta_put by auto
  have v: "clean_config cp \<and> meta_init cp = Inr cp \<and> meta_version cp = Inr v" if "Some (toy_meta, mk_version ''master'' 0 3) = Some (cp, v)" for cp v
    using that toy_meta_facts by auto
  have b: "key_branch the_key = ''master''" by (simp add: the_key_def mk_key_def mk_version_def)
  from library_next_version [OF w1(1) toy_meta_key w1(2) v toy_meta_facts(4)] show ?thesis
    by (auto simp: b mk_version_def)
qed

lemma meta_put_get_witness:
  "\<exists>w2 w3. meta_put (fs_store toy_config) the_key ''/d'' toy_meta_world = (Inr (), w2)
    \<and> meta_get_semantic_version (fs_store toy_config) the_key w2 = (Inr toy_meta, w3)"
proof -
  obtain h w1 where w1: "file_put (fs_store toy_config) (form_entity_key META_STORAGE the_key) (key_branch the_key) ''/d'' toy_meta_world = (Inr h, w1)"
      "\<forall>g. fs_contents toy_config w1 (form_version_key META_STORAGE the_key) g = None"
    using toy_meta_put by blast
  show ?thesis
    using meta_put_get [OF toy_at_ok toy_meta_key toy_meta_facts(1) toy_at_local toy_at_empty w1(1) w1(2) [rule_format]]
    by (elim exE conjE) (intro exI conjI)
qed

lemma workspace_create_fails_first_witness:
  "\<exists>w'. workspace_create (fs_store toy_config) ''/t'' ''w'' ''master'' [] [(''base'', Some ''/b''), (''output'', None), (''temp'', None), (''venv'', None)]
     ''d'' [the_key] toy_world = (Inl KeyError, w')"
proof -
  let ?m = "new_workspace_meta ''w'' [] [(''base'', Some ''/b''), (''output'', None), (''temp'', None), (''venv'', None)] ''d''
    (fw_time toy_world (fw_clock toy_world)) [the_key]"
  have "isl ?m = False" by code_simp
  then obtain m where m: "?m = Inr m" by (cases ?m) auto
  have s: "storable META_STORAGE (mk_key GENERIC_WORKSPACE_KEY ''w'' (mk_version ''master'' 0 0))" by code_simp
  have "head_content toy_config toy_world k = None" for k
    by (simp add: head_content_def toy_empty split: option.splits)
  from workspace_create_fails_first [OF toy_ok s this m] show ?thesis by blast
qed

end
