(* ===== verification/TrialManagerProps.thy ===== *)
theory TrialManagerProps
  imports TrialManager TrialTreeThms ManagersProps
begin

text \<open>
  The trial manager: which components of a pipeline run and with which inputs, that a pipeline with nothing left to
  run cannot be committed, and that merging branches never completes.
\<close>

section \<open>Building the environments\<close>

lemma io_fold_upt:
  assumes "io_fold f [a..<b] s w = (Inr s', w')" and "I a s" and "a \<le> b"
    and "\<And>i s w s' w'. a \<le> i \<Longrightarrow> i < b \<Longrightarrow> I i s \<Longrightarrow> f i s w = (Inr s', w') \<Longrightarrow> I (Suc i) s'"
  shows "I b s'"
  using assms
proof (induction "b - a" arbitrary: a s w)
  case (Suc n)
  then have lt: "a < b" by simp
  then obtain s1 w1 where s1: "f a s w = (Inr s1, w1)" "io_fold f [Suc a..<b] s1 w1 = (Inr s', w')"
    using Suc.prems(1) by (auto simp: upt_conv_Cons io_bind_run)
  have "I (Suc a) s1" using Suc.prems(4) [OF _ lt Suc.prems(2) s1(1)] by simp
  then show ?case using Suc.hyps(1) [of "Suc a" s1 w1] Suc.hyps(2) s1(2) lt Suc.prems(4) by simp
qed simp

definition output_path :: "run_options \<Rightarrow> trial_node \<Rightarrow> string" where
  "output_path options n = path_join (op_output_dir options) (node_text n) @ ''/''"

definition param_of :: "trial_node \<Rightarrow> string \<Rightarrow> json option" where
  "param_of n k = (case tn_params n of JObj kvs \<Rightarrow> od_get kvs k | _ \<Rightarrow> None)"

lemma set_json_item_Inr: "set_json_item k v j = Inr r \<longleftrightarrow> (\<exists>kvs. j = JObj kvs \<and> r = JObj (od_set k v kvs))"
  by (auto simp: set_json_item_def split: json.splits)

lemma transfer_library_run:
  assumes "transfer_library E options inp n w = (Inr (cmd, wd, n', out), w')"
  shows "tn_key n' = tn_key n \<and> out = output_path options n \<and> tn_output n' = JStr out
    \<and> param_of n' ''--input'' = Some (JStr inp) \<and> param_of n' ''--output'' = Some (JStr out)
    \<and> wd = path_join (op_venv_dir options) (node_text n)"
  using assms
  by (auto simp: transfer_library_def io_bind_run io_then_def Let_def set_json_item_Inr output_path_def param_of_def od_simps)

text \<open>The state of the loop before index \<open>i\<close>; \<open>m\<close> is the first component that runs.\<close>

definition built :: "'z trial_env \<Rightarrow> run_options \<Rightarrow> trial_node list \<Rightarrow> nat \<Rightarrow> nat \<Rightarrow> venv_state \<Rightarrow> bool" where
  "built E options ns m i vs \<longleftrightarrow> length (vs_nodes vs) = length ns
     \<and> (if i \<le> m then vs_first vs \<and> vs_exec vs = [] \<and> vs_cmds vs = [] \<and> vs_wds vs = [] \<and> vs_nodes vs = ns
        else \<not> vs_first vs \<and> vs_exec vs = [m..<i] \<and> length (vs_cmds vs) = i - m \<and> length (vs_wds vs) = i - m
          \<and> vs_input vs = output_path options (ns ! (i - 1))
          \<and> (\<forall>j < length ns. tn_key (vs_nodes vs ! j) = tn_key (ns ! j))
          \<and> (\<forall>j < length ns. j < m \<or> i \<le> j \<longrightarrow> vs_nodes vs ! j = ns ! j)
          \<and> (\<forall>j. m \<le> j \<and> j < i \<longrightarrow> tn_output (vs_nodes vs ! j) = JStr (output_path options (ns ! j))
               \<and> vs_wds vs ! (j - m) = path_join (op_venv_dir options) (node_text (ns ! j)))
          \<and> (\<forall>j. m < j \<and> j < i \<longrightarrow> param_of (vs_nodes vs ! j) ''--input'' = Some (JStr (output_path options (ns ! (j - 1))))))"

lemma built_step:
  assumes m: "m = length (takeWhile (skips_node E) ns)" and i: "i < length ns" and b: "built E options ns m i vs"
    and run: "build_node E options i vs w = (Inr vs', w')"
  shows "built E options ns m (Suc i) vs'"
proof (cases "i < m")
  case True
  then have "skips_node E (ns ! i)" unfolding m using set_takeWhileD nth_mem takeWhile_nth by metis
  with True b run show ?thesis by (simp add: built_def build_node_def)
next
  case False
  have go: "\<not> (vs_first vs \<and> skips_node E (vs_nodes vs ! i))"
  proof (cases "i = m")
    case True
    then have "\<not> skips_node E (ns ! i)" using i unfolding m by (metis nth_length_takeWhile)
    with True b show ?thesis by (simp add: built_def)
  next
    case False
    with \<open>\<not> i < m\<close> b show ?thesis by (simp add: built_def)
  qed
  obtain inp w1 cmd wd n' out where
    inp: "(if vs_first vs then first_input E options (if i = 0 then vs_nodes vs ! i else vs_nodes vs ! (i - 1)) else io_return (vs_input vs)) w = (Inr inp, w1)"
    and tr: "transfer_library E options inp (vs_nodes vs ! i) w1 = (Inr (cmd, wd, n', out), w')"
    and vs': "vs' = vs\<lparr>vs_first := False, vs_input := out, vs_cmds := vs_cmds vs @ [cmd], vs_wds := vs_wds vs @ [wd],
               vs_exec := vs_exec vs @ [i], vs_nodes := (vs_nodes vs)[i := n']\<rparr>"
    using run go by (auto simp: build_node_def Let_def io_bind_run)
  have same: "vs_nodes vs ! i = ns ! i" and len: "length (vs_nodes vs) = length ns"
    and keys: "\<forall>j < length ns. tn_key (vs_nodes vs ! j) = tn_key (ns ! j)"
    using b i False by (auto simp: built_def split: if_splits)
  note t = transfer_library_run [OF tr, unfolded same]
  show ?thesis
  proof (cases "i = m")
    case True
    then have e: "vs_exec vs = []" "vs_cmds vs = []" "vs_wds vs = []" "vs_nodes vs = ns" using b by (simp_all add: built_def)
    show ?thesis using t i True e unfolding built_def vs'
      by (auto simp: nth_list_update less_Suc_eq_le dest: le_antisym)
  next
    case ne: False
    then have gt: "m < i" using False by simp
    then have e: "vs_exec vs = [m..<i]" "length (vs_cmds vs) = i - m" "length (vs_wds vs) = i - m" "\<not> vs_first vs"
        "vs_input vs = output_path options (ns ! (i - 1))"
        "\<forall>j < length ns. j < m \<or> i \<le> j \<longrightarrow> vs_nodes vs ! j = ns ! j"
        "\<forall>j. m \<le> j \<and> j < i \<longrightarrow> tn_output (vs_nodes vs ! j) = JStr (output_path options (ns ! j))
               \<and> vs_wds vs ! (j - m) = path_join (op_venv_dir options) (node_text (ns ! j))"
        "\<forall>j. m < j \<and> j < i \<longrightarrow> param_of (vs_nodes vs ! j) ''--input'' = Some (JStr (output_path options (ns ! (j - 1))))"
      using b by (simp_all add: built_def)
    have inp': "inp = output_path options (ns ! (i - 1))" using inp e(4,5) by simp
    have gt': "\<not> Suc i \<le> m" "[m..<Suc i] = [m..<i] @ [i]" "Suc i - m = Suc (i - m)" using gt by simp_all
    have out: "tn_output ((vs_nodes vs)[i := n'] ! j) = JStr (output_path options (ns ! j))
        \<and> (vs_wds vs @ [wd]) ! (j - m) = path_join (op_venv_dir options) (node_text (ns ! j))" if "m \<le> j" "j < Suc i" for j
    proof (cases "j = i")
      case True
      then show ?thesis using t i len e(3) by (simp add: nth_append)
    next
      case False
      then have "j < i" using that by simp
      then show ?thesis using e(3,7) that(1) False diff_less_mono [OF _ that(1), of i] by (simp add: nth_append)
    qed
    have par: "param_of ((vs_nodes vs)[i := n'] ! j) ''--input'' = Some (JStr (output_path options (ns ! (j - 1))))" if "m < j" "j < Suc i" for j
    proof (cases "j = i")
      case True
      then show ?thesis using t i len inp' by simp
    next
      case False
      then show ?thesis using e(8) that by simp
    qed
    have frame: "(vs_nodes vs)[i := n'] ! j = ns ! j" if "j < length ns" "j < m \<or> Suc i \<le> j" for j
      using e(6) that gt by auto
    have keys': "tn_key ((vs_nodes vs)[i := n'] ! j) = tn_key (ns ! j)" if "j < length ns" for j
      using keys t that len by (cases "j = i") auto
    show ?thesis using gt' e(1-3) out par frame keys' t len unfolding built_def vs' by simp
  qed
qed

lemma build_venvs_built:
  assumes "build_venvs E options ns w = (Inr vs, w')"
  shows "built E options ns (length (takeWhile (skips_node E) ns)) (length ns) vs"
proof -
  let ?m = "length (takeWhile (skips_node E) ns)"
  have "built E options ns ?m 0 \<lparr>vs_first = True, vs_input = [], vs_cmds = [], vs_wds = [], vs_exec = [], vs_nodes = ns\<rparr>"
    by (simp add: built_def)
  from io_fold_upt [OF assms [unfolded build_venvs_def], where I = "built E options ns ?m", OF this]
  show ?thesis using built_step [OF refl] by blast
qed

lemma build_venvs_idle:
  assumes "\<forall>n \<in> set ns. skips_node E n"
  shows "build_venvs E options ns w = (Inr \<lparr>vs_first = True, vs_input = [], vs_cmds = [], vs_wds = [], vs_exec = [], vs_nodes = ns\<rparr>, w)"
proof -
  have "io_fold (build_node E options) is vs w = (Inr vs, w)" if "\<forall>i \<in> set is. i < length ns" "vs_first vs" "vs_nodes vs = ns" for "is" vs
    using that assms by (induction "is") (simp_all add: build_node_def io_bind_def)
  then show ?thesis unfolding build_venvs_def by simp
qed

section \<open>Theorems\<close>

text \<open>
  C27 (functional). When the environments of a pipeline are built, the components that run are exactly those from the first
  one that is not skipped to the end, trained or not, each in its own folder; every one of them after the first
  reads as its input what the one before it writes as its output, and the skipped components keep their results.
\<close>
theorem pipeline_runs_suffix:
  assumes "build_venvs E options ns w = (Inr vs, w')"
  shows "vs_exec vs = [length (takeWhile (skips_node E) ns)..<length ns] \<and> length (vs_cmds vs) = length (vs_exec vs)
    \<and> length (vs_wds vs) = length (vs_exec vs) \<and> map tn_key (vs_nodes vs) = map tn_key ns
    \<and> (\<forall>j < length (takeWhile (skips_node E) ns). vs_nodes vs ! j = ns ! j)
    \<and> (\<forall>j. length (takeWhile (skips_node E) ns) < j \<and> j < length ns \<longrightarrow>
         param_of (vs_nodes vs ! j) ''--input'' = Some (tn_output (vs_nodes vs ! (j - 1))))"
proof -
  let ?m = "length (takeWhile (skips_node E) ns)"
  have b: "built E options ns ?m (length ns) vs" by (rule build_venvs_built [OF assms])
  have le: "?m \<le> length ns" by (rule length_takeWhile_le)
  show ?thesis
  proof (cases "?m = length ns")
    case True
    with b show ?thesis by (auto simp: built_def)
  next
    case False
    with le have lt: "\<not> length ns \<le> ?m" by simp
    have keys: "\<forall>j < length ns. tn_key (vs_nodes vs ! j) = tn_key (ns ! j)" "length (vs_nodes vs) = length ns"
      using b lt by (simp_all add: built_def)
    have io: "param_of (vs_nodes vs ! j) ''--input'' = Some (tn_output (vs_nodes vs ! (j - 1)))" if "?m < j" "j < length ns" for j
    proof -
      have "?m \<le> j - 1" "j - 1 < length ns" using that by linarith+
      then show ?thesis using b lt that unfolding built_def by simp
    qed
    have "map tn_key (vs_nodes vs) = map tn_key ns" using keys by (simp add: list_eq_iff_nth_eq)
    then show ?thesis using b lt io unfolding built_def by simp
  qed
qed

text \<open>
  C29 (error). A pipeline all of whose components have been trained cannot be committed again: nothing is built and
  nothing is run, and reading the result of the last component that ran is an \<open>IndexError\<close>. Only the clock moves.
\<close>
theorem trained_pipeline_fails:
  assumes "\<forall>n \<in> set ns. skips_node E n"
  shows "train_node_list E ns options ids w = (Inl IndexError, w\<lparr>fw_clock := fw_clock w + 2\<rparr>)"
  using build_venvs_idle [OF assms]
  by (simp add: train_node_list_def io_bind_def time_now_def read_performance_def io_then_def py_index_last)

section \<open>Merging\<close>

text \<open>Where the training function raises, no path is ever recorded.\<close>

lemma failing_training:
  assumes "\<forall>ns opts w. \<exists>e w'. train ns opts w = (Inl e, w')"
  shows "dfs_train mk train walk t w = (Inr (walk', t', walked, dirs), w') \<Longrightarrow> walked = []"
    and "train_children mk train walk cs w = (Inr (walk', cs', walked, dirs), w') \<Longrightarrow> walked = []"
  using assms
proof (induction mk train walk t and mk train walk cs
    arbitrary: w walk' t' walked dirs w' and w walk' cs' walked dirs w' rule: dfs_train_train_children.induct)
  case (1 mk train walk n cs)
  show ?case
  proof (cases "cs = []")
    case True
    with 1(2) obtain opts w1 nsw w2 where "train walk opts w1 = (Inr nsw, w2)" by (auto simp: io_bind_run)
    moreover obtain e w3 where "train walk opts w1 = (Inl e, w3)" using 1(3) by blast
    ultimately show ?thesis by simp
  next
    case False
    then obtain cs' where "train_children mk train walk cs w = (Inr (walk', cs', walked, dirs), w')"
      using 1(2) by (auto simp: io_bind_run)
    from 1(1) [OF False this 1(3)] show ?thesis .
  qed
next
  case (3 mk train walk m ds cs)
  obtain wk1 t1 wd1 ds1 w1 where a: "(if tn_pruned m then io_return (walk, Rose m ds, [], [])
        else io_bind (dfs_train mk train (walk @ [m]) (Rose m ds)) (\<lambda>(walking', t, walked, dirs).
            io_return (butlast walking', Rose (last walking') (rose_children t), walked, dirs))) w = (Inr (wk1, t1, wd1, ds1), w1)"
    and b: "io_bind (train_children mk train wk1 cs) (\<lambda>(walking'', ts, more, more_dirs).
       io_return (walking'', t1 # ts, wd1 @ more, ds1 @ more_dirs)) w1 = (Inr (walk', cs', walked, dirs), w')"
    using 3(3) by (auto simp: io_bind_run)
  have "wd1 = []"
  proof (cases "tn_pruned m")
    case False
    then obtain wk t where "dfs_train mk train (walk @ [m]) (Rose m ds) w = (Inr (wk, t, wd1, ds1), w1)"
      using a by (auto simp: io_bind_run simp del: dfs_train.simps)
    from 3(1) [OF False this 3(4)] show ?thesis .
  qed (use a in simp)
  moreover obtain ts wd2 ds2 where r: "train_children mk train wk1 cs w1 = (Inr (walk', ts, wd2, ds2), w')" "walked = wd1 @ wd2"
    using b by (auto simp: io_bind_run)
  moreover have "wd2 = []"
    by (rule 3(2)) (use r(1) 3(4) in simp_all)
  ultimately show ?case by simp
qed simp_all

text \<open>
  C30 (error). Merging two branches whose workspaces have equally long pipelines never completes, whatever the engine and
  the state: the tree always has a path to train, and the call that trains it passes one argument too few.
\<close>
theorem merge_never_completes:
  assumes "merge_inputs fuel E merge_key base_key w = (Inr workspaces, w1)"
    and "trial_input (te_arrange E) workspaces ps n"
  shows "fst (merge_workspace_branches fuel E merge_key base_key w) \<noteq> Inr ()"
proof
  assume "fst (merge_workspace_branches fuel E merge_key base_key w) = Inr ()"
  then obtain w' where "merge_workspace_branches fuel E merge_key base_key w = (Inr (), w')"
    by (metis prod.collapse)
  then obtain tt walk' t' walked dirs w2 where tt: "trial_tree_init (te_arrange E) workspaces = Inr tt"
      and tr: "dfs_train (te_mkdtemp E) (\<lambda>_ _. io_raise TypeError) [] (tt_tree tt) w1 = (Inr (walk', t', walked, dirs), w2)"
    using assms(1) by (auto simp: merge_workspace_branches_def io_bind_run)
  have k: "keeps_keys (\<lambda>_ _. io_raise TypeError :: ('a file_world_scheme, trial_node list) io)" by (simp add: keeps_keys_def)
  have "walked = []" using failing_training(1) [OF _ tr] by simp
  then have "candidate_node_lists tt = []"
    using trial_trains_candidates_keys [OF assms(2) tt k tr] by simp
  moreover have "candidate ps n (hd ps)"
  proof -
    have "hd ps \<in> set ps" "length (hd ps) = n" using assms(2) by (auto simp: trial_input_def)
    then show ?thesis unfolding candidate_def api_compatible_def by blast
  qed
  ultimately show False using trial_candidate_keys [OF assms(2) tt] by auto
qed

section \<open>The theorems at a concrete store\<close>

text \<open>A store with one configuration for every key and one archive, whose branches have a single version.\<close>

definition one_store :: "file_world phys_store" where
  "one_store =
     \<lparr>ps_get = (\<lambda>k br v d. io_return (Some (case d of STRING \<Rightarrow> ''v'' | FILE \<Rightarrow> if starts_with META_STORAGE k then ''/meta'' else ''/archive''))),
      ps_put = (\<lambda>k br d v. io_return (StorageReturn (VDict [(''Version'', Some ''v'')]))),
      ps_list_key = io_return (StorageReturn (VList [])), ps_head = (\<lambda>k br. io_return (StorageReturn (VDict [(''Version'', Some ''v'')]))),
      ps_branch = (\<lambda>k new br v. io_return (StorageReturn VNone)), ps_list_branch = (\<lambda>k. io_return (StorageReturn (VList []))),
      ps_meta = (\<lambda>k v br. io_return (StorageReturn (if v = None then VList [''v''] else VNone))),
      ps_merge = (\<lambda>k head_br br d v. io_return (StorageReturn (VDict [(''Version'', Some ''v'')])))\<rparr>"

definition one_config :: icp where
  "one_config = \<lparr>cp_sections =
     [(META_SECTION_ID, [(''type'', ''library''), (''name'', ''b''), (''version'', ''m.0.0'')]),
      (META_SECTION_CONFIG, [(''train'', ''train.py''), (''train-parameters'', ''{}'')]),
      (META_SECTION_REF, [(''pipeline'', ''['' @ quoted ''library::a::m.0.0'' @ '', '' @ quoted ''library::b::m.0.0'' @ '']'')])],
     cp_defaults = []\<rparr>"

definition one_env :: "unit trial_env" where
  "one_env = \<lparr>te_store = one_store, te_zip = \<lparr>az_zip = (\<lambda>_ _. ([], None)), az_unzip = (\<lambda>_. ([], None))\<rparr>, te_temp_path = ''/t'',
     te_repr = (\<lambda>_. []), te_is_float = (\<lambda>_. True), te_uuid = io_return ''u'', te_component_key = io_return [],
     te_on_new_pipeline = (\<lambda>_ _. io_return ()), te_on_new_component = (\<lambda>_. io_return ()), te_mkdtemp = io_return ''/t'',
     te_arrange = (\<lambda>_ ks. ks), te_retrain = False, te_dump_tree = (\<lambda>_. []), te_dump_heads = (\<lambda>_. [])\<rparr>"

definition one_world :: file_world where
  "one_world = \<lparr>fw_cwd = ''/'', fw_files = [([''meta''], File (utf8 (ini_write one_config))), ([''archive''], File []), ([''v''], Dir), ([''o''], Dir),
     ([''out''], Dir)], fw_time = (\<lambda>_. ''0''), fw_clock = 0\<rparr>"

definition one_options :: run_options where
  "one_options = \<lparr>op_base_dir = ''/'', op_venv_dir = ''/v'', op_temp_dir = ''/t'', op_output_dir = ''/o''\<rparr>"

definition one_nodes :: "trial_node list" where
  "one_nodes = [(mk_node lib_a True)\<lparr>tn_output := JStr ''/out''\<rparr>, mk_node lib_b False, mk_node lib_b2 True]"

lemma one_build: "isl (fst (build_venvs one_env one_options one_nodes one_world)) = False"
  by code_simp

lemma pipeline_runs_suffix_witness:
  "\<exists>vs w'. build_venvs one_env one_options one_nodes one_world = (Inr vs, w') \<and> vs_exec vs = [1, 2]
     \<and> param_of (vs_nodes vs ! 2) ''--input'' = Some (tn_output (vs_nodes vs ! 1))"
proof -
  obtain vs w' where b: "build_venvs one_env one_options one_nodes one_world = (Inr vs, w')"
    using one_build by (cases "build_venvs one_env one_options one_nodes one_world";
        cases "fst (build_venvs one_env one_options one_nodes one_world)") auto
  have t: "length (takeWhile (skips_node one_env) one_nodes) = 1" "length one_nodes = 3"
    by (simp_all add: one_nodes_def skips_node_def one_env_def mk_node_def)
  have "[1..<3] = [1, 2 :: nat]" by code_simp
  with pipeline_runs_suffix [OF b] b show ?thesis unfolding t by auto
qed

lemma trained_pipeline_fails_witness:
  "train_node_list one_env [mk_node lib_a True] one_options [''u''] one_world = (Inl IndexError, one_world\<lparr>fw_clock := 2\<rparr>)"
proof -
  have "\<forall>n \<in> set [mk_node lib_a True]. skips_node one_env n" by (simp add: skips_node_def mk_node_def one_env_def)
  from trained_pipeline_fails [OF this, of one_options "[''u'']" one_world] show ?thesis by (simp add: one_world_def)
qed

lemma one_parse: "parse_path ''/meta'' one_world = (Inr one_config, one_world)"
proof (rule parse_path_ok)
  have "resolve one_world ''/meta'' = [''meta'']" by code_simp
  then show "read_bytes ''/meta'' one_world = (Inr (utf8 (ini_write one_config)), one_world)"
    by (intro read_bytes_ok) (simp_all add: nodes_def fs_node_def one_world_def od_get_def)
  show "clean_config one_config" by code_simp
qed

definition cleared_config :: icp where
  "cleared_config = (case res_bind (set_workspace_outputs (JObj []) one_config) (set_workspace_params (JObj [])) of Inr x \<Rightarrow> x | Inl _ \<Rightarrow> cp_empty)"

lemma cleared_config_facts:
  "res_bind (set_workspace_outputs (JObj []) one_config) (set_workspace_params (JObj [])) = Inr cleared_config"
  "workspace_pipeline cleared_config = Inr [lib_a, lib_b]" "\<not> has_outputs cleared_config" "meta_init one_config = Inr one_config"
  by code_simp+

lemma one_merge: "merge_inputs 1 one_env lib_a lib_a one_world = (Inr (replicate 4 cleared_config), one_world)"
proof -
  have head: "meta_get_branch_head one_store lib_a one_world = (Inr one_config, one_world)"
    using one_parse by (simp add: meta_get_branch_head_def semantic_get_branch_head_def file_get_branch_head_def one_store_def
        form_entity_key_def io_bind_def found_or_key_error_def)
  have "semantic_traverse_branch 1 one_store META_STORAGE lib_a one_world = (Inr (Some [''/meta'']), one_world)"
    by (simp add: semantic_traverse_branch_def semantic_parents_of_branch_head_def parents_by_branch_head_def io_reply_def
        parents_by_version_def file_get_version_def one_store_def form_entity_key_def io_bind_def found_or_key_error_def)
  then have lineage: "branch_workspaces 1 one_env lib_a one_world = (Inr [one_config], one_world)"
    using one_parse cleared_config_facts(4)
    by (simp add: branch_workspaces_def meta_get_lineage_def one_env_def io_bind_def wrap_meta_def)
  have e: "te_store one_env = one_store" by (simp add: one_env_def)
  show ?thesis
    using head lineage cleared_config_facts(1,4) unfolding merge_inputs_def e
    by (simp add: io_bind_def wrap_meta_def numeral_eq_Suc)
qed

lemma merge_never_completes_witness:
  "fst (merge_workspace_branches 1 one_env lib_a lib_a one_world) \<noteq> Inr ()"
proof -
  have "markable cleared_config p" for p using cleared_config_facts(3) by (simp add: markable_def)
  then have "trial_input (te_arrange one_env) (replicate 4 cleared_config) (replicate 4 [lib_a, lib_b]) 2"
    using cleared_config_facts(2)
    by (simp add: trial_input_def arranges_def one_env_def is_root_key_def lib_a_def lib_b_def numeral_eq_Suc)
  from merge_never_completes [OF one_merge this] show ?thesis .
qed

end
