(* ===== verification/DatasetProps.thy ===== *)
theory DatasetProps
  imports Managers "HOL-Library.Multiset"
begin

text \<open>
  The schema hash of a dataset: the digest of the sorted column names. \<open>string_le\<close> is a linear order, so the library's
  facts on sorting apply to \<open>sort_strings\<close>.
\<close>

section \<open>Sorting the columns\<close>

lemma sort_strings_sort: "sort_strings xs = string_order.sort xs"
proof -
  have ins: "map fst (insert_item (x, ()) ys) = string_order.insort x (map fst ys)" for x and ys :: "(string \<times> unit) list"
    by (induction ys) auto
  show ?thesis
    by (induction xs) (simp_all add: sort_strings_def sort_items_def ins)
qed

lemma sort_strings_mset: "mset xs = mset ys \<Longrightarrow> sort_strings xs = sort_strings ys"
  unfolding sort_strings_sort
  by (metis string_order.mset_sort string_order.properties_for_sort string_order.sorted_sort)

section \<open>The schema\<close>

lemma res_map_mset:
  "mset xs = mset ys \<Longrightarrow> res_map f xs = Inr us \<Longrightarrow> \<exists>vs. res_map f ys = Inr vs \<and> mset us = mset vs"
proof -
  have all: "res_map f xs = Inr us \<longleftrightarrow> (\<forall>x \<in> set xs. isl (f x) = False) \<and> us = map (\<lambda>x. projr (f x)) xs" for xs us
  proof (induction xs arbitrary: us)
    case (Cons x xs)
    then show ?case by (cases "f x") (auto simp: res_bind_eq_Inr)
  qed auto
  assume m: "mset xs = mset ys" "res_map f xs = Inr us"
  then have "set xs = set ys" using mset_eq_setD by blast
  with m show ?thesis unfolding all by (auto simp: mset_map)
qed

text \<open>
  Datasets whose files have the same columns get the same schema, and with it the same branch: the order of the columns
  and their distribution over the files do not matter.
\<close>
theorem schema_ignores_column_order:
  assumes "io_map csv_header files w = (Inr heads, w1)" and "io_map csv_header files' w' = (Inr heads', w1')"
    and "mset (concat heads) = mset (concat heads')" and "cal_dataset_schema_hash md5 files w = (Inr h, w2)"
  shows "cal_dataset_schema_hash md5 files' w' = (Inr h, w1')"
proof -
  obtain items where items: "res_map normal_column (concat heads) = Inr items" and h: "h = md5 (utf8 (str_join '';'' (sort_strings items)))"
    using assms(1,4) by (auto simp: cal_dataset_schema_hash_def io_bind_def split: sum.splits)
  obtain items' where items': "res_map normal_column (concat heads') = Inr items'" "mset items = mset items'"
    using res_map_mset [OF assms(3) items] by blast
  have "sort_strings items = sort_strings items'" using sort_strings_mset items'(2) .
  then show ?thesis
    using assms(2) items'(1) h by (simp add: cal_dataset_schema_hash_def io_bind_def)
qed

definition csv_world :: file_world where
  "csv_world = \<lparr>fw_cwd = ''/'', fw_files = [([''a''], File (''age,Blood pressure'' @ [newline] @ ''61,120'')), ([''b''], File ''Blood pressure,age'')],
     fw_time = (\<lambda>_. ''0''), fw_clock = 0\<rparr>"

lemma csv_header_reads: "csv_header p w = (r, w') \<Longrightarrow> w' = w"
  by (auto simp: csv_header_def read_str_def read_bytes_def io_bind_def split: option.splits node.splits)

lemma csv_headers_read: "io_map csv_header ps w = (r, w') \<Longrightarrow> w' = w"
proof (induction ps arbitrary: r w')
  case (Cons p ps)
  obtain a w1 where a: "csv_header p w = (a, w1)" by fastforce
  obtain b w2 where b: "io_map csv_header ps w = (b, w2)" by fastforce
  show ?case using csv_header_reads [OF a] a b Cons.IH [OF b] Cons.prems
    by (auto simp: io_bind_def split: sum.splits)
qed simp

lemma csv_example:
  "io_map csv_header [''/a''] csv_world = (Inr [[''age'', ''Blood pressure'']], csv_world)"
  "io_map csv_header [''/b''] csv_world = (Inr [[''Blood pressure'', ''age'']], csv_world)"
  "cal_dataset_schema_hash (\<lambda>x. x) [''/a''] csv_world = (Inr ''AGE;BLOODPRESSURE'', csv_world)"
proof -
  have f: "fst (io_map csv_header [''/a''] csv_world) = Inr [[''age'', ''Blood pressure'']]"
    "fst (io_map csv_header [''/b''] csv_world) = Inr [[''Blood pressure'', ''age'']]"
    by code_simp+
  then show a: "io_map csv_header [''/a''] csv_world = (Inr [[''age'', ''Blood pressure'']], csv_world)"
    and "io_map csv_header [''/b''] csv_world = (Inr [[''Blood pressure'', ''age'']], csv_world)"
    using csv_headers_read by (metis prod.collapse)+
  have "res_map normal_column [''age'', ''Blood pressure''] = Inr [''AGE'', ''BLOODPRESSURE'']"
    "utf8 (str_join '';'' (sort_strings [''AGE'', ''BLOODPRESSURE''])) = ''AGE;BLOODPRESSURE''" by code_simp+
  then show "cal_dataset_schema_hash (\<lambda>x. x) [''/a''] csv_world = (Inr ''AGE;BLOODPRESSURE'', csv_world)"
    using a by (simp add: cal_dataset_schema_hash_def io_bind_def)
qed

lemma schema_ignores_column_order_witness:
  "cal_dataset_schema_hash (\<lambda>x. x) [''/b''] csv_world = (Inr ''AGE;BLOODPRESSURE'', csv_world)"
  by (rule schema_ignores_column_order [OF csv_example(1,2) _ csv_example(3)]) simp

end
