(* ===== verification/Pac.thy ===== *)
theory Pac
  imports Prelude Complex_Main
begin

text \<open>
  The simulator of pipeline-aware caching, \<^verbatim>\<open>pysrc/pac\<close>: \<^verbatim>\<open>vartypes.py\<close>, \<^verbatim>\<open>history.py\<close>, \<^verbatim>\<open>vsm.py\<close> and \<^verbatim>\<open>cache.py\<close>. Scores
  are exact rationals where the code has 64-bit floats, and the order \<open>numpy.argsort\<close> gives (which is not
  stable) is a parameter. A worker is a component and a version; the traditional caches do not look inside either.
\<close>

definition NUM_PIPELINE_LENGTH :: nat where "NUM_PIPELINE_LENGTH = 5"

type_synonym version = "int \<times> int"

section \<open>The traditional caches\<close>

record 'w base_cache =
  bc_workers :: "'w list"
  bc_cold_start :: nat
  bc_size :: int

definition base_cache_init :: "int \<Rightarrow> 'w base_cache" where
  "base_cache_init worker_set_size = \<lparr>bc_workers = [], bc_cold_start = 0, bc_size = worker_set_size\<rparr>"

text \<open>\<open>list.pop(i)\<close>.\<close>

definition py_pop :: "int \<Rightarrow> 'a list \<Rightarrow> 'a list result" where
  "py_pop i xs =
     (let n = int (length xs); j = (if i < 0 then i + n else i)
      in if 0 \<le> j \<and> j < n then Inr (take (nat j) xs @ drop (Suc (nat j)) xs) else Inl IndexError)"

text \<open>A miss: the cold start is counted, one worker leaves a full set, the new one joins it.\<close>

definition admit :: "('w list \<Rightarrow> 'w list result) \<Rightarrow> 'w \<Rightarrow> 'w base_cache \<Rightarrow> (bool \<times> 'w base_cache) result" where
  "admit evict w c =
     res_bind (if bc_size c < int (length (bc_workers c)) then evict (bc_workers c) else Inr (bc_workers c)) (\<lambda>ws.
       Inr (False, c\<lparr>bc_workers := ws @ [w], bc_cold_start := Suc (bc_cold_start c)\<rparr>))"

definition lru_get :: "'w \<Rightarrow> 'w base_cache \<Rightarrow> (bool \<times> 'w base_cache) result" where
  "lru_get w c =
     (if w \<in> set (bc_workers c) then Inr (True, c\<lparr>bc_workers := remove1 w (bc_workers c) @ [w]\<rparr>)
      else admit (py_pop 0) w c)"

definition fifo_get :: "'w \<Rightarrow> 'w base_cache \<Rightarrow> (bool \<times> 'w base_cache) result" where
  "fifo_get w c = (if w \<in> set (bc_workers c) then Inr (True, c) else admit (py_pop 0) w c)"

record 'w lfu_cache = "'w base_cache" +
  lfu_frequency :: "int list"
  lfu_time :: "int list"

definition lfu_init :: "int \<Rightarrow> 'w lfu_cache" where
  "lfu_init worker_set_size =
     \<lparr>bc_workers = [], bc_cold_start = 0, bc_size = worker_set_size, lfu_frequency = [], lfu_time = []\<rparr>"

text \<open>The last index with the smallest frequency per tick, among those at most 9999.\<close>

definition least_frequent :: "int list \<Rightarrow> int list \<Rightarrow> int" where
  "least_frequent freqs ticks =
     fst (fold (\<lambda>(i, f, t) (i_min, freq_min). if (of_int f / of_int t :: rat) \<le> freq_min then (int i, of_int f / of_int t) else (i_min, freq_min))
       (zip [0..<length freqs] (zip freqs ticks)) (- 1, 9999))"

fun index_of :: "'w \<Rightarrow> 'w list \<Rightarrow> nat option" where
  "index_of w [] = None"
| "index_of w (x # xs) = (if x = w then Some 0 else map_option Suc (index_of w xs))"

definition lfu_get :: "'w \<Rightarrow> 'w lfu_cache \<Rightarrow> (bool \<times> 'w lfu_cache) result" where
  "lfu_get w c0 =
     (let c = c0\<lparr>lfu_time := map (\<lambda>x. x + 1) (lfu_time c0)\<rparr>
      in case index_of w (bc_workers c) of
           Some i \<Rightarrow> Inr (True, c\<lparr>lfu_frequency := (lfu_frequency c)[i := lfu_frequency c ! i + 1]\<rparr>)
         | None \<Rightarrow>
             res_bind
               (if bc_size c < int (length (bc_workers c)) then
                  let i_min = least_frequent (lfu_frequency c) (lfu_time c)
                  in res_bind (py_pop i_min (bc_workers c)) (\<lambda>ws.
                     res_bind (py_pop i_min (lfu_frequency c)) (\<lambda>fs.
                     res_bind (py_pop i_min (lfu_time c)) (\<lambda>ts. Inr (ws, fs, ts))))
                else Inr (bc_workers c, lfu_frequency c, lfu_time c))
               (\<lambda>(ws, fs, ts). Inr (False, c\<lparr>bc_workers := ws @ [w], bc_cold_start := Suc (bc_cold_start c),
                  lfu_frequency := fs @ [1], lfu_time := ts @ [1]\<rparr>)))"

section \<open>Histories of pipelines\<close>

text \<open>
  \<open>numpy.array(p, dtype=int32)\<close> keeps the low 32 bits of every number that fits 64 bits (numpy 1.22.4, which
  \<^verbatim>\<open>requirements.txt\<close> asks for) and raises \<open>OverflowError\<close> beyond. A pipeline is its versions in the order of the components.
\<close>

definition wrap32 :: "int \<Rightarrow> int" where
  "wrap32 i = (i + 2 ^ 31) mod 2 ^ 32 - 2 ^ 31"

definition to_int32 :: "int \<Rightarrow> int result" where
  "to_int32 i = (if - (2 ^ 63) \<le> i \<and> i < 2 ^ 63 then Inr (wrap32 i) else Inl OverflowError)"

type_synonym pipeline = "version list"

definition from_version_list :: "version list \<Rightarrow> pipeline result" where
  "from_version_list p = res_map (\<lambda>(m, n). res_bind (to_int32 m) (\<lambda>a. res_bind (to_int32 n) (\<lambda>b. Inr (a, b)))) p"

definition pipeline_item :: "pipeline \<Rightarrow> nat \<Rightarrow> (nat \<times> version) result" where
  "pipeline_item p key = res_bind (py_index p (int key)) (\<lambda>v. Inr (key, v))"

definition pipeline_items :: "pipeline \<Rightarrow> (nat \<times> version) list" where
  "pipeline_items p = zip [0..<length p] p"

text \<open>The first column is a pipeline of versions \<open>(-1, -1)\<close> that stays in front.\<close>

record history =
  hi_data :: "pipeline list"
  hi_capacity :: int

definition history_init :: "int \<Rightarrow> history" where
  "history_init capacity = \<lparr>hi_data = [replicate NUM_PIPELINE_LENGTH (- 1, - 1)], hi_capacity = capacity\<rparr>"

definition history_value :: "history \<Rightarrow> pipeline list" where
  "history_value h = tl (hi_data h)"

definition history_size :: "history \<Rightarrow> nat" where
  "history_size h = length (hi_data h) - 1"

definition history_item :: "history \<Rightarrow> nat \<Rightarrow> pipeline result" where
  "history_item h key = py_index (hi_data h) (int (key + 1))"

definition history_append :: "pipeline \<Rightarrow> history \<Rightarrow> history result" where
  "history_append p h =
     (if length p \<noteq> NUM_PIPELINE_LENGTH then Inl ValueError
      else let d = hi_data h @ [p]
           in Inr (h\<lparr>hi_data := (if hi_capacity h < int (length d) then take 1 d @ drop 2 d else d)\<rparr>))"

section \<open>Version score matrices\<close>

definition MAX_MAJOR_VERSION :: nat where "MAX_MAJOR_VERSION = 3"
definition MAX_MINOR_VERSION :: nat where "MAX_MINOR_VERSION = 3"

text \<open>The scores, row by row.\<close>

record vsm =
  vm_alpha :: rat
  vm_rows :: nat
  vm_cols :: nat
  vm_data :: "rat list"
  vm_component :: nat
  vm_snapshot :: "rat list option"

definition vsm_init :: "nat \<Rightarrow> rat \<Rightarrow> vsm" where
  "vsm_init component_id alpha =
     (let r = MAX_MAJOR_VERSION + 1; c = MAX_MINOR_VERSION + 1
      in \<lparr>vm_alpha = alpha, vm_rows = r, vm_cols = c, vm_data = replicate (r * c) (1 / of_nat (r * c)),
          vm_component = component_id, vm_snapshot = None\<rparr>)"

definition get_all_version_set :: "version list" where
  "get_all_version_set =
     map (\<lambda>(i, j). (int i, int j)) (List.product [0..<MAX_MAJOR_VERSION + 1] [0..<MAX_MINOR_VERSION + 1])"

text \<open>The place of entry \<open>[m, n]\<close>; a negative index counts from the end.\<close>

definition entry_index :: "vsm \<Rightarrow> version \<Rightarrow> nat result" where
  "entry_index s v =
     (let m = (if fst v < 0 then fst v + int (vm_rows s) else fst v);
          n = (if snd v < 0 then snd v + int (vm_cols s) else snd v)
      in if 0 \<le> m \<and> m < int (vm_rows s) \<and> 0 \<le> n \<and> n < int (vm_cols s) then Inr (nat m * vm_cols s + nat n)
         else Inl IndexError)"

definition vsm_item :: "vsm \<Rightarrow> version \<Rightarrow> rat result" where
  "vsm_item s v = res_bind (entry_index s v) (\<lambda>i. Inr (vm_data s ! i))"

definition take_snapshot :: "vsm \<Rightarrow> vsm" where
  "take_snapshot s = s\<lparr>vm_snapshot := Some (vm_data s)\<rparr>"

text \<open>\<open>(1 - alpha) * data + alpha * e\<close>, for a matrix \<open>e\<close> that is \<open>x\<close> at the given places and 0 elsewhere.\<close>

definition blend :: "rat \<Rightarrow> nat list \<Rightarrow> vsm \<Rightarrow> vsm" where
  "blend x places s =
     s\<lparr>vm_data := map (\<lambda>(i, d). (1 - vm_alpha s) * d + vm_alpha s * (if i \<in> set places then x else 0))
       (zip [0..<length (vm_data s)] (vm_data s))\<rparr>"

definition scale_entry :: "version \<Rightarrow> vsm \<Rightarrow> vsm result" where
  "scale_entry v s = res_bind (entry_index s v) (\<lambda>i. Inr (blend 1 [i] s))"

text \<open>A set of versions is a list without duplicates.\<close>

definition scale_batch :: "version list \<Rightarrow> vsm \<Rightarrow> vsm result" where
  "scale_batch vs s =
     (if vs = [] then Inr s
      else res_bind (res_map (entry_index s) vs) (\<lambda>places. Inr (blend (1 / of_nat (length vs)) places s)))"

definition update_vsm :: "nat \<Rightarrow> (vsm \<Rightarrow> vsm result) \<Rightarrow> vsm list \<Rightarrow> vsm list result" where
  "update_vsm k f vsms = res_bind (py_index vsms (int k)) (\<lambda>s. res_bind (f s) (\<lambda>s'. Inr (vsms[k := s'])))"

definition version_difference :: "version list \<Rightarrow> version list" where
  "version_difference vs = filter (\<lambda>v. v \<notin> set vs) get_all_version_set"

definition vsm_transform_sl :: "vsm list \<Rightarrow> history \<Rightarrow> vsm list result" where
  "vsm_transform_sl last_vsms h =
     (if history_size h \<le> 1 then Inr last_vsms
      else let last_history_id = history_size h - 1
        in res_bind (history_item h last_history_id) (\<lambda>p.
           res_fold (\<lambda>k vsms.
             res_bind (pipeline_item p k) (\<lambda>(f1, v1).
             res_bind (res_map (\<lambda>i. res_bind (history_item h i) (\<lambda>q. pipeline_item q f1)) [0..<last_history_id]) (\<lambda>olds.
               update_vsm f1 (scale_batch (version_difference (filter (\<lambda>v2. v2 \<noteq> v1) (map snd olds)))) vsms)))
             [0..<length p] last_vsms))"

text \<open>The product with a Python integer is a 64-bit number, so the difference of two \<open>int32\<close> numbers is exact.\<close>

definition extrapolate :: "int \<Rightarrow> int \<Rightarrow> int" where
  "extrapolate x2 x1 = 2 * x2 - x1"

definition ul_step :: "pipeline \<Rightarrow> pipeline \<Rightarrow> nat \<Rightarrow> vsm list \<Rightarrow> vsm list result" where
  "ul_step p_t p_t_m_1 k vsms =
     res_bind (pipeline_item p_t k) (\<lambda>(f1, m1, n1).
     res_bind (pipeline_item p_t_m_1 k) (\<lambda>(f2, m2, n2).
       if m1 = m2 \<and> n1 \<noteq> n2 \<or> m1 \<noteq> m2 \<and> n1 = n2 then
         res_bind (res_map (pipeline_item p_t) [0..<k - 1]) (\<lambda>earlier.
         res_bind (res_fold (\<lambda>(fi, vi). update_vsm fi (scale_batch (version_difference [vi]))) earlier vsms) (\<lambda>vsms.
         res_bind
           (if m1 \<noteq> m2 \<and> n1 = n2 \<and> 0 \<le> extrapolate n2 n1 \<and> extrapolate n2 n1 \<le> int MAX_MINOR_VERSION
            then update_vsm f1 (scale_entry (m1, extrapolate n2 n1)) vsms else Inr vsms) (\<lambda>vsms.
           if m1 = m2 \<and> n1 \<noteq> n2 \<and> 0 \<le> extrapolate m2 m1 \<and> extrapolate m2 m1 \<le> int MAX_MAJOR_VERSION
           then update_vsm f1 (scale_entry (extrapolate m2 m1, n1)) vsms else Inr vsms)))
       else Inr vsms))"

definition vsm_transform_ul :: "vsm list \<Rightarrow> history \<Rightarrow> vsm list result" where
  "vsm_transform_ul last_vsms h =
     (if history_size h \<le> 2 then Inr last_vsms
      else let last_history_id = history_size h - 1
        in res_bind (history_item h last_history_id) (\<lambda>p_t.
           res_bind (history_item h (last_history_id - 1)) (\<lambda>p_t_m_1.
             res_fold (ul_step p_t p_t_m_1) [0..<length p_t] last_vsms)))"

section \<open>The pipeline-aware cache\<close>

type_synonym worker = "nat \<times> version"

record pac_cache = "worker base_cache" +
  pc_history :: history
  pc_alpha :: rat
  pc_vsms :: "vsm list"

definition generate_score_matrices :: "rat \<Rightarrow> vsm list" where
  "generate_score_matrices alpha = map (\<lambda>i. vsm_init i alpha) [0..<NUM_PIPELINE_LENGTH]"

definition pac_init :: "int \<Rightarrow> int \<Rightarrow> rat \<Rightarrow> pac_cache" where
  "pac_init worker_set_size history_capacity alpha =
     \<lparr>bc_workers = [], bc_cold_start = 0, bc_size = worker_set_size, pc_history = history_init history_capacity,
      pc_alpha = alpha, pc_vsms = generate_score_matrices alpha\<rparr>"

text \<open>\<open>unravel_index(argsort(value))\<close>: the versions in the order of their scores.\<close>

definition sorted_versions :: "(rat list \<Rightarrow> nat list) \<Rightarrow> vsm \<Rightarrow> version list" where
  "sorted_versions argsort s = map (\<lambda>i. (int (i div vm_cols s), int (i mod vm_cols s))) (argsort (vm_data s))"

text \<open>\<open>values.index(min(values))\<close>.\<close>

definition min_index :: "rat list \<Rightarrow> nat" where
  "min_index xs = (case index_of (Min (set xs)) xs of Some i \<Rightarrow> i | None \<Rightarrow> 0)"

text \<open>
  One round of the search: the score of the version every component's pointer is at, where a component without workers does
  not compete. A pointer past the last version is an \<open>IndexError\<close>; otherwise the pointer of the least score moves on (it is one of the pointers).
\<close>

definition pointed_scores :: "version list list \<Rightarrow> vsm list \<Rightarrow> worker list \<Rightarrow> nat list \<Rightarrow> rat list result" where
  "pointed_scores ids vsms workers pointers =
     res_map (\<lambda>f. res_bind (py_index (ids ! f) (int (pointers ! f))) (\<lambda>v. res_bind (vsm_item (vsms ! f) v) (\<lambda>x.
       Inr (if f \<in> fst ` set workers then x else 9999)))) [0..<length pointers]"

function search_worker :: "version list list \<Rightarrow> vsm list \<Rightarrow> worker list \<Rightarrow> nat list \<Rightarrow> worker result" where
  "search_worker ids vsms workers pointers =
     (case pointed_scores ids vsms workers pointers of
        Inl e \<Rightarrow> Inl e
      | Inr scores \<Rightarrow>
          let f_min = min_index scores; v = ids ! f_min ! (pointers ! f_min)
          in if (f_min, v) \<in> set workers then Inr (f_min, v)
             else if f_min < length pointers then search_worker ids vsms workers (pointers[f_min := Suc (pointers ! f_min)])
             else Inl IndexError)"
  by pat_completeness auto

termination
proof (relation "measure (\<lambda>(ids, vsms, workers, pointers). \<Sum>f < length pointers. Suc (length (ids ! f)) - pointers ! f)")
  fix ids vsms workers pointers scores f_min v
  assume run: "pointed_scores ids vsms workers pointers = Inr scores" and f: "f_min < length pointers"
  have ok: "pointers ! g < length (ids ! g)" if "g < length pointers" for g
    using res_map_InrD [OF run [unfolded pointed_scores_def], of g] that
    by (auto simp: res_bind_eq_Inr py_index_def split: if_splits)
  have "(\<Sum>g < length pointers. Suc (length (ids ! g)) - pointers[f_min := Suc (pointers ! f_min)] ! g)
      < (\<Sum>g < length pointers. Suc (length (ids ! g)) - pointers ! g)"
  proof (rule sum_strict_mono_ex1)
    show "\<forall>g \<in> {..<length pointers}. Suc (length (ids ! g)) - pointers[f_min := Suc (pointers ! f_min)] ! g
        \<le> Suc (length (ids ! g)) - pointers ! g"
      using f by (auto simp: nth_list_update)
    show "\<exists>g \<in> {..<length pointers}. Suc (length (ids ! g)) - pointers[f_min := Suc (pointers ! f_min)] ! g
        < Suc (length (ids ! g)) - pointers ! g"
      using f ok [OF f] by (intro bexI [of _ f_min]) auto
  qed simp
  then show "((ids, vsms, workers, pointers[f_min := Suc (pointers ! f_min)]), ids, vsms, workers, pointers)
      \<in> measure (\<lambda>(ids, vsms, workers, pointers). \<Sum>f < length pointers. Suc (length (ids ! f)) - pointers ! f)"
    by simp
qed simp

declare search_worker.simps [simp del]

definition least_possible_worker :: "(rat list \<Rightarrow> nat list) \<Rightarrow> pac_cache \<Rightarrow> worker result" where
  "least_possible_worker argsort c =
     (if list_all (\<lambda>(f, v). f < NUM_PIPELINE_LENGTH) (bc_workers c)
      then search_worker (map (sorted_versions argsort) (pc_vsms c)) (pc_vsms c) (bc_workers c) (replicate NUM_PIPELINE_LENGTH 0)
      else Inl IndexError)"

definition pac_get :: "(rat list \<Rightarrow> nat list) \<Rightarrow> worker \<Rightarrow> pac_cache \<Rightarrow> (bool \<times> pac_cache) result" where
  "pac_get argsort w c =
     (if w \<in> set (bc_workers c) then Inr (True, c)
      else res_bind
        (if bc_size c < int (length (bc_workers c))
         then res_bind (least_possible_worker argsort c) (\<lambda>x. Inr (remove1 x (bc_workers c))) else Inr (bc_workers c)) (\<lambda>ws.
          Inr (False, c\<lparr>bc_workers := ws @ [w], bc_cold_start := Suc (bc_cold_start c)\<rparr>)))"

definition pac_update :: "(vsm list \<Rightarrow> history \<Rightarrow> vsm list result) \<Rightarrow> pac_cache \<Rightarrow> pac_cache result" where
  "pac_update transformer c = res_bind (transformer (pc_vsms c) (pc_history c)) (\<lambda>v. Inr (c\<lparr>pc_vsms := v\<rparr>))"

end
