(* ===== verification/PacPolicy.thy ===== *)
theory PacPolicy
  imports Pac "HOL-Library.Multiset"
begin

text \<open>
  What the four replacement policies of \<^verbatim>\<open>pac/cache.py\<close> share, as the locale \<open>cache_policy\<close>: a hit keeps the workers, a
  miss counts a cold start, lets at most one worker go and admits the requested one. The consequences for a
  whole run of requests are proved once and instantiated for LRU, FIFO and LFU here and for the pipeline-aware cache in
  \<^verbatim>\<open>PacProps\<close>.
\<close>

text \<open>A run of requests, with the hits and misses in their order.\<close>

fun requests :: "('w \<Rightarrow> 'c \<Rightarrow> (bool \<times> 'c) result) \<Rightarrow> 'w list \<Rightarrow> 'c \<Rightarrow> (bool list \<times> 'c) result" where
  "requests get [] c = Inr ([], c)"
| "requests get (w # ws) c =
     res_bind (get w c) (\<lambda>(b, c'). res_bind (requests get ws c') (\<lambda>(bs, c''). Inr (b # bs, c'')))"

locale cache_policy =
  fixes get :: "'w \<Rightarrow> 'c \<Rightarrow> (bool \<times> 'c) result"
    and workers :: "'c \<Rightarrow> 'w list"
    and cold_starts :: "'c \<Rightarrow> nat"
    and limit :: "'c \<Rightarrow> int"
    and admissible :: "'w \<Rightarrow> bool"
    and ok :: "'c \<Rightarrow> bool"
  assumes hit: "\<lbrakk>ok c; w \<in> set (workers c)\<rbrakk> \<Longrightarrow>
      \<exists>c'. get w c = Inr (True, c') \<and> ok c' \<and> mset (workers c') = mset (workers c) \<and> cold_starts c' = cold_starts c \<and> limit c' = limit c"
    and miss: "\<lbrakk>ok c; admissible w; w \<notin> set (workers c)\<rbrakk> \<Longrightarrow>
      \<exists>c' ws. get w c = Inr (False, c') \<and> ok c' \<and> workers c' = ws @ [w] \<and> cold_starts c' = Suc (cold_starts c) \<and> limit c' = limit c \<and>
        (if limit c < int (length (workers c)) then \<exists>x \<in> set (workers c). mset (workers c) = add_mset x (mset ws)
         else ws = workers c)"
begin

lemma get_cases [consumes 2, case_names Hit Admitted Evicted]:
  assumes "ok c" "admissible w"
  obtains (Hit) c' where "w \<in> set (workers c)" "get w c = Inr (True, c')" "ok c'" "mset (workers c') = mset (workers c)"
      "cold_starts c' = cold_starts c" "limit c' = limit c"
    | (Admitted) c' where "w \<notin> set (workers c)" "int (length (workers c)) \<le> limit c" "get w c = Inr (False, c')" "ok c'"
      "workers c' = workers c @ [w]" "cold_starts c' = Suc (cold_starts c)" "limit c' = limit c"
    | (Evicted) c' ws x where "w \<notin> set (workers c)" "limit c < int (length (workers c))" "get w c = Inr (False, c')" "ok c'"
      "workers c' = ws @ [w]" "mset (workers c) = add_mset x (mset ws)" "cold_starts c' = Suc (cold_starts c)" "limit c' = limit c"
proof (cases "w \<in> set (workers c)")
  case True
  then show ?thesis using hit [OF assms(1) True] Hit by blast
next
  case False
  show ?thesis
  proof (cases "limit c < int (length (workers c))")
    case True
    then show ?thesis using miss [OF assms False] Evicted [OF False] by auto
  next
    case notfull: False
    then show ?thesis using miss [OF assms False] Admitted [OF False] by auto
  qed
qed

definition bounded :: "'c \<Rightarrow> bool" where
  "bounded c \<longleftrightarrow> ok c \<and> distinct (workers c) \<and> int (length (workers c)) \<le> limit c + 1"

lemma get_bounded:
  assumes "bounded c" "admissible w"
  obtains b c' where "get w c = Inr (b, c')" "bounded c'" "set (workers c') \<subseteq> insert w (set (workers c))" "w \<in> set (workers c')"
    "cold_starts c' = cold_starts c + (if b then 0 else 1)" "limit c' = limit c"
    "w \<notin> set (workers c) \<and> int (length (workers c)) \<le> limit c \<longrightarrow> workers c' = workers c @ [w]"
    "b \<longleftrightarrow> w \<in> set (workers c)"
proof -
  have c: "ok c" "distinct (workers c)" "int (length (workers c)) \<le> limit c + 1"
    using assms(1) by (auto simp: bounded_def)
  from c(1) assms(2) show ?thesis
  proof (cases rule: get_cases)
    case (Hit c')
    then show ?thesis
      using c by (intro that [of True c'])
        (auto simp: bounded_def dest: mset_eq_setD mset_eq_length mset_eq_imp_distinct_iff)
  next
    case (Admitted c')
    then show ?thesis using c by (intro that [of False c']) (auto simp: bounded_def)
  next
    case (Evicted c' ws x)
    have mset_c: "mset (workers c) = mset (x # ws)" using Evicted(6) by simp
    then have "set (workers c) = insert x (set ws)" "length (workers c) = Suc (length ws)" "distinct (x # ws)"
      using c(2) mset_eq_setD [OF mset_c] mset_eq_length [OF mset_c] mset_eq_imp_distinct_iff [OF mset_c] by auto
    then show ?thesis using Evicted c by (intro that [of False c']) (auto simp: bounded_def)
  qed
qed

lemma requests_bounded:
  assumes "bounded c" "list_all admissible ws"
  obtains bs c' where "requests get ws c = Inr (bs, c')" "bounded c'" "limit c' = limit c" "length bs = length ws"
    "set (workers c') \<subseteq> set (workers c) \<union> set ws" "cold_starts c' = cold_starts c + length (filter Not bs)"
proof -
  have "\<exists>bs c'. requests get ws c = Inr (bs, c') \<and> bounded c' \<and> limit c' = limit c \<and> length bs = length ws \<and>
      set (workers c') \<subseteq> set (workers c) \<union> set ws \<and> cold_starts c' = cold_starts c + length (filter Not bs)"
    using assms
  proof (induction ws arbitrary: c)
    case (Cons w ws)
    have adm: "admissible w" using Cons.prems(2) by simp
    obtain b c1 where g: "get w c = Inr (b, c1)" "bounded c1" "set (workers c1) \<subseteq> insert w (set (workers c))" "w \<in> set (workers c1)"
      "cold_starts c1 = cold_starts c + (if b then 0 else 1)" "limit c1 = limit c"
      "w \<notin> set (workers c) \<and> int (length (workers c)) \<le> limit c \<longrightarrow> workers c1 = workers c @ [w]"
      "b \<longleftrightarrow> w \<in> set (workers c)"
      using Cons.prems(1) adm by (rule get_bounded)
    obtain bs c' where "requests get ws c1 = Inr (bs, c')" "bounded c'" "limit c' = limit c1" "length bs = length ws"
      "set (workers c') \<subseteq> set (workers c1) \<union> set ws" "cold_starts c' = cold_starts c1 + length (filter Not bs)"
      using Cons.IH [OF g(2)] Cons.prems(2) by auto
    then show ?case using g by (intro exI [of _ "b # bs"] exI [of _ c']) auto
  qed simp
  then show ?thesis using that by blast
qed

text \<open>The limit is one short of what the set holds: \<open>limit + 1\<close> different workers all stay.\<close>

lemma requests_fill:
  assumes "bounded c" "list_all admissible ws" "distinct (workers c @ ws)" "int (length (workers c @ ws)) \<le> limit c + 1"
  shows "\<exists>c'. requests get ws c = Inr (replicate (length ws) False, c') \<and> workers c' = workers c @ ws"
  using assms
proof (induction ws arbitrary: c)
  case (Cons w ws)
  have adm: "admissible w" using Cons.prems(2) by simp
  obtain b c1 where g: "get w c = Inr (b, c1)" "bounded c1" "set (workers c1) \<subseteq> insert w (set (workers c))" "w \<in> set (workers c1)"
    "cold_starts c1 = cold_starts c + (if b then 0 else 1)" "limit c1 = limit c"
    "w \<notin> set (workers c) \<and> int (length (workers c)) \<le> limit c \<longrightarrow> workers c1 = workers c @ [w]"
    "b \<longleftrightarrow> w \<in> set (workers c)"
    using Cons.prems(1) adm by (rule get_bounded)
  have "workers c1 = workers c @ [w]" "\<not> b" using g(7,8) Cons.prems(3,4) by auto
  then show ?case using Cons.IH [OF g(2)] g(1,6) Cons.prems(2-4) by auto
qed simp

text \<open>What a run from an empty cache comes to.\<close>

lemma requests_fresh:
  assumes "bounded c" "list_all admissible ws" "workers c = []" "cold_starts c = 0" "limit c = n"
  shows "\<exists>bs c'. requests get ws c = Inr (bs, c') \<and> distinct (workers c') \<and> set (workers c') \<subseteq> set ws \<and>
    int (length (workers c')) \<le> n + 1 \<and> cold_starts c' = length (filter Not bs)"
proof -
  obtain bs c' where "requests get ws c = Inr (bs, c')" "bounded c'" "limit c' = limit c" "length bs = length ws"
    "set (workers c') \<subseteq> set (workers c) \<union> set ws" "cold_starts c' = cold_starts c + length (filter Not bs)"
    using assms(1,2) by (rule requests_bounded)
  then show ?thesis using assms(3-5) by (intro exI [of _ bs] exI [of _ c']) (auto simp: bounded_def)
qed

end

section \<open>The traditional caches\<close>

lemma py_pop_0 [simp]: "xs \<noteq> [] \<Longrightarrow> py_pop 0 xs = Inr (tl xs)"
  by (simp add: py_pop_def drop_Suc)

lemma mset_take_drop_Suc: "n < length xs \<Longrightarrow> mset xs = add_mset (xs ! n) (mset (take n xs @ drop (Suc n) xs))"
  by (metis id_take_nth_drop mset.simps(2) mset_append union_mset_add_mset_right)

text \<open>\<open>pop(i)\<close> succeeds for the indices a list accepts, also the negative ones, and drops one element.\<close>

lemma py_popE:
  assumes "- int (length xs) \<le> i" "i < int (length xs)"
  obtains n where "n < length xs" "py_pop i xs = Inr (take n xs @ drop (Suc n) xs)" "n = nat (if i < 0 then i + int (length xs) else i)"
  using assms by (intro that [of "nat (if i < 0 then i + int (length xs) else i)"]) (auto simp: py_pop_def Let_def)

definition nonneg_limit :: "('w, 'z) base_cache_scheme \<Rightarrow> bool" where
  "nonneg_limit c \<longleftrightarrow> 0 \<le> bc_size c"

lemma admit_first:
  assumes "nonneg_limit c"
  shows "\<exists>c' ws. admit (py_pop 0) w c = Inr (False, c') \<and> nonneg_limit c' \<and> bc_workers c' = ws @ [w] \<and>
    bc_cold_start c' = Suc (bc_cold_start c) \<and> bc_size c' = bc_size c \<and>
    (if bc_size c < int (length (bc_workers c)) then \<exists>x \<in> set (bc_workers c). mset (bc_workers c) = add_mset x (mset ws)
     else ws = bc_workers c)"
  using assms by (cases "bc_workers c") (auto simp: admit_def nonneg_limit_def)

interpretation lru_sim: cache_policy lru_get bc_workers bc_cold_start bc_size "\<lambda>_. True" nonneg_limit
  by unfold_locales (simp add: lru_get_def nonneg_limit_def, simp only: lru_get_def if_False admit_first)

interpretation fifo_sim: cache_policy fifo_get bc_workers bc_cold_start bc_size "\<lambda>_. True" nonneg_limit
  by unfold_locales (simp add: fifo_get_def nonneg_limit_def, simp only: fifo_get_def if_False admit_first)

text \<open>LFU keeps a frequency and a time for every worker.\<close>

definition lfu_ok :: "'w lfu_cache \<Rightarrow> bool" where
  "lfu_ok c \<longleftrightarrow> 0 \<le> bc_size c \<and> length (lfu_frequency c) = length (bc_workers c) \<and> length (lfu_time c) = length (bc_workers c)"

lemma index_of_None [simp]: "w \<notin> set xs \<Longrightarrow> index_of w xs = None"
  by (induction xs) auto

lemma index_of_NoneD: "index_of w xs = None \<Longrightarrow> w \<notin> set xs"
  by (induction xs) (auto split: if_splits)

lemma index_of_SomeD: "index_of w xs = Some i \<Longrightarrow> i < length xs \<and> xs ! i = w"
  by (induction xs arbitrary: i) (auto split: if_splits)

lemma least_frequent_range:
  assumes "0 < length freqs"
  shows "- 1 \<le> least_frequent freqs ticks \<and> least_frequent freqs ticks < int (length freqs)"
  unfolding least_frequent_def
  by (rule fold_invariant [where Q = "\<lambda>t. fst t < length freqs"]) (use assms in \<open>auto dest: set_zip_leftD split: prod.splits\<close>)

lemma lfu_evict:
  assumes "lfu_ok c" "bc_size c < int (length (bc_workers c))" "w \<notin> set (bc_workers c)"
  obtains n c' where "n < length (bc_workers c)" "lfu_get w c = Inr (False, c')" "lfu_ok c'"
    "bc_workers c' = take n (bc_workers c) @ drop (Suc n) (bc_workers c) @ [w]"
    "bc_cold_start c' = Suc (bc_cold_start c)" "bc_size c' = bc_size c"
proof -
  let ?t = "map (\<lambda>x. x + 1) (lfu_time c)" and ?k = "length (bc_workers c)"
  let ?i = "least_frequent (lfu_frequency c) ?t"
  have len: "length (lfu_frequency c) = ?k" "length ?t = ?k" "0 < ?k"
    using assms by (auto simp: lfu_ok_def)
  have i: "- int ?k \<le> ?i" "?i < int ?k"
    using least_frequent_range [of "lfu_frequency c" ?t] len by linarith+
  obtain n where n: "n < ?k" "py_pop ?i (bc_workers c) = Inr (take n (bc_workers c) @ drop (Suc n) (bc_workers c))"
      and n_eq: "n = nat (if ?i < 0 then ?i + int ?k else ?i)"
    using py_popE [OF i] by blast
  have pop: "py_pop ?i xs = Inr (take n xs @ drop (Suc n) xs)" if "length xs = ?k" for xs :: "int list"
    using py_popE [of xs ?i] i n_eq that by (metis (no_types, lifting))
  let ?c = "c\<lparr>bc_workers := take n (bc_workers c) @ drop (Suc n) (bc_workers c) @ [w], bc_cold_start := Suc (bc_cold_start c),
    lfu_frequency := take n (lfu_frequency c) @ drop (Suc n) (lfu_frequency c) @ [1], lfu_time := take n ?t @ drop (Suc n) ?t @ [1]\<rparr>"
  have "index_of w (bc_workers c) = None" using assms by simp
  then have "lfu_get w c = Inr (False, ?c)"
    using assms(2) by (simp add: lfu_get_def Let_def n(2) pop [OF len(1)] pop [OF len(2)])
  moreover have "lfu_ok ?c" using assms(1) len n(1) by (simp add: lfu_ok_def)
  ultimately show ?thesis using that [OF n(1)] by simp
qed

interpretation lfu_sim: cache_policy lfu_get bc_workers bc_cold_start bc_size "\<lambda>_. True" lfu_ok
proof unfold_locales
  fix c :: "'a lfu_cache" and w
  assume ok: "lfu_ok c" and w: "w \<in> set (bc_workers c)"
  obtain i where "index_of w (bc_workers c) = Some i" using w by (cases "index_of w (bc_workers c)") (auto dest: index_of_NoneD)
  then show "\<exists>c'. lfu_get w c = Inr (True, c') \<and> lfu_ok c' \<and> mset (bc_workers c') = mset (bc_workers c) \<and>
      bc_cold_start c' = bc_cold_start c \<and> bc_size c' = bc_size c"
    using ok by (auto simp: lfu_get_def Let_def lfu_ok_def)
next
  fix c :: "'a lfu_cache" and w
  assume ok: "lfu_ok c" and w: "w \<notin> set (bc_workers c)"
  show "\<exists>c' ws. lfu_get w c = Inr (False, c') \<and> lfu_ok c' \<and> bc_workers c' = ws @ [w] \<and> bc_cold_start c' = Suc (bc_cold_start c) \<and>
      bc_size c' = bc_size c \<and>
      (if bc_size c < int (length (bc_workers c)) then \<exists>x \<in> set (bc_workers c). mset (bc_workers c) = add_mset x (mset ws)
       else ws = bc_workers c)"
  proof (cases "bc_size c < int (length (bc_workers c))")
    case True
    then obtain n c' where "n < length (bc_workers c)" "lfu_get w c = Inr (False, c')" "lfu_ok c'"
      "bc_workers c' = take n (bc_workers c) @ drop (Suc n) (bc_workers c) @ [w]"
      "bc_cold_start c' = Suc (bc_cold_start c)" "bc_size c' = bc_size c"
      using lfu_evict [OF ok True w] by blast
    then show ?thesis
      using True mset_take_drop_Suc [of n "bc_workers c"]
      by (intro exI [of _ c'] exI [of _ "take n (bc_workers c) @ drop (Suc n) (bc_workers c)"]) (auto intro!: bexI [of _ "bc_workers c ! n"])
  next
    case False
    then show ?thesis using ok w by (auto simp: lfu_get_def Let_def lfu_ok_def)
  qed
qed

end
