(* ===== verification/PacSearch.thy ===== *)
theory PacSearch
  imports PacPolicy
begin

text \<open>
  The search of the pipeline-aware cache for the worker to let go: it ends, and returns a cached worker whose version has the
  least score of all the cached workers' versions.
\<close>

definition wf_vsm :: "vsm \<Rightarrow> bool" where
  "wf_vsm s \<longleftrightarrow> vm_rows s = 4 \<and> vm_cols s = 4 \<and> length (vm_data s) = 16"

definition valid_version :: "version \<Rightarrow> bool" where
  "valid_version v \<longleftrightarrow> 0 \<le> fst v \<and> fst v < 4 \<and> 0 \<le> snd v \<and> snd v < 4"

definition place :: "version \<Rightarrow> nat" where
  "place v = nat (fst v) * 4 + nat (snd v)"

definition score :: "vsm list \<Rightarrow> worker \<Rightarrow> rat" where
  "score vsms w = vm_data (vsms ! fst w) ! place (snd w)"

lemma place_bound: "valid_version v \<Longrightarrow> place v < 16"
  by (auto simp: valid_version_def place_def)

lemma entry_index_valid: "wf_vsm s \<Longrightarrow> valid_version v \<Longrightarrow> entry_index s v = Inr (place v)"
  by (auto simp: wf_vsm_def valid_version_def entry_index_def place_def Let_def)

lemma vsm_item_valid: "wf_vsm s \<Longrightarrow> valid_version v \<Longrightarrow> vsm_item s v = Inr (vm_data s ! place v)"
  by (simp add: vsm_item_def entry_index_valid)

text \<open>What \<open>numpy.argsort\<close> promises: a permutation of the indices that sorts the values. Equal values come in any order.\<close>

definition is_argsort :: "(rat list \<Rightarrow> nat list) \<Rightarrow> bool" where
  "is_argsort argsort \<longleftrightarrow> (\<forall>d. mset (argsort d) = mset [0..<length d] \<and> sorted (map ((!) d) (argsort d)))"

lemma is_argsort_sort_key: "is_argsort (\<lambda>d. sort_key ((!) d) [0..<length d])"
  by (simp add: is_argsort_def)

lemma place_div_mod: "i < 16 \<Longrightarrow> valid_version (int (i div 4), int (i mod 4)) \<and> place (int (i div 4), int (i mod 4)) = i"
  by (auto simp: valid_version_def place_def)

lemma version_of_place: "valid_version v \<Longrightarrow> v = (int (place v div 4), int (place v mod 4))"
  by (cases v) (auto simp: valid_version_def place_def)

lemma sorted_versions_facts:
  assumes "is_argsort argsort" "wf_vsm s"
  shows "set (sorted_versions argsort s) = {v. valid_version v}"
    and "sorted (map (\<lambda>v. vm_data s ! place v) (sorted_versions argsort s))"
proof -
  let ?is = "argsort (vm_data s)"
  have m: "mset ?is = mset [0..<16]" and so: "sorted (map ((!) (vm_data s)) ?is)"
    using assms by (auto simp: is_argsort_def wf_vsm_def)
  have is_set: "set ?is = {0..<16}"
    using mset_eq_setD [OF m] by simp
  have sv: "sorted_versions argsort s = map (\<lambda>i. (int (i div 4), int (i mod 4))) ?is"
    using assms(2) by (simp add: sorted_versions_def wf_vsm_def)
  have "map (\<lambda>v. vm_data s ! place v) (sorted_versions argsort s) = map ((!) (vm_data s)) ?is"
    unfolding sv by (simp add: is_set place_div_mod)
  with so show "sorted (map (\<lambda>v. vm_data s ! place v) (sorted_versions argsort s))" by metis
  show "set (sorted_versions argsort s) = {v. valid_version v}"
  proof (intro equalityI subsetI)
    fix v
    assume "v \<in> {v. valid_version v}"
    then have v: "valid_version v" by simp
    show "v \<in> set (sorted_versions argsort s)"
      unfolding sv using version_of_place [OF v] place_bound [OF v] is_set
      by (auto intro: image_eqI [where x = "place v"])
  qed (auto simp: sv is_set place_div_mod)
qed

lemma min_index_facts:
  assumes "xs \<noteq> []"
  shows "min_index xs < length xs" "i < length xs \<Longrightarrow> xs ! min_index xs \<le> xs ! i"
proof -
  have "Min (set xs) \<in> set xs" using assms by simp
  then obtain k where k: "index_of (Min (set xs)) xs = Some k"
    by (cases "index_of (Min (set xs)) xs") (auto dest: index_of_NoneD)
  then show "min_index xs < length xs" "i < length xs \<Longrightarrow> xs ! min_index xs \<le> xs ! i"
    using index_of_SomeD [OF k] by (simp_all add: min_index_def)
qed

text \<open>The state of the search: no worker lies before its component's pointer.\<close>

definition search_ok :: "version list list \<Rightarrow> vsm list \<Rightarrow> worker list \<Rightarrow> nat list \<Rightarrow> bool" where
  "search_ok ids vsms workers pointers \<longleftrightarrow>
     (\<forall>g < length pointers. wf_vsm (vsms ! g) \<and> (\<forall>v \<in> set (ids ! g). valid_version v \<and> score vsms (g, v) < 9999) \<and>
        sorted (map (\<lambda>v. score vsms (g, v)) (ids ! g)) \<and> pointers ! g < length (ids ! g)) \<and>
     (\<forall>(g, u) \<in> set workers. g < length pointers \<and> u \<in> set (drop (pointers ! g) (ids ! g)))"

lemma search_okD:
  assumes "search_ok ids vsms workers pointers" "g < length pointers"
  shows "wf_vsm (vsms ! g)" "\<And>v. v \<in> set (ids ! g) \<Longrightarrow> valid_version v" "\<And>v. v \<in> set (ids ! g) \<Longrightarrow> score vsms (g, v) < 9999"
    "sorted (map (\<lambda>v. score vsms (g, v)) (ids ! g))" "pointers ! g < length (ids ! g)"
  using assms by (auto simp: search_ok_def)

lemma search_ok_worker:
  assumes "search_ok ids vsms workers pointers" "(g, u) \<in> set workers"
  shows "g < length pointers" "u \<in> set (drop (pointers ! g) (ids ! g))"
  using assms by (auto simp: search_ok_def)

lemma sorted_drop_least:
  assumes "sorted (map f xs)" "p < length xs" "u \<in> set (drop p xs)"
  shows "f (xs ! p) \<le> f u"
proof -
  obtain k where "k < length xs - p" "u = xs ! (p + k)"
    using assms(3) by (auto simp: in_set_conv_nth)
  then show ?thesis using assms(1,2) by (auto simp: sorted_iff_nth_mono)
qed

lemma pointed_scores_ok:
  assumes "search_ok ids vsms workers pointers"
  shows "pointed_scores ids vsms workers pointers =
    Inr (map (\<lambda>f. if f \<in> fst ` set workers then score vsms (f, ids ! f ! (pointers ! f)) else 9999) [0..<length pointers])"
  unfolding pointed_scores_def
proof (rule res_map_all_Inr)
  fix f
  assume "f \<in> set [0..<length pointers]"
  then have f: "f < length pointers" by simp
  then show "res_bind (py_index (ids ! f) (int (pointers ! f))) (\<lambda>v. res_bind (vsm_item (vsms ! f) v) (\<lambda>x.
      Inr (if f \<in> fst ` set workers then x else 9999))) =
      Inr (if f \<in> fst ` set workers then score vsms (f, ids ! f ! (pointers ! f)) else 9999)"
    using search_okD [OF assms f] by (simp add: vsm_item_valid score_def)
qed

text \<open>One round: the component it looks at has a worker, and nothing cached scores less than the version there.\<close>

lemma search_round:
  assumes ok: "search_ok ids vsms workers pointers" and ne: "workers \<noteq> []"
    and run: "pointed_scores ids vsms workers pointers = Inr scores"
  defines "f \<equiv> min_index scores" and "v \<equiv> ids ! min_index scores ! (pointers ! min_index scores)"
  shows "f < length pointers" "(g, u) \<in> set workers \<Longrightarrow> score vsms (f, v) \<le> score vsms (g, u)" "f \<in> fst ` set workers"
proof -
  let ?s = "\<lambda>f. if f \<in> fst ` set workers then score vsms (f, ids ! f ! (pointers ! f)) else 9999"
  have scores: "scores = map ?s [0..<length pointers]"
    using run pointed_scores_ok [OF ok] by simp
  obtain g0 u0 where g0: "(g0, u0) \<in> set workers" using ne by (cases workers) auto
  have "scores \<noteq> []" using search_ok_worker(1) [OF ok g0] by (auto simp: scores)
  note m = min_index_facts [OF this]
  show f: "f < length pointers" using m(1) by (simp add: f_def scores)
  have nth: "scores ! g = ?s g" if "g < length pointers" for g
    using that by (simp add: scores)
  have len: "length scores = length pointers" by (simp add: scores)
  have least: "?s f \<le> ?s g" if "g < length pointers" for g
    using m(2) [of g] that unfolding len f_def [symmetric] nth [OF f] nth [OF that] by blast
  have below: "?s g \<le> score vsms (g, u)" "?s g < 9999" "g < length pointers" if w: "(g, u) \<in> set workers" for g u
  proof -
    note g = search_ok_worker [OF ok w]
    show "g < length pointers" by (rule g(1))
    note d = search_okD [OF ok g(1)]
    have "g \<in> fst ` set workers" using w by force
    then show "?s g \<le> score vsms (g, u)" "?s g < 9999"
      using sorted_drop_least [OF d(4) d(5) g(2)] d(3) [OF nth_mem [OF d(5)]] by simp_all
  qed
  have "?s f < 9999" using least [OF below(3) [OF g0]] below(2) [OF g0] by linarith
  then show fw: "f \<in> fst ` set workers" by (auto split: if_splits)
  show "score vsms (f, v) \<le> score vsms (g, u)" if "(g, u) \<in> set workers"
    using least [OF below(3) [OF that]] below(1) [OF that] fw by (simp add: v_def f_def)
qed

lemma search_ok_advance:
  assumes ok: "search_ok ids vsms workers pointers" and f: "f < length pointers" "f \<in> fst ` set workers"
    and nw: "(f, ids ! f ! (pointers ! f)) \<notin> set workers"
  shows "search_ok ids vsms workers (pointers[f := Suc (pointers ! f)])"
proof -
  have drop: "drop (pointers ! f) (ids ! f) = ids ! f ! (pointers ! f) # drop (Suc (pointers ! f)) (ids ! f)"
    using search_okD(5) [OF ok f(1)] by (simp add: Cons_nth_drop_Suc)
  have moved: "u \<in> set (drop (Suc (pointers ! f)) (ids ! f))" if "(f, u) \<in> set workers" for u
    using search_ok_worker(2) [OF ok that] nw that unfolding drop by auto
  obtain u where "(f, u) \<in> set workers" using f(2) by force
  then have "Suc (pointers ! f) < length (ids ! f)"
    using moved by (cases "Suc (pointers ! f) < length (ids ! f)") fastforce+
  then show ?thesis
    using ok f(1) moved unfolding search_ok_def by (auto simp: nth_list_update)
qed

lemma search_worker_least:
  assumes "search_ok ids vsms workers pointers" "workers \<noteq> []"
  shows "\<exists>w. search_worker ids vsms workers pointers = Inr w \<and> w \<in> set workers \<and>
    (\<forall>x \<in> set workers. score vsms w \<le> score vsms x)"
  using assms
proof (induction ids vsms workers pointers rule: search_worker.induct)
  case (1 ids vsms workers pointers)
  obtain scores where run: "pointed_scores ids vsms workers pointers = Inr scores"
    using pointed_scores_ok [OF 1(2)] by blast
  let ?f = "min_index scores"
  let ?v = "ids ! ?f ! (pointers ! ?f)"
  note round = search_round [OF 1(2) 1(3) run]
  show ?case
  proof (cases "(?f, ?v) \<in> set workers")
    case True
    then have "search_worker ids vsms workers pointers = Inr (?f, ?v)"
      by (simp add: search_worker.simps [of ids] run Let_def)
    then show ?thesis using True round(2) by auto
  next
    case False
    have "search_worker ids vsms workers pointers = search_worker ids vsms workers (pointers[?f := Suc (pointers ! ?f)])"
      using False round(1) by (simp add: search_worker.simps [of ids vsms workers pointers] run Let_def)
    then show ?thesis
      using 1(1) [OF run refl refl False round(1) search_ok_advance [OF 1(2) round(1) round(3) False] 1(3)] by simp
  qed
qed

text \<open>The caches in which the search starts: five well-formed matrices, scores below 9999, workers whose versions exist.\<close>

definition pac_ready :: "vsm list \<Rightarrow> worker list \<Rightarrow> bool" where
  "pac_ready vsms workers \<longleftrightarrow> length vsms = 5 \<and> list_all (\<lambda>s. wf_vsm s \<and> list_all (\<lambda>x. x < 9999) (vm_data s)) vsms \<and>
     list_all (\<lambda>(f, v). f < 5 \<and> valid_version v) workers"

lemma search_ok_start:
  assumes "is_argsort argsort" "pac_ready vsms workers"
  shows "search_ok (map (sorted_versions argsort) vsms) vsms workers (replicate 5 0)"
proof -
  have vs: "length vsms = 5" "\<And>f. f < 5 \<Longrightarrow> wf_vsm (vsms ! f)" "\<And>f i. f < 5 \<Longrightarrow> i < 16 \<Longrightarrow> vm_data (vsms ! f) ! i < 9999"
    using assms(2) by (auto simp: pac_ready_def list_all_length wf_vsm_def)
  have ws: "f < 5 \<and> valid_version v" if "(f, v) \<in> set workers" for f v
    using assms(2) that by (auto simp: pac_ready_def list_all_iff)
  note sv = sorted_versions_facts [OF assms(1) vs(2)]
  have "valid_version (0, 0)" by (simp add: valid_version_def)
  then have "sorted_versions argsort (vsms ! f) \<noteq> []" if "f < 5" for f
    using sv(1) [OF that] by (metis empty_iff empty_set mem_Collect_eq)
  then show ?thesis
    unfolding search_ok_def using vs ws sv by (auto simp: score_def place_bound)
qed

lemma least_possible_worker_least:
  assumes "is_argsort argsort" "pac_ready (pc_vsms c) (bc_workers c)" "bc_workers c \<noteq> []"
  shows "\<exists>w. least_possible_worker argsort c = Inr w \<and> w \<in> set (bc_workers c) \<and>
    (\<forall>x \<in> set (bc_workers c). score (pc_vsms c) w \<le> score (pc_vsms c) x)"
proof -
  have "list_all (\<lambda>(f, v). f < NUM_PIPELINE_LENGTH) (bc_workers c)"
    using assms(2) by (auto simp: pac_ready_def NUM_PIPELINE_LENGTH_def list_all_iff)
  then show ?thesis
    using search_worker_least [OF search_ok_start [OF assms(1,2)] assms(3)]
    by (simp add: least_possible_worker_def NUM_PIPELINE_LENGTH_def)
qed

end
