(* ===== verification/PacThms.thy ===== *)
theory PacThms
  imports PacProps
begin

text \<open>
  The pipeline-aware cache as a \<open>cache_policy\<close>, a simulation over a list of pipelines as the driver of
  \<^verbatim>\<open>test_pac.py\<close> runs it, and the properties of the simulator.
\<close>

section \<open>The invariant of the pipeline-aware cache\<close>

definition pac_ok :: "pac_cache \<Rightarrow> bool" where
  "pac_ok c \<longleftrightarrow> distributions (pc_vsms c) \<and> history_ok (pc_history c) \<and> 0 \<le> bc_size c \<and>
     list_all (\<lambda>(f, v). f < 5 \<and> valid_version v) (bc_workers c)"

lemma pac_init_ok: "0 \<le> n \<Longrightarrow> 0 \<le> alpha \<Longrightarrow> alpha \<le> 1 \<Longrightarrow> pac_ok (pac_init n m alpha)"
  by (simp add: pac_ok_def pac_init_def distributions_def generate_score_matrices_def NUM_PIPELINE_LENGTH_def history_init_ok
    list_all_iff vsm_init_distribution)

text \<open>Scores of a distribution are at most 1, so the search of the last section applies.\<close>

lemma member_below_sum: "\<forall>x \<in> set xs. 0 \<le> x \<Longrightarrow> x \<in> set xs \<Longrightarrow> x \<le> sum_list xs" for x :: rat
  by (induction xs) (auto intro: add_increasing add_increasing2 sum_list_nonneg)

lemma distribution_below: "is_distribution s \<Longrightarrow> x \<in> set (vm_data s) \<Longrightarrow> x < 9999"
  using member_below_sum [of "vm_data s" x] by (simp add: is_distribution_def list_all_iff)

lemma pac_ok_ready: "pac_ok c \<Longrightarrow> pac_ready (pc_vsms c) (bc_workers c)"
  by (auto simp: pac_ok_def pac_ready_def distributions_def list_all_iff distribution_below) (simp add: is_distribution_def)

interpretation pac_sim: cache_policy "pac_get argsort" bc_workers bc_cold_start bc_size "\<lambda>(f, v). f < 5 \<and> valid_version v"
  "\<lambda>c. is_argsort argsort \<and> pac_ok c" for argsort
proof unfold_locales
  fix c :: pac_cache and w
  assume ok: "is_argsort argsort \<and> pac_ok c" and w: "case w of (f, v) \<Rightarrow> f < 5 \<and> valid_version v" "w \<notin> set (bc_workers c)"
  show "\<exists>c' ws. pac_get argsort w c = Inr (False, c') \<and> (is_argsort argsort \<and> pac_ok c') \<and> bc_workers c' = ws @ [w] \<and>
      bc_cold_start c' = Suc (bc_cold_start c) \<and> bc_size c' = bc_size c \<and>
      (if bc_size c < int (length (bc_workers c)) then \<exists>x \<in> set (bc_workers c). mset (bc_workers c) = add_mset x (mset ws)
       else ws = bc_workers c)"
  proof (cases "bc_size c < int (length (bc_workers c))")
    case True
    then have "bc_workers c \<noteq> []" using ok by (auto simp: pac_ok_def)
    then obtain x where x: "least_possible_worker argsort c = Inr x" "x \<in> set (bc_workers c)"
      using least_possible_worker_least [OF _ pac_ok_ready] ok by blast
    have "pac_ok (c\<lparr>bc_workers := remove1 x (bc_workers c) @ [w], bc_cold_start := Suc (bc_cold_start c)\<rparr>)"
      using ok w(1) by (auto simp: pac_ok_def list_all_iff dest: notin_set_remove1)
    then show ?thesis
      using True ok w(2) x by (auto simp: pac_get_def intro!: exI [of _ "remove1 x (bc_workers c)"] bexI [of _ x])
  next
    case False
    have "pac_ok (c\<lparr>bc_workers := bc_workers c @ [w], bc_cold_start := Suc (bc_cold_start c)\<rparr>)"
      using ok w(1) by (auto simp: pac_ok_def)
    then show ?thesis using False ok w(2) by (auto simp: pac_get_def)
  qed
qed (auto simp: pac_get_def)

lemma pac_update_ok:
  assumes "pac_ok c" "\<And>vsms h. distributions vsms \<Longrightarrow> history_ok h \<Longrightarrow> \<exists>vsms'. f vsms h = Inr vsms' \<and> distributions vsms'"
  shows "\<exists>c'. pac_update f c = Inr c' \<and> pac_ok c' \<and> bc_workers c' = bc_workers c \<and> bc_cold_start c' = bc_cold_start c \<and> bc_size c' = bc_size c"
  using assms(1) assms(2) [of "pc_vsms c" "pc_history c"] by (auto simp: pac_update_def pac_ok_def)

section \<open>Simulations\<close>

text \<open>One pipeline: its components are requested, it joins the history, and the enabled transforms run.\<close>

definition pipeline_iter :: "(rat list \<Rightarrow> nat list) \<Rightarrow> bool \<Rightarrow> bool \<Rightarrow> pipeline \<Rightarrow> pac_cache \<Rightarrow> pac_cache result" where
  "pipeline_iter argsort enable_sl enable_ul p c =
     res_bind (requests (pac_get argsort) (pipeline_items p) c) (\<lambda>(_, c1).
     res_bind (history_append p (pc_history c1)) (\<lambda>h.
     res_bind (if enable_sl then pac_update vsm_transform_sl (c1\<lparr>pc_history := h\<rparr>) else Inr (c1\<lparr>pc_history := h\<rparr>)) (\<lambda>c2.
       if enable_ul then pac_update vsm_transform_ul c2 else Inr c2)))"

text \<open>A simulation: a fresh cache and all the pipelines, and the cold starts in the end.\<close>

definition simulate :: "(rat list \<Rightarrow> nat list) \<Rightarrow> int \<Rightarrow> int \<Rightarrow> rat \<Rightarrow> bool \<Rightarrow> bool \<Rightarrow> version list list \<Rightarrow> pac_cache result" where
  "simulate argsort max_history worker_set_size alpha enable_sl enable_ul ps =
     res_fold (\<lambda>p c. res_bind (from_version_list p) (\<lambda>q. pipeline_iter argsort enable_sl enable_ul q c)) ps
       (pac_init worker_set_size max_history alpha)"

lemma from_version_list_valid: "list_all valid_version p \<Longrightarrow> from_version_list p = Inr p"
proof (induction p)
  case (Cons v p)
  then show ?case by (cases v) (auto simp: from_version_list_def to_int32_def wrap32_def valid_version_def)
qed (simp add: from_version_list_def)

lemma pipeline_iter_ok:
  assumes c: "pac_ok c" "distinct (bc_workers c)" "int (length (bc_workers c)) \<le> bc_size c + 1" and so: "is_argsort argsort"
    and p: "length p = 5" "list_all valid_version p"
  shows "\<exists>c'. pipeline_iter argsort sl ul p c = Inr c' \<and> pac_ok c' \<and> distinct (bc_workers c') \<and>
    int (length (bc_workers c')) \<le> bc_size c' + 1 \<and> bc_size c' = bc_size c \<and> bc_cold_start c' \<le> bc_cold_start c + 5"
proof -
  have adm: "list_all (\<lambda>(f, v). f < 5 \<and> valid_version v) (pipeline_items p)"
    using p by (auto simp: pipeline_items_def list_all_iff dest: set_zip_leftD set_zip_rightD)
  have "pac_sim.bounded argsort c" unfolding pac_sim.bounded_def using c so by simp
  then obtain bs c1 where c1: "requests (pac_get argsort) (pipeline_items p) c = Inr (bs, c1)" "pac_sim.bounded argsort c1" "bc_size c1 = bc_size c"
      "length bs = length (pipeline_items p)" "set (bc_workers c1) \<subseteq> set (bc_workers c) \<union> set (pipeline_items p)"
      "bc_cold_start c1 = bc_cold_start c + length (filter Not bs)"
    using adm by (rule pac_sim.requests_bounded)
  have c1_ok: "pac_ok c1" "distinct (bc_workers c1)" "int (length (bc_workers c1)) \<le> bc_size c1 + 1"
    using c1(2) unfolding pac_sim.bounded_def by simp_all
  have cold: "bc_cold_start c1 \<le> bc_cold_start c + 5"
    using length_filter_le [of Not bs] c1(4,6) p(1) by (simp add: pipeline_items_def)
  obtain h where h: "history_append p (pc_history c1) = Inr h" "history_ok h"
    using history_append_ok [of "pc_history c1" p] c1_ok(1) p by (auto simp: pac_ok_def)
  let ?c = "c1\<lparr>pc_history := h\<rparr>"
  have ok: "pac_ok ?c" using c1_ok(1) h(2) by (simp add: pac_ok_def)
  obtain c2 where c2: "(if sl then pac_update vsm_transform_sl ?c else Inr ?c) = Inr c2" "pac_ok c2"
    "bc_workers c2 = bc_workers c1" "bc_cold_start c2 = bc_cold_start c1" "bc_size c2 = bc_size c1"
    using pac_update_ok [OF ok, of vsm_transform_sl] vsm_transform_sl_distributions ok by (cases sl) auto
  obtain c3 where c3: "(if ul then pac_update vsm_transform_ul c2 else Inr c2) = Inr c3" "pac_ok c3"
    "bc_workers c3 = bc_workers c2" "bc_cold_start c3 = bc_cold_start c2" "bc_size c3 = bc_size c2"
    using pac_update_ok [OF c2(2), of vsm_transform_ul] vsm_transform_ul_distributions c2(2) by (cases ul) auto
  show ?thesis
    using c1 c1_ok cold h c2 c3 by (intro exI [of _ c3]) (simp add: pipeline_iter_def)
qed

lemma simulate_ok:
  assumes "is_argsort argsort" "0 \<le> n" "0 \<le> alpha" "alpha \<le> 1" "\<And>p. p \<in> set ps \<Longrightarrow> length p = 5 \<and> list_all valid_version p"
  shows "\<exists>c. simulate argsort m n alpha sl ul ps = Inr c \<and> pac_ok c \<and> distinct (bc_workers c) \<and> int (length (bc_workers c)) \<le> n + 1 \<and> bc_size c = n"
proof -
  let ?P = "\<lambda>c. pac_ok c \<and> distinct (bc_workers c) \<and> int (length (bc_workers c)) \<le> n + 1 \<and> bc_size c = n"
  show ?thesis
    unfolding simulate_def
  proof (rule res_fold_total [where P = ?P])
    show "?P (pac_init n m alpha)" using pac_init_ok [OF assms(2-4)] assms(2) by (simp add: pac_init_def)
    fix p c
    assume "p \<in> set ps" and c: "?P c"
    then have p: "length p = 5" "list_all valid_version p" using assms(5) by auto
    show "\<exists>c'. res_bind (from_version_list p) (\<lambda>q. pipeline_iter argsort sl ul q c) = Inr c' \<and> ?P c'"
      using pipeline_iter_ok [OF _ _ _ assms(1) p, of c sl ul] c by (auto simp: from_version_list_valid p(2))
  qed
qed

section \<open>The properties\<close>

text \<open>
  C35 (bounds). A traditional cache (LRU, FIFO, LFU) with a worker set size of \<open>n\<close> serves every sequence of requests without
  failing, holds only requested workers, each once, at most \<open>n + 1\<close> of them, and counts one cold start for every miss. The
  bound is reached: \<open>n + 1\<close> different workers all stay, one more than the worker set size.
\<close>

theorem traditional_caches_bounded:
  assumes "0 \<le> n"
  shows "(\<exists>bs c. requests lru_get ws (base_cache_init n) = Inr (bs, c) \<and> distinct (bc_workers c) \<and> set (bc_workers c) \<subseteq> set ws \<and>
      int (length (bc_workers c)) \<le> n + 1 \<and> bc_cold_start c = length (filter Not bs)) \<and>
    (\<exists>bs c. requests fifo_get ws (base_cache_init n) = Inr (bs, c) \<and> distinct (bc_workers c) \<and> set (bc_workers c) \<subseteq> set ws \<and>
      int (length (bc_workers c)) \<le> n + 1 \<and> bc_cold_start c = length (filter Not bs)) \<and>
    (\<exists>bs c. requests lfu_get ws (lfu_init n) = Inr (bs, c) \<and> distinct (bc_workers c) \<and> set (bc_workers c) \<subseteq> set ws \<and>
      int (length (bc_workers c)) \<le> n + 1 \<and> bc_cold_start c = length (filter Not bs)) \<and>
    (distinct ws \<longrightarrow> int (length ws) \<le> n + 1 \<longrightarrow>
      (\<exists>c. requests lru_get ws (base_cache_init n) = Inr (replicate (length ws) False, c) \<and> bc_workers c = ws) \<and>
      (\<exists>c. requests fifo_get ws (base_cache_init n) = Inr (replicate (length ws) False, c) \<and> bc_workers c = ws) \<and>
      (\<exists>c. requests lfu_get ws (lfu_init n) = Inr (replicate (length ws) False, c) \<and> bc_workers c = ws))"
proof -
  have b: "lru_sim.bounded (base_cache_init n)" "fifo_sim.bounded (base_cache_init n)" "lfu_sim.bounded (lfu_init n)"
    using assms by (simp_all add: lru_sim.bounded_def fifo_sim.bounded_def lfu_sim.bounded_def nonneg_limit_def lfu_ok_def base_cache_init_def lfu_init_def)
  have init: "bc_workers (base_cache_init n) = []" "bc_cold_start (base_cache_init n) = 0" "bc_size (base_cache_init n) = n"
    "bc_workers (lfu_init n) = []" "bc_cold_start (lfu_init n) = 0" "bc_size (lfu_init n) = n"
    by (simp_all add: base_cache_init_def lfu_init_def)
  have adm: "list_all (\<lambda>_. True) ws" by (simp add: list_all_iff)
  show ?thesis
    using lru_sim.requests_fresh [OF b(1) adm] fifo_sim.requests_fresh [OF b(2) adm] lfu_sim.requests_fresh [OF b(3) adm]
      lru_sim.requests_fill [OF b(1) adm] fifo_sim.requests_fill [OF b(2) adm] lfu_sim.requests_fill [OF b(3) adm]
    by (intro conjI impI) (simp_all add: init)
qed

theorem traditional_caches_bounded_witness:
  "\<exists>c. requests lru_get [''a'', ''b''] (base_cache_init 1) = Inr ([False, False], c) \<and> bc_workers c = [''a'', ''b'']"
  using traditional_caches_bounded [of 1 "[''a'', ''b'']"] by simp

text \<open>
  C34 (termination). When the pipeline-aware cache must let a worker go, its search ends, whatever order \<open>argsort\<close> gives equal
  scores: for five matrices of existing versions with scores below 9999 and a non-empty set of workers of existing
  versions, it returns a cached worker, and no cached worker's version has a smaller score.
\<close>

theorem worker_search_terminates:
  assumes "is_argsort argsort" and "pac_ready (pc_vsms c) (bc_workers c)" and "bc_workers c \<noteq> []"
  shows "\<exists>w. least_possible_worker argsort c = Inr w \<and> w \<in> set (bc_workers c) \<and>
    (\<forall>x \<in> set (bc_workers c). score (pc_vsms c) w \<le> score (pc_vsms c) x)"
  using assms by (rule least_possible_worker_least)

definition two_workers :: pac_cache where
  "two_workers = (pac_init 1 8 (1 / 5))\<lparr>bc_workers := [(0, (0, 0)), (3, (1, 2))]\<rparr>"

theorem worker_search_terminates_witness:
  "\<exists>w. least_possible_worker (\<lambda>d. sort_key ((!) d) [0..<length d]) two_workers = Inr w \<and> w \<in> {(0, (0, 0)), (3, (1, 2))}"
proof -
  have "pac_ok two_workers"
    using pac_init_ok [of 1 "1 / 5" 8] by (simp add: two_workers_def pac_ok_def valid_version_def)
  moreover have "bc_workers two_workers = [(0, (0, 0)), (3, (1, 2))]" by (simp add: two_workers_def)
  ultimately show ?thesis
    using worker_search_terminates [OF is_argsort_sort_key pac_ok_ready, of two_workers] by auto
qed



end
