(* ===== verification/UstoreReturn.thy ===== *)
theory UstoreReturn
  imports Storage Utils
begin

text \<open>
  The replies of the UStore server: how the C++ side prints them (\<^verbatim>\<open>include/seccask/ustore.h\<close>) and how the classes
  \<open>BaseReturn\<close>, \<open>GetReturn\<close>, ..., \<open>MergeReturn\<close> of \<^verbatim>\<open>pysrc/pipeman/store/ustorecli.py\<close> parse them. A match of a regular expression is the
  dictionary of its named groups. The colour macros of the UStore library are parameters.
\<close>

section \<open>Printing\<close>

definition string_get_return :: "(string \<Rightarrow> string) \<Rightarrow> string \<Rightarrow> string \<Rightarrow> string" where
  "string_get_return bold_green type_text v =
     bold_green ''[SUCCESS: GET] '' @ ''Value<'' @ type_text @ ''>: '' @ [CHR 0x22] @ v @ [CHR 0x22]"

definition blob_get_return :: "(string \<Rightarrow> string) \<Rightarrow> string \<Rightarrow> string \<Rightarrow> string" where
  "blob_get_return bold_green type_text hash = bold_green ''[SUCCESS: GET] '' @ ''Value<'' @ type_text @ ''>: '' @ hash"

definition put_return :: "(string \<Rightarrow> string) \<Rightarrow> string \<Rightarrow> string" where
  "put_return bold_green hash = bold_green ''[SUCCESS: PUT] '' @ ''Version: '' @ hash"

definition failed_return :: "(string \<Rightarrow> string) \<Rightarrow> (string \<Rightarrow> string) \<Rightarrow> string \<Rightarrow> string \<Rightarrow> string \<Rightarrow> nat \<Rightarrow> string \<Rightarrow> string" where
  "failed_return bold_red red action key br error_code error_message =
     bold_red (''[FAILED: '' @ action @ ''] '') @ ''Key: '' @ [CHR 0x22] @ key @ [CHR 0x22] @ '', '' @ ''Branch: '' @ [CHR 0x22] @ br @ [CHR 0x22]
     @ red ('' --> Error('' @ nat_str error_code @ ''): '' @ error_message)"

definition file_not_found_return :: "(string \<Rightarrow> string) \<Rightarrow> string \<Rightarrow> string" where
  "file_not_found_return bold_red file_path = bold_red ''[FAILED: PUT] '' @ file_path @ ''does not exist''"

section \<open>Parsing\<close>

text \<open>The class \<open>.\<close> of regular expressions: everything but a newline.\<close>

definition not_newline :: "char \<Rightarrow> bool" where
  "not_newline c \<longleftrightarrow> c \<noteq> CHR 0x0A"

definition RET_SUCCESS :: string where "RET_SUCCESS = ''SUCCESS''"

definition REGEX_HEADER :: "re_item list" where
  "REGEX_HEADER = [RLit ''['', RStar not_space, RSkip is_space, RLit '':'', RSkip is_space, RStar not_space, RLit ''] '', RStar not_newline]"

definition parse_body :: "string \<Rightarrow> (bool \<times> string) result" where
  "parse_body stdout_text =
     (case re_search REGEX_HEADER (remove_ansi_color_escape stdout_text) of
        Some ([is_success, action_taken, body], _) \<Rightarrow> Inr (is_success = RET_SUCCESS, body)
      | _ \<Rightarrow> Inl RuntimeError)"

text \<open>\<open>__init__\<close>: without success there is no attribute \<open>values\<close>.\<close>

definition base_return :: "(string \<Rightarrow> py_value result) \<Rightarrow> string \<Rightarrow> reply result" where
  "base_return parse_content stdout_text =
     res_bind (parse_body stdout_text) (\<lambda>(is_success, body).
       if is_success then res_bind (parse_content body) (\<lambda>v. Inr (CliReturn True v)) else Inr (CliReturn False VNone))"

fun contains_str :: "string \<Rightarrow> string \<Rightarrow> bool" where
  "contains_str sub [] = (sub = [])"
| "contains_str sub (c # s) = (starts_with sub (c # s) \<or> contains_str sub s)"

definition REGEX_VALUE :: "re_item list" where
  "REGEX_VALUE = [RLit ''Value<'', RStar not_space, RLit ''>:'', ROne is_space, RStar not_newline]"

text \<open>The groups are the type, two unnamed ones around the file name, and the size.\<close>

definition REGEX_FILE :: "re_item list" where
  "REGEX_FILE = [RLit ''Value<'', RStar not_space, RLit ''>:'', RStar not_newline, RLit ''-->'', RStar not_newline,
     RStar not_space, RStar not_newline, RLit ''['', RStar not_space, RLit '']'']"

definition get_parse :: "string \<Rightarrow> py_value result" where
  "get_parse body =
     (if \<not> contains_str ''-->'' body then
        (case re_search REGEX_VALUE (str_replace [CHR 0x22] [] body) of
           Some ([t, v], _) \<Rightarrow> Inr (VDict [(''Type'', Some t), (''Value'', Some v)])
         | _ \<Rightarrow> Inl RuntimeError)
      else
        (case re_search REGEX_FILE body of
           Some ([t, g2, g3, file_name, g5, size_text], _) \<Rightarrow>
             Inr (VDict [(''Type'', Some t), (''FileName'', Some file_name), (''Size'', Some size_text)])
         | _ \<Rightarrow> Inl RuntimeError))"

text \<open>\<open>dict(item.split(": ") for item in text.split(", "))\<close>: every item must be a pair.\<close>

definition put_parse :: "string \<Rightarrow> py_value result" where
  "put_parse body =
     res_bind (res_map (\<lambda>item. case str_split '': '' item of [k, v] \<Rightarrow> Inr (k, Some v) | _ \<Rightarrow> Inl ValueError) (str_split '', '' body))
       (\<lambda>kvs. Inr (VDict (fold (\<lambda>(k, v). od_set k v) kvs [])))"

definition REGEX_LIST :: "re_item list" where
  "REGEX_LIST = [RSkip not_newline, RLit ''['', RStar not_newline, RLit '']'']"

definition list_parse :: "string \<Rightarrow> py_value result" where
  "list_parse body =
     (case re_search REGEX_LIST (str_replace '' '' [] (str_replace [CHR 0x22] [] body)) of
        Some ([l], _) \<Rightarrow> Inr (VList (str_split '','' l))
      | _ \<Rightarrow> Inl RuntimeError)"

definition REGEX_HEAD :: "re_item list" where
  "REGEX_HEAD = [RLit ''Version: '', RStar not_space]"

definition head_parse :: "string \<Rightarrow> py_value result" where
  "head_parse body = (case re_search REGEX_HEAD body of Some ([v], _) \<Rightarrow> Inr (VStr v) | _ \<Rightarrow> Inl RuntimeError)"

definition branch_parse :: "string \<Rightarrow> py_value result" where
  "branch_parse body = Inr (VStr body)"

definition REGEX_META :: "re_item list" where
  "REGEX_META = [RSkip not_newline, RLit '' Parents: ['', RStar (\<lambda>_. True), RLit '']'']"

definition meta_parse :: "string \<Rightarrow> py_value result" where
  "meta_parse body =
     (case re_search REGEX_META body of
        Some ([parents], _) \<Rightarrow>
          let r = str_replace '' '' [] parents in Inr (if r = ''<null>'' then VNone else VList (str_split '','' r))
      | _ \<Rightarrow> Inl RuntimeError)"

definition REGEX_MERGE :: "re_item list" where
  "REGEX_MERGE = [RLit ''Version: '', RStar not_space]"

definition merge_parse :: "string \<Rightarrow> py_value result" where
  "merge_parse body = (case re_search REGEX_MERGE body of Some ([v], _) \<Rightarrow> Inr (VDict [(''Version'', Some v)]) | _ \<Rightarrow> Inl RuntimeError)"

abbreviation "get_return \<equiv> base_return get_parse"

section \<open>Reading back what is printed\<close>

text \<open>The colour macros wrap text in escapes.\<close>

definition colours :: "(string \<Rightarrow> string) \<Rightarrow> bool" where
  "colours paint \<longleftrightarrow> (\<forall>x y. CHR 0x1B \<notin> set x \<longrightarrow> CHR 0x9B \<notin> set x \<longrightarrow>
     remove_ansi_color_escape (paint x @ y) = x @ remove_ansi_color_escape y)"

definition plain_text :: "string \<Rightarrow> bool" where
  "plain_text s \<longleftrightarrow> CHR 0x1B \<notin> set s \<and> CHR 0x9B \<notin> set s"

lemma remove_ansi_prefix:
  "plain_text x \<Longrightarrow> remove_ansi_color_escape (x @ y) = x @ remove_ansi_color_escape y"
proof (induction x)
  case (Cons c x)
  then have "ansi_escape ((c # x) @ y) = None" by (auto simp: ansi_escape_def starts_with_def plain_text_def)
  with Cons show ?case by (subst remove_ansi_color_escape.simps) (simp add: plain_text_def)
qed simp

lemma remove_ansi_skip: "ansi_escape s = Some r \<Longrightarrow> remove_ansi_color_escape s = remove_ansi_color_escape r"
  by (subst remove_ansi_color_escape.simps) simp

text \<open>The macros of the library: \<open>ESC [1m ESC [32m ... ESC [0m\<close>.\<close>

definition ansi_bold_green :: "string \<Rightarrow> string" where
  "ansi_bold_green x = [CHR 0x1B] @ ''[1m'' @ [CHR 0x1B] @ ''[32m'' @ x @ [CHR 0x1B] @ ''[0m''"

lemma ansi_bold_green_colours: "colours ansi_bold_green"
  unfolding colours_def
proof (intro allI impI)
  fix x y :: string
  assume x: "CHR 0x1B \<notin> set x" "CHR 0x9B \<notin> set x"
  have esc: "ansi_escape ([CHR 0x1B] @ ''[1m'' @ s) = Some s" "ansi_escape ([CHR 0x1B] @ ''[32m'' @ s) = Some s"
    "ansi_escape ([CHR 0x1B] @ ''[0m'' @ s) = Some s" for s
    by (simp_all add: ansi_escape_def ansi_tail_def starts_with_def in_range_def)
  have "remove_ansi_color_escape (ansi_bold_green x @ y) = remove_ansi_color_escape (x @ [CHR 0x1B] @ ''[0m'' @ y)"
    using remove_ansi_skip [OF esc(1)] remove_ansi_skip [OF esc(2)] by (simp add: ansi_bold_green_def)
  also have "\<dots> = x @ remove_ansi_color_escape ([CHR 0x1B] @ ''[0m'' @ y)"
    using x by (intro remove_ansi_prefix) (simp add: plain_text_def)
  finally show "remove_ansi_color_escape (ansi_bold_green x @ y) = x @ remove_ansi_color_escape y"
    using remove_ansi_skip [OF esc(3)] by simp
qed

lemma parse_header:
  assumes "s \<in> {''SUCCESS'', ''FAILED''}" "a \<in> {''GET'', ''PUT''}"
  shows "re_search REGEX_HEADER (''['' @ s @ '': '' @ a @ ''] '' @ t) = Some ([s, a, takeWhile not_newline t], dropWhile not_newline t)"
proof (rule re_search_here)
  note sp = not_space_def is_space_def
  have a: "re_match [RStar not_space, RLit ''] '', RStar not_newline] (a @ ''] '' @ t) =
      Some ([a, takeWhile not_newline t], dropWhile not_newline t)"
  proof (rule re_match_star_exact)
    show "\<forall>c \<in> set a. not_space c" using assms(2) by (auto simp: sp)
    show "re_match [RLit ''] '', RStar not_newline] (''] '' @ t) = Some ([takeWhile not_newline t], dropWhile not_newline t)"
      by (simp only: re_match_lit re_match_star_end)
    show "re_match [RLit ''] '', RStar not_newline] (drop k (''] '' @ t)) = None"
      if "0 < k" "k \<le> length (takeWhile not_space (''] '' @ t))" for k
    proof -
      have "k = 1" using that by (simp add: sp)
      then show ?thesis by (simp add: re_match.simps starts_with_def)
    qed
  qed
  have b: "re_match [RSkip is_space, RStar not_space, RLit ''] '', RStar not_newline] ('' '' @ a @ ''] '' @ t) =
      Some ([a, takeWhile not_newline t], dropWhile not_newline t)"
    using a assms(2) by (intro re_match_skip_exact) (auto simp: sp)
  have c: "re_match [RSkip is_space, RLit '':'', RSkip is_space, RStar not_space, RLit ''] '', RStar not_newline] ([] @ '': '' @ a @ ''] '' @ t) =
      Some ([a, takeWhile not_newline t], dropWhile not_newline t)"
    by (rule re_match_skip_exact) (use b in \<open>simp_all add: sp\<close>)
  have d: "re_match (tl REGEX_HEADER) (s @ '': '' @ a @ ''] '' @ t) = Some ([s, a, takeWhile not_newline t], dropWhile not_newline t)"
    unfolding REGEX_HEADER_def list.sel
  proof (rule re_match_star_exact)
    show "\<forall>c \<in> set s. not_space c" using assms(1) by (auto simp: sp)
    show "re_match [RSkip is_space, RLit '':'', RSkip is_space, RStar not_space, RLit ''] '', RStar not_newline] ('': '' @ a @ ''] '' @ t)
        = Some ([a, takeWhile not_newline t], dropWhile not_newline t)"
      using c by simp
    show "re_match [RSkip is_space, RLit '':'', RSkip is_space, RStar not_space, RLit ''] '', RStar not_newline]
        (drop k ('': '' @ a @ ''] '' @ t)) = None"
      if "0 < k" "k \<le> length (takeWhile not_space ('': '' @ a @ ''] '' @ t))" for k
    proof -
      have "k = 1" using that by (simp add: sp)
      moreover have "\<not> starts_with '':'' ('' '' @ y)" "\<not> starts_with '':'' (a @ y)" for y
        using assms(2) by (auto simp: starts_with_def)
      then have "re_match [RSkip is_space, RLit '':'', RSkip is_space, RStar not_space, RLit ''] '', RStar not_newline]
          ('' '' @ a @ ''] '' @ t) = None"
        using assms(2) by (elim insertE emptyE; simp only: re_match.simps(2,5); simp add: down_from_def sp)
      ultimately show ?thesis by simp
    qed
  qed
  then show "re_match REGEX_HEADER (''['' @ s @ '': '' @ a @ ''] '' @ t) = Some ([s, a, takeWhile not_newline t], dropWhile not_newline t)"
    by (simp add: REGEX_HEADER_def re_match.simps(2) starts_with_def)
qed

lemma parse_body_printed:
  assumes "colours paint" "s \<in> {''SUCCESS'', ''FAILED''}" "a \<in> {''GET'', ''PUT''}"
  shows "parse_body (paint (''['' @ s @ '': '' @ a @ ''] '') @ t) = Inr (s = ''SUCCESS'', takeWhile not_newline (remove_ansi_color_escape t))"
proof -
  have "CHR 0x1B \<notin> set (''['' @ s @ '': '' @ a @ ''] '')" "CHR 0x9B \<notin> set (''['' @ s @ '': '' @ a @ ''] '')"
    using assms(2,3) by auto
  then have "remove_ansi_color_escape (paint (''['' @ s @ '': '' @ a @ ''] '') @ t) =
      (''['' @ s @ '': '' @ a @ ''] '') @ remove_ansi_color_escape t"
    using assms(1) unfolding colours_def by blast
  then show ?thesis
    using parse_header [OF assms(2,3), of "remove_ansi_color_escape t"] by (simp add: parse_body_def RET_SUCCESS_def)
qed

lemma remove_char: "str_replace [c] [] s = filter (\<lambda>d. d \<noteq> c) s"
proof -
  have "str_join [] (split_go [c] acc s) = rev acc @ filter (\<lambda>d. d \<noteq> c) s" for acc
  proof (induction s arbitrary: acc)
    case Nil
    show ?case by (subst split_go.simps) simp
  next
    case (Cons d s)
    have ne: "\<exists>y ys. split_go [c] a s = y # ys" for a
      by (induction s arbitrary: a; subst split_go.simps) (simp_all split: if_splits)
    show ?case
    proof (cases "d = c")
      case True
      then have "split_go [c] acc (d # s) = rev acc # split_go [c] [] s"
        by (subst split_go.simps) (simp add: starts_with_def)
      then show ?thesis using Cons [of "[]"] ne [of "[]"] True by auto
    next
      case False
      then have "split_go [c] acc (d # s) = split_go [c] (d # acc) s"
        by (subst split_go.simps) (simp add: starts_with_def)
      then show ?thesis using Cons [of "d # acc"] False by simp
    qed
  qed
  from this [of "[]"] show ?thesis by (simp add: str_replace_def str_split_def)
qed

text \<open>What the client makes of a value: quotes are gone, and so is everything from the first newline on.\<close>

definition readable :: "string \<Rightarrow> string" where
  "readable v = filter (\<lambda>c. c \<noteq> CHR 0x22) (takeWhile not_newline v)"

definition type_name :: "string \<Rightarrow> bool" where
  "type_name t \<longleftrightarrow> plain_text t \<and> (\<forall>c \<in> set t. not_space c \<and> c \<noteq> CHR 0x22 \<and> c \<noteq> CHR ''>'')"

lemma get_parse_value:
  assumes t: "type_name t" and v: "\<forall>c \<in> set v. c \<noteq> CHR 0x22 \<and> not_newline c"
  shows "re_search REGEX_VALUE (''Value<'' @ t @ ''>: '' @ v) = Some ([t, v], [])"
proof (rule re_search_here)
  have "re_match (tl REGEX_VALUE) (t @ ''>: '' @ v) = Some ([t, v], [])"
    unfolding REGEX_VALUE_def list.sel
  proof (rule re_match_star_exact)
    show "\<forall>c \<in> set t. not_space c" using t by (simp add: type_name_def)
    have "takeWhile not_newline v = v" "dropWhile not_newline v = []"
      using v by (auto simp: takeWhile_eq_all_conv dropWhile_eq_Nil_conv)
    then have "re_match [ROne is_space, RStar not_newline] ('' '' @ v) = Some ([v], [])"
      by (simp add: re_match.simps(6) re_match_star_end is_space_def)
    then show "re_match [RLit ''>:'', ROne is_space, RStar not_newline] (''>: '' @ v) = Some ([v], [])"
      by (simp add: re_match.simps(2) starts_with_def)
    show "re_match [RLit ''>:'', ROne is_space, RStar not_newline] (drop k (''>: '' @ v)) = None"
      if "0 < k" "k \<le> length (takeWhile not_space (''>: '' @ v))" for k
    proof -
      have "k = 1 \<or> k = 2" using that by (simp add: not_space_def is_space_def) linarith
      then show ?thesis by (auto simp: re_match.simps(2) starts_with_def)
    qed
  qed
  then show "re_match REGEX_VALUE (''Value<'' @ t @ ''>: '' @ v) = Some ([t, v], [])"
    by (simp add: REGEX_VALUE_def re_match.simps(2) starts_with_def)
qed

lemma not_space_not_newline: "not_space c \<Longrightarrow> c \<noteq> CHR 0x0A"
  by (auto simp: not_space_def is_space_def)

lemma takeWhile_append_stop: "\<forall>c \<in> set x. P c \<Longrightarrow> takeWhile P (x @ y) = x @ takeWhile P y"
  by (simp add: takeWhile_append)

text \<open>The first line of the body without its header.\<close>

definition value_line :: "string \<Rightarrow> string \<Rightarrow> string" where
  "value_line t v = takeWhile not_newline (''Value<'' @ t @ ''>: '' @ [CHR 0x22] @ v @ [CHR 0x22])"

lemma value_line_filter:
  assumes "type_name t"
  shows "filter (\<lambda>d. d \<noteq> CHR 0x22) (value_line t v) = ''Value<'' @ t @ ''>: '' @ readable v"
proof -
  have "\<forall>c \<in> set (''Value<'' @ t @ ''>: '' @ [CHR 0x22]). not_newline c"
    using assms not_space_not_newline by (simp add: type_name_def not_newline_def)
  from takeWhile_append_stop [OF this, of "v @ [CHR 0x22]"]
  have "value_line t v = ''Value<'' @ t @ ''>: '' @ [CHR 0x22] @ takeWhile not_newline (v @ [CHR 0x22])"
    by (simp add: value_line_def)
  moreover have "filter (\<lambda>d. d \<noteq> CHR 0x22) (takeWhile not_newline (v @ [CHR 0x22])) = readable v"
    by (induction v) (auto simp: readable_def not_newline_def)
  moreover have "filter (\<lambda>d. d \<noteq> CHR 0x22) t = t" using assms by (auto simp: type_name_def filter_id_conv)
  ultimately show ?thesis by simp
qed

declare contains_str.simps [simp del]

lemma get_return_printed:
  assumes paint: "colours paint" and t: "type_name t" and v: "plain_text v"
    and arrow: "\<not> contains_str ''-->'' (value_line t v)"
  shows "get_return (string_get_return paint t v) = Inr (CliReturn True (VDict [(''Type'', Some t), (''Value'', Some (readable v))]))"
proof -
  let ?text = "''Value<'' @ t @ ''>: '' @ [CHR 0x22] @ v @ [CHR 0x22]"
  have "plain_text ?text" using t v by (auto simp: type_name_def plain_text_def)
  from remove_ansi_prefix [OF this, of "[]"] have "remove_ansi_color_escape ?text = ?text"
    by (subst (asm) (2) remove_ansi_color_escape.simps) (simp add: ansi_escape_def starts_with_def)
  then have body: "parse_body (string_get_return paint t v) = Inr (True, value_line t v)"
    using parse_body_printed [OF paint, of "''SUCCESS''" "''GET''" ?text] by (simp add: string_get_return_def value_line_def)
  have "re_search REGEX_VALUE (''Value<'' @ t @ ''>: '' @ readable v) = Some ([t, readable v], [])"
    by (intro get_parse_value [OF t]) (auto simp: readable_def dest: set_takeWhileD)
  then have "get_parse (value_line t v) = Inr (VDict [(''Type'', Some t), (''Value'', Some (readable v))])"
    using arrow unfolding get_parse_def remove_char value_line_filter [OF t] by simp
  then show ?thesis by (simp add: base_return_def body)
qed

text \<open>A value comes back unchanged exactly when it has no quote and no newline.\<close>

lemma readable_same: "readable v = v \<longleftrightarrow> CHR 0x22 \<notin> set v \<and> CHR 0x0A \<notin> set v"
proof
  assume r: "readable v = v"
  have "CHR 0x22 \<notin> set (readable v)" "CHR 0x0A \<notin> set (readable v)"
    by (auto simp: readable_def not_newline_def dest: set_takeWhileD)
  with r show "CHR 0x22 \<notin> set v \<and> CHR 0x0A \<notin> set v" by simp
next
  assume v: "CHR 0x22 \<notin> set v \<and> CHR 0x0A \<notin> set v"
  then have "takeWhile not_newline v = v" by (auto simp: takeWhile_eq_all_conv not_newline_def)
  moreover have "filter (\<lambda>c. c \<noteq> CHR 0x22) v = v" using v by (auto simp: filter_id_conv)
  ultimately show "readable v = v" by (simp only: readable_def)
qed

end
