(* ===== verification/Ustore.thy ===== *)
theory Ustore
  imports UstoreReturn FsStore
begin

text \<open>
  The client of the UStore server: \<^verbatim>\<open>pysrc/pipeman/store/ustoreconf.py\<close> and the class \<open>UStoreCLI\<close> of
  \<^verbatim>\<open>ustorecli.py\<close>. The module \<open>cpp_glassdb\<close>, the SSH client and the transfer of files are parameters
  (\<open>ustore_lib\<close>); whether the client is connected, has an SSH client and has loaded the module is part of the state.
\<close>

section \<open>Configuration\<close>

text \<open>\<open>str.upper()\<close>; the letters whose capitals are not below 256 stay.\<close>

definition to_upper :: "char \<Rightarrow> string" where
  "to_upper c = (let n = (of_char c :: nat) in
     if n = 223 then ''SS''
     else if 97 \<le> n \<and> n \<le> 122 \<or> 224 \<le> n \<and> n \<le> 254 \<and> n \<noteq> 247 then [char_of (n - 32)] else [c])"

text \<open>\<open>ConfigParser.items(section)\<close>, interpolated.\<close>

definition cp_items :: "icp \<Rightarrow> string \<Rightarrow> (string \<times> string) list result" where
  "cp_items cp section =
     (case od_get (cp_sections cp) section of
        None \<Rightarrow> Inl NoSectionError
      | Some d \<Rightarrow> res_map (\<lambda>k. res_bind (cp_get cp section k) (\<lambda>v. Inr (k, v)))
          (od_keys (fold (\<lambda>(k, v). od_set k v) d (cp_defaults cp))))"

type_synonym ustore_conf = "(string, string) odict"

text \<open>Every option of every section becomes an attribute; a file that is not there has no sections.\<close>

definition ustore_conf_init :: "icp \<Rightarrow> ustore_conf result" where
  "ustore_conf_init parsed =
     res_fold (\<lambda>section conf. res_bind (cp_items parsed section) (\<lambda>kvs.
       Inr (fold (\<lambda>(k, v). od_set (concat (map to_upper k)) v) kvs conf))) (od_keys (cp_sections parsed)) []"

definition conf_attr :: "ustore_conf \<Rightarrow> string \<Rightarrow> string result" where
  "conf_attr conf name = (case od_get conf name of None \<Rightarrow> Inl AttributeError | Some v \<Rightarrow> Inr v)"

definition sftp_temp_path :: "configuration \<Rightarrow> string result" where
  "sftp_temp_path cf = env_temp_path cf"

section \<open>The client\<close>

text \<open>What \<open>exec_command\<close> of the SSH client gives as standard output: text, or a channel to read lines from.\<close>

datatype ssh_stdout = StdoutText string | StdoutChannel "string list"

record 's ustore_lib =
  ul_import :: "('s, unit) io"
  ul_get :: "string \<Rightarrow> string option \<Rightarrow> string option \<Rightarrow> string option \<Rightarrow> ('s, string) io"
  ul_put :: "string \<Rightarrow> string \<Rightarrow> string option \<Rightarrow> string option \<Rightarrow> ('s, string) io"
  ul_ssh_connect :: "string \<Rightarrow> string \<Rightarrow> string \<Rightarrow> ('s, unit) io"
  ul_ssh_exec :: "string \<Rightarrow> ('s, ssh_stdout) io"
  ul_sftp_put :: "string \<Rightarrow> string \<Rightarrow> ('s, unit) io"

record cli_world = file_world +
  cw_connected :: bool
  cw_ssh :: bool
  cw_lib :: bool

record ustore_cli =
  uc_conf :: ustore_conf
  uc_env :: configuration

definition ustore_cli_init :: "'z cli_world_scheme \<Rightarrow> 'z cli_world_scheme" where
  "ustore_cli_init w = w\<lparr>cw_connected := False, cw_ssh := False, cw_lib := False\<rparr>"

definition init_cpp_module :: "'z cli_world_scheme ustore_lib \<Rightarrow> ('z cli_world_scheme, unit) io" where
  "init_cpp_module L = io_then (ul_import L) (io_modify (\<lambda>w. w\<lparr>cw_lib := True\<rparr>))"

definition connect_remote_ustore :: "'z cli_world_scheme ustore_lib \<Rightarrow> ustore_cli \<Rightarrow> ('z cli_world_scheme, unit) io" where
  "connect_remote_ustore L C =
     io_bind io_get (\<lambda>w.
       if cw_connected w then io_return ()
       else
         io_bind (io_lift (conf_attr (uc_conf C) ''USTORE_KEY_PATH'')) (\<lambda>key_path.
         io_bind (io_lift (conf_attr (uc_conf C) ''USTORE_ADDR'')) (\<lambda>addr.
         io_bind (io_lift (conf_attr (uc_conf C) ''USTORE_USERNAME'')) (\<lambda>username.
         io_then (ul_ssh_connect L key_path addr username)
           (io_modify (\<lambda>w. w\<lparr>cw_connected := True, cw_ssh := True\<rparr>))))))"

definition cli_connect :: "'z cli_world_scheme ustore_lib \<Rightarrow> ('z cli_world_scheme, unit) io" where
  "cli_connect L = init_cpp_module L"

definition cli_disconnect :: "('z cli_world_scheme, unit) io" where
  "cli_disconnect = io_bind io_get (\<lambda>w. if \<not> cw_connected w then io_return () else io_modify (\<lambda>w. w\<lparr>cw_connected := False\<rparr>))"

text \<open>The module's functions are attributes of the client once it is connected; the clock is read for the log.\<close>

definition need_lib :: "('z cli_world_scheme, unit) io" where
  "need_lib = io_bind io_get (\<lambda>w. if cw_lib w then io_return () else io_raise AttributeError)"

definition exec_get :: "'z cli_world_scheme ustore_lib \<Rightarrow> string \<Rightarrow> string option \<Rightarrow> string option \<Rightarrow> string option \<Rightarrow>
    ('z cli_world_scheme, reply) io" where
  "exec_get L key br hversion fname =
     io_then time_now (io_then need_lib
     (io_bind (ul_get L key br hversion fname) (\<lambda>stdout.
      io_bind (io_lift (base_return get_parse stdout)) (\<lambda>result.
      io_then time_now (io_return result)))))"

definition exec_put :: "'z cli_world_scheme ustore_lib \<Rightarrow> string \<Rightarrow> string \<Rightarrow> string option \<Rightarrow> string option \<Rightarrow>
    ('z cli_world_scheme, reply) io" where
  "exec_put L key br str fname =
     io_then time_now (io_then need_lib
     (io_bind (ul_put L key br str fname) (\<lambda>stdout.
      io_bind (io_lift (base_return put_parse stdout)) (\<lambda>result.
      io_then time_now (io_return result)))))"

definition cli_put :: "'z cli_world_scheme ustore_lib \<Rightarrow> string \<Rightarrow> string \<Rightarrow> transfer_dtype \<Rightarrow> string \<Rightarrow> ('z cli_world_scheme, reply) io" where
  "cli_put L key br dtype v =
     (case dtype of
        FILE \<Rightarrow> io_bind io_get (\<lambda>w. exec_put L key br None (Some (abspath (fw_cwd w) v)))
      | STRING \<Rightarrow> exec_put L key br (Some v) None)"

text \<open>\<open>cmd_ret.values["Value"]\<close> of a match; the match of a file has no such group.\<close>

fun match_value :: "py_value \<Rightarrow> string option result" where
  "match_value (VDict d) = (case od_get d ''Value'' of None \<Rightarrow> Inl IndexError | Some v \<Rightarrow> Inr v)"
| "match_value _ = Inl TypeError"

definition cli_get :: "'z cli_world_scheme ustore_lib \<Rightarrow> ustore_cli \<Rightarrow> string \<Rightarrow> string option \<Rightarrow> string option \<Rightarrow> transfer_dtype \<Rightarrow>
    ('z cli_world_scheme, string option) io" where
  "cli_get L C key br hversion dtype =
     io_then (io_lift (conf_attr (uc_conf C) ''OPT_KEY''))
     (case dtype of
        FILE \<Rightarrow>
          io_bind time_now (\<lambda>now.
          io_bind (io_lift (sftp_temp_path (uc_env C))) (\<lambda>temp.
          io_bind io_get (\<lambda>w.
          let local_file = path_join temp (key @ ''-'' @ none_str br @ ''-'' @ now)
          in io_bind (exec_get L key br hversion (Some (abspath (fw_cwd w) local_file))) (\<lambda>cmd_ret.
             io_bind (io_lift (reply_is_success cmd_ret)) (\<lambda>ok. io_return (if ok then Some local_file else None))))))
      | STRING \<Rightarrow>
          io_bind (exec_get L key br hversion None) (\<lambda>cmd_ret.
          io_bind (io_lift (reply_is_success cmd_ret)) (\<lambda>ok.
            if ok then io_bind (io_lift (reply_values cmd_ret)) (\<lambda>v. io_lift (match_value v)) else io_return None)))"

section \<open>Commands over SSH\<close>

text \<open>
  \<open>_exec_command\<close>: the attempts go on until one succeeds or the limit is passed; between two of them the client
  disconnects and connects. \<open>limit\<close> is \<open>int(MAX_RETRY_TIMES)\<close>, read when an attempt has failed.
\<close>

function retry_loop :: "('s, 'a) io \<Rightarrow> int result \<Rightarrow> ('s, unit) io \<Rightarrow> nat \<Rightarrow> ('s, 'a) io" where
  "retry_loop attempt limit reconnect retried w =
     (case attempt w of
        (Inr r, w1) \<Rightarrow> (Inr r, w1)
      | (Inl err, w1) \<Rightarrow>
          (case limit of
             Inl e \<Rightarrow> (Inl e, w1)
           | Inr m \<Rightarrow>
               if m \<le> int retried then (Inl err, w1)
               else (case reconnect w1 of
                       (Inl e, w2) \<Rightarrow> (Inl e, w2)
                     | (Inr _, w2) \<Rightarrow> retry_loop attempt limit reconnect (Suc retried) w2)))"
  by pat_completeness auto
termination
  by (relation "measure (\<lambda>(attempt, limit, reconnect, retried, w). case limit of Inl e \<Rightarrow> 0 | Inr m \<Rightarrow> nat m - retried)") auto

declare retry_loop.simps [simp del]

text \<open>One attempt. A class for the reply parses text, so it raises \<open>TypeError\<close> on a channel; without one the lines are read.\<close>

definition exec_attempt :: "'z cli_world_scheme ustore_lib \<Rightarrow> ustore_cli \<Rightarrow> string \<Rightarrow> (string \<Rightarrow> py_value result) option \<Rightarrow>
    ('z cli_world_scheme, reply option) io" where
  "exec_attempt L C cmd parse_class =
     io_bind io_get (\<lambda>w0.
     io_then (if cw_connected w0 then io_return () else cli_connect L)
     (io_then time_now
     (io_bind io_get (\<lambda>w.
      if \<not> cw_ssh w then io_raise AttributeError
      else
        io_bind (io_lift (conf_attr (uc_conf C) ''SSH_CLIENT_CMD_PREFIX'')) (\<lambda>prfx.
        io_bind (ul_ssh_exec L (prfx @ cmd)) (\<lambda>stdout.
          case parse_class of
            Some p \<Rightarrow>
              (case stdout of
                 StdoutText t \<Rightarrow> io_bind (io_lift (base_return p t)) (\<lambda>r. io_then time_now (io_return (Some r)))
               | StdoutChannel _ \<Rightarrow> io_raise TypeError)
          | None \<Rightarrow>
              (case stdout of
                 StdoutText _ \<Rightarrow> io_raise AttributeError
               | StdoutChannel _ \<Rightarrow> io_then time_now (io_return None))))))))"

definition max_retry_times :: "ustore_cli \<Rightarrow> int result" where
  "max_retry_times C = res_bind (conf_attr (uc_conf C) ''MAX_RETRY_TIMES'') parse_py_int"

definition reconnect :: "'z cli_world_scheme ustore_lib \<Rightarrow> ('z cli_world_scheme, unit) io" where
  "reconnect L = io_then cli_disconnect (cli_connect L)"

definition exec_retrying :: "'z cli_world_scheme ustore_lib \<Rightarrow> ustore_cli \<Rightarrow> string \<Rightarrow> (string \<Rightarrow> py_value result) option \<Rightarrow>
    ('z cli_world_scheme, reply option) io" where
  "exec_retrying L C cmd parse_class = retry_loop (exec_attempt L C cmd parse_class) (max_retry_times C) (reconnect L) 0"

definition exec_command :: "'z cli_world_scheme ustore_lib \<Rightarrow> ustore_cli \<Rightarrow> string \<Rightarrow> (string \<Rightarrow> py_value result) option \<Rightarrow> bool \<Rightarrow>
    ('z cli_world_scheme, reply option) io" where
  "exec_command L C cmd parse_class noparse = exec_retrying L C cmd (if noparse then None else parse_class)"

definition add_parameters :: "(string, string) odict \<Rightarrow> string" where
  "add_parameters parameters = concat (map (\<lambda>(k, v). '' '' @ k @ '' '' @ v) parameters)"

definition format_command :: "ustore_cli \<Rightarrow> string \<Rightarrow> (string, string) odict \<Rightarrow> string result" where
  "format_command C cmd parameters =
     res_bind (conf_attr (uc_conf C) ''USTORE_CMD_CLI'') (\<lambda>cli. Inr (cli @ '' '' @ cmd @ add_parameters parameters))"

definition format_command_xargs_for_merge :: "ustore_cli \<Rightarrow> string \<Rightarrow> string \<Rightarrow> (string, string) odict \<Rightarrow> string result" where
  "format_command_xargs_for_merge C cmd file_name parameters =
     res_bind (conf_attr (uc_conf C) ''USTORE_CMD_CLI'') (\<lambda>cli.
     res_bind (conf_attr (uc_conf C) ''OPT_DATA_VALUE'') (\<lambda>opt.
       Inr (''cat'' @ '' '' @ file_name @ '' | xargs '' @ cli @ '' '' @ cmd @ add_parameters parameters @ '' '' @ opt @ '' '')))"

text \<open>The dictionary of options and values; a later entry with the same option wins.\<close>

definition option_dict :: "ustore_cli \<Rightarrow> (string \<times> string) list \<Rightarrow> (string, string) odict result" where
  "option_dict C entries =
     res_fold (\<lambda>(opt, v) d. res_bind (conf_attr (uc_conf C) opt) (\<lambda>k. Inr (od_set k v d))) entries []"

text \<open>A command whose reply is parsed by a class.\<close>

definition run_command :: "'z cli_world_scheme ustore_lib \<Rightarrow> ustore_cli \<Rightarrow> string \<Rightarrow> (string \<times> string) list \<Rightarrow> (string \<Rightarrow> py_value result) \<Rightarrow>
    ('z cli_world_scheme, reply) io" where
  "run_command L C cmd_name entries p =
     io_bind (io_lift (res_bind (option_dict C entries) (\<lambda>d.
       res_bind (conf_attr (uc_conf C) cmd_name) (\<lambda>cmd. format_command C cmd d)))) (\<lambda>cmd.
     io_bind (exec_retrying L C cmd (Some p)) (\<lambda>r. io_return (case r of Some x \<Rightarrow> x | None \<Rightarrow> PlainNone)))"

definition cli_list_key :: "'z cli_world_scheme ustore_lib \<Rightarrow> ustore_cli \<Rightarrow> ('z cli_world_scheme, reply) io" where
  "cli_list_key L C = run_command L C ''CMD_LIST_KEY'' [] list_parse"

definition cli_head :: "'z cli_world_scheme ustore_lib \<Rightarrow> ustore_cli \<Rightarrow> string \<Rightarrow> string \<Rightarrow> ('z cli_world_scheme, reply) io" where
  "cli_head L C key br = run_command L C ''CMD_HEAD'' [(''OPT_KEY'', key), (''OPT_BRANCH'', br)] head_parse"

definition cli_branch :: "'z cli_world_scheme ustore_lib \<Rightarrow> ustore_cli \<Rightarrow> string \<Rightarrow> string \<Rightarrow> string option \<Rightarrow> string option \<Rightarrow>
    ('z cli_world_scheme, reply) io" where
  "cli_branch L C key new_branch based_on_branch refer_version =
     run_command L C ''CMD_BRANCH''
       ([(''OPT_KEY'', key), (''OPT_BRANCH'', new_branch)]
        @ (case based_on_branch of Some b \<Rightarrow> [(''OPT_REF_BRANCH'', b)] | None \<Rightarrow> [])
        @ (case refer_version of Some v \<Rightarrow> [(''OPT_REF_VERSION'', v)] | None \<Rightarrow> [])) branch_parse"

definition cli_list_branch :: "'z cli_world_scheme ustore_lib \<Rightarrow> ustore_cli \<Rightarrow> string \<Rightarrow> ('z cli_world_scheme, reply) io" where
  "cli_list_branch L C key = run_command L C ''CMD_LIST_BRANCH'' [(''OPT_KEY'', key)] list_parse"

definition cli_meta :: "'z cli_world_scheme ustore_lib \<Rightarrow> ustore_cli \<Rightarrow> string \<Rightarrow> string option \<Rightarrow> string option \<Rightarrow> ('z cli_world_scheme, reply) io" where
  "cli_meta L C key version br =
     (case version of
        Some v \<Rightarrow> run_command L C ''CMD_META'' [(''OPT_KEY'', key), (''OPT_VERSION'', v)] meta_parse
      | None \<Rightarrow>
          (case br of
             Some b \<Rightarrow> run_command L C ''CMD_META'' [(''OPT_KEY'', key), (''OPT_BRANCH'', b)] meta_parse
           | None \<Rightarrow> io_return PlainNone))"

definition merge_options :: "string \<Rightarrow> string \<Rightarrow> string \<Rightarrow> (string \<times> string) list" where
  "merge_options key head_branch merge_branch = [(''OPT_KEY'', key), (''OPT_BRANCH'', head_branch), (''OPT_REF_BRANCH'', merge_branch)]"

definition base_name :: "string \<Rightarrow> string" where
  "base_name p = rev (takeWhile (\<lambda>c. c \<noteq> CHR ''/'') (rev p))"

definition cli_merge :: "'z cli_world_scheme ustore_lib \<Rightarrow> ustore_cli \<Rightarrow> string \<Rightarrow> string \<Rightarrow> string \<Rightarrow> transfer_dtype \<Rightarrow> string \<Rightarrow>
    ('z cli_world_scheme, reply) io" where
  "cli_merge L C key head_branch merge_branch dtype v =
     (case dtype of
        FILE \<Rightarrow>
          io_bind (io_lift (option_dict C (merge_options key head_branch merge_branch))) (\<lambda>parameters.
          io_bind io_get (\<lambda>w.
            if \<not> cw_ssh w then io_raise AttributeError
            else
              io_then (ul_sftp_put L v (base_name v))
              (io_bind (io_lift (res_bind (conf_attr (uc_conf C) ''CMD_MERGE'') (\<lambda>cmd.
                  format_command_xargs_for_merge C cmd (base_name v) parameters))) (\<lambda>cmd.
               io_bind (exec_retrying L C cmd (Some merge_parse)) (\<lambda>r. io_return (case r of Some x \<Rightarrow> x | None \<Rightarrow> PlainNone))))))
      | STRING \<Rightarrow>
          run_command L C ''CMD_MERGE'' (merge_options key head_branch merge_branch @ [(''OPT_DATA_VALUE'', v)]) merge_parse)"

definition ustore_store :: "'z cli_world_scheme ustore_lib \<Rightarrow> ustore_cli \<Rightarrow> 'z cli_world_scheme phys_store" where
  "ustore_store L C =
     \<lparr>ps_get = cli_get L C, ps_put = cli_put L, ps_list_key = cli_list_key L C, ps_head = cli_head L C,
      ps_branch = cli_branch L C, ps_list_branch = cli_list_branch L C, ps_meta = cli_meta L C, ps_merge = cli_merge L C\<rparr>"

end
