(* ===== verification/UstoreProps.thy ===== *)
theory UstoreProps
  imports Ustore
begin

text \<open>The theorems on the UStore client: what a text value reads back as, how commands are retried, and that no command over SSH is answered.\<close>

section \<open>Retrying\<close>

text \<open>The state in which attempt \<open>n\<close> starts when all before it have failed.\<close>

primrec before :: "('s, 'a) io \<Rightarrow> ('s, unit) io \<Rightarrow> 's \<Rightarrow> nat \<Rightarrow> 's" where
  "before attempt again w 0 = w"
| "before attempt again w (Suc n) = snd (again (snd (attempt (before attempt again w n))))"

lemma before_shift: "before attempt again w (Suc n) = before attempt again (snd (again (snd (attempt w)))) n"
  by (induction n) simp_all

lemma retry_loop_attempts:
  assumes again: "\<And>w. fst (again w) = Inr ()"
  shows "\<exists>n. n \<le> nat m - retried \<and> retry_loop attempt (Inr m) again retried w = attempt (before attempt again w n)
    \<and> (\<forall>k < n. isl (fst (attempt (before attempt again w k))))
    \<and> (isl (fst (attempt (before attempt again w n))) \<longrightarrow> n = nat m - retried)"
proof (induction "nat m - retried" arbitrary: retried w)
  case 0
  then have "retry_loop attempt (Inr m) again retried w = attempt w"
    by (subst retry_loop.simps) (auto split: prod.splits sum.splits)
  then show ?case using 0 by (intro exI [of _ 0]) simp
next
  case (Suc d)
  show ?case
  proof (cases "fst (attempt w)")
    case (Inr r)
    then have "retry_loop attempt (Inr m) again retried w = attempt w"
      by (subst retry_loop.simps) (auto split: prod.splits)
    then show ?thesis using Inr by (intro exI [of _ 0]) simp
  next
    case (Inl e)
    let ?w = "snd (again (snd (attempt w)))"
    have "retry_loop attempt (Inr m) again retried w = retry_loop attempt (Inr m) again (Suc retried) ?w"
      using Inl again [of "snd (attempt w)"] Suc(2)
      by (subst retry_loop.simps) (auto split: prod.splits)
    moreover have d: "d = nat m - Suc retried" using Suc(2) by simp
    from Suc(1) [OF d, of ?w] obtain n where n: "n \<le> nat m - Suc retried"
      "retry_loop attempt (Inr m) again (Suc retried) ?w = attempt (before attempt again ?w n)"
      "\<forall>k < n. isl (fst (attempt (before attempt again ?w k)))"
      "isl (fst (attempt (before attempt again ?w n))) \<longrightarrow> n = nat m - Suc retried"
      by (elim exE conjE)
    moreover have "isl (fst (attempt (before attempt again w k)))" if "k < Suc n" for k
      using that n(3) Inl by (cases k) (simp_all add: before_shift del: before.simps(2))
    ultimately show ?thesis
      using Suc(2) by (intro exI [of _ "Suc n"]) (simp add: before_shift del: before.simps(2), linarith)
  qed
qed

lemma retry_loop_fails:
  assumes "\<And>w. isl (fst (attempt w))"
  shows "isl (fst (retry_loop attempt limit again retried w))"
  using assms
proof (induction attempt limit again retried w rule: retry_loop.induct)
  case (1 attempt limit again retried w)
  obtain e w1 where a: "attempt w = (Inl e, w1)"
    using 1(2) [of w] by (cases "attempt w"; cases "fst (attempt w)") auto
  then show ?case
    using 1 by (subst retry_loop.simps) (auto split: prod.splits sum.splits)
qed

section \<open>Commands over SSH\<close>

text \<open>\<open>exec_command\<close> of \<^verbatim>\<open>paramiko\<close>'s client gives channels, never text.\<close>

definition channel_output :: "'z cli_world_scheme ustore_lib \<Rightarrow> bool" where
  "channel_output L \<longleftrightarrow> (\<forall>c w t. fst (ul_ssh_exec L c w) \<noteq> Inr (StdoutText t))"

lemma attempt_never_parses:
  assumes "channel_output L"
  shows "isl (fst (exec_attempt L C cmd (Some p) w))"
  unfolding exec_attempt_def
proof (intro io_bind_fails_late io_then_fails_late)
  fix w0 w1 w2
  show "isl (fst ((if \<not> cw_ssh w1 then io_raise AttributeError
      else io_bind (io_lift (conf_attr (uc_conf C) ''SSH_CLIENT_CMD_PREFIX'')) (\<lambda>prfx.
        io_bind (ul_ssh_exec L (prfx @ cmd)) (\<lambda>stdout. case Some p of
          None \<Rightarrow> (case stdout of StdoutText x \<Rightarrow> io_raise AttributeError | StdoutChannel x \<Rightarrow> io_then time_now (io_return None))
        | Some p \<Rightarrow> (case stdout of
            StdoutText t \<Rightarrow> io_bind (io_lift (base_return p t)) (\<lambda>r. io_then time_now (io_return (Some r)))
          | StdoutChannel x \<Rightarrow> io_raise TypeError)))) w2))"
  proof (cases "cw_ssh w1")
    case True
    have "isl (fst ((case out of
            StdoutText t \<Rightarrow> io_bind (io_lift (base_return p t)) (\<lambda>r. io_then time_now (io_return (Some r)))
          | StdoutChannel x \<Rightarrow> io_raise TypeError) u'))" if "ul_ssh_exec L c u = (Inr out, u')" for c out u u'
      using assms [unfolded channel_output_def, rule_format, of c u] that by (cases out) auto
    then show ?thesis using True by (auto intro!: io_bind_fails_late)
  qed simp
qed

lemma run_command_fails:
  assumes "channel_output L"
  shows "isl (fst (run_command L C cmd_name entries p w))"
  unfolding run_command_def exec_retrying_def
  by (rule io_bind_fails_late, rule io_bind_fails_early, rule retry_loop_fails, rule attempt_never_parses [OF assms])

section \<open>The file name of a reply\<close>

lemma first_some_split: "first_some f xs = Some y \<Longrightarrow> \<exists>us x vs. xs = us @ x # vs \<and> f x = Some y \<and> (\<forall>u \<in> set us. f u = None)"
proof (induction xs)
  case (Cons x xs)
  show ?case
  proof (cases "f x")
    case None
    then obtain us z vs where "xs = us @ z # vs" "f z = Some y" "\<forall>u \<in> set us. f u = None"
      using Cons by auto
    then show ?thesis using None by (intro exI [of _ "x # us"] exI [of _ z] exI [of _ vs]) simp
  next
    case (Some z)
    then show ?thesis using Cons.prems by (intro exI [of _ "[]"] exI [of _ x] exI [of _ xs]) simp
  qed
qed simp

text \<open>The repetition chosen is the longest that lets the rest match.\<close>

lemma first_some_downD:
  assumes "first_some f (down_from hi lo) = Some y"
  obtains k where "lo \<le> k" "k \<le> hi" "f k = Some y" "\<And>j. k < j \<Longrightarrow> j \<le> hi \<Longrightarrow> f j = None"
proof -
  obtain us k vs where s: "down_from hi lo = us @ k # vs" "f k = Some y" "\<forall>u \<in> set us. f u = None"
    using first_some_split [OF assms] by blast
  have r: "[lo..<Suc hi] = rev vs @ k # rev us"
    using arg_cong [OF s(1), of rev] by (simp add: down_from_def del: upt_Suc)
  have "k \<in> set [lo..<Suc hi]" unfolding r by simp
  then have k: "lo \<le> k" "k \<le> hi" by auto
  have "j \<in> set us" if "k < j" "j \<le> hi" for j
  proof -
    have "sorted_wrt (<) (rev vs @ k # rev us)" using r by (metis sorted_wrt_upt)
    then have "j \<notin> set vs" using that by (auto simp: sorted_wrt_append)
    moreover have "j \<in> set (rev vs @ k # rev us)" using that k unfolding r [symmetric] by auto
    ultimately show ?thesis using that by auto
  qed
  with s(2,3) k show ?thesis by (intro that) auto
qed

lemma takeWhile_split_at: "k \<le> length (takeWhile p s) \<Longrightarrow> takeWhile p s = take k s @ takeWhile p (drop k s)"
  by (induction s arbitrary: k) (auto simp: take_Cons' drop_Cons' split: if_splits)

lemma takeWhile_length_mono: "(\<And>c. q c \<Longrightarrow> p c) \<Longrightarrow> length (takeWhile q s) \<le> length (takeWhile p s)"
  by (induction s) auto

lemma first_some_not_None: "x \<in> set xs \<Longrightarrow> f x \<noteq> None \<Longrightarrow> first_some f xs \<noteq> None"
  by (induction xs) (auto split: option.splits)

lemma re_match_star_cover:
  assumes "re_match (RStar p # RStar q # RStar p # r) s = Some (a # b # gs, t)" and "\<And>c. q c \<Longrightarrow> p c"
  shows "b = []"
proof (rule ccontr)
  assume b: "b \<noteq> []"
  let ?rest = "RStar q # RStar p # r"
  obtain k where k: "k \<le> length (takeWhile p s)"
      "map_option (\<lambda>(gs, t). (take k s # gs, t)) (re_match ?rest (drop k s)) = Some (a # b # gs, t)"
    and longest: "\<And>j. k < j \<Longrightarrow> j \<le> length (takeWhile p s) \<Longrightarrow>
      map_option (\<lambda>(gs, t). (take j s # gs, t)) (re_match ?rest (drop j s)) = None"
    using first_some_downD [OF assms(1) [unfolded re_match.simps(4) [of p "RStar q # RStar p # r"]]] by metis
  obtain t' where "re_match ?rest (drop k s) = Some (b # gs, t')"
    using k(2) by (auto simp del: re_match.simps)
  from first_some_downD [OF this [unfolded re_match.simps(4) [of q "RStar p # r"]]]
  obtain j where j: "j \<le> length (takeWhile q (drop k s))"
      "map_option (\<lambda>(gs, t). (take j (drop k s) # gs, t)) (re_match (RStar p # r) (drop j (drop k s))) = Some (b # gs, t')"
    by metis
  have j2: "b = take j (drop k s)" "re_match (RStar p # r) (drop j (drop k s)) \<noteq> None"
    using j(2) by auto
  have "0 < j" using b j2(1) by (cases j) auto
  have "length (take k s) = k" using k(1) length_takeWhile_le [of p s] by simp
  then have "k + j \<le> length (takeWhile p s)"
    using takeWhile_split_at [OF k(1)] takeWhile_length_mono [of q p "drop k s"] assms(2) j(1)
    by (metis add_left_mono length_append order_trans)
  moreover have "first_some (\<lambda>i. map_option (\<lambda>(gs, t). (take i (drop (k + j) s) # gs, t)) (re_match (RStar p # r) (drop i (drop (k + j) s))))
      (down_from (length (takeWhile q (drop (k + j) s))) 0) \<noteq> None"
    using j2(2) by (intro first_some_not_None [of 0]) (auto simp: down_from_def add.commute)
  then have "re_match ?rest (drop (k + j) s) \<noteq> None" unfolding re_match.simps(4) [of q "RStar p # r"] .
  ultimately show False using longest [of "k + j"] \<open>0 < j\<close> by simp
qed

lemma re_match_starD:
  "re_match (RStar p # r) s = Some (gs, t) \<Longrightarrow> \<exists>k gs'. gs = take k s # gs' \<and> re_match r (drop k s) = Some (gs', t)"
  by (auto simp: re_match.simps(4) dest!: first_some_SomeD)

lemma re_match_litD: "re_match (RLit l # r) s = Some m \<Longrightarrow> re_match r (drop (length l) s) = Some m"
  by (simp add: re_match.simps(2) split: if_splits)

lemma re_searchD: "re_search r s = Some m \<Longrightarrow> \<exists>t. re_match r t = Some m"
  by (induction s) (auto split: option.splits)

text \<open>The group before \<open>FileName\<close> takes the name with it: the name of a file is never in the reply.\<close>

theorem file_name_empty:
  assumes "get_parse body = Inr (VDict d)" and "od_get d ''FileName'' = Some x"
  shows "x = Some []"
proof -
  obtain t g2 g3 f g5 z r where "re_search REGEX_FILE body = Some ([t, g2, g3, f, g5, z], r)" and x: "x = Some f"
    using assms by (auto simp: get_parse_def od_simps split: if_splits option.splits list.splits prod.splits)
  then obtain u where u: "re_match REGEX_FILE u = Some ([t, g2, g3, f, g5, z], r)"
    using re_searchD by blast
  let ?w = "[RStar not_newline, RStar not_space, RStar not_newline, RLit ''['', RStar not_space, RLit '']'']"
  obtain u1 where "re_match (RLit ''>:'' # RStar not_newline # RLit ''-->'' # ?w) u1 = Some ([g2, g3, f, g5, z], r)"
    using re_match_starD [OF re_match_litD [OF u [unfolded REGEX_FILE_def]]] by blast
  then obtain u2 where "re_match ?w u2 = Some ([g3, f, g5, z], r)"
    using re_match_litD re_match_starD by blast
  then have "f = []"
    by (rule re_match_star_cover) (use not_space_not_newline in \<open>auto simp: not_newline_def\<close>)
  with x show ?thesis by simp
qed

section \<open>The properties\<close>

text \<open>
  C38 (round trip). What a text value comes back as from the UStore server: the C++ side prints the value in quotes, and
  \<open>UStoreCLI.get\<close> parses what it prints; the result is the value without its quotes and cut at its first newline, so a
  value comes back unchanged exactly when it has neither. (For a connected client, a value without colour escapes, and no \<^verbatim>\<open>-->\<close>
  in the first line, which would make the reply look like a file's.)
\<close>

theorem cli_get_text:
  assumes "cw_lib w" and "conf_attr (uc_conf C) ''OPT_KEY'' = Inr opt"
    and "ul_get L key br hversion None (snd (time_now w)) = (Inr (string_get_return bold_green t v), w1)"
    and "colours bold_green" and "type_name t" and "plain_text v" and "\<not> contains_str ''-->'' (value_line t v)"
  shows "fst (cli_get L C key br hversion STRING w) = Inr (Some (filter (\<lambda>c. c \<noteq> CHR 0x22) (takeWhile (\<lambda>c. c \<noteq> CHR 0x0A) v)))
    \<and> (fst (cli_get L C key br hversion STRING w) = Inr (Some v) \<longleftrightarrow> CHR 0x22 \<notin> set v \<and> CHR 0x0A \<notin> set v)"
proof -
  let ?r = "CliReturn True (VDict [(''Type'', Some t), (''Value'', Some (readable v))])"
  have ret: "base_return get_parse (string_get_return bold_green t v) = Inr ?r"
    by (rule get_return_printed [OF assms(4-7)])
  have "need_lib (snd (time_now w)) = (Inr (), snd (time_now w))"
    using assms(1) by (simp add: need_lib_def time_now_def)
  then have "exec_get L key br hversion None w = (Inr ?r, snd (time_now w1))"
    using assms(3) ret by (simp add: exec_get_def io_then_def io_bind_def time_now_def)
  then have "fst (cli_get L C key br hversion STRING w) = Inr (Some (readable v))"
    using assms(2) by (simp add: cli_get_def io_then_def io_bind_def od_simps)
  then show ?thesis
    using readable_same [of v] by (simp add: readable_def not_newline_def [abs_def])
qed

text \<open>A library whose SSH commands print one line, and a client that has connected.\<close>

definition toy_lib :: "'z cli_world_scheme ustore_lib" where
  "toy_lib = \<lparr>ul_import = io_return (), ul_get = (\<lambda>key br hversion fname. io_return (string_get_return ansi_bold_green ''LedgerString'' ''master.content'')),
     ul_put = (\<lambda>key br v fname. io_return (put_return ansi_bold_green ''7HQ'')), ul_ssh_connect = (\<lambda>key_path addr username. io_return ()),
     ul_ssh_exec = (\<lambda>cmd. io_return (StdoutChannel [''[SUCCESS: HEAD] Version: 7HQ''])), ul_sftp_put = (\<lambda>local remote. io_return ())\<rparr>"

definition toy_cli :: ustore_cli where
  "toy_cli = \<lparr>uc_conf = [(''USTORE_CMD_CLI'', ''ustore_cli''), (''SSH_CLIENT_CMD_PREFIX'', []), (''MAX_RETRY_TIMES'', ''3''),
       (''OPT_KEY'', ''-k''), (''OPT_BRANCH'', ''-b''), (''CMD_HEAD'', ''head'')],
     uc_env = example_configuration\<rparr>"

definition toy_cli_world :: cli_world where
  "toy_cli_world = \<lparr>fw_cwd = ''/w'', fw_files = [], fw_time = (\<lambda>n. ''1.'' @ replicate n (CHR ''5'')), fw_clock = 0,
     cw_connected = False, cw_ssh = False, cw_lib = True\<rparr>"

lemma toy_lib_channel: "channel_output toy_lib"
  by (simp add: channel_output_def toy_lib_def)

theorem cli_get_text_witness:
  "fst (cli_get toy_lib toy_cli ''k'' (Some ''master'') None STRING toy_cli_world) = Inr (Some ''master.content'')"
proof -
  have "ul_get toy_lib ''k'' (Some ''master'') None None (snd (time_now toy_cli_world))
      = (Inr (string_get_return ansi_bold_green ''LedgerString'' ''master.content''), snd (time_now toy_cli_world))"
    by (simp add: toy_lib_def)
  moreover have "type_name ''LedgerString''" by code_simp
  moreover have "plain_text ''master.content''" by code_simp
  moreover have "\<not> contains_str ''-->'' (value_line ''LedgerString'' ''master.content'')" by code_simp
  ultimately show ?thesis
    using cli_get_text [of toy_cli_world toy_cli "''-k''" toy_lib "''k''" "Some ''master''" None ansi_bold_green "''LedgerString''" "''master.content''"]
      ansi_bold_green_colours by (simp add: toy_cli_world_def toy_cli_def conf_attr_def od_simps)
qed

text \<open>
  C39 (equivalence). \<open>_exec_command\<close> is the first attempt that succeeds among the \<open>MAX_RETRY_TIMES + 1\<close> attempts made, each
  starting where the one before it and the reconnection have left the client, and the last of them when all fail: its loop ends,
  with the result and in the state of that attempt.
\<close>

theorem exec_command_attempts:
  assumes "max_retry_times C = Inr m" and "\<forall>w. fst (ul_import L w) = Inr ()"
  shows "\<exists>n \<le> nat m. exec_command L C cmd p False w = exec_attempt L C cmd p (before (exec_attempt L C cmd p) (reconnect L) w n)
    \<and> (\<forall>k < n. isl (fst (exec_attempt L C cmd p (before (exec_attempt L C cmd p) (reconnect L) w k))))
    \<and> (isl (fst (exec_command L C cmd p False w)) \<longrightarrow> n = nat m)"
proof -
  have "fst (reconnect L u) = Inr ()" for u
  proof -
    obtain u' where "ul_import L (snd (cli_disconnect u)) = (Inr (), u')"
      using assms(2) by (metis prod.collapse)
    then show ?thesis
      by (simp add: reconnect_def cli_connect_def init_cpp_module_def cli_disconnect_def io_then_def io_bind_def io_get_def split: if_splits)
  qed
  from retry_loop_attempts [of "reconnect L" m 0 "exec_attempt L C cmd p" w, OF this] show ?thesis
    unfolding exec_command_def exec_retrying_def assms(1) by auto
qed

theorem exec_command_attempts_witness:
  "\<exists>n \<le> 3. exec_command toy_lib toy_cli ''cmd'' (Some head_parse) False toy_cli_world =
    exec_attempt toy_lib toy_cli ''cmd'' (Some head_parse)
      (before (exec_attempt toy_lib toy_cli ''cmd'' (Some head_parse)) (reconnect toy_lib) toy_cli_world n)"
proof -
  have "max_retry_times toy_cli = Inr 3" by code_simp
  from exec_command_attempts [OF this, of toy_lib "''cmd''" "Some head_parse" toy_cli_world] show ?thesis
    by (auto simp: toy_lib_def)
qed

text \<open>
  No operation of the UStore engine that goes over SSH ever gives a reply: \<open>list_key\<close>, \<open>head\<close>, \<open>branch\<close>, \<open>list_branch\<close>,
  \<open>merge\<close> and (for a version or a branch) \<open>meta\<close> end in an exception in every state, because the client parses the SSH channel itself
  instead of its text, and \<open>connect\<close> does not even make an SSH client. Storing and retrieving values do not use SSH.
\<close>

theorem ustore_commands_fail:
  assumes "channel_output L"
  shows "isl (fst (cli_list_key L C w)) \<and> isl (fst (cli_head L C key br w)) \<and> isl (fst (cli_branch L C key br based_on version w))
    \<and> isl (fst (cli_list_branch L C key w)) \<and> isl (fst (cli_merge L C key br merge_br dtype v w))
    \<and> ((version, based_on) \<noteq> (None, None) \<longrightarrow> isl (fst (cli_meta L C key version based_on w)))"
proof -
  note run = run_command_fails [OF assms]
  have "isl (fst (cli_merge L C key br merge_br FILE v w))"
    unfolding cli_merge_def transfer_dtype.case
  proof (rule io_bind_fails_late, rule io_bind_fails_late)
    fix d u w' u'
    show "isl (fst ((if \<not> cw_ssh w' then io_raise AttributeError
        else io_then (ul_sftp_put L v (base_name v))
          (io_bind (io_lift (res_bind (conf_attr (uc_conf C) ''CMD_MERGE'') (\<lambda>cmd.
              format_command_xargs_for_merge C cmd (base_name v) d))) (\<lambda>cmd.
            io_bind (exec_retrying L C cmd (Some merge_parse)) (\<lambda>r. io_return (case r of Some x \<Rightarrow> x | None \<Rightarrow> PlainNone))))) u'))"
      unfolding exec_retrying_def
      by (cases "cw_ssh w'", simp, rule io_then_fails_late, rule io_bind_fails_late, rule io_bind_fails_early,
          rule retry_loop_fails, rule attempt_never_parses [OF assms], simp)
  qed
  then show ?thesis
    using run by (cases dtype) (auto simp: cli_list_key_def cli_head_def cli_branch_def cli_list_branch_def cli_merge_def cli_meta_def split: option.splits)
qed

theorem ustore_commands_fail_witness:
  "isl (fst (cli_head toy_lib toy_cli ''k'' ''master'' toy_cli_world))"
  using ustore_commands_fail [OF toy_lib_channel, of toy_cli toy_cli_world "''k''" "''master''"] by blast

end
