(* ===== verification/Pep249.thy ===== *)
theory Pep249
  imports FsStore
begin

text \<open>
  The storage engine over a relational database, \<^verbatim>\<open>pysrc/pipeman/store/pep249.py\<close>. The database driver is a parameter
  (\<open>db_api\<close>): opening and closing a connection, and executing an SQL statement, which gives the rows. SHA-256 is a
  parameter too. Storage objects live in a heap, because the connection pool keeps references to them; the pool has a lock.
\<close>

section \<open>The driver and the objects\<close>

datatype sql_value = SqlText string | SqlBytes string

text \<open>\<open>execute(sql)\<close>, \<open>execute(sql, (...))\<close> and \<open>execute(sql, (key))\<close>, which passes the text itself.\<close>

datatype sql_params = NoParams | Params "sql_value list" | BareParam string

text \<open>Keyword arguments of \<open>connector.connect\<close>.\<close>

datatype credentials = Password string | SslFiles string string

record 's db_api =
  da_connect :: "string \<Rightarrow> int \<Rightarrow> string \<Rightarrow> string \<Rightarrow> credentials \<Rightarrow> ('s, nat) io"
  da_close :: "nat \<Rightarrow> ('s, unit) io"
  da_execute :: "nat \<Rightarrow> string \<Rightarrow> sql_params \<Rightarrow> ('s, sql_value list list) io"

record pep_object =
  pe_user :: string
  pe_host :: string
  pe_port :: int
  pe_password :: "string option"
  pe_ssl_cert :: "string option"
  pe_ssl_key :: "string option"
  pe_connected :: bool
  pe_conn :: "nat option"

record db_world = file_world +
  dw_objects :: "nat \<Rightarrow> pep_object"
  dw_pool :: "(string, nat option) odict"
  dw_locked :: bool

definition pep_init :: "string \<Rightarrow> string \<Rightarrow> int \<Rightarrow> string option \<Rightarrow> string option \<Rightarrow> string option \<Rightarrow> pep_object" where
  "pep_init user host port password ssl_cert ssl_key =
     \<lparr>pe_user = user, pe_host = host, pe_port = port, pe_password = password, pe_ssl_cert = ssl_cert, pe_ssl_key = ssl_key,
      pe_connected = False, pe_conn = None\<rparr>"

definition update_object :: "nat \<Rightarrow> (pep_object \<Rightarrow> pep_object) \<Rightarrow> ('z db_world_scheme, unit) io" where
  "update_object i f = io_modify (\<lambda>w. w\<lparr>dw_objects := (dw_objects w)(i := f (dw_objects w i))\<rparr>)"

section \<open>Connections\<close>

definition DATABASE_NAME :: string where "DATABASE_NAME = ''seccask''"

definition pep_do_connect :: "'z db_world_scheme db_api \<Rightarrow> nat \<Rightarrow> ('z db_world_scheme, unit) io" where
  "pep_do_connect A i =
     io_bind io_get (\<lambda>w.
     let ob = dw_objects w i;
         with_credentials = (\<lambda>c. io_bind (da_connect A (pe_host ob) (pe_port ob) DATABASE_NAME (pe_user ob) c)
           (\<lambda>h. update_object i (\<lambda>o1. o1\<lparr>pe_conn := Some h\<rparr>)))
     in case pe_password ob of
          Some p \<Rightarrow> with_credentials (Password p)
        | None \<Rightarrow>
            (case (pe_ssl_cert ob, pe_ssl_key ob) of
               (Some cert, Some key) \<Rightarrow> with_credentials (SslFiles cert key)
             | _ \<Rightarrow> io_raise ConnectionError))"

definition pep_do_disconnect :: "'z db_world_scheme db_api \<Rightarrow> nat \<Rightarrow> ('z db_world_scheme, unit) io" where
  "pep_do_disconnect A i =
     io_bind io_get (\<lambda>w. case pe_conn (dw_objects w i) of None \<Rightarrow> io_raise AttributeError | Some h \<Rightarrow> da_close A h)"

definition make_conn_id :: "string \<Rightarrow> int \<Rightarrow> string \<Rightarrow> string" where
  "make_conn_id host port user = user @ ''@'' @ host @ '':'' @ int_str port"

definition object_conn_id :: "pep_object \<Rightarrow> string" where
  "object_conn_id ob = make_conn_id (pe_host ob) (pe_port ob) (pe_user ob)"

text \<open>\<open>threading.Lock\<close>: acquiring a held lock waits for its release, which an exception in between never brings.\<close>

definition lock_acquire :: "('z db_world_scheme, unit) io" where
  "lock_acquire = io_bind io_get (\<lambda>w. if dw_locked w then io_raise Blocked else io_modify (\<lambda>w. w\<lparr>dw_locked := True\<rparr>))"

definition lock_release :: "('z db_world_scheme, unit) io" where
  "lock_release = io_modify (\<lambda>w. w\<lparr>dw_locked := False\<rparr>)"

definition pool_connect :: "'z db_world_scheme db_api \<Rightarrow> nat \<Rightarrow> ('z db_world_scheme, nat option) io" where
  "pool_connect A i =
     io_bind io_get (\<lambda>w0.
     let conn_id = object_conn_id (dw_objects w0 i)
     in io_then lock_acquire
        (io_bind io_get (\<lambda>w.
         io_then
           (if od_get (dw_pool w) conn_id \<noteq> None then io_return ()
            else io_then (pep_do_connect A i) (io_modify (\<lambda>w. w\<lparr>dw_pool := od_set conn_id (Some i) (dw_pool w)\<rparr>)))
           (io_then lock_release
             (io_bind io_get (\<lambda>w1. io_lift (od_item (dw_pool w1) conn_id)))))))"

definition pool_disconnect :: "'z db_world_scheme db_api \<Rightarrow> nat \<Rightarrow> ('z db_world_scheme, unit) io" where
  "pool_disconnect A i =
     io_bind io_get (\<lambda>w0.
     let conn_id = object_conn_id (dw_objects w0 i)
     in io_then lock_acquire
        (io_bind io_get (\<lambda>w.
         io_then
           (case od_get (dw_pool w) conn_id of
              None \<Rightarrow> io_return ()
            | Some None \<Rightarrow> io_raise AttributeError
            | Some (Some j) \<Rightarrow> io_then (pep_do_disconnect A j) (io_modify (\<lambda>w. w\<lparr>dw_pool := od_set conn_id None (dw_pool w)\<rparr>)))
           lock_release)))"

text \<open>\<open>connect\<close> takes over the connection of the object in the pool.\<close>

definition pep_connect :: "'z db_world_scheme db_api \<Rightarrow> nat \<Rightarrow> ('z db_world_scheme, unit) io" where
  "pep_connect A i =
     io_bind (pool_connect A i) (\<lambda>pooled. io_bind io_get (\<lambda>w.
       case pooled of
         None \<Rightarrow> io_raise AttributeError
       | Some j \<Rightarrow>
           (case pe_conn (dw_objects w j) of
              None \<Rightarrow> io_raise AttributeError
            | Some h \<Rightarrow> update_object i (\<lambda>ob. ob\<lparr>pe_conn := Some h, pe_connected := True\<rparr>))))"

definition check_and_connect :: "'z db_world_scheme db_api \<Rightarrow> nat \<Rightarrow> ('z db_world_scheme, unit) io" where
  "check_and_connect A i = io_bind io_get (\<lambda>w. if \<not> pe_connected (dw_objects w i) then pep_connect A i else io_return ())"

definition pep_disconnect :: "('z db_world_scheme, unit) io" where
  "pep_disconnect = io_return ()"

text \<open>A cursor of the object's connection executes one statement.\<close>

definition execute :: "'z db_world_scheme db_api \<Rightarrow> nat \<Rightarrow> string \<Rightarrow> sql_params \<Rightarrow> ('z db_world_scheme, sql_value list list) io" where
  "execute A i sql params =
     io_bind io_get (\<lambda>w. case pe_conn (dw_objects w i) of None \<Rightarrow> io_raise AttributeError | Some h \<Rightarrow> da_execute A h sql params)"

section \<open>Statements\<close>

definition SELECT_BLOB :: string where
  "SELECT_BLOB = ''SELECT bs_blob_value FROM blobstore WHERE bs_key = %s AND bs_hversion = %s''"

definition SELECT_HEAD :: string where
  "SELECT_HEAD = ''SELECT h_hversion FROM head WHERE h_key = %s AND h_branch = %s''"

definition INSERT_HEAD :: string where
  "INSERT_HEAD = ''INSERT INTO head (h_key, h_branch, h_hversion) VALUES (%s, %s, %s)''"

definition UPDATE_HEAD :: string where
  "UPDATE_HEAD = ''UPDATE head SET h_hversion = %s WHERE h_key = %s AND h_branch = %s''"

definition INSERT_BLOB :: string where
  "INSERT_BLOB = ''INSERT INTO blobstore (bs_key, bs_branch, bs_hversion, bs_blob_value) VALUES (%s, %s, %s, %s)''"

definition SELECT_KEYS :: string where "SELECT_KEYS = ''SELECT DISTINCT h_key FROM head''"

definition SELECT_BRANCHES :: string where "SELECT_BRANCHES = ''SELECT DISTINCT h_branch FROM head WHERE key = %s''"

section \<open>Operations\<close>

text \<open>\<open>fetchall()[0][0]\<close>, as text.\<close>

fun first_column :: "sql_value list list \<Rightarrow> sql_value result" where
  "first_column [] = Inl IndexError"
| "first_column ([] # rows) = Inl IndexError"
| "first_column ((v # vs) # rows) = Inr v"

fun sql_string :: "sql_value \<Rightarrow> string" where
  "sql_string (SqlText s) = s"
| "sql_string (SqlBytes s) = s"

definition pep_get_head_version :: "'z db_world_scheme db_api \<Rightarrow> nat \<Rightarrow> string \<Rightarrow> string \<Rightarrow> ('z db_world_scheme, string option) io" where
  "pep_get_head_version A i key br =
     io_bind (execute A i SELECT_HEAD (Params [SqlText key, SqlText br])) (\<lambda>rows.
       if rows = [] then io_return None
       else io_bind (io_lift (first_column rows)) (\<lambda>v. io_return (Some (sql_string v))))"

definition pep_set_head_version :: "'z db_world_scheme db_api \<Rightarrow> nat \<Rightarrow> string \<Rightarrow> string \<Rightarrow> string \<Rightarrow> ('z db_world_scheme, unit) io" where
  "pep_set_head_version A i key br hversion =
     io_bind (pep_get_head_version A i key br) (\<lambda>try_hversion.
     io_then
       (case try_hversion of
          None \<Rightarrow> execute A i INSERT_HEAD (Params [SqlText key, SqlText br, SqlText hversion])
        | Some _ \<Rightarrow> execute A i UPDATE_HEAD (Params [SqlText hversion, SqlText key, SqlText br]))
       (io_return ()))"

text \<open>\<open>TEMP_PATH\<close>, below the home of the application.\<close>

definition pep_temp_path :: "string \<Rightarrow> string" where
  "pep_temp_path app_home = app_home @ ''/sgx/gemini-pipeline/gemini-pipeline/temp''"

text \<open>Only bytes can be written to the local copy.\<close>

fun row_bytes :: "sql_value \<Rightarrow> string result" where
  "row_bytes (SqlBytes b) = Inr b"
| "row_bytes (SqlText s) = Inl TypeError"

text \<open>The local copy of the blob, and its content when a string was asked for.\<close>

definition pep_fetch :: "string \<Rightarrow> string \<Rightarrow> string option \<Rightarrow> transfer_dtype \<Rightarrow> sql_value list list \<Rightarrow> ('z db_world_scheme, string option) io" where
  "pep_fetch app_home key br dtype rows =
     io_bind (io_lift (py_index rows 0)) (\<lambda>_.
     io_bind time_now (\<lambda>now.
     let file_path = path_join (pep_temp_path app_home) (now @ ''-'' @ key @ ''-'' @ none_str br)
     in io_then (write_bytes file_path [])
        (io_bind (io_lift (res_bind (first_column rows) row_bytes)) (\<lambda>b.
         io_then (write_bytes file_path b)
         (case dtype of
            FILE \<Rightarrow> io_return (Some file_path)
          | STRING \<Rightarrow> io_bind (read_str file_path) (\<lambda>content. io_return (Some content)))))))"

definition pep_get :: "'z db_world_scheme db_api \<Rightarrow> string \<Rightarrow> nat \<Rightarrow> string \<Rightarrow> string option \<Rightarrow> string option \<Rightarrow> transfer_dtype \<Rightarrow>
    ('z db_world_scheme, string option) io" where
  "pep_get A app_home i key br hversion dtype =
     io_then (check_and_connect A i)
     (io_bind
       (case hversion of
          Some h \<Rightarrow> io_return (Some h)
        | None \<Rightarrow> (case br of Some b \<Rightarrow> pep_get_head_version A i key b | None \<Rightarrow> io_raise ValueError)) (\<lambda>version.
      case version of
        None \<Rightarrow> io_return None
      | Some h \<Rightarrow>
          io_bind (execute A i SELECT_BLOB (Params [SqlText key, SqlText h])) (\<lambda>rows.
            if rows = [] then io_return None else pep_fetch app_home key br dtype rows)))"

definition version_header :: "string \<Rightarrow> string \<Rightarrow> string \<Rightarrow> string" where
  "version_header now key br = now @ ''##'' @ key @ ''::'' @ br @ ''::''"

text \<open>The content to insert and its hashed version.\<close>

definition pep_content :: "(string \<Rightarrow> string) \<Rightarrow> string \<Rightarrow> string \<Rightarrow> transfer_dtype \<Rightarrow> string \<Rightarrow> ('z db_world_scheme, sql_value \<times> string) io" where
  "pep_content sha256 key br dtype v =
     io_bind time_now (\<lambda>now.
       case dtype of
         FILE \<Rightarrow> io_bind (read_bytes v) (\<lambda>content. io_return (SqlBytes content, sha256 (utf8 (version_header now key br) @ content)))
       | STRING \<Rightarrow> io_return (SqlText v, sha256 (utf8 (version_header now key br @ v))))"

definition pep_put :: "'z db_world_scheme db_api \<Rightarrow> (string \<Rightarrow> string) \<Rightarrow> nat \<Rightarrow> string \<Rightarrow> string \<Rightarrow> transfer_dtype \<Rightarrow> string \<Rightarrow>
    ('z db_world_scheme, reply) io" where
  "pep_put A sha256 i key br dtype v =
     io_then (check_and_connect A i)
     (io_bind (pep_content sha256 key br dtype v) (\<lambda>(content, hversion).
      io_then (execute A i INSERT_BLOB (Params [SqlText key, SqlText br, SqlText hversion, content]))
      (io_then (pep_set_head_version A i key br hversion)
        (io_return (StorageReturn (VDict [(''Version'', Some hversion)]))))))"

text \<open>\<open>fetchall().zip()\<close>: a list has no such method, so these two give nothing but empty lists.\<close>

definition pep_list_key :: "'z db_world_scheme db_api \<Rightarrow> nat \<Rightarrow> ('z db_world_scheme, reply) io" where
  "pep_list_key A i =
     io_then (check_and_connect A i)
     (io_bind (execute A i SELECT_KEYS NoParams) (\<lambda>rows. if rows = [] then io_return (PlainList []) else io_raise AttributeError))"

definition pep_list_branch :: "'z db_world_scheme db_api \<Rightarrow> nat \<Rightarrow> string \<Rightarrow> ('z db_world_scheme, reply) io" where
  "pep_list_branch A i key =
     io_then (check_and_connect A i)
     (io_bind (execute A i SELECT_BRANCHES (BareParam key)) (\<lambda>rows. if rows = [] then io_return (PlainList []) else io_raise AttributeError))"

definition pep_head :: "'z db_world_scheme db_api \<Rightarrow> nat \<Rightarrow> string \<Rightarrow> string \<Rightarrow> ('z db_world_scheme, reply) io" where
  "pep_head A i key br =
     io_then (check_and_connect A i)
     (io_bind (pep_get_head_version A i key br) (\<lambda>h. io_return (StorageReturn (VDict [(''Version'', h)]))))"

definition pep_branch :: "string \<Rightarrow> string \<Rightarrow> string option \<Rightarrow> string option \<Rightarrow> ('z db_world_scheme, reply) io" where
  "pep_branch key new_branch based_on_branch refer_version = io_raise NotImplementedError"

definition pep_meta :: "string \<Rightarrow> string option \<Rightarrow> string option \<Rightarrow> ('z db_world_scheme, reply) io" where
  "pep_meta key version br = io_raise NotImplementedError"

definition pep_merge :: "string \<Rightarrow> string \<Rightarrow> string \<Rightarrow> transfer_dtype \<Rightarrow> string \<Rightarrow> ('z db_world_scheme, reply) io" where
  "pep_merge key head_branch merge_branch dtype v = io_raise NotImplementedError"

definition pep_store :: "'z db_world_scheme db_api \<Rightarrow> string \<Rightarrow> (string \<Rightarrow> string) \<Rightarrow> nat \<Rightarrow> 'z db_world_scheme phys_store" where
  "pep_store A app_home sha256 i =
     \<lparr>ps_get = pep_get A app_home i, ps_put = pep_put A sha256 i, ps_list_key = pep_list_key A i, ps_head = pep_head A i,
      ps_branch = pep_branch, ps_list_branch = pep_list_branch A i, ps_meta = pep_meta, ps_merge = pep_merge\<rparr>"

end
