(* ===== verification/Pep249Spec.thy ===== *)
theory Pep249Spec
  imports Pep249 "HOL-Library.Multiset"
begin

text \<open>
  What the engine of \<^verbatim>\<open>pep249.py\<close> asks of a database, as the locale \<open>sql_tables\<close>: the meaning of the five statements on the two
  tables its documentation defines. A statement that selects gives the matching rows in any order; \<open>same\<close> is the
  collation that compares texts. An in-memory driver that dispatches on the texts of the statements has the laws.
\<close>

type_synonym blob_row = "string \<times> string \<times> string \<times> string"
type_synonym head_row = "string \<times> string \<times> string"

text \<open>The parts of the client that a statement does not touch.\<close>

definition client_part :: "'z db_world_scheme \<Rightarrow>
    (string \<times> fs \<times> (nat \<Rightarrow> string) \<times> nat) \<times> (nat \<Rightarrow> pep_object) \<times> (string, nat option) odict \<times> bool" where
  "client_part w = ((fw_cwd w, fw_files w, fw_time w, fw_clock w), dw_objects w, dw_pool w, dw_locked w)"

text \<open>A step that only adds a local copy: no directory comes or goes.\<close>

definition local_step :: "'z db_world_scheme \<Rightarrow> 'z db_world_scheme \<Rightarrow> bool" where
  "local_step w w' \<longleftrightarrow> (\<exists>f n. w' = w\<lparr>fw_files := f, fw_clock := n\<rparr>) \<and> (\<forall>q. nodes w' q = Some Dir \<longleftrightarrow> nodes w q = Some Dir)"

text \<open>A text in a column of blobs is stored in UTF-8.\<close>

fun blob_bytes :: "sql_value \<Rightarrow> string" where
  "blob_bytes (SqlText s) = utf8 s"
| "blob_bytes (SqlBytes b) = b"

text \<open>The directory of local copies is there, and the next copy does not meet a directory of its name.\<close>

definition temp_ready :: "string \<Rightarrow> string \<Rightarrow> string option \<Rightarrow> 'z db_world_scheme \<Rightarrow> bool" where
  "temp_ready app_home k br w \<longleftrightarrow>
     nodes w (resolve w (pep_temp_path app_home)) = Some Dir \<and> (\<forall>n. nodes w (resolve w (pep_temp_path app_home) @ [n]) \<noteq> Some Dir) \<and>
     CHR ''/'' \<notin> set (fw_time w (fw_clock w)) \<and> CHR ''/'' \<notin> set k \<and> CHR ''/'' \<notin> set (none_str br)"

lemma temp_ready_part: "client_part w' = client_part w \<Longrightarrow> temp_ready home k br w' = temp_ready home k br w"
  by (simp add: client_part_def temp_ready_def nodes_def resolve_def)

locale sql_tables =
  fixes A :: "'z db_world_scheme db_api"
    and h :: nat
    and same :: "string \<Rightarrow> string \<Rightarrow> bool"
    and blobs :: "'z db_world_scheme \<Rightarrow> blob_row list"
    and heads :: "'z db_world_scheme \<Rightarrow> head_row list"
  assumes same_refl: "same s s"
    and same_sym: "same s t \<Longrightarrow> same t s"
    and same_trans: "same s t \<Longrightarrow> same t u \<Longrightarrow> same s u"
    and local_steps: "blobs (w\<lparr>fw_files := f, fw_clock := n\<rparr>) = blobs w" "heads (w\<lparr>fw_files := f, fw_clock := n\<rparr>) = heads w"
    and select_blob: "\<exists>rows. da_execute A h SELECT_BLOB (Params [SqlText k, SqlText v]) w = (Inr rows, w) \<and>
      mset rows = mset (map (\<lambda>(k', b', v', c). [SqlBytes c]) (filter (\<lambda>(k', b', v', c). same k' k \<and> same v' v) (blobs w)))"
    and select_head: "\<exists>rows. da_execute A h SELECT_HEAD (Params [SqlText k, SqlText b]) w = (Inr rows, w) \<and>
      mset rows = mset (map (\<lambda>(k', b', v'). [SqlText v']) (filter (\<lambda>(k', b', v'). same k' k \<and> same b' b) (heads w)))"
    and insert_blob: "length v = 64 \<Longrightarrow>
      \<exists>w'. da_execute A h INSERT_BLOB (Params [SqlText k, SqlText b, SqlText v, content]) w = (Inr [], w') \<and>
        blobs w' = blobs w @ [(k, b, v, blob_bytes content)] \<and> heads w' = heads w \<and> client_part w' = client_part w"
    and insert_head: "length v = 64 \<Longrightarrow>
      \<exists>w'. da_execute A h INSERT_HEAD (Params [SqlText k, SqlText b, SqlText v]) w = (Inr [], w') \<and>
        heads w' = heads w @ [(k, b, v)] \<and> blobs w' = blobs w \<and> client_part w' = client_part w"
    and update_head: "length v = 64 \<Longrightarrow>
      \<exists>w'. da_execute A h UPDATE_HEAD (Params [SqlText v, SqlText k, SqlText b]) w = (Inr [], w') \<and>
        heads w' = map (\<lambda>(k', b', v'). if same k' k \<and> same b' b then (k', b', v) else (k', b', v')) (heads w) \<and>
        blobs w' = blobs w \<and> client_part w' = client_part w"
begin

text \<open>At most one head for every branch of a key; the object is connected through \<open>h\<close>.\<close>

definition head_rows :: "'z db_world_scheme \<Rightarrow> string \<Rightarrow> string \<Rightarrow> head_row list" where
  "head_rows w k b = filter (\<lambda>(k', b', v'). same k' k \<and> same b' b) (heads w)"

definition head_at :: "'z db_world_scheme \<Rightarrow> string \<Rightarrow> string \<Rightarrow> string option" where
  "head_at w k b = (case head_rows w k b of [] \<Rightarrow> None | (k', b', v) # _ \<Rightarrow> Some v)"

definition unique_heads :: "'z db_world_scheme \<Rightarrow> bool" where
  "unique_heads w \<longleftrightarrow> (\<forall>k b. length (head_rows w k b) \<le> 1)"

definition connected :: "nat \<Rightarrow> 'z db_world_scheme \<Rightarrow> bool" where
  "connected i w \<longleftrightarrow> pe_connected (dw_objects w i) \<and> pe_conn (dw_objects w i) = Some h"

lemma connected_part: "client_part w' = client_part w \<Longrightarrow> connected i w' = connected i w"
  by (simp add: client_part_def connected_def)

lemma execute_run: "connected i w \<Longrightarrow> execute A i sql ps w = da_execute A h sql ps w"
  by (simp add: execute_def connected_def)

lemma check_run: "connected i w \<Longrightarrow> check_and_connect A i w = (Inr (), w)"
  by (simp add: check_and_connect_def connected_def)

lemma head_run:
  assumes "connected i w" and "unique_heads w"
  shows "pep_get_head_version A i k b w = (Inr (head_at w k b), w)"
proof -
  obtain rows where r: "da_execute A h SELECT_HEAD (Params [SqlText k, SqlText b]) w = (Inr rows, w)"
      "mset rows = mset (map (\<lambda>(k', b', v'). [SqlText v']) (head_rows w k b))"
    using select_head [of k b w] by (auto simp: head_rows_def)
  have one: "length (head_rows w k b) \<le> 1" using assms(2) by (simp add: unique_heads_def)
  show ?thesis
  proof (cases "head_rows w k b")
    case Nil
    then show ?thesis using r assms(1) by (simp add: pep_get_head_version_def io_bind_def execute_run head_at_def)
  next
    case (Cons x xs)
    then have "head_rows w k b = [x]" using one by (cases xs) auto
    then show ?thesis
      using r assms(1) by (cases x) (simp add: pep_get_head_version_def io_bind_def execute_run head_at_def)
  qed
qed

lemma head_rows_same:
  assumes "same k' k" "same b' b"
  shows "head_rows w k' b' = head_rows w k b"
proof -
  have "same x k' = same x k" "same x b' = same x b" for x
    using assms same_trans same_sym by blast+
  then show ?thesis by (simp add: head_rows_def)
qed

text \<open>Moving the head: of the branch and all that the collation equates with it, and of nothing else.\<close>

lemma set_head_run:
  assumes "connected i w" and "unique_heads w" and "length v = 64"
  obtains w' where "pep_set_head_version A i k b v w = (Inr (), w')" "blobs w' = blobs w" "client_part w' = client_part w" "unique_heads w'"
    "\<And>k' b'. head_at w' k' b' = (if same k' k \<and> same b' b then Some v else head_at w k' b')"
proof (cases "head_at w k b")
  case None
  then have none: "head_rows w k b = []" by (auto simp: head_at_def split: list.splits)
  obtain w' where w': "da_execute A h INSERT_HEAD (Params [SqlText k, SqlText b, SqlText v]) w = (Inr [], w')"
      "heads w' = heads w @ [(k, b, v)]" "blobs w' = blobs w" "client_part w' = client_part w"
    using insert_head [OF assms(3)] by blast
  have rows: "head_rows w' k' b' = head_rows w k' b' @ (if same k k' \<and> same b b' then [(k, b, v)] else [])" for k' b'
    by (simp add: head_rows_def w'(2))
  have empty: "head_rows w k' b' = []" if "same k' k" "same b' b" for k' b'
    using head_rows_same [OF that] none by simp
  have "pep_set_head_version A i k b v w = (Inr (), w')"
    using None w'(1) assms(1) by (simp add: pep_set_head_version_def io_bind_def io_then_def head_run [OF assms(1,2)] execute_run)
  moreover have "unique_heads w'"
    using assms(2) empty same_sym by (auto simp: unique_heads_def rows)
  moreover have "head_at w' k' b' = (if same k' k \<and> same b' b then Some v else head_at w k' b')" for k' b'
    using empty [of k' b'] same_sym by (auto simp: head_at_def rows split: list.splits)
  ultimately show ?thesis using that w'(3,4) by blast
next
  case (Some v0)
  obtain w' where w': "da_execute A h UPDATE_HEAD (Params [SqlText v, SqlText k, SqlText b]) w = (Inr [], w')"
      "heads w' = map (\<lambda>(k', b', v'). if same k' k \<and> same b' b then (k', b', v) else (k', b', v')) (heads w)"
      "blobs w' = blobs w" "client_part w' = client_part w"
    using update_head [OF assms(3)] by blast
  have other: "head_rows w' k' b' = head_rows w k' b'" if "\<not> (same k' k \<and> same b' b)" for k' b'
  proof -
    have no: "\<not> (same x k \<and> same y b)" if "same x k' \<and> same y b'" for x y
      using that \<open>\<not> (same k' k \<and> same b' b)\<close> same_trans same_sym by blast
    show ?thesis unfolding head_rows_def w'(2) filter_map comp_def
      using no by (auto simp: map_idI intro!: trans [OF map_idI filter_cong [OF refl]] split: if_splits)
  qed
  have this_rows: "head_rows w' k b = map (\<lambda>(k', b', v'). (k', b', v)) (head_rows w k b)"
  proof -
    have "filter (\<lambda>(k', b', v'). same k' k \<and> same b' b) (map (\<lambda>(k', b', v'). if same k' k \<and> same b' b then (k', b', v) else (k', b', v')) hs)
        = map (\<lambda>(k', b', v'). (k', b', v)) (filter (\<lambda>(k', b', v'). same k' k \<and> same b' b) hs)" for hs :: "head_row list"
      by (induction hs) (auto split: if_splits)
    then show ?thesis unfolding head_rows_def w'(2) .
  qed
  have "pep_set_head_version A i k b v w = (Inr (), w')"
    using Some w'(1) assms(1) by (simp add: pep_set_head_version_def io_bind_def io_then_def head_run [OF assms(1,2)] execute_run)
  moreover have "unique_heads w'"
    unfolding unique_heads_def
  proof (intro allI)
    fix k' b'
    show "length (head_rows w' k' b') \<le> 1"
    proof (cases "same k' k \<and> same b' b")
      case True
      then have "head_rows w' k' b' = head_rows w' k b" using head_rows_same by blast
      then show ?thesis using this_rows assms(2) by (simp add: unique_heads_def)
    next
      case False
      then show ?thesis using other assms(2) by (simp add: unique_heads_def)
    qed
  qed
  moreover have "head_at w' k' b' = (if same k' k \<and> same b' b then Some v else head_at w k' b')" for k' b'
  proof (cases "same k' k \<and> same b' b")
    case True
    then have "head_rows w' k' b' = head_rows w' k b" using head_rows_same by blast
    then show ?thesis using True this_rows Some by (auto simp: head_at_def split: list.splits)
  next
    case False
    then show ?thesis using other by (auto simp: head_at_def)
  qed
  ultimately show ?thesis using that w'(3,4) by blast
qed

text \<open>Storing: a new row of the blobs, and the head moves to it.\<close>

lemma content_run:
  assumes "pep_content sha256 k b dtype v w = (Inr (c, hv), w1)"
  shows "\<exists>n. w1 = w\<lparr>fw_clock := n\<rparr>" "\<exists>x. hv = sha256 x"
  using assms by (auto simp: pep_content_def io_bind_def time_now_def read_bytes_def split: transfer_dtype.splits prod.splits sum.splits option.splits node.splits)

lemma clock_view:
  "blobs (w\<lparr>fw_clock := n\<rparr>) = blobs w" "heads (w\<lparr>fw_clock := n\<rparr>) = heads w"
  "connected i (w\<lparr>fw_clock := n\<rparr>) = connected i w" "head_rows (w\<lparr>fw_clock := n\<rparr>) = head_rows w"
  "head_at (w\<lparr>fw_clock := n\<rparr>) = head_at w" "unique_heads (w\<lparr>fw_clock := n\<rparr>) = unique_heads w"
proof -
  show b: "blobs (w\<lparr>fw_clock := n\<rparr>) = blobs w" and hd: "heads (w\<lparr>fw_clock := n\<rparr>) = heads w"
    using local_steps [where w = w and f = "fw_files w" and n = n] by simp_all
  show "connected i (w\<lparr>fw_clock := n\<rparr>) = connected i w" by (simp add: connected_def)
  show r: "head_rows (w\<lparr>fw_clock := n\<rparr>) = head_rows w" by (simp add: head_rows_def hd fun_eq_iff)
  show "head_at (w\<lparr>fw_clock := n\<rparr>) = head_at w" "unique_heads (w\<lparr>fw_clock := n\<rparr>) = unique_heads w"
    by (simp_all add: head_at_def unique_heads_def r fun_eq_iff)
qed

lemma put_run:
  assumes w: "connected i w" "unique_heads w" and sha: "\<And>x. length (sha256 x) = 64"
    and c: "pep_content sha256 k b dtype v w = (Inr (c, hv), w1)"
  obtains w' where "pep_put A sha256 i k b dtype v w = (Inr (StorageReturn (VDict [(''Version'', Some hv)])), w')"
    "blobs w' = blobs w @ [(k, b, hv, blob_bytes c)]" "client_part w' = client_part w1" "unique_heads w'"
    "\<And>k' b'. head_at w' k' b' = (if same k' k \<and> same b' b then Some hv else head_at w k' b')"
proof -
  obtain n where n: "w1 = w\<lparr>fw_clock := n\<rparr>" using content_run(1) [OF c] by blast
  have len: "length hv = 64" using content_run(2) [OF c] sha by auto
  have w1: "connected i w1" "unique_heads w1" "blobs w1 = blobs w" "\<And>k b. head_at w1 k b = head_at w k b"
    using w by (simp_all add: n clock_view)
  obtain w2 where w2: "da_execute A h INSERT_BLOB (Params [SqlText k, SqlText b, SqlText hv, c]) w1 = (Inr [], w2)"
      "blobs w2 = blobs w1 @ [(k, b, hv, blob_bytes c)]" "heads w2 = heads w1" "client_part w2 = client_part w1"
    using insert_blob [OF len] by blast
  have rows: "head_rows w2 = head_rows w1" by (simp add: head_rows_def w2(3) fun_eq_iff)
  have c2: "connected i w2" "unique_heads w2"
    using w1(1,2) connected_part [OF w2(4)] by (simp_all add: unique_heads_def rows)
  obtain w' where w': "pep_set_head_version A i k b hv w2 = (Inr (), w')" "blobs w' = blobs w2" "client_part w' = client_part w2"
      "unique_heads w'" "\<And>k' b'. head_at w' k' b' = (if same k' k \<and> same b' b then Some hv else head_at w2 k' b')"
    using set_head_run [OF c2 len] by blast
  have "pep_put A sha256 i k b dtype v w = (Inr (StorageReturn (VDict [(''Version'', Some hv)])), w')"
    using w2(1) w'(1) by (simp add: pep_put_def io_then_def io_bind_def check_run [OF w(1)] c execute_run [OF w1(1)])
  moreover have "head_at w2 k' b' = head_at w k' b'" for k' b'
    using w1(4) [of k' b'] by (simp add: head_at_def rows)
  ultimately show ?thesis using that w' w2 w1(3) by simp
qed

text \<open>Retrieving: when all rows of a version hold the same bytes, a get leaves them in a local file and returns its path or its text.\<close>

definition blob_rows :: "'z db_world_scheme \<Rightarrow> string \<Rightarrow> string \<Rightarrow> blob_row list" where
  "blob_rows w k v = filter (\<lambda>(k', b', v', c). same k' k \<and> same v' v) (blobs w)"

lemma fetch_run:
  assumes ready: "temp_ready app_home k br w" and rows: "rows \<noteq> []" "\<forall>r \<in> set rows. r = [SqlBytes c]"
  obtains p w' where "nodes w' (resolve w' p) = Some (File c)" "p \<noteq> []" "local_step w w'"
    "pep_fetch app_home k br FILE rows w = (Inr (Some p), w')"
    "pep_fetch app_home k br STRING rows w = io_bind (read_str p) (\<lambda>content. io_return (Some content)) w'"
proof -
  obtain nm where nm: "nm = fw_time w (fw_clock w) @ ''-'' @ k @ ''-'' @ none_str br" by simp
  let ?t = "pep_temp_path app_home"
  let ?p = "path_join ?t nm" and ?w = "w\<lparr>fw_clock := Suc (fw_clock w)\<rparr>"
  have name: "plain_name nm" using ready by (auto simp: nm plain_name_def temp_ready_def append_eq_Cons_conv)
  have t: "?t \<noteq> []" by (simp add: pep_temp_path_def)
  have res: "resolve u ?p = resolve u ?t @ [nm]" for u :: "'a db_world_scheme" by (simp only: resolve_join [OF name t])
  have p: "?p \<noteq> []" using name by (auto simp: path_join_def plain_name_def)
  have r0: "resolve ?w q = resolve w q" for q by (simp add: resolve_def)
  have write1: "write_bytes ?p b u = (Inr (), set_node (resolve u ?p) (File b) u)"
    if "nodes u (resolve u ?t) = Some Dir" "nodes u (resolve u ?t @ [nm]) \<noteq> Some Dir" for b and u :: "'a db_world_scheme"
    using that p by (intro write_bytes_ok) (simp_all add: res)
  let ?u = "set_node (resolve ?w ?p) (File []) ?w"
  have w1: "write_bytes ?p [] ?w = (Inr (), ?u)"
    using ready by (intro write1) (simp_all add: temp_ready_def r0)
  have w2: "write_bytes ?p c ?u = (Inr (), set_node (resolve ?u ?p) (File c) ?u)"
    using ready by (intro write1) (auto simp: temp_ready_def r0 res)
  obtain r rs where rs: "rows = [SqlBytes c] # rs" using rows by (cases rows) auto
  let ?w' = "set_node (resolve ?u ?p) (File c) ?u"
  have "nodes ?w' (resolve ?w' ?p) = Some (File c)" by (simp add: res)
  moreover have "local_step w ?w'"
    unfolding local_step_def
  proof
    show "\<exists>f n. ?w' = w\<lparr>fw_files := f, fw_clock := n\<rparr>"
      by (intro exI [of _ "fw_files ?w'"] exI [of _ "fw_clock ?w'"]) (simp add: set_node_def)
    show "\<forall>q. nodes ?w' q = Some Dir \<longleftrightarrow> nodes w q = Some Dir"
      using ready by (auto simp: res r0 temp_ready_def)
  qed
  moreover have "pep_fetch app_home k br FILE rows w = (Inr (Some ?p), ?w')"
    "pep_fetch app_home k br STRING rows w = io_bind (read_str ?p) (\<lambda>content. io_return (Some content)) ?w'"
    using w1 w2 by (simp_all add: pep_fetch_def io_then_def io_bind_def py_index_def rs time_now_def Let_def nm [simplified, symmetric])
  ultimately show ?thesis using that p by blast
qed

lemma get_steps:
  assumes w: "connected i w" "unique_heads w" and ready: "temp_ready app_home k br w"
    and version: "(case hversion of Some v \<Rightarrow> Some v | None \<Rightarrow> (case br of Some b \<Rightarrow> head_at w k b | None \<Rightarrow> None)) = Some v"
    and rows: "blob_rows w k v \<noteq> []" "\<forall>(k', b', v', x) \<in> set (blob_rows w k v). x = c"
  shows "\<exists>p w'. pep_get A app_home i k br hversion FILE w = (Inr (Some p), w') \<and> p \<noteq> [] \<and> nodes w' (resolve w' p) = Some (File c) \<and> local_step w w'"
    and "c = utf8 s \<Longrightarrow> CHR 0x0D \<notin> set s \<Longrightarrow> \<exists>w'. pep_get A app_home i k br hversion STRING w = (Inr (Some s), w') \<and> local_step w w'"
proof -
  obtain rs where rs: "da_execute A h SELECT_BLOB (Params [SqlText k, SqlText v]) w = (Inr rs, w)"
      "mset rs = mset (map (\<lambda>(k', b', v', c). [SqlBytes c]) (blob_rows w k v))"
    using select_blob [of k v w] by (auto simp: blob_rows_def)
  have "set rs = (\<lambda>(k', b', v', c). [SqlBytes c]) ` set (blob_rows w k v)"
    using mset_eq_setD [OF rs(2)] by simp
  then have all: "rs \<noteq> []" "\<forall>r \<in> set rs. r = [SqlBytes c]" using rows by auto
  obtain p w' where p: "nodes w' (resolve w' p) = Some (File c)" "p \<noteq> []" "local_step w w'"
    "pep_fetch app_home k br FILE rs w = (Inr (Some p), w')"
    "pep_fetch app_home k br STRING rs w = io_bind (read_str p) (\<lambda>content. io_return (Some content)) w'"
    using fetch_run [OF ready all] by metis
  have get: "pep_get A app_home i k br hversion d w = pep_fetch app_home k br d rs w" for d
    using version rs(1) all(1)
    by (auto simp: pep_get_def io_then_def io_bind_def check_run [OF w(1)] head_run [OF w] execute_run [OF w(1)] split: option.splits)
  show "\<exists>p w'. pep_get A app_home i k br hversion FILE w = (Inr (Some p), w') \<and> p \<noteq> [] \<and> nodes w' (resolve w' p) = Some (File c) \<and> local_step w w'"
    using get p(1-4) by metis
  show "\<exists>w'. pep_get A app_home i k br hversion STRING w = (Inr (Some s), w') \<and> local_step w w'" if "c = utf8 s" "CHR 0x0D \<notin> set s"
    using get [of STRING] p read_str_ok [of p w' s] that by (simp add: io_bind_def)
qed

lemma get_run:
  assumes w: "connected i w" "unique_heads w" and ready: "temp_ready app_home k br w"
    and version: "(case hversion of Some v \<Rightarrow> Some v | None \<Rightarrow> (case br of Some b \<Rightarrow> head_at w k b | None \<Rightarrow> None)) = Some v"
    and rows: "blob_rows w k v \<noteq> []" "\<forall>(k', b', v', x) \<in> set (blob_rows w k v). x = c"
  shows "\<exists>p w'. pep_get A app_home i k br hversion FILE w = (Inr (Some p), w') \<and> read_bytes p w' = (Inr c, w')"
    and "c = utf8 s \<Longrightarrow> CHR 0x0D \<notin> set s \<Longrightarrow> fst (pep_get A app_home i k br hversion STRING w) = Inr (Some s)"
  using get_steps(1) [OF assms] get_steps(2) [OF assms, of s] read_bytes_ok by (metis, auto)

end

end
