(* ===== verification/Pep249Props.thy ===== *)
theory Pep249Props
  imports Pep249Spec
begin

text \<open>
  Theorems about the relational engine: its results for any database with the laws of \<open>sql_tables\<close>, an in-memory database
  that has them, and what its connection pool does when a connection fails.
\<close>

section \<open>An in-memory database\<close>

text \<open>Two tables, one account, a driver that knows the five statements.\<close>

record mem_world = db_world +
  mw_blobs :: "blob_row list"
  mw_heads :: "head_row list"

definition mem_connect :: "string \<Rightarrow> int \<Rightarrow> string \<Rightarrow> string \<Rightarrow> credentials \<Rightarrow> (mem_world, nat) io" where
  "mem_connect host port database user c =
     (if database = ''seccask'' \<and> c = Password ''secret'' then io_return 7 else io_raise ConnectionError)"

definition mem_execute :: "nat \<Rightarrow> string \<Rightarrow> sql_params \<Rightarrow> (mem_world, sql_value list list) io" where
  "mem_execute h sql ps w =
     (case ps of
        Params [SqlText x, SqlText y] \<Rightarrow>
          (if sql = SELECT_BLOB then
             (Inr (map (\<lambda>(k', b', v', c). [SqlBytes c]) (filter (\<lambda>(k', b', v', c). k' = x \<and> v' = y) (mw_blobs w))), w)
           else if sql = SELECT_HEAD then
             (Inr (map (\<lambda>(k', b', v'). [SqlText v']) (filter (\<lambda>(k', b', v'). k' = x \<and> b' = y) (mw_heads w))), w)
           else (Inl ValueError, w))
      | Params [SqlText x, SqlText y, SqlText z] \<Rightarrow>
          (if sql = INSERT_HEAD then (Inr [], w\<lparr>mw_heads := mw_heads w @ [(x, y, z)]\<rparr>)
           else if sql = UPDATE_HEAD then
             (Inr [], w\<lparr>mw_heads := map (\<lambda>(k', b', v'). if k' = y \<and> b' = z then (k', b', x) else (k', b', v')) (mw_heads w)\<rparr>)
           else (Inl ValueError, w))
      | Params [SqlText x, SqlText y, SqlText z, c] \<Rightarrow>
          (if sql = INSERT_BLOB then (Inr [], w\<lparr>mw_blobs := mw_blobs w @ [(x, y, z, blob_bytes c)]\<rparr>) else (Inl ValueError, w))
      | _ \<Rightarrow> (Inl ValueError, w))"

definition mem_api :: "mem_world db_api" where
  "mem_api = \<lparr>da_connect = mem_connect, da_close = \<lambda>h. io_return (), da_execute = mem_execute\<rparr>"

lemma statements_differ:
  "SELECT_HEAD \<noteq> SELECT_BLOB" "UPDATE_HEAD \<noteq> INSERT_HEAD"
  by (simp_all add: SELECT_HEAD_def SELECT_BLOB_def UPDATE_HEAD_def INSERT_HEAD_def)

interpretation mem: sql_tables mem_api h "(=)" mw_blobs mw_heads for h
  by unfold_locales (simp_all add: mem_api_def mem_execute_def client_part_def statements_differ)

section \<open>Storing and retrieving\<close>

text \<open>C36 (roundtrip). A value stored on a branch through a connected object is what the branch gives afterwards, by the branch or
  by the version that was returned: as a file with the bytes stored, and, for a value stored as text, as that text (as long
  as it has no carriage return). The heads of all other branches and keys are as before. This holds for any database with
  the laws of \<open>sql_tables\<close> and at most one head for each branch, if SHA-256 gives 64 digits and the version is new.\<close>

theorem pep_put_get:
  assumes A: "sql_tables A h same blobs heads"
    and conn: "pe_connected (dw_objects w i)" "pe_conn (dw_objects w i) = Some h"
    and one_head: "\<And>k b. length (filter (\<lambda>(k', b', v'). same k' k \<and> same b' b) (heads w)) \<le> 1"
    and sha: "\<And>x. length (sha256 x) = 64"
    and content: "pep_content sha256 k b dtype v w = (Inr (c, hv), w1)"
    and new: "filter (\<lambda>(k', b', v', c'). same k' k \<and> same v' hv) (blobs w) = []"
    and temp: "temp_ready app_home k (Some b) w1"
  shows "\<exists>w'. pep_put A sha256 i k b dtype v w = (Inr (StorageReturn (VDict [(''Version'', Some hv)])), w') \<and>
    (\<forall>version \<in> {None, Some hv}.
       (\<exists>p w2. pep_get A app_home i k (Some b) version FILE w' = (Inr (Some p), w2) \<and> read_bytes p w2 = (Inr (blob_bytes c), w2)) \<and>
       (dtype = STRING \<and> CHR 0x0D \<notin> set v \<longrightarrow> fst (pep_get A app_home i k (Some b) version STRING w') = Inr (Some v))) \<and>
    (\<forall>k' b'. \<not> (same k' k \<and> same b' b) \<longrightarrow> fst (pep_head A i k' b' w') = fst (pep_head A i k' b' w))"
proof -
  have pre: "sql_tables.connected h i w" "sql_tables.unique_heads same heads w"
    using conn one_head
    by (simp_all add: sql_tables.connected_def [OF A] sql_tables.unique_heads_def [OF A] sql_tables.head_rows_def [OF A])
  obtain w' where w': "pep_put A sha256 i k b dtype v w = (Inr (StorageReturn (VDict [(''Version'', Some hv)])), w')"
    "blobs w' = blobs w @ [(k, b, hv, blob_bytes c)]" "client_part w' = client_part w1" "sql_tables.unique_heads same heads w'"
    "\<And>k' b'. sql_tables.head_at same heads w' k' b' =
       (if same k' k \<and> same b' b then Some hv else sql_tables.head_at same heads w k' b')"
    using sql_tables.put_run [OF A pre sha content] by blast
  have refl: "same s s" for s using A by (rule sql_tables.same_refl)
  have rows: "sql_tables.blob_rows same blobs w' k hv = [(k, b, hv, blob_bytes c)]"
    using new by (simp add: sql_tables.blob_rows_def [OF A] w'(2) refl)
  have c1: "sql_tables.connected h i w1"
    using sql_tables.content_run(1) [OF A content] pre(1) by (auto simp: sql_tables.connected_def [OF A])
  have conn': "sql_tables.connected h i w'" using c1 sql_tables.connected_part [OF A w'(3)] by simp
  have temp': "temp_ready app_home k (Some b) w'" using temp temp_ready_part [OF w'(3)] by simp
  have utf: "blob_bytes c = utf8 v" if "dtype = STRING"
    using content that by (auto simp: pep_content_def io_bind_def time_now_def)
  have get: "(\<exists>p w2. pep_get A app_home i k (Some b) version FILE w' = (Inr (Some p), w2) \<and> read_bytes p w2 = (Inr (blob_bytes c), w2)) \<and>
      (dtype = STRING \<and> CHR 0x0D \<notin> set v \<longrightarrow> fst (pep_get A app_home i k (Some b) version STRING w') = Inr (Some v))"
    if "version \<in> {None, Some hv}" for version
  proof -
    have "(case version of Some x \<Rightarrow> Some x | None \<Rightarrow> (case Some b of Some b' \<Rightarrow> sql_tables.head_at same heads w' k b' | None \<Rightarrow> None)) = Some hv"
      using that by (auto simp: w'(5) refl)
    then show ?thesis
      using sql_tables.get_run [OF A conn' w'(4) temp', of version hv "blob_bytes c"] utf by (simp add: rows)
  qed
  have "sql_tables.head_at same heads w' k' b' = sql_tables.head_at same heads w k' b'" if "\<not> (same k' k \<and> same b' b)" for k' b'
    unfolding w'(5) if_not_P [OF that] ..
  then have other: "fst (pep_head A i k' b' w') = fst (pep_head A i k' b' w)" if "\<not> (same k' k \<and> same b' b)" for k' b'
    using that by (simp add: pep_head_def io_then_def io_bind_def
        sql_tables.check_run [OF A pre(1)] sql_tables.check_run [OF A conn']
        sql_tables.head_run [OF A pre] sql_tables.head_run [OF A conn' w'(4)] io_return_def)
  show ?thesis using w'(1) get other by blast
qed

definition mem_object :: pep_object where
  "mem_object = (pep_init ''bot'' ''db'' 3306 (Some ''secret'') None None)\<lparr>pe_connected := True, pe_conn := Some 7\<rparr>"

definition mem0 :: mem_world where
  "mem0 = \<lparr>fw_cwd = ''/'', fw_files = [([''h'', ''sgx'', ''gemini-pipeline'', ''gemini-pipeline'', ''temp''], Dir)], fw_time = (\<lambda>_. ''1.5''), fw_clock = 0,
     dw_objects = (\<lambda>_. mem_object), dw_pool = [], dw_locked = False, mw_blobs = [], mw_heads = []\<rparr>"

theorem pep_put_get_witness:
  "\<exists>w'. pep_put mem_api (\<lambda>_. replicate 64 (CHR ''a'')) 0 ''k'' ''master'' STRING ''hi'' mem0 =
       (Inr (StorageReturn (VDict [(''Version'', Some (replicate 64 (CHR ''a'')))])), w') \<and>
     fst (pep_get mem_api ''/h'' 0 ''k'' (Some ''master'') None STRING w') = Inr (Some ''hi'')"
proof -
  let ?v = "replicate 64 (CHR ''a'')" and ?w = "mem0\<lparr>fw_clock := 1\<rparr>"
  have obj: "pe_connected (dw_objects mem0 0)" "pe_conn (dw_objects mem0 0) = Some 7"
    by (simp_all add: mem0_def mem_object_def)
  have empty: "mw_heads mem0 = []" "mw_blobs mem0 = []" by (simp_all add: mem0_def)
  have content: "pep_content (\<lambda>_. ?v) ''k'' ''master'' STRING ''hi'' mem0 = (Inr (SqlText ''hi'', ?v), ?w)"
    by (simp add: pep_content_def io_bind_def time_now_def io_return_def mem0_def)
  have dir: "path_of (fw_cwd ?w) (pep_temp_path ''/h'') = [''h'', ''sgx'', ''gemini-pipeline'', ''gemini-pipeline'', ''temp'']"
    by code_simp
  have temp: "temp_ready ''/h'' ''k'' (Some ''master'') ?w"
    unfolding temp_ready_def resolve_def dir by (simp add: mem0_def nodes_def fs_node_def none_str_def od_get_def)
  show ?thesis
    using pep_put_get [OF mem.sql_tables_axioms obj _ _ content _ temp] empty by fastforce
qed

section \<open>The connection pool\<close>

text \<open>The pool opens one connection for each user, host and port: after the first object has connected, any other
  object with these data connects without asking the driver (it can be any other driver), shares the connection of the
  first, and leaves the pool and its lock as they are.\<close>

theorem pool_shares_connection:
  assumes free: "\<not> dw_locked w" "od_get (dw_pool w) (object_conn_id (dw_objects w i)) = None"
    and opened: "pep_do_connect A i (w\<lparr>dw_locked := True\<rparr>) = (Inr (), w1)"
    and same_id: "object_conn_id (dw_objects w1 j) = object_conn_id (dw_objects w i)"
  shows "\<exists>w2 c. pep_connect A i w = (Inr (), w2) \<and> pe_connected (dw_objects w2 i) \<and> pe_conn (dw_objects w2 i) = Some c \<and> \<not> dw_locked w2 \<and>
    (\<exists>w3. pep_connect B j w2 = (Inr (), w3) \<and> pe_connected (dw_objects w3 j) \<and> pe_conn (dw_objects w3 j) = Some c \<and>
      dw_pool w3 = dw_pool w2 \<and> \<not> dw_locked w3)"
proof -
  let ?id = "object_conn_id (dw_objects w i)"
  obtain c where c: "pe_conn (dw_objects w1 i) = Some c"
    using opened by (auto simp: pep_do_connect_def update_object_def io_bind_run Let_def split: option.splits)
  let ?w2 = "w1\<lparr>dw_pool := od_set ?id (Some i) (dw_pool w1), dw_locked := False,
      dw_objects := (dw_objects w1)(i := (dw_objects w1 i)\<lparr>pe_conn := Some c, pe_connected := True\<rparr>)\<rparr>"
  have first: "pep_connect A i w = (Inr (), ?w2)"
    using free opened c
    by (simp add: pep_connect_def pool_connect_def Let_def lock_acquire_def lock_release_def io_then_def io_bind_def update_object_def
        od_item_def od_simps)
  have "object_conn_id (dw_objects ?w2 j) = ?id" using same_id by (auto simp: object_conn_id_def)
  then have "pep_connect B j ?w2 = (Inr (), ?w2\<lparr>dw_objects := (dw_objects ?w2)(j := (dw_objects ?w2 j)\<lparr>pe_conn := Some c, pe_connected := True\<rparr>)\<rparr>)"
    by (simp add: pep_connect_def pool_connect_def Let_def lock_acquire_def lock_release_def io_then_def io_bind_def update_object_def
        od_item_def od_simps)
  with first show ?thesis by auto
qed


definition mem_start :: mem_world where
  "mem_start = mem0\<lparr>dw_objects := (\<lambda>i. pep_init ''bot'' ''db'' 3306 (if i = 2 then Some ''wrong'' else Some ''secret'') None None)\<rparr>"

theorem pool_shares_connection_witness:
  "\<exists>w2 w3 c. pep_connect mem_api 0 mem_start = (Inr (), w2) \<and> pe_conn (dw_objects w2 0) = Some c \<and>
     pep_connect mem_api 1 w2 = (Inr (), w3) \<and> pe_conn (dw_objects w3 1) = Some c"
proof -
  have free: "\<not> dw_locked mem_start" "od_get (dw_pool mem_start) (object_conn_id (dw_objects mem_start 0)) = None"
    by (simp_all add: mem_start_def mem0_def od_simps)
  have opened: "pep_do_connect mem_api 0 (mem_start\<lparr>dw_locked := True\<rparr>) =
      (Inr (), mem_start\<lparr>dw_locked := True, dw_objects := (dw_objects mem_start)(0 := (dw_objects mem_start 0)\<lparr>pe_conn := Some 7\<rparr>)\<rparr>)"
    by (simp add: pep_do_connect_def Let_def mem_start_def pep_init_def mem_api_def mem_connect_def DATABASE_NAME_def io_bind_def update_object_def)
  have same_id: "object_conn_id (dw_objects (mem_start\<lparr>dw_locked := True, dw_objects := (dw_objects mem_start)(0 := (dw_objects mem_start 0)\<lparr>pe_conn := Some 7\<rparr>)\<rparr>) 1)
      = object_conn_id (dw_objects mem_start 0)"
    by (simp add: mem_start_def pep_init_def object_conn_id_def)
  from pool_shares_connection [OF free opened same_id, of mem_api] show ?thesis by blast
qed


section \<open>What the engine does not offer\<close>

text \<open>Listing calls \<^verbatim>\<open>zip\<close> on a list of rows: it gives an empty list or fails, however many keys or branches there are.\<close>

theorem pep_lists_are_empty:
  "fst (pep_list_key A i w) = Inr r \<Longrightarrow> r = PlainList []"
  "fst (pep_list_branch A i k w) = Inr r \<Longrightarrow> r = PlainList []"
  by (auto simp: pep_list_key_def pep_list_branch_def io_then_def io_bind_def split: prod.splits sum.splits if_splits)

end
