(* ===== verification/ExpRunner.thy ===== *)
theory ExpRunner
  imports TrialManager
begin

text \<open>
  \<^verbatim>\<open>pysrc/exp_runner.py\<close>, the runner of experiments, and \<^verbatim>\<open>pysrc/profiler.py\<close>. An experiment is a YAML document, given as a JSON
  value (\<open>load_yaml\<close> parses it). The dictionaries of a YAML document have texts as keys here. A branch is used as the text it prints as.
\<close>

section \<open>The document\<close>

fun json_at :: "json \<Rightarrow> int \<Rightarrow> json result" where
  "json_at (JList xs) i = py_index xs i"
| "json_at (JStr s) i = res_bind (py_index s i) (\<lambda>c. Inr (JStr [c]))"
| "json_at (JObj kvs) i = Inl KeyError"
| "json_at _ i = Inl TypeError"

text \<open>\<open>os.path.join\<close> takes texts only.\<close>

fun json_text :: "json \<Rightarrow> string result" where
  "json_text (JStr s) = Inr s"
| "json_text _ = Inl TypeError"

definition item_or :: "string \<Rightarrow> json \<Rightarrow> json \<Rightarrow> json" where
  "item_or k d j = (case json_item j k of Inl _ \<Rightarrow> d | Inr v \<Rightarrow> v)"

section \<open>Workspaces\<close>

text \<open>\<open>time.time()\<close> is read between the description and the pipeline.\<close>

definition generate_workspace_meta ::
    "string \<Rightarrow> string \<Rightarrow> int \<Rightarrow> int \<Rightarrow> (string, meta_key option) odict \<Rightarrow> (string, string option) odict \<Rightarrow> meta_key list \<Rightarrow>
     ('z file_world_scheme, icp) io" where
  "generate_workspace_meta name br api inc dataset_dict path_dict pipeline =
     io_bind (io_lift
       (res_bind (meta_init cp_empty) (\<lambda>m.
        res_bind (workspace_init_sections m) (\<lambda>m.
        res_bind (set_meta_type GENERIC_WORKSPACE_KEY m) (\<lambda>m.
        res_bind (set_workspace_type ''production-pipeline'' m) (\<lambda>m.
        res_bind (set_meta_name name m) (\<lambda>m.
        res_bind (set_meta_version (mk_version br api inc) m) (\<lambda>m.
        res_bind (set_workspace_datasets dataset_dict m) (\<lambda>m.
        res_bind (set_workspace_paths path_dict m) (\<lambda>m.
          set_workspace_description (name @ '' '' @ br @ '' '' @ int_str api @ '' '' @ int_str inc) m)))))))))) (\<lambda>m.
     io_bind time_now (\<lambda>now. io_lift
       (res_bind (set_created_timestamp now m) (\<lambda>m.
        res_bind (set_workspace_pipeline pipeline m) (\<lambda>m.
        res_bind (set_workspace_outputs (JObj []) m) (\<lambda>m. set_workspace_params (JObj []) m))))))"

text \<open>One component of the pipeline: its key, which is the training set when it is a dataset.\<close>

definition pipeline_step ::
    "'z trial_env \<Rightarrow> string \<Rightarrow> json \<Rightarrow> int \<times> json \<Rightarrow> (string, meta_key option) odict \<times> meta_key list \<Rightarrow>
     ((string, meta_key option) odict \<times> meta_key list) result" where
  "pipeline_step E on_branch ver = (\<lambda>(i, component) (ds_dict, pipeline_keys).
     res_bind (json_item component ''type'') (\<lambda>t.
     res_bind (json_item component ''name'') (\<lambda>name.
     res_bind (res_bind (json_at ver i) (\<lambda>v. json_at v 0)) (\<lambda>api.
     res_bind (res_bind (json_at ver i) (\<lambda>v. json_at v 1)) (\<lambda>inc.
     let text = (\<lambda>br. py_str E t @ ''::'' @ py_str E name @ ''::'' @ br @ ''.'' @ py_str E api @ ''.'' @ py_str E inc)
     in if t = JStr ''dataset'' then
          res_bind (build_from_string (text ''not-schema-hashable'') True) (\<lambda>metakey.
            Inr (od_set ''train'' (Some metakey) ds_dict, pipeline_keys @ [metakey]))
        else
          res_bind (build_from_string (text on_branch) True) (\<lambda>metakey. Inr (ds_dict, pipeline_keys @ [metakey])))))))"

text \<open>A base that is no text is dropped by the bare \<open>except\<close> of \<open>set_path\<close>.\<close>

definition experiment_paths :: "json \<Rightarrow> (string, string option) odict" where
  "experiment_paths workspace_base =
     [(''base'', except_none (json_text workspace_base)), (''output'', Some ''output/''), (''temp'', Some ''temp/''), (''venv'', Some ''venv/'')]"

definition experiment_workspace ::
    "'z trial_env \<Rightarrow> string \<Rightarrow> json \<Rightarrow> json \<Rightarrow> json \<Rightarrow> ('z file_world_scheme, icp) io" where
  "experiment_workspace E on_branch pipeline ver workspace_base =
     io_bind (io_lift (res_bind (json_iter pipeline) (\<lambda>components.
       res_fold (pipeline_step E on_branch ver) (map (\<lambda>(i, c). (int i, c)) (enumerate 0 components)) ([], [])))) (\<lambda>(ds_dict, pipeline_keys).
     let ws_key = build_generic_workspace_key ''workspace'' build_zero_version; v = component_version ws_key
     in generate_workspace_meta (component_name ws_key) on_branch (api_version v) (inc_version v) ds_dict
          (experiment_paths workspace_base) pipeline_keys)"

definition make_pipeline_and_commit ::
    "'z trial_env \<Rightarrow> string \<Rightarrow> json \<Rightarrow> json \<Rightarrow> json \<Rightarrow> ('z file_world_scheme, unit) io" where
  "make_pipeline_and_commit E on_branch pipeline ver workspace_base =
     io_bind (experiment_workspace E on_branch pipeline ver workspace_base) (\<lambda>proposed_workspace.
       io_then (commit_workspace E proposed_workspace) (io_return ()))"

section \<open>Libraries\<close>

text \<open>\<open>md5\<close> is the digest of the dataset manager.\<close>

definition commit_libs ::
    "'z trial_env \<Rightarrow> (string \<Rightarrow> string) \<Rightarrow> json \<Rightarrow> json \<Rightarrow> json \<Rightarrow> json \<Rightarrow> ('z file_world_scheme, unit) io" where
  "commit_libs E md5 test_source_base datasets libraries branches =
     io_bind (io_lift (json_iter datasets)) (\<lambda>ds.
     io_bind (io_map (\<lambda>d.
       io_bind (io_lift (json_text test_source_base)) (\<lambda>base.
       io_bind (io_lift (json_text d)) (\<lambda>p.
         dataset_create (te_store E) (te_zip E) md5 (te_temp_path E) (path_join base p)))) ds) (\<lambda>_.
     io_bind (io_lift (json_iter libraries)) (\<lambda>ls.
     io_bind (io_map (\<lambda>l.
       io_bind (io_lift (json_iter branches)) (\<lambda>bs.
       io_map (\<lambda>b.
         io_bind (io_lift (json_text test_source_base)) (\<lambda>base.
         io_bind (io_lift (json_text l)) (\<lambda>p.
           library_create (te_store E) (te_zip E) (te_temp_path E) (path_join base p) (py_str E b)))) bs)) ls) (\<lambda>_.
       io_return ()))))"

section \<open>The memory profiler\<close>

datatype memory_profiler = EmptyMemoryProfiler | MemoryProfilerImpl string

definition make_mem_profiler :: "bool \<Rightarrow> string \<Rightarrow> memory_profiler" where
  "make_mem_profiler enabled mode = (if enabled then MemoryProfilerImpl mode else EmptyMemoryProfiler)"

definition resident_set_size_kb :: "int \<Rightarrow> string \<Rightarrow> int result" where
  "resident_set_size_kb pagesize statm =
     res_bind (py_index (split_ws statm) 1) (\<lambda>field. res_bind (parse_py_int field) (\<lambda>n. Inr (n * pagesize div 1024)))"

text \<open>What is printed; \<open>getpagesize\<close> and \<open>getrusage\<close> are arguments.\<close>

definition mem_profile :: "int \<Rightarrow> int \<Rightarrow> memory_profiler \<Rightarrow> ('z file_world_scheme, string list) io" where
  "mem_profile pagesize maxrss p =
     (case p of
        EmptyMemoryProfiler \<Rightarrow> io_return []
      | MemoryProfilerImpl mode \<Rightarrow>
          (if mode = ''status'' then io_bind (read_str ''/proc/self/status'') (\<lambda>stat. io_return [stat])
           else if mode = ''statm'' then
             io_bind (read_str ''/proc/self/statm'') (\<lambda>stat.
             io_bind (io_lift (resident_set_size_kb pagesize stat)) (\<lambda>kb. io_return [''VmRSS: '' @ int_str kb]))
           else if mode = ''resource.getrusage'' then io_return [''Peak Memory Usage: '' @ int_str maxrss]
           else io_raise ValueError))"

section \<open>Experiments\<close>

record exp_conf =
  ex_name :: json
  ex_source_base :: json
  ex_workspace_base :: json
  ex_branches :: json

definition read_experiment :: "json \<Rightarrow> exp_conf result" where
  "read_experiment conf =
     res_bind (json_item conf ''name'') (\<lambda>name.
     res_bind (res_bind (json_item conf ''env'') (\<lambda>e. json_item e ''test_source_base'')) (\<lambda>source.
     res_bind (res_bind (json_item conf ''env'') (\<lambda>e. json_item e ''workspace_base'')) (\<lambda>base.
       Inr \<lparr>ex_name = name, ex_source_base = source, ex_workspace_base = base,
         ex_branches = item_or ''branches'' (JList [JStr ''master'']) conf\<rparr>)))"

definition workspace_key_on :: "string \<Rightarrow> meta_key" where
  "workspace_key_on br = mk_key GENERIC_WORKSPACE_KEY ''workspace'' (mk_version br 0 0)"

text \<open>An unknown action ends the process (\<open>os._exit(1)\<close>).\<close>

definition run_task ::
    "nat \<Rightarrow> 'z trial_env \<Rightarrow> (string \<Rightarrow> string) \<Rightarrow> json \<Rightarrow> exp_conf \<Rightarrow> json \<Rightarrow> ('z file_world_scheme, unit) io" where
  "run_task fuel E md5 conf x task =
     io_bind (io_lift (json_item task ''action'')) (\<lambda>action.
     if action = JStr ''commit_libs'' then
       io_bind (io_lift (json_item conf ''datasets'')) (\<lambda>datasets.
       io_bind (io_lift (json_item conf ''libraries'')) (\<lambda>libraries.
         commit_libs E md5 (ex_source_base x) datasets libraries (ex_branches x)))
     else if action = JStr ''create_pipeline'' then
       io_bind (io_lift (json_item conf ''pipeline'')) (\<lambda>pipeline.
       io_bind (io_lift (json_item task ''versions'')) (\<lambda>versions.
         make_pipeline_and_commit E (py_str E (item_or ''branch'' (JStr ''master'') task)) pipeline versions (ex_workspace_base x)))
     else if action = JStr ''merge_branch'' then
       io_bind (io_lift (json_item task ''merging_branch'')) (\<lambda>merging.
       io_bind (io_lift (json_item task ''base_branch'')) (\<lambda>base.
         merge_workspace_branches fuel E (workspace_key_on (py_str E merging)) (workspace_key_on (py_str E base))))
     else io_raise ProcessExit)"

definition run_tasks ::
    "nat \<Rightarrow> 'z trial_env \<Rightarrow> (string \<Rightarrow> string) \<Rightarrow> json \<Rightarrow> exp_conf \<Rightarrow> json list \<Rightarrow> ('z file_world_scheme, unit) io" where
  "run_tasks fuel E md5 conf x tasks = io_bind (io_map (run_task fuel E md5 conf x) tasks) (\<lambda>_. io_return ())"

text \<open>\<open>ExpManifest\<close>: the parsed document of a file.\<close>

definition exp_manifest :: "(string \<Rightarrow> json result) \<Rightarrow> string \<Rightarrow> ('z file_world_scheme, json) io" where
  "exp_manifest load_yaml path = io_bind (read_str path) (\<lambda>text. io_lift (load_yaml text))"

text \<open>\<open>io_time\<close> is the line printed for \<open>cpp_io_profiler.get()\<close>, if the time is positive.\<close>

definition start_experiment ::
    "nat \<Rightarrow> 'z trial_env \<Rightarrow> (string \<Rightarrow> string) \<Rightarrow> (string \<Rightarrow> json result) \<Rightarrow> string option \<Rightarrow> int \<Rightarrow> int \<Rightarrow> memory_profiler \<Rightarrow>
     string \<Rightarrow> ('z file_world_scheme, string list) io" where
  "start_experiment fuel E md5 load_yaml io_time pagesize maxrss profiler manifest_path =
     io_bind (exp_manifest load_yaml manifest_path) (\<lambda>conf.
     io_bind (io_lift (read_experiment conf)) (\<lambda>x.
     io_bind (io_lift (res_bind (json_item conf ''tasks'') json_iter)) (\<lambda>tasks.
     io_then (run_tasks fuel E md5 conf x tasks)
       (io_bind (mem_profile pagesize maxrss profiler) (\<lambda>lines.
         io_return ((case io_time of None \<Rightarrow> [] | Some t \<Rightarrow> [''IO SPENT: '' @ t]) @ lines))))))"

text \<open>\<open>on_new_lifecycle\<close> of \<^verbatim>\<open>daemon/coordinator.py\<close>.\<close>

definition on_new_lifecycle ::
    "nat \<Rightarrow> 'z trial_env \<Rightarrow> (string \<Rightarrow> string) \<Rightarrow> (string \<Rightarrow> json result) \<Rightarrow> string option \<Rightarrow> int \<Rightarrow> int \<Rightarrow> memory_profiler \<Rightarrow>
     string \<Rightarrow> string \<Rightarrow> ('z file_world_scheme, string list) io" where
  "on_new_lifecycle fuel E md5 load_yaml io_time pagesize maxrss profiler home manifest_name =
     io_bind io_get (\<lambda>w.
       start_experiment fuel E md5 load_yaml io_time pagesize maxrss profiler
         (abspath (fw_cwd w) (path_join (path_join home ''exp'') (manifest_name @ ''.yaml''))))"

end
