(* ===== verification/ExpRunnerProps.thy ===== *)
theory ExpRunnerProps
  imports ExpRunner
begin

text \<open>
  What the experiment runner commits: the workspace it builds from the pipeline and the versions of an experiment, read back
  through the getters of \<^verbatim>\<open>WorkspaceMeta\<close>, and the order of the tasks.
\<close>

section \<open>The keys of a pipeline\<close>

text \<open>A component of an experiment: its type and name, and its API and increment version.\<close>

type_synonym exp_component = "string \<times> string \<times> int \<times> int"

fun component_json :: "exp_component \<Rightarrow> json" where
  "component_json (t, n, a, i) = JObj [(''type'', JStr t), (''name'', JStr n)]"

fun version_json :: "exp_component \<Rightarrow> json" where
  "version_json (t, n, a, i) = JList [JInt a, JInt i]"

fun exp_key :: "string \<Rightarrow> exp_component \<Rightarrow> meta_key" where
  "exp_key br (t, n, a, i) = mk_key t n (mk_version (if t = ''dataset'' then ''not-schema-hashable'' else br) a i)"

lemma json_at_list: "json_at (JList xs) (int i) = (if i < length xs then Inr (xs ! i) else Inl IndexError)"
  by (simp add: py_index_def)

lemma pipeline_steps:
  assumes "\<forall>c \<in> set cs. wf_key (exp_key br c)"
    and "\<forall>j < length cs. json_at ver (int (k + j)) = Inr (version_json (cs ! j))"
  shows "res_fold (pipeline_step E br ver) (map (\<lambda>(i, c). (int i, c)) (enumerate k (map component_json cs))) (ds, ks) =
     Inr (fold (\<lambda>c. od_set ''train'' (Some (exp_key br c))) (filter (\<lambda>c. fst c = ''dataset'') cs) ds, ks @ map (exp_key br) cs)"
  using assms
proof (induction cs arbitrary: k ds ks)
  case (Cons c cs)
  obtain t n a i where c: "c = (t, n, a, i)" by (cases c)
  have v: "json_at ver (int k) = Inr (JList [JInt a, JInt i])" using Cons.prems(2) c by force
  have key: "build_from_string (to_string True (exp_key br c)) True = Inr (exp_key br c)"
    using Cons.prems(1) by (intro key_version_roundtrip) simp
  have step: "pipeline_step E br ver (int k, component_json c) (ds, ks) =
      Inr (if t = ''dataset'' then od_set ''train'' (Some (exp_key br c)) ds else ds, ks @ [exp_key br c])"
    using key v by (auto simp: c pipeline_step_def od_item_def od_get_def py_str_def py_index_def to_string_def version_str_def mk_key_def mk_version_def)
  have "\<forall>j < length cs. json_at ver (int (Suc k + j)) = Inr (version_json (cs ! j))"
  proof (intro allI impI)
    fix j assume "j < length cs"
    then show "json_at ver (int (Suc k + j)) = Inr (version_json (cs ! j))"
      using Cons.prems(2) [rule_format, of "Suc j"] by simp
  qed
  then have "res_fold (pipeline_step E br ver) (map (\<lambda>(i, c). (int i, c)) (enumerate (Suc k) (map component_json cs)))
      (if t = ''dataset'' then od_set ''train'' (Some (exp_key br c)) ds else ds, ks @ [exp_key br c]) =
    Inr (fold (\<lambda>c. od_set ''train'' (Some (exp_key br c))) (filter (\<lambda>c. fst c = ''dataset'') cs)
      (if t = ''dataset'' then od_set ''train'' (Some (exp_key br c)) ds else ds), (ks @ [exp_key br c]) @ map (exp_key br) cs)"
    using Cons.prems(1) by (intro Cons.IH) simp_all
  with step show ?case by (simp add: c)
qed simp

section \<open>The configuration of the workspace\<close>

definition exp_config :: "string \<Rightarrow> meta_key option \<Rightarrow> string \<Rightarrow> meta_key list \<Rightarrow> string \<Rightarrow> icp" where
  "exp_config br d base ks now =
     \<lparr>cp_sections =
        [(''identifier'', [(''type'', ''workspace''), (''name'', ''workspace''), (''version'', version_str (mk_version br 0 0)), (''created-timestamp'', now)]),
         (''datasets'', case d of None \<Rightarrow> [] | Some k \<Rightarrow> [(''train'', to_string False k)]),
         (''solution'', []),
         (''paths'', [(''base'', base), (''output'', ''output/''), (''temp'', ''temp/''), (''venv'', ''venv/'')]),
         (''configuration'', [(''workspace-type'', ''production-pipeline''), (''description'', ''workspace '' @ br @ '' 0 0'')]),
         (''reference'', [(''pipeline'', dumps (JList (map (\<lambda>k. JStr (to_string True k)) ks))), (''output'', ''{}''), (''params'', ''{}'')])],
      cp_defaults = []\<rparr>"

lemma opt_names:
  "optionxform ''type'' = ''type''" "optionxform ''name'' = ''name''" "optionxform ''version'' = ''version''"
  "optionxform ''created-timestamp'' = ''created-timestamp''" "optionxform ''train'' = ''train''"
  "optionxform ''base'' = ''base''" "optionxform ''output'' = ''output''" "optionxform ''temp'' = ''temp''" "optionxform ''venv'' = ''venv''"
  "optionxform ''workspace-type'' = ''workspace-type''" "optionxform ''description'' = ''description''"
  "optionxform ''pipeline'' = ''pipeline''" "optionxform ''params'' = ''params''"
  by code_simp+

lemma dumps_keys_percent_free: "\<forall>k \<in> set ks. percent_free_key k \<Longrightarrow> percent_free (dumps (JList (map (\<lambda>k. JStr (to_string True k)) ks)))"
  using percent_free_dumps_list [of "map (to_string True) ks"] percent_free_to_string by (auto simp: comp_def simp del: dumps.simps)

lemma generate_run:
  assumes "percent_free br" "percent_free base" "\<forall>k \<in> set ks. percent_free_key k" "\<forall>k. d = Some k \<longrightarrow> percent_free_key k"
    "percent_free (fw_time w (fw_clock w))"
  shows "generate_workspace_meta ''workspace'' br 0 0 (case d of None \<Rightarrow> [] | Some k \<Rightarrow> [(''train'', Some k)]) (experiment_paths (JStr base)) ks w =
     (Inr (exp_config br d base ks (fw_time w (fw_clock w))), w\<lparr>fw_clock := Suc (fw_clock w)\<rparr>)"
proof -
  have v: "valid_value (version_str (mk_version br 0 0))" "valid_value base" "valid_value (''workspace '' @ br @ '' 0 0'')"
     "valid_value (fw_time w (fw_clock w))" "valid_value (dumps (JList (map (\<lambda>k. JStr (to_string True k)) ks)))"
     "\<And>k. d = Some k \<Longrightarrow> valid_value (to_string False k)"
     "valid_value ''workspace''" "valid_value ''production-pipeline''" "valid_value ''output/''" "valid_value ''temp/''" "valid_value ''venv/''" "valid_value ''{}''"
    using assms dumps_keys_percent_free [OF assms(3)] percent_free_to_string
    by (auto intro!: percent_free_valid simp: percent_free_version mk_version_def simp del: dumps.simps)
  have z: "int_str 0 = ''0''" by code_simp
  have e: "dumps (JObj []) = ''{}''" by simp
  show ?thesis
    using v by (cases d) (simp_all add: generate_workspace_meta_def workspace_init_sections_ok [unfolded section_defs] io_bind_def time_now_def
      set_meta_type_def set_workspace_type_def set_meta_name_def set_meta_version_def set_workspace_datasets_def META_DATASET_ENUM_def
      set_workspace_paths_def META_PATH_ENUM_def experiment_paths_def except_none_def od_item_def set_path_def set_dataset_def
      set_workspace_description_def set_created_timestamp_def set_workspace_pipeline_def set_workspace_outputs_def set_workspace_params_def
      cp_set_def section_defs opt_names od_get_def od_set_def GENERIC_WORKSPACE_KEY_def exp_config_def e z del: dumps.simps)
qed

lemma training_set_last:
  "fold (\<lambda>c. od_set ''train'' (Some (exp_key br c))) (filter (\<lambda>c. fst c = ''dataset'') cs) [] =
     (case map_option (exp_key br) (find (\<lambda>c. fst c = ''dataset'') (rev cs)) of None \<Rightarrow> [] | Some k \<Rightarrow> [(''train'', Some k)])"
  by (induction cs rule: rev_induct) (auto simp: od_set_def split: option.splits)

lemma exp_config_reads:
  fixes br base now :: string and ks :: "meta_key list" and d :: "meta_key option"
  defines "ws \<equiv> exp_config br d base ks now"
  assumes br: "wf_version (mk_version br 0 0)" "no_colon br" "percent_free br" and base: "percent_free base"
    and ks: "\<forall>k \<in> set ks. wf_key k \<and> percent_free_key k" and d: "\<forall>k. d = Some k \<longrightarrow> wf_key k \<and> percent_free_key k"
  shows "workspace_pipeline ws = Inr ks" "is_production ws = Inr True" "meta_key_of ws = Inr (workspace_key_on br)"
    "get_path ws ''base'' = Inr base" "get_path ws ''output'' = Inr ''output/''" "get_path ws ''temp'' = Inr ''temp/''" "get_path ws ''venv'' = Inr ''venv/''"
    "workspace_outputs ws = Inr (JObj [])" "workspace_params ws = Inr (JObj [])"
    "get_dataset ws ''train'' = (case d of None \<Rightarrow> Inl NoOptionError | Some k \<Rightarrow> Inr (mk_key (component_type k) (component_name k) build_zero_version))"
proof -
  note raw = ws_def exp_config_def raw_value_def cp_vars_def section_defs opt_names od_get_def
  have get: "cp_get ws s opt = Inr v" if "raw_value ws s opt = Some v" "percent_free v" for s opt v
    using that by (intro cp_get_raw) (simp_all add: percent_free_def)
  show "workspace_pipeline ws = Inr ks"
    by (rule workspace_pipeline_raw [OF _ ks]) (simp add: raw del: dumps.simps)
  have "cp_get ws META_SECTION_CONFIG ''workspace-type'' = Inr ''production-pipeline''" by (rule get) (simp_all add: raw)
  then show "is_production ws = Inr True" by (simp add: is_production_def workspace_type_def)
  show "meta_key_of ws = Inr (workspace_key_on br)"
    using br by (intro meta_key_of_raw)
      (simp_all add: raw workspace_key_on_def GENERIC_WORKSPACE_KEY_def mk_key_def wf_key_def percent_free_key_def no_colon_def not_space_def is_space_def mk_version_def)
  show "get_path ws ''base'' = Inr base" "get_path ws ''output'' = Inr ''output/''" "get_path ws ''temp'' = Inr ''temp/''" "get_path ws ''venv'' = Inr ''venv/''"
    unfolding get_path_def using base by (intro get; simp add: raw)+
  have "cp_get ws META_SECTION_REF ''output'' = Inr ''{}''" "cp_get ws META_SECTION_REF ''params'' = Inr ''{}''"
    by (intro get; simp add: raw)+
  moreover have "loads ''{}'' = Inr (JObj [])" by code_simp
  ultimately show "workspace_outputs ws = Inr (JObj [])" "workspace_params ws = Inr (JObj [])"
    by (simp_all add: workspace_outputs_def workspace_params_def)
  show "get_dataset ws ''train'' = (case d of None \<Rightarrow> Inl NoOptionError | Some k \<Rightarrow> Inr (mk_key (component_type k) (component_name k) build_zero_version))"
  proof (cases d)
    case None
    then have "cp_get ws META_SECTION_DATASETS ''train'' = Inl NoOptionError"
      by (intro cp_get_raw_None) (simp_all add: raw has_section_def)
    with None show ?thesis by (simp add: get_dataset_def)
  next
    case (Some k)
    then have "cp_get ws META_SECTION_DATASETS ''train'' = Inr (to_string False k)"
      using d by (intro get percent_free_to_string) (simp_all add: raw)
    with Some d show ?thesis by (simp add: get_dataset_def build_from_string_plain)
  qed
qed

text \<open>C28 (functional). For a pipeline of components with well-formed names and versions, the runner commits the production workspace of
  the branch at version 0.0 whose pipeline has exactly these components, in their order: libraries on the branch of the task, data
  sets on the branch of unhashable schemas. Its directories lie below the base of the experiment, it has no outputs and no
  parameters yet, and its training set is the last data set of the pipeline (without a version), or none.\<close>

theorem exp_pipeline_committed:
  assumes comps: "\<forall>c \<in> set cs. wf_key (exp_key br c) \<and> percent_free_key (exp_key br c)"
    and br: "wf_version (mk_version br 0 0)" "no_colon br" "percent_free br"
    and base: "percent_free base" and now: "percent_free (fw_time w (fw_clock w))"
  shows "\<exists>ws. make_pipeline_and_commit E br (JList (map component_json cs)) (JList (map version_json cs)) (JStr base) w =
      io_then (commit_workspace E ws) (io_return ()) (w\<lparr>fw_clock := Suc (fw_clock w)\<rparr>) \<and>
    workspace_pipeline ws = Inr (map (exp_key br) cs) \<and> is_production ws = Inr True \<and> meta_key_of ws = Inr (workspace_key_on br) \<and>
    get_path ws ''base'' = Inr base \<and> get_path ws ''output'' = Inr ''output/'' \<and> get_path ws ''temp'' = Inr ''temp/'' \<and> get_path ws ''venv'' = Inr ''venv/'' \<and>
    workspace_outputs ws = Inr (JObj []) \<and> workspace_params ws = Inr (JObj []) \<and>
    get_dataset ws ''train'' = (case find (\<lambda>c. fst c = ''dataset'') (rev cs) of
       None \<Rightarrow> Inl NoOptionError | Some (t, n, a, i) \<Rightarrow> Inr (mk_key ''dataset'' n build_zero_version))"
proof -
  let ?d = "map_option (exp_key br) (find (\<lambda>c. fst c = ''dataset'') (rev cs))"
  let ?ws = "exp_config br ?d base (map (exp_key br) cs) (fw_time w (fw_clock w))"
  have d: "\<forall>k. ?d = Some k \<longrightarrow> wf_key k \<and> percent_free_key k"
    using comps find_SomeD by (fastforce simp: map_option_case split: option.splits)
  have ks: "\<forall>k \<in> set (map (exp_key br) cs). wf_key k \<and> percent_free_key k" using comps by auto
  have "\<forall>j < length cs. json_at (JList (map version_json cs)) (int (0 + j)) = Inr (version_json (cs ! j))"
    by (simp add: json_at_list)
  then have steps: "res_fold (pipeline_step E br (JList (map version_json cs))) (map (\<lambda>(i, c). (int i, c)) (enumerate 0 (map component_json cs))) ([], []) =
      Inr (case ?d of None \<Rightarrow> [] | Some k \<Rightarrow> [(''train'', Some k)], map (exp_key br) cs)"
    using comps by (subst pipeline_steps) (simp_all add: training_set_last)
  have zero: "component_name (build_generic_workspace_key ''workspace'' build_zero_version) = ''workspace''"
      "api_version (component_version (build_generic_workspace_key ''workspace'' build_zero_version)) = 0"
      "inc_version (component_version (build_generic_workspace_key ''workspace'' build_zero_version)) = 0"
    by code_simp+
  have "experiment_workspace E br (JList (map component_json cs)) (JList (map version_json cs)) (JStr base) w = (Inr ?ws, w\<lparr>fw_clock := Suc (fw_clock w)\<rparr>)"
    using generate_run [OF br(3) base _ _ now, of "map (exp_key br) cs" ?d] ks d
    by (auto simp: experiment_workspace_def io_bind_def steps zero Let_def simp del: case_map_option)
  then have made: "make_pipeline_and_commit E br (JList (map component_json cs)) (JList (map version_json cs)) (JStr base) w =
      io_then (commit_workspace E ?ws) (io_return ()) (w\<lparr>fw_clock := Suc (fw_clock w)\<rparr>)"
    by (simp add: make_pipeline_and_commit_def io_bind_ok)
  have train: "(case ?d of None \<Rightarrow> Inl NoOptionError | Some k \<Rightarrow> Inr (mk_key (component_type k) (component_name k) build_zero_version)) =
     (case find (\<lambda>c. fst c = ''dataset'') (rev cs) of
       None \<Rightarrow> Inl NoOptionError | Some (t, n, a, i) \<Rightarrow> Inr (mk_key ''dataset'' n build_zero_version))"
    by (auto simp: mk_key_def dest!: find_SomeD split: option.splits)
  show ?thesis
    by (rule exI [of _ ?ws]) (simp only: made train exp_config_reads [OF br base ks d] simp_thms)
qed

definition exp_world :: file_world where
  "exp_world = \<lparr>fw_cwd = ''/'', fw_files = [], fw_time = (\<lambda>_. ''1.5''), fw_clock = 0\<rparr>"

theorem exp_pipeline_committed_witness:
  "\<forall>E :: unit trial_env. \<exists>ws. make_pipeline_and_commit E ''master'' (JList (map component_json [(''dataset'', ''mnist'', 0, 0), (''library'', ''mlp'', 0, 1)]))
       (JList (map version_json [(''dataset'', ''mnist'', 0, 0), (''library'', ''mlp'', 0, 1)])) (JStr ''/ws'') exp_world =
     io_then (commit_workspace E ws) (io_return ()) (exp_world\<lparr>fw_clock := 1\<rparr>) \<and>
   workspace_pipeline ws = Inr [mk_key ''dataset'' ''mnist'' (mk_version ''not-schema-hashable'' 0 0), mk_key ''library'' ''mlp'' (mk_version ''master'' 0 1)] \<and>
   get_dataset ws ''train'' = Inr (mk_key ''dataset'' ''mnist'' build_zero_version)"
proof -
  let ?cs = "[(''dataset'', ''mnist'', 0, 0), (''library'', ''mlp'', 0, 1)] :: exp_component list"
  have comps: "\<forall>c \<in> set ?cs. wf_key (exp_key ''master'' c) \<and> percent_free_key (exp_key ''master'' c)"
    and br: "wf_version (mk_version ''master'' 0 0)" "no_colon ''master''" "percent_free ''master''"
    and rest: "percent_free ''/ws''" "percent_free (fw_time exp_world (fw_clock exp_world))"
    by (simp_all add: exp_world_def wf_key_def wf_version_def no_colon_def not_space_def is_space_def percent_free_key_def mk_key_def mk_version_def)
  have clock: "exp_world\<lparr>fw_clock := Suc (fw_clock exp_world)\<rparr> = exp_world\<lparr>fw_clock := 1\<rparr>" by (simp add: exp_world_def)
  have keys: "map (exp_key ''master'') ?cs =
      [mk_key ''dataset'' ''mnist'' (mk_version ''not-schema-hashable'' 0 0), mk_key ''library'' ''mlp'' (mk_version ''master'' 0 1)]" by simp
  have train: "find (\<lambda>c. fst c = ''dataset'') (rev ?cs) = Some (''dataset'', ''mnist'', 0, 0)" by simp
  show ?thesis
  proof
    fix E :: "unit trial_env"
    note committed = exp_pipeline_committed [OF comps br rest, where E = E, unfolded clock keys train option.case prod.case]
    show "\<exists>ws. make_pipeline_and_commit E ''master'' (JList (map component_json ?cs)) (JList (map version_json ?cs)) (JStr ''/ws'') exp_world =
        io_then (commit_workspace E ws) (io_return ()) (exp_world\<lparr>fw_clock := 1\<rparr>) \<and>
      workspace_pipeline ws = Inr [mk_key ''dataset'' ''mnist'' (mk_version ''not-schema-hashable'' 0 0), mk_key ''library'' ''mlp'' (mk_version ''master'' 0 1)] \<and>
      get_dataset ws ''train'' = Inr (mk_key ''dataset'' ''mnist'' build_zero_version)"
      using committed by blast
  qed
qed

section \<open>The order of the tasks\<close>

lemma io_map_append:
  "io_map f (xs @ ys) = io_bind (io_map f xs) (\<lambda>us. io_bind (io_map f ys) (\<lambda>vs. io_return (us @ vs)))"
  by (induction xs) (auto simp: io_bind_def fun_eq_iff split: prod.splits sum.splits)

text \<open>The tasks run in the order of the document; the first that fails ends the experiment, with what the tasks before it did.\<close>

theorem start_stops_at_failure:
  assumes "read_str manifest_path w = (Inr text, w0)" and "load_yaml text = Inr conf" and "read_experiment conf = Inr x"
    and "json_item conf ''tasks'' = Inr (JList (earlier @ task # rest))"
    and "run_tasks fuel E md5 conf x earlier w0 = (Inr (), w1)" and "run_task fuel E md5 conf x task w1 = (Inl e, w2)"
  shows "start_experiment fuel E md5 load_yaml io_time pagesize maxrss profiler manifest_path w = (Inl e, w2)"
proof -
  obtain us where "io_map (run_task fuel E md5 conf x) earlier w0 = (Inr us, w1)"
    using assms(5) by (auto simp: run_tasks_def io_bind_run)
  then have "run_tasks fuel E md5 conf x (earlier @ task # rest) w0 = (Inl e, w2)"
    using assms(6) by (simp add: run_tasks_def io_map_append io_bind_def)
  then show ?thesis
    using assms(1-4) by (simp add: start_experiment_def exp_manifest_def io_bind_def io_then_def)
qed

end
