(* ===== verification/LedgeBase.thy ===== *)
theory LedgeBase
  imports Ustore Managers Manifest
begin

text \<open>
  \<^verbatim>\<open>pysrc/pipeman/store/ledgebase.py\<close>: the keys of a replicated ledger that wait for verification, as the JSON text given to the
  server. Blocks and replicas are objects, so they live in heaps. A Python set is a list without repetition, in the
  (unknown) order of its iteration.
\<close>

section \<open>Blocks, replicas and keys\<close>

definition set_add :: "'a \<Rightarrow> 'a list \<Rightarrow> 'a list" where
  "set_add x xs = (if x \<in> set xs then xs else xs @ [x])"

definition set_discard :: "'a \<Rightarrow> 'a list \<Rightarrow> 'a list" where
  "set_discard x xs = removeAll x xs"

record block =
  bl_number :: int
  bl_keys :: "string list"

record replica =
  re_index :: int
  re_blocks :: "nat list"

definition block_init :: "int \<Rightarrow> block" where "block_init n = \<lparr>bl_number = n, bl_keys = []\<rparr>"
definition add_key :: "string \<Rightarrow> block \<Rightarrow> block" where "add_key k b = b\<lparr>bl_keys := set_add k (bl_keys b)\<rparr>"
definition discard_key :: "string \<Rightarrow> block \<Rightarrow> block" where "discard_key k b = b\<lparr>bl_keys := set_discard k (bl_keys b)\<rparr>"
definition block_keys :: "block \<Rightarrow> string list" where "block_keys b = sort_strings (bl_keys b)"

definition block_dict :: "block \<Rightarrow> (string, json) odict" where
  "block_dict b = [(int_str (bl_number b), JList (map JStr (block_keys b)))]"

definition replica_init :: "int \<Rightarrow> replica" where "replica_init i = \<lparr>re_index = i, re_blocks = []\<rparr>"
definition add_block :: "nat \<Rightarrow> replica \<Rightarrow> replica" where "add_block b r = r\<lparr>re_blocks := set_add b (re_blocks r)\<rparr>"
definition discard_block :: "nat \<Rightarrow> replica \<Rightarrow> replica" where "discard_block b r = r\<lparr>re_blocks := set_discard b (re_blocks r)\<rparr>"

text \<open>\<open>sorted(..., key=...)\<close> is stable.\<close>

definition replica_blocks :: "(nat \<Rightarrow> block) \<Rightarrow> replica \<Rightarrow> block list" where
  "replica_blocks B r = sort_key bl_number (map B (re_blocks r))"

definition replica_dict :: "(nat \<Rightarrow> block) \<Rightarrow> replica \<Rightarrow> (string, json) odict" where
  "replica_dict B r =
     [(int_str (re_index r), JObj (fold (\<lambda>b d. od_update_all d (block_dict b)) (replica_blocks B r) []))]"

type_synonym unverified_keys = "nat list"

definition unverified_init :: unverified_keys where "unverified_init = []"
definition add_replica :: "nat \<Rightarrow> unverified_keys \<Rightarrow> unverified_keys" where "add_replica r u = set_add r u"
definition discard_replica :: "nat \<Rightarrow> unverified_keys \<Rightarrow> unverified_keys" where "discard_replica r u = set_discard r u"

definition unverified_replicas :: "(nat \<Rightarrow> replica) \<Rightarrow> unverified_keys \<Rightarrow> replica list" where
  "unverified_replicas R u = sort_key re_index (map R u)"

definition unverified_dict :: "(nat \<Rightarrow> block) \<Rightarrow> (nat \<Rightarrow> replica) \<Rightarrow> unverified_keys \<Rightarrow> (string, json) odict" where
  "unverified_dict B R u = fold (\<lambda>r d. od_update_all d (replica_dict B r)) (unverified_replicas R u) []"

text \<open>\<open>json.dumps(self, sort_keys=True, default=vars)\<close>.\<close>

definition to_json :: "(string, json) odict \<Rightarrow> string" where
  "to_json d = dumps (sort_keys (JObj d))"

section \<open>The client\<close>

definition get_verify_cmd :: "ustore_cli \<Rightarrow> (nat \<Rightarrow> block) \<Rightarrow> (nat \<Rightarrow> replica) \<Rightarrow> unverified_keys \<Rightarrow> string result" where
  "get_verify_cmd C B R u =
     res_bind (option_dict C [(''OPT_VERIFY_JSON'', [CHR 0x27] @ to_json (unverified_dict B R u) @ [CHR 0x27])]) (\<lambda>parameters.
     res_bind (conf_attr (uc_conf C) ''CMD_VERIFY_JSON'') (\<lambda>cmd. format_command C cmd parameters))"

definition ledgebase_verify ::
    "'z cli_world_scheme ustore_lib \<Rightarrow> ustore_cli \<Rightarrow> (nat \<Rightarrow> block) \<Rightarrow> (nat \<Rightarrow> replica) \<Rightarrow> unverified_keys \<Rightarrow> ('z cli_world_scheme, reply option) io" where
  "ledgebase_verify L C B R u = io_bind (io_lift (get_verify_cmd C B R u)) (\<lambda>cmd. exec_retrying L C cmd None)"

section \<open>The text given to the server\<close>

lemma numbered_update:
  assumes "distinct (map f xs)"
  shows "fold (\<lambda>x d. od_update_all d [(int_str (f x), g x)]) xs [] = map (\<lambda>x. (int_str (f x), g x)) xs"
  using assms
proof (induction xs rule: rev_induct)
  case (snoc x xs)
  then have "int_str (f x) \<notin> set (od_keys (map (\<lambda>y. (int_str (f y), g y)) xs))"
    by (auto simp: int_str_inj od_keys_def)
  with snoc show ?case by (simp add: od_update_all_def od_set_new)
qed simp

lemma numbered_get:
  assumes "distinct (map f xs)" and "x \<in> set xs"
  shows "od_get (sort_items (map (\<lambda>x. (int_str (f x), g x)) xs)) (int_str (f x)) = Some (g x)"
proof -
  have "distinct (map fst (map (\<lambda>x. (int_str (f x), g x)) xs))"
    using assms(1) by (auto simp: distinct_map inj_on_def int_str_inj comp_def)
  with assms(2) show ?thesis by (simp add: od_get_sort_items) (auto simp: od_get_def intro!: map_of_is_SomeI)
qed

lemma numbered_distinct: "distinct (map f xs) \<Longrightarrow> distinct (map (\<lambda>x. int_str (f x)) xs)"
  by (auto simp: distinct_map inj_on_def int_str_inj)

lemma distinct_sort_key_map: "distinct (map f xs) \<Longrightarrow> distinct (map f (sort_key f xs))"
  by (simp add: distinct_map)

lemma length_sort_items [simp]: "length (sort_items kvs) = length kvs"
proof -
  have "length (insert_item kv xs) = Suc (length xs)" for kv :: "string \<times> 'a" and xs by (induction xs) auto
  then show ?thesis by (induction kvs) (simp_all add: sort_items_def)
qed

text \<open>The dictionaries, when the numbers of blocks and replicas are distinct.\<close>

definition block_entries :: "(nat \<Rightarrow> block) \<Rightarrow> replica \<Rightarrow> (string, json) odict" where
  "block_entries B r = sort_items (map (\<lambda>b. (int_str (bl_number b), JList (map JStr (block_keys b)))) (replica_blocks B r))"

lemma sort_keys_strings [simp]: "sort_keys (JList (map JStr xs)) = JList (map JStr xs)"
  by (simp add: comp_def)

lemma replica_dict_sorted:
  assumes "distinct (map (\<lambda>b. bl_number (B b)) (re_blocks r))"
  shows "map (\<lambda>kv. (fst kv, sort_keys (snd kv))) (replica_dict B r) = [(int_str (re_index r), JObj (block_entries B r))]"
proof -
  have "distinct (map bl_number (replica_blocks B r))"
    unfolding replica_blocks_def using assms by (intro distinct_sort_key_map) (simp add: comp_def)
  then show ?thesis
    by (simp add: replica_dict_def block_entries_def block_dict_def numbered_update comp_def del: sort_keys.simps(1))
qed

text \<open>The text handed to the server for verification parses back, and holds for every unverified replica and every one
  of its blocks exactly the sorted keys of that block, and nothing else, when replicas and the blocks of each replica have
  distinct numbers; the order in which the sets were filled does not matter.\<close>

theorem verify_json_reads:
  assumes replicas: "distinct (map (\<lambda>r. re_index (R r)) u)"
    and blocks: "\<forall>r \<in> set u. distinct (map (\<lambda>b. bl_number (B b)) (re_blocks (R r)))"
  shows "\<exists>rs. loads (to_json (unverified_dict B R u)) = Inr (JObj rs) \<and> length rs = length u \<and>
    (\<forall>r \<in> set u. \<exists>bs. od_get rs (int_str (re_index (R r))) = Some (JObj bs) \<and> length bs = length (re_blocks (R r)) \<and>
      (\<forall>b \<in> set (re_blocks (R r)). od_get bs (int_str (bl_number (B b))) = Some (JList (map JStr (sort_strings (bl_keys (B b)))))))"
proof -
  let ?rs = "sort_items (map (\<lambda>r. (int_str (re_index r), JObj (block_entries B r))) (unverified_replicas R u))"
  have sorted: "distinct (map re_index (unverified_replicas R u))"
    unfolding unverified_replicas_def using replicas by (intro distinct_sort_key_map) (simp add: comp_def)
  have mem: "set (unverified_replicas R u) = R ` set u" by (simp add: unverified_replicas_def)
  have bl: "distinct (map bl_number (replica_blocks B r))" if "r \<in> R ` set u" for r
    unfolding replica_blocks_def using blocks that by (intro distinct_sort_key_map) (auto simp: comp_def)
  have dict: "map (\<lambda>kv. (fst kv, sort_keys (snd kv))) (unverified_dict B R u) =
      map (\<lambda>r. (int_str (re_index r), JObj (block_entries B r))) (unverified_replicas R u)"
  proof -
    have "map (\<lambda>kv. (fst kv, sort_keys (snd kv))) (replica_dict B r) = [(int_str (re_index r), JObj (block_entries B r))]"
      if "r \<in> set (unverified_replicas R u)" for r
      using that blocks mem by (intro replica_dict_sorted) auto
    then show ?thesis
      unfolding unverified_dict_def replica_dict_def numbered_update [OF sorted] by auto
  qed
  have wf_block: "distinct (map fst (block_entries B r))" if "r \<in> R ` set u" for r
    using numbered_distinct [OF bl [OF that]] by (simp add: block_entries_def comp_def)
  have "wf_json (JObj ?rs)"
    using numbered_distinct [OF sorted] wf_block mem by (auto simp: comp_def block_entries_def)
  then have parsed: "loads (to_json (unverified_dict B R u)) = Inr (JObj ?rs)"
    unfolding to_json_def sort_keys.simps dict by (rule loads_dumps)
  have "\<exists>bs. od_get ?rs (int_str (re_index (R r))) = Some (JObj bs) \<and> length bs = length (re_blocks (R r)) \<and>
      (\<forall>b \<in> set (re_blocks (R r)). od_get bs (int_str (bl_number (B b))) = Some (JList (map JStr (sort_strings (bl_keys (B b))))))"
    if r: "r \<in> set u" for r
  proof -
    have "od_get ?rs (int_str (re_index (R r))) = Some (JObj (block_entries B (R r)))"
      by (rule numbered_get [OF sorted]) (use r mem in auto)
    moreover have "od_get (block_entries B (R r)) (int_str (bl_number (B b))) = Some (JList (map JStr (sort_strings (bl_keys (B b)))))"
      if "b \<in> set (re_blocks (R r))" for b
      unfolding block_entries_def block_keys_def
      by (rule numbered_get [OF bl]) (use r that in \<open>auto simp: replica_blocks_def\<close>)
    moreover have "length (block_entries B (R r)) = length (re_blocks (R r))" by (simp add: block_entries_def replica_blocks_def)
    ultimately show ?thesis by blast
  qed
  with parsed show ?thesis by (intro exI [of _ ?rs]) (simp add: unverified_replicas_def)
qed

theorem verify_json_reads_witness:
  "\<exists>rs bs. loads (to_json (unverified_dict (\<lambda>b. \<lparr>bl_number = int b, bl_keys = [''k2'', ''k1'']\<rparr>) (\<lambda>r. \<lparr>re_index = int r, re_blocks = [10, 9]\<rparr>) [3])) = Inr (JObj rs) \<and>
     od_get rs (int_str 3) = Some (JObj bs) \<and> od_get bs (int_str 10) = Some (JList (map JStr (sort_strings [''k2'', ''k1''])))"
  using verify_json_reads [of "\<lambda>r. \<lparr>re_index = int r, re_blocks = [10, 9]\<rparr>" "[3]" "\<lambda>b. \<lparr>bl_number = int b, bl_keys = [''k2'', ''k1'']\<rparr>"]
  by auto

end
