(* ===== verification/StoreEngines.thy ===== *)
theory StoreEngines
  imports Ustore Pep249 Config
begin

text \<open>
  \<^verbatim>\<open>pysrc/pipeman/store/__init__.py\<close>, which chooses the storage engine, and the two small modules \<^verbatim>\<open>rocksdb.py\<close> and \<^verbatim>\<open>ssh.py\<close> over
  their libraries as parameters (\<open>rocks_api\<close>, \<open>ssh_api\<close>).
\<close>

section \<open>The choice of the engine\<close>

datatype storage_engine = UStoreEngine ustore_conf | FileSystemEngine | RdbmsEngine pep_object

text \<open>\<open>parsed\<close> is the configuration file of the UStore client.\<close>

definition use_forkbase :: "icp \<Rightarrow> storage_engine result" where
  "use_forkbase parsed = res_bind (ustore_conf_init parsed) (\<lambda>c. Inr (UStoreEngine c))"

definition use_filesystem :: "storage_engine result" where
  "use_filesystem = Inr FileSystemEngine"

definition use_pep249 :: "configuration \<Rightarrow> storage_engine result" where
  "use_pep249 cf =
     res_bind (conf_get cf ''storage_rdbms'' ''user'') (\<lambda>user.
     res_bind (conf_get cf ''storage_rdbms'' ''ssl_cert_path'') (\<lambda>cert.
     res_bind (conf_get cf ''storage_rdbms'' ''ssl_key_path'') (\<lambda>key.
       Inr (RdbmsEngine (pep_init user ''127.0.0.1'' 3306 None (Some cert) (Some key))))))"

text \<open>With any other name the variable \<open>store\<close> has no value, and \<open>store.connect()\<close> raises \<open>NameError\<close>.\<close>

definition select_engine :: "configuration \<Rightarrow> icp \<Rightarrow> storage_engine result" where
  "select_engine cf parsed =
     res_bind (conf_get cf ''storage'' ''storage_engine'') (\<lambda>selected_storage.
     if selected_storage = ''forkbase'' then use_forkbase parsed
     else if selected_storage = ''filesystem'' then use_filesystem
     else if selected_storage = ''rdbms'' then use_pep249 cf
     else Inl NameError)"

definition init_physical_storage :: "configuration \<Rightarrow> icp \<Rightarrow> (storage_engine \<Rightarrow> ('s, unit) io) \<Rightarrow> ('s, storage_engine) io" where
  "init_physical_storage cf parsed connect =
     io_bind (io_lift (select_engine cf parsed)) (\<lambda>e. io_then (connect e) (io_return e))"

lemma unknown_engine:
  "conf_get cf ''storage'' ''storage_engine'' = Inr e \<Longrightarrow> e \<notin> {''forkbase'', ''filesystem'', ''rdbms''} \<Longrightarrow>
     init_physical_storage cf parsed connect w = (Inl NameError, w)"
  by (simp add: init_physical_storage_def select_engine_def io_bind_def)

section \<open>RocksDB\<close>

text \<open>A status is its code, 0 when it is good.\<close>

record 's rocks_api =
  rk_open :: "string \<Rightarrow> ('s, int) io"
  rk_close :: "('s, unit) io"
  rk_get :: "string \<Rightarrow> ('s, int \<times> string) io"
  rk_put :: "string \<Rightarrow> string \<Rightarrow> ('s, int) io"

definition rocks_connect :: "'s rocks_api \<Rightarrow> string \<Rightarrow> ('s, unit) io" where
  "rocks_connect A path = io_bind (rk_open A path) (\<lambda>status. if status = 0 then io_return () else io_raise RuntimeError)"

definition rocks_disconnect :: "'s rocks_api \<Rightarrow> ('s, unit) io" where
  "rocks_disconnect A = rk_close A"

definition rocks_get :: "'s rocks_api \<Rightarrow> string \<Rightarrow> ('s, string option) io" where
  "rocks_get A key = io_bind (rk_get A (utf8 key)) (\<lambda>(status, d). io_return (if status = 0 then Some d else None))"

definition rocks_put :: "'s rocks_api \<Rightarrow> string \<Rightarrow> string \<Rightarrow> ('s, unit) io" where
  "rocks_put A key v = io_bind (rk_put A (utf8 key) (utf8 v)) (\<lambda>status. if status = 0 then io_return () else io_raise RuntimeError)"

section \<open>SSH\<close>

text \<open>A channel is what its reads give: a size and bytes; after the last of them every read gives size 0 and nothing.\<close>

type_synonym channel = "(int \<times> string) list"

record 's ssh_api =
  sh_login :: "string \<Rightarrow> string \<Rightarrow> string \<Rightarrow> ('s, nat) io"
  sh_disconnect :: "nat \<Rightarrow> ('s, unit) io"
  sh_execute :: "nat \<Rightarrow> string \<Rightarrow> ('s, channel) io"

record ssh_world = file_world +
  sw_session :: "nat option"

definition ssh_connect :: "'z ssh_world_scheme ssh_api \<Rightarrow> ustore_conf \<Rightarrow> ('z ssh_world_scheme, unit) io" where
  "ssh_connect A conf =
     io_bind (io_lift (conf_attr conf ''USTORE_ADDR'')) (\<lambda>addr.
     io_bind (io_lift (conf_attr conf ''USTORE_USERNAME'')) (\<lambda>username.
     io_bind (io_lift (conf_attr conf ''USTORE_KEY_PATH'')) (\<lambda>key_path.
     io_bind (sh_login A addr username key_path) (\<lambda>s. io_modify (\<lambda>w. w\<lparr>sw_session := Some s\<rparr>)))))"

definition ssh_close :: "'z ssh_world_scheme ssh_api \<Rightarrow> ('z ssh_world_scheme, unit) io" where
  "ssh_close A =
     io_bind io_get (\<lambda>w. case sw_session w of
       None \<Rightarrow> io_return ()
     | Some s \<Rightarrow> io_then (sh_disconnect A s) (io_modify (\<lambda>w. w\<lparr>sw_session := None\<rparr>)))"

fun get_stdout_bytes :: "channel \<Rightarrow> string list" where
  "get_stdout_bytes [] = [[]]"
| "get_stdout_bytes ((n, d) # reads) = d # (if 0 < n then get_stdout_bytes reads else [])"

text \<open>Every chunk is decoded by itself.\<close>

definition decode_chunk :: "string \<Rightarrow> string \<Rightarrow> string result" where
  "decode_chunk b text = (case utf8_decode b of None \<Rightarrow> Inl ValueError | Some s \<Rightarrow> Inr (text @ s))"

definition get_stdout :: "channel \<Rightarrow> string result" where
  "get_stdout ch = res_fold decode_chunk (get_stdout_bytes ch) []"

definition ssh_exec_command :: "'z ssh_world_scheme ssh_api \<Rightarrow> ustore_conf \<Rightarrow> string \<Rightarrow>
    ('z ssh_world_scheme, string option \<times> string option \<times> string option) io" where
  "ssh_exec_command A conf cmd =
     io_bind io_get (\<lambda>w0.
     io_then (if sw_session w0 = None then ssh_connect A conf else io_return ())
       (io_bind io_get (\<lambda>w. case sw_session w of
          None \<Rightarrow> io_raise AttributeError
        | Some s \<Rightarrow>
            io_bind (sh_execute A s cmd) (\<lambda>ch.
            io_bind (io_lift (get_stdout ch)) (\<lambda>result. io_return (None, Some result, None))))))"

definition ssh_open_sftp :: "('s, unit) io" where "ssh_open_sftp = io_raise NotImplementedError"
definition ssh_put :: "('s, unit) io" where "ssh_put = io_raise NotImplementedError"

text \<open>Chunks that hold whole characters give the text; a character cut by the border of two chunks is an error.\<close>

lemma decode_chunks: "res_fold decode_chunk (map utf8 ts) acc = Inr (acc @ concat ts)"
  by (induction ts arbitrary: acc) (simp_all add: decode_chunk_def)

theorem get_stdout_text:
  assumes "\<forall>t \<in> set ts. t \<noteq> []"
  shows "get_stdout (map (\<lambda>t. (int (length (utf8 t)), utf8 t)) ts) = Inr (concat ts)"
proof -
  have "utf8 [] = []" by (simp add: utf8_def)
  moreover have "0 < length (utf8 t)" if "t \<noteq> []" for t :: string
    using that utf8_decode_utf8 [of t] by (cases "utf8 t") auto
  ultimately have "get_stdout_bytes (map (\<lambda>t. (int (length (utf8 t)), utf8 t)) ts) = map utf8 (ts @ [[]])"
    using assms by (induction ts) auto
  then show ?thesis by (simp add: get_stdout_def decode_chunks del: map_append)
qed

lemma get_stdout_cut: "get_stdout [(1, [char_of (195 :: nat)]), (1, [char_of (169 :: nat)])] = Inl ValueError"
  by code_simp

end
