(* ===== verification/FileTree.thy ===== *)
theory FileTree
  imports FsStoreProps FileUtils
begin

text \<open>
  A type for the states of the program: the table of files is a tree (\<open>fs_wf\<close>: no file without its directory, no entry twice, an
  absolute working directory). \<open>keeps_tree f\<close> says that the operation \<open>f\<close> keeps it, whether it returns or raises. The rules
  of the collection \<open>tree_rules\<close> follow the structure of an operation.
\<close>

named_theorems tree_rules "an operation keeps the file tree"

definition keeps_tree :: "('z file_world_scheme, 'a) io \<Rightarrow> bool" where
  "keeps_tree f \<longleftrightarrow> (\<forall>w. fs_wf w \<longrightarrow> fs_wf (snd (f w)))"

section \<open>Combinators\<close>

lemma keeps_return [tree_rules]: "keeps_tree (io_return x)" by (simp add: keeps_tree_def)
lemma keeps_raise [tree_rules]: "keeps_tree (io_raise e)" by (simp add: keeps_tree_def)
lemma keeps_lift [tree_rules]: "keeps_tree (io_lift r)" by (simp add: keeps_tree_def)
lemma keeps_get [tree_rules]: "keeps_tree io_get" by (simp add: keeps_tree_def)

lemma keeps_bind [tree_rules]:
  assumes "keeps_tree f" and "\<And>x. keeps_tree (g x)"
  shows "keeps_tree (io_bind f g)"
  unfolding keeps_tree_def
proof (intro allI impI)
  fix w :: "'a file_world_scheme"
  assume "fs_wf w"
  then have "fs_wf (snd (f w))" using assms(1) by (simp add: keeps_tree_def)
  then show "fs_wf (snd (io_bind f g w))"
    using assms(2) by (cases "f w") (auto simp: io_bind_def keeps_tree_def split: sum.splits)
qed

lemma keeps_then [tree_rules]: "keeps_tree f \<Longrightarrow> keeps_tree g \<Longrightarrow> keeps_tree (io_then f g)"
  unfolding io_then_def by (rule keeps_bind)

lemma keeps_try [tree_rules]:
  assumes "keeps_tree f" and "keeps_tree g"
  shows "keeps_tree (io_try f h g)"
  unfolding keeps_tree_def
proof (intro allI impI)
  fix w :: "'a file_world_scheme"
  assume "fs_wf w"
  then have "fs_wf (snd (f w))" using assms(1) by (simp add: keeps_tree_def)
  then show "fs_wf (snd (io_try f h g w))"
    using assms(2) by (cases "f w") (auto simp: io_try_def keeps_tree_def split: sum.splits)
qed

lemma keeps_map [tree_rules]: "(\<And>x. x \<in> set xs \<Longrightarrow> keeps_tree (f x)) \<Longrightarrow> keeps_tree (io_map f xs)"
  by (induction xs) (auto intro!: tree_rules)

lemma keeps_fold [tree_rules]: "(\<And>x s. x \<in> set xs \<Longrightarrow> keeps_tree (f x s)) \<Longrightarrow> keeps_tree (io_fold f xs s)"
  by (induction xs arbitrary: s) (auto intro!: tree_rules)

lemma keeps_if [tree_rules]: "(b \<Longrightarrow> keeps_tree f) \<Longrightarrow> (\<not> b \<Longrightarrow> keeps_tree g) \<Longrightarrow> keeps_tree (if b then f else g)"
  by simp

lemma keeps_option [tree_rules]:
  "(x = None \<Longrightarrow> keeps_tree f) \<Longrightarrow> (\<And>y. x = Some y \<Longrightarrow> keeps_tree (g y)) \<Longrightarrow> keeps_tree (case x of None \<Rightarrow> f | Some y \<Rightarrow> g y)"
  by (cases x) simp_all

lemma keeps_prod [tree_rules]: "(\<And>a b. p = (a, b) \<Longrightarrow> keeps_tree (f a b)) \<Longrightarrow> keeps_tree (case p of (a, b) \<Rightarrow> f a b)"
  by (cases p) simp

lemma keeps_prod_applied [tree_rules]: "(\<And>a b. p = (a, b) \<Longrightarrow> keeps_tree (f a b s)) \<Longrightarrow> keeps_tree ((case p of (a, b) \<Rightarrow> f a b) s)"
  by (cases p) simp

lemma keeps_dtype [tree_rules]: "keeps_tree f \<Longrightarrow> keeps_tree g \<Longrightarrow> keeps_tree (case d of FILE \<Rightarrow> f | STRING \<Rightarrow> g)"
  by (cases d) simp_all

lemma keeps_let [tree_rules]: "keeps_tree (f x) \<Longrightarrow> keeps_tree (let y = x in f y)"
  by simp

section \<open>Operations on files\<close>

lemma keeps_time [tree_rules]: "keeps_tree time_now"
  by (simp add: keeps_tree_def time_now_def)

lemma keeps_read [tree_rules]: "keeps_tree (read_bytes p)"
  by (auto simp: keeps_tree_def read_bytes_def split: option.splits node.splits)

lemma keeps_read_str [tree_rules]: "keeps_tree (read_str p)"
  unfolding read_str_def by (intro tree_rules)

lemma keeps_scandir [tree_rules]: "keeps_tree (scandir p)"
  by (auto simp: keeps_tree_def scandir_def split: option.splits node.splits)

lemma write_bytes_wf:
  assumes "fs_wf w"
  shows "fs_wf (snd (write_bytes p b w))"
proof (cases "\<exists>w'. write_bytes p b w = (Inr (), w')")
  case True
  then have p: "p \<noteq> []" and not_dir: "nodes w (resolve w p) \<noteq> Some Dir" and w': "snd (write_bytes p b w) = set_node (resolve w p) (File b) w"
    and up: "nodes w (resolve w p) \<noteq> None \<or> nodes w (butlast (resolve w p)) = Some Dir"
    by (auto simp: write_bytes_def node_at_def nodes_def split: option.splits node.splits if_splits)
  have ne: "resolve w p \<noteq> []" using not_dir by (auto simp: nodes_def fs_node_def)
  then have "nodes w (butlast (resolve w p)) = Some Dir"
    using up fs_wf_parent [OF assms, of "butlast (resolve w p)" "last (resolve w p)"] by auto
  with assms ne not_dir show ?thesis unfolding w' by (intro fs_wf_set) auto
next
  case False
  then have "snd (write_bytes p b w) = w"
    by (auto simp: write_bytes_def split: option.splits node.splits if_splits)
  with assms show ?thesis by simp
qed

lemma keeps_write [tree_rules]: "keeps_tree (write_bytes p b)"
  by (simp add: keeps_tree_def write_bytes_wf)

lemma keeps_write_str [tree_rules]: "keeps_tree (write_str p s)"
  unfolding write_str_def by (rule keeps_write)

lemma make_dirs_wf:
  assumes "make_dirs up p (fw_files w) = Inr fs" and "fs_wf w" and "nodes w up = Some Dir"
  shows "fs_wf (w\<lparr>fw_files := fs\<rparr>)"
  using assms
proof (induction p arbitrary: up w)
  case Nil
  from Nil.prems(1) have "fs = fw_files w" by simp
  with Nil.prems(2) show ?case by simp
next
  case (Cons c cs)
  show ?case
  proof (cases "nodes w (up @ [c])")
    case None
    let ?w = "set_node (up @ [c]) Dir w"
    have "fs_wf ?w" using Cons.prems(2,3) by (intro fs_wf_set) simp_all
    moreover have "make_dirs (up @ [c]) cs (fw_files ?w) = Inr fs"
      using Cons.prems(1) None by (simp add: nodes_def set_node_def)
    moreover have "nodes ?w (up @ [c]) = Some Dir" by simp
    ultimately have "fs_wf (?w\<lparr>fw_files := fs\<rparr>)" using Cons.IH by blast
    then show ?thesis by (simp add: set_node_def)
  next
    case (Some n)
    then have "n = Dir" "make_dirs (up @ [c]) cs (fw_files w) = Inr fs"
      using Cons.prems(1) by (auto simp: nodes_def split: node.splits)
    with Cons.IH Cons.prems(2) Some show ?thesis by blast
  qed
qed

lemma keeps_makedirs [tree_rules]: "keeps_tree (makedirs e p)"
proof -
  have "nodes w [] = Some Dir" for w :: "'a file_world_scheme" by (simp add: nodes_def fs_node_def)
  then show ?thesis
    using make_dirs_wf [of "[]"] by (auto simp: keeps_tree_def makedirs_def split: sum.splits)
qed

lemma keeps_check_or_create [tree_rules]: "keeps_tree (check_or_create_dir p)"
  using keeps_makedirs [of True p] by (auto simp: keeps_tree_def check_or_create_dir_def)

lemma keeps_rename [tree_rules]: "keeps_tree (rename_file src dst)"
  unfolding keeps_tree_def
proof (intro allI impI)
  fix w :: "'a file_world_scheme"
  assume wf: "fs_wf w"
  show "fs_wf (snd (rename_file src dst w))"
  proof (cases "\<exists>b. read_bytes src w = (Inr b, w) \<and> (\<exists>w1. write_bytes dst b w = (Inr (), w1)) \<and> resolve w src \<noteq> resolve w dst")
    case True
    then obtain b w1 where r: "read_bytes src w = (Inr b, w)" and w1: "write_bytes dst b w = (Inr (), w1)"
      and ne: "resolve w src \<noteq> resolve w dst" by blast
    have src: "nodes w (resolve w src) = Some (File b)"
      using r by (auto simp: read_bytes_def node_at_def nodes_def split: option.splits node.splits if_splits)
    have w1': "w1 = set_node (resolve w dst) (File b) w"
      using w1 by (auto simp: write_bytes_def split: option.splits node.splits if_splits)
    have "fs_wf w1" using write_bytes_wf [OF wf, of dst b] w1 by simp
    moreover have "nodes w1 (resolve w src) \<noteq> Some Dir" using src ne by (auto simp: w1' nodes_def set_node_def fs_node_def od_simps)
    ultimately have "fs_wf (w1\<lparr>fw_files := od_del (resolve w src) (fw_files w1)\<rparr>)" by (rule fs_wf_del)
    moreover have "resolve w1 src = resolve w src" by (simp add: w1')
    ultimately show ?thesis using r w1 ne by (simp add: rename_file_def io_bind_def io_then_def)
  next
    case False
    have rd: "snd (read_bytes src w) = w" by (auto simp: read_bytes_def split: option.splits node.splits)
    show ?thesis
    proof (cases "fst (read_bytes src w)")
      case (Inl e)
      with rd wf show ?thesis by (cases "read_bytes src w") (simp add: rename_file_def io_bind_def)
    next
      case (Inr b)
      then have b: "read_bytes src w = (Inr b, w)" using rd by (cases "read_bytes src w") simp
      obtain r w1 where wr: "write_bytes dst b w = (r, w1)" by fastforce
      then have "fs_wf w1" using write_bytes_wf [OF wf, of dst b] by simp
      with False b wr show ?thesis by (cases r) (auto simp: rename_file_def io_bind_def io_then_def)
    qed
  qed
qed

section \<open>Directories, configurations and archives\<close>

lemma keeps_chdir [tree_rules]: "keeps_tree (chdir p)"
  by (auto simp: keeps_tree_def chdir_def fs_wf_def nodes_def cwd_text_def starts_with_def split: option.splits node.splits)

lemma keeps_file_dir [tree_rules]: "keeps_tree (file_check_or_create_dir d)"
  unfolding file_check_or_create_dir_def by (intro tree_rules)

lemma keeps_goto [tree_rules]: "keeps_tree (goto_dir d)"
  unfolding goto_dir_def by (intro tree_rules)

lemma keeps_config [tree_rules]:
  "keeps_tree (open_local_config p)" "keeps_tree (write_local_config cp p)" "keeps_tree (dump_params_to j p)" "keeps_tree (load_params_from p)"
  unfolding open_local_config_def write_local_config_def dump_params_to_def load_params_from_def by (intro tree_rules)+

lemma keeps_stream [tree_rules]: "keeps_tree (iter_stream_zip r)"
  unfolding iter_stream_zip_def by (intro tree_rules)

lemma keeps_archive [tree_rules]: "keeps_tree (archive_local_folder Z d a)"
  unfolding archive_local_folder_def write_archive_def by (intro tree_rules)

lemma keeps_extract [tree_rules]: "keeps_tree (extract_archive_to Z a d)"
  unfolding extract_archive_to_def extract_entry_def by (intro tree_rules)

end
