(* ===== verification/TreeKept.thy ===== *)
theory TreeKept
  imports FileTree ExpRunner StorageProps TrialManagerProps
begin

text \<open>
  The file tree through the whole program: any storage engine that keeps it (\<open>tree_store\<close>) makes the logical storages, the
  managers, the trial manager and the experiment runner keep it. The file system engine is such an engine.
\<close>

section \<open>Over any storage engine\<close>

text \<open>The services of the trial manager that are parameters: they keep the tree, too.\<close>

definition env_keeps :: "'z trial_env \<Rightarrow> bool" where
  "env_keeps E \<longleftrightarrow> keeps_tree (te_uuid E) \<and> keeps_tree (te_component_key E) \<and> keeps_tree (te_mkdtemp E) \<and>
     (\<forall>ks ids. keeps_tree (te_on_new_pipeline E ks ids)) \<and> (\<forall>args. keeps_tree (te_on_new_component E args))"

locale tree_store =
  fixes P :: "'z file_world_scheme phys_store"
  assumes get_keeps: "keeps_tree (ps_get P k br v d)"
    and put_keeps: "keeps_tree (ps_put P k b d s)"
    and list_key_keeps: "keeps_tree (ps_list_key P)"
    and head_keeps: "keeps_tree (ps_head P k b)"
    and branch_keeps: "keeps_tree (ps_branch P k b br v)"
    and list_branch_keeps: "keeps_tree (ps_list_branch P k)"
    and meta_keeps: "keeps_tree (ps_meta P k v br)"
    and merge_keeps: "keeps_tree (ps_merge P k b m d s)"
begin

lemmas engine_keeps = get_keeps put_keeps list_key_keeps head_keeps branch_keeps list_branch_keeps meta_keeps merge_keeps

lemma found_keeps: "keeps_tree (found_or_key_error r)"
  unfolding found_or_key_error_def by (intro tree_rules)

lemma reply_keeps: "keeps_tree f \<Longrightarrow> keeps_tree (io_reply f)" "keeps_tree f \<Longrightarrow> keeps_tree (version_of_reply f)"
  unfolding version_of_reply_def io_reply_def by (intro tree_rules; assumption)+

lemma string_keeps:
  "keeps_tree (string_get_branch_head P k b)" "keeps_tree (string_get_version P k v)" "keeps_tree (string_put P k b s)" "keeps_tree (string_merge P k b m s)"
  unfolding string_get_branch_head_def string_get_version_def string_put_def string_merge_def
  by (intro tree_rules engine_keeps found_keeps reply_keeps)+

lemma file_keeps:
  "keeps_tree (file_get_branch_head P k b)" "keeps_tree (file_get_version P k v)" "keeps_tree (file_put P k b s)" "keeps_tree (file_merge P k b m s)"
  "keeps_tree (storage_head P k b)" "keeps_tree (storage_branch P k b br rv)" "keeps_tree (storage_list_of_branches P k)"
  "keeps_tree (storage_list_with_prefix P pre)" "keeps_tree (parents_by_branch_head P k b)" "keeps_tree (parents_by_version P k v)"
  unfolding file_get_branch_head_def file_get_version_def file_put_def file_merge_def storage_head_def storage_branch_def
    storage_list_of_branches_def storage_list_with_prefix_def parents_by_branch_head_def parents_by_version_def
  by (intro tree_rules engine_keeps found_keeps reply_keeps)+

lemma lineage_keeps: "keeps_tree (lineage_from n P k node)"
  by (induction n arbitrary: node) (auto intro!: tree_rules file_keeps)

lemma semantic_keeps:
  "keeps_tree (semantic_get_branch_head P pre key)" "keeps_tree (semantic_get_version P pre key)" "keeps_tree (semantic_put P pre key s)"
  "keeps_tree (semantic_merge P pre key key2 key3 s)" "keeps_tree (semantic_branch_on_branch_head P pre key b)"
  "keeps_tree (semantic_branch_on_version P pre key b)" "keeps_tree (semantic_traverse_branch n P pre key)"
  "keeps_tree (runtime_get P b key key2 v)" "keeps_tree (runtime_put P b key key2 s)"
  unfolding semantic_get_branch_head_def semantic_get_version_def semantic_put_def semantic_merge_def io_assert_def
    semantic_branch_on_branch_head_def semantic_branch_on_version_def semantic_traverse_branch_def semantic_parents_of_branch_head_def
    runtime_get_def runtime_put_def file_storage_shares
  by (intro tree_rules engine_keeps string_keeps file_keeps lineage_keeps)+

lemma parse_keeps: "keeps_tree (parse_path p :: ('z file_world_scheme, icp) io)"
proof -
  have "keeps_tree (read_str p :: ('z file_world_scheme, string) io)" by (rule keeps_read_str)
  then have "fs_wf (snd (parse_path p w))" if "fs_wf w" for w :: "'z file_world_scheme"
    using that by (cases "read_str p w") (auto simp: parse_path_def keeps_tree_def split: sum.splits dest: spec [of _ w])
  then show ?thesis by (simp add: keeps_tree_def)
qed

lemma wrap_keeps: "keeps_tree (wrap_meta cp)"
  unfolding wrap_meta_def by (intro tree_rules)

lemma meta_keeps_tree:
  "keeps_tree (meta_get_branch_head P key)" "keeps_tree (meta_get_semantic_version P key)" "keeps_tree (meta_get_lineage n P key)"
  "keeps_tree (get_meta P key)"
  unfolding meta_get_branch_head_def meta_get_semantic_version_def meta_get_lineage_def get_meta_def
  by (intro tree_rules semantic_keeps parse_keeps wrap_keeps)+

lemma commit_component_keeps: "keeps_tree (commit_component P Z t pre m key s p)"
  unfolding commit_component_def by (intro tree_rules semantic_keeps)

lemma library_keeps: "keeps_tree (library_create P Z t s b)" "keeps_tree (library_get_archive P Z key s)" "keeps_tree (dataset_get_archive P Z key s)"
  unfolding library_create_def library_proposed_version_def library_get_archive_def dataset_get_archive_def component_get_archive_def
  by (intro tree_rules wrap_keeps meta_keeps_tree commit_component_keeps semantic_keeps)+

lemma dataset_keeps: "keeps_tree (dataset_create P Z md5 t s)" "keeps_tree (dataset_get_meta P key)"
  unfolding dataset_create_def dataset_refresh_schema_def cal_dataset_schema_hash_def csv_header_def dataset_proposed_version_def dataset_get_meta_def
  by (intro tree_rules wrap_keeps meta_keeps_tree commit_component_keeps)+

text \<open>The coordinator and the other services of the trial manager keep the tree.\<close>

lemma make_missing_keeps: "keeps_tree (make_missing p :: ('z file_world_scheme, unit) io)"
  using keeps_makedirs [of False p] by (auto simp: keeps_tree_def make_missing_def)

lemma options_keeps: "keeps_tree (generate_options d :: ('z file_world_scheme, run_options) io)" "keeps_tree (prepare_env ws :: ('z file_world_scheme, run_options) io)"
  unfolding generate_options_def prepare_env_def by (intro tree_rules make_missing_keeps)+

lemma json_case_keeps:
  "(\<And>s. keeps_tree (f s)) \<Longrightarrow> keeps_tree (case j of JStr s \<Rightarrow> f s | _ \<Rightarrow> io_raise e)"
  by (cases j) (auto intro: tree_rules)

lemma output_exists_keeps: "keeps_tree (output_exists j :: ('z file_world_scheme, bool) io)"
  unfolding output_exists_def by (intro tree_rules json_case_keeps)

lemma input_keeps: "te_store E = P \<Longrightarrow> keeps_tree (first_input E opts n)"
  unfolding first_input_def dataset_input_def library_input_def
  by (erule ssubst) (intro tree_rules library_keeps dataset_keeps json_case_keeps output_exists_keeps semantic_keeps)

lemma transfer_keeps: "te_store E = P \<Longrightarrow> keeps_tree (transfer_library E opts p n)"
  unfolding transfer_library_def
  by (erule ssubst) (intro tree_rules meta_keeps_tree library_keeps make_missing_keeps)

lemma build_keeps: "te_store E = P \<Longrightarrow> keeps_tree (build_venvs E opts ns)"
  unfolding build_venvs_def build_node_def Let_def by (intro tree_rules input_keeps transfer_keeps; assumption)

lemma service_keeps:
  assumes "env_keeps E"
  shows "keeps_tree (te_uuid E)" "keeps_tree (te_component_key E)" "keeps_tree (te_mkdtemp E)"
    "keeps_tree (te_on_new_pipeline E ks ids)" "keeps_tree (te_on_new_component E args)"
  using assms by (simp_all add: env_keeps_def)

lemma train_keeps: "te_store E = P \<Longrightarrow> env_keeps E \<Longrightarrow> keeps_tree (train_node_list E ns opts ids :: ('z file_world_scheme, trial_node list) io)"
  unfolding train_node_list_def run_component_def read_performance_def
  by (intro tree_rules build_keeps service_keeps json_case_keeps; assumption?)

lemma save_keeps:
  assumes E: "te_store E = P" and action: "\<And>v p. keeps_tree (action v p)"
  shows "keeps_tree (save_state E name action key d items)"
  unfolding save_state_def E by (intro tree_rules semantic_keeps action)

lemma commit_keeps:
  assumes E: "te_store E = P" and services: "env_keeps E"
  shows "keeps_tree (commit_workspace E ws)"
  unfolding commit_workspace_def commit_plan_def save_pipeline_state_def output_folder_def E
  by (intro tree_rules meta_keeps_tree wrap_keeps options_keeps train_keeps [OF E services] save_keeps [OF E] service_keeps [OF services]
      json_case_keeps semantic_keeps)

lemma training_keeps:
  fixes mk :: "('z file_world_scheme, string) io" and train :: "trial_node list \<Rightarrow> run_options \<Rightarrow> ('z file_world_scheme, trial_node list) io"
  shows "keeps_tree mk \<Longrightarrow> (\<And>ns opts. keeps_tree (train ns opts)) \<Longrightarrow> keeps_tree (dfs_train mk train walking t)"
    and "keeps_tree mk \<Longrightarrow> (\<And>ns opts. keeps_tree (train ns opts)) \<Longrightarrow> keeps_tree (train_children mk train walking ts)"
proof (induction mk train walking t and mk train walking ts rule: dfs_train_train_children.induct)
  case (1 mk train walking n cs)
  show ?case unfolding dfs_train.simps by (intro tree_rules options_keeps 1)
next
  case (2 mk train walking)
  show ?case unfolding train_children.simps by (intro tree_rules)
next
  case (3 mk train walking m ds cs)
  show ?case unfolding train_children.simps by (intro tree_rules 3)
qed

lemma merge_keeps_tree:
  assumes E: "te_store E = P" and services: "env_keeps E"
  shows "keeps_tree (merge_workspace_branches n E k1 k2)"
  unfolding merge_workspace_branches_def merge_inputs_def branch_workspaces_def E
  by (intro tree_rules meta_keeps_tree wrap_keeps training_keeps service_keeps [OF services])

lemma exp_workspace_keeps: "keeps_tree (experiment_workspace E br p v b :: ('z file_world_scheme, icp) io)"
  unfolding experiment_workspace_def generate_workspace_meta_def Let_def by (intro tree_rules)

lemma task_keeps:
  assumes E: "te_store E = P" and services: "env_keeps E"
  shows "keeps_tree (run_task n E md5 conf x task)"
  unfolding run_task_def commit_libs_def make_pipeline_and_commit_def E
  by (intro tree_rules dataset_keeps library_keeps commit_keeps [OF E services] merge_keeps_tree [OF E services] exp_workspace_keeps)

lemma experiment_keeps:
  assumes E: "te_store E = P" and services: "env_keeps E"
  shows "keeps_tree (start_experiment n E md5 load_yaml t ps rss prof path)"
proof -
  have "keeps_tree (mem_profile ps rss prof :: ('z file_world_scheme, string list) io)"
    by (cases prof) (auto simp: mem_profile_def intro!: tree_rules)
  then show ?thesis
    unfolding start_experiment_def exp_manifest_def run_tasks_def
    by (intro tree_rules task_keeps [OF E services])
qed

end

section \<open>Over the file system engine\<close>

lemma fs_paths_keep:
  "keeps_tree (get_head_version C k b)" "keeps_tree (set_head_version C k b v)" "keeps_tree (fs_list_key C)" "keeps_tree (fs_list_branch C k)"
  "keeps_tree (log_time C)" "keeps_tree (fs_connect C)"
  unfolding get_head_version_def set_head_version_def fs_list_key_def fs_list_branch_def log_time_def fs_connect_def
  by (intro tree_rules)+

lemma fs_file_path_keeps: "keeps_tree (get_file_path C k b v)"
  unfolding get_file_path_def path_from_hashed_version_def head_path_from_branch_def by (intro tree_rules fs_paths_keep)

lemma fs_get_keeps: "keeps_tree (fs_get C k br v d)"
  unfolding fs_get_def by (intro tree_rules fs_paths_keep fs_file_path_keeps)

lemma fs_put_keeps: "keeps_tree (fs_put C k b d s)"
  unfolding fs_put_def fs_upload_def fs_commit_def by (intro tree_rules fs_paths_keep)

interpretation fs_tree: tree_store "fs_store C" for C
  by unfold_locales (auto simp: fs_store_def fs_head_def fs_meta_def fs_branch_def fs_merge_def
      intro!: tree_rules fs_get_keeps fs_put_keeps fs_paths_keep fs_file_path_keeps)


lemma one_world_tree: "fs_wf one_world"
proof (rule fs_wfI)
  show "distinct (od_keys (fw_files one_world))" by (simp add: one_world_def od_keys_def)
  show "starts_with ''/'' (fw_cwd one_world)" by (simp add: one_world_def starts_with_def)
  show "nodes one_world p = Some Dir" if "nodes one_world (p @ [c]) \<noteq> None" for p c
    using that by (auto simp: one_world_def nodes_def fs_node_def od_get_def split: if_splits)
qed


end
