(* ===== verification/WebApi.thy ===== *)
theory WebApi
  imports Scheduler Utils Files
begin

text \<open>
  The routes of \<^verbatim>\<open>pysrc/daemon/webapi.py\<close>. The coordinator object they take is a record of what they use of it: the scheduler and the
  task monitor of this development, the information on a worker as a parameter, and the job lock in the state. The
  websockets, which send the same dictionaries again and again, are left out.
\<close>

record web_coordinator =
  wc_env :: sched_env
  wc_scheduler :: scheduler
  wc_monitor :: task_monitor
  wc_address :: nat
  wc_worker_info :: "string \<Rightarrow> json result"

record web_world = file_world +
  ww_job_lock :: bool

text \<open>A text, or a dictionary, which the framework sends as JSON.\<close>

datatype body = TextBody string | JsonBody json

record response =
  rs_body :: body
  rs_headers :: "(string \<times> string) list"

definition cors_header :: "string \<times> string" where
  "cors_header = (''Access-Control-Allow-Origin'', ''*'')"

definition make_response :: "body \<Rightarrow> response" where
  "make_response content = \<lparr>rs_body = content, rs_headers = [cors_header]\<rparr>"

text \<open>\<open>islist=True\<close>: the newest entry first, and the number of entries.\<close>

definition make_list_response :: "json list \<Rightarrow> response" where
  "make_list_response content =
     \<lparr>rs_body = TextBody (dumps (JList (rev content))),
      rs_headers = [cors_header, (''Access-Control-Expose-Headers'', ''X-Total-Count''), (''X-Total-Count'', nat_str (length content))]\<rparr>"

datatype web_request =
    GetApi | GetConf | GetPool | GetPipelines | GetPipeline string | GetLogs | GetWorker string | GetWorkerLog string | StartExp string

definition conf_text :: "(json \<Rightarrow> string) \<Rightarrow> configuration \<Rightarrow> string result" where
  "conf_text dump_indented cf =
     res_bind (conf_dict cf) (\<lambda>d. Inr (dump_indented (JObj (map (\<lambda>(s, kvs). (s, JObj (map (\<lambda>(k, v). (k, JStr v)) kvs))) d))))"

definition dict_response :: "(string, json) odict result \<Rightarrow> ('s, response) io" where
  "dict_response r = io_bind (io_lift r) (\<lambda>d. io_return (make_response (JsonBody (JObj d))))"

text \<open>A route without \<open>make_response\<close>.\<close>

definition plain_dict :: "(string \<times> string) list \<Rightarrow> response" where
  "plain_dict kvs = \<lparr>rs_body = JsonBody (JObj (map (\<lambda>(k, v). (k, JStr v)) kvs)), rs_headers = []\<rparr>"

definition worker_log :: "configuration \<Rightarrow> string \<Rightarrow> ('z web_world_scheme, response) io" where
  "worker_log cf worker_id =
     io_bind (io_lift (env_temp_path cf)) (\<lambda>temp.
     io_bind (read_str (path_join temp (worker_id @ ''.log''))) (\<lambda>text.
       io_return (make_response (JsonBody (JObj [(''id'', JStr worker_id), (''log'', JStr text)])))))"

text \<open>\<open>Message\<close> is not imported here: once the lock is taken, building the message is a \<open>NameError\<close>.\<close>

definition start_exp :: "string \<Rightarrow> ('z web_world_scheme, response) io" where
  "start_exp exp_name =
     io_bind io_get (\<lambda>w.
     if ww_job_lock w then io_return (plain_dict [(''status'', ''err''), (''msg'', ''A job has already been started.'')])
     else io_then (io_modify (\<lambda>w. w\<lparr>ww_job_lock := True\<rparr>)) (io_raise NameError))"

definition api_route :: "('s, response) io" where
  "api_route = io_return (plain_dict [(''hello'', ''world'')])"

definition conf_route :: "(json \<Rightarrow> string) \<Rightarrow> configuration \<Rightarrow> ('s, response) io" where
  "conf_route dump_indented cf = io_bind (io_lift (conf_text dump_indented cf)) (\<lambda>t. io_return (make_response (TextBody t)))"

definition pool_route :: "web_coordinator \<Rightarrow> ('s, response) io" where
  "pool_route C = dict_response (pool_info_dict (wc_env C) (wc_scheduler C))"

definition pipelines_route :: "web_coordinator \<Rightarrow> ('s, response) io" where
  "pipelines_route C =
     (let E = wc_env C in dict_response
       (pipelines_info_dict (se_sha256 E) (wc_address C) (se_world E) (se_process E) (se_comp E) (wc_monitor C)))"

definition pipeline_route :: "web_coordinator \<Rightarrow> string \<Rightarrow> ('s, response) io" where
  "pipeline_route C h =
     (let E = wc_env C in dict_response
       (get_pipeline_info_dict (se_sha256 E) (wc_address C) (se_world E) (se_process E) (se_comp E) (wc_monitor C) h))"

definition logs_route :: "json list \<Rightarrow> ('s, response) io" where
  "logs_route log_store = io_return (make_list_response log_store)"

definition worker_route :: "web_coordinator \<Rightarrow> string \<Rightarrow> ('s, response) io" where
  "worker_route C i = io_bind (io_lift (wc_worker_info C i)) (\<lambda>j. io_return (make_response (JsonBody j)))"

definition web_handle ::
    "(json \<Rightarrow> string) \<Rightarrow> configuration \<Rightarrow> web_coordinator \<Rightarrow> json list \<Rightarrow> web_request \<Rightarrow> ('z web_world_scheme, response) io" where
  "web_handle dump_indented cf C log_store req =
     (case req of
        GetApi \<Rightarrow> api_route
      | GetConf \<Rightarrow> conf_route dump_indented cf
      | GetPool \<Rightarrow> pool_route C
      | GetPipelines \<Rightarrow> pipelines_route C
      | GetPipeline h \<Rightarrow> pipeline_route C h
      | GetLogs \<Rightarrow> logs_route log_store
      | GetWorker i \<Rightarrow> worker_route C i
      | GetWorkerLog i \<Rightarrow> worker_log cf i
      | StartExp x \<Rightarrow> start_exp x)"

text \<open>The first start fails and leaves the lock held, so every later one is refused.\<close>

theorem start_exp_once:
  assumes "\<not> ww_job_lock w"
  shows "web_handle di cf C logs (StartExp x) w = (Inl NameError, w\<lparr>ww_job_lock := True\<rparr>)"
    and "web_handle di cf C logs (StartExp y) (w\<lparr>ww_job_lock := True\<rparr>) =
      (Inr (plain_dict [(''status'', ''err''), (''msg'', ''A job has already been started.'')]), w\<lparr>ww_job_lock := True\<rparr>)"
  using assms by (simp_all add: web_handle_def start_exp_def)

text \<open>The list of logs parses back, newest first.\<close>

theorem logs_response:
  assumes "\<forall>e \<in> set logs. wf_json e"
  shows "\<exists>text hs. web_handle di cf C logs GetLogs w = (Inr \<lparr>rs_body = TextBody text, rs_headers = hs\<rparr>, w) \<and>
    loads text = Inr (JList (rev logs)) \<and> (''X-Total-Count'', nat_str (length logs)) \<in> set hs"
proof -
  have "loads (dumps (JList (rev logs))) = Inr (JList (rev logs))" using assms by (intro loads_dumps) simp
  then show ?thesis by (simp add: web_handle_def logs_route_def make_list_response_def)
qed

end
