(* ===== verification/Zip.thy ===== *)
theory Zip
  imports PyString "HOL-Library.Word"
begin

text \<open>
  The zip format as the program writes and reads it: \<^verbatim>\<open>pysrc/thirdparty/stream_zip/stream_zip.py\<close> with the method
  \<open>NO_COMPRESSION_64\<close>, the only one that is used, and \<^verbatim>\<open>pysrc/thirdparty/stream_unzip_orig/stream_unzip.py\<close>. The
  reader takes every archive: stored entries are read, and what becomes of others is written out. Bytes are characters;
  generators are lists with the error that ended them. The decompressor for deflate and the decryption of the reader
  are never called.
\<close>

section \<open>Errors, numbers and checksums\<close>

text \<open>The exceptions of both modules, \<open>struct.error\<close>, and the \<open>TypeError\<close> of arithmetic or slicing on \<open>None\<close>.\<close>

datatype zip_error =
    UncompressedSizeOverflowError | CentralDirectorySizeOverflowError | OffsetOverflowError
  | CentralDirectoryNumberOfEntriesOverflowError | NameLengthOverflowError | StructError
  | TruncatedDataError | UnexpectedSignatureError | UnsupportedFlagsError | UnsupportedCompressionTypeError
  | MissingZip64ExtraError | TruncatedZip64ExtraError | CRC32IntegrityError | NoneTypeError

text \<open>Numbers of \<open>k\<close> bytes, little end first.\<close>

primrec le :: "nat \<Rightarrow> nat \<Rightarrow> string" where
  "le 0 n = []"
| "le (Suc k) n = char_of (n mod 256) # le k (n div 256)"

primrec le_val :: "string \<Rightarrow> nat" where
  "le_val [] = 0"
| "le_val (c # cs) = of_char c + 256 * le_val cs"

lemma length_le [simp]: "length (le k n) = k"
  by (induction k arbitrary: n) simp_all

lemma le_val_le [simp]: "le_val (le k n) = n mod 256 ^ k"
proof (induction k arbitrary: n)
  case (Suc k)
  have "n mod (256 * 256 ^ k) = 256 * (n div 256 mod 256 ^ k) + n mod 256" by (rule mod_mult2_eq)
  then show ?case using Suc by simp
qed simp

text \<open>\<open>zlib.crc32(data, value)\<close>, bit by bit.\<close>

definition crc_bit :: "32 word \<Rightarrow> 32 word" where
  "crc_bit c = (if and c 1 = 1 then xor (drop_bit 1 c) 0xEDB88320 else drop_bit 1 c)"

definition crc_byte :: "char \<Rightarrow> 32 word \<Rightarrow> 32 word" where
  "crc_byte b c = (crc_bit ^^ 8) (xor c (of_nat (of_char b)))"

definition crc32 :: "string \<Rightarrow> 32 word \<Rightarrow> 32 word" where
  "crc32 data v = not (fold crc_byte data (not v))"

definition crc_chunks :: "string list \<Rightarrow> 32 word" where
  "crc_chunks chunks = fold crc32 chunks (crc32 [] 0)"

lemma crc32_append: "crc32 (a @ b) v = crc32 b (crc32 a v)"
  by (simp add: crc32_def)

lemma crc_chunks_concat: "crc_chunks chunks = crc32 (concat chunks) 0"
proof -
  have "fold crc32 chunks v = crc32 (concat chunks) v" for v
    by (induction chunks arbitrary: v) (simp_all add: crc32_append, simp add: crc32_def)
  then show ?thesis by (simp add: crc_chunks_def) (simp add: crc32_def)
qed

section \<open>Blocks of even size\<close>

text \<open>\<open>up_to\<close>: the next \<open>num\<close> bytes of the rest of a chunk and the chunks after it, fewer at the end.\<close>

function up_to :: "nat \<Rightarrow> string \<Rightarrow> string list \<Rightarrow> string \<times> string \<times> string list" where
  "up_to num ahead rest =
     (if num = 0 then ([], ahead, rest)
      else if ahead = [] then (case rest of [] \<Rightarrow> ([], [], []) | c # cs \<Rightarrow> up_to num c cs)
      else
        (let k = min num (length ahead)
         in case up_to (num - k) (drop k ahead) rest of (block, left) \<Rightarrow> (take k ahead @ block, left)))"
  by pat_completeness auto
termination by (relation "measures [\<lambda>(n, a, r). length r, \<lambda>(n, a, r). n]") auto

declare up_to.simps [simp del]

lemma up_to_bytes:
  "up_to num ahead rest = (block, a, r) \<Longrightarrow> block = take num (ahead @ concat rest) \<and> a @ concat r = drop num (ahead @ concat rest)"
proof (induction num ahead rest arbitrary: block a r rule: up_to.induct)
  case (1 num ahead rest)
  show ?case
  proof (cases "num = 0 \<or> ahead = []")
    case True
    then show ?thesis using 1 by (auto simp: up_to.simps [of num ahead rest] split: list.splits if_splits)
  next
    case False
    let ?k = "min num (length ahead)"
    obtain b where up: "up_to (num - ?k) (drop ?k ahead) rest = (b, a, r)" and block: "block = take ?k ahead @ b"
      using False 1(3) by (auto simp: up_to.simps [of num ahead rest] Let_def split: prod.splits)
    have "b = take (num - ?k) (drop ?k ahead @ concat rest) \<and> a @ concat r = drop (num - ?k) (drop ?k ahead @ concat rest)"
      using 1(2) [OF _ _ refl up] False by simp
    with block show ?thesis by (auto simp: min_def)
  qed
qed

function evenly_sized :: "nat \<Rightarrow> string \<Rightarrow> string list \<Rightarrow> string list" where
  "evenly_sized n ahead rest =
     (case up_to n ahead rest of (block, a, r) \<Rightarrow> if block = [] then [] else block # evenly_sized n a r)"
  by pat_completeness auto
termination
proof (relation "measure (\<lambda>(n, a, r). length (a @ concat r))", simp)
  fix n ahead rest block y a r
  assume "(block, y) = up_to n ahead rest" "(a, r) = y" "block \<noteq> []"
  then have b: "block = take n (ahead @ concat rest)" "a @ concat r = drop n (ahead @ concat rest)" "block \<noteq> []"
    using up_to_bytes [of n ahead rest block a r] by simp_all
  have "length block + length (a @ concat r) = length (ahead @ concat rest)"
    unfolding b(1,2) by (metis append_take_drop_id length_append)
  with b(3) show "((n, a, r), (n, ahead, rest)) \<in> measure (\<lambda>(n, a, r). length (a @ concat r))" by (cases block) auto
qed

declare evenly_sized.simps [simp del]

text \<open>The blocks are the bytes cut into pieces of the given size.\<close>

function chop :: "nat \<Rightarrow> string \<Rightarrow> string list" where
  "chop n s = (if n = 0 \<or> s = [] then [] else take n s # chop n (drop n s))"
  by pat_completeness auto
termination by (relation "measure (\<lambda>(n, s). length s)") auto

declare chop.simps [simp del]

lemma evenly_sized_chop: "evenly_sized n ahead rest = chop n (ahead @ concat rest)"
proof (induction n ahead rest rule: evenly_sized.induct)
  case (1 n ahead rest)
  obtain block a r where up: "up_to n ahead rest = (block, a, r)" by (cases "up_to n ahead rest") auto
  note b = up_to_bytes [OF up]
  show ?case
  proof (cases "block = []")
    case True
    then have "chop n (ahead @ concat rest) = []" using b by (auto simp: chop.simps [of n])
    then show ?thesis using True up by (simp add: evenly_sized.simps [of n ahead rest])
  next
    case False
    then have "evenly_sized n ahead rest = block # chop n (a @ concat r)"
      using 1 [OF up [symmetric] refl] up by (simp add: evenly_sized.simps [of n ahead rest])
    moreover have "chop n (ahead @ concat rest) = block # chop n (a @ concat r)"
      using b False by (auto simp: chop.simps [of n "ahead @ concat rest"])
    ultimately show ?thesis by simp
  qed
qed

lemma concat_chop: "0 < n \<Longrightarrow> concat (chop n s) = s"
  by (induction n s rule: chop.induct) (simp add: chop.simps)


text \<open>Iterating over a file opened in binary mode: its lines, each with its newline.\<close>

fun byte_lines :: "string \<Rightarrow> string list" where
  "byte_lines [] = []"
| "byte_lines (c # cs) =
     (if c = CHR 0x0A then [c] # byte_lines cs
      else (case byte_lines cs of [] \<Rightarrow> [[c]] | l # ls \<Rightarrow> (c # l) # ls))"

lemma concat_byte_lines [simp]: "concat (byte_lines s) = s"
proof (induction s)
  case (Cons c s)
  then show ?case by (cases "byte_lines s") auto
qed simp

section \<open>Writing\<close>

record datetime =
  dt_year :: nat
  dt_month :: nat
  dt_day :: nat
  dt_hour :: nat
  dt_minute :: nat
  dt_second :: nat

text \<open>The permissions are the nine bits that \<open>iter_metadata_for_dir\<close> masks out of the mode, so the external attributes fit their 32 bits.\<close>

record zip_file =
  zf_name :: string
  zf_modified :: datetime
  zf_perms :: "9 word"
  zf_content :: "string list"

definition CHUNK_SIZE :: nat where "CHUNK_SIZE = 65536"

definition raise_if_beyond :: "nat \<Rightarrow> nat \<Rightarrow> zip_error \<Rightarrow> zip_error + unit" where
  "raise_if_beyond n maximum e = (if maximum < n then Inl e else Inr ())"

definition try_zip :: "zip_error + 'a \<Rightarrow> ('a \<Rightarrow> zip_error + 'b) \<Rightarrow> zip_error + 'b" where
  "try_zip r f = (case r of Inl e \<Rightarrow> Inl e | Inr x \<Rightarrow> f x)"

lemma try_zip_simps [simp]: "try_zip (Inl e) f = Inl e" "try_zip (Inr x) f = f x"
  by (simp_all add: try_zip_def)

lemma try_zip_Inr: "try_zip r f = Inr y \<longleftrightarrow> (\<exists>x. r = Inr x \<and> f x = Inr y)"
  by (cases r) simp_all

lemma raise_if_beyond_Inr [simp]: "raise_if_beyond n m e = Inr u \<longleftrightarrow> n \<le> m"
  by (auto simp: raise_if_beyond_def)

definition local_header_signature :: string where "local_header_signature = ''PK'' @ [CHR 0x03, CHR 0x04]"
definition central_directory_header_signature :: string where "central_directory_header_signature = ''PK'' @ [CHR 0x01, CHR 0x02]"
definition zip_64_extra_signature :: string where "zip_64_extra_signature = [CHR 0x01, CHR 0x00]"

text \<open>
  The time stamp. Years that do not fit end in \<open>struct.error\<close>; all other packed numbers are in their range, because of
  the bounds that are checked.
\<close>

definition dos_time :: "datetime \<Rightarrow> nat" where
  "dos_time d = or (or (dt_second d div 2) (push_bit 5 (dt_minute d))) (push_bit 11 (dt_hour d))"

definition dos_date :: "datetime \<Rightarrow> nat" where
  "dos_date d = or (or (dt_day d) (push_bit 5 (dt_month d))) (push_bit 9 (dt_year d - 1980))"

definition mod_at_encoded :: "datetime \<Rightarrow> zip_error + string" where
  "mod_at_encoded d =
     (if dt_year d < 1980 \<or> 2 ^ 16 \<le> dos_time d \<or> 2 ^ 16 \<le> dos_date d then Inl StructError
      else Inr (le 2 (dos_time d) @ le 2 (dos_date d)))"

text \<open>The content is collected before anything of the entry is written, to know its length and checksum.\<close>

fun buffered_data :: "string list \<Rightarrow> nat \<Rightarrow> 32 word \<Rightarrow> nat \<Rightarrow> zip_error + (nat \<times> 32 word)" where
  "buffered_data [] n crc maximum = Inr (n, crc)"
| "buffered_data (chunk # chunks) n crc maximum =
     try_zip (raise_if_beyond (n + length chunk) maximum UncompressedSizeOverflowError) (\<lambda>_.
       buffered_data chunks (n + length chunk) (crc32 chunk crc) maximum)"

definition zip_64_local_extra :: "nat \<Rightarrow> string" where
  "zip_64_local_extra n = zip_64_extra_signature @ le 2 16 @ le 8 n @ le 8 n"

definition zip_64_central_extra :: "nat \<Rightarrow> nat \<Rightarrow> string" where
  "zip_64_central_extra n file_offset = zip_64_extra_signature @ le 2 24 @ le 8 n @ le 8 n @ le 8 file_offset"

definition local_header :: "string \<Rightarrow> nat \<Rightarrow> string \<Rightarrow> string \<Rightarrow> string" where
  "local_header mod_at crc name extra =
     le 2 45 @ [CHR 0x00, CHR 0x08] @ le 2 0 @ mod_at @ le 4 crc @ le 4 0xFFFFFFFF @ le 4 0xFFFFFFFF
       @ le 2 (length name) @ le 2 (length extra)"

definition central_header :: "string \<Rightarrow> nat \<Rightarrow> string \<Rightarrow> string \<Rightarrow> nat \<Rightarrow> string" where
  "central_header mod_at crc name extra external_attr =
     le 2 45 @ le 2 45 @ [CHR 0x00, CHR 0x08] @ le 2 0 @ mod_at @ le 4 crc @ le 4 0xFFFFFFFF @ le 4 0xFFFFFFFF
       @ le 2 (length name) @ le 2 (length extra) @ le 2 0 @ le 2 0 @ le 2 0 @ le 4 external_attr @ le 4 0xFFFFFFFF"

text \<open>The bytes of one entry, and its entry of the central directory: header, name, extra.\<close>

definition no_compression_64 ::
    "nat \<Rightarrow> string \<Rightarrow> string \<Rightarrow> nat \<Rightarrow> string list \<Rightarrow> zip_error + (string \<times> string \<times> string \<times> string)" where
  "no_compression_64 file_offset name mod_at external_attr chunks =
     try_zip (raise_if_beyond file_offset 0xFFFFFFFFFFFFFFFF OffsetOverflowError) (\<lambda>_.
     try_zip (buffered_data chunks 0 (crc32 [] 0) 0xFFFFFFFFFFFFFFFF) (\<lambda>(n, crc).
       let extra = zip_64_local_extra n; central_extra = zip_64_central_extra n file_offset
       in Inr (local_header_signature @ local_header mod_at (unat crc) name extra @ name @ extra @ concat chunks,
               central_header mod_at (unat crc) name central_extra external_attr, name, central_extra)))"

definition zip_entry :: "nat \<Rightarrow> zip_file \<Rightarrow> zip_error + (string \<times> string \<times> string \<times> string)" where
  "zip_entry offset f =
     (let name_encoded = utf8 (zf_name f)
      in try_zip (raise_if_beyond (length name_encoded) 0xFFFF NameLengthOverflowError) (\<lambda>_.
         try_zip (mod_at_encoded (zf_modified f)) (\<lambda>mod_at.
           let external_attr = or (push_bit 16 (unat (zf_perms f))) (if name_encoded \<noteq> [] \<and> last name_encoded = CHR ''/'' then 0x10 else 0)
           in no_compression_64 offset name_encoded mod_at external_attr (evenly_sized CHUNK_SIZE [] (zf_content f)))))"

fun zip_entries :: "nat \<Rightarrow> zip_file list \<Rightarrow> string \<times> (string \<times> string \<times> string) list \<times> zip_error option" where
  "zip_entries offset [] = ([], [], None)"
| "zip_entries offset (f # fs) =
     (case zip_entry offset f of
        Inl e \<Rightarrow> ([], [], Some e)
      | Inr (bytes, c) \<Rightarrow>
          (case zip_entries (offset + length bytes) fs of (later, cs, err) \<Rightarrow> (bytes @ later, c # cs, err)))"

fun zip_central :: "nat \<Rightarrow> nat \<Rightarrow> nat \<Rightarrow> (string \<times> string \<times> string) list \<Rightarrow> string \<times> zip_error option" where
  "zip_central start offset max_size [] = ([], None)"
| "zip_central start offset max_size ((header, name, extra) # cs) =
     (let bytes = central_directory_header_signature @ header @ name @ extra; end_offset = offset + length bytes
      in if 0xFFFFFFFFFFFFFFFF < end_offset then (bytes, Some OffsetOverflowError)
         else if max_size < end_offset - start then (bytes, Some CentralDirectorySizeOverflowError)
         else (case zip_central start end_offset max_size cs of (later, err) \<Rightarrow> (bytes @ later, err)))"

text \<open>The records at the end, for the two kinds of central directory.\<close>

definition zip_64_end :: "nat \<Rightarrow> nat \<Rightarrow> nat \<Rightarrow> string" where
  "zip_64_end entries start stop =
     ''PK'' @ [CHR 0x06, CHR 0x06] @ le 8 44 @ le 2 45 @ le 2 45 @ le 4 0 @ le 4 0 @ le 8 entries @ le 8 entries
       @ le 8 (stop - start) @ le 8 start
     @ ''PK'' @ [CHR 0x06, CHR 0x07] @ le 4 0 @ le 8 stop @ le 4 1
     @ ''PK'' @ [CHR 0x05, CHR 0x06] @ le 2 0xFFFF @ le 2 0xFFFF @ le 2 0xFFFF @ le 2 0xFFFF @ le 4 0xFFFFFFFF @ le 4 0xFFFFFFFF @ le 2 0"

definition zip_32_end :: "nat \<Rightarrow> nat \<Rightarrow> nat \<Rightarrow> string" where
  "zip_32_end entries start stop =
     ''PK'' @ [CHR 0x05, CHR 0x06] @ le 2 0 @ le 2 0 @ le 2 entries @ le 2 entries @ le 4 (stop - start) @ le 4 start @ le 2 0"

text \<open>Everything that is yielded, and the exception that ends it. With this method only an empty archive is no zip64.\<close>

definition zip_bytes :: "zip_file list \<Rightarrow> string \<times> zip_error option" where
  "zip_bytes files =
     (case zip_entries 0 files of
        (body, cs, Some e) \<Rightarrow> (body, Some e)
      | (body, cs, None) \<Rightarrow>
          (let zip64 = files \<noteq> []; start = length body
           in if (if zip64 then 0xFFFFFFFFFFFFFFFF else 0xFFFFFFFF) < start then (body, Some OffsetOverflowError)
              else if (if zip64 then 0xFFFFFFFFFFFFFFFF else 0xFFFF) < length cs then (body, Some CentralDirectoryNumberOfEntriesOverflowError)
              else (case zip_central start start (if zip64 then 0xFFFFFFFFFFFFFFFF else 0xFFFFFFFF) cs of
                      (central, Some e) \<Rightarrow> (body @ central, Some e)
                    | (central, None) \<Rightarrow>
                        (body @ central @ (if zip64 then zip_64_end else zip_32_end) (length cs) start (start + length central), None))))"

text \<open>\<open>stream_zip\<close>: blocks of even size; the bytes of a block that an exception has cut short are lost.\<close>

definition stream_zip :: "zip_file list \<Rightarrow> string list \<times> zip_error option" where
  "stream_zip files =
     (case zip_bytes files of (bytes, err) \<Rightarrow>
        (let blocks = evenly_sized CHUNK_SIZE [] [bytes]
         in (if err = None then blocks else filter (\<lambda>b. length b = CHUNK_SIZE) blocks, err)))"

end
