(* ===== verification/Unzip.thy ===== *)
theory Unzip
  imports Zip
begin

text \<open>
  \<^verbatim>\<open>pysrc/thirdparty/stream_unzip_orig/stream_unzip.py\<close>: reading an archive that comes in chunks.
\<close>

section \<open>Byte readers\<close>

text \<open>The current chunk is \<open>br_done @ br_ahead\<close>, with the offset between the two parts.\<close>

record byte_reader =
  br_done :: string
  br_ahead :: string
  br_rest :: "string list"

definition left_bytes :: "byte_reader \<Rightarrow> string" where
  "left_bytes r = br_ahead r @ concat (br_rest r)"

definition get_byte_readers :: "string list \<Rightarrow> byte_reader" where
  "get_byte_readers chunks = \<lparr>br_done = [], br_ahead = [], br_rest = chunks\<rparr>"

definition advance :: "nat \<Rightarrow> byte_reader \<Rightarrow> byte_reader" where
  "advance k r = r\<lparr>br_done := br_done r @ take k (br_ahead r), br_ahead := drop k (br_ahead r)\<rparr>"

definition load_chunk :: "string \<Rightarrow> string list \<Rightarrow> byte_reader" where
  "load_chunk c cs = \<lparr>br_done = [], br_ahead = c, br_rest = cs\<rparr>"

text \<open>One step of \<open>yield_all\<close>.\<close>

definition yield_ahead :: "byte_reader \<Rightarrow> string \<times> byte_reader" where
  "yield_ahead r = (let k = min (length (br_ahead r)) CHUNK_SIZE in (take k (br_ahead r), advance k r))"

definition next_chunk :: "byte_reader \<Rightarrow> (string \<times> byte_reader) option" where
  "next_chunk r =
     (if br_ahead r = [] then (case br_rest r of [] \<Rightarrow> None | c # cs \<Rightarrow> Some (yield_ahead (load_chunk c cs)))
      else Some (yield_ahead r))"

function get_num :: "nat \<Rightarrow> byte_reader \<Rightarrow> zip_error + (string \<times> byte_reader)" where
  "get_num num r =
     (if num = 0 then Inr ([], r)
      else if br_ahead r = [] then (case br_rest r of [] \<Rightarrow> Inl TruncatedDataError | c # cs \<Rightarrow> get_num num (load_chunk c cs))
      else
        (let k = min num (min (length (br_ahead r)) CHUNK_SIZE)
         in try_zip (get_num (num - k) (advance k r)) (\<lambda>(b, r'). Inr (take k (br_ahead r) @ b, r'))))"
  by pat_completeness auto
termination
  by (relation "measures [\<lambda>(n, r). length (br_rest r), \<lambda>(n, r). n]") (auto simp: load_chunk_def advance_def CHUNK_SIZE_def)

declare get_num.simps [simp del]

definition return_unused :: "nat \<Rightarrow> byte_reader \<Rightarrow> byte_reader" where
  "return_unused n r =
     (let k = length (br_done r) - n in r\<lparr>br_done := take k (br_done r), br_ahead := drop k (br_done r) @ br_ahead r\<rparr>)"

section \<open>One file\<close>

text \<open>
  Stored data: chunks are taken until \<open>num\<close> bytes have been passed on, and the rest of the last one is given back. The
  result has the chunks that were yielded. Without a size (\<open>None\<close>) the first subtraction fails.
\<close>

function read_stored :: "nat option \<Rightarrow> nat \<Rightarrow> nat \<Rightarrow> byte_reader \<Rightarrow> string list \<times> (zip_error + byte_reader)" where
  "read_stored num num_decompressed num_unused r =
     (if num = Some num_decompressed then ([], Inr (return_unused num_unused r))
      else
        (case next_chunk r of
           None \<Rightarrow> ([], Inl TruncatedDataError)
         | Some (chunk, r') \<Rightarrow>
             (case num of
                None \<Rightarrow> ([], Inl NoneTypeError)
              | Some n \<Rightarrow>
                  (let to_yield = min (length chunk) (n - num_decompressed)
                   in case read_stored num (num_decompressed + to_yield) (length chunk - to_yield) r' of
                        (chunks, res) \<Rightarrow> (take to_yield chunk # chunks, res)))))"
  by pat_completeness auto
termination
  by (relation "measures [\<lambda>(n, d, u, r). length (br_rest r), \<lambda>(n, d, u, r). length (br_ahead r)]")
    (auto simp: next_chunk_def yield_ahead_def load_chunk_def advance_def CHUNK_SIZE_def Let_def split: if_splits list.splits)

declare read_stored.simps [simp del]

definition flag_bits :: "string \<Rightarrow> bool list" where
  "flag_bits flags = concat (map (\<lambda>b. map (\<lambda>i. bit (of_char b :: nat) i) [0..<8]) flags)"

function parse_extra :: "string \<Rightarrow> (string \<times> string) list" where
  "parse_extra extra =
     (if length extra < 4 then []
      else
        (let extra_data_size = le_val (take 2 (drop 2 extra))
         in (take 2 extra, take extra_data_size (drop 4 extra)) # parse_extra (drop (4 + extra_data_size) extra)))"
  by pat_completeness auto
termination by (relation "measure length") auto

declare parse_extra.simps [simp del]

definition get_extra_value ::
    "(string, string) odict \<Rightarrow> bool \<Rightarrow> string \<Rightarrow> zip_error \<Rightarrow> nat \<Rightarrow> zip_error \<Rightarrow> zip_error + string option" where
  "get_extra_value extra if_true signature if_missing min_length if_too_short =
     (if if_true
      then (case od_get extra signature of
              None \<Rightarrow> Inl if_missing
            | Some v \<Rightarrow> if length v < min_length then Inl if_too_short else Inr (Some v))
      else Inr None)"

text \<open>What the header of a file says: name, size, whether a descriptor follows, whether it is zip64, and the checksum.\<close>

record zip_header =
  zh_name :: string
  zh_size :: "nat option"
  zh_descriptor :: bool
  zh_zip64 :: bool
  zh_crc :: nat

text \<open>The fields of the fixed part, by their offsets in the format \<open><H2sHHHIIIHH\<close>.\<close>

definition field :: "nat \<Rightarrow> nat \<Rightarrow> string \<Rightarrow> nat" where
  "field start k s = le_val (take k (drop start s))"

definition uncompressed_size :: "bool \<Rightarrow> nat \<Rightarrow> bool \<Rightarrow> string option \<Rightarrow> nat \<Rightarrow> zip_error + nat option" where
  "uncompressed_size has_descriptor compression is_zip64 zip64_extra raw =
     (if has_descriptor \<and> compression \<in> {8, 9} then Inr None
      else if is_zip64 then (case zip64_extra of None \<Rightarrow> Inl NoneTypeError | Some x \<Rightarrow> Inr (Some (le_val (take 8 x))))
      else Inr (Some raw))"

definition parse_header :: "byte_reader \<Rightarrow> zip_error + (zip_header \<times> byte_reader)" where
  "parse_header r =
     try_zip (get_num 26 r) (\<lambda>(h, r1).
       let bits = flag_bits (take 2 (drop 2 h)); compression = field 4 2 h; compressed_raw = field 14 4 h; raw = field 18 4 h
       in if bits ! 4 \<or> bits ! 5 \<or> bits ! 6 \<or> bits ! 13 then Inl UnsupportedFlagsError
          else
            try_zip (get_num (field 22 2 h) r1) (\<lambda>(name, r2).
            try_zip (get_num (field 24 2 h) r2) (\<lambda>(extra_bytes, r3).
              if compression \<notin> {0, 8, 9} then Inl UnsupportedCompressionTypeError
              else
                (let has_descriptor = bits ! 3; is_zip64 = (compressed_raw = 4294967295 \<and> raw = 4294967295)
                 in try_zip (get_extra_value (od_update_all [] (parse_extra extra_bytes)) (\<not> has_descriptor \<and> is_zip64)
                         zip_64_extra_signature MissingZip64ExtraError 16 TruncatedZip64ExtraError) (\<lambda>zip64_extra.
                    try_zip (uncompressed_size has_descriptor compression is_zip64 zip64_extra raw) (\<lambda>n.
                      Inr (\<lparr>zh_name = name, zh_size = n, zh_descriptor = has_descriptor, zh_zip64 = is_zip64,
                            zh_crc = field 10 4 h\<rparr>, r3)))))))"

text \<open>The expected checksum, from the header or from the descriptor after the data.\<close>

definition crc_from_descriptor :: "bool \<Rightarrow> byte_reader \<Rightarrow> zip_error + (nat \<times> byte_reader)" where
  "crc_from_descriptor is_zip64 r =
     try_zip (get_num 4 r) (\<lambda>(optional_signature, r1).
       let so_far = (if optional_signature = ''PK'' @ [CHR 0x07, CHR 0x08] then 0 else 4)
       in try_zip (get_num ((if is_zip64 then 20 else 12) - so_far) r1) (\<lambda>(d, r2).
            Inr (le_val (take 4 (take so_far optional_signature @ d)), r2)))"

definition crc_expected :: "zip_header \<Rightarrow> byte_reader \<Rightarrow> zip_error + (nat \<times> byte_reader)" where
  "crc_expected h r = (if zh_descriptor h then crc_from_descriptor (zh_zip64 h) r else Inr (zh_crc h, r))"

text \<open>A file as its consumer gets it: the chunks, and then the exception or the reader for what follows.\<close>

definition yield_file :: "byte_reader \<Rightarrow> zip_error + (zip_header \<times> string list \<times> (zip_error + byte_reader))" where
  "yield_file r =
     try_zip (parse_header r) (\<lambda>(h, r1).
       case read_stored (zh_size h) 0 0 r1 of
         (chunks, res) \<Rightarrow>
           Inr (h, chunks,
             try_zip res (\<lambda>r2. try_zip (crc_expected h r2) (\<lambda>(crc, r3).
               if unat (crc_chunks chunks) \<noteq> crc then Inl CRC32IntegrityError else Inr r3))))"


section \<open>What a reader has left\<close>

lemma left_advance [simp]: "left_bytes (advance k r) = drop k (br_ahead r) @ concat (br_rest r)"
  by (simp add: left_bytes_def advance_def)

lemma left_load [simp]: "left_bytes (load_chunk c cs) = c @ concat cs" "br_ahead (load_chunk c cs) = c" "br_rest (load_chunk c cs) = cs"
  by (simp_all add: left_bytes_def load_chunk_def)

lemma left_return: "left_bytes (return_unused n r) = drop (length (br_done r) - n) (br_done r) @ left_bytes r"
  by (simp add: left_bytes_def return_unused_def Let_def)

lemma next_chunk_left:
  assumes "next_chunk r = Some (chunk, r')"
  shows "left_bytes r = chunk @ left_bytes r' \<and> (\<exists>p. br_done r' = p @ chunk)"
  using assms
  by (auto simp: next_chunk_def yield_ahead_def Let_def left_bytes_def advance_def load_chunk_def split: if_splits list.splits)

lemma next_chunk_none: "next_chunk r = None \<Longrightarrow> left_bytes r = []"
  by (auto simp: next_chunk_def left_bytes_def split: if_splits list.splits)

text \<open>\<open>get_num\<close> takes the next bytes, whatever the chunks are, or there are too few.\<close>

lemma get_num_left:
  "case get_num num r of
     Inl e \<Rightarrow> e = TruncatedDataError \<and> length (left_bytes r) < num
   | Inr (b, r') \<Rightarrow> num \<le> length (left_bytes r) \<and> b = take num (left_bytes r) \<and> left_bytes r' = drop num (left_bytes r)"
proof (induction num r rule: get_num.induct)
  case (1 num r)
  consider "num = 0" | "num \<noteq> 0" "br_ahead r = []" "br_rest r = []" | c cs where "num \<noteq> 0" "br_ahead r = []" "br_rest r = c # cs"
    | "num \<noteq> 0" "br_ahead r \<noteq> []"
    by (cases "br_rest r") auto
  then show ?case
  proof cases
    case 3
    then have "left_bytes (load_chunk c cs) = left_bytes r" "get_num num r = get_num num (load_chunk c cs)"
      by (simp_all add: left_bytes_def load_chunk_def get_num.simps [of num r])
    then show ?thesis using 1(1) [OF 3] by (simp only:)
  next
    case 4
    define k where "k = min num (min (length (br_ahead r)) CHUNK_SIZE)"
    have k: "k \<le> num" "k \<le> length (br_ahead r)" by (simp_all add: k_def)
    have run: "get_num num r = try_zip (get_num (num - k) (advance k r)) (\<lambda>(b, r'). Inr (take k (br_ahead r) @ b, r'))"
      using 4 by (simp add: get_num.simps [of num r] k_def Let_def)
    have "drop k (left_bytes r) = left_bytes (advance k r)" "take k (left_bytes r) = take k (br_ahead r)"
      using k(2) by (simp_all add: left_bytes_def advance_def)
    moreover have "left_bytes r = take k (left_bytes r) @ drop k (left_bytes r)" by simp
    ultimately have split: "left_bytes r = take k (br_ahead r) @ left_bytes (advance k r)" by simp
    have len: "length (take k (br_ahead r)) = k" using k(2) by simp
    show ?thesis
      using 1(2) [OF 4 refl, folded k_def] k len unfolding run split
      by (auto split: sum.splits simp: less_diff_conv)
  qed (simp_all add: get_num.simps [of _ r] left_bytes_def)
qed

lemma get_num_ok:
  assumes "left_bytes r = a @ b" and "length a = num"
  obtains r' where "get_num num r = Inr (a, r')" and "left_bytes r' = b"
  using get_num_left [where num = num and r = r] assms by (auto split: sum.splits)

lemma get_num_shorter: "get_num num r = Inr (b, r') \<Longrightarrow> length (left_bytes r') + num = length (left_bytes r)"
  using get_num_left [where num = num and r = r] by (auto split: sum.splits)

text \<open>Stored data: the next bytes, however the chunks fall; what is given back was read from the last one.\<close>


lemma read_stored_ok:
  assumes "d \<le> n" and "left_bytes (return_unused u r) = a @ b" and "length a = n - d" and "u = 0 \<or> n = d"
  shows "\<exists>chunks r'. read_stored (Some n) d u r = (chunks, Inr r') \<and> concat chunks = a \<and> left_bytes r' = b"
  using assms
proof (induction "Some n" d u r arbitrary: a rule: read_stored.induct)
  case (1 d u r)
  show ?case
  proof (cases "n = d")
    case True
    then show ?thesis using 1(3,4) by (simp add: read_stored.simps [of "Some d" d u r])
  next
    case False
    then have l: "left_bytes r = a @ b" "a \<noteq> []" using 1(2-5) by (auto simp: left_return)
    then obtain chunk r' where c: "next_chunk r = Some (chunk, r')" using next_chunk_none [of r] by (cases "next_chunk r") auto
    obtain p where p: "left_bytes r = chunk @ left_bytes r'" "br_done r' = p @ chunk" using next_chunk_left [OF c] by blast
    define k where "k = min (length chunk) (n - d)"
    have ret: "left_bytes (return_unused (length chunk - k) r') = drop k chunk @ left_bytes r'"
      by (simp add: left_return p(2) k_def min_def)
    have whole: "chunk @ left_bytes r' = a @ b" using p(1) l(1) by simp
    have "take k (chunk @ left_bytes r') = take k (a @ b)" "drop k (chunk @ left_bytes r') = drop k (a @ b)"
      by (simp_all only: whole)
    then have a: "take k chunk = take k a" "drop k chunk @ left_bytes r' = drop k a @ b"
      using 1(4) by (simp_all add: k_def)
    have "d + k \<le> n" "length (drop k a) = n - (d + k)" "length chunk - k = 0 \<or> n = d + k" using 1(2,4) by (auto simp: k_def)
    then obtain chunks r2 where ih: "read_stored (Some n) (d + k) (length chunk - k) r' = (chunks, Inr r2)" "concat chunks = drop k a" "left_bytes r2 = b"
      using 1(1) [OF _ c refl refl k_def, of "drop k a"] False ret a(2) by (metis option.inject)
    then have "read_stored (Some n) d u r = (take k chunk # chunks, Inr r2)"
      using False c by (simp add: read_stored.simps [of "Some n" d u r] k_def Let_def)
    then show ?thesis using ih(2,3) a(1) by simp
  qed
qed

lemma read_stored_shorter:
  "read_stored num d u r = (chunks, Inr r') \<Longrightarrow> length (left_bytes r') \<le> length (left_bytes (return_unused u r)) \<or> length (left_bytes r') \<le> length (left_bytes r)"
proof (induction num d u r arbitrary: chunks rule: read_stored.induct)
  case (1 num d u r)
  show ?case
  proof (cases "num = Some d")
    case True
    then show ?thesis using 1(2) by (simp add: read_stored.simps [of "Some d" d u r])
  next
    case False
    obtain chunk r1 n chunks' where c: "next_chunk r = Some (chunk, r1)" "num = Some n"
      and run: "read_stored num (d + min (length chunk) (n - d)) (length chunk - min (length chunk) (n - d)) r1 = (chunks', Inr r')"
      using 1(2) False by (auto simp: read_stored.simps [of num d u r] Let_def split: option.splits prod.splits)
    obtain p where p: "left_bytes r = chunk @ left_bytes r1" "br_done r1 = p @ chunk" using next_chunk_left [OF c(1)] by blast
    from 1(1) [OF False c(1) refl c(2) refl run] show ?thesis using p by (auto simp: left_return min_def split: if_splits)
  qed
qed


lemma read_from_start_shorter:
  "read_stored num d 0 r = (chunks, Inr r') \<Longrightarrow> length (left_bytes r') \<le> length (left_bytes r)"
  using read_stored_shorter [of num d 0 r] by (auto simp: left_return)

lemma parse_header_shorter: "parse_header r = Inr (h, r') \<Longrightarrow> length (left_bytes r') \<le> length (left_bytes r)"
  by (auto simp: parse_header_def Let_def try_zip_Inr split: if_splits dest!: get_num_shorter)

lemma crc_expected_shorter: "crc_expected h r = Inr (c, r') \<Longrightarrow> length (left_bytes r') \<le> length (left_bytes r)"
  by (auto simp: crc_expected_def crc_from_descriptor_def Let_def try_zip_Inr split: if_splits dest!: get_num_shorter)

lemma yield_file_shorter:
  assumes "yield_file r = Inr (h, chunks, Inr r')"
  shows "length (left_bytes r') \<le> length (left_bytes r)"
proof -
  obtain h1 r1 where h: "parse_header r = Inr (h1, r1)" using assms by (auto simp: yield_file_def try_zip_Inr)
  obtain chunks1 res where s: "read_stored (zh_size h1) 0 0 r1 = (chunks1, res)" by fastforce
  from assms h s obtain r2 c where "res = Inr r2" "crc_expected h1 r2 = Inr (c, r')"
    by (auto simp: yield_file_def try_zip_Inr split: if_splits)
  with s parse_header_shorter [OF h] read_from_start_shorter crc_expected_shorter show ?thesis by (metis order_trans)
qed

section \<open>All files\<close>

text \<open>
  \<open>all\<close> and the loop around it: the files in order, each with the bytes its consumer got, and the exception that ended
  the reading. The last file may be cut short by it. After the start of the central directory everything is skipped.
\<close>

function unzip_all :: "byte_reader \<Rightarrow> (string \<times> string) list \<times> zip_error option" where
  "unzip_all r =
     (case get_num 4 r of
        Inl e \<Rightarrow> ([], Some e)
      | Inr (signature, r1) \<Rightarrow>
          (if signature = local_header_signature
           then (case yield_file r1 of
                   Inl e \<Rightarrow> ([], Some e)
                 | Inr (h, chunks, Inl e) \<Rightarrow> ([(zh_name h, concat chunks)], Some e)
                 | Inr (h, chunks, Inr r2) \<Rightarrow> (case unzip_all r2 of (files, err) \<Rightarrow> ((zh_name h, concat chunks) # files, err)))
           else if signature = central_directory_header_signature then ([], None)
           else ([], Some UnexpectedSignatureError)))"
  by pat_completeness auto
termination
  by (relation "measure (\<lambda>r. length (left_bytes r))") (auto dest!: get_num_shorter yield_file_shorter)

declare unzip_all.simps [simp del]

definition stream_unzip :: "string list \<Rightarrow> (string \<times> string) list \<times> zip_error option" where
  "stream_unzip zipfile_chunks = unzip_all (get_byte_readers zipfile_chunks)"

section \<open>Reading what was written\<close>

lemma buffered_data_ok:
  "buffered_data chunks n crc m = Inr (k, c) \<Longrightarrow> n \<le> m \<Longrightarrow>
   k = n + length (concat chunks) \<and> k \<le> m \<and> c = fold crc32 chunks crc"
  by (induction chunks n crc m rule: buffered_data.induct) (auto simp: try_zip_Inr)

lemma flags_utf8: "flag_bits [CHR 0x00, CHR 0x08] = replicate 11 False @ [True] @ replicate 4 False"
  by code_simp

lemma extra_parsed:
  assumes "n < 2 ^ 64"
  shows "od_get (od_update_all [] (parse_extra (zip_64_local_extra n))) zip_64_extra_signature = Some (le 8 n @ le 8 n)"
proof -
  have sixteen: "le 2 16 = [CHR 0x10, CHR 0x00]" by code_simp
  then have "parse_extra (zip_64_local_extra n) = [(zip_64_extra_signature, le 8 n @ le 8 n)]"
    by (subst parse_extra.simps) (simp add: parse_extra.simps [of "[]"] zip_64_local_extra_def zip_64_extra_signature_def Let_def)
  then show ?thesis by (simp add: od_update_all_def od_simps)
qed


text \<open>Every part of a local header has its length, so the fields are read where they were put.\<close>

lemma mod_at_length: "mod_at_encoded d = Inr m \<Longrightarrow> length m = 4"
  by (auto simp: mod_at_encoded_def split: if_splits)

lemma local_header_fields:
  assumes "length m = 4" and "crc < 2 ^ 32" and "length name < 2 ^ 16" and "length extra < 2 ^ 16"
  shows "length (local_header m crc name extra) = 26" "take 2 (drop 2 (local_header m crc name extra)) = [CHR 0x00, CHR 0x08]"
    "field 4 2 (local_header m crc name extra) = 0" "field 10 4 (local_header m crc name extra) = crc"
    "field 14 4 (local_header m crc name extra) = 4294967295" "field 18 4 (local_header m crc name extra) = 4294967295"
    "field 22 2 (local_header m crc name extra) = length name" "field 24 2 (local_header m crc name extra) = length extra"
  using assms by (simp_all add: local_header_def field_def)

lemma parse_header_ok:
  assumes "left_bytes r = local_header m crc name (zip_64_local_extra n) @ name @ zip_64_local_extra n @ rest"
    and "length m = 4" and "crc < 2 ^ 32" and "length name < 2 ^ 16" and "n < 2 ^ 64"
  shows "\<exists>r'. parse_header r = Inr (\<lparr>zh_name = name, zh_size = Some n, zh_descriptor = False, zh_zip64 = True, zh_crc = crc\<rparr>, r')
    \<and> left_bytes r' = rest"
proof -
  let ?x = "zip_64_local_extra n" and ?h = "local_header m crc name (zip_64_local_extra n)"
  have xlen: "length ?x = 20" by (simp add: zip_64_local_extra_def zip_64_extra_signature_def)
  note f = local_header_fields [OF assms(2-4), of ?x, unfolded xlen, simplified]
  obtain r1 where r1: "get_num 26 r = Inr (?h, r1)" "left_bytes r1 = name @ ?x @ rest"
    using get_num_ok [OF assms(1)] f(1) by blast
  obtain r2 where r2: "get_num (length name) r1 = Inr (name, r2)" "left_bytes r2 = ?x @ rest" using get_num_ok [OF r1(2)] by blast
  obtain r3 where r3: "get_num 20 r2 = Inr (?x, r3)" "left_bytes r3 = rest" using get_num_ok [OF r2(2)] xlen by blast
  have "parse_header r = Inr (\<lparr>zh_name = name, zh_size = Some n, zh_descriptor = False, zh_zip64 = True, zh_crc = crc\<rparr>, r3)"
    using extra_parsed [OF assms(5)] assms(5)
    by (simp add: parse_header_def r1(1) Let_def f r2(1) r3(1) flags_utf8 nth_append get_extra_value_def uncompressed_size_def)
  with r3(2) show ?thesis by blast
qed

lemma yield_file_ok:
  assumes "left_bytes r = local_header m (unat (crc32 content 0)) name (zip_64_local_extra (length content)) @ name
      @ zip_64_local_extra (length content) @ content @ rest"
    and "length m = 4" and "length name < 2 ^ 16" and "length content < 2 ^ 64"
  shows "\<exists>h chunks r'. yield_file r = Inr (h, chunks, Inr r') \<and> zh_name h = name \<and> concat chunks = content \<and> left_bytes r' = rest"
proof -
  have "unat (crc32 content 0) < 2 ^ 32" using unsigned_less [of "crc32 content 0", where ?'a = nat] by simp
  from parse_header_ok [OF assms(1,2) this assms(3,4)]
  obtain r1 where r1: "parse_header r = Inr (\<lparr>zh_name = name, zh_size = Some (length content), zh_descriptor = False,
      zh_zip64 = True, zh_crc = unat (crc32 content 0)\<rparr>, r1)" "left_bytes r1 = content @ rest"
    by blast
  have "left_bytes (return_unused 0 r1) = content @ rest" using r1(2) by (simp add: left_return)
  from read_stored_ok [OF _ this, of 0 "length content"]
  obtain chunks r2 where s: "read_stored (Some (length content)) 0 0 r1 = (chunks, Inr r2)" "concat chunks = content" "left_bytes r2 = rest"
    by auto
  then show ?thesis by (simp add: yield_file_def r1(1) crc_expected_def crc_chunks_concat)
qed

text \<open>The entries written one after the other, then anything that starts a central directory.\<close>

lemma zip_entry_ok:
  assumes "zip_entry offset f = Inr (bytes, c)"
  shows "\<exists>m. let name = utf8 (zf_name f); content = concat (zf_content f); extra = zip_64_local_extra (length content)
    in length m = 4 \<and> length name < 2 ^ 16 \<and> length content < 2 ^ 64
      \<and> bytes = local_header_signature @ local_header m (unat (crc32 content 0)) name extra @ name @ extra @ content"
proof -
  let ?chunks = "evenly_sized CHUNK_SIZE [] (zf_content f)" and ?name = "utf8 (zf_name f)" and ?content = "concat (zf_content f)"
  have chunks: "concat ?chunks = ?content"
    by (simp add: evenly_sized_chop concat_chop CHUNK_SIZE_def)
  have crc: "fold crc32 ?chunks (crc32 [] 0) = crc32 ?content 0"
    using crc_chunks_concat [of ?chunks] by (simp add: crc_chunks_def chunks)
  obtain m n crc where a: "length ?name \<le> 0xFFFF" "mod_at_encoded (zf_modified f) = Inr m"
    "buffered_data ?chunks 0 (crc32 [] 0) 0xFFFFFFFFFFFFFFFF = Inr (n, crc)"
    "bytes = local_header_signature @ local_header m (unat crc) ?name (zip_64_local_extra n) @ ?name @ zip_64_local_extra n @ ?content"
    using assms chunks by (auto simp: zip_entry_def no_compression_64_def try_zip_Inr Let_def)
  have "n = length ?content" "n \<le> 0xFFFFFFFFFFFFFFFF" "crc = crc32 ?content 0"
    using buffered_data_ok [OF a(3)] by (simp_all add: chunks crc)
  with a(1,4) mod_at_length [OF a(2)] show ?thesis by (auto simp: Let_def)
qed

lemma signature_lengths: "length local_header_signature = 4" "length central_directory_header_signature = 4"
  by (simp_all add: local_header_signature_def central_directory_header_signature_def)

lemma unzip_entries:
  assumes "zip_entries offset files = (body, cs, None)" and "left_bytes r = body @ central_directory_header_signature @ rest"
  shows "unzip_all r = (map (\<lambda>f. (utf8 (zf_name f), concat (zf_content f))) files, None)"
  using assms
proof (induction offset files arbitrary: body cs r rule: zip_entries.induct)
  case (1 offset)
  then have "left_bytes r = central_directory_header_signature @ rest" by simp
  from get_num_ok [OF this signature_lengths(2)] obtain r' where "get_num 4 r = Inr (central_directory_header_signature, r')"
    by blast
  then show ?case
    by (simp add: unzip_all.simps [of r] local_header_signature_def central_directory_header_signature_def)
next
  case (2 offset f fs)
  obtain bytes c where e: "zip_entry offset f = Inr (bytes, c)" using 2(2) by (cases "zip_entry offset f") auto
  then obtain later cs' where l: "zip_entries (offset + length bytes) fs = (later, cs', None)" "body = bytes @ later"
    using 2(2) by (auto split: prod.splits)
  let ?n = "utf8 (zf_name f)" and ?b = "concat (zf_content f)"
  obtain m where m: "length m = 4" "length ?n < 2 ^ 16" "length ?b < 2 ^ 64"
    "bytes = local_header_signature @ local_header m (unat (crc32 ?b 0)) ?n (zip_64_local_extra (length ?b)) @ ?n
       @ zip_64_local_extra (length ?b) @ ?b"
    using zip_entry_ok [OF e] by (auto simp: Let_def)
  have "left_bytes r = local_header_signature @ local_header m (unat (crc32 ?b 0)) ?n (zip_64_local_extra (length ?b)) @ ?n
       @ zip_64_local_extra (length ?b) @ ?b @ later @ central_directory_header_signature @ rest"
    using 2(3) l(2) m(4) by simp
  from get_num_ok [OF this signature_lengths(1)] obtain r1 where r1: "get_num 4 r = Inr (local_header_signature, r1)"
    "left_bytes r1 = local_header m (unat (crc32 ?b 0)) ?n (zip_64_local_extra (length ?b)) @ ?n
       @ zip_64_local_extra (length ?b) @ ?b @ later @ central_directory_header_signature @ rest"
    by blast
  from yield_file_ok [OF r1(2) m(1-3)] obtain h chunks r2 where
    y: "yield_file r1 = Inr (h, chunks, Inr r2)" "zh_name h = ?n" "concat chunks = ?b"
      "left_bytes r2 = later @ central_directory_header_signature @ rest"
    by blast
  from 2(1) [OF e refl l(1) y(4)] show ?case by (simp add: unzip_all.simps [of r] r1(1) y)
qed

end
