(* ===== verification/ZipProps.thy ===== *)
theory ZipProps
  imports Unzip
begin

text \<open>
  The writer and the reader of archives together: when an archive can be written, and that it is read back.
\<close>

section \<open>When an archive can be written\<close>

definition entry_size :: "zip_file \<Rightarrow> nat" where
  "entry_size f = 50 + length (utf8 (zf_name f)) + length (concat (zf_content f))"

definition central_size :: "zip_file \<Rightarrow> nat" where
  "central_size f = 74 + length (utf8 (zf_name f))"

text \<open>The offset where the central directory ends.\<close>

definition zip_size :: "zip_file list \<Rightarrow> nat" where
  "zip_size files = sum_list (map entry_size files) + sum_list (map central_size files)"

definition zip_file_ok :: "zip_file \<Rightarrow> bool" where
  "zip_file_ok f \<longleftrightarrow> length (utf8 (zf_name f)) \<le> 0xFFFF \<and> \<not> isl (mod_at_encoded (zf_modified f))"

lemma buffered_data_fits:
  "n + length (concat chunks) \<le> m \<Longrightarrow> buffered_data chunks n crc m = Inr (n + length (concat chunks), fold crc32 chunks crc)"
  by (induction chunks n crc m rule: buffered_data.induct) (simp_all add: raise_if_beyond_def add.assoc)

lemma even_content [simp]: "concat (evenly_sized CHUNK_SIZE [] (zf_content f)) = concat (zf_content f)"
  by (simp add: evenly_sized_chop concat_chop CHUNK_SIZE_def)

definition directory_entry_size :: "string \<times> string \<times> string \<Rightarrow> nat" where
  "directory_entry_size c = (case c of (header, name, extra) \<Rightarrow> 4 + length header + length name + length extra)"

lemma zip_entry_sizes:
  assumes "zip_entry offset f = Inr (bytes, c)"
  shows "zip_file_ok f \<and> length bytes = entry_size f \<and> directory_entry_size c = central_size f \<and> length (concat (zf_content f)) < 2 ^ 64"
proof -
  obtain m n crc where a: "length (utf8 (zf_name f)) \<le> 0xFFFF" "mod_at_encoded (zf_modified f) = Inr m"
    "buffered_data (evenly_sized CHUNK_SIZE [] (zf_content f)) 0 (crc32 [] 0) 0xFFFFFFFFFFFFFFFF = Inr (n, crc)"
    and b: "bytes = local_header_signature @ local_header m (unat crc) (utf8 (zf_name f)) (zip_64_local_extra n) @ utf8 (zf_name f)
      @ zip_64_local_extra n @ concat (zf_content f)"
    and c: "\<exists>attr. c = (central_header m (unat crc) (utf8 (zf_name f)) (zip_64_central_extra n offset) attr, utf8 (zf_name f), zip_64_central_extra n offset)"
    using assms by (auto simp: zip_entry_def no_compression_64_def try_zip_Inr Let_def)
  have "length (concat (zf_content f)) \<le> 0xFFFFFFFFFFFFFFFF" using buffered_data_ok [OF a(3)] by simp
  moreover have "zip_file_ok f" using a(1,2) by (simp add: zip_file_ok_def)
  moreover have "length bytes = entry_size f"
    using mod_at_length [OF a(2)]
    by (simp add: b entry_size_def local_header_def zip_64_local_extra_def zip_64_extra_signature_def local_header_signature_def)
  moreover have "directory_entry_size c = central_size f"
    using c mod_at_length [OF a(2)]
    by (auto simp: directory_entry_size_def central_size_def central_header_def zip_64_central_extra_def zip_64_extra_signature_def)
  ultimately show ?thesis by simp
qed

lemma zip_entry_fits:
  assumes "zip_file_ok f" and "offset < 2 ^ 64" and "length (concat (zf_content f)) < 2 ^ 64"
  shows "\<exists>bytes c. zip_entry offset f = Inr (bytes, c)"
proof -
  obtain m where "mod_at_encoded (zf_modified f) = Inr m" using assms(1) by (cases "mod_at_encoded (zf_modified f)") (auto simp: zip_file_ok_def)
  with assms show ?thesis
    using buffered_data_fits [where n = 0 and chunks = "evenly_sized CHUNK_SIZE [] (zf_content f)" and m = "0xFFFFFFFFFFFFFFFF"]
    by (simp add: zip_entry_def no_compression_64_def zip_file_ok_def raise_if_beyond_def Let_def)
qed

lemma zip_entries_sizes:
  "zip_entries offset files = (body, cs, None) \<Longrightarrow>
   (\<forall>f \<in> set files. zip_file_ok f) \<and> length body = sum_list (map entry_size files) \<and> length cs = length files
     \<and> map directory_entry_size cs = map central_size files"
proof (induction offset files arbitrary: body cs rule: zip_entries.induct)
  case (2 offset f fs)
  from 2(2) obtain bytes c where e: "zip_entry offset f = Inr (bytes, c)" by (cases "zip_entry offset f") auto
  with 2(2) obtain later cs' where l: "zip_entries (offset + length bytes) fs = (later, cs', None)" "body = bytes @ later" "cs = c # cs'"
    by (auto split: prod.splits)
  from 2(1) [OF e refl l(1)] zip_entry_sizes [OF e] l(2,3) show ?case by simp
qed simp

lemma zip_entries_fit:
  "\<forall>f \<in> set files. zip_file_ok f \<Longrightarrow> offset + sum_list (map entry_size files) < 2 ^ 64 \<Longrightarrow> \<exists>body cs. zip_entries offset files = (body, cs, None)"
proof (induction offset files rule: zip_entries.induct)
  case (2 offset f fs)
  have "offset < 2 ^ 64" "length (concat (zf_content f)) < 2 ^ 64" using 2(3) by (simp_all add: entry_size_def)
  then obtain bytes c where e: "zip_entry offset f = Inr (bytes, c)" using zip_entry_fits 2(2) by (metis list.set_intros(1))
  have "offset + length bytes + sum_list (map entry_size fs) < 2 ^ 64" using 2(3) zip_entry_sizes [OF e] by simp
  from 2(1) [OF e refl _ this] 2(2) e show ?case by auto
qed simp

lemma zip_central_iff:
  assumes "start \<le> offset"
  shows "snd (zip_central start offset 0xFFFFFFFFFFFFFFFF cs) = None \<longleftrightarrow> cs = [] \<or> offset + sum_list (map directory_entry_size cs) < 2 ^ 64"
  using assms
proof (induction start offset "0xFFFFFFFFFFFFFFFF :: nat" cs rule: zip_central.induct)
  case (2 start offset header name extra cs)
  let ?n = "directory_entry_size (header, name, extra)"
  have len: "length (central_directory_header_signature @ header @ name @ extra) = ?n"
    by (simp add: directory_entry_size_def signature_lengths)
  show ?case
    using 2(1) [OF refl _ _ , unfolded len] 2(2) len by (auto simp: Let_def split: prod.splits)
qed simp

lemma files_fit: "length files \<le> sum_list (map entry_size files)"
  by (induction files) (simp_all add: entry_size_def)

text \<open>Every check that can fail is passed exactly under these bounds.\<close>

lemma zip_succeeds_iff:
  "snd (stream_zip files) = None \<longleftrightarrow> (\<forall>f \<in> set files. zip_file_ok f) \<and> zip_size files < 2 ^ 64"
proof -
  have err: "snd (stream_zip files) = snd (zip_bytes files)" by (simp add: stream_zip_def Let_def split: prod.splits)
  obtain body cs e where z: "zip_entries 0 files = (body, cs, e)" using prod_cases3 by blast
  show ?thesis
  proof (cases e)
    case (Some x)
    then show ?thesis using err z zip_entries_fit [of files 0] by (auto simp: zip_bytes_def zip_size_def)
  next
    case None
    note s = zip_entries_sizes [OF z [unfolded None]]
    let ?zip64 = "files \<noteq> []"
    have cs: "cs = [] \<longleftrightarrow> files = []" "sum_list (map directory_entry_size cs) = sum_list (map central_size files)" using s by auto
    show ?thesis
    proof (cases "files = []")
      case True
      then show ?thesis unfolding err by (simp add: zip_bytes_def zip_size_def)
    next
      case False
      then show ?thesis
        using s cs zip_central_iff [of "length body" "length body" cs] z None files_fit [of files]
        by (auto simp: err zip_bytes_def zip_size_def Let_def split: prod.splits option.splits)
    qed
  qed
qed

text \<open>
  C40 (bounds). An archive of files is written without an exception exactly when every name has at most 65535 bytes, every time is
  between 1980 and what 16 bits can say, and all entries with the central directory together stay below \<open>2 ^ 64\<close>
  bytes.
\<close>
theorem stream_zip_succeeds:
  "snd (stream_zip files) = None \<longleftrightarrow> list_all zip_file_ok files \<and> zip_size files < 2 ^ 64"
  by (simp add: zip_succeeds_iff list_all_iff)

section \<open>Reading back\<close>

text \<open>
  C24 (roundtrip). What \<open>stream_zip\<close> writes for a list of files, \<open>stream_unzip\<close> reads back, however the bytes are cut into chunks: the
  same names (in UTF-8) with the same contents in the same order, every length and checksum agreeing. Only the archive
  of no file at all is refused: it has no central directory, which the reader looks for.
\<close>
theorem stream_zip_unzip:
  assumes "stream_zip files = (blocks, None)" and "concat chunks = concat blocks"
  shows "stream_unzip chunks =
    (if files = [] then ([], Some UnexpectedSignatureError)
     else (map (\<lambda>f. (utf8 (zf_name f), concat (zf_content f))) files, None))"
proof -
  have bytes: "zip_bytes files = (concat chunks, None)"
    using assms by (auto simp: stream_zip_def Let_def evenly_sized_chop concat_chop CHUNK_SIZE_def split: prod.splits if_splits)
  have left: "left_bytes (get_byte_readers chunks) = concat chunks" by (simp add: left_bytes_def get_byte_readers_def)
  obtain body cs where z: "zip_entries 0 files = (body, cs, None)"
    using bytes by (auto simp: zip_bytes_def split: prod.splits option.splits)
  show ?thesis
  proof (cases files)
    case Nil
    have four: "length (''PK'' @ [CHR 0x05, CHR 0x06]) = 4" by simp
    have "\<exists>rest. left_bytes (get_byte_readers chunks) = (''PK'' @ [CHR 0x05, CHR 0x06]) @ rest"
      using bytes unfolding left Nil by (simp add: zip_bytes_def zip_32_end_def) metis
    then obtain r where "get_num 4 (get_byte_readers chunks) = Inr (''PK'' @ [CHR 0x05, CHR 0x06], r)"
      using get_num_ok [OF _ four] by metis
    then show ?thesis
      by (simp add: Nil stream_unzip_def unzip_all.simps [of "get_byte_readers chunks"] local_header_signature_def central_directory_header_signature_def)
  next
    case (Cons f fs)
    then obtain c cs' where cs: "cs = c # cs'" using zip_entries_sizes [OF z] by (cases cs) auto
    then have "\<exists>rest. body @ central_directory_header_signature @ rest = concat chunks"
      using bytes z Cons by (cases c) (force simp: zip_bytes_def Let_def split: prod.splits option.splits if_splits)
    then obtain rest where "concat chunks = body @ central_directory_header_signature @ rest" by metis
    with left have "left_bytes (get_byte_readers chunks) = body @ central_directory_header_signature @ rest" by simp
    from unzip_entries [OF z this] Cons show ?thesis by (simp add: stream_unzip_def)
  qed
qed


definition small_file :: zip_file where
  "small_file = \<lparr>zf_name = ''a'', zf_modified = \<lparr>dt_year = 2023, dt_month = 5, dt_day = 1, dt_hour = 12, dt_minute = 30, dt_second = 10\<rparr>,
     zf_perms = 420, zf_content = [''hi'']\<rparr>"

lemma small_file_ok: "zip_file_ok small_file"
proof -
  have "dos_time (zf_modified small_file) = 25541" "dos_date (zf_modified small_file) = 22177"
    by (simp_all add: small_file_def dos_time_def dos_date_def push_bit_eq_mult)
  then have "mod_at_encoded (zf_modified small_file) = Inr (le 2 25541 @ le 2 22177)"
    by (simp add: mod_at_encoded_def) (simp add: small_file_def)
  moreover have "utf8 ''a'' = ''a''" by code_simp
  ultimately show ?thesis by (simp add: zip_file_ok_def small_file_def)
qed

theorem stream_zip_unzip_witness:
  "\<exists>blocks. stream_zip [small_file] = (blocks, None) \<and> stream_unzip blocks = ([(''a'', ''hi'')], None)"
proof -
  have a: "utf8 ''a'' = ''a''" by code_simp
  have "snd (stream_zip [small_file]) = None"
    using small_file_ok a by (simp add: zip_succeeds_iff zip_size_def entry_size_def central_size_def) (simp add: small_file_def)
  then obtain blocks where "stream_zip [small_file] = (blocks, None)" by (cases "stream_zip [small_file]") auto
  with stream_zip_unzip [OF this refl] a show ?thesis by (auto simp: small_file_def)
qed

end
