(* ===== verification/Archives.thy ===== *)
theory Archives
  imports FileTree ZipProps
begin

text \<open>
  The archives of \<^verbatim>\<open>pysrc/pipeman/file.py\<close> with the zip modules the code uses: the archiver that FileUtils takes as an argument
  is \<open>stream_archiver\<close>. Packing a folder and unpacking the archive elsewhere copies all its files.
\<close>

section \<open>The archiver of the code\<close>

text \<open>What the operating system tells about an entry: the time at a reading of the clock, and the mode of a file.\<close>

record zip_env =
  ze_now :: "nat \<Rightarrow> datetime"
  ze_mode :: "string \<Rightarrow> nat"

definition iter_metadata :: "zip_env \<Rightarrow> nat \<Rightarrow> string \<times> string \<Rightarrow> zip_file" where
  "iter_metadata E now e =
     \<lparr>zf_name = fst e, zf_modified = ze_now E now, zf_perms = word_of_nat (ze_mode E (fst e)), zf_content = byte_lines (snd e)\<rparr>"

definition iterate_binary :: "string \<Rightarrow> string list" where
  "iterate_binary content = read_chunks 65536 content"

text \<open>All exceptions of the zip modules are subclasses of \<open>ValueError\<close>; \<open>struct.error\<close> is of its own kind.\<close>

fun zip_py_error :: "zip_error \<Rightarrow> py_error" where
  "zip_py_error StructError = GenericException"
| "zip_py_error NoneTypeError = TypeError"
| "zip_py_error e = ValueError"

text \<open>Names are decoded when their file is reached.\<close>

fun decode_names :: "(string \<times> string) list \<Rightarrow> py_error option \<Rightarrow> (string \<times> string) list \<times> py_error option" where
  "decode_names [] err = ([], err)"
| "decode_names ((name, content) # files) err =
     (case utf8_decode name of
        None \<Rightarrow> ([], Some ValueError)
      | Some s \<Rightarrow> (case decode_names files err of (entries, e) \<Rightarrow> ((s, content) # entries, e)))"

definition stream_archiver :: "zip_env \<Rightarrow> archiver" where
  "stream_archiver E =
     \<lparr>az_zip = (\<lambda>clock entries. case stream_zip (map (\<lambda>(i, e). iter_metadata E i e) (enumerate clock entries)) of
                 (blocks, err) \<Rightarrow> (concat blocks, map_option zip_py_error err)),
      az_unzip = (\<lambda>content. case stream_unzip (iterate_binary content) of
                 (files, err) \<Rightarrow> decode_names files (map_option zip_py_error err))\<rparr>"

text \<open>The archiver reads what it wrote, unless nothing was put into the archive.\<close>

lemma decode_utf8_names: "decode_names (map (\<lambda>e. (utf8 (fst e), snd e)) entries) err = (entries, err)"
  by (induction entries) simp_all

lemma stream_archiver_reads:
  assumes "az_zip (stream_archiver E) clock entries = (bytes, None)"
  shows "az_unzip (stream_archiver E) bytes = (if entries = [] then ([], Some ValueError) else (entries, None))"
proof -
  let ?files = "map (\<lambda>(i, e). iter_metadata E i e) (enumerate clock entries)"
  obtain blocks where b: "stream_zip ?files = (blocks, None)" "bytes = concat blocks"
    using assms by (auto simp: stream_archiver_def split: prod.splits)
  have "concat (iterate_binary bytes) = concat blocks" using b(2) by (simp add: iterate_binary_def concat_read_chunks)
  note read = stream_zip_unzip [OF b(1) this]
  have "map (\<lambda>f. (utf8 (zf_name f), concat (zf_content f))) ?files = map (\<lambda>(i, e). (utf8 (fst e), snd e)) (enumerate clock entries)"
    by (simp add: iter_metadata_def case_prod_unfold)
  also have "\<dots> = map (\<lambda>e. (utf8 (fst e), snd e)) (map snd (enumerate clock entries))"
    by (simp only: map_map comp_def case_prod_unfold)
  finally have files: "map (\<lambda>f. (utf8 (zf_name f), concat (zf_content f))) ?files = map (\<lambda>e. (utf8 (fst e), snd e)) entries" by simp
  have "?files = [] \<longleftrightarrow> entries = []" by (metis length_0_conv length_enumerate length_map)
  then show ?thesis using read files by (simp add: stream_archiver_def decode_utf8_names)
qed

section \<open>Absolute paths\<close>

lemma resolve_absolute: "starts_with ''/'' p \<Longrightarrow> resolve v p = resolve w p"
  by (simp add: resolve_def path_of_def)

lemma cwd_text_absolute [simp]: "starts_with ''/'' (cwd_text p)" "cwd_text p \<noteq> []"
  by (simp_all add: cwd_text_def starts_with_slash)

lemma str_split_empty [simp]: "str_split ''/'' [] = [[]]"
  by (simp add: str_split_last)

lemma plain_first_no_slash:
  assumes "\<forall>c \<in> set p. plain_name c"
  shows "\<not> starts_with ''/'' (str_join ''/'' p)"
proof (cases p)
  case (Cons c cs)
  then obtain x r where "c = x # r" "x \<noteq> CHR ''/''" using assms by (cases c) (auto simp: plain_name_def)
  then show ?thesis using Cons by (cases cs) (simp_all add: starts_with_slash)
qed (simp add: starts_with_slash)

lemma resolve_cwd_text [simp]:
  assumes "\<forall>c \<in> set p. plain_name c"
  shows "resolve w (cwd_text p) = p"
proof -
  have "str_split ''/'' (cwd_text p) = [] # (if p = [] then [[]] else p)"
    using str_split_append_slash [of "[]" "str_join ''/'' p"] split_join [of "''/''" p] assms
    by (auto simp: cwd_text_def plain_name_def)
  moreover have "fold norm_step p [] = rev p" using fold_norm_plain [of p "[]"] assms by simp
  ultimately have "path_of (fw_cwd w) (cwd_text p) = p"
    unfolding path_of_def norm_components_fold by (auto simp: norm_step_def)
  then show ?thesis by (simp add: resolve_def)
qed

lemma abspath_text:
  assumes "starts_with ''/'' cwd" and "\<not> starts_with ''//'' (if starts_with ''/'' p then p else path_join cwd p)"
  shows "abspath cwd p = cwd_text (path_of cwd p)"
proof -
  define q where "q = (if starts_with ''/'' p then p else path_join cwd p)"
  have "starts_with ''/'' q" using assms(1) by (auto simp: q_def path_join_def starts_with_slash)
  then obtain r where "q = CHR ''/'' # r" by (auto simp: starts_with_slash)
  then have "normpath q = cwd_text (norm_components True (str_split ''/'' q))"
    using assms(2) unfolding q_def [symmetric] normpath_def cwd_text_def by (simp add: Let_def starts_with_def)
  then show ?thesis by (simp add: abspath_def path_of_def q_def)
qed

lemma plain_last: "plain_name c \<Longrightarrow> c \<noteq> [] \<and> last c \<noteq> CHR ''/''"
  unfolding plain_name_def using last_in_set by metis

lemma last_cwd_text:
  assumes "\<forall>c \<in> set p. plain_name c" and "p \<noteq> []"
  shows "last (cwd_text p) \<noteq> CHR ''/''"
proof -
  have "last p \<noteq> []" "last (last p) \<noteq> CHR ''/''" using assms plain_last last_in_set by blast+
  then show ?thesis using last_str_join [OF assms(2), of "''/''"] by (simp add: cwd_text_def)
qed

lemma dirname_text:
  assumes "\<forall>c \<in> set p. plain_name c" and "plain_name n"
  shows "file_dirname (cwd_text (p @ [n])) = cwd_text p"
proof (cases "p = []")
  case True
  have "dropWhile (\<lambda>c. c \<noteq> CHR ''/'') (rev n @ ''/'') = ''/''"
    using assms(2) by (subst dropWhile_append2) (auto simp: plain_name_def)
  with True show ?thesis by (simp add: file_dirname_def cwd_text_def)
next
  case False
  have join: "str_join ''/'' (p @ [n]) = str_join ''/'' p @ CHR ''/'' # n"
    using False by (induction "''/''" p rule: str_join.induct) auto
  note e = last_cwd_text [OF assms(1) False]
  from e have "cwd_text (p @ [n]) = path_join (cwd_text p) n"
    using plain_no_slash [OF assms(2)] by (simp add: path_join_def cwd_text_def join)
  with dirname_join [OF assms(2) _ e] show ?thesis by (simp add: file_dirname_def dirname_def)
qed


section \<open>The files below a folder\<close>

text \<open>The paths that joining gives, and the files that are found under them.\<close>

definition joined :: "string \<Rightarrow> string list \<Rightarrow> string" where
  "joined name q = foldl path_join name q"

lemma joined_simps [simp]: "joined n [] = n" "joined n (c # q) = joined (path_join n c) q"
  by (simp_all add: joined_def)

lemma joined_nonempty: "n \<noteq> [] \<Longrightarrow> joined n q \<noteq> []"
proof (induction q arbitrary: n)
  case (Cons c q)
  have "path_join n c \<noteq> []" using Cons.prems unfolding path_join_def starts_with_slash by auto
  with Cons.IH show ?case by simp
qed simp

lemma traverse_files:
  assumes "fs_wf w" and "nodes w p \<noteq> None"
  shows "set (traverse_directory (fw_files w) p name) = {joined name q | q b. nodes w (p @ q) = Some (File b)}"
  using assms(2)
proof (induction "fw_files w" p name rule: traverse_directory.induct)
  case (1 p name)
  show ?case
  proof (cases "nodes w p = Some Dir")
    case False
    then obtain b where b: "nodes w p = Some (File b)" using 1(2) by (metis node.exhaust not_None_eq)
    then have "nodes w (p @ q) = None" if "q \<noteq> []" for q using nodes_parents [OF assms(1), of p q] that by fastforce
    then have "nodes w (p @ q) = Some (File c) \<longleftrightarrow> q = [] \<and> c = b" for q c using b by (cases "q = []") auto
    moreover have "traverse_directory (fw_files w) p name = [name]"
      using False by (subst traverse_directory.simps) (simp add: nodes_def)
    ultimately show ?thesis by simp
  next
    case True
    have sub: "set (traverse_directory (fw_files w) (p @ [c]) (path_join name c))
        = {joined name (c # q) | q b. nodes w (p @ c # q) = Some (File b)}" if "(c, d) \<in> set (dir_entries (fw_files w) p)" for c d
    proof -
      have "nodes w (p @ [c]) \<noteq> None" using that dir_entries_iff [OF assms(1)] by auto
      from 1(1) [OF _ that refl this] True show ?thesis by (simp add: nodes_def)
    qed
    have first: "\<exists>d. (c, d) \<in> set (dir_entries (fw_files w) p)" if "nodes w (p @ c # q) = Some x" for c q x
    proof -
      have "nodes w (p @ [c]) \<noteq> None" using that nodes_parents [OF assms(1), of "p @ [c]" q] by (cases q) auto
      then show ?thesis using dir_entries_iff [OF assms(1)] by blast
    qed
    have "set (traverse_directory (fw_files w) p name)
        = (\<Union>e \<in> set (dir_entries (fw_files w) p). set (traverse_directory (fw_files w) (p @ [fst e]) (path_join name (fst e))))"
      using True by (subst traverse_directory.simps) (simp add: nodes_def case_prod_unfold)
    also have "\<dots> = {joined name (c # q) | c q b. nodes w (p @ c # q) = Some (File b)}"
    proof (intro equalityI subsetI)
      fix r
      assume "r \<in> (\<Union>e \<in> set (dir_entries (fw_files w) p). set (traverse_directory (fw_files w) (p @ [fst e]) (path_join name (fst e))))"
      then obtain c d where "(c, d) \<in> set (dir_entries (fw_files w) p)" "r \<in> set (traverse_directory (fw_files w) (p @ [c]) (path_join name c))"
        by auto
      with sub show "r \<in> {joined name (c # q) | c q b. nodes w (p @ c # q) = Some (File b)}" by blast
    next
      fix r
      assume "r \<in> {joined name (c # q) | c q b. nodes w (p @ c # q) = Some (File b)}"
      then obtain c q b where r: "r = joined name (c # q)" "nodes w (p @ c # q) = Some (File b)" by blast
      obtain d where d: "(c, d) \<in> set (dir_entries (fw_files w) p)" using first [OF r(2)] by blast
      have "r \<in> set (traverse_directory (fw_files w) (p @ [c]) (path_join name c))" unfolding sub [OF d] using r by blast
      with d show "r \<in> (\<Union>e \<in> set (dir_entries (fw_files w) p). set (traverse_directory (fw_files w) (p @ [fst e]) (path_join name (fst e))))"
        by force
    qed
    also have "\<dots> = {joined name q | q b. nodes w (p @ q) = Some (File b)}"
    proof -
      have "q \<noteq> []" if "nodes w (p @ q) = Some (File b)" for q b using that True by auto
      then show ?thesis by (auto simp del: joined_simps) (metis neq_Nil_conv)
    qed
    finally show ?thesis .
  qed
qed

text \<open>The names in an archive lead, from any working directory, to the same path below it.\<close>

definition entry_name :: "string list \<Rightarrow> string" where
  "entry_name q = ''./'' @ joined ''.'' q"

lemma resolve_joined: "\<forall>c \<in> set q. plain_name c \<Longrightarrow> n \<noteq> [] \<Longrightarrow> resolve w (joined n q) = resolve w n @ q"
  by (induction q arbitrary: n) simp_all

lemma entry_name_joined: "\<forall>c \<in> set q. plain_name c \<Longrightarrow> n \<noteq> [] \<Longrightarrow> ''./'' @ joined n q = joined (''./'' @ n) q"
proof (induction q arbitrary: n)
  case (Cons c q)
  have "''./'' @ path_join n c = path_join (''./'' @ n) c"
    using Cons.prems plain_no_slash [of c] by (auto simp: path_join_def)
  then show ?case using Cons by simp
qed simp

lemma resolve_dot:
  assumes "\<forall>c \<in> set d. plain_name c" and "fw_cwd w = cwd_text d"
  shows "resolve w ''.'' = d" and "resolve w ''./.'' = d"
proof -
  have split: "str_split ''/'' (path_join (cwd_text d) x) = [] # (if d = [] then [] else d) @ str_split ''/'' x" if "\<not> starts_with ''/'' x" for x
  proof (cases "d = []")
    case True
    then show ?thesis using that str_split_append_slash [of "[]" x] by (simp add: path_join_def cwd_text_def)
  next
    case False
    have "path_join (cwd_text d) x = [] @ CHR ''/'' # (str_join ''/'' d @ CHR ''/'' # x)"
      using that last_cwd_text [OF assms(1) False] by (simp add: path_join_def cwd_text_def)
    moreover have "str_split ''/'' (str_join ''/'' d) = d" using assms(1) False by (intro split_join) (auto simp: plain_name_def)
    ultimately show ?thesis using False by (simp only: str_split_append_slash) simp
  qed
  have dots: "str_split ''/'' ''.'' = [''.'']" "str_split ''/'' ''./.'' = [''.'', ''.'']" by code_simp+
  have "fold norm_step d [] = rev d" using fold_norm_plain [of d "[]"] assms(1) by simp
  then have "norm_components True ([] # (if d = [] then [] else d) @ [''.'']) = d"
    "norm_components True ([] # (if d = [] then [] else d) @ [''.'', ''.'']) = d"
    by (auto simp: norm_components_fold norm_step_def)
  then show "resolve w ''.'' = d" "resolve w ''./.'' = d"
    using split [of "''.''"] split [of "''./.''"] dots assms(2) by (simp_all add: resolve_def path_of_def starts_with_slash del: append_Cons)
qed

lemma resolve_entry_name:
  assumes "\<forall>c \<in> set q. plain_name c" and "\<forall>c \<in> set d. plain_name c" and "fw_cwd w = cwd_text d"
  shows "resolve w (entry_name q) = d @ q"
  using assms(1) resolve_dot(2) [OF assms(2,3)] resolve_joined [OF assms(1), where n = "''./.''" and w = w] entry_name_joined [OF assms(1), where n = "''.''"]
  by (simp add: entry_name_def)

end
