(* ===== verification/ArchiveCopy.thy ===== *)
theory ArchiveCopy
  imports Archives
begin

text \<open>
  Packing a folder and unpacking it: \<open>archive_local_folder\<close> and \<open>extract_archive_to\<close> run on a file tree, step by step, and the
  theorem that together they copy the files of the folder.
\<close>

section \<open>Where the program stands\<close>

text \<open>The working directory exists and is written the way \<open>chdir\<close> leaves it.\<close>

definition standing :: "'z file_world_scheme \<Rightarrow> bool" where
  "standing w \<longleftrightarrow> fs_wf w \<and> (\<exists>C. (\<forall>c \<in> set C. plain_name c) \<and> fw_cwd w = cwd_text C \<and> nodes w C = Some Dir)"

lemma goto_dir_ok:
  assumes "d \<noteq> []" and "nodes w (resolve w d) = Some Dir"
  shows "goto_dir d w = (Inr (fw_cwd w), w\<lparr>fw_cwd := cwd_text (resolve w d)\<rparr>)"
  using assms by (simp add: goto_dir_def Let_def io_then_def io_bind_def file_check_or_create_dir_def path_exists_def chdir_def node_at_nodes)

lemma file_check_or_create: "d \<noteq> [] \<Longrightarrow> file_check_or_create_dir d = check_or_create_dir d"
  by (simp add: file_check_or_create_dir_def check_or_create_dir_def io_bind_def fun_eq_iff)

lemma resolve_plain: "\<forall>c \<in> set (resolve w p). plain_name c"
  using path_of_clean by (simp add: resolve_def)

lemma fs_wf_cwd: "fs_wf w \<Longrightarrow> starts_with ''/'' d \<Longrightarrow> fs_wf (w\<lparr>fw_cwd := d\<rparr>)"
  by (simp add: fs_wf_def)

lemma resolve_files_cwd [simp]: "resolve (w\<lparr>fw_cwd := d\<rparr>) p = path_of d p"
  by (simp add: resolve_def)

text \<open>The names below a folder are those a directory entry can have.\<close>

definition plain_tree :: "'z file_world_scheme \<Rightarrow> string list \<Rightarrow> bool" where
  "plain_tree w d \<longleftrightarrow> (\<forall>q b. nodes w (d @ q) = Some (File b) \<longrightarrow> (\<forall>c \<in> set q. plain_name c))"

lemma plain_treeD: "plain_tree w d \<Longrightarrow> nodes w (d @ q) = Some (File b) \<Longrightarrow> \<forall>c \<in> set q. plain_name c"
  unfolding plain_tree_def by blast

section \<open>Packing\<close>

lemma read_entries:
  "(\<And>p. p \<in> set ps \<Longrightarrow> \<exists>b. nodes w (resolve w (''./'' @ p)) = Some (File b)) \<Longrightarrow>
   io_map (\<lambda>p. let path = ''./'' @ p
       in io_bind time_now (\<lambda>_. io_bind (read_bytes path) (\<lambda>content. io_return (path, content)))) ps w
   = (Inr (map (\<lambda>p. (''./'' @ p, the (file_content (nodes w (resolve w (''./'' @ p)))))) ps), w\<lparr>fw_clock := fw_clock w + length ps\<rparr>)"
proof (induction ps arbitrary: w)
  case (Cons p ps)
  obtain b where b: "nodes w (resolve w (''./'' @ p)) = Some (File b)" using Cons.prems [of p] by auto
  let ?w = "w\<lparr>fw_clock := Suc (fw_clock w)\<rparr>"
  have "read_bytes (''./'' @ p) ?w = (Inr b, ?w)" by (rule read_bytes_ok) (use b in simp_all)
  moreover note Cons.IH [of ?w]
  ultimately show ?case using Cons.prems b by (simp add: io_bind_def time_now_def Let_def file_content_def)
qed simp

lemma list_of_images: "\<forall>y \<in> set ys. \<exists>x. y = f x \<and> P x \<Longrightarrow> \<exists>xs. ys = map f xs \<and> (\<forall>x \<in> set xs. P x)"
proof (induction ys)
  case (Cons y ys)
  then obtain x xs where "y = f x" "P x" "ys = map f xs" "\<forall>x \<in> set xs. P x" by auto
  then show ?case by (intro exI [of _ "x # xs"]) simp
qed simp

text \<open>The entries of a folder: exactly its files, by their names below it.\<close>

lemma iter_stream_zip_ok:
  assumes "fs_wf w" and cwd: "\<forall>c \<in> set d. plain_name c" "fw_cwd w = cwd_text d" and "nodes w d = Some Dir"
    and tree: "plain_tree w d"
  shows "\<exists>qs t. iter_stream_zip ''.'' w = (Inr (map (\<lambda>(q, b). (entry_name q, b)) qs), w\<lparr>fw_clock := t\<rparr>)
    \<and> set qs = {(q, b). nodes w (d @ q) = Some (File b)}"
proof -
  note plain = plain_treeD [OF tree]
  let ?ps = "traverse_directory (fw_files w) d ''.''"
  have ps: "set ?ps = {joined ''.'' q | q b. nodes w (d @ q) = Some (File b)}"
    using assms(4) by (intro traverse_files [OF assms(1)]) simp
  have "\<forall>p \<in> set ?ps. \<exists>x. p = (\<lambda>(q, b). joined ''.'' q) x \<and> (case x of (q, b) \<Rightarrow> nodes w (d @ q) = Some (File b))"
    unfolding ps by auto
  from list_of_images [OF this] obtain qs where qs: "?ps = map (\<lambda>(q, b). joined ''.'' q) qs"
    "\<forall>(q, b) \<in> set qs. nodes w (d @ q) = Some (File b)" by blast
  have at: "resolve w (''./'' @ joined ''.'' q) = d @ q" if "(q, b) \<in> set qs" for q b
    using resolve_entry_name [OF plain cwd] qs(2) that by (fastforce simp: entry_name_def)
  have run: "io_map (\<lambda>p. let path = ''./'' @ p
       in io_bind time_now (\<lambda>_. io_bind (read_bytes path) (\<lambda>content. io_return (path, content)))) ?ps w
    = (Inr (map (\<lambda>p. (''./'' @ p, the (file_content (nodes w (resolve w (''./'' @ p)))))) ?ps), w\<lparr>fw_clock := fw_clock w + length ?ps\<rparr>)"
    by (rule read_entries) (use qs at in \<open>fastforce simp: qs(1)\<close>)
  have entries: "map (\<lambda>p. (''./'' @ p, the (file_content (nodes w (resolve w (''./'' @ p)))))) ?ps = map (\<lambda>(q, b). (entry_name q, b)) qs"
    unfolding qs(1) map_map
  proof (rule map_cong [OF refl])
    fix x assume "x \<in> set qs"
    moreover obtain q b where x: "x = (q, b)" by fastforce
    ultimately have "nodes w (d @ q) = Some (File b)" "resolve w (''./'' @ joined ''.'' q) = d @ q" using qs(2) at by auto
    then show "((\<lambda>p. (''./'' @ p, the (file_content (nodes w (resolve w (''./'' @ p)))))) \<circ> (\<lambda>(q, b). joined ''.'' q)) x
        = (case x of (q, b) \<Rightarrow> (entry_name q, b))"
      by (simp add: x entry_name_def file_content_def)
  qed
  have "(q, b) \<in> set qs" if n: "nodes w (d @ q) = Some (File b)" for q b
  proof -
    have "joined ''.'' q \<in> set ?ps" unfolding ps using n by blast
    then obtain q' b' where q': "(q', b') \<in> set qs" "joined ''.'' q' = joined ''.'' q" by (auto simp: qs(1))
    then have n': "nodes w (d @ q') = Some (File b')" using qs(2) by auto
    have "d @ q' = d @ q"
      using resolve_joined [OF plain [OF n], of "''.''" w] resolve_joined [OF plain [OF n'], of "''.''" w] q'(2) resolve_dot(1) [OF cwd] by simp
    with n n' q'(1) show ?thesis by simp
  qed
  with qs(2) have "set qs = {(q, b). nodes w (d @ q) = Some (File b)}" by auto
  moreover have "iter_stream_zip ''.'' w = (Inr (map (\<lambda>(q, b). (entry_name q, b)) qs), w\<lparr>fw_clock := fw_clock w + length ?ps\<rparr>)"
    using run assms(4) unfolding entries by (simp add: iter_stream_zip_def node_at_nodes resolve_dot(1) [OF cwd])
  ultimately show ?thesis by blast
qed


lemma archive_run:
  assumes st: "standing w" and src: "src \<noteq> []" "nodes w (resolve w src) = Some Dir"
    and plain: "plain_tree w (resolve w src)"
    and arch: "starts_with ''/'' arch" "nodes w (resolve w arch) \<noteq> Some Dir" "nodes w (butlast (resolve w arch)) = Some Dir"
      "\<not> is_prefix (resolve w src) (resolve w arch)"
  shows "\<exists>qs bytes err w'. set qs = {(q, b). nodes w (resolve w src @ q) = Some (File b)}
    \<and> fst (iter_stream_zip ''.'' (set_node (resolve w arch) (File []) (w\<lparr>fw_cwd := cwd_text (resolve w src)\<rparr>)))
        = Inr (map (\<lambda>(q, b). (entry_name q, b)) qs)
    \<and> az_zip Z (fw_clock w) (map (\<lambda>(q, b). (entry_name q, b)) qs) = (bytes, err)
    \<and> archive_local_folder Z src arch w = (case err of None \<Rightarrow> Inr () | Some e \<Rightarrow> Inl e, w')
    \<and> (err = None \<longrightarrow> nodes w' = (nodes w)(resolve w arch := Some (File bytes)) \<and> fw_cwd w' = fw_cwd w \<and> fs_wf w')"
proof -
  let ?S = "resolve w src" and ?A = "resolve w arch"
  obtain C where C: "fs_wf w" "\<forall>c \<in> set C. plain_name c" "fw_cwd w = cwd_text C" "nodes w C = Some Dir"
    using st by (auto simp: standing_def)
  define v0 where "v0 = w\<lparr>fw_cwd := cwd_text ?S\<rparr>"
  have go: "goto_dir src w = (Inr (fw_cwd w), v0)" unfolding v0_def by (rule goto_dir_ok [OF src])
  have A: "resolve v arch = ?A" for v :: "'a file_world_scheme" by (rule resolve_absolute [OF arch(1)])
  have arch_ne: "arch \<noteq> []" using arch(1) by (auto simp: starts_with_slash)
  have ne: "?A \<noteq> []" using arch(2) by auto
  define v where "v = set_node ?A (File []) v0"
  have w0: "write_bytes arch [] v0 = (Inr (), v)"
    using write_bytes_ok [OF arch_ne, of v0 "[]", unfolded A [of v0]] arch(2,3) by (simp add: v0_def v_def)
  have nv: "nodes v = (nodes w)(?A := Some (File []))" using ne by (auto simp: v_def v0_def)
  have wf: "fs_wf v" using write_bytes_wf [of v0 arch "[]"] fs_wf_cwd [OF C(1), of "cwd_text ?S"] w0 by (simp add: v0_def)
  have below: "nodes v (?S @ q) = nodes w (?S @ q)" for q
  proof -
    have "?S @ q \<noteq> ?A" using arch(4) unfolding is_prefix_def by metis
    then show ?thesis by (simp add: nv)
  qed
  have cwd: "fw_cwd v = cwd_text ?S" by (simp add: v_def v0_def)
  obtain qs t where qs: "iter_stream_zip ''.'' v = (Inr (map (\<lambda>(q, b). (entry_name q, b)) qs), v\<lparr>fw_clock := t\<rparr>)"
    "set qs = {(q, b). nodes w (?S @ q) = Some (File b)}"
  proof -
    have "nodes v ?S = Some Dir" using below [of "[]"] src(2) by simp
    moreover have "plain_tree v ?S" using plain by (simp add: plain_tree_def below)
    ultimately have "\<exists>qs t. iter_stream_zip ''.'' v = (Inr (map (\<lambda>(q, b). (entry_name q, b)) qs), v\<lparr>fw_clock := t\<rparr>)
        \<and> set qs = {(q, b). nodes v (?S @ q) = Some (File b)}"
      by (rule iter_stream_zip_ok [OF wf resolve_plain cwd])
    then show thesis using that unfolding below by blast
  qed
  obtain bytes err where z: "az_zip Z (fw_clock v) (map (\<lambda>(q, b). (entry_name q, b)) qs) = (bytes, err)" by fastforce
  let ?v1 = "v\<lparr>fw_clock := t\<rparr>" and ?v2 = "set_node ?A (File bytes) (v\<lparr>fw_clock := t\<rparr>)"
  have "butlast ?A \<noteq> ?A" using ne by (cases ?A rule: rev_cases) auto
  then have "nodes ?v1 ?A \<noteq> Some Dir" "nodes ?v1 (butlast ?A) = Some Dir" using arch(3) ne by (auto simp: nv) 
  then have w1: "write_bytes arch bytes ?v1 = (Inr (), ?v2)" using write_bytes_ok [OF arch_ne, of ?v1 bytes, unfolded A [of ?v1]] by simp
  have n2: "nodes ?v2 = (nodes w)(?A := Some (File bytes))" using ne by (auto simp: nv)
  have wf2: "fs_wf ?v2" using write_bytes_wf [of ?v1 arch bytes] wf w1 by simp
  have "?A \<noteq> C" using C(4) arch(2) by auto
  then have "nodes ?v2 (resolve ?v2 (fw_cwd w)) = Some Dir" using C n2 by simp
  from goto_dir_ok [OF _ this] have home: "goto_dir (fw_cwd w) ?v2 = (Inr (cwd_text ?S), ?v2\<lparr>fw_cwd := fw_cwd w\<rparr>)"
    using C(2,3) cwd by simp
  have "archive_local_folder Z src arch w
      = (case err of None \<Rightarrow> Inr () | Some e \<Rightarrow> Inl e, case err of None \<Rightarrow> ?v2\<lparr>fw_cwd := fw_cwd w\<rparr> | Some e \<Rightarrow> ?v2)"
    using home by (auto simp: archive_local_folder_def io_bind_def io_then_def go w0 qs(1) write_archive_def z w1 split: option.splits)
  moreover have "fs_wf (?v2\<lparr>fw_cwd := fw_cwd w\<rparr>)" using wf2 C(3) by (simp add: fs_wf_cwd)
  moreover have "fw_clock v = fw_clock w" by (simp add: v_def v0_def)
  ultimately show ?thesis
    using qs z n2
    by (intro exI [of _ qs] exI [of _ bytes] exI [of _ err] exI [of _ "case err of None \<Rightarrow> ?v2\<lparr>fw_cwd := fw_cwd w\<rparr> | Some e \<Rightarrow> ?v2"])
      (auto simp: v_def v0_def)
qed

section \<open>Unpacking\<close>

text \<open>Where the files \<open>qs\<close> have been put below \<open>d\<close>: nothing else is there but the directories on the way to them.\<close>

definition unpacked :: "string list \<Rightarrow> (string list \<times> string) list \<Rightarrow> 'z file_world_scheme \<Rightarrow> 'z file_world_scheme \<Rightarrow> bool" where
  "unpacked d qs w v \<longleftrightarrow> fs_wf v \<and> fw_cwd v = cwd_text d \<and> nodes v d = Some Dir
     \<and> (\<forall>q b. nodes v (d @ q) = Some (File b) \<longleftrightarrow> (q, b) \<in> set qs)
     \<and> (\<forall>q. q \<noteq> [] \<longrightarrow> nodes v (d @ q) = Some Dir \<longrightarrow> (\<exists>(q', b) \<in> set qs. \<exists>r. r \<noteq> [] \<and> q' = q @ r))
     \<and> (\<forall>r. \<not> is_prefix d r \<longrightarrow> nodes v r = nodes w r)"

text \<open>No path of the list leads through another one.\<close>

definition apart :: "(string list \<times> string) list \<Rightarrow> bool" where
  "apart qs \<longleftrightarrow> (\<forall>(q, b) \<in> set qs. q \<noteq> [] \<and> (\<forall>c \<in> set q. plain_name c) \<and> (\<forall>(q', b') \<in> set qs. \<forall>r. q' = q @ r \<longrightarrow> r = [] \<and> b' = b))"

lemma apartD:
  assumes "apart qs" and "(q, b) \<in> set qs"
  shows "q \<noteq> []" "\<forall>c \<in> set q. plain_name c" "(q @ r, b') \<in> set qs \<Longrightarrow> r = [] \<and> b' = b"
  using assms unfolding apart_def by blast+

lemma apart_subset: "apart ys \<Longrightarrow> set xs \<subseteq> set ys \<Longrightarrow> apart xs"
  unfolding apart_def by blast

lemma entry_name_single:
  assumes "\<forall>c \<in> set d. plain_name c"
  shows "\<not> starts_with ''//'' (if starts_with ''/'' (entry_name q) then entry_name q else path_join (cwd_text d) (entry_name q))"
proof (cases "d = []")
  case False
  then have ne: "str_join ''/'' d \<noteq> []" using assms by (cases d; cases "tl d") (auto simp: plain_name_def)
  then obtain c j where j: "str_join ''/'' d = c # j" by (cases "str_join ''/'' d") auto
  then have "c \<noteq> CHR ''/''" using plain_first_no_slash [OF assms] by (auto simp: starts_with_iff)
  then show ?thesis by (auto simp: entry_name_def path_join_def cwd_text_def j starts_with_iff)
qed (simp add: entry_name_def path_join_def cwd_text_def starts_with_iff)

lemma extract_entry_ok:
  assumes ap: "apart (ds @ [(q, b)])" and d: "\<forall>c \<in> set d. plain_name c" and inv: "unpacked d ds w v"
  shows "\<exists>v'. extract_entry (entry_name q, b) v = (Inr (), v') \<and> unpacked d (ds @ [(q, b)]) w v'"
proof -
  have mem: "(q, b) \<in> set (ds @ [(q, b)])" by simp
  note me = apartD [OF ap mem]
  have I: "fs_wf v" "fw_cwd v = cwd_text d" "nodes v d = Some Dir"
    "\<And>q b. nodes v (d @ q) = Some (File b) \<longleftrightarrow> (q, b) \<in> set ds"
    "\<And>q. q \<noteq> [] \<Longrightarrow> nodes v (d @ q) = Some Dir \<Longrightarrow> \<exists>(q', b) \<in> set ds. \<exists>r. r \<noteq> [] \<and> q' = q @ r"
    "\<And>r. \<not> is_prefix d r \<Longrightarrow> nodes v r = nodes w r"
    using inv unfolding unpacked_def by blast+
  obtain p n where q: "q = p @ [n]" using me(1) by (cases q rule: rev_cases) auto
  have plain: "\<forall>c \<in> set p. plain_name c" "plain_name n" using me(2) by (simp_all add: q)
  have at: "resolve v (entry_name q) = d @ q" using resolve_entry_name [of q d v] me(2) d I(2) by simp
  have name: "abspath (fw_cwd v) (entry_name q) = cwd_text (d @ q)"
    using abspath_text [OF _ entry_name_single [OF d], of q] at I(2) by (simp add: resolve_def)
  have dp: "\<forall>c \<in> set (d @ p). plain_name c" using plain d by auto
  have dir: "file_dirname (cwd_text (d @ q)) = cwd_text (d @ p)" using dirname_text [OF dp plain(2)] by (simp add: q)
  have up: "resolve u (cwd_text (d @ p)) = d @ p" for u :: "'a file_world_scheme" using dp by (rule resolve_cwd_text)
  have free: "way_free v (resolve v (cwd_text (d @ p)))"
    unfolding way_free_def up
  proof (intro allI impI notI)
    fix x r c
    assume x: "d @ p = x @ r" and at_x: "nodes v x = Some (File c)"
    have "x = d @ drop (length d) x \<or> d = x @ drop (length x) d"
      using x by (metis append_eq_append_conv2 append_eq_conv_conj)
    then show False
    proof
      assume "d = x @ drop (length x) d"
      then show False using nodes_parents [OF I(1), of x "drop (length x) d"] I(3) at_x by (cases "drop (length x) d = []") auto
    next
      assume pre: "x = d @ drop (length d) x"
      then have "(drop (length d) x, c) \<in> set ds" using at_x I(4) by metis
      moreover have "(drop (length d) x @ (r @ [n]), b) \<in> set (ds @ [(q, b)])"
      proof -
        have "p = drop (length d) x @ r" using x pre by (metis append_assoc same_append_eq)
        then show ?thesis by (simp add: q)
      qed
      ultimately show False using apartD(3) [OF ap, of "drop (length d) x" c "r @ [n]" b] by simp
    qed
  qed
  obtain fs' where mk: "check_or_create_dir (cwd_text (d @ p)) v = (Inr (), v\<lparr>fw_files := fs'\<rparr>)"
    and n1: "\<And>r. nodes (v\<lparr>fw_files := fs'\<rparr>) r = (if is_prefix r (d @ p) then Some Dir else nodes v r)"
    using check_or_create_dir_ok [OF _ I(1) free] unfolding up by auto
  let ?v1 = "v\<lparr>fw_files := fs'\<rparr>"
  let ?v2 = "set_node (d @ q) (File b) ?v1"
  have "nodes ?v1 (d @ q) \<noteq> Some Dir"
  proof
    assume "nodes ?v1 (d @ q) = Some Dir"
    then have "nodes v (d @ q) = Some Dir" using n1 [of "d @ q"] by (auto simp: q is_prefix_def split: if_splits)
    then obtain b' r where "(q @ r, b') \<in> set (ds @ [(q, b)])" "r \<noteq> []" using I(5) [OF me(1)] by auto
    then show False using me(3) by blast
  qed
  moreover have res: "resolve ?v1 (cwd_text (d @ q)) = d @ q" using d me(2) by (intro resolve_cwd_text) auto
  moreover have "nodes ?v1 (butlast (d @ q)) = Some Dir" using n1 [of "d @ p"] by (simp add: q is_prefix_def butlast_append)
  ultimately have wr: "write_bytes (cwd_text (d @ q)) b ?v1 = (Inr (), ?v2)" using write_bytes_ok [of "cwd_text (d @ q)" ?v1 b] by simp
  have run: "extract_entry (entry_name q, b) v = (Inr (), ?v2)"
    using mk wr by (simp add: extract_entry_def name Let_def dir io_then_def io_bind_def file_check_or_create)
  have wf: "fs_wf ?v2"
    using keeps_check_or_create [of "cwd_text (d @ p)"] I(1) mk write_bytes_wf [of ?v1 "cwd_text (d @ q)" b] wr
    by (auto simp: keeps_tree_def)
  have n2: "nodes ?v2 r = (if r = d @ q then Some (File b) else if is_prefix r (d @ p) then Some Dir else nodes v r)" for r
    using n1 me(1) by simp
  have below: "is_prefix (d @ x) (d @ p) \<longleftrightarrow> (\<exists>y. p = x @ y)" for x by (auto simp: is_prefix_def)
  have files: "nodes ?v2 (d @ x) = Some (File c) \<longleftrightarrow> (x, c) \<in> set (ds @ [(q, b)])" for x c
  proof (cases "x = q")
    case True
    then show ?thesis using me(3) [of "[]" c] n2 [of "d @ q"] by auto
  next
    case False
    have "(x, c) \<notin> set ds" if "p = x @ y" for y
      using that apartD(3) [OF ap, of x c "y @ [n]" b] by (auto simp: q)
    then show ?thesis using False I(4) n2 [of "d @ x"] below [of x] by auto
  qed
  have dirs: "\<exists>(q', b') \<in> set (ds @ [(q, b)]). \<exists>r. r \<noteq> [] \<and> q' = x @ r" if "x \<noteq> []" "nodes ?v2 (d @ x) = Some Dir" for x
  proof (cases "\<exists>y. p = x @ y")
    case True
    then show ?thesis by (auto simp: q)
  next
    case False
    then have "nodes v (d @ x) = Some Dir" using that(2) n2 [of "d @ x"] below [of x] by (auto split: if_splits)
    then show ?thesis using I(5) [OF that(1)] by auto
  qed
  have rest: "nodes ?v2 r = nodes w r" if "\<not> is_prefix d r" for r
  proof -
    have "nodes v r = Some Dir" if pre: "is_prefix r (d @ p)"
    proof -
      obtain y where "d @ p = r @ y" using pre by (auto simp: is_prefix_def)
      then obtain z where "d = r @ z" using \<open>\<not> is_prefix d r\<close> by (auto simp: is_prefix_def append_eq_append_conv2)
      then show ?thesis using nodes_parents [OF I(1), of r z] I(3) by (cases "z = []") auto
    qed
    then show ?thesis using that I(6) [OF that] n2 [of r] by (auto simp: is_prefix_def)
  qed
  have "nodes ?v2 d = Some Dir" using n2 [of d] me(1) by (auto simp: is_prefix_def)
  moreover have "fw_cwd ?v2 = cwd_text d" using I(2) by simp
  ultimately have "unpacked d (ds @ [(q, b)]) w ?v2" unfolding unpacked_def using wf files dirs rest by blast
  with run show ?thesis by blast
qed


lemma extract_entries_ok:
  assumes "apart (ds @ qs)" and "\<forall>c \<in> set d. plain_name c" and "unpacked d ds w v"
  shows "\<exists>v'. io_map extract_entry (map (\<lambda>(q, b). (entry_name q, b)) qs) v = (Inr (map (\<lambda>_. ()) qs), v') \<and> unpacked d (ds @ qs) w v'"
  using assms
proof (induction qs arbitrary: ds v)
  case (Cons e qs)
  obtain q b where e: "e = (q, b)" by fastforce
  have "apart (ds @ [(q, b)])" by (rule apart_subset [OF Cons.prems(1)]) (auto simp: e)
  from extract_entry_ok [OF this Cons.prems(2,3)] obtain v1 where
    v1: "extract_entry (entry_name q, b) v = (Inr (), v1)" "unpacked d (ds @ [(q, b)]) w v1" by blast
  from Cons.IH [OF _ Cons.prems(2) v1(2)] Cons.prems(1) e obtain v2 where
    "io_map extract_entry (map (\<lambda>(q, b). (entry_name q, b)) qs) v1 = (Inr (map (\<lambda>_. ()) qs), v2)" "unpacked d (ds @ e # qs) w v2"
    by auto
  with v1(1) show ?case by (auto simp: e io_bind_def)
qed simp

lemma extract_run:
  assumes st: "standing w" and dest: "dest \<noteq> []" "nodes w (resolve w dest) = Some Dir" "\<And>q. q \<noteq> [] \<Longrightarrow> nodes w (resolve w dest @ q) = None"
    and arch: "starts_with ''/'' arch" "nodes w (resolve w arch) = Some (File bytes)"
    and zip: "az_unzip Z bytes = (map (\<lambda>(q, b). (entry_name q, b)) qs, None)" and ap: "apart qs"
  shows "\<exists>w'. extract_archive_to Z arch dest w = (Inr (), w') \<and> fw_cwd w' = fw_cwd w
    \<and> (\<forall>q b. nodes w' (resolve w dest @ q) = Some (File b) \<longleftrightarrow> (q, b) \<in> set qs)
    \<and> (\<forall>r. \<not> is_prefix (resolve w dest) r \<longrightarrow> nodes w' r = nodes w r)"
proof -
  let ?D = "resolve w dest"
  obtain C where C: "fs_wf w" "\<forall>c \<in> set C. plain_name c" "fw_cwd w = cwd_text C" "nodes w C = Some Dir"
    using st by (auto simp: standing_def)
  define v where "v = w\<lparr>fw_cwd := cwd_text ?D\<rparr>"
  have go: "goto_dir dest w = (Inr (fw_cwd w), v)" unfolding v_def by (rule goto_dir_ok [OF dest(1,2)])
  have "arch \<noteq> []" "resolve v arch = resolve w arch" using arch(1) resolve_absolute by (auto simp: starts_with_slash)
  then have rd: "read_bytes arch v = (Inr bytes, v)" using arch(2) by (intro read_bytes_ok) (simp_all add: v_def)
  have below: "nodes v (?D @ q) = (if q = [] then Some Dir else None)" for q using dest(2,3) by (simp add: v_def)
  have "nodes v ?D = Some Dir" using below [of "[]"] by simp
  moreover have "fs_wf v" using C(1) by (simp add: v_def fs_wf_cwd)
  moreover have "nodes v r = nodes w r" for r by (simp add: v_def)
  ultimately have "unpacked ?D [] w v" unfolding unpacked_def below by (simp add: v_def)
  from extract_entries_ok [of "[]", simplified, OF ap _ this] resolve_plain obtain v1 where
    v1: "io_map extract_entry (map (\<lambda>(q, b). (entry_name q, b)) qs) v = (Inr (map (\<lambda>_. ()) qs), v1)" "unpacked ?D qs w v1"
    by blast
  note u = v1(2) [unfolded unpacked_def]
  have "nodes v1 C = Some Dir"
  proof (cases "is_prefix ?D C")
    case True
    then obtain q where q: "C = ?D @ q" by (auto simp: is_prefix_def)
    then have "q = []" using C(4) dest(3) by fastforce
    then show ?thesis using u q by simp
  next
    case False
    then show ?thesis using u C(4) by simp
  qed
  then have "nodes v1 (resolve v1 (fw_cwd w)) = Some Dir" using C(2,3) by simp
  from goto_dir_ok [OF _ this] have home: "goto_dir (fw_cwd w) v1 = (Inr (fw_cwd v1), v1\<lparr>fw_cwd := fw_cwd w\<rparr>)"
    using C(2,3) by simp
  have "extract_archive_to Z arch dest w = (Inr (), v1\<lparr>fw_cwd := fw_cwd w\<rparr>)"
    using home by (simp add: extract_archive_to_def io_bind_def io_then_def go rd zip v1(1))
  with u show ?thesis by auto
qed

section \<open>A folder is copied\<close>

text \<open>A tree has no file below a file, so its files are apart.\<close>

lemma tree_apart:
  assumes "fs_wf w" and "set qs = {(q, b). nodes w (s @ q) = Some (File b)}" and "nodes w s = Some Dir"
    and "plain_tree w s"
  shows "apart qs"
proof -
  have "q \<noteq> [] \<and> (\<forall>c \<in> set q. plain_name c) \<and> (\<forall>r b'. nodes w (s @ q @ r) = Some (File b') \<longrightarrow> r = [] \<and> b' = b)"
    if n: "nodes w (s @ q) = Some (File b)" for q b
  proof (intro conjI allI impI)
    show "q \<noteq> []" using n assms(3) by auto
    show "\<forall>c \<in> set q. plain_name c" by (rule plain_treeD [OF assms(4) n])
    fix r b'
    assume n': "nodes w (s @ q @ r) = Some (File b')"
    show "r = []" using nodes_parents [OF assms(1), of "s @ q" r] n n' by (cases "r = []") auto
    then show "b' = b" using n n' by simp
  qed
  then show ?thesis unfolding apart_def assms(2) by auto
qed

text \<open>
  C23 (roundtrip). When \<open>archive_local_folder\<close> has packed a folder into an archive outside of it, \<open>extract_archive_to\<close> puts into an empty
  directory exactly the files of the folder, with their contents and at their places, and changes nothing outside of that
  directory; a folder without files cannot be unpacked again, its archive is refused. Both leave the working directory as
  it was. Paths of the archive are absolute; names in the folder are those a directory can have.
\<close>
theorem archive_copies_folder:
  assumes st: "standing w" and src: "src \<noteq> []" "nodes w (resolve w src) = Some Dir"
    and plain: "plain_tree w (resolve w src)"
    and arch: "starts_with ''/'' arch" "nodes w (resolve w arch) \<noteq> Some Dir" "nodes w (butlast (resolve w arch)) = Some Dir"
      "\<not> is_prefix (resolve w src) (resolve w arch)"
    and packed: "archive_local_folder (stream_archiver E) src arch w = (Inr (), w1)"
    and dest: "dest \<noteq> []" "nodes w1 (resolve w1 dest) = Some Dir" "\<And>q. q \<noteq> [] \<Longrightarrow> nodes w1 (resolve w1 dest @ q) = None"
  shows "fw_cwd w1 = fw_cwd w
    \<and> (if \<exists>q b. nodes w (resolve w src @ q) = Some (File b)
       then \<exists>w2. extract_archive_to (stream_archiver E) arch dest w1 = (Inr (), w2) \<and> fw_cwd w2 = fw_cwd w
         \<and> (\<forall>q b. nodes w2 (resolve w1 dest @ q) = Some (File b) \<longleftrightarrow> nodes w (resolve w src @ q) = Some (File b))
         \<and> (\<forall>r. \<not> is_prefix (resolve w1 dest) r \<longrightarrow> nodes w2 r = nodes w1 r)
       else fst (extract_archive_to (stream_archiver E) arch dest w1) = Inl ValueError)"
proof -
  have "\<exists>qs bytes. set qs = {(q, b). nodes w (resolve w src @ q) = Some (File b)}
    \<and> az_zip (stream_archiver E) (fw_clock w) (map (\<lambda>(q, b). (entry_name q, b)) qs) = (bytes, None)
    \<and> nodes w1 = (nodes w)(resolve w arch := Some (File bytes)) \<and> fw_cwd w1 = fw_cwd w \<and> fs_wf w1"
    using archive_run [OF st src plain arch, where Z = "stream_archiver E"] packed by (auto split: option.splits)
  then obtain qs bytes where qs: "set qs = {(q, b). nodes w (resolve w src @ q) = Some (File b)}"
    "az_zip (stream_archiver E) (fw_clock w) (map (\<lambda>(q, b). (entry_name q, b)) qs) = (bytes, None)"
    "nodes w1 = (nodes w)(resolve w arch := Some (File bytes))" "fw_cwd w1 = fw_cwd w" "fs_wf w1"
    by blast
  note unzip = stream_archiver_reads [OF qs(2)]
  have res: "resolve w1 p = resolve w p" for p by (simp add: resolve_def qs(4))
  have at: "nodes w1 (resolve w1 arch) = Some (File bytes)" by (simp add: res qs(3))
  obtain C where C: "\<forall>c \<in> set C. plain_name c" "fw_cwd w = cwd_text C" "nodes w C = Some Dir"
    using st by (auto simp: standing_def)
  then have "nodes w1 C = Some Dir" using qs(3) arch(2) by auto
  then have st1: "standing w1" using C qs(4,5) unfolding standing_def by metis
  show ?thesis
  proof (cases "qs = []")
    case True
    have arch_ne: "arch \<noteq> []" using arch(1) by (auto simp: starts_with_slash)
    let ?v = "w1\<lparr>fw_cwd := cwd_text (resolve w1 dest)\<rparr>"
    have "resolve ?v arch = resolve w1 arch" by (rule resolve_absolute [OF arch(1)])
    then have "read_bytes arch ?v = (Inr bytes, ?v)" using at by (intro read_bytes_ok [OF arch_ne]) simp
    then have "fst (extract_archive_to (stream_archiver E) arch dest w1) = Inl ValueError"
      using goto_dir_ok [OF dest(1,2)] unzip True by (simp add: extract_archive_to_def io_bind_def io_then_def)
    moreover have "\<not> (\<exists>q b. nodes w (resolve w src @ q) = Some (File b))" using qs(1) True by auto
    ultimately show ?thesis using qs(4) by simp
  next
    case False
    have some: "\<exists>q b. nodes w (resolve w src @ q) = Some (File b)" using qs(1) False by (cases qs) (auto simp: set_eq_iff)
    have "fs_wf w" using st by (simp add: standing_def)
    from tree_apart [OF this qs(1) src(2) plain] have "apart qs" .
    moreover have "az_unzip (stream_archiver E) bytes = (map (\<lambda>(q, b). (entry_name q, b)) qs, None)" using unzip False by simp
    ultimately obtain w2 where "extract_archive_to (stream_archiver E) arch dest w1 = (Inr (), w2)" "fw_cwd w2 = fw_cwd w1"
      "\<forall>q b. nodes w2 (resolve w1 dest @ q) = Some (File b) \<longleftrightarrow> (q, b) \<in> set qs"
      "\<forall>r. \<not> is_prefix (resolve w1 dest) r \<longrightarrow> nodes w2 r = nodes w1 r"
      using extract_run [OF st1 dest arch(1) at] by blast
    then show ?thesis using some qs(1,4) by auto
  qed
qed


definition copy_world :: file_world where
  "copy_world = \<lparr>fw_cwd = ''/'', fw_files = [([''s''], Dir), ([''s'', ''a''], File ''x''), ([''d''], Dir)], fw_time = (\<lambda>_. ''1''), fw_clock = 0\<rparr>"

definition copy_env :: zip_env where
  "copy_env = \<lparr>ze_now = (\<lambda>_. zf_modified small_file), ze_mode = (\<lambda>_. 420)\<rparr>"

lemma copy_world_paths:
  "resolve w ''/s'' = [''s'']" "resolve w ''/z'' = [''z'']" "resolve w ''/d'' = [''d'']"
  using resolve_cwd_text [of "[''s'']" w] resolve_cwd_text [of "[''z'']" w] resolve_cwd_text [of "[''d'']" w]
  by (simp_all add: plain_name_def cwd_text_def)

lemma copy_world_nodes:
  "nodes copy_world r = (if r \<in> {[], [''s''], [''d'']} then Some Dir else if r = [''s'', ''a''] then Some (File ''x'') else None)"
  by (auto simp: nodes_def fs_node_def copy_world_def od_get_def)

theorem archive_copies_folder_witness:
  "\<exists>w1 w2. archive_local_folder (stream_archiver copy_env) ''/s'' ''/z'' copy_world = (Inr (), w1)
     \<and> extract_archive_to (stream_archiver copy_env) ''/z'' ''/d'' w1 = (Inr (), w2) \<and> nodes w2 [''d'', ''a''] = Some (File ''x'')"
proof -
  note n = copy_world_nodes and p = copy_world_paths
  have st: "standing copy_world"
    unfolding standing_def
  proof (intro conjI exI [of _ "[]"])
    show "fs_wf copy_world" unfolding fs_wf_def n by (auto simp: copy_world_def od_keys_def starts_with_def)
  qed (simp_all add: copy_world_def cwd_text_def)
  have src: "''/s'' \<noteq> ([] :: string)" "nodes copy_world (resolve copy_world ''/s'') = Some Dir" by (simp_all add: p n)
  have plain: "plain_tree copy_world (resolve copy_world ''/s'')"
    by (auto simp: plain_tree_def p n plain_name_def split: if_splits)
  have arch: "starts_with ''/'' ''/z''" "nodes copy_world (resolve copy_world ''/z'') \<noteq> Some Dir"
    "nodes copy_world (butlast (resolve copy_world ''/z'')) = Some Dir" "\<not> is_prefix (resolve copy_world ''/s'') (resolve copy_world ''/z'')"
    by (simp_all add: p n starts_with_def is_prefix_def)
  obtain qs bytes err w1 where a: "fst (iter_stream_zip ''.'' (set_node (resolve copy_world ''/z'') (File []) (copy_world\<lparr>fw_cwd := cwd_text (resolve copy_world ''/s'')\<rparr>)))
        = Inr (map (\<lambda>(q, b). (entry_name q, b)) qs)"
    "az_zip (stream_archiver copy_env) (fw_clock copy_world) (map (\<lambda>(q, b). (entry_name q, b)) qs) = (bytes, err)"
    "archive_local_folder (stream_archiver copy_env) ''/s'' ''/z'' copy_world = (case err of None \<Rightarrow> Inr () | Some e \<Rightarrow> Inl e, w1)"
    "err = None \<Longrightarrow> nodes w1 = (nodes copy_world)(resolve copy_world ''/z'' := Some (File bytes)) \<and> fw_cwd w1 = fw_cwd copy_world"
    using archive_run [OF st src plain arch, where Z = "stream_archiver copy_env"] by blast
  have "fst (iter_stream_zip ''.'' (set_node (resolve copy_world ''/z'') (File []) (copy_world\<lparr>fw_cwd := cwd_text (resolve copy_world ''/s'')\<rparr>)))
      = Inr [(''././a'', ''x'')]"
    by code_simp
  with a(1) have entries: "map (\<lambda>(q, b). (entry_name q, b)) qs = [(''././a'', ''x'')]" by simp
  have utf: "utf8 ''././a'' = ''././a''" by code_simp
  have "snd (stream_zip [iter_metadata copy_env 0 (''././a'', ''x'')]) = None"
    using small_file_ok utf
    by (simp add: zip_succeeds_iff zip_size_def entry_size_def central_size_def iter_metadata_def copy_env_def zip_file_ok_def)
  then have none: "err = None"
    using a(2) unfolding entries by (auto simp: stream_archiver_def copy_world_def split: prod.splits)
  note w1 = a(4) [OF none]
  have packed: "archive_local_folder (stream_archiver copy_env) ''/s'' ''/z'' copy_world = (Inr (), w1)" using a(3) none by simp
  have dest: "''/d'' \<noteq> ([] :: string)" "nodes w1 (resolve w1 ''/d'') = Some Dir" by (simp_all add: p n w1)
  have empty: "nodes w1 (resolve w1 ''/d'' @ q) = None" if "q \<noteq> []" for q using that by (auto simp: p n w1)
  have "\<exists>q b. nodes copy_world (resolve copy_world ''/s'' @ q) = Some (File b)" by (intro exI [of _ "[''a'']"]) (simp add: p n)
  with archive_copies_folder [OF st src plain arch packed dest empty]
  obtain w2 where w2: "extract_archive_to (stream_archiver copy_env) ''/z'' ''/d'' w1 = (Inr (), w2)"
    "\<forall>q b. nodes w2 (resolve w1 ''/d'' @ q) = Some (File b) \<longleftrightarrow> nodes copy_world (resolve copy_world ''/s'' @ q) = Some (File b)"
    by auto
  have "nodes w2 [''d'', ''a''] = Some (File ''x'')" using w2(2) [rule_format, of "[''a'']" "''x''"] by (simp add: p n)
  with packed w2(1) show ?thesis by blast
qed


section \<open>Names that lead out\<close>

text \<open>
  Nothing checks the names in an archive: an entry \<open>../x\<close> is written beside the directory the archive is unpacked into, over
  whatever is there.
\<close>

lemma split_under:
  assumes "\<forall>c \<in> set d. plain_name c" and "d \<noteq> []" and "\<not> starts_with ''/'' x"
  shows "path_of (cwd_text d) x = rev (fold norm_step (str_split ''/'' x) (rev d))"
    and "\<not> starts_with ''//'' (path_join (cwd_text d) x)"
proof -
  have join: "path_join (cwd_text d) x = [] @ CHR ''/'' # (str_join ''/'' d @ CHR ''/'' # x)"
    using assms last_cwd_text [OF assms(1,2)] by (simp add: path_join_def cwd_text_def)
  have "str_split ''/'' (str_join ''/'' d) = d" using assms(1,2) by (intro split_join) (auto simp: plain_name_def)
  then have "str_split ''/'' (path_join (cwd_text d) x) = [] # d @ str_split ''/'' x"
    unfolding join by (simp only: str_split_append_slash) simp
  then show "path_of (cwd_text d) x = rev (fold norm_step (str_split ''/'' x) (rev d))"
    using assms fold_norm_plain [of d "[]"] by (simp add: path_of_def norm_components_fold)
  obtain c j where j: "str_join ''/'' d = c # j" using assms(1,2) by (cases d; cases "tl d"; cases "hd d") (auto simp: plain_name_def)
  then have "c \<noteq> CHR ''/''" using plain_first_no_slash [OF assms(1)] by (auto simp: starts_with_iff)
  then show "\<not> starts_with ''//'' (path_join (cwd_text d) x)" by (simp add: join j starts_with_iff)
qed

theorem extract_escapes:
  assumes st: "standing w" and dest: "dest \<noteq> []" "nodes w (resolve w dest) = Some Dir" "resolve w dest = up @ [n]"
    and arch: "starts_with ''/'' arch" "nodes w (resolve w arch) = Some (File bytes)"
    and zip: "az_unzip Z bytes = ([(''../'' @ x, content)], None)" and x: "plain_name x" "nodes w (up @ [x]) \<noteq> Some Dir"
  shows "\<exists>w'. extract_archive_to Z arch dest w = (Inr (), w') \<and> nodes w' (up @ [x]) = Some (File content)"
proof -
  obtain C where C: "fs_wf w" "\<forall>c \<in> set C. plain_name c" "fw_cwd w = cwd_text C" "nodes w C = Some Dir"
    using st by (auto simp: standing_def)
  have d: "\<forall>c \<in> set (up @ [n]). plain_name c" "up @ [n] \<noteq> []" using resolve_plain [of w dest] dest(3) by simp_all
  have upx: "\<forall>c \<in> set (up @ [x]). plain_name c" using d x(1) by simp
  let ?name = "''../'' @ x"
  define v where "v = w\<lparr>fw_cwd := cwd_text (up @ [n])\<rparr>"
  have go: "goto_dir dest w = (Inr (fw_cwd w), v)" using goto_dir_ok [OF dest(1,2)] by (simp add: v_def dest(3))
  have "arch \<noteq> []" "resolve v arch = resolve w arch" using arch(1) resolve_absolute by (auto simp: starts_with_slash)
  then have rd: "read_bytes arch v = (Inr bytes, v)" using arch(2) by (intro read_bytes_ok) (simp_all add: v_def)
  have rel: "\<not> starts_with ''/'' ?name" by (simp add: starts_with_slash)
  have "str_split ''/'' ?name = [''..'', x]"
    using str_split_append_slash [of "''..''" x] x(1) by (simp add: str_split_last plain_name_def)
  moreover have "n \<noteq> ''..''" using d by (auto simp: plain_name_def)
  ultimately have to: "path_of (cwd_text (up @ [n])) ?name = up @ [x]" using split_under(1) [OF d rel] x(1) by (simp add: norm_step_def plain_name_def)
  have name: "abspath (fw_cwd v) ?name = cwd_text (up @ [x])"
    using abspath_text [of "cwd_text (up @ [n])" ?name] split_under(2) [OF d rel] rel to by (simp add: v_def)
  have dir: "file_dirname (cwd_text (up @ [x])) = cwd_text up" using dirname_text [of up x] d x(1) by simp
  have upd: "nodes w up = Some Dir" using nodes_parents [OF C(1), of up "[n]"] dest(2,3) by simp
  have res: "resolve v (cwd_text up) = up" "resolve v (cwd_text (up @ [x])) = up @ [x]" using d upx by simp_all
  have mk: "file_check_or_create_dir (cwd_text up) v = (Inr (), v)"
    using upd by (simp add: file_check_or_create check_or_create_dir_def path_exists_def node_at_nodes res) (simp add: v_def)
  let ?v2 = "set_node (up @ [x]) (File content) v"
  have wr: "write_bytes (cwd_text (up @ [x])) content v = (Inr (), ?v2)"
    using write_bytes_ok [of "cwd_text (up @ [x])" v content] upd x(2) by (simp add: res) (simp add: v_def butlast_append)
  have "C \<noteq> up @ [x]" using C(4) x(2) by auto
  moreover have "resolve ?v2 (fw_cwd w) = C" unfolding C(3) by (rule resolve_cwd_text [OF C(2)])
  ultimately have "nodes ?v2 (resolve ?v2 (fw_cwd w)) = Some Dir" using C(4) by (simp add: v_def)
  from goto_dir_ok [OF _ this] have home: "goto_dir (fw_cwd w) ?v2 = (Inr (fw_cwd v), ?v2\<lparr>fw_cwd := fw_cwd w\<rparr>)"
    using C(2,3) by simp
  have "extract_archive_to Z arch dest w = (Inr (), ?v2\<lparr>fw_cwd := fw_cwd w\<rparr>)"
    using home mk wr by (simp add: extract_archive_to_def extract_entry_def io_bind_def io_then_def go rd zip name [unfolded append.simps] dir Let_def)
  then show ?thesis by simp
qed

end
