(* ===== verification/Pep249Store.thy ===== *)
theory Pep249Store
  imports Pep249Props StorageProps
begin

text \<open>
  The relational engine keeps the contract of \<open>version_store\<close> as the file system engine does, over every database with the laws of
  \<open>sql_tables\<close> that compares texts exactly: then all that the logical storages promise over an engine holds here, too.
\<close>

section \<open>The engine keeps the contract\<close>

definition pep_local :: "'z file_world_scheme \<Rightarrow> string \<Rightarrow> string option" where
  "pep_local w p = (if p = [] then None else file_content (nodes w (resolve w p)))"

locale exact_tables = sql_tables A h "(=)" blobs heads
  for A :: "'z db_world_scheme db_api" and h blobs heads +
  fixes sha256 :: "string \<Rightarrow> string" and i :: nat and app_home :: string
  assumes sha_length: "length (sha256 x) = 64" and sha_text: "CHR 0x0D \<notin> set (sha256 x)"
begin

definition pep_contents :: "'z db_world_scheme \<Rightarrow> string \<Rightarrow> string \<Rightarrow> string option" where
  "pep_contents w k v = (case blob_rows w k v of [] \<Rightarrow> None | (k', b', v', c) # _ \<Rightarrow> Some c)"

definition pep_stamp :: "'z db_world_scheme \<Rightarrow> string \<Rightarrow> string \<Rightarrow> string \<Rightarrow> string" where
  "pep_stamp w k br b = sha256 (utf8 (version_header (fw_time w (fw_clock w)) k br) @ b)"

definition client_ready :: "'z db_world_scheme \<Rightarrow> bool" where
  "client_ready w \<longleftrightarrow> connected i w \<and> nodes w (resolve w (pep_temp_path app_home)) = Some Dir
     \<and> (\<forall>n. nodes w (resolve w (pep_temp_path app_home) @ [n]) \<noteq> Some Dir) \<and> (\<forall>n. CHR ''/'' \<notin> set (fw_time w n))"

definition tables_ok :: "'z db_world_scheme \<Rightarrow> bool" where
  "tables_ok w \<longleftrightarrow> unique_heads w \<and> (\<forall>k v. length (blob_rows w k v) \<le> 1) \<and> (\<forall>k b v. head_at w k b = Some v \<longrightarrow> blob_rows w k v \<noteq> [])"

definition pep_inv :: "'z db_world_scheme \<Rightarrow> bool" where
  "pep_inv w \<longleftrightarrow> client_ready w \<and> tables_ok w"

lemma client_ready_part: "client_part w' = client_part w \<Longrightarrow> client_ready w' = client_ready w"
  by (simp add: client_ready_def client_part_def connected_def nodes_def resolve_def)

lemma ready_temp: "client_ready w \<Longrightarrow> no_slash k \<Longrightarrow> no_slash (none_str br) \<Longrightarrow> temp_ready app_home k br w"
  by (simp add: client_ready_def temp_ready_def no_slash_def)

lemma contents_rows: "tables_ok w \<Longrightarrow> pep_contents w k v = Some c \<Longrightarrow> blob_rows w k v \<noteq> [] \<and> (\<forall>(k', b', v', x) \<in> set (blob_rows w k v). x = c)"
  unfolding tables_ok_def pep_contents_def
  by (cases "blob_rows w k v") (auto split: prod.splits, metis (no_types) Suc_le_mono length_Cons length_0_conv list.size(3) le_zero_eq One_nat_def empty_iff list.set(1))

lemma local_step_view:
  assumes "local_step w w'"
  shows "head_at w' = head_at w" "blob_rows w' = blob_rows w" "pep_contents w' = pep_contents w" "pep_inv w' = pep_inv w"
proof -
  obtain f n where w': "w' = w\<lparr>fw_files := f, fw_clock := n\<rparr>" and dirs: "\<And>q. nodes w' q = Some Dir \<longleftrightarrow> nodes w q = Some Dir"
    using assms by (auto simp: local_step_def)
  have t: "blobs w' = blobs w" "heads w' = heads w" unfolding w' by (rule local_steps)+
  show b: "blob_rows w' = blob_rows w" by (simp add: blob_rows_def t fun_eq_iff)
  have r: "head_rows w' = head_rows w" by (simp add: head_rows_def t fun_eq_iff)
  show hd: "head_at w' = head_at w" by (simp add: head_at_def r fun_eq_iff)
  show "pep_contents w' = pep_contents w" by (simp add: pep_contents_def b fun_eq_iff)
  have "resolve w' p = resolve w p" for p by (simp add: w' resolve_def)
  moreover have "fw_time w' = fw_time w" "connected i w' = connected i w" by (simp_all add: w' connected_def)
  ultimately show "pep_inv w' = pep_inv w" by (simp add: pep_inv_def client_ready_def tables_ok_def unique_heads_def b r hd dirs)
qed

text \<open>Putting: the content of the value and its stamp.\<close>

lemma put_view:
  assumes "pep_inv w" and c: "pep_content sha256 k br d v w = (Inr (c, pep_stamp w k br b), w\<lparr>fw_clock := n\<rparr>)"
    and b: "blob_bytes c = b" and new: "pep_contents w k (pep_stamp w k br b) = None"
  shows "\<exists>w'. pep_put A sha256 i k br d v w = (Inr (StorageReturn (VDict [(''Version'', Some (pep_stamp w k br b))])), w')
    \<and> pep_inv w' \<and> pep_contents w' = (pep_contents w)(k := (pep_contents w k)(pep_stamp w k br b \<mapsto> b))
    \<and> head_at w' = (head_at w)(k := (head_at w k)(br \<mapsto> pep_stamp w k br b)) \<and> pep_local w' = pep_local w"
proof -
  let ?h = "pep_stamp w k br b"
  have I: "client_ready w" "tables_ok w" "connected i w" "unique_heads w"
    using assms(1) by (simp_all add: pep_inv_def client_ready_def tables_ok_def)
  obtain w' where w': "pep_put A sha256 i k br d v w = (Inr (StorageReturn (VDict [(''Version'', Some ?h)])), w')"
    "blobs w' = blobs w @ [(k, br, ?h, b)]" "client_part w' = client_part (w\<lparr>fw_clock := n\<rparr>)" "unique_heads w'"
    "\<And>k' b'. head_at w' k' b' = (if k' = k \<and> b' = br then Some ?h else head_at w k' b')"
    using put_run [OF I(3,4) sha_length c] unfolding b by blast
  have rows: "blob_rows w' k' v' = blob_rows w k' v' @ (if k = k' \<and> ?h = v' then [(k, br, ?h, b)] else [])" for k' v'
    by (auto simp: blob_rows_def w'(2))
  have none: "blob_rows w k ?h = []" using new by (auto simp: pep_contents_def split: list.splits)
  have "client_ready w'" using I(1) client_ready_part [OF w'(3)] by (simp add: client_ready_def connected_def resolve_def)
  moreover have "tables_ok w'" using I(2) w'(4) none by (auto simp: tables_ok_def rows w'(5) split: if_splits)
  moreover have "pep_contents w' = (pep_contents w)(k := (pep_contents w k)(?h \<mapsto> b))"
    using none by (auto simp: pep_contents_def rows fun_eq_iff)
  moreover have "head_at w' = (head_at w)(k := (head_at w k)(br \<mapsto> ?h))" by (auto simp: w'(5) fun_eq_iff)
  moreover have "pep_local w' = pep_local w" using w'(3) by (simp add: pep_local_def client_part_def nodes_def resolve_def fun_eq_iff)
  ultimately show ?thesis using w'(1) by (auto simp: pep_inv_def)
qed

end

text \<open>Every law of the contract, for the engine on such a database.\<close>

sublocale exact_tables \<subseteq> store: version_store "pep_store A app_home sha256 i" pep_inv pep_contents head_at pep_local pep_stamp no_slash
proof
  fix w :: "'z db_world_scheme" and p b k br h v d
  show "pep_local w p = Some b \<Longrightarrow> read_bytes p w = (Inr b, w)"
    by (rule read_bytes_ok) (auto simp: pep_local_def split: if_splits)
  assume ok: "pep_inv w"
  then have I: "client_ready w" "tables_ok w" "connected i w" "unique_heads w"
    by (simp_all add: pep_inv_def client_ready_def tables_ok_def)
  show "CHR 0x0D \<notin> set (pep_stamp w k br b)" by (simp add: pep_stamp_def sha_text)
  show some: "head_at w k br = Some h \<Longrightarrow> \<exists>b. pep_contents w k h = Some b"
    using I(2) by (cases "blob_rows w k h") (auto simp: tables_ok_def pep_contents_def)
  have text_new: "pep_content sha256 k br STRING v w = (Inr (SqlText v, pep_stamp w k br (utf8 v)), w\<lparr>fw_clock := Suc (fw_clock w)\<rparr>)"
    by (simp add: pep_content_def io_bind_def time_now_def pep_stamp_def utf8_def)
  show "pep_contents w k (pep_stamp w k br (utf8 v)) = None \<Longrightarrow>
      \<exists>w'. ps_put (pep_store A app_home sha256 i) k br STRING v w
          = (Inr (StorageReturn (VDict [(''Version'', Some (pep_stamp w k br (utf8 v)))])), w')
        \<and> pep_inv w' \<and> pep_contents w' = (pep_contents w)(k := (pep_contents w k)(pep_stamp w k br (utf8 v) \<mapsto> utf8 v))
        \<and> head_at w' = (head_at w)(k := (head_at w k)(br \<mapsto> pep_stamp w k br (utf8 v))) \<and> pep_local w' = pep_local w"
    using put_view [OF ok text_new] by (simp add: pep_store_def)
  show "pep_local w p = Some b \<Longrightarrow> pep_contents w k (pep_stamp w k br b) = None \<Longrightarrow>
      \<exists>w'. ps_put (pep_store A app_home sha256 i) k br FILE p w = (Inr (StorageReturn (VDict [(''Version'', Some (pep_stamp w k br b))])), w')
        \<and> pep_inv w' \<and> pep_contents w' = (pep_contents w)(k := (pep_contents w k)(pep_stamp w k br b \<mapsto> b))
        \<and> head_at w' = (head_at w)(k := (head_at w k)(br \<mapsto> pep_stamp w k br b)) \<and> pep_local w' = pep_local w"
  proof -
    assume l: "pep_local w p = Some b" and new: "pep_contents w k (pep_stamp w k br b) = None"
    let ?w = "w\<lparr>fw_clock := Suc (fw_clock w)\<rparr>"
    have "read_bytes p ?w = (Inr b, ?w)" by (rule read_bytes_ok) (use l in \<open>auto simp: pep_local_def split: if_splits\<close>)
    then have "pep_content sha256 k br FILE p w = (Inr (SqlBytes b, pep_stamp w k br b), ?w)"
      by (simp add: pep_content_def io_bind_def time_now_def pep_stamp_def)
    from put_view [OF ok this _ new] show ?thesis by (simp add: pep_store_def)
  qed
  assume k: "no_slash k"
  show "pep_contents w k h = Some b \<Longrightarrow>
      \<exists>w' p. ps_get (pep_store A app_home sha256 i) k None (Some h) FILE w = (Inr (Some p), w') \<and> pep_inv w' \<and> pep_contents w' = pep_contents w
        \<and> head_at w' = head_at w \<and> pep_local w' p = Some b"
  proof -
    assume c: "pep_contents w k h = Some b"
    have "temp_ready app_home k None w" by (rule ready_temp [OF I(1) k]) (simp add: no_slash_def none_str_def)
    from get_steps(1) [OF I(3,4) this _ conjunct1 [OF contents_rows [OF I(2) c]] conjunct2 [OF contents_rows [OF I(2) c]], of "Some h"]
    obtain p w' where "pep_get A app_home i k None (Some h) FILE w = (Inr (Some p), w')" "p \<noteq> []"
        "nodes w' (resolve w' p) = Some (File b)" "local_step w w'" by auto
    then show ?thesis using ok local_step_view by (auto simp: pep_store_def pep_local_def)
  qed
  assume br: "no_slash br"
  have ready: "temp_ready app_home k (Some br) w" by (rule ready_temp [OF I(1) k]) (use br in \<open>simp add: none_str_def\<close>)
  show "head_at w k br = None \<Longrightarrow>
      \<exists>w'. ps_get (pep_store A app_home sha256 i) k (Some br) None d w = (Inr None, w') \<and> pep_inv w' \<and> pep_contents w' = pep_contents w
        \<and> head_at w' = head_at w \<and> pep_local w' = pep_local w"
    using ok by (simp add: pep_store_def pep_get_def io_then_def io_bind_def check_run [OF I(3)] head_run [OF I(3,4)])
  show "head_at w k br = Some h \<Longrightarrow> pep_contents w k h = Some (utf8 v) \<Longrightarrow> CHR 0x0D \<notin> set v \<Longrightarrow>
      \<exists>w'. ps_get (pep_store A app_home sha256 i) k (Some br) None STRING w = (Inr (Some v), w') \<and> pep_inv w'
        \<and> pep_contents w' = pep_contents w \<and> head_at w' = head_at w"
  proof -
    assume a: "head_at w k br = Some h" "pep_contents w k h = Some (utf8 v)" "CHR 0x0D \<notin> set v"
    from get_steps(2) [OF I(3,4) ready _ conjunct1 [OF contents_rows [OF I(2) a(2)]] conjunct2 [OF contents_rows [OF I(2) a(2)]] refl a(3), of None]
    obtain w' where "pep_get A app_home i k (Some br) None STRING w = (Inr (Some v), w')" "local_step w w'" using a(1) by auto
    then show ?thesis using ok local_step_view by (auto simp: pep_store_def)
  qed
  show "head_at w k br = Some h \<Longrightarrow> pep_contents w k h = Some b \<Longrightarrow>
      \<exists>w' p. ps_get (pep_store A app_home sha256 i) k (Some br) None FILE w = (Inr (Some p), w') \<and> pep_inv w'
        \<and> pep_contents w' = pep_contents w \<and> head_at w' = head_at w \<and> pep_local w' p = Some b"
  proof -
    assume a: "head_at w k br = Some h" "pep_contents w k h = Some b"
    from get_steps(1) [OF I(3,4) ready _ conjunct1 [OF contents_rows [OF I(2) a(2)]] conjunct2 [OF contents_rows [OF I(2) a(2)]], of None]
    obtain p w' where "pep_get A app_home i k (Some br) None FILE w = (Inr (Some p), w')" "p \<noteq> []"
        "nodes w' (resolve w' p) = Some (File b)" "local_step w w'" using a(1) by auto
    then show ?thesis using ok local_step_view by (auto simp: pep_store_def pep_local_def)
  qed
qed


section \<open>Semantic versions in a database\<close>

context exact_tables begin

lemmas semantic_put_get = store.semantic_put_get

end

lemma plain_name_no_slash: "plain_name s \<Longrightarrow> no_slash s"
  by (simp add: plain_name_def no_slash_def)

text \<open>
  C18 (roundtrip). The relational engine does what the file system engine does: a file put under a key into a semantic storage over it is what
  \<open>get_semantic_version\<close> returns for the key afterwards, byte for byte, and what was found under every other key is found
  unchanged. This holds over every database with the laws of \<open>sql_tables\<close> that compares texts exactly, if the two hashes the
  put computes are not versions already.
\<close>
theorem sql_put_get:
  assumes db: "exact_tables A h blobs heads sha256" and inv: "exact_tables.pep_inv h blobs heads i app_home w"
    and key: "storable pre key" and given: "pep_local w path = Some b"
    and new: "exact_tables.pep_contents blobs w (form_entity_key pre key)
      (exact_tables.pep_stamp sha256 w (form_entity_key pre key) (key_branch key) b) = None"
    and mid: "file_put (pep_store A app_home sha256 i) (form_entity_key pre key) (key_branch key) path w = (Inr v, w1)"
      "exact_tables.pep_contents blobs w1 (form_version_key pre key)
        (exact_tables.pep_stamp sha256 w1 (form_version_key pre key) (key_branch key) (utf8 v)) = None"
  shows "\<exists>w2 p w3. semantic_put (pep_store A app_home sha256 i) pre key path w = (Inr (), w2)
    \<and> semantic_get_version (pep_store A app_home sha256 i) pre key w2 = (Inr p, w3) \<and> read_bytes p w3 = (Inr b, w3)
    \<and> (\<forall>pre' key' b'. no_colon pre' \<and> wf_key key' \<and> (pre', key') \<noteq> (pre, key)
         \<and> semantic_lookup (exact_tables.pep_contents blobs) (sql_tables.head_at (=) heads) w pre' key' = Some b'
         \<longrightarrow> semantic_lookup (exact_tables.pep_contents blobs) (sql_tables.head_at (=) heads) w3 pre' key' = Some b')"
proof -
  have names: "no_slash (form_entity_key pre key)" "no_slash (form_version_key pre key)" "no_slash (key_branch key)"
    using storable_plain [OF key] plain_name_no_slash by blast+
  have "no_colon pre" "wf_key key" using key by (simp_all add: storable_def)
  from exact_tables.semantic_put_get [OF db inv this names given new mid] show ?thesis by fastforce
qed

text \<open>The in-memory database.\<close>

definition mem_digest :: "string \<Rightarrow> string" where
  "mem_digest x = replicate 64 (CHR ''a'')"

interpretation mem_store: exact_tables mem_api h mw_blobs mw_heads mem_digest i app_home for h i app_home
  by unfold_locales (simp_all add: mem_digest_def)

definition mem_client :: mem_world where
  "mem_client = mem0\<lparr>fw_files := [([''h''], Dir), ([''h'', ''sgx''], Dir), ([''h'', ''sgx'', ''gemini-pipeline''], Dir),
     ([''h'', ''sgx'', ''gemini-pipeline'', ''gemini-pipeline''], Dir), ([''h'', ''sgx'', ''gemini-pipeline'', ''gemini-pipeline'', ''temp''], Dir),
     ([''d''], File ''model'')]\<rparr>"


lemma mem_client_ready: "exact_tables.pep_inv 7 mw_blobs mw_heads i ''/h'' mem_client"
proof -
  have dir: "path_of (fw_cwd mem_client) (pep_temp_path ''/h'') = [''h'', ''sgx'', ''gemini-pipeline'', ''gemini-pipeline'', ''temp'']"
    by code_simp
  have empty: "mw_heads mem_client = []" "mw_blobs mem_client = []" by (simp_all add: mem_client_def mem0_def)
  have "mem_store.client_ready 7 i ''/h'' mem_client"
    unfolding mem_store.client_ready_def mem.connected_def resolve_def dir
    by (simp add: mem_client_def mem0_def mem_object_def nodes_def fs_node_def od_get_def)
  moreover have "mem_store.tables_ok mem_client"
    by (simp add: mem_store.tables_ok_def mem.unique_heads_def mem.head_rows_def mem.head_at_def mem.blob_rows_def empty)
  ultimately show ?thesis by (simp add: mem_store.pep_inv_def)
qed

theorem sql_put_get_witness:
  "\<exists>w2 p w3. semantic_put (pep_store mem_api ''/h'' mem_digest 0) ''LibraryStorage'' the_key ''/d'' mem_client = (Inr (), w2)
     \<and> semantic_get_version (pep_store mem_api ''/h'' mem_digest 0) ''LibraryStorage'' the_key w2 = (Inr p, w3)
     \<and> read_bytes p w3 = (Inr ''model'', w3)"
proof -
  let ?E = "form_entity_key ''LibraryStorage'' the_key" and ?V = "form_version_key ''LibraryStorage'' the_key"
  have ne: "?V \<noteq> ?E" by code_simp
  have none: "exact_tables.pep_contents mw_blobs mem_client k v = None" for k v
    by (simp add: mem_store.pep_contents_def mem.blob_rows_def mem_client_def mem0_def)
  have "path_of (fw_cwd mem_client) ''/d'' = [''d'']" by code_simp
  then have d: "pep_local mem_client ''/d'' = Some ''model''"
    by (simp add: pep_local_def resolve_def nodes_def fs_node_def mem_client_def od_get_def)
  have names: "no_slash ?E" "no_slash (key_branch the_key)" using storable_plain [OF the_key_storable] plain_name_no_slash by blast+
  obtain w1 v where w1: "file_put (pep_store mem_api ''/h'' mem_digest 0) ?E (key_branch the_key) ''/d'' mem_client = (Inr v, w1)"
      "exact_tables.pep_contents mw_blobs w1 = (exact_tables.pep_contents mw_blobs mem_client)
         (?E := (exact_tables.pep_contents mw_blobs mem_client ?E)(v \<mapsto> ''model''))"
    using mem_store.store.file_put_ok [OF mem_client_ready names d none] by blast
  have "exact_tables.pep_contents mw_blobs w1 ?V x = None" for x using ne w1(2) none by simp
  from sql_put_get [OF mem_store.exact_tables_axioms mem_client_ready the_key_storable d none w1(1) this] show ?thesis by blast
qed

end
