(* ===== verification/Push.thy ===== *)
theory Push
  imports WebApi "HOL-Library.Sublist" "HOL-Library.Multiset"
begin

text \<open>
  The websockets of \<^verbatim>\<open>pysrc/daemon/webapi.py\<close> and the queues they wait on: one in the scheduler, one in the task monitor
  (\<^verbatim>\<open>daemon/coordinator.py\<close>), one for log entries (\<^verbatim>\<open>pipeman/utils.py\<close>). A step relation interleaves any number of clients with the
  coordinator and the loggers. How JSON writes a log entry is a parameter, because its id is a float.
\<close>

section \<open>Queues\<close>

text \<open>\<open>TaskMonitor.notify\<close>: there is one publisher; for any other name the queue is \<open>None\<close>, and \<open>notify\<close> swallows the exception.\<close>

definition monitor_notify :: "string \<Rightarrow> bool list \<Rightarrow> bool list" where
  "monitor_notify publisher queue = (if publisher = ''pipeline_update'' then notify 1 queue else queue)"

text \<open>\<open>asyncio.Queue.get\<close>: the first item, or nothing yet. Waiting for an unknown publisher is an \<open>AttributeError\<close>.\<close>

definition queue_get :: "'a list \<Rightarrow> ('a \<times> 'a list) option" where
  "queue_get q = (case q of [] \<Rightarrow> None | x # xs \<Rightarrow> Some (x, xs))"

definition monitor_wait :: "string \<Rightarrow> bool list \<Rightarrow> (bool \<times> bool list) option result" where
  "monitor_wait publisher queue = (if publisher = ''pipeline_update'' then Inr (queue_get queue) else Inl AttributeError)"

section \<open>Clients\<close>

datatype topic = PoolPush | PipelinesPush | LogsPush

text \<open>A text is pending while \<open>websocket.send\<close> is under way. A client that has gone keeps its record.\<close>

record push_client =
  cl_topic :: topic
  cl_open :: bool
  cl_pending :: "string option"
  cl_sent :: "string list"

record push_state =
  pu_coord :: web_coordinator
  pu_pool_queue :: "bool list"
  pu_pipeline_queue :: "bool list"
  pu_logs :: "log_entry list \<times> log_entry list"
  pu_clients :: "push_client list"

definition push_start :: "web_coordinator \<Rightarrow> push_state" where
  "push_start C = \<lparr>pu_coord = C, pu_pool_queue = [], pu_pipeline_queue = [], pu_logs = ([], []), pu_clients = []\<rparr>"

definition new_client :: "topic \<Rightarrow> push_client" where
  "new_client t = \<lparr>cl_topic = t, cl_open = True, cl_pending = None, cl_sent = []\<rparr>"

definition dict_text :: "(string, json) odict result \<Rightarrow> string result" where
  "dict_text r = res_bind r (\<lambda>d. Inr (dumps (JObj d)))"

text \<open>
  One round of the loop \<open>sending\<close>, up to the call of \<open>send\<close>: nothing while the queue is empty, else the text to send,
  or the exception of the dictionary.
\<close>

definition pool_push :: "push_state \<Rightarrow> (string result \<times> push_state) option" where
  "pool_push st =
     (case queue_get (pu_pool_queue st) of
        None \<Rightarrow> None
      | Some (_, q) \<Rightarrow> Some (dict_text (pool_info_dict (wc_env (pu_coord st)) (wc_scheduler (pu_coord st))), st\<lparr>pu_pool_queue := q\<rparr>))"

definition pipelines_push :: "push_state \<Rightarrow> (string result \<times> push_state) option" where
  "pipelines_push st =
     (case monitor_wait ''pipeline_update'' (pu_pipeline_queue st) of
        Inl e \<Rightarrow> Some (Inl e, st)
      | Inr None \<Rightarrow> None
      | Inr (Some (_, q)) \<Rightarrow>
          (let C = pu_coord st; E = wc_env C
           in Some (dict_text (pipelines_info_dict (se_sha256 E) (wc_address C) (se_world E) (se_process E) (se_comp E) (wc_monitor C)),
                st\<lparr>pu_pipeline_queue := q\<rparr>)))"

definition logs_push :: "(log_entry \<Rightarrow> string) \<Rightarrow> push_state \<Rightarrow> (string result \<times> push_state) option" where
  "logs_push dump st =
     (case queue_get (snd (pu_logs st)) of
        None \<Rightarrow> None
      | Some (e, q) \<Rightarrow> Some (Inr (dump e), st\<lparr>pu_logs := (fst (pu_logs st), q)\<rparr>))"

definition push_fetch :: "(log_entry \<Rightarrow> string) \<Rightarrow> topic \<Rightarrow> push_state \<Rightarrow> (string result \<times> push_state) option" where
  "push_fetch dump t = (case t of PoolPush \<Rightarrow> pool_push | PipelinesPush \<Rightarrow> pipelines_push | LogsPush \<Rightarrow> logs_push dump)"

definition set_client :: "nat \<Rightarrow> push_client \<Rightarrow> push_state \<Rightarrow> push_state" where
  "set_client i c st = st\<lparr>pu_clients := (pu_clients st)[i := c]\<rparr>"

section \<open>Steps\<close>

text \<open>
  A client connects or leaves, a waiting client is served, a text has been sent, something is logged, or the coordinator does
  anything to its scheduler and monitor: that puts nothing into the two queues, as every call of \<open>notify\<close> in
  \<^verbatim>\<open>scheduler.py\<close>, \<^verbatim>\<open>workerconn.py\<close> and \<^verbatim>\<open>daemon/coordinator.py\<close> is commented out. The list has the entries that are logged.
\<close>

inductive push_step :: "(log_entry \<Rightarrow> string) \<Rightarrow> log_entry list \<Rightarrow> push_state \<Rightarrow> push_state \<Rightarrow> bool" for dump where
  Connect: "push_step dump [] st (st\<lparr>pu_clients := pu_clients st @ [new_client t]\<rparr>)"
| Work: "push_step dump [] st (st\<lparr>pu_coord := C\<rparr>)"
| Log: "push_step dump [last (snd (log_emit t l n m (pu_logs st)))] st (st\<lparr>pu_logs := log_emit t l n m (pu_logs st)\<rparr>)"
| Fetch: "\<lbrakk>i < length (pu_clients st); c = pu_clients st ! i; cl_open c; cl_pending c = None; push_fetch dump (cl_topic c) st = Some (Inr msg, st')\<rbrakk> \<Longrightarrow>
    push_step dump [] st (set_client i (c\<lparr>cl_pending := Some msg\<rparr>) st')"
| Fail: "\<lbrakk>i < length (pu_clients st); c = pu_clients st ! i; cl_open c; cl_pending c = None; push_fetch dump (cl_topic c) st = Some (Inl e, st')\<rbrakk> \<Longrightarrow>
    push_step dump [] st (set_client i (c\<lparr>cl_open := False\<rparr>) st')"
| Send: "\<lbrakk>i < length (pu_clients st); c = pu_clients st ! i; cl_open c; cl_pending c = Some msg\<rbrakk> \<Longrightarrow>
    push_step dump [] st (set_client i (c\<lparr>cl_pending := None, cl_sent := cl_sent c @ [msg]\<rparr>) st)"
| Leave: "\<lbrakk>i < length (pu_clients st); c = pu_clients st ! i; cl_open c\<rbrakk> \<Longrightarrow>
    push_step dump [] st (set_client i (c\<lparr>cl_open := False\<rparr>) st)"

inductive push_runs :: "(log_entry \<Rightarrow> string) \<Rightarrow> web_coordinator \<Rightarrow> log_entry list \<Rightarrow> push_state \<Rightarrow> bool" for dump C where
  Start: "push_runs dump C [] (push_start C)"
| Step: "push_runs dump C es st \<Longrightarrow> push_step dump fs st st' \<Longrightarrow> push_runs dump C (es @ fs) st'"

section \<open>What is delivered\<close>

text \<open>What was taken for a client: sent, or pending (and lost, if it has gone).\<close>

definition taken_for :: "push_client \<Rightarrow> string list" where
  "taken_for c = cl_sent c @ (case cl_pending c of None \<Rightarrow> [] | Some t \<Rightarrow> [t])"

definition deliveries :: "push_state \<Rightarrow> string multiset" where
  "deliveries st = (\<Sum>c \<leftarrow> pu_clients st. mset (taken_for c))"

definition client_ok :: "string list \<Rightarrow> push_client \<Rightarrow> bool" where
  "client_ok out c \<longleftrightarrow> subseq (taken_for c) out \<and> (cl_topic c \<noteq> LogsPush \<longrightarrow> taken_for c = [])"

definition push_inv :: "(log_entry \<Rightarrow> string) \<Rightarrow> log_entry list \<Rightarrow> push_state \<Rightarrow> bool" where
  "push_inv dump es st \<longleftrightarrow> pu_pool_queue st = [] \<and> pu_pipeline_queue st = [] \<and> fst (pu_logs st) = drop (length es - 100) es \<and>
     (\<exists>out. es = out @ snd (pu_logs st) \<and> mset (map dump out) = deliveries st \<and> list_all (client_ok (map dump out)) (pu_clients st))"

lemma sum_list_update_mset:
  assumes "i < length xs" and "f y = f (xs ! i) + d"
  shows "(\<Sum>x \<leftarrow> xs[i := y]. f x) = (\<Sum>x \<leftarrow> xs. f x) + (d :: 'b multiset)"
  using assms
proof (induction xs arbitrary: i)
  case (Cons x xs)
  then show ?case by (cases i) (auto simp: ac_simps)
qed simp

text \<open>Replacing a client by one for which the same was taken.\<close>

lemma set_client_same:
  assumes "push_inv dump es st" and "i < length (pu_clients st)"
    and "taken_for c = taken_for (pu_clients st ! i)" and "cl_topic c = cl_topic (pu_clients st ! i)"
  shows "push_inv dump es (set_client i c st)"
proof -
  obtain out where o: "es = out @ snd (pu_logs st)" "mset (map dump out) = deliveries st" "list_all (client_ok (map dump out)) (pu_clients st)"
    using assms(1) by (auto simp: push_inv_def)
  have "deliveries (set_client i c st) = deliveries st"
    using sum_list_update_mset [of i "pu_clients st" "\<lambda>c. mset (taken_for c)" c "{#}"] assms(2,3)
    by (simp add: deliveries_def set_client_def)
  moreover have "list_all (client_ok (map dump out)) (pu_clients (set_client i c st))"
    using o(3) assms(2-4) by (auto simp: list_all_length set_client_def nth_list_update client_ok_def)
  ultimately show ?thesis using assms(1) o by (auto simp: push_inv_def set_client_def)
qed

lemma log_emit_appends: "log_emit t l n m (store, q) = (deque_append 100 e store, q @ [e])"
  if "e = last (snd (log_emit t l n m (store, q)))"
  using that by (simp add: log_emit_def Let_def)

lemma deque_append_recent: "deque_append 100 e (drop (length es - 100) es) = drop (length (es @ [e]) - 100) (es @ [e])"
proof (cases "length es \<le> 99")
  case True
  then show ?thesis by (simp add: deque_append_def)
next
  case False
  then have "length (drop (length es - 100) es) = 100 \<and> Suc (length es) - 100 = Suc (length es - 100) \<or> length es - 100 = 0 \<and> length es = 100"
    by auto
  then show ?thesis using False by (auto simp: deque_append_def Suc_diff_le)
qed

lemma push_step_inv:
  assumes "push_inv dump es st" and "push_step dump fs st st'"
  shows "push_inv dump (es @ fs) st'"
  using assms(2)
proof cases
  case (Connect t)
  then show ?thesis
    using assms(1) by (auto simp: push_inv_def deliveries_def new_client_def taken_for_def client_ok_def)
next
  case (Work C)
  then show ?thesis using assms(1) by (simp add: push_inv_def deliveries_def)
next
  case (Log t l n m)
  obtain store q where s: "pu_logs st = (store, q)" by fastforce
  define e where "e = last (snd (log_emit t l n m (store, q)))"
  have em: "log_emit t l n m (store, q) = (deque_append 100 e store, q @ [e])" using log_emit_appends e_def by blast
  have "fs = [e]" "st' = st\<lparr>pu_logs := (deque_append 100 e store, q @ [e])\<rparr>" using Log s em by simp_all
  moreover have "store = drop (length es - 100) es" using assms(1) s by (simp add: push_inv_def)
  ultimately show ?thesis
    using assms(1) deque_append_recent [of e es] by (auto simp: push_inv_def s deliveries_def)
next
  case (Fetch i c msg st1)
  obtain out where o: "es = out @ snd (pu_logs st)" "mset (map dump out) = deliveries st" "list_all (client_ok (map dump out)) (pu_clients st)"
    using assms(1) by (auto simp: push_inv_def)
  have idle: "pu_pool_queue st = []" "pu_pipeline_queue st = []" using assms(1) by (simp_all add: push_inv_def)
  have topic: "cl_topic c = LogsPush"
    using Fetch(7) idle by (cases "cl_topic c") (simp_all add: push_fetch_def pool_push_def pipelines_push_def queue_get_def monitor_wait_def)
  with Fetch(7) obtain e q where q: "snd (pu_logs st) = e # q" "msg = dump e" "st1 = st\<lparr>pu_logs := (fst (pu_logs st), q)\<rparr>"
    by (auto simp: push_fetch_def logs_push_def queue_get_def split: list.splits)
  let ?c = "c\<lparr>cl_pending := Some msg\<rparr>" and ?out = "map dump out @ [msg]"
  have c: "taken_for ?c = taken_for c @ [msg]" using Fetch(6) by (simp add: taken_for_def)
  have "deliveries (set_client i ?c st1) = deliveries st + {#msg#}"
    using sum_list_update_mset [of i "pu_clients st" "\<lambda>c. mset (taken_for c)" ?c "{#msg#}"] Fetch(3,4) c q(3)
    by (simp add: deliveries_def set_client_def)
  moreover have "list_all (client_ok ?out) (pu_clients (set_client i ?c st1))"
    using o(3) Fetch(3,4) q(3) c topic
    by (auto simp: list_all_length set_client_def nth_list_update client_ok_def list_emb_append2 intro: list_emb_append_mono)
  ultimately show ?thesis
    using assms(1) o q Fetch(1,2) by (auto simp: push_inv_def set_client_def intro!: exI [of _ "out @ [e]"])
next
  case (Fail i c e st1)
  have idle: "pu_pool_queue st = []" "pu_pipeline_queue st = []" using assms(1) by (simp_all add: push_inv_def)
  with Fail(7) show ?thesis
    by (cases "cl_topic c") (auto simp: push_fetch_def pool_push_def pipelines_push_def logs_push_def queue_get_def monitor_wait_def split: list.splits)
next
  case (Send i c msg)
  then show ?thesis using set_client_same [OF assms(1)] by (simp add: taken_for_def)
next
  case (Leave i c)
  then show ?thesis using set_client_same [OF assms(1)] by (simp add: taken_for_def)
qed

lemma push_runs_inv: "push_runs dump C es st \<Longrightarrow> push_inv dump es st"
proof (induction rule: push_runs.induct)
  case Start
  then show ?case by (simp add: push_inv_def push_start_def deliveries_def)
next
  case (Step es st fs st')
  then show ?case by (simp add: push_step_inv)
qed


text \<open>Two pages are open, two entries are logged: each page is sent one of them.\<close>

definition entry :: "int \<Rightarrow> string \<Rightarrow> log_entry" where
  "entry t m = \<lparr>le_time = t, le_level = ''INFO'', le_module = ''Scheduler'', le_msg = m\<rparr>"

definition two_entries :: "log_entry list" where
  "two_entries = [entry 1 ''a'', entry 2 ''b'']"

lemma serve_log:
  assumes run: "push_runs dump C es st" and i: "i < length (pu_clients st)"
    and c: "pu_clients st ! i = \<lparr>cl_topic = LogsPush, cl_open = True, cl_pending = None, cl_sent = s\<rparr>"
    and q: "pu_logs st = (store, e # q)"
  shows "push_runs dump C es (st\<lparr>pu_logs := (store, q),
    pu_clients := (pu_clients st)[i := \<lparr>cl_topic = LogsPush, cl_open = True, cl_pending = None, cl_sent = s @ [dump e]\<rparr>]\<rparr>)"
proof -
  let ?c = "pu_clients st ! i" and ?st1 = "st\<lparr>pu_logs := (store, q)\<rparr>"
  have "push_fetch dump (cl_topic ?c) st = Some (Inr (dump e), ?st1)" by (simp add: c push_fetch_def logs_push_def queue_get_def q)
  from push_step.Fetch [OF i refl _ _ this] have "push_step dump [] st (set_client i (?c\<lparr>cl_pending := Some (dump e)\<rparr>) ?st1)"
    by (simp add: c)
  from push_runs.Step [OF run this]
  have run1: "push_runs dump C es (set_client i (?c\<lparr>cl_pending := Some (dump e)\<rparr>) ?st1)" (is "push_runs _ _ _ ?st2") by simp
  have "push_step dump [] ?st2 (set_client i ((pu_clients ?st2 ! i)\<lparr>cl_pending := None, cl_sent := cl_sent (pu_clients ?st2 ! i) @ [dump e]\<rparr>) ?st2)"
    using i by (intro push_step.Send [OF _ refl]) (simp_all add: set_client_def c)
  from push_runs.Step [OF run1 this] show ?thesis using i by (simp add: set_client_def c)
qed

lemma two_pages:
  "\<exists>st. push_runs le_msg C two_entries st \<and> map cl_sent (pu_clients st) = [[''a''], [''b'']]"
proof -
  note step = push_runs.Step
  let ?a = "entry 1 ''a''" and ?b = "entry 2 ''b''" and ?page = "\<lambda>s. \<lparr>cl_topic = LogsPush, cl_open = True, cl_pending = None, cl_sent = s\<rparr>"
  let ?st = "\<lambda>store q clients. \<lparr>pu_coord = C, pu_pool_queue = [], pu_pipeline_queue = [], pu_logs = (store, q), pu_clients = clients\<rparr>"
  have plain: "remove_ansi_color_escape ''a'' = ''a''" "remove_ansi_color_escape ''b'' = ''b''" by (simp_all add: remove_ansi_plain)
  have open2: "push_runs le_msg C [] (?st [] [] [?page [], ?page []])"
    using step [OF step [OF push_runs.Start push_step.Connect [where t = LogsPush]] push_step.Connect [where t = LogsPush]]
    by (simp add: push_start_def new_client_def)
  have a: "push_runs le_msg C [?a] (?st [?a] [?a] [?page [], ?page []])"
    using step [OF open2 push_step.Log [where t = 1 and l = "''INFO''" and n = "''Scheduler''" and m = "''a''"]]
    by (simp add: log_emit_def deque_append_def Let_def plain entry_def)
  have ab: "push_runs le_msg C [?a, ?b] (?st [?a, ?b] [?a, ?b] [?page [], ?page []])"
    using step [OF a push_step.Log [where t = 2 and l = "''INFO''" and n = "''Scheduler''" and m = "''b''"]]
    by (simp add: log_emit_def deque_append_def Let_def plain entry_def)
  have ab_msg: "le_msg ?a = ''a''" "le_msg ?b = ''b''" by (simp_all add: entry_def)
  from serve_log [OF ab, of 0] have s1: "push_runs le_msg C [?a, ?b] (?st [?a, ?b] [?b] [?page [''a''], ?page []])"
    by (simp add: ab_msg)
  from serve_log [OF s1, of 1] have "push_runs le_msg C [?a, ?b] (?st [?a, ?b] [] [?page [''a''], ?page [''b'']])"
    by (simp add: ab_msg)
  then show ?thesis unfolding two_entries_def by (rule_tac exI, rule_tac conjI) (assumption, simp)
qed


end
