(* ===== verification/PacSweep.thy ===== *)
theory PacSweep
  imports PacThms Files
begin

text \<open>
  The driver of the simulator, \<^verbatim>\<open>pysrc/pac/test_pac.py\<close>: it simulates the pipeline-aware cache for a range of factors, histories and
  worker sets, and the traditional caches for comparison, and writes the cold starts to CSV files. The pipelines come from numpy's random
  generator and are an argument.
\<close>

text \<open>
  What the simulator's scripts do: files, printed text, and (the plots) calls of the drawing library: a call by its text, or a
  curve with the place of its axes, its points, its label and its other attributes.
\<close>

datatype draw =
    DrawCall string
  | DrawCurve "nat \<times> nat" "(rat \<times> rat) list" string string

record pac_world = file_world +
  pw_out :: string
  pw_draw :: "draw list"

definition print_out :: "string \<Rightarrow> ('z pac_world_scheme, unit) io" where
  "print_out s = io_modify (\<lambda>w. w\<lparr>pw_out := pw_out w @ s\<rparr>)"

definition newline :: string where "newline = [CHR 0x0A]"

section \<open>Numbers as text\<close>

text \<open>
  \<open>repr\<close> of a float with at most four decimals (below \<open>10 ^ 16\<close>): all its digits, at least one after the point.
  Rounding to four decimals is \<open>"{:.4f}".format\<close>, and \<open>float\<close> of that.
\<close>

definition four_digits :: "nat \<Rightarrow> string" where
  "four_digits n = map (\<lambda>d. digit_char (n div d mod 10)) [1000, 100, 10, 1]"

definition float_text :: "rat \<Rightarrow> string" where
  "float_text x =
     (let k = round (x * 10000); n = nat \<bar>k\<bar>; decimals = rev (dropWhile (\<lambda>c. c = CHR ''0'') (rev (four_digits (n mod 10000))))
      in (if k < 0 then ''-'' else []) @ nat_str (n div 10000) @ ''.'' @ (if decimals = [] then ''0'' else decimals))"

definition alpha_at :: "rat \<Rightarrow> nat \<Rightarrow> nat \<Rightarrow> rat" where
  "alpha_at max_alpha iter i = of_int (round ((1 / 10 ^ 10 + max_alpha * (of_nat i / of_nat iter)) * 10000)) / 10000"

datatype py_num = PyFloat rat | PyInt int

fun num_text :: "py_num \<Rightarrow> string" where
  "num_text (PyFloat x) = float_text x"
| "num_text (PyInt i) = int_str i"

section \<open>The simulations\<close>

definition get_test_workspace :: "version list list" where
  "get_test_workspace =
     [[(0, 0), (0, 0), (0, 0), (0, 0), (0, 0)],
      [(0, 0), (1, 0), (1, 0), (0, 0), (0, 1)],
      [(0, 1), (2, 0), (2, 0), (0, 1), (0, 0)],
      [(0, 1), (3, 0), (3, 0), (0, 1), (0, 1)],
      [(0, 0), (0, 0), (3, 0), (1, 0), (0, 0)],
      [(0, 0), (1, 0), (2, 0), (1, 0), (0, 1)],
      [(0, 1), (2, 0), (1, 0), (1, 1), (0, 0)],
      [(0, 1), (3, 0), (0, 0), (1, 1), (0, 1)]]"

text \<open>\<open>test_vsm_transform\<close>: one simulation for every factor; the table has the factors and the cold starts.\<close>

definition vsm_row ::
    "(rat list \<Rightarrow> nat list) \<Rightarrow> version list list \<Rightarrow> int \<Rightarrow> int \<Rightarrow> nat \<Rightarrow> rat \<Rightarrow> bool \<Rightarrow> bool \<Rightarrow> nat \<Rightarrow> ('z pac_world_scheme, py_num \<times> int) io" where
  "vsm_row argsort ps max_history worker_set_size iter max_alpha enable_sl enable_ul i =
     (let alpha = alpha_at max_alpha iter i
      in io_bind (io_lift (simulate argsort max_history worker_set_size alpha enable_sl enable_ul ps)) (\<lambda>c.
         io_then (print_out (''alpha: '' @ float_text alpha @ '', cache miss: '' @ nat_str (bc_cold_start c) @ newline))
           (io_return (PyFloat alpha, int (bc_cold_start c)))))"

definition test_vsm_transform ::
    "(rat list \<Rightarrow> nat list) \<Rightarrow> version list list \<Rightarrow> int \<Rightarrow> int \<Rightarrow> nat \<Rightarrow> rat \<Rightarrow> bool \<Rightarrow> bool \<Rightarrow> ('z pac_world_scheme, (py_num \<times> int) list) io" where
  "test_vsm_transform argsort ps max_history worker_set_size iter max_alpha enable_sl enable_ul =
     io_map (vsm_row argsort ps max_history worker_set_size iter max_alpha enable_sl enable_ul) [0..<iter]"

text \<open>
  \<open>test_traditional\<close>: enumerating a pipeline numbers its items, which are pairs already, so what such a cache sees as a version
  is the pair of a component and its version.
\<close>

definition serve_all :: "(nat \<times> nat \<times> version \<Rightarrow> 'c \<Rightarrow> (bool \<times> 'c) result) \<Rightarrow> version list list \<Rightarrow> 'c \<Rightarrow> 'c result" where
  "serve_all get ps c =
     res_fold (\<lambda>p c. res_bind (from_version_list p) (\<lambda>q.
       res_bind (requests get (enumerate 0 (pipeline_items q)) c) (\<lambda>(_, c'). Inr c'))) ps c"

datatype cache_cls = LRUCache | FIFOCache | LFUCache

definition traditional_misses :: "cache_cls \<Rightarrow> int \<Rightarrow> version list list \<Rightarrow> nat result" where
  "traditional_misses cls worker_set_size ps =
     (case cls of
        LRUCache \<Rightarrow> res_bind (serve_all lru_get ps (base_cache_init worker_set_size)) (\<lambda>c. Inr (bc_cold_start c))
      | FIFOCache \<Rightarrow> res_bind (serve_all fifo_get ps (base_cache_init worker_set_size)) (\<lambda>c. Inr (bc_cold_start c))
      | LFUCache \<Rightarrow> res_bind (serve_all lfu_get ps (lfu_init worker_set_size)) (\<lambda>c. Inr (bc_cold_start c)))"

definition test_traditional :: "cache_cls \<Rightarrow> int \<Rightarrow> version list list \<Rightarrow> ('z pac_world_scheme, int) io" where
  "test_traditional cls worker_set_size ps =
     io_bind (io_lift (traditional_misses cls worker_set_size ps)) (\<lambda>n.
     io_then (print_out (''cache miss: '' @ nat_str n @ newline)) (io_return (int n)))"

section \<open>The files\<close>

text \<open>\<open>os.mkdir\<close>.\<close>

definition os_mkdir :: "string \<Rightarrow> ('z file_world_scheme, unit) io" where
  "os_mkdir p w =
     (if p = [] then (Inl FileNotFoundError, w)
      else if path_exists p w then (Inl OSError, w)
      else case fs_node (fw_files w) (butlast (resolve w p)) of
        None \<Rightarrow> (Inl FileNotFoundError, w)
      | Some (File _) \<Rightarrow> (Inl OSError, w)
      | Some Dir \<Rightarrow> (Inr (), set_node (resolve w p) Dir w))"

definition csv_line :: "string list \<Rightarrow> string" where
  "csv_line cells = str_join '','' cells @ [CHR 0x0D, CHR 0x0A]"

definition csv_text :: "(py_num \<times> int) list \<Rightarrow> string" where
  "csv_text data = csv_line [''alpha'', ''cache_miss''] @ concat (map (\<lambda>(a, n). csv_line [num_text a, int_str n]) data)"

definition csv_name :: "string \<Rightarrow> int \<Rightarrow> int \<Rightarrow> string" where
  "csv_name prefix max_history worker_set_size = prefix @ ''-h'' @ int_str max_history @ ''w'' @ int_str worker_set_size @ ''.csv''"

text \<open>Without a history the name says 1. A base directory that is \<open>None\<close> fails at the first use of it.\<close>

definition output_to_csv :: "(py_num \<times> int) list \<Rightarrow> string \<Rightarrow> int \<Rightarrow> int option \<Rightarrow> string option \<Rightarrow> ('z file_world_scheme, unit) io" where
  "output_to_csv data prefix worker_set_size max_history base_dir =
     (case base_dir of
        None \<Rightarrow> io_raise TypeError
      | Some dir \<Rightarrow>
          io_bind io_get (\<lambda>w.
          io_then (if path_exists dir w then io_return () else os_mkdir dir)
            (write_bytes
              (path_join dir (csv_name prefix (case max_history of None \<Rightarrow> 1 | Some h \<Rightarrow> h) worker_set_size))
              (utf8 (csv_text data)))))"

section \<open>The experiment\<close>

record sweep_config =
  sc_prefix :: string
  sc_base_dir :: string
  sc_enable_sl :: bool
  sc_enable_ul :: bool

definition sweep_configs :: "sweep_config list" where
  "sweep_configs =
     [\<lparr>sc_prefix = ''slonly'', sc_base_dir = ''rand_r0.8i200_slonly'', sc_enable_sl = True, sc_enable_ul = False\<rparr>,
      \<lparr>sc_prefix = ''ulonly'', sc_base_dir = ''rand_r0.8i200_ulonly'', sc_enable_sl = False, sc_enable_ul = True\<rparr>,
      \<lparr>sc_prefix = ''slul'', sc_base_dir = ''rand_r0.8i200_slul'', sc_enable_sl = True, sc_enable_ul = True\<rparr>]"

definition bool_text :: "bool \<Rightarrow> string" where
  "bool_text b = (if b then ''True'' else ''False'')"

definition quoted :: "string \<Rightarrow> string" where
  "quoted s = [CHR 0x27] @ s @ [CHR 0x27]"

definition config_text :: "sweep_config \<Rightarrow> string" where
  "config_text c =
     ''{'' @ str_join '', '' (map (\<lambda>(k, v). quoted k @ '': '' @ v)
       [(''prefix'', quoted (sc_prefix c)), (''base_dir'', quoted (sc_base_dir c)),
        (''enable_sl'', bool_text (sc_enable_sl c)), (''enable_ul'', bool_text (sc_enable_ul c))]) @ ''}''"

definition pac_file :: "(rat list \<Rightarrow> nat list) \<Rightarrow> version list list \<Rightarrow> sweep_config \<Rightarrow> int \<Rightarrow> int \<Rightarrow> ('z pac_world_scheme, unit) io" where
  "pac_file argsort ps c worker_set_size max_history =
     io_then (print_out (''----- H'' @ int_str max_history @ ''W'' @ int_str worker_set_size @ '' -----'' @ newline))
     (io_then (print_out (''=== PAC ==='' @ newline))
     (io_bind (test_vsm_transform argsort ps max_history worker_set_size 200 (8 / 10) (sc_enable_sl c) (sc_enable_ul c)) (\<lambda>data.
       output_to_csv data (sc_prefix c) worker_set_size (Some max_history) (Some (sc_base_dir c)))))"

definition traditional_file :: "version list list \<Rightarrow> sweep_config \<Rightarrow> string \<Rightarrow> cache_cls \<Rightarrow> string \<Rightarrow> int \<Rightarrow> ('z pac_world_scheme, unit) io" where
  "traditional_file ps c title cls prefix worker_set_size =
     io_then (print_out (''=== '' @ title @ '' ==='' @ newline))
     (io_bind (test_traditional cls worker_set_size ps) (\<lambda>n.
       output_to_csv [(PyInt (- 1), n)] prefix worker_set_size None (Some (sc_base_dir c))))"

definition sweep_config_run :: "(rat list \<Rightarrow> nat list) \<Rightarrow> version list list \<Rightarrow> sweep_config \<Rightarrow> ('z pac_world_scheme, unit) io" where
  "sweep_config_run argsort ps c =
     io_then (print_out (''=== config: '' @ config_text c @ '' ==='' @ newline))
     (io_then (io_map (\<lambda>i. io_map (pac_file argsort ps c i) [4..13]) [4..13])
     (io_then (io_map (\<lambda>i.
        io_then (traditional_file ps c ''LRU'' LRUCache ''lru'' i)
        (io_then (traditional_file ps c ''FIFO'' FIFOCache ''fifo'' i)
        (traditional_file ps c ''LFU'' LFUCache ''lfu'' i))) [4..13])
     (io_return ())))"

definition sweep_main :: "(rat list \<Rightarrow> nat list) \<Rightarrow> version list list \<Rightarrow> ('z pac_world_scheme, unit) io" where
  "sweep_main argsort ps = io_then (io_map (sweep_config_run argsort ps) sweep_configs) (io_return ())"

end
