(* ===== verification/PacSweepProps.thy ===== *)
theory PacSweepProps
  imports PacSweep
begin

text \<open>
  What the driver of the simulator leaves behind: every simulation succeeds, and the CSV files hold its numbers.
\<close>

section \<open>No simulation fails\<close>

context cache_policy
begin

lemma batches_bounded:
  "bounded c \<Longrightarrow> list_all (list_all admissible) wss \<Longrightarrow>
   \<exists>c'. res_fold (\<lambda>ws c. res_bind (requests get ws c) (\<lambda>(_, c'). Inr c')) wss c = Inr c' \<and> bounded c'"
proof (induction wss arbitrary: c)
  case (Cons ws wss)
  have "list_all admissible ws" using Cons.prems(2) by simp
  from requests_bounded [OF Cons.prems(1) this] obtain bs c1 where "requests get ws c = Inr (bs, c1)" "bounded c1" by metis
  with Cons.IH [of c1] Cons.prems(2) show ?case by simp
qed simp

end

definition valid_pipelines :: "version list list \<Rightarrow> bool" where
  "valid_pipelines ps \<longleftrightarrow> list_all (\<lambda>p. length p = 5 \<and> list_all valid_version p) ps"

lemma serve_all_batches:
  "valid_pipelines ps \<Longrightarrow>
   serve_all get ps c = res_fold (\<lambda>ws c. res_bind (requests get ws c) (\<lambda>(_, c'). Inr c')) (map (\<lambda>p. enumerate 0 (pipeline_items p)) ps) c"
  by (induction ps arbitrary: c) (simp_all add: serve_all_def valid_pipelines_def from_version_list_valid res_bind_def split: sum.splits)

lemma traditional_misses_ok:
  assumes "valid_pipelines ps" and "0 \<le> n"
  shows "\<exists>k. traditional_misses cls n ps = Inr k"
proof -
  have b: "lru_sim.bounded (base_cache_init n)" "fifo_sim.bounded (base_cache_init n)" "lfu_sim.bounded (lfu_init n)"
    using assms(2) by (simp_all add: lru_sim.bounded_def fifo_sim.bounded_def lfu_sim.bounded_def nonneg_limit_def lfu_ok_def base_cache_init_def lfu_init_def)
  have adm: "list_all (list_all (\<lambda>_. True)) wss" for wss :: "(nat \<times> nat \<times> version) list list" by (simp add: list_all_iff)
  note ok = lru_sim.batches_bounded [OF b(1) adm] fifo_sim.batches_bounded [OF b(2) adm] lfu_sim.batches_bounded [OF b(3) adm]
  show ?thesis
  proof (cases cls)
    case LRUCache
    then show ?thesis using ok(1) [of "map (\<lambda>p. enumerate 0 (pipeline_items p)) ps"] by (auto simp: traditional_misses_def serve_all_batches [OF assms(1)])
  next
    case FIFOCache
    then show ?thesis using ok(2) [of "map (\<lambda>p. enumerate 0 (pipeline_items p)) ps"] by (auto simp: traditional_misses_def serve_all_batches [OF assms(1)])
  next
    case LFUCache
    then show ?thesis using ok(3) [of "map (\<lambda>p. enumerate 0 (pipeline_items p)) ps"] by (auto simp: traditional_misses_def serve_all_batches [OF assms(1)])
  qed
qed

definition trad_misses :: "version list list \<Rightarrow> cache_cls \<Rightarrow> int \<Rightarrow> nat" where
  "trad_misses ps cls n = (case traditional_misses cls n ps of Inr k \<Rightarrow> k | Inl _ \<Rightarrow> 0)"

text \<open>The offset \<open>1e-10\<close> that keeps the factor positive does not survive the rounding: the factors are 0, 0.004, ..., 0.796.\<close>

lemma alpha_at_eq: "alpha_at (8 / 10) 200 k = of_nat k / 250"
proof -
  have "(1 / 10 ^ 10 + 8 / 10 * (of_nat k / of_nat 200)) * 10000 = (of_int (int (40 * k)) + 1 / 10 ^ 6 :: rat)" by simp
  moreover have "round (of_int (int (40 * k)) + 1 / 10 ^ 6 :: rat) = int (40 * k)" by (intro round_unique) simp_all
  ultimately show ?thesis by (simp only: alpha_at_def)
qed

lemma alpha_at_45: "alpha_at (4 / 5) 200 k = of_nat k / 250"
proof -
  have "(4 / 5 :: rat) = 8 / 10" by simp
  then show ?thesis unfolding alpha_at_eq [symmetric] by (simp only:)
qed

definition pac_misses :: "(rat list \<Rightarrow> nat list) \<Rightarrow> version list list \<Rightarrow> sweep_config \<Rightarrow> int \<Rightarrow> int \<Rightarrow> nat \<Rightarrow> nat" where
  "pac_misses argsort ps c n h k =
     (case simulate argsort h n (of_nat k / 250) (sc_enable_sl c) (sc_enable_ul c) ps of Inr x \<Rightarrow> bc_cold_start x | Inl _ \<Rightarrow> 0)"

definition pac_table :: "(rat list \<Rightarrow> nat list) \<Rightarrow> version list list \<Rightarrow> sweep_config \<Rightarrow> int \<Rightarrow> int \<Rightarrow> (py_num \<times> int) list" where
  "pac_table argsort ps c n h = map (\<lambda>k. (PyFloat (of_nat k / 250), int (pac_misses argsort ps c n h k))) [0..<200]"

section \<open>What is written\<close>

text \<open>Everything happens in the base directories, which lie in the working directory.\<close>

definition sweep_dirs :: "string list" where
  "sweep_dirs = map sc_base_dir sweep_configs"

definition cwd_dir :: "'z file_world_scheme \<Rightarrow> string list" where
  "cwd_dir w = norm_components True (str_split ''/'' (fw_cwd w))"

definition sweep_ready :: "'z file_world_scheme \<Rightarrow> bool" where
  "sweep_ready w \<longleftrightarrow> fw_cwd w \<noteq> [] \<and> nodes w (cwd_dir w) = Some Dir \<and>
     (\<forall>d \<in> set sweep_dirs. (nodes w (cwd_dir w @ [d]) = None \<or> nodes w (cwd_dir w @ [d]) = Some Dir) \<and>
        (\<forall>f. nodes w (cwd_dir w @ [d, f]) \<noteq> Some Dir))"

type_synonym writes = "((string \<times> string) \<times> string) list"

fun written :: "string list \<Rightarrow> writes \<Rightarrow> (string list \<times> node) list" where
  "written here [] = []"
| "written here (((d, f), t) # L) = (here @ [d, f], File t) # (here @ [d], Dir) # written here L"

definition wrote :: "'z file_world_scheme \<Rightarrow> 'z file_world_scheme \<Rightarrow> writes \<Rightarrow> bool" where
  "wrote w w' L \<longleftrightarrow> fw_cwd w' = fw_cwd w \<and> list_all (\<lambda>((d, f), t). d \<in> set sweep_dirs) L \<and>
     nodes w' = (\<lambda>p. case map_of (written (cwd_dir w) L) p of Some n \<Rightarrow> Some n | None \<Rightarrow> nodes w p)"

lemma base_dirs_plain: "d \<in> set sweep_dirs \<Longrightarrow> plain_name d"
  by (auto simp: sweep_dirs_def sweep_configs_def plain_name_def)

lemma written_append: "written here (L2 @ L1) = written here L2 @ written here L1"
  by (induction L2) auto

lemma written_file: "map_of (written here L) (here @ [d, f]) = map_option File (map_of L (d, f))"
  by (induction here L rule: written.induct) auto

lemma written_dir: "map_of (written here L) (here @ [d]) = (if d \<in> fst ` fst ` set L then Some Dir else None)"
  by (induction here L rule: written.induct) force+

lemma written_here: "map_of (written here L) here = None"
  by (induction here L rule: written.induct) auto

lemma wrote_none: "fw_cwd w' = fw_cwd w \<Longrightarrow> fw_files w' = fw_files w \<Longrightarrow> wrote w w' []"
  by (simp add: wrote_def nodes_def fun_eq_iff)

lemma wrote_trans: "wrote w w1 L1 \<Longrightarrow> wrote w1 w2 L2 \<Longrightarrow> wrote w w2 (L2 @ L1)"
  by (auto simp: wrote_def written_append map_add_def cwd_dir_def fun_eq_iff split: option.splits)

lemma wrote_ready: "wrote w w' L \<Longrightarrow> sweep_ready w \<Longrightarrow> sweep_ready w'"
  by (auto simp: wrote_def sweep_ready_def cwd_dir_def written_file written_dir written_here split: option.splits)

lemma resolve_base:
  assumes "fw_cwd w \<noteq> []" "plain_name d"
  shows "resolve w d = cwd_dir w @ [d]"
  using assms split_path_join [OF assms(2,1)] plain_no_slash [OF assms(2)]
  by (simp add: resolve_def path_of_def cwd_dir_def)

lemma resolve_file:
  assumes "fw_cwd w \<noteq> []" "plain_name d" "plain_name f"
  shows "resolve w (path_join d f) = cwd_dir w @ [d, f]"
proof -
  have "d \<noteq> []" using assms(2) by (simp add: plain_name_def)
  then show ?thesis using path_of_join [OF assms(3), of d "fw_cwd w"] resolve_base [OF assms(1,2)] by (simp add: resolve_def)
qed

lemma output_to_csv_writes:
  assumes "sweep_ready w" "d \<in> set sweep_dirs" "plain_name (csv_name prefix (case h of None \<Rightarrow> 1 | Some h \<Rightarrow> h) n)"
  shows "\<exists>w'. output_to_csv data prefix n h (Some d) w = (Inr (), w')
    \<and> wrote w w' [((d, csv_name prefix (case h of None \<Rightarrow> 1 | Some h \<Rightarrow> h) n), utf8 (csv_text data))]"
proof -
  define f where "f = csv_name prefix (case h of None \<Rightarrow> 1 | Some h \<Rightarrow> h) n"
  have pf: "plain_name f" using assms(3) by (simp add: f_def)
  let ?t = "utf8 (csv_text data)" and ?H = "cwd_dir w"
  have cwd: "fw_cwd w \<noteq> []" and here: "nodes w ?H = Some Dir"
    and dir: "nodes w (?H @ [d]) = None \<or> nodes w (?H @ [d]) = Some Dir" and fresh: "nodes w (?H @ [d, f]) \<noteq> Some Dir"
    using assms(1,2) by (auto simp: sweep_ready_def)
  have plain: "plain_name d" "d \<noteq> []" using base_dirs_plain [OF assms(2)] by (auto simp: plain_name_def)
  note r = resolve_base [OF cwd plain(1)]
  obtain w1 where mk: "(if path_exists d w then io_return () else os_mkdir d) w = (Inr (), w1)"
    and n1: "nodes w1 = (\<lambda>p. if p = ?H @ [d] then Some Dir else nodes w p)" and c1: "fw_cwd w1 = fw_cwd w"
  proof (cases "nodes w (?H @ [d]) = None")
    case True
    then have "(if path_exists d w then io_return () else os_mkdir d) w = (Inr (), set_node (?H @ [d]) Dir w)"
      using plain(2) r here by (simp add: path_exists_def node_at_def os_mkdir_def nodes_def butlast_append)
    then show ?thesis using that [of "set_node (?H @ [d]) Dir w"] by (simp add: fun_eq_iff)
  next
    case False
    then have "(if path_exists d w then io_return () else os_mkdir d) w = (Inr (), w)"
      using plain(2) r by (simp add: path_exists_def node_at_def nodes_def)
    then show ?thesis using that [of w] dir False by (auto simp: fun_eq_iff)
  qed
  have res: "resolve w1 (path_join d f) = ?H @ [d, f]"
    using resolve_file [OF _ plain(1) pf, of w1] cwd c1 by (simp add: cwd_dir_def)
  have ne: "path_join d f \<noteq> []" using pf by simp
  have "fs_node (fw_files w1) (?H @ [d, f]) \<noteq> Some Dir" "fs_node (fw_files w1) (butlast (?H @ [d, f])) = Some Dir"
    using fresh n1 by (simp_all add: nodes_def [symmetric] butlast_append)
  then have wr: "write_bytes (path_join d f) ?t w1 = (Inr (), set_node (?H @ [d, f]) (File ?t) w1)"
    using ne by (auto simp: write_bytes_def node_at_def res split: option.splits node.splits)
  have "wrote w (set_node (?H @ [d, f]) (File ?t) w1) [((d, f), ?t)]"
    using n1 c1 assms(2) by (auto simp: wrote_def fun_eq_iff)
  moreover have "output_to_csv data prefix n h (Some d) w
      = io_then (if path_exists d w then io_return () else os_mkdir d) (write_bytes (path_join d f) ?t) w"
    by (simp add: output_to_csv_def f_def)
  then have "output_to_csv data prefix n h (Some d) w = (Inr (), set_node (?H @ [d, f]) (File ?t) w1)"
    unfolding io_then_ok [where f = "if path_exists d w then io_return () else os_mkdir d"
      and g = "write_bytes (path_join d f) ?t", OF mk] wr .
  ultimately show ?thesis unfolding f_def by blast
qed

section \<open>The loops\<close>

lemma io_map_wrote:
  assumes "\<And>x w. x \<in> set xs \<Longrightarrow> sweep_ready w \<Longrightarrow> \<exists>w'. f x w = (Inr (g x), w') \<and> wrote w w' (L x)" and "sweep_ready w"
  shows "\<exists>w'. io_map f xs w = (Inr (map g xs), w') \<and> wrote w w' (concat (map L (rev xs)))"
  using assms
proof (induction xs arbitrary: w)
  case Nil
  then show ?case using wrote_none [of w w] by simp
next
  case (Cons x xs)
  obtain w1 where w1: "f x w = (Inr (g x), w1)" "wrote w w1 (L x)" using Cons.prems by fastforce
  obtain w2 where w2: "io_map f xs w1 = (Inr (map g xs), w2)" "wrote w1 w2 (concat (map L (rev xs)))"
    using Cons.IH [OF Cons.prems(1) wrote_ready [OF w1(2) Cons.prems(2)]] by auto
  show ?case using wrote_trans [OF w1(2) w2(2)] by (auto simp: io_bind_ok [where f = "f x", OF w1(1)] io_bind_ok [where f = "io_map f xs", OF w2(1)])
qed

lemma concat_nothing: "concat (map (\<lambda>_. []) xs) = []"
  by (induction xs) simp_all

lemma print_wrote: "wrote w (w\<lparr>pw_out := s\<rparr>) []"
  by (rule wrote_none) simp_all

lemma print_then: "wrote (w\<lparr>pw_out := s\<rparr>) w' L \<Longrightarrow> wrote w w' L"
  using wrote_trans [OF print_wrote] by fastforce

lemma print_ready: "sweep_ready (w\<lparr>pw_out := s\<rparr>) \<longleftrightarrow> sweep_ready w"
  by (simp add: sweep_ready_def cwd_dir_def nodes_def)

lemma vsm_table:
  assumes "is_argsort argsort" "valid_pipelines ps" "0 \<le> n" "sweep_ready w"
  shows "\<exists>w'. test_vsm_transform argsort ps h n 200 (8 / 10) (sc_enable_sl c) (sc_enable_ul c) w = (Inr (pac_table argsort ps c n h), w') \<and> wrote w w' []"
proof -
  have "\<exists>w'. vsm_row argsort ps h n 200 (8 / 10) (sc_enable_sl c) (sc_enable_ul c) k w
      = (Inr (PyFloat (of_nat k / 250), int (pac_misses argsort ps c n h k)), w') \<and> wrote w w' []"
    if "k \<in> set [0..<200]" "sweep_ready w" for k and w :: "'z pac_world_scheme"
  proof -
    have a: "0 \<le> of_nat k / (250 :: rat)" "of_nat k / (250 :: rat) \<le> 1" using that(1) by simp_all
    have "p \<in> set ps \<Longrightarrow> length p = 5 \<and> list_all valid_version p" for p
      using assms(2) by (simp add: valid_pipelines_def list_all_iff)
    from simulate_ok [OF assms(1,3) a this] obtain x where
      "simulate argsort h n (of_nat k / 250) (sc_enable_sl c) (sc_enable_ul c) ps = Inr x" by blast
    then show ?thesis using print_wrote by (simp add: vsm_row_def Let_def alpha_at_45 pac_misses_def print_out_def)
  qed
  note row = this
  have "\<exists>w'. io_map (vsm_row argsort ps h n 200 (8 / 10) (sc_enable_sl c) (sc_enable_ul c)) [0..<200] w
      = (Inr (map (\<lambda>k. (PyFloat (of_nat k / 250), int (pac_misses argsort ps c n h k))) [0..<200]), w') \<and>
      wrote w w' (concat (map (\<lambda>_. []) (rev [0..<200 :: nat])))"
    by (rule io_map_wrote [OF row assms(4)])
  then show ?thesis unfolding test_vsm_transform_def pac_table_def by (simp only: concat_nothing)
qed

text \<open>One file of the sweep, for either kind of cache.\<close>

lemma csv_name_plain: "CHR ''/'' \<notin> set prefix \<Longrightarrow> plain_name (csv_name prefix (int h) (int n))"
proof -
  assume p: "CHR ''/'' \<notin> set prefix"
  have "CHR ''/'' \<notin> set (nat_str k)" for k using nat_str_digits [of k] by (auto simp: is_digit_def)
  moreover have "5 < length (csv_name prefix (int h) (int n))" by (simp add: csv_name_def)
  ultimately show ?thesis using p by (auto simp: plain_name_def csv_name_def int_str_nonneg)
qed

definition pac_entry :: "(rat list \<Rightarrow> nat list) \<Rightarrow> version list list \<Rightarrow> sweep_config \<Rightarrow> int \<Rightarrow> int \<Rightarrow> (string \<times> string) \<times> string" where
  "pac_entry argsort ps c n h = ((sc_base_dir c, csv_name (sc_prefix c) h n), utf8 (csv_text (pac_table argsort ps c n h)))"

definition trad_entry :: "version list list \<Rightarrow> sweep_config \<Rightarrow> string \<Rightarrow> cache_cls \<Rightarrow> int \<Rightarrow> (string \<times> string) \<times> string" where
  "trad_entry ps c prefix cls n = ((sc_base_dir c, csv_name prefix 1 n), utf8 (csv_text [(PyInt (- 1), int (trad_misses ps cls n))]))"

lemma config_facts: "c \<in> set sweep_configs \<Longrightarrow> sc_base_dir c \<in> set sweep_dirs \<and> CHR ''/'' \<notin> set (sc_prefix c) \<and> CHR ''-'' \<notin> set (sc_prefix c)
    \<and> sc_prefix c \<notin> {''lru'', ''fifo'', ''lfu''}"
  by (auto simp: sweep_configs_def sweep_dirs_def)

lemma pac_file_writes:
  assumes "is_argsort argsort" "valid_pipelines ps" "0 \<le> n" "0 \<le> h" "c \<in> set sweep_configs" "sweep_ready w"
  shows "\<exists>w'. pac_file argsort ps c n h w = (Inr (), w') \<and> wrote w w' [pac_entry argsort ps c n h]"
proof -
  let ?w = "w\<lparr>pw_out := (pw_out w @ ''----- H'' @ int_str h @ ''W'' @ int_str n @ '' -----'' @ newline) @ ''=== PAC ==='' @ newline\<rparr>"
  have "sweep_ready ?w" using assms(6) by (simp only: print_ready)
  from vsm_table [OF assms(1-3) this, of h c] obtain w1 where
    w1: "test_vsm_transform argsort ps h n 200 (8 / 10) (sc_enable_sl c) (sc_enable_ul c) ?w = (Inr (pac_table argsort ps c n h), w1)" "wrote ?w w1 []"
    by blast
  have r1: "sweep_ready w1" using wrote_ready [OF w1(2)] assms(6) by (simp only: print_ready)
  have "plain_name (csv_name (sc_prefix c) h n)"
    using csv_name_plain [of "sc_prefix c" "nat h" "nat n"] config_facts [OF assms(5)] assms(3,4) by simp
  with output_to_csv_writes [OF r1, of "sc_base_dir c" "sc_prefix c" "Some h" n "pac_table argsort ps c n h"] config_facts [OF assms(5)]
  obtain w2 where w2: "output_to_csv (pac_table argsort ps c n h) (sc_prefix c) n (Some h) (Some (sc_base_dir c)) w1 = (Inr (), w2)"
    "wrote w1 w2 [pac_entry argsort ps c n h]"
    by (auto simp: pac_entry_def)
  let ?sims = "test_vsm_transform argsort ps h n 200 (8 / 10) (sc_enable_sl c) (sc_enable_ul c)"
    and ?out = "\<lambda>data. output_to_csv data (sc_prefix c) n (Some h) (Some (sc_base_dir c))"
  have "pac_file argsort ps c n h w = io_bind ?sims ?out ?w"
    by (simp add: pac_file_def print_out_def)
  then have "pac_file argsort ps c n h w = (Inr (), w2)"
    unfolding io_bind_ok [where f = ?sims and g = ?out, OF w1(1)] w2(1) .
  moreover have "wrote w w2 [pac_entry argsort ps c n h]" using print_then wrote_trans [OF w1(2) w2(2)] by fastforce
  ultimately show ?thesis by blast
qed

lemma traditional_file_writes:
  assumes "valid_pipelines ps" "0 \<le> n" "c \<in> set sweep_configs" "CHR ''/'' \<notin> set prefix" "sweep_ready w"
  shows "\<exists>w'. traditional_file ps c title cls prefix n w = (Inr (), w') \<and> wrote w w' [trad_entry ps c prefix cls n]"
proof -
  obtain k where k: "traditional_misses cls n ps = Inr k" using traditional_misses_ok [OF assms(1,2)] by blast
  let ?w = "w\<lparr>pw_out := (pw_out w @ ''=== '' @ title @ '' ==='' @ newline) @ ''cache miss: '' @ nat_str k @ newline\<rparr>"
  have "sweep_ready ?w" using assms(5) by (simp only: print_ready)
  moreover have "plain_name (csv_name prefix 1 n)"
    using csv_name_plain [of prefix 1 "nat n"] assms(2,4) by simp
  ultimately obtain w1 where w1: "output_to_csv [(PyInt (- 1), int k)] prefix n None (Some (sc_base_dir c)) ?w = (Inr (), w1)"
    "wrote ?w w1 [trad_entry ps c prefix cls n]"
    using output_to_csv_writes [of ?w "sc_base_dir c" prefix None n "[(PyInt (- 1), int k)]"] config_facts [OF assms(3)]
    by (auto simp: trad_entry_def trad_misses_def k)
  then have "traditional_file ps c title cls prefix n w = (Inr (), w1)"
    by (simp add: traditional_file_def test_traditional_def print_out_def k io_then_def io_bind_def)
  then show ?thesis using print_then [OF w1(2)] by blast
qed

section \<open>The whole sweep\<close>

definition config_writes :: "(rat list \<Rightarrow> nat list) \<Rightarrow> version list list \<Rightarrow> sweep_config \<Rightarrow> writes" where
  "config_writes argsort ps c =
     concat (map (\<lambda>i. [trad_entry ps c ''lfu'' LFUCache i, trad_entry ps c ''fifo'' FIFOCache i, trad_entry ps c ''lru'' LRUCache i]) (rev [4..13])) @
     concat (map (\<lambda>i. concat (map (\<lambda>h. [pac_entry argsort ps c i h]) (rev [4..13]))) (rev [4..13]))"

definition sweep_writes :: "(rat list \<Rightarrow> nat list) \<Rightarrow> version list list \<Rightarrow> writes" where
  "sweep_writes argsort ps = concat (map (config_writes argsort ps) (rev sweep_configs))"

lemma then_wrote:
  assumes "f w = (Inr x, w1)" "wrote w w1 L1" "sweep_ready w"
    and "\<And>w1. sweep_ready w1 \<Longrightarrow> \<exists>w2. g w1 = (Inr y, w2) \<and> wrote w1 w2 L2"
  shows "\<exists>w2. io_then f g w = (Inr y, w2) \<and> wrote w w2 (L2 @ L1)"
proof -
  obtain w2 where w2: "g w1 = (Inr y, w2)" "wrote w1 w2 L2" using assms(4) [OF wrote_ready [OF assms(2,3)]] by blast
  have "io_then f g w = g w1" by (simp add: io_then_def io_bind_def assms(1))
  with w2 wrote_trans [OF assms(2) w2(2)] show ?thesis by auto
qed

lemma three_traditional_files:
  assumes "valid_pipelines ps" "0 \<le> n" "c \<in> set sweep_configs" "sweep_ready w"
  shows "\<exists>w'. io_then (traditional_file ps c ''LRU'' LRUCache ''lru'' n) (io_then (traditional_file ps c ''FIFO'' FIFOCache ''fifo'' n)
      (traditional_file ps c ''LFU'' LFUCache ''lfu'' n)) w = (Inr (), w') \<and>
    wrote w w' [trad_entry ps c ''lfu'' LFUCache n, trad_entry ps c ''fifo'' FIFOCache n, trad_entry ps c ''lru'' LRUCache n]"
proof -
  note one = traditional_file_writes [OF assms(1-3)]
  have two: "\<exists>w'. io_then (traditional_file ps c ''FIFO'' FIFOCache ''fifo'' n) (traditional_file ps c ''LFU'' LFUCache ''lfu'' n) w = (Inr (), w') \<and>
      wrote w w' ([trad_entry ps c ''lfu'' LFUCache n] @ [trad_entry ps c ''fifo'' FIFOCache n])"
    if w: "sweep_ready w" for w :: "'a pac_world_scheme"
  proof -
    obtain w1 where w1: "traditional_file ps c ''FIFO'' FIFOCache ''fifo'' n w = (Inr (), w1)" "wrote w w1 [trad_entry ps c ''fifo'' FIFOCache n]"
      using one [OF _ w, of "''fifo''"] by auto
    show ?thesis by (rule then_wrote, rule w1(1), rule w1(2), rule w, rule one) simp_all
  qed
  obtain w1 where w1: "traditional_file ps c ''LRU'' LRUCache ''lru'' n w = (Inr (), w1)" "wrote w w1 [trad_entry ps c ''lru'' LRUCache n]"
    using one [OF _ assms(4), of "''lru''"] by auto
  have "\<exists>w'. io_then (traditional_file ps c ''LRU'' LRUCache ''lru'' n) (io_then (traditional_file ps c ''FIFO'' FIFOCache ''fifo'' n)
      (traditional_file ps c ''LFU'' LFUCache ''lfu'' n)) w = (Inr (), w') \<and>
    wrote w w' (([trad_entry ps c ''lfu'' LFUCache n] @ [trad_entry ps c ''fifo'' FIFOCache n]) @ [trad_entry ps c ''lru'' LRUCache n])"
    by (rule then_wrote, rule w1(1), rule w1(2), rule assms(4), rule two)
  then show ?thesis by simp
qed

lemma sweep_config_writes:
  assumes "is_argsort argsort" "valid_pipelines ps" "c \<in> set sweep_configs" "sweep_ready w"
  shows "\<exists>w'. sweep_config_run argsort ps c w = (Inr (), w') \<and> wrote w w' (config_writes argsort ps c)"
proof -
  let ?w = "w\<lparr>pw_out := pw_out w @ ''=== config: '' @ config_text c @ '' ==='' @ newline\<rparr>"
  let ?pac = "io_map (\<lambda>i. io_map (pac_file argsort ps c i) [4..13]) [4..13]"
    and ?trad = "io_map (\<lambda>i. io_then (traditional_file ps c ''LRU'' LRUCache ''lru'' i)
        (io_then (traditional_file ps c ''FIFO'' FIFOCache ''fifo'' i) (traditional_file ps c ''LFU'' LFUCache ''lfu'' i))) [4..13]"
  have ready: "sweep_ready ?w" using assms(4) by (simp only: print_ready)
  have "\<exists>w'. ?pac ?w = (Inr (map (\<lambda>_. map (\<lambda>_. ()) [4..13]) [4..13]), w') \<and>
      wrote ?w w' (concat (map (\<lambda>i. concat (map (\<lambda>h. [pac_entry argsort ps c i h]) (rev [4..13]))) (rev [4..13])))"
    by (intro io_map_wrote [OF _ ready] io_map_wrote pac_file_writes [OF assms(1,2) _ _ assms(3)]) auto
  then obtain w1 where w1: "?pac ?w = (Inr (map (\<lambda>_. map (\<lambda>_. ()) [4..13]) [4..13]), w1)"
    "wrote ?w w1 (concat (map (\<lambda>i. concat (map (\<lambda>h. [pac_entry argsort ps c i h]) (rev [4..13]))) (rev [4..13])))"
    by blast
  have trad: "\<exists>w2. ?trad w1 = (Inr (map (\<lambda>_. ()) [4..13]), w2) \<and>
      wrote w1 w2 (concat (map (\<lambda>i. [trad_entry ps c ''lfu'' LFUCache i, trad_entry ps c ''fifo'' FIFOCache i, trad_entry ps c ''lru'' LRUCache i]) (rev [4..13])))"
    if "sweep_ready w1" for w1 :: "'a pac_world_scheme"
    by (intro io_map_wrote [OF _ that] three_traditional_files [OF assms(2) _ assms(3)]) auto
  have fin: "\<exists>w2. io_then ?trad (io_return ()) w1 = (Inr (), w2) \<and>
      wrote w1 w2 (concat (map (\<lambda>i. [trad_entry ps c ''lfu'' LFUCache i, trad_entry ps c ''fifo'' FIFOCache i, trad_entry ps c ''lru'' LRUCache i]) (rev [4..13])))"
    if "sweep_ready w1" for w1 :: "'a pac_world_scheme"
  proof -
    from trad [OF that] obtain w2 where w2: "?trad w1 = (Inr (map (\<lambda>_. ()) [4..13]), w2)"
      "wrote w1 w2 (concat (map (\<lambda>i. [trad_entry ps c ''lfu'' LFUCache i, trad_entry ps c ''fifo'' FIFOCache i, trad_entry ps c ''lru'' LRUCache i]) (rev [4..13])))"
      by blast
    from w2(1) have "io_then ?trad (io_return ()) w1 = (Inr (), w2)" unfolding io_then_def io_bind_def by (simp only: prod.case sum.case io_return_run)
    with w2(2) show ?thesis by blast
  qed
  have "\<exists>w2. io_then ?pac (io_then ?trad (io_return ())) ?w = (Inr (), w2) \<and> wrote ?w w2 (config_writes argsort ps c)"
    unfolding config_writes_def by (rule then_wrote, rule w1(1), rule w1(2), rule ready, rule fin)
  then obtain w2 where w2: "io_then ?pac (io_then ?trad (io_return ())) ?w = (Inr (), w2)" "wrote ?w w2 (config_writes argsort ps c)"
    by blast
  have "sweep_config_run argsort ps c w = io_then ?pac (io_then ?trad (io_return ())) ?w"
    unfolding sweep_config_run_def print_out_def io_then_modify ..
  then have "sweep_config_run argsort ps c w = (Inr (), w2)" unfolding w2(1) .
  with print_then [OF w2(2)] show ?thesis by blast
qed

lemma sweep_main_writes:
  assumes "is_argsort argsort" "valid_pipelines ps" "sweep_ready w"
  shows "\<exists>w'. sweep_main argsort ps w = (Inr (), w') \<and> wrote w w' (sweep_writes argsort ps)"
proof -
  have "\<exists>w'. io_map (sweep_config_run argsort ps) sweep_configs w = (Inr (map (\<lambda>_. ()) sweep_configs), w') \<and> wrote w w' (sweep_writes argsort ps)"
    unfolding sweep_writes_def by (intro io_map_wrote sweep_config_writes assms)
  then obtain w' where w': "io_map (sweep_config_run argsort ps) sweep_configs w = (Inr (map (\<lambda>_. ()) sweep_configs), w')"
    "wrote w w' (sweep_writes argsort ps)" by blast
  then have "sweep_main argsort ps w = (Inr (), w')" unfolding sweep_main_def io_then_def io_bind_def by (simp only: prod.case sum.case io_return_run)
  with w'(2) show ?thesis by blast
qed

section \<open>What the files hold\<close>

lemma split_at: "a @ x # b = a' @ x # b' \<Longrightarrow> x \<notin> set a \<Longrightarrow> x \<notin> set a' \<Longrightarrow> a = a' \<and> b = b'"
proof (induction a arbitrary: a')
  case Nil
  then show ?case by (cases a') auto
next
  case (Cons y a)
  then show ?case by (cases a') auto
qed

lemma csv_name_inj:
  assumes "CHR ''-'' \<notin> set p" "CHR ''-'' \<notin> set p'" "0 \<le> h" "0 \<le> n" "0 \<le> h'" "0 \<le> n'" and "csv_name p h n = csv_name p' h' n'"
  shows "p = p' \<and> h = h' \<and> n = n'"
proof -
  have digits: "CHR ''w'' \<notin> set (int_str k) \<and> CHR ''.'' \<notin> set (int_str k)" if "0 \<le> k" for k
    using int_str_digits [OF that] by (auto simp: is_digit_def)
  have "p @ CHR ''-'' # (CHR ''h'' # int_str h @ CHR ''w'' # int_str n @ CHR ''.'' # ''csv'')
      = p' @ CHR ''-'' # (CHR ''h'' # int_str h' @ CHR ''w'' # int_str n' @ CHR ''.'' # ''csv'')"
    using assms(7) by (simp add: csv_name_def)
  from split_at [OF this assms(1,2)] have p: "p = p'"
    and r: "int_str h @ CHR ''w'' # (int_str n @ CHR ''.'' # ''csv'') = int_str h' @ CHR ''w'' # (int_str n' @ CHR ''.'' # ''csv'')" by simp_all
  from split_at [OF r] digits assms(3,5) have h: "int_str h = int_str h'"
    and r2: "int_str n @ CHR ''.'' # ''csv'' = int_str n' @ CHR ''.'' # ''csv''" by simp_all
  from split_at [OF r2] digits assms(4,6) have "int_str n = int_str n'" by simp
  with p h show ?thesis by (simp add: int_str_inj)
qed

definition sizes :: "int set" where "sizes = set [4..13]"

definition traditional :: "(string \<times> cache_cls) set" where
  "traditional = {(''lru'', LRUCache), (''fifo'', FIFOCache), (''lfu'', LFUCache)}"

lemma sizes_nonneg: "i \<in> sizes \<Longrightarrow> 0 \<le> i"
  by (auto simp: sizes_def)

lemma in_sweep_writes:
  "e \<in> set (sweep_writes argsort ps) \<longleftrightarrow> (\<exists>c \<in> set sweep_configs. (\<exists>i \<in> sizes. \<exists>h \<in> sizes. e = pac_entry argsort ps c i h) \<or>
     (\<exists>i \<in> sizes. \<exists>(p, cls) \<in> traditional. e = trad_entry ps c p cls i))"
  unfolding sweep_writes_def config_writes_def sizes_def traditional_def by (simp del: upto_rec_numeral set_upto) blast

lemma same_config: "c \<in> set sweep_configs \<Longrightarrow> c' \<in> set sweep_configs \<Longrightarrow> sc_base_dir c = sc_base_dir c' \<Longrightarrow> c = c'"
  by (auto simp: sweep_configs_def)

lemma traditional_facts: "(p, cls) \<in> traditional \<Longrightarrow> CHR ''-'' \<notin> set p \<and> p \<in> {''lru'', ''fifo'', ''lfu''}"
  by (auto simp: traditional_def)

lemma map_of_unique: "(k, v) \<in> set xs \<Longrightarrow> (\<And>v'. (k, v') \<in> set xs \<Longrightarrow> v' = v) \<Longrightarrow> map_of xs k = Some v"
  by (metis map_of_SomeD weak_map_of_SomeI)

lemma lookup_pac:
  assumes "c \<in> set sweep_configs" "i \<in> sizes" "h \<in> sizes"
  shows "map_of (sweep_writes argsort ps) (sc_base_dir c, csv_name (sc_prefix c) h i) = Some (utf8 (csv_text (pac_table argsort ps c i h)))"
proof (rule map_of_unique)
  show "((sc_base_dir c, csv_name (sc_prefix c) h i), utf8 (csv_text (pac_table argsort ps c i h))) \<in> set (sweep_writes argsort ps)"
    using assms by (force simp: in_sweep_writes pac_entry_def)
  fix v
  assume "((sc_base_dir c, csv_name (sc_prefix c) h i), v) \<in> set (sweep_writes argsort ps)"
  then obtain c' where c': "c' \<in> set sweep_configs" and
    e: "(\<exists>i' \<in> sizes. \<exists>h' \<in> sizes. ((sc_base_dir c, csv_name (sc_prefix c) h i), v) = pac_entry argsort ps c' i' h') \<or>
     (\<exists>i' \<in> sizes. \<exists>(p, cls) \<in> traditional. ((sc_base_dir c, csv_name (sc_prefix c) h i), v) = trad_entry ps c' p cls i')"
    unfolding in_sweep_writes by blast
  then have same: "c' = c" using same_config [OF c' assms(1)] by (auto simp: pac_entry_def trad_entry_def)
  note pos = sizes_nonneg [OF assms(2)] sizes_nonneg [OF assms(3)] and c = config_facts [OF assms(1)]
  from e show "v = utf8 (csv_text (pac_table argsort ps c i h))"
  proof (elim disjE bexE)
    fix i' h'
    assume i: "i' \<in> sizes" "h' \<in> sizes" "((sc_base_dir c, csv_name (sc_prefix c) h i), v) = pac_entry argsort ps c' i' h'"
    then have "csv_name (sc_prefix c) h i = csv_name (sc_prefix c) h' i'" by (simp add: pac_entry_def same)
    from csv_name_inj [OF _ _ pos(2,1) _ _ this] c sizes_nonneg i(1,2) have "h' = h \<and> i' = i" by blast
    with i(3) show ?thesis by (simp add: pac_entry_def same)
  next
    fix i' x
    assume i: "i' \<in> sizes" "x \<in> traditional" "case x of (p, cls) \<Rightarrow> ((sc_base_dir c, csv_name (sc_prefix c) h i), v) = trad_entry ps c' p cls i'"
    obtain p cls where x: "x = (p, cls)" by fastforce
    then have "csv_name (sc_prefix c) h i = csv_name p 1 i'" using i(3) by (simp add: trad_entry_def)
    from csv_name_inj [OF _ _ pos(2,1) _ _ this] c sizes_nonneg [OF i(1)] traditional_facts i(2) x have "sc_prefix c = p" by force
    with c traditional_facts i(2) x show ?thesis by blast
  qed
qed

lemma lookup_traditional:
  assumes "c \<in> set sweep_configs" "i \<in> sizes" "(p, cls) \<in> traditional"
  shows "map_of (sweep_writes argsort ps) (sc_base_dir c, csv_name p 1 i) = Some (utf8 (csv_text [(PyInt (- 1), int (trad_misses ps cls i))]))"
proof (rule map_of_unique)
  show "((sc_base_dir c, csv_name p 1 i), utf8 (csv_text [(PyInt (- 1), int (trad_misses ps cls i))])) \<in> set (sweep_writes argsort ps)"
    using assms by (force simp: in_sweep_writes trad_entry_def)
  fix v
  assume "((sc_base_dir c, csv_name p 1 i), v) \<in> set (sweep_writes argsort ps)"
  then obtain c' where c': "c' \<in> set sweep_configs" and
    e: "(\<exists>i' \<in> sizes. \<exists>h' \<in> sizes. ((sc_base_dir c, csv_name p 1 i), v) = pac_entry argsort ps c' i' h') \<or>
     (\<exists>i' \<in> sizes. \<exists>(q, cls') \<in> traditional. ((sc_base_dir c, csv_name p 1 i), v) = trad_entry ps c' q cls' i')"
    unfolding in_sweep_writes by blast
  then have same: "c' = c" using same_config [OF c' assms(1)] by (auto simp: pac_entry_def trad_entry_def)
  note pos = sizes_nonneg [OF assms(2)] and c = config_facts [OF assms(1)] and t = traditional_facts [OF assms(3)]
  from e show "v = utf8 (csv_text [(PyInt (- 1), int (trad_misses ps cls i))])"
  proof (elim disjE bexE)
    fix i' h'
    assume i: "i' \<in> sizes" "h' \<in> sizes" "((sc_base_dir c, csv_name p 1 i), v) = pac_entry argsort ps c' i' h'"
    then have "csv_name p 1 i = csv_name (sc_prefix c) h' i'" by (simp add: pac_entry_def same)
    from csv_name_inj [OF _ _ _ pos _ _ this] c sizes_nonneg i(1,2) t have "p = sc_prefix c" by force
    with c t show ?thesis by metis
  next
    fix i' x
    assume i: "i' \<in> sizes" "x \<in> traditional" "case x of (q, cls') \<Rightarrow> ((sc_base_dir c, csv_name p 1 i), v) = trad_entry ps c' q cls' i'"
    obtain q cls' where x: "x = (q, cls')" by fastforce
    then have "csv_name p 1 i = csv_name q 1 i'" using i(3) by (simp add: trad_entry_def)
    from csv_name_inj [OF _ _ _ pos _ _ this] sizes_nonneg [OF i(1)] traditional_facts i(2) x t have q: "p = q \<and> i = i'" by force
    then have "cls' = cls" using i(2) x assms(3) by (auto simp: traditional_def)
    with i(3) x q show ?thesis by (simp add: trad_entry_def)
  qed
qed

text \<open>After a sweep: the results of every simulation, in the files they belong to, and nothing else has changed.\<close>

definition sweep_results :: "(rat list \<Rightarrow> nat list) \<Rightarrow> version list list \<Rightarrow> 'z file_world_scheme \<Rightarrow> bool" where
  "sweep_results argsort ps w \<longleftrightarrow> (\<forall>c \<in> set sweep_configs. \<forall>i \<in> sizes.
     (\<forall>h \<in> sizes. nodes w (cwd_dir w @ [sc_base_dir c, csv_name (sc_prefix c) h i]) = Some (File (utf8 (csv_text (pac_table argsort ps c i h))))) \<and>
     (\<forall>(p, cls) \<in> traditional. nodes w (cwd_dir w @ [sc_base_dir c, csv_name p 1 i])
        = Some (File (utf8 (csv_text [(PyInt (- 1), int (trad_misses ps cls i))])))))"

lemma sweep_main_results:
  assumes "is_argsort argsort" "valid_pipelines ps" "sweep_ready w"
  obtains w' where "sweep_main argsort ps w = (Inr (), w')" "sweep_results argsort ps w'" "fw_cwd w' = fw_cwd w"
    "\<And>q. \<forall>d \<in> set sweep_dirs. take (Suc (length (cwd_dir w))) q \<noteq> cwd_dir w @ [d] \<Longrightarrow> nodes w' q = nodes w q"
proof -
  from sweep_main_writes [OF assms] obtain w' where w': "sweep_main argsort ps w = (Inr (), w')" "wrote w w' (sweep_writes argsort ps)" by blast
  have cwd: "fw_cwd w' = fw_cwd w" "cwd_dir w' = cwd_dir w" using w'(2) by (simp_all add: wrote_def cwd_dir_def)
  have here: "nodes w' (cwd_dir w' @ [d, f]) = (case map_of (sweep_writes argsort ps) (d, f) of Some t \<Rightarrow> Some (File t) | None \<Rightarrow> nodes w (cwd_dir w @ [d, f]))" for d f
    using w'(2) by (simp add: wrote_def cwd written_file split: option.splits)
  have "sweep_results argsort ps w'"
    unfolding sweep_results_def by (auto simp: here lookup_pac lookup_traditional)
  moreover have "nodes w' q = nodes w q" if q: "\<forall>d \<in> set sweep_dirs. take (Suc (length (cwd_dir w))) q \<noteq> cwd_dir w @ [d]" for q
  proof -
    have "q \<notin> fst ` set (written (cwd_dir w) L)" if "list_all (\<lambda>((d, f), t). d \<in> set sweep_dirs) L" for L
      using that q by (induction "cwd_dir w" L rule: written.induct) auto
    then have "map_of (written (cwd_dir w) (sweep_writes argsort ps)) q = None"
      using w'(2) by (simp add: wrote_def map_of_eq_None_iff)
    then show ?thesis using w'(2) by (simp add: wrote_def)
  qed
  ultimately show ?thesis using that w'(1) cwd(1) by blast
qed

end
