(* ===== verification/PacPlot.thy ===== *)
theory PacPlot
  imports PacSweepProps
begin

text \<open>
  The plots of the results of a sweep, \<^verbatim>\<open>pysrc/pac/plot.py\<close> and \<^verbatim>\<open>pysrc/pac/result/comparison_figure.py\<close>: they read the CSV files
  that the driver writes, print how much the pipeline-aware cache saves, and draw. pandas' \<open>read_csv\<close> on a file of two columns of numbers is
  an argument; calls of matplotlib are recorded. Ratios are exact where the code has floats.
\<close>

definition draw_call :: "string \<Rightarrow> ('z pac_world_scheme, unit) io" where
  "draw_call s = io_modify (\<lambda>w. w\<lparr>pw_draw := pw_draw w @ [DrawCall s]\<rparr>)"

definition draw_curve :: "nat \<times> nat \<Rightarrow> (rat \<times> rat) list \<Rightarrow> string \<Rightarrow> string \<Rightarrow> ('z pac_world_scheme, unit) io" where
  "draw_curve axes points label attrs = io_modify (\<lambda>w. w\<lparr>pw_draw := pw_draw w @ [DrawCurve axes points label attrs]\<rparr>)"

fun draw_calls :: "string list \<Rightarrow> ('z pac_world_scheme, unit) io" where
  "draw_calls [] = io_return ()"
| "draw_calls (s # ss) = io_then (draw_call s) (draw_calls ss)"

section \<open>Reading the results\<close>

type_synonym csv_reader = "string \<Rightarrow> (rat \<times> rat) list result"

definition read_table :: "csv_reader \<Rightarrow> string \<Rightarrow> ('z file_world_scheme, (rat \<times> rat) list) io" where
  "read_table read_csv filename = io_bind (read_bytes filename) (\<lambda>content. io_lift (read_csv content))"

text \<open>Division of numpy numbers.\<close>

datatype np_num = Number rat | Infinite bool | NotANumber

definition saving :: "rat \<Rightarrow> rat \<Rightarrow> np_num" where
  "saving other ws_min =
     (if other = 0 then (if ws_min = 0 then NotANumber else Infinite (ws_min < 0)) else Number ((other - ws_min) / other * 100))"

definition first_miss :: "(rat \<times> rat) list \<Rightarrow> rat result" where
  "first_miss df = (case df of [] \<Rightarrow> Inl IndexError | (_, m) # _ \<Rightarrow> Inr m)"

text \<open>One curve of the pipeline-aware cache: the smallest number of cold starts so far, and the factors of the last curve.\<close>

definition history_curve ::
    "csv_reader \<Rightarrow> nat \<times> nat \<Rightarrow> string \<Rightarrow> string \<Rightarrow> string \<Rightarrow> int \<Rightarrow> int \<Rightarrow> rat \<times> rat list \<Rightarrow> ('z pac_world_scheme, rat \<times> rat list) io" where
  "history_curve read_csv axes attrs base_dir prefix i j acc =
     io_bind (read_table read_csv (path_join base_dir (csv_name prefix j i))) (\<lambda>df.
     io_then (draw_curve axes df (''PAC::HistorySize='' @ int_str j) attrs)
       (if df = [] then io_raise ValueError
        else let m = Min (snd ` set df) in io_return (if fst acc > m then m else fst acc, map fst df)))"

text \<open>A level line for another cache, at the factors of the last curve; what is printed before and after the saving is given.\<close>

definition policy_curve ::
    "csv_reader \<Rightarrow> (np_num \<Rightarrow> string) \<Rightarrow> nat \<times> nat \<Rightarrow> string \<Rightarrow> string \<Rightarrow> string \<Rightarrow> string \<Rightarrow> int \<Rightarrow> string \<Rightarrow> string \<Rightarrow> rat \<times> rat list \<Rightarrow>
      ('z pac_world_scheme, unit) io" where
  "policy_curve read_csv show_np axes attrs base_dir name label i before after acc =
     io_bind (read_table read_csv (path_join base_dir (csv_name name 1 i))) (\<lambda>df.
     io_bind (io_lift (first_miss df)) (\<lambda>m.
     io_then (print_out (before @ show_np (saving m (fst acc)) @ after))
       (draw_curve axes (map (\<lambda>a. (a, m)) (snd acc)) label attrs)))"

definition panel_curves ::
    "csv_reader \<Rightarrow> (np_num \<Rightarrow> string) \<Rightarrow> nat \<times> nat \<Rightarrow> string \<Rightarrow> string \<Rightarrow> string \<Rightarrow> int \<Rightarrow> ('z pac_world_scheme, unit) io" where
  "panel_curves read_csv show_np axes width base_dir prefix i =
     io_bind (io_fold (history_curve read_csv axes width base_dir prefix i) [4..13] (9999, [])) (\<lambda>acc.
     io_then (policy_curve read_csv show_np axes (''--'' @ width) base_dir ''lru'' ''LRU'' i (int_str i @ '','') [] acc)
     (io_then (policy_curve read_csv show_np axes (''--'' @ width) base_dir ''lfu'' ''LFU'' i '','' [] acc)
     (policy_curve read_csv show_np axes (''--'' @ width) base_dir ''fifo'' ''FIFO'' i '','' newline acc)))"

section \<open>plot.py\<close>

text \<open>\<open>single_img\<close>; both modules have it, with another resolution.\<close>

definition single_curve :: "csv_reader \<Rightarrow> string \<Rightarrow> int \<Rightarrow> int \<Rightarrow> rat list \<Rightarrow> ('z pac_world_scheme, rat list) io" where
  "single_curve read_csv base_dir i j alphas =
     io_bind (read_table read_csv (path_join base_dir (csv_name ''slonly'' j i))) (\<lambda>df.
     io_then (draw_curve (0, 0) df (''PAC:HistorySize='' @ int_str j) [])
     (io_then (draw_call ''ax.legend(loc=1, prop={size: 6})'') (io_return (map fst df))))"

definition single_img_at :: "string \<Rightarrow> csv_reader \<Rightarrow> string \<Rightarrow> int \<Rightarrow> int \<Rightarrow> ('z pac_world_scheme, unit) io" where
  "single_img_at dpi read_csv base_dir start stop =
     io_then (io_fold (\<lambda>i alphas.
       io_then (draw_calls [''fig = plt.figure(dpi='' @ dpi @ '')'', ''ax = fig.add_subplot(1, 1, 1)''])
       (io_bind (io_fold (single_curve read_csv base_dir i) [start..stop - 1] alphas) (\<lambda>alphas.
        io_bind (read_table read_csv (path_join base_dir (csv_name ''lru'' 1 i))) (\<lambda>df.
        io_bind (io_lift (first_miss df)) (\<lambda>m.
        io_then (draw_curve (0, 0) (map (\<lambda>a. (a, m)) alphas) ''LRU'' ''--'')
        (io_then (draw_calls [''ax.legend(loc=1, prop={size: 6})'', ''plt.grid(True, ls=--, color=lightgray)'', ''plt.xlim(0.0, 0.6)'',
            ''plt.ylim(0, 4500)'', ''plt.savefig(h'' @ int_str i @ ''.png)'', ''plt.clf()'', ''plt.cla()'', ''plt.close()''])
        (io_return alphas)))))))
       [start..stop - 1] [0]) (io_return ())"

definition single_img :: "csv_reader \<Rightarrow> string \<Rightarrow> int \<Rightarrow> int \<Rightarrow> ('z pac_world_scheme, unit) io" where
  "single_img = single_img_at ''240''"

text \<open>
  \<open>items[i::n]\<close> and \<open>flip\<close>. The legend has the labels of the axes that were made last. \<open>subfigures\<close> with one
  row gives no array, which \<open>enumerate\<close> refuses; without a row it raises.
\<close>

definition every :: "nat \<Rightarrow> nat \<Rightarrow> 'a list \<Rightarrow> 'a list" where
  "every n i items = map ((!) items) (filter (\<lambda>k. k mod n = i mod n \<and> i \<le> k) [0..<length items])"

definition flip_items :: "'a list \<Rightarrow> nat \<Rightarrow> 'a list" where
  "flip_items items ncol = concat (map (\<lambda>i. every ncol i items) [0..<ncol])"

definition curve_labels :: "nat \<times> nat \<Rightarrow> draw list \<Rightarrow> string list" where
  "curve_labels axes ds = concat (map (\<lambda>d. case d of DrawCurve a _ label _ \<Rightarrow> if a = axes then [label] else [] | DrawCall _ \<Rightarrow> []) ds)"

definition draw_legend :: "nat \<times> nat \<Rightarrow> string \<Rightarrow> ('z pac_world_scheme, unit) io" where
  "draw_legend axes attrs =
     io_bind io_get (\<lambda>w. draw_call (''total_fig.legend('' @ str_join '', '' (flip_items (curve_labels axes (pw_draw w)) 5) @ attrs @ '')''))"

definition subfigure_rows :: "nat \<Rightarrow> nat list result" where
  "subfigure_rows n = (if n = 0 then Inl ValueError else if n = 1 then Inl TypeError else Inr [0..<n])"

definition axes_text :: "nat \<times> nat \<Rightarrow> string" where
  "axes_text axes = ''axes['' @ nat_str (snd axes) @ ''].''"

definition plot_row ::
    "csv_reader \<Rightarrow> (np_num \<Rightarrow> string) \<Rightarrow> string list \<Rightarrow> string list \<Rightarrow> int \<Rightarrow> int \<Rightarrow> nat \<Rightarrow> ('z pac_world_scheme, unit) io" where
  "plot_row read_csv show_np base_dirs prefixes start stop row =
     io_then (draw_call ''axes = subfig.subplots(nrows=1, ncols=6)'')
     (io_bind (io_lift (py_index [''SLOnly'', ''ULOnly'', ''SL+UL''] (int row))) (\<lambda>title.
      io_then (draw_call (''subfig.suptitle('' @ title @ '')''))
     (io_bind (io_lift (py_index (zip base_dirs prefixes) (int row))) (\<lambda>(base_dir, prefix).
      io_then (draw_call ''plt.subplots_adjust(hspace=0.3, wspace=0.3)'')
     (io_then (io_map (\<lambda>i.
        let axes = (row, nat ((i - start) mod 6))
        in io_then (panel_curves read_csv show_np axes [] base_dir prefix i)
           (draw_calls (map ((@) (axes_text axes)) [''grid(True, ls=--, color=lightgray)'', ''set_xlim(0.0, 0.6)'', ''set_ylim(0, 4500)'',
              ''set_xlabel(PAC::alpha)'', ''set_ylabel(Cache Miss / Cold Start No.)'', ''title.set_text(WorkerSet='' @ int_str i @ '')'']))) [start..stop - 1])
     (io_return ()))))))"

definition multi_img :: "csv_reader \<Rightarrow> (np_num \<Rightarrow> string) \<Rightarrow> string list \<Rightarrow> string list \<Rightarrow> int \<Rightarrow> int \<Rightarrow> ('z pac_world_scheme, unit) io" where
  "multi_img read_csv show_np base_dirs prefixes start stop =
     io_then (print_out (''WS,LRU,LFU,FIFO'' @ newline))
     (io_then (draw_calls [''plt.rcParams.update(font.size 18, xtick.labelsize 18, ytick.labelsize 18, axes.titlesize 18)'',
        ''total_fig = plt.figure(dpi=240)'', ''total_fig.set_figwidth('' @ float_text (15 / 2 * 6) @ '')'',
        ''total_fig.set_figheight('' @ float_text (11 / 2 * of_nat (length prefixes) + 1 / 2) @ '')''])
     (io_bind (io_lift (subfigure_rows (length prefixes))) (\<lambda>rows.
      io_then (io_map (plot_row read_csv show_np base_dirs prefixes start stop) rows)
     (io_then (draw_legend (length prefixes - 1, 5) '', bbox_to_anchor=(0.5, 1), loc=lower center, ncol=5'')
     (io_then (print_out newline)
     (draw_calls [''plt.savefig(plot_all.pdf, bbox_inches=tight)'', ''plt.close()'']))))))"

definition plot_main :: "csv_reader \<Rightarrow> (np_num \<Rightarrow> string) \<Rightarrow> ('z pac_world_scheme, unit) io" where
  "plot_main read_csv show_np =
     multi_img read_csv show_np [''r0.8i200_slonly'', ''r0.8i200_ulonly'', ''r0.8i200_slul''] [''slonly'', ''ulonly'', ''slul''] 8 14"

section \<open>comparison_figure.py\<close>

definition comparison_single_img :: "csv_reader \<Rightarrow> string \<Rightarrow> int \<Rightarrow> int \<Rightarrow> ('z pac_world_scheme, unit) io" where
  "comparison_single_img = single_img_at ''224''"

text \<open>Labels of the vertical axis in the first column, titles in the first row, labels of the horizontal axis in the last row.\<close>

definition comparison_panel_calls :: "nat \<Rightarrow> nat \<times> nat \<Rightarrow> int \<Rightarrow> string list" where
  "comparison_panel_calls num_rows axes i =
     map ((@) (axes_text axes))
      ((if snd axes = 0 then [''set_ylabel(Cold Start Times)''] else [''set_ylabel()'', ''set_yticklabels([])'']) @
       (if fst axes = 0 then [''set_title(WorkerSet='' @ int_str i @ '')''] else []) @
       (if fst axes = num_rows - 1 then [''set_xlabel(PAC::alpha)''] else [''get_xaxis().set_ticklabels([])'']) @
       [''grid(True, ls=--, color=lightgray)'', ''set_xlim(0.0, 0.6)'', ''set_ylim(0, 4000)'',
        ''set_xticks(np.arange(0, 0.7, step=0.1))'', ''set_yticks(np.arange(0, 5000, step=1000))''])"

definition comparison_row ::
    "csv_reader \<Rightarrow> (np_num \<Rightarrow> string) \<Rightarrow> string list \<Rightarrow> string list \<Rightarrow> int \<Rightarrow> int \<Rightarrow> nat \<Rightarrow> ('z pac_world_scheme, unit) io" where
  "comparison_row read_csv show_np base_dirs prefixes start stop row =
     io_then (draw_calls [''plt.tight_layout(rect=[0, 0, 1, 0.95])'', ''plt.subplots_adjust(wspace=0.12)'', ''axes = subfig.subplots(nrows=1, ncols=6)''])
     (io_bind (io_lift (py_index [''SO'', ''UO'', ''SU''] (int row))) (\<lambda>title.
      io_then (draw_call (''subfig.suptitle('' @ title @ '', x=1, y=0.57, rotation=270)''))
     (io_bind (io_lift (py_index (zip base_dirs prefixes) (int row))) (\<lambda>(base_dir, prefix).
      io_then (io_map (\<lambda>i.
        let axes = (row, nat ((i - start) mod 6))
        in io_then (panel_curves read_csv show_np axes '', linewidth=3.0'' base_dir prefix i)
           (draw_calls (comparison_panel_calls (length prefixes) axes i))) [start..stop - 1])
     (io_return ())))))"

definition comparison_multi_img :: "csv_reader \<Rightarrow> (np_num \<Rightarrow> string) \<Rightarrow> string list \<Rightarrow> string list \<Rightarrow> int \<Rightarrow> int \<Rightarrow> ('z pac_world_scheme, unit) io" where
  "comparison_multi_img read_csv show_np base_dirs prefixes start stop =
     io_then (print_out (''WS,LRU,LFU,FIFO'' @ newline))
     (io_then (draw_calls [''plt.rcParams.update(font.size 30, xtick.labelsize 30, ytick.labelsize 30, axes.titlesize 30, font.family Linux Libertine O)'',
        ''total_fig = plt.figure(dpi=224)'', ''total_fig.set_figwidth('' @ float_text (11 / 2 * 6) @ '')'',
        ''total_fig.set_figheight('' @ float_text (44 / 10 * of_nat (length prefixes) + 1 / 2) @ '')''])
     (io_bind (io_lift (subfigure_rows (length prefixes))) (\<lambda>rows.
      io_then (io_map (comparison_row read_csv show_np base_dirs prefixes start stop) rows)
     (io_then (draw_legend (length prefixes - 1, 5) '', bbox_to_anchor=(0.5, 1.01), loc=lower center, ncol=5, labelspacing=0.2'')
     (io_then (print_out newline)
     (draw_calls [''plt.savefig(plot_all.pdf, bbox_inches=tight)'', ''plt.savefig(plot_all.png, bbox_inches=tight)'', ''plt.close()'']))))))"

definition comparison_main :: "csv_reader \<Rightarrow> (np_num \<Rightarrow> string) \<Rightarrow> ('z pac_world_scheme, unit) io" where
  "comparison_main read_csv show_np =
     comparison_multi_img read_csv show_np [''r0.8i200_slonly'', ''r0.8i200_ulonly'', ''r0.8i200_slul''] [''slonly'', ''ulonly'', ''slul''] 8 14"

end
