(* ===== verification/PacPlotProps.thy ===== *)
theory PacPlotProps
  imports PacPlot
begin

text \<open>
  The driver and the plots together: what the plots print is what the simulations gave. Then a reader of the CSV files that
  has the laws the plots need of \<open>read_csv\<close>.
\<close>

section \<open>Programs that keep files and print\<close>

definition prints :: "('z pac_world_scheme \<Rightarrow> bool) \<Rightarrow> ('z pac_world_scheme, 'a) io \<Rightarrow> 'a \<Rightarrow> string \<Rightarrow> bool" where
  "prints P f x out \<longleftrightarrow> (\<forall>w. P w \<longrightarrow> (\<exists>w'. f w = (Inr x, w') \<and> P w' \<and> pw_out w' = pw_out w @ out))"


lemma prints_return: "prints P (io_return x) x []"
  by (simp add: prints_def)

lemma prints_bind: "prints P f x a \<Longrightarrow> prints P (g x) y b \<Longrightarrow> prints P (io_bind f g) y (a @ b)"
  unfolding prints_def by (fastforce simp: io_bind_def)

lemma prints_then: "prints P f x a \<Longrightarrow> prints P g y b \<Longrightarrow> prints P (io_then f g) y (a @ b)"
  unfolding io_then_def by (rule prints_bind)

lemma prints_map:
  assumes "\<And>x. x \<in> set xs \<Longrightarrow> prints P (f x) (g x) (out x)"
  shows "prints P (io_map f xs) (map g xs) (concat (map out xs))"
  using assms
proof (induction xs)
  case Nil
  show ?case by (simp add: prints_def)
next
  case (Cons x xs)
  have "prints P (io_bind (f x) (\<lambda>y. io_bind (io_map f xs) (\<lambda>ys. io_return (y # ys)))) (g x # map g xs) (out x @ concat (map out xs) @ [])"
    by (intro prints_bind [where x = "g x"] prints_bind [where x = "map g xs"] prints_return Cons) simp_all
  then show ?case by simp
qed

lemma prints_fold:
  assumes "\<And>x acc. x \<in> set xs \<Longrightarrow> prints P (f x acc) (u x acc) []"
  shows "prints P (io_fold f xs acc) (fold u xs acc) []"
  using assms
proof (induction xs arbitrary: acc)
  case Nil
  show ?case by (simp add: prints_def)
next
  case (Cons x xs)
  have "prints P (io_bind (f x acc) (io_fold f xs)) (fold u xs (u x acc)) ([] @ [])"
    by (intro prints_bind [where x = "u x acc"] Cons) simp_all
  then show ?case by simp
qed

section \<open>What the plots read\<close>

fun num_value :: "py_num \<Rightarrow> rat" where
  "num_value (PyFloat x) = x"
| "num_value (PyInt i) = of_int i"

text \<open>Numbers with at most four decimals, none of them negative but integers.\<close>

fun short_num :: "py_num \<Rightarrow> bool" where
  "short_num (PyFloat x) \<longleftrightarrow> 0 \<le> x \<and> of_int (round (x * 10000)) = x * 10000"
| "short_num (PyInt i) \<longleftrightarrow> True"

text \<open>What is needed of \<open>read_csv\<close>: a file of two columns that the \<open>csv\<close> module wrote is read as its numbers.\<close>

definition reads_csv :: "csv_reader \<Rightarrow> bool" where
  "reads_csv read_csv \<longleftrightarrow> (\<forall>data. list_all (\<lambda>(a, n). short_num a) data \<longrightarrow>
     read_csv (utf8 (csv_text data)) = Inr (map (\<lambda>(a, n). (num_value a, of_int n)) data))"

definition results_there :: "(rat list \<Rightarrow> nat list) \<Rightarrow> version list list \<Rightarrow> 'z file_world_scheme \<Rightarrow> bool" where
  "results_there argsort ps w \<longleftrightarrow> fw_cwd w \<noteq> [] \<and> sweep_results argsort ps w"

lemma results_there_more [simp]:
  "results_there argsort ps (w\<lparr>pw_out := s\<rparr>) = results_there argsort ps w"
  "results_there argsort ps (w\<lparr>pw_draw := ds\<rparr>) = results_there argsort ps w"
  by (simp_all add: results_there_def sweep_results_def cwd_dir_def nodes_def)

abbreviation there where "there argsort ps \<equiv> \<lambda>w :: 'z pac_world_scheme. results_there argsort ps w"

lemma prints_draw_call: "prints (there argsort ps) (draw_call s) () []"
  by (simp add: prints_def draw_call_def)

lemma prints_draw_curve: "prints (there argsort ps) (draw_curve axes points label attrs) () []"
  by (simp add: prints_def draw_curve_def)

lemma prints_draw_calls: "prints (there argsort ps) (draw_calls ss) () []"
proof (induction ss)
  case (Cons s ss)
  from prints_then [OF prints_draw_call Cons] show ?case by simp
qed (simp add: prints_def)

lemma prints_draw_legend: "prints (there argsort ps) (draw_legend axes attrs) () []"
  by (simp add: prints_def draw_legend_def draw_call_def)

lemma prints_print_out: "prints (there argsort ps) (print_out s) () s"
  by (simp add: prints_def print_out_def)

lemma prints_lift: "prints P (io_lift (Inr x)) x []"
  by (simp add: prints_def)

definition pac_points :: "(rat list \<Rightarrow> nat list) \<Rightarrow> version list list \<Rightarrow> sweep_config \<Rightarrow> int \<Rightarrow> int \<Rightarrow> (rat \<times> rat) list" where
  "pac_points argsort ps c i h = map (\<lambda>k. (of_nat k / 250, of_nat (pac_misses argsort ps c i h k))) [0..<200]"

lemma short_alpha: "short_num (PyFloat (of_nat k / 250))"
proof -
  have "(of_nat k / 250 * 10000 :: rat) = of_int (int (40 * k))" by simp
  then show ?thesis by (metis short_num.simps(1) divide_nonneg_nonneg of_nat_0_le_iff round_of_int zero_le_numeral)
qed

lemma plain_dir: "c \<in> set sweep_configs \<Longrightarrow> plain_name (sc_base_dir c)"
  using config_facts base_dirs_plain by blast

lemma read_file:
  assumes "results_there argsort ps w" "plain_name d" "plain_name f" "nodes w (cwd_dir w @ [d, f]) = Some (File t)"
  shows "read_table R (path_join d f) w = (R t, w)"
  using assms resolve_file [OF _ assms(2,3), of w]
  by (simp add: read_table_def read_bytes_def node_at_def nodes_def results_there_def io_bind_def)

lemma prints_pac_table:
  assumes "reads_csv R" "c \<in> set sweep_configs" "i \<in> sizes" "h \<in> sizes"
  shows "prints (there argsort ps) (read_table R (path_join (sc_base_dir c) (csv_name (sc_prefix c) h i))) (pac_points argsort ps c i h) []"
proof -
  have plain: "plain_name (csv_name (sc_prefix c) h i)"
    using csv_name_plain [of "sc_prefix c" "nat h" "nat i"] config_facts [OF assms(2)] sizes_nonneg assms(3,4) by simp
  have "R (utf8 (csv_text (pac_table argsort ps c i h))) = Inr (pac_points argsort ps c i h)"
  proof -
    have "list_all (\<lambda>(a, n). short_num a) (pac_table argsort ps c i h)"
      using short_alpha by (simp add: pac_table_def list_all_iff)
    with assms(1) have "R (utf8 (csv_text (pac_table argsort ps c i h)))
        = Inr (map (\<lambda>(a, n). (num_value a, of_int n)) (pac_table argsort ps c i h))" by (simp add: reads_csv_def)
    then show ?thesis by (simp add: pac_table_def pac_points_def)
  qed
  moreover have "nodes w (cwd_dir w @ [sc_base_dir c, csv_name (sc_prefix c) h i]) = Some (File (utf8 (csv_text (pac_table argsort ps c i h))))"
    if "results_there argsort ps w" for w :: "'a pac_world_scheme"
    using that assms(2-4) unfolding results_there_def sweep_results_def by blast
  ultimately have "results_there argsort ps w \<Longrightarrow> read_table R (path_join (sc_base_dir c) (csv_name (sc_prefix c) h i)) w
      = (Inr (pac_points argsort ps c i h), w)" for w :: "'a pac_world_scheme"
    using read_file [OF _ plain_dir [OF assms(2)] plain] by metis
  then show ?thesis by (simp add: prints_def)
qed

lemma prints_traditional_table:
  assumes "reads_csv R" "c \<in> set sweep_configs" "i \<in> sizes" "(p, cls) \<in> traditional"
  shows "prints (there argsort ps) (read_table R (path_join (sc_base_dir c) (csv_name p 1 i))) [(- 1, of_nat (trad_misses ps cls i))] []"
proof -
  have "CHR ''/'' \<notin> set p" using assms(4) by (auto simp: traditional_def)
  then have plain: "plain_name (csv_name p 1 i)" using csv_name_plain [of p 1 "nat i"] sizes_nonneg [OF assms(3)] by simp
  have "R (utf8 (csv_text [(PyInt (- 1), int (trad_misses ps cls i))])) = Inr [(- 1, of_nat (trad_misses ps cls i))]"
    using assms(1) by (simp add: reads_csv_def)
  moreover have "nodes w (cwd_dir w @ [sc_base_dir c, csv_name p 1 i]) = Some (File (utf8 (csv_text [(PyInt (- 1), int (trad_misses ps cls i))])))"
    if "results_there argsort ps w" for w :: "'a pac_world_scheme"
    using that assms(2-4) unfolding results_there_def sweep_results_def by blast
  ultimately have "results_there argsort ps w \<Longrightarrow> read_table R (path_join (sc_base_dir c) (csv_name p 1 i)) w
      = (Inr [(- 1, of_nat (trad_misses ps cls i))], w)" for w :: "'a pac_world_scheme"
    using read_file [OF _ plain_dir [OF assms(2)] plain] by metis
  then show ?thesis by (simp add: prints_def)
qed

section \<open>The report\<close>

definition best_misses :: "(rat list \<Rightarrow> nat list) \<Rightarrow> version list list \<Rightarrow> sweep_config \<Rightarrow> int \<Rightarrow> nat" where
  "best_misses argsort ps c i = Min (set (9999 # concat (map (\<lambda>h. map (pac_misses argsort ps c i h) [0..<200]) [4..13])))"

definition savings_line :: "(np_num \<Rightarrow> string) \<Rightarrow> (rat list \<Rightarrow> nat list) \<Rightarrow> version list list \<Rightarrow> sweep_config \<Rightarrow> int \<Rightarrow> string" where
  "savings_line show_np argsort ps c i =
     (let text = (\<lambda>cls. show_np (saving (of_nat (trad_misses ps cls i)) (of_nat (best_misses argsort ps c i))))
      in int_str i @ '','' @ text LRUCache @ '','' @ text LFUCache @ '','' @ text FIFOCache @ newline)"

definition savings_report :: "(np_num \<Rightarrow> string) \<Rightarrow> (rat list \<Rightarrow> nat list) \<Rightarrow> version list list \<Rightarrow> string" where
  "savings_report show_np argsort ps =
     ''WS,LRU,LFU,FIFO'' @ newline @ concat (map (\<lambda>c. concat (map (savings_line show_np argsort ps c) [8..13])) sweep_configs) @ newline"

lemma min_points: "(if a > Min (snd ` set (pac_points argsort ps c i h)) then Min (snd ` set (pac_points argsort ps c i h)) else a)
    = fold min (map (\<lambda>k. of_nat (pac_misses argsort ps c i h k)) [0..<200]) a"
proof -
  let ?xs = "map (\<lambda>k. of_nat (pac_misses argsort ps c i h k) :: rat) [0..<200]"
  have "snd ` set (pac_points argsort ps c i h) = set ?xs" by (auto simp: pac_points_def image_image)
  moreover have "fold min ?xs a = min a (Min (set ?xs))"
    unfolding Min.set_eq_fold [symmetric] list.set(2) by (rule Min_insert) simp_all
  ultimately show ?thesis by (simp only: min_def not_less [symmetric] if_not_P split: if_splits) auto
qed

lemma prints_history_curves:
  assumes "reads_csv R" "c \<in> set sweep_configs" "i \<in> sizes"
  shows "prints (there argsort ps) (io_fold (history_curve R axes attrs (sc_base_dir c) (sc_prefix c) i) [4..13] (9999, []))
    (of_nat (best_misses argsort ps c i), map (\<lambda>k. of_nat k / 250) [0..<200]) []"
proof -
  let ?u = "\<lambda>h acc. (fold min (map (\<lambda>k. of_nat (pac_misses argsort ps c i h k) :: rat) [0..<200]) (fst acc), map (\<lambda>k. of_nat k / (250 :: rat)) [0..<200])"
  have "prints (there argsort ps) (history_curve R axes attrs (sc_base_dir c) (sc_prefix c) i h acc) (?u h acc) []" if "h \<in> set [4..13]" for h acc
  proof -
    have ne: "pac_points argsort ps c i h \<noteq> []" by (simp add: pac_points_def)
    have fst: "map fst (pac_points argsort ps c i h) = map (\<lambda>k. of_nat k / 250) [0..<200]" by (simp add: pac_points_def)
    have h: "h \<in> sizes" using that by (simp add: sizes_def)
    have "prints (there argsort ps) (history_curve R axes attrs (sc_base_dir c) (sc_prefix c) i h acc) (?u h acc) ([] @ [] @ [])"
      unfolding history_curve_def
      by (rule prints_bind, rule prints_pac_table [OF assms h], rule prints_then, rule prints_draw_curve)
        (simp only: ne if_False Let_def min_points fst prints_return)
    then show ?thesis by simp
  qed
  from prints_fold [OF this] have run: "prints (there argsort ps) (io_fold (history_curve R axes attrs (sc_base_dir c) (sc_prefix c) i) [4..13] (9999, []))
    (fold ?u [4..13] (9999, [])) []" .
  have u: "fold ?u hs acc = (fold min (concat (map (\<lambda>h. map (\<lambda>k. of_nat (pac_misses argsort ps c i h k) :: rat) [0..<200]) hs)) (fst acc),
      if hs = [] then snd acc else map (\<lambda>k. of_nat k / 250) [0..<200])" for hs acc
    by (induction hs arbitrary: acc) simp_all
  have "fold min (map of_nat xs) (of_nat m :: rat) = of_nat (fold min xs m)" for xs m
    by (induction xs arbitrary: m) (simp_all flip: of_nat_min)
  from this [of "concat (map (\<lambda>h. map (pac_misses argsort ps c i h) [0..<200]) [4..13])" 9999]
  have "fold min (concat (map (\<lambda>h. map (\<lambda>k. of_nat (pac_misses argsort ps c i h k) :: rat) [0..<200]) [4..13])) 9999
      = of_nat (best_misses argsort ps c i)"
    unfolding best_misses_def Min.set_eq_fold by (simp only: map_concat map_map comp_def of_nat_numeral)
  then have "fold ?u [4..13] (9999, []) = (of_nat (best_misses argsort ps c i), map (\<lambda>k. of_nat k / 250) [0..<200])"
    unfolding u by simp
  with run show ?thesis by (simp only:)
qed

lemma prints_policy_curve:
  assumes "reads_csv R" "c \<in> set sweep_configs" "i \<in> sizes" "(p, cls) \<in> traditional"
  shows "prints (there argsort ps) (policy_curve R show_np axes attrs (sc_base_dir c) p label i before after acc) ()
    (before @ show_np (saving (of_nat (trad_misses ps cls i)) (fst acc)) @ after)"
proof -
  have "first_miss [(- 1, of_nat (trad_misses ps cls i))] = Inr (of_nat (trad_misses ps cls i))" by (simp add: first_miss_def)
  then have "prints (there argsort ps) (policy_curve R show_np axes attrs (sc_base_dir c) p label i before after acc) ()
    ([] @ [] @ (before @ show_np (saving (of_nat (trad_misses ps cls i)) (fst acc)) @ after) @ [])"
    unfolding policy_curve_def
    by (intro prints_bind [OF prints_traditional_table [OF assms]] prints_bind [where x = "of_nat (trad_misses ps cls i)"]
        prints_then [OF prints_print_out prints_draw_curve]) (simp add: prints_def)
  then show ?thesis by simp
qed

lemma prints_panel_curves:
  assumes "reads_csv R" "c \<in> set sweep_configs" "i \<in> sizes"
  shows "prints (there argsort ps) (panel_curves R show_np axes attrs (sc_base_dir c) (sc_prefix c) i) () (savings_line show_np argsort ps c i)"
proof -
  let ?acc = "(of_nat (best_misses argsort ps c i) :: rat, map (\<lambda>k. of_nat k / (250 :: rat)) [0..<200])"
  have t: "(''lru'', LRUCache) \<in> traditional" "(''lfu'', LFUCache) \<in> traditional" "(''fifo'', FIFOCache) \<in> traditional"
    by (simp_all add: traditional_def)
  note p = prints_policy_curve [OF assms t(1)] prints_policy_curve [OF assms t(2)] prints_policy_curve [OF assms t(3)]
  have "prints (there argsort ps) (panel_curves R show_np axes attrs (sc_base_dir c) (sc_prefix c) i) ()
     ([] @ ((int_str i @ '','') @ show_np (saving (of_nat (trad_misses ps LRUCache i)) (fst ?acc)) @ []) @
      ('','' @ show_np (saving (of_nat (trad_misses ps LFUCache i)) (fst ?acc)) @ []) @
      ('','' @ show_np (saving (of_nat (trad_misses ps FIFOCache i)) (fst ?acc)) @ newline))"
    unfolding panel_curves_def
    by (intro prints_bind [OF prints_history_curves [OF assms]] prints_then [OF p(1)] prints_then [OF p(2)] p(3))
  then show ?thesis by (simp add: savings_line_def Let_def)
qed

lemma three_configs: "length sweep_configs = 3"
  by (simp add: sweep_configs_def)

lemma prints_rows:
  assumes "\<And>c row. c \<in> set sweep_configs \<Longrightarrow> row < 3 \<Longrightarrow> sweep_configs ! row = c \<Longrightarrow> prints P (f row) () (out c)"
  shows "prints P (io_map f [0..<3]) [(), (), ()] (concat (map out sweep_configs))"
proof -
  have len: "length sweep_configs = 3" by (simp add: sweep_configs_def)
  have "prints P (io_map f [0..<3]) (map (\<lambda>_. ()) [0..<3]) (concat (map (\<lambda>row. out (sweep_configs ! row)) [0..<3]))"
    using assms len by (intro prints_map) auto
  moreover have "map (\<lambda>row. out (sweep_configs ! row)) [0..<3] = map out sweep_configs"
    unfolding len [symmetric] by (metis (no_types, lifting) map_nth map_map comp_def map_eq_conv)
  moreover have "map (\<lambda>_. ()) [0..<3] = [(), (), ()]" by (simp add: upt_rec)
  ultimately show ?thesis by (simp only:)
qed

definition sweep_prefixes :: "string list" where
  "sweep_prefixes = map sc_prefix sweep_configs"

lemma sweep_zip: "row < 3 \<Longrightarrow> py_index (zip sweep_dirs sweep_prefixes) (int row) = Inr (sc_base_dir (sweep_configs ! row), sc_prefix (sweep_configs ! row))"
  by (simp add: sweep_dirs_def sweep_prefixes_def sweep_configs_def) (auto simp: less_Suc_eq numeral_3_eq_3)

lemma prints_bind_pair: "prints P f (a, b) x \<Longrightarrow> prints P (g a b) y z \<Longrightarrow> prints P (io_bind f (\<lambda>(a, b). g a b)) y (x @ z)"
  by (rule prints_bind [where x = "(a, b)"]) (simp_all only: prod.case)

lemma prints_panels:
  assumes "reads_csv R" "c \<in> set sweep_configs"
  shows "prints (there argsort ps) (io_map (\<lambda>i. let axes = ax i in io_then (panel_curves R show_np axes attrs (sc_base_dir c) (sc_prefix c) i)
      (draw_calls (calls axes i))) [8..14 - 1]) (map (\<lambda>_. ()) [8..14 - 1]) (concat (map (savings_line show_np argsort ps c) [8..13]))"
proof -
  have "prints (there argsort ps) (io_map (\<lambda>i. let axes = ax i in io_then (panel_curves R show_np axes attrs (sc_base_dir c) (sc_prefix c) i)
      (draw_calls (calls axes i))) [8..14 - 1]) (map (\<lambda>_. ()) [8..14 - 1]) (concat (map (\<lambda>i. savings_line show_np argsort ps c i @ []) [8..14 - 1]))"
    unfolding Let_def
  proof (rule prints_map)
    fix i :: int assume "i \<in> set [8..14 - 1]"
    then have "i \<in> sizes" by (auto simp: sizes_def)
    from prints_then [OF prints_panel_curves [OF assms this] prints_draw_calls]
    show "prints (there argsort ps) (io_then (panel_curves R show_np (ax i) attrs (sc_base_dir c) (sc_prefix c) i) (draw_calls (calls (ax i) i))) ()
      (savings_line show_np argsort ps c i @ [])" .
  qed
  then show ?thesis by (simp only: append_Nil2) simp
qed

lemma prints_plot_row:
  assumes "reads_csv R" "row < 3" "c = sweep_configs ! row"
  shows "prints (there argsort ps) (plot_row R show_np sweep_dirs sweep_prefixes 8 14 row) () (concat (map (savings_line show_np argsort ps c) [8..13]))"
proof -
  have c: "c \<in> set sweep_configs" using assms(2,3) three_configs by (metis nth_mem)
  obtain title where title: "py_index [''SLOnly'', ''ULOnly'', ''SL+UL''] (int row) = Inr title" using assms(2) by simp
  have "prints (there argsort ps) (plot_row R show_np sweep_dirs sweep_prefixes 8 14 row) ()
      ([] @ [] @ [] @ [] @ [] @ concat (map (savings_line show_np argsort ps c) [8..13]) @ [])"
    unfolding plot_row_def title sweep_zip [OF assms(2)] assms(3) [symmetric]
    by (rule prints_then, rule prints_draw_call, rule prints_bind, rule prints_lift, rule prints_then, rule prints_draw_call,
        rule prints_bind_pair, rule prints_lift, rule prints_then, rule prints_draw_call, rule prints_then, rule prints_panels [OF assms(1) c],
        rule prints_return)
  then show ?thesis by (simp only: append_Nil append_Nil2)
qed

lemma prints_comparison_row:
  assumes "reads_csv R" "row < 3" "c = sweep_configs ! row"
  shows "prints (there argsort ps) (comparison_row R show_np sweep_dirs sweep_prefixes 8 14 row) () (concat (map (savings_line show_np argsort ps c) [8..13]))"
proof -
  have c: "c \<in> set sweep_configs" using assms(2,3) three_configs by (metis nth_mem)
  obtain title where title: "py_index [''SO'', ''UO'', ''SU''] (int row) = Inr title" using assms(2) by simp
  have "prints (there argsort ps) (comparison_row R show_np sweep_dirs sweep_prefixes 8 14 row) ()
      ([] @ [] @ [] @ [] @ concat (map (savings_line show_np argsort ps c) [8..13]) @ [])"
    unfolding comparison_row_def title sweep_zip [OF assms(2)] assms(3) [symmetric]
    by (rule prints_then, rule prints_draw_calls, rule prints_bind, rule prints_lift, rule prints_then, rule prints_draw_call,
        rule prints_bind_pair, rule prints_lift, rule prints_then, rule prints_panels [OF assms(1) c], rule prints_return)
  then show ?thesis by (simp only: append_Nil append_Nil2)
qed

lemma three_rows: "subfigure_rows (length sweep_prefixes) = Inr [0..<3]" "length sweep_prefixes = 3"
  by (simp_all add: subfigure_rows_def sweep_prefixes_def three_configs)

lemma prints_multi_img:
  assumes "reads_csv R"
  shows "prints (there argsort ps) (multi_img R show_np sweep_dirs sweep_prefixes 8 14) () (savings_report show_np argsort ps)"
proof -
  have "prints (there argsort ps) (multi_img R show_np sweep_dirs sweep_prefixes 8 14) ()
      ((''WS,LRU,LFU,FIFO'' @ newline) @ [] @ [] @ concat (map (\<lambda>c. concat (map (savings_line show_np argsort ps c) [8..13])) sweep_configs) @ [] @ newline @ [])"
    unfolding multi_img_def three_rows(1)
    by (rule prints_then, rule prints_print_out, rule prints_then, rule prints_draw_calls, rule prints_bind, rule prints_lift, rule prints_then,
        rule prints_rows, rule prints_plot_row [OF assms], assumption, erule sym, rule prints_then, rule prints_draw_legend,
        rule prints_then, rule prints_print_out, rule prints_draw_calls)
  then show ?thesis by (simp only: savings_report_def append_Nil append_Nil2 append_assoc)
qed

lemma prints_comparison_multi_img:
  assumes "reads_csv R"
  shows "prints (there argsort ps) (comparison_multi_img R show_np sweep_dirs sweep_prefixes 8 14) () (savings_report show_np argsort ps)"
proof -
  have "prints (there argsort ps) (comparison_multi_img R show_np sweep_dirs sweep_prefixes 8 14) ()
      ((''WS,LRU,LFU,FIFO'' @ newline) @ [] @ [] @ concat (map (\<lambda>c. concat (map (savings_line show_np argsort ps c) [8..13])) sweep_configs) @ [] @ newline @ [])"
    unfolding comparison_multi_img_def three_rows(1)
    by (rule prints_then, rule prints_print_out, rule prints_then, rule prints_draw_calls, rule prints_bind, rule prints_lift, rule prints_then,
        rule prints_rows, rule prints_comparison_row [OF assms], assumption, erule sym, rule prints_then, rule prints_draw_legend,
        rule prints_then, rule prints_print_out, rule prints_draw_calls)
  then show ?thesis by (simp only: savings_report_def append_Nil append_Nil2 append_assoc)
qed


end
