(* ===== verification/CsvReader.thy ===== *)
theory CsvReader
  imports PacPlotProps
begin

text \<open>
  A reader of CSV files of two columns of numbers with the law that the plots need of \<open>read_csv\<close> of pandas, so that the property of
  sweep and plots has an instance; and what happens when the plots are started on the directories their own modules name.
\<close>

section \<open>Numbers\<close>

definition read_unsigned :: "string \<Rightarrow> rat" where
  "read_unsigned s =
     (case str_split ''.'' s of
        [a] \<Rightarrow> of_nat (nat_of_str a)
      | a # b # _ \<Rightarrow> of_nat (nat_of_str a) + of_nat (nat_of_str b) / 10 ^ length b
      | [] \<Rightarrow> 0)"

definition read_number :: "string \<Rightarrow> rat" where
  "read_number s = (if starts_with ''-'' s then - read_unsigned (tl s) else read_unsigned s)"

lemma digits_plain: "\<forall>c \<in> set s. is_digit c \<Longrightarrow> CHR ''.'' \<notin> set s \<and> CHR '','' \<notin> set s \<and> CHR 0x0D \<notin> set s \<and> CHR ''-'' \<notin> set s"
  by (auto simp: is_digit_def)

lemma read_unsigned_nat: "read_unsigned (nat_str n) = of_nat n"
  using digits_plain [OF nat_str_digits] by (simp add: read_unsigned_def str_split_last nat_of_str_nat_str)

lemma no_minus: "\<not> starts_with ''-'' (nat_str n @ s)"
  using digits_plain [OF nat_str_digits [of n]] nat_str_nonempty [of n] by (cases "nat_str n") (auto simp: starts_with_iff)

lemma read_int: "read_number (int_str i) = of_int i"
proof (cases "i < 0")
  case True
  then show ?thesis using read_unsigned_nat by (simp add: read_number_def int_str_def starts_with_def)
next
  case False
  then show ?thesis using no_minus [of "nat i" "[]"] read_unsigned_nat by (simp add: read_number_def int_str_def)
qed

text \<open>Zeros at the end of the decimals do not count.\<close>

lemma trailing_zeros: "of_nat (nat_of_str (s @ replicate k (CHR ''0''))) / 10 ^ (length s + k) = (of_nat (nat_of_str s) / 10 ^ length s :: rat)"
proof (induction k)
  case (Suc k)
  have "s @ replicate (Suc k) (CHR ''0'') = (s @ replicate k (CHR ''0'')) @ [CHR ''0'']" by (simp add: replicate_append_same)
  then have "nat_of_str (s @ replicate (Suc k) (CHR ''0'')) = 10 * nat_of_str (s @ replicate k (CHR ''0''))"
    by (simp only: nat_of_str_snoc) (simp add: digit_val_def)
  with Suc show ?case by simp
qed simp

lemma dropWhile_replicate: "\<exists>k. xs = replicate k c @ dropWhile (\<lambda>x. x = c) xs"
proof (induction xs)
  case (Cons x xs)
  then obtain k where "xs = replicate k c @ dropWhile (\<lambda>x. x = c) xs" by blast
  then show ?case by (cases "x = c") (auto intro: exI [of _ "Suc k"] exI [of _ 0])
qed simp

definition decimals :: "nat \<Rightarrow> string" where
  "decimals n = rev (dropWhile (\<lambda>c. c = CHR ''0'') (rev (four_digits n)))"

lemma four_digits_length: "length (four_digits n) = 4"
  by (simp add: four_digits_def)

lemma four_digits_value: "n < 10000 \<Longrightarrow> nat_of_str (four_digits n) = n"
proof -
  assume n: "n < 10000"
  have "n div 100 = n div 10 div 10" "n div 1000 = n div 10 div 10 div 10" by (simp_all add: div_mult2_eq [symmetric])
  then have v: "nat_of_str (four_digits n)
      = ((n div 10 div 10 div 10 mod 10 * 10 + n div 10 div 10 mod 10) * 10 + n div 10 mod 10) * 10 + n mod 10"
    by (simp add: four_digits_def nat_of_str_def)
  have "n div 10 div 10 div 10 < 10" using n by (simp add: div_mult2_eq [symmetric] less_mult_imp_div_less)
  then have "n div 10 div 10 div 10 mod 10 = n div 10 div 10 div 10" by simp
  with v show ?thesis by (simp only: div_mult_mod_eq)
qed

lemma decimals_value:
  assumes "n < 10000"
  shows "of_nat (nat_of_str (decimals n)) / 10 ^ length (decimals n) = (of_nat n / 10000 :: rat)"
proof -
  obtain k where "rev (four_digits n) = replicate k (CHR ''0'') @ rev (decimals n)"
    using dropWhile_replicate [of "rev (four_digits n)"] by (auto simp: decimals_def)
  then have d: "four_digits n = decimals n @ replicate k (CHR ''0'')" by (metis rev_append rev_replicate rev_rev_ident)
  then have "length (decimals n) + k = 4" by (metis four_digits_length length_append length_replicate)
  with trailing_zeros [of "decimals n" k] four_digits_value [OF assms] show ?thesis by (simp add: d [symmetric])
qed

lemma decimals_digits: "c \<in> set (decimals n) \<Longrightarrow> is_digit c"
proof -
  assume "c \<in> set (decimals n)"
  then have "c \<in> set (four_digits n)" by (auto simp: decimals_def dest: set_dropWhileD)
  then show ?thesis by (auto simp: four_digits_def is_digit_char)
qed

lemma float_digits: "0 \<le> x \<Longrightarrow> \<exists>a b. float_text x = a @ CHR ''.'' # b \<and> a = nat_str (nat (round (x * 10000)) div 10000) \<and>
    b = (if decimals (nat (round (x * 10000)) mod 10000) = [] then ''0'' else decimals (nat (round (x * 10000)) mod 10000))"
proof -
  assume "0 \<le> x"
  then have "0 \<le> round (x * 10000)" by (metis mult_nonneg_nonneg round_0 round_mono zero_le_numeral)
  then show ?thesis by (simp add: float_text_def Let_def decimals_def)
qed

lemma read_float:
  assumes "0 \<le> x" "of_int (round (x * 10000)) = x * 10000"
  shows "read_number (float_text x) = x"
proof -
  define n where "n = nat (round (x * 10000))"
  have "0 \<le> round (x * 10000)" using assms(1) by (metis mult_nonneg_nonneg round_0 round_mono zero_le_numeral)
  then have n: "of_nat n = x * 10000" using assms(2) by (simp add: n_def)
  define b where "b = (if decimals (n mod 10000) = [] then ''0'' else decimals (n mod 10000))"
  have t: "float_text x = nat_str (n div 10000) @ ''.'' @ b" using float_digits [OF assms(1)] by (simp add: n_def b_def)
  have "CHR ''.'' \<notin> set b" using digits_plain [of "decimals (n mod 10000)"] decimals_digits by (auto simp: b_def)
  then have "str_split ''.'' (float_text x) = [nat_str (n div 10000), b]"
    using digits_plain [OF nat_str_digits] str_split_field [of "''.''" "nat_str (n div 10000)" b]
    unfolding t by (simp add: str_split_last)
  moreover have "of_nat (nat_of_str b) / 10 ^ length b = (of_nat (n mod 10000) / 10000 :: rat)"
    using decimals_value [of "n mod 10000"] by (auto simp: b_def nat_of_str_def digit_val_def)
  ultimately have "read_unsigned (float_text x) = of_nat (n div 10000) + of_nat (n mod 10000) / 10000"
    by (simp add: read_unsigned_def nat_of_str_nat_str)
  moreover have "(of_nat n :: rat) = of_nat (n div 10000) * 10000 + of_nat (n mod 10000)"
    by (metis div_mult_mod_eq of_nat_add of_nat_mult of_nat_numeral)
  ultimately have "read_unsigned (float_text x) = x" using n by simp
  then show ?thesis using no_minus [of "n div 10000" "''.'' @ b"] by (simp add: read_number_def t)
qed

lemma read_num: "short_num a \<Longrightarrow> read_number (num_text a) = num_value a"
  by (cases a) (simp_all add: read_int read_float)

section \<open>Rows\<close>

definition read_row :: "string \<Rightarrow> (rat \<times> rat) result" where
  "read_row l = (case str_split '','' l of [a, b] \<Rightarrow> Inr (read_number a, read_number b) | _ \<Rightarrow> Inl ValueError)"

definition csv_numbers :: csv_reader where
  "csv_numbers bytes =
     (case utf8_decode bytes of
        None \<Rightarrow> Inl ValueError
      | Some s \<Rightarrow> res_map read_row (butlast (tl (str_split [CHR 0x0D, CHR 0x0A] s))))"

lemma int_plain: "CHR '','' \<notin> set (int_str i) \<and> CHR 0x0D \<notin> set (int_str i)"
  using digits_plain [OF nat_str_digits] by (simp add: int_str_def)

lemma num_plain: "short_num a \<Longrightarrow> CHR '','' \<notin> set (num_text a) \<and> CHR 0x0D \<notin> set (num_text a)"
proof (cases a)
  case (PyFloat x)
  assume "short_num a"
  with PyFloat obtain p q where t: "float_text x = p @ CHR ''.'' # q" "p = nat_str (nat (round (x * 10000)) div 10000)"
    "q = (if decimals (nat (round (x * 10000)) mod 10000) = [] then ''0'' else decimals (nat (round (x * 10000)) mod 10000))"
    using float_digits by auto
  have "\<forall>c \<in> set q. is_digit c" using decimals_digits unfolding t(3) by (auto simp: is_digit_def)
  then show ?thesis using digits_plain [of q] digits_plain [OF nat_str_digits] by (simp add: PyFloat t(1,2))
next
  case (PyInt i)
  then show ?thesis using int_plain by simp
qed

lemma split_nonempty: "str_split sep s \<noteq> []"
proof -
  have "split_go sep acc s \<noteq> []" for acc
    by (induction sep acc s rule: split_go.induct) (subst split_go.simps, simp)
  then show ?thesis by (simp add: str_split_def)
qed

lemma read_rows:
  "list_all (\<lambda>(a, n). short_num a) data \<Longrightarrow>
   res_map read_row (butlast (str_split [CHR 0x0D, CHR 0x0A] (concat (map (\<lambda>(a, n). csv_line [num_text a, int_str n]) data))))
     = Inr (map (\<lambda>(a, n). (num_value a, of_int n)) data)"
proof (induction data)
  case Nil
  show ?case by (simp add: str_split_last)
next
  case (Cons d data)
  obtain a n where d: "d = (a, n)" by fastforce
  have a: "short_num a" using Cons.prems d by simp
  let ?l = "num_text a @ '','' @ int_str n" and ?rest = "concat (map (\<lambda>(a, n). csv_line [num_text a, int_str n]) data)"
  have "str_split [CHR 0x0D, CHR 0x0A] (?l @ [CHR 0x0D, CHR 0x0A] @ ?rest) = ?l # str_split [CHR 0x0D, CHR 0x0A] ?rest"
    using num_plain [OF a] int_plain by (intro str_split_field) simp_all
  moreover have "str_split [CHR 0x0D, CHR 0x0A] ?rest \<noteq> []" by (rule split_nonempty)
  moreover have "str_split '','' ?l = [num_text a, int_str n]"
    using num_plain [OF a] int_plain split_join [of "'',''" "[num_text a, int_str n]"] by simp
  then have "read_row ?l = Inr (num_value a, of_int n)" by (simp add: read_row_def read_num [OF a] read_int)
  ultimately show ?case using Cons by (simp add: d csv_line_def)
qed

lemma csv_numbers_reads: "reads_csv csv_numbers"
  unfolding reads_csv_def
proof (intro allI impI)
  fix data :: "(py_num \<times> int) list"
  assume ok: "list_all (\<lambda>(a, n). short_num a) data"
  let ?rest = "concat (map (\<lambda>(a, n). csv_line [num_text a, int_str n]) data)"
  have "str_split [CHR 0x0D, CHR 0x0A] (''alpha,cache_miss'' @ [CHR 0x0D, CHR 0x0A] @ ?rest) = ''alpha,cache_miss'' # str_split [CHR 0x0D, CHR 0x0A] ?rest"
    by (intro str_split_field) simp_all
  then show "csv_numbers (utf8 (csv_text data)) = Inr (map (\<lambda>(a, n). (num_value a, of_int n)) data)"
    using read_rows [OF ok] by (simp add: csv_numbers_def csv_text_def csv_line_def)
qed

section \<open>The property, and the directories the plots look in\<close>

definition empty_world :: pac_world where
  "empty_world = \<lparr>fw_cwd = ''/'', fw_files = [], fw_time = (\<lambda>_. ''0.0''), fw_clock = 0, pw_out = [], pw_draw = []\<rparr>"

lemma empty_world_ready: "sweep_ready empty_world"
proof -
  have "cwd_dir empty_world = []" by (simp add: cwd_dir_def empty_world_def) code_simp
  then show ?thesis by (simp add: sweep_ready_def nodes_def fs_node_def) (simp add: empty_world_def od_get_def)
qed

lemma test_workspace_valid: "valid_pipelines get_test_workspace"
  by (simp add: valid_pipelines_def get_test_workspace_def valid_version_def)


text \<open>
  The driver writes to \<^verbatim>\<open>rand_r0.8i200_slonly\<close> and so on, the plots started as programs read \<^verbatim>\<open>r0.8i200_slonly\<close>: after a
  sweep in a directory without the latter they fail.
\<close>

definition fails :: "('z pac_world_scheme \<Rightarrow> bool) \<Rightarrow> ('z pac_world_scheme, 'a) io \<Rightarrow> py_error \<Rightarrow> bool" where
  "fails P f e \<longleftrightarrow> (\<forall>w. P w \<longrightarrow> fst (f w) = Inl e)"

lemma fails_bind: "fails P f e \<Longrightarrow> fails P (io_bind f g) e"
  unfolding fails_def by (fastforce simp: io_bind_def split: sum.splits prod.splits)

lemma fails_then: "fails P f e \<Longrightarrow> fails P (io_then f g) e"
  unfolding io_then_def by (rule fails_bind)

lemma fails_later: "prints P f x out \<Longrightarrow> fails P (g x) e \<Longrightarrow> fails P (io_bind f g) e"
  unfolding prints_def fails_def by (fastforce simp: io_bind_def)

lemma fails_then_later: "prints P f x out \<Longrightarrow> fails P g e \<Longrightarrow> fails P (io_then f g) e"
  unfolding io_then_def by (rule fails_later)

lemma fails_map: "fails P (f x) e \<Longrightarrow> fails P (io_map f (x # xs)) e"
  by (simp add: fails_bind)

lemma fails_fold: "fails P (f x acc) e \<Longrightarrow> fails P (io_fold f (x # xs) acc) e"
  by (simp add: fails_bind)

definition at_files :: "string \<Rightarrow> fs \<Rightarrow> 'z pac_world_scheme \<Rightarrow> bool" where
  "at_files c fs w \<longleftrightarrow> fw_cwd w = c \<and> fw_files w = fs"

lemma at_files_prints:
  "prints (at_files c fs) (print_out s) () s" "prints (at_files c fs) (draw_call t) () []" "prints (at_files c fs) (draw_calls ts) () []"
proof -
  show "prints (at_files c fs) (print_out s) () s" by (simp add: prints_def print_out_def at_files_def)
  show call: "prints (at_files c fs) (draw_call t) () []" for t by (simp add: prints_def draw_call_def at_files_def)
  show "prints (at_files c fs) (draw_calls ts) () []"
  proof (induction ts)
    case (Cons t ts)
    from prints_then [OF call Cons] show ?case by simp
  qed (simp add: prints_def)
qed

lemma first_panel_fails:
  assumes "fails (at_files c fs :: 'z pac_world_scheme \<Rightarrow> bool) (read_table R (path_join d (csv_name p 4 8))) e"
  shows "fails (at_files c fs :: 'z pac_world_scheme \<Rightarrow> bool) (panel_curves R show_np axes attrs d p 8) e"
proof -
  have "fails (at_files c fs :: 'z pac_world_scheme \<Rightarrow> bool) (io_fold (history_curve R axes attrs d p 8) (4 # [5..13]) (9999, [])) e"
    unfolding history_curve_def by (rule fails_fold, rule fails_bind, rule assms)
  moreover have "[4..13] = 4 # [5..13 :: int]" by simp
  ultimately show ?thesis unfolding panel_curves_def by (simp only: fails_bind)
qed

lemma plot_main_fails:
  assumes "fails (at_files c fs :: 'z pac_world_scheme \<Rightarrow> bool) (read_table R (path_join ''r0.8i200_slonly'' (csv_name ''slonly'' 4 8))) e"
  shows "fails (at_files c fs :: 'z pac_world_scheme \<Rightarrow> bool) (plot_main R show_np) e"
proof -
  let ?dirs = "[''r0.8i200_slonly'', ''r0.8i200_ulonly'', ''r0.8i200_slul'']" and ?ps = "[''slonly'', ''ulonly'', ''slul'']"
  have upto: "[8..14 - 1] = 8 # [9..13 :: int]" "[0..<3] = 0 # [1, 2 :: nat]" by (simp_all add: upt_rec)
  have idx: "py_index [''SLOnly'', ''ULOnly'', ''SL+UL''] (int 0) = Inr ''SLOnly''"
    "py_index (zip ?dirs ?ps) (int 0) = Inr (''r0.8i200_slonly'', ''slonly'')" by simp_all
  have "fails (at_files c fs :: 'z pac_world_scheme \<Rightarrow> bool) (plot_row R show_np ?dirs ?ps 8 14 0) e"
    unfolding plot_row_def idx upto(1) Let_def
    by (rule fails_then_later, rule at_files_prints, rule fails_later, rule prints_lift, rule fails_then_later, rule at_files_prints,
        rule fails_later, rule prints_lift, unfold prod.case, rule fails_then_later, rule at_files_prints, rule fails_then, rule fails_map,
        rule fails_then, rule first_panel_fails [OF assms])
  then have row: "fails (at_files c fs :: 'z pac_world_scheme \<Rightarrow> bool) (io_map (plot_row R show_np ?dirs ?ps 8 14) (0 # [1, 2])) e" by (rule fails_map)
  have rows: "subfigure_rows (length ?ps) = Inr (0 # [1, 2])" by (simp add: subfigure_rows_def upt_rec)
  show ?thesis
    unfolding plot_main_def multi_img_def rows
    by (rule fails_then_later, rule at_files_prints, rule fails_then_later, rule at_files_prints, rule fails_later, rule prints_lift,
        rule fails_then, rule row)
qed

theorem plots_miss_sweep:
  fixes w :: "'z pac_world_scheme"
  assumes "is_argsort argsort" and "valid_pipelines ps" and "sweep_ready w"
    and "nodes w (cwd_dir w @ [''r0.8i200_slonly'', ''slonly-h4w8.csv'']) = None"
  shows "\<exists>w1. sweep_main argsort ps w = (Inr (), w1) \<and> fst (plot_main R show_np w1) = Inl FileNotFoundError"
proof -
  let ?name = "path_join ''r0.8i200_slonly'' (csv_name ''slonly'' 4 8)" and ?p = "cwd_dir w @ [''r0.8i200_slonly'', ''slonly-h4w8.csv'']"
  from sweep_main_results [OF assms(1-3)] obtain w1 where w1: "sweep_main argsort ps w = (Inr (), w1)" "fw_cwd w1 = fw_cwd w"
    and rest: "\<And>q. \<forall>d \<in> set sweep_dirs. take (Suc (length (cwd_dir w))) q \<noteq> cwd_dir w @ [d] \<Longrightarrow> nodes w1 q = nodes w q"
    by metis
  have none: "nodes w1 ?p = None" using rest [of ?p] assms(4) by (simp add: sweep_dirs_def sweep_configs_def)
  have name: "csv_name ''slonly'' 4 8 = ''slonly-h4w8.csv''" by code_simp
  have "fw_cwd w1 \<noteq> []" using assms(3) w1(2) by (simp add: sweep_ready_def)
  then have at: "resolve w1 ?name = ?p"
    using resolve_file [of w1 "''r0.8i200_slonly''" "''slonly-h4w8.csv''"] w1(2) unfolding name by (simp add: cwd_dir_def plain_name_def)
  have "fails (at_files (fw_cwd w1) (fw_files w1) :: 'z pac_world_scheme \<Rightarrow> bool) (read_table R ?name) FileNotFoundError"
    using at none by (simp add: fails_def at_files_def read_table_def read_bytes_def node_at_def resolve_def nodes_def io_bind_def)
  then have "fails (at_files (fw_cwd w1) (fw_files w1) :: 'z pac_world_scheme \<Rightarrow> bool) (plot_main R show_np) FileNotFoundError" by (rule plot_main_fails)
  then have "fst (plot_main R show_np w1) = Inl FileNotFoundError" by (simp add: fails_def at_files_def)
  with w1(1) show ?thesis by blast
qed

end
