(* ===== verification/Spec2Isabelle.thy ===== *)
theory Spec2Isabelle
  imports CoordinatorExamples TrialManagerProps DatasetProps PacThms UstoreProps Pep249Props ExpRunnerProps LedgeBase StoreEngines TreeKept WebApi
    ArchiveCopy Pep249Store Push CsvReader
begin

text \<open>
  SecCask runs machine-learning pipelines: a user commits libraries and data sets, composes them into workspaces, and a coordinator
  executes the components of a workspace on a pool of (enclave) workers that are kept and reused. This development models its Python sources
  (\<^verbatim>\<open>src/pysrc\<close>) and, where Python calls into it, the event loop and the printed replies of the C++ side
  (\<^verbatim>\<open>src/csrc/coordinator.cc\<close>, \<^verbatim>\<open>src/include/seccask/ustore.h\<close>).

  \<^bold>\<open>How the code is modelled.\<close> A Python exception is a value of \<open>py_error\<close>; a function that may raise has a result of type
  \<open>py_error + 'a\<close>. Code with effects is a function from the state to the result and the state it leaves (theory Io), so what was done
  before an exception stays done. \<open>Blocked\<close> stands for a call that never returns and \<open>ProcessExit\<close> for \<^verbatim>\<open>os._exit\<close>; no handler
  catches them. A dictionary is an association list in insertion order, a class is a record, objects that are shared live in
  a heap (a function from addresses). Text is a list of characters with code points below 256; integers are unbounded, as in Python, but for the
  32-bit arrays of numpy and the 4-byte length of a message. The file system is a table from paths to nodes with a working directory and a
  clock (theory Files).

  \<^bold>\<open>Parts, theories and sources.\<close>
  \<^item> Ground: Prelude, PyString, Io, Json, ConfigParser, IniFile, Files, Utils (\<^verbatim>\<open>pipeman/utils.py\<close>): Python's dictionaries, strings, regular
    expressions, \<open>json\<close>, \<open>configparser\<close> and \<open>os\<close>, as far as the program uses them.
  \<^item> Names: Version (\<^verbatim>\<open>pipeman/version.py\<close>), MetaKey and MetaConfig (\<^verbatim>\<open>pipeman/meta.py\<close>), Config (\<^verbatim>\<open>pipeman/config.py\<close>, \<^verbatim>\<open>env.py\<close>). Printing and
    parsing are inverse on well-formed values.
  \<^item> Worker pool: Manifest and Package (\<^verbatim>\<open>manifest.py\<close>, \<^verbatim>\<open>package.py\<close>), Message (\<^verbatim>\<open>daemon/message.py\<close>), ExecComponent
    (\<^verbatim>\<open>daemon/worker.py\<close>), WorkerConn (\<^verbatim>\<open>workerconn.py\<close>), WorkerCache (\<^verbatim>\<open>worker_cache.py\<close>), Pipeline (\<^verbatim>\<open>pipeline.py\<close> and the task monitor of
    \<^verbatim>\<open>daemon/coordinator.py\<close>), Scheduler (\<^verbatim>\<open>scheduler.py\<close>), Coordinator (the event loop of \<^verbatim>\<open>coordinator.cc\<close> as a step relation). SchedulerProps
    says which worker a component gets; CoordinatorProps proves invariants of all reachable states, when the loop accepts a component,
    and when it is stuck; CoordinatorExamples evaluates runs. WebApi (\<^verbatim>\<open>daemon/webapi.py\<close>): the routes that show this state; Push: its websockets and the queues they wait on, as a
    step relation over any number of clients, with an invariant that says who is sent which log entries.
  \<^item> Storage: Storage (\<^verbatim>\<open>pipeman/storage.py\<close>, \<^verbatim>\<open>store/base_storage.py\<close>) over a record of operations \<open>phys_store\<close>; the engines FsStore
    (\<^verbatim>\<open>store/filesystem.py\<close>), UstoreReturn and Ustore (\<^verbatim>\<open>store/ustorecli.py\<close>, \<^verbatim>\<open>ustoreconf.py\<close>), Pep249 (\<^verbatim>\<open>store/pep249.py\<close>), LedgeBase
    (\<^verbatim>\<open>store/ledgebase.py\<close>) and StoreEngines (\<^verbatim>\<open>store/__init__.py\<close>, \<^verbatim>\<open>rocksdb.py\<close>, \<^verbatim>\<open>ssh.py\<close>). StorageSpec states the contract of an engine as the locale
    \<open>version_store\<close> (an abstract map of versions and heads), FsStoreProps shows that the file system engine refines it, StorageProps
    draws the consequences for the logical storages. Pep249Spec states what the relational engine asks of a database as the locale \<open>sql_tables\<close>;
    Pep249Props interprets it on an in-memory database and proves the round trip and the behaviour of the connection pool; Pep249Store shows that
    the engine implements \<open>version_store\<close> too, so what holds of the logical storages holds over it.
    UstoreProps treats replies and retries.
  \<^item> Archives: Zip and Unzip (\<^verbatim>\<open>thirdparty/stream_zip\<close>, \<^verbatim>\<open>thirdparty/stream_unzip_orig\<close>), the writer and the reader of zip archives over
    bytes and 64-bit sizes; ZipProps proves when writing succeeds and that reading gives back what was written, however the bytes are cut into chunks.
    Archives gives them to \<^verbatim>\<open>pipeman/file.py\<close>, ArchiveCopy proves that packing and unpacking copies a folder.
  \<^item> Pipelines: FileUtils (\<^verbatim>\<open>pipeman/file.py\<close>), Managers (\<^verbatim>\<open>librarymanager.py\<close>, \<^verbatim>\<open>datasetmanager.py\<close>, \<^verbatim>\<open>solutionmanager.py\<close>,
    \<^verbatim>\<open>workspace.py\<close>), TrialTree (\<^verbatim>\<open>TrialTree.py\<close>), TrialManager (\<^verbatim>\<open>trialmanager.py\<close>), ExpRunner (\<^verbatim>\<open>exp_runner.py\<close>, \<^verbatim>\<open>profiler.py\<close>). TrialTreeProps and
    TrialTreeThms characterise the candidates of a trial tree and their training (TrialTreeMarks: which nodes count as trained), ManagersProps and DatasetProps the versions and schemas the managers
    choose, TrialManagerProps the components that run, ExpRunnerProps the workspace an experiment commits.
  \<^item> The whole: FileTree and TreeKept follow one type of state, a file table that is a tree, through every operation up to an experiment,
    over any engine that keeps it (locale \<open>tree_store\<close>), among them the file system engine.
  \<^item> Cache simulator: Pac (\<^verbatim>\<open>pac/cache.py\<close>, \<^verbatim>\<open>vsm.py\<close>, \<^verbatim>\<open>history.py\<close>, \<^verbatim>\<open>vartypes.py\<close>, \<^verbatim>\<open>test_pac.py\<close>), PacPolicy (the contract of a replacement policy,
    locale \<open>cache_policy\<close>, interpreted on LRU, FIFO, LFU and the pipeline-aware cache), PacSearch (the search for the worker to let go),
    PacProps (score matrices are probability distributions) and PacThms. PacSweep is the rest of the driver \<^verbatim>\<open>test_pac.py\<close>: the sweep over
    sizes and histories, what it prints, its CSV files; PacPlot the plots of its results (\<^verbatim>\<open>pac/plot.py\<close>, \<^verbatim>\<open>pac/result/comparison_figure.py\<close>).
    PacSweepProps and PacPlotProps prove that the sweep succeeds and what both plots then report; CsvReader has a reader of the files that
    obeys the law asked of pandas, and shows which directories the plots miss.

  \<^bold>\<open>Parameters.\<close> What is not in the repository, or is native code, is an argument: SHA-256 and MD5, the YAML parser, the C++
  coordinator and profiler as \<^verbatim>\<open>trialmanager.py\<close> calls them, \<open>uuid\<close>, \<open>mkdtemp\<close>, \<open>repr\<close>, \<open>pickle\<close>, the SQL driver, the module \<open>cpp_glassdb\<close>,
  SSH, RocksDB, \<open>numpy.argsort\<close>, the random workload of the simulator, \<open>read_csv\<close> of pandas, how numpy prints a
  number, the order in which a Python set is visited, the clock. Theorems that need something of them say so in a
  hypothesis (a 64-digit digest, a permutation that sorts, the meaning of the five SQL statements).

  \<^bold>\<open>Bounds and fuel.\<close> The lineage of a branch is as long as its history, which may even be a cycle in a broken store, so \<open>lineage_from\<close> takes fuel and
  gives \<open>None\<close> when it runs out; no theorem claims anything of that case. The search of the pipeline-aware cache is a loop whose fuel is
  proved to be enough (\<open>worker_search_terminates\<close>). The retries of a UStore command, the walk of a directory and all parsers terminate by a measure; the JSON
  parser's fuel exceeds the length of the text. Interpolation of configuration values has Python's own depth limit of ten. Scores of the simulator are
  exact rationals where the code computes in floating point.

  \<^bold>\<open>Not modelled.\<close> The start of the server of \<^verbatim>\<open>daemon/webapi.py\<close>; of the zip modules the compressing and the encrypting methods, which nothing
  calls. The C++ sources of the enclave (attestation, encrypted files, sockets, threads), the vendored copies of modules of the standard library
  and the bindings of the ledger, the launcher and other scripts, and the \<^verbatim>\<open>__main__\<close> blocks that only try modules out. Of modelled modules: logging,
  \<open>__repr__\<close>, measured times, how a drawn figure looks, and \<open>get_parent_entity_of_semantic_version\<close>, which hands a list to an operation that expects a version.
\<close>

end
